(* ===== verification/Js_Double.thy ===== *)
theory Js_Double
  imports Complex_Main
begin

text \<open>
  Numbers of the source language.  A TypeScript \<open>number\<close> is an IEEE 754 double.  A finite
  double is represented by the rational it denotes; every arithmetic result is the exact
  rational rounded to the nearest double, ties to even, by \<open>round_double\<close> (53 significant
  bits, smallest exponent \<open>-1074\<close>), and a magnitude of \<open>2 ^ 1024\<close> or more is an infinity.
  The two zeros are identified: no modelled code observes the sign of a zero.
\<close>

section \<open>Rounding to the nearest double\<close>

fun bit_length :: "nat \<Rightarrow> nat" where
  "bit_length n = (if n = 0 then 0 else Suc (bit_length (n div 2)))"

declare bit_length.simps [simp del]

definition ilog2 :: "rat \<Rightarrow> int" where
  "ilog2 x = (let (p, q) = quotient_of x; k = int (bit_length (nat p)) - int (bit_length (nat q))
     in if 2 powi k \<le> x then k else k - 1)"

definition round_even :: "rat \<Rightarrow> int" where
  "round_even x = (let f = \<lfloor>x\<rfloor>; d = x - of_int f
     in if d < 1/2 then f else if 1/2 < d then f + 1 else if even f then f else f + 1)"

definition ulp_exp :: "rat \<Rightarrow> int" where
  "ulp_exp x = max (ilog2 \<bar>x\<bar> - 52) (-1074)"

definition round_double :: "rat \<Rightarrow> rat" where
  "round_double x = (if x = 0 then 0
     else of_int (round_even (x / 2 powi ulp_exp x)) * 2 powi ulp_exp x)"

lemma bit_length_bounds: "0 < n \<Longrightarrow> 2 ^ (bit_length n - 1) \<le> n \<and> n < 2 ^ bit_length n \<and> 0 < bit_length n"
proof (induction n rule: bit_length.induct)
  case (1 n)
  show ?case
  proof (cases "n div 2 = 0")
    case True
    with 1 have "n = 1" by auto
    then show ?thesis by (simp add: bit_length.simps)
  next
    case False
    let ?b = "bit_length (n div 2)"
    have IH: "2 ^ (?b - 1) \<le> n div 2" "n div 2 < 2 ^ ?b" "0 < ?b"
      using 1 False by auto
    have e: "(2::nat) ^ ?b = 2 * 2 ^ (?b - 1)"
      using IH(3) by (metis Suc_pred' power_Suc)
    have b: "bit_length n = Suc ?b"
      using "1.prems" by (subst bit_length.simps) simp
    from IH(1) have "2 * 2 ^ (?b - 1) \<le> n" by linarith
    moreover from IH(2) have "n < 2 * 2 ^ ?b" by linarith
    ultimately show ?thesis unfolding b using e by simp
  qed
qed

lemma ilog2_bounds:
  assumes "0 < x"
  shows "2 powi ilog2 x \<le> x" and "x < 2 powi (ilog2 x + 1)"
proof -
  obtain p q where pq: "quotient_of x = (p, q)" by fastforce
  have q: "0 < q" using pq quotient_of_denom_pos by blast
  have x: "x = of_int p / of_int q" using pq by (rule quotient_of_div)
  have p: "0 < p" using assms q x by (simp add: zero_less_divide_iff)
  let ?bp = "bit_length (nat p)" and ?bq = "bit_length (nat q)"
  let ?k = "int ?bp - int ?bq"
  have P: "2 ^ (?bp - 1) \<le> nat p" "nat p < 2 ^ ?bp" "0 < ?bp"
    using bit_length_bounds[of "nat p"] p by auto
  have Q: "2 ^ (?bq - 1) \<le> nat q" "nat q < 2 ^ ?bq" "0 < ?bq"
    using bit_length_bounds[of "nat q"] q by auto
  have P': "(2::rat) ^ (?bp - 1) \<le> of_int p" "(of_int p :: rat) < 2 ^ ?bp"
    using P(1,2) p by (metis of_int_of_nat_eq of_nat_le_iff of_nat_numeral of_nat_power nat_0_le order_less_imp_le,
      metis of_int_of_nat_eq of_nat_less_iff of_nat_numeral of_nat_power nat_0_le order_less_imp_le p)
  have Q': "(2::rat) ^ (?bq - 1) \<le> of_int q" "(of_int q :: rat) < 2 ^ ?bq"
    using Q(1,2) q by (metis of_int_of_nat_eq of_nat_le_iff of_nat_numeral of_nat_power nat_0_le order_less_imp_le,
      metis of_int_of_nat_eq of_nat_less_iff of_nat_numeral of_nat_power nat_0_le order_less_imp_le q)
  have up: "x < 2 powi (?k + 1)"
  proof -
    have "x < 2 ^ ?bp / 2 ^ (?bq - 1)"
      unfolding x using P' Q' p q by (intro frac_less) auto
    also have "\<dots> = 2 powi (?k + 1)"
      using Q(3) by (simp add: power_int_diff power_int_add flip: power_int_of_nat)
    finally show ?thesis .
  qed
  have lo: "2 powi (?k - 1) \<le> x"
  proof -
    have "2 powi (?k - 1) = (2::rat) ^ (?bp - 1) / 2 ^ ?bq"
      using P(3) by (simp add: power_int_diff flip: power_int_of_nat)
    also have "\<dots> \<le> x"
      unfolding x using P' Q' p q by (intro frac_le) auto
    finally show ?thesis .
  qed
  show "2 powi ilog2 x \<le> x" "x < 2 powi (ilog2 x + 1)"
    using up lo by (auto simp: ilog2_def pq Let_def)
qed

lemma powi_2_less [simp]: "(2::rat) powi a < 2 powi b \<longleftrightarrow> a < b"
  by (metis linorder_neqE_linordered_idom numeral_less_iff one_less_numeral_iff order_less_asym
    power_int_strict_increasing semiring_norm(76) order_less_irrefl)

lemma powi_2_le [simp]: "(2::rat) powi a \<le> 2 powi b \<longleftrightarrow> a \<le> b"
  using powi_2_less[of b a] by linarith

lemma ilog2_unique:
  assumes "2 powi k \<le> x" "x < 2 powi (k + 1)"
  shows "ilog2 x = k"
proof -
  have "0 < x" by (rule less_le_trans[OF _ assms(1)]) simp
  note b = ilog2_bounds[OF this]
  have "(2::rat) powi k < 2 powi (ilog2 x + 1)" using assms(1) b(2) by linarith
  moreover have "(2::rat) powi ilog2 x < 2 powi (k + 1)" using assms(2) b(1) by linarith
  ultimately show ?thesis by (simp only: powi_2_less)
qed

lemma ilog2_mono: "0 < x \<Longrightarrow> x \<le> y \<Longrightarrow> ilog2 x \<le> ilog2 y"
proof (rule ccontr)
  assume a: "0 < x" "x \<le> y" "\<not> ilog2 x \<le> ilog2 y"
  then have "(2::rat) powi (ilog2 y + 1) \<le> 2 powi ilog2 x"
    by (intro power_int_increasing) auto
  with ilog2_bounds(1)[of x] ilog2_bounds(2)[of y] a show False by simp
qed

lemma round_even_of_int [simp]: "round_even (of_int n) = n"
  by (simp add: round_even_def)

lemma round_even_bounds: "\<lfloor>x\<rfloor> \<le> round_even x" "round_even x \<le> \<lfloor>x\<rfloor> + 1"
  by (auto simp: round_even_def Let_def)

lemma round_even_mono: "x \<le> y \<Longrightarrow> round_even x \<le> round_even y"
proof -
  assume xy: "x \<le> y"
  show ?thesis
  proof (cases "\<lfloor>x\<rfloor> = \<lfloor>y\<rfloor>")
    case True
    with xy show ?thesis by (auto simp: round_even_def Let_def)
  next
    case False
    then have "\<lfloor>x\<rfloor> + 1 \<le> \<lfloor>y\<rfloor>" using floor_mono[OF xy] by linarith
    with round_even_bounds[of x] round_even_bounds[of y] show ?thesis by linarith
  qed
qed

lemma round_even_minus: "round_even (- x) = - round_even x"
proof (cases "x = of_int \<lfloor>x\<rfloor>")
  case True
  then show ?thesis by (metis of_int_minus round_even_of_int)
next
  case False
  then have f: "\<lfloor>- x\<rfloor> = - \<lfloor>x\<rfloor> - 1"
    by (simp add: floor_minus ceiling_altdef)
  show ?thesis
    by (auto simp: round_even_def Let_def f)
qed

lemma ulp_exp_minus [simp]: "ulp_exp (- x) = ulp_exp x"
  by (simp add: ulp_exp_def)

lemma round_double_0 [simp]: "round_double 0 = 0"
  by (simp add: round_double_def)

lemma round_double_minus: "round_double (- x) = - round_double x"
  by (simp add: round_double_def round_even_minus)

lemma round_double_nonneg: "0 \<le> x \<Longrightarrow> 0 \<le> round_double x"
proof -
  assume "0 \<le> x"
  then have "0 \<le> x / 2 powi ulp_exp x" by simp
  then have "round_even 0 \<le> round_even (x / 2 powi ulp_exp x)" by (rule round_even_mono)
  then show ?thesis
    using round_even_of_int[of 0] by (simp add: round_double_def)
qed

lemma round_double_mono_pos:
  assumes "0 < x" "x \<le> y"
  shows "round_double x \<le> round_double y"
proof -
  let ?e = "ulp_exp x" and ?d = "ulp_exp y"
  have ed: "?e \<le> ?d" using ilog2_mono[OF assms] assms by (simp add: ulp_exp_def)
  show ?thesis
  proof (cases "?e = ?d")
    case True
    have "round_even (x / 2 powi ?d) \<le> round_even (y / 2 powi ?d)"
      using assms by (intro round_even_mono divide_right_mono) auto
    with True assms show ?thesis by (simp add: round_double_def mult_right_mono)
  next
    case False
    with ed have lt: "?e + 1 \<le> ?d" by simp
    then have d: "?d = ilog2 y - 52" using assms by (simp add: ulp_exp_def split: if_splits)
    have e: "ilog2 x - 52 \<le> ?e" using assms by (simp add: ulp_exp_def)
    have "2 powi (?d + 52) \<le> y" using ilog2_bounds(1)[of y] assms d by simp
    then have "of_int (2 ^ 52) \<le> y / 2 powi ?d" by (simp add: power_int_add field_simps)
    then have "2 ^ 52 \<le> round_even (y / 2 powi ?d)"
      using round_even_mono[of "of_int (2 ^ 52)"] round_even_of_int by metis
    then have "of_int (2 ^ 52) \<le> (of_int (round_even (y / 2 powi ?d)) :: rat)"
      by (simp only: of_int_le_iff)
    then have hi: "2 powi (?d + 52) \<le> round_double y"
      using assms by (simp add: round_double_def power_int_add mult_right_mono mult.commute)
    have "x < 2 powi (ilog2 x + 1)" using ilog2_bounds(2)[of x] assms by simp
    also have "\<dots> \<le> 2 powi (?e + 53)" using e by simp
    finally have "x / 2 powi ?e \<le> of_int (2 ^ 53)" by (simp add: power_int_add field_simps)
    then have "round_even (x / 2 powi ?e) \<le> 2 ^ 53"
      using round_even_mono[of _ "of_int (2 ^ 53)"] round_even_of_int by metis
    then have "of_int (round_even (x / 2 powi ?e)) \<le> (of_int (2 ^ 53) :: rat)"
      by (simp only: of_int_le_iff)
    then have lo: "round_double x \<le> 2 powi (?e + 53)"
      using assms by (simp add: round_double_def power_int_add mult_right_mono mult.commute)
    have "(2::rat) powi (?e + 53) \<le> 2 powi (?d + 52)" using lt by simp
    with lo hi show ?thesis by linarith
  qed
qed

theorem round_double_mono: "x \<le> y \<Longrightarrow> round_double x \<le> round_double y"
proof -
  assume xy: "x \<le> y"
  consider "0 < x" | "x \<le> 0" "0 \<le> y" | "y < 0" by linarith
  then show ?thesis
  proof cases
    case 1
    then show ?thesis using xy by (rule round_double_mono_pos)
  next
    case 2
    then have "0 \<le> round_double (- x)" "0 \<le> round_double y" by (auto intro: round_double_nonneg)
    then show ?thesis by (simp add: round_double_minus)
  next
    case 3
    then have "round_double (- y) \<le> round_double (- x)" using xy by (intro round_double_mono_pos) auto
    then show ?thesis by (simp add: round_double_minus)
  qed
qed

lemma round_double_exact:
  assumes "x = of_int m * 2 powi e" "-1074 \<le> e" "\<bar>m\<bar> \<le> 2 ^ 53"
  shows "round_double x = x"
proof (cases "x = 0")
  case False
  have ge: "2 powi ilog2 \<bar>x\<bar> \<le> \<bar>x\<bar>" using ilog2_bounds(1)[of "\<bar>x\<bar>"] False by simp
  have abs: "\<bar>x\<bar> \<le> 2 powi (e + 53)"
  proof -
    have "(of_int \<bar>m\<bar> :: rat) \<le> of_int (2 ^ 53)" using assms(3) by (simp only: of_int_le_iff)
    then show ?thesis using assms(1) by (simp add: abs_mult power_int_add mult_right_mono mult.commute)
  qed
  show ?thesis
  proof (cases "\<bar>x\<bar> = 2 powi (e + 53)")
    case True
    have "\<exists>n. x / 2 powi ulp_exp x = of_int n"
    proof -
      have l: "ilog2 \<bar>x\<bar> = e + 53"
        unfolding True by (rule ilog2_unique) simp_all
      then have u: "ulp_exp x = max (e + 1) (-1074)" by (simp add: ulp_exp_def)
      with assms(2) have u': "ulp_exp x = e + 1" by simp
      have "x / 2 powi (e + 1) = sgn x * 2 ^ 52"
      proof -
        have "x = sgn x * \<bar>x\<bar>" by (simp add: sgn_mult_abs)
        then have "x / 2 powi (e + 1) = sgn x * (2 powi (e + 53) / 2 powi (e + 1))" using True by (metis times_divide_eq_right)
        also have "2 powi (e + 53) / 2 powi (e + 1) = (2::rat) powi 52"
          by (simp flip: power_int_diff)
        finally show ?thesis by simp
      qed
      also have "\<dots> = of_int (sgn (if 0 < x then 1 else -1) * 2 ^ 52)"
        using False by (auto simp: sgn_if)
      finally show ?thesis unfolding u' by blast
    qed
    then obtain n where n: "x / 2 powi ulp_exp x = of_int n" by blast
    then have "round_double x = of_int n * 2 powi ulp_exp x" using False by (simp add: round_double_def)
    also have "\<dots> = x" using n by (simp add: field_simps)
    finally show ?thesis .
  next
    case ne: False
    with abs have "\<bar>x\<bar> < 2 powi (e + 53)" by simp
    with ge have "(2::rat) powi ilog2 \<bar>x\<bar> < 2 powi (e + 53)" by linarith
    then have "ilog2 \<bar>x\<bar> < e + 53" using powi_2_le linorder_not_le by metis
    then have u: "ulp_exp x \<le> e" using assms(2) by (simp add: ulp_exp_def)
    have "x / 2 powi ulp_exp x = of_int m * 2 powi (e - ulp_exp x)"
      using assms(1) by (simp add: power_int_diff)
    also have "\<dots> = of_int (m * 2 ^ nat (e - ulp_exp x))" using u by (simp add: power_int_def)
    finally have q: "x / 2 powi ulp_exp x = of_int (m * 2 ^ nat (e - ulp_exp x))" .
    then have "round_double x = of_int (m * 2 ^ nat (e - ulp_exp x)) * 2 powi ulp_exp x"
      unfolding round_double_def q round_even_of_int using False by simp
    also have "\<dots> = x" unfolding q[symmetric] by simp
    finally show ?thesis .
  qed
qed simp

corollary round_double_of_int: "\<bar>n\<bar> \<le> 2 ^ 53 \<Longrightarrow> round_double (of_int n) = of_int n"
  by (rule round_double_exact[where m = n and e = 0]) auto

section \<open>Evaluation\<close>

text \<open>\<open>ilog2\<close> on binary integers, for evaluating closed terms inside the kernel.\<close>

function int_bits :: "int \<Rightarrow> int" where
  "int_bits n = (if n \<le> 0 then 0 else 1 + int_bits (n div 2))"
  by pat_completeness auto
termination
  by (relation "measure nat") auto

declare int_bits.simps [simp del]

lemma int_bits_eq: "int_bits n = int (bit_length (nat n))"
proof (induction n rule: int_bits.induct)
  case (1 n)
  show ?case
  proof (cases "n \<le> 0")
    case True
    then show ?thesis by (simp add: int_bits.simps bit_length.simps)
  next
    case False
    then have "nat (n div 2) = nat n div 2" by (simp add: nat_div_distrib)
    with 1 False show ?thesis by (simp add: int_bits.simps[of n] bit_length.simps[of "nat n"])
  qed
qed

lemma ilog2_code [code]:
  "ilog2 x = (let (p, q) = quotient_of x; k = int_bits p - int_bits q
     in if 2 powi k \<le> x then k else k - 1)"
  by (simp add: ilog2_def int_bits_eq)

end
