(* ===== verification/Zaps_Prelude.thy ===== *)
theory Zaps_Prelude
  imports Main
begin

text \<open>
  Vocabulary shared by every component of the development.

  The TypeScript sources are asynchronous and fallible.  An \<open>async\<close> function is modelled
  as a function from the state of the world it runs in to a settled promise and the
  world it leaves behind: \<^typ>\<open>'a\<close> results are wrapped in \<open>res\<close>, whose constructor
  \<open>Throw\<close> is a rejected promise (or a thrown error) and \<open>Ret\<close> a fulfilled one.  The
  world is a type variable: storage, network and clock belong to packages and services
  outside the repository, so they are arguments of the definitions, and what the code
  relies on is stated in the locales of \<open>Platform\<close>.
\<close>

named_theorems io_simps \<open>unfolding of the promise combinators\<close>

section \<open>Settled promises and asynchronous computations\<close>

datatype js_error =
    Err (err_msg: string) (err_code: "string option") (err_status: "int option")
  | NonError

datatype 'a res = Throw js_error | Ret 'a

text \<open>\<open>Error m\<close> is \<open>new Error(m)\<close>; \<open>message_or d e\<close> is \<open>e instanceof Error ? e.message : d\<close>.\<close>

definition Error :: "string \<Rightarrow> js_error" where
  "Error m = Err m None None"

fun message_or :: "string \<Rightarrow> js_error \<Rightarrow> string" where
  "message_or d (Err m _ _) = m"
| "message_or d NonError = d"

fun is_Ret :: "'a res \<Rightarrow> bool" where
  "is_Ret (Ret _) = True"
| "is_Ret (Throw _) = False"

type_synonym ('w, 'a) io = "'w \<Rightarrow> 'a res \<times> 'w"

definition ret :: "'a \<Rightarrow> ('w, 'a) io" where
  "ret a = (\<lambda>w. (Ret a, w))"

definition throw :: "js_error \<Rightarrow> ('w, 'a) io" where
  "throw e = (\<lambda>w. (Throw e, w))"

text \<open>\<open>bnd m f\<close> is \<open>const x = await m; f(x)\<close>.\<close>

definition bnd :: "('w, 'a) io \<Rightarrow> ('a \<Rightarrow> ('w, 'b) io) \<Rightarrow> ('w, 'b) io" where
  "bnd m f = (\<lambda>w. case m w of (Throw e, w') \<Rightarrow> (Throw e, w') | (Ret a, w') \<Rightarrow> f a w')"

text \<open>\<open>try_catch m h\<close> is \<open>try { m } catch (e) { h(e) }\<close>.\<close>

definition try_catch :: "('w, 'a) io \<Rightarrow> (js_error \<Rightarrow> ('w, 'a) io) \<Rightarrow> ('w, 'a) io" where
  "try_catch m h = (\<lambda>w. case m w of (Throw e, w') \<Rightarrow> h e w' | (Ret a, w') \<Rightarrow> (Ret a, w'))"

text \<open>\<open>always m f\<close> is \<open>try { m } finally { f }\<close> for an \<open>f\<close> that only updates state.\<close>

definition always :: "('w, 'a) io \<Rightarrow> ('w \<Rightarrow> 'w) \<Rightarrow> ('w, 'a) io" where
  "always m f = (\<lambda>w. case m w of (r, w') \<Rightarrow> (r, f w'))"

text \<open>Synchronous reads and writes of the world.\<close>

definition reads :: "('w \<Rightarrow> 'a res) \<Rightarrow> ('w, 'a) io" where
  "reads f = (\<lambda>w. (f w, w))"

definition asks :: "('w \<Rightarrow> 'a) \<Rightarrow> ('w, 'a) io" where
  "asks f = (\<lambda>w. (Ret (f w), w))"

definition modifies :: "('w \<Rightarrow> 'w) \<Rightarrow> ('w, unit) io" where
  "modifies f = (\<lambda>w. (Ret (), f w))"

lemma ret_apply [simp, io_simps]: "ret a w = (Ret a, w)"
  by (simp add: ret_def)

lemma throw_apply [simp, io_simps]: "throw e w = (Throw e, w)"
  by (simp add: throw_def)

lemma reads_apply [simp, io_simps]: "reads f w = (f w, w)"
  by (simp add: reads_def)

lemma asks_apply [simp, io_simps]: "asks f w = (Ret (f w), w)"
  by (simp add: asks_def)

lemma modifies_apply [simp, io_simps]: "modifies f w = (Ret (), f w)"
  by (simp add: modifies_def)

lemma bnd_apply [io_simps]:
  "bnd m f w = (case m w of (Throw e, w') \<Rightarrow> (Throw e, w') | (Ret a, w') \<Rightarrow> f a w')"
  by (simp add: bnd_def)

lemma try_catch_apply [io_simps]:
  "try_catch m h w = (case m w of (Throw e, w') \<Rightarrow> h e w' | (Ret a, w') \<Rightarrow> (Ret a, w'))"
  by (simp add: try_catch_def)

lemma always_apply [io_simps]: "always m f w = (case m w of (r, w') \<Rightarrow> (r, f w'))"
  by (simp add: always_def)

lemma bnd_Ret [simp]: "m w = (Ret a, w') \<Longrightarrow> bnd m f w = f a w'"
  by (simp add: bnd_def)

lemma bnd_Throw [simp]: "m w = (Throw e, w') \<Longrightarrow> bnd m f w = (Throw e, w')"
  by (simp add: bnd_def)

lemma try_catch_Ret [simp]: "m w = (Ret a, w') \<Longrightarrow> try_catch m h w = (Ret a, w')"
  by (simp add: try_catch_def)

lemma try_catch_Throw [simp]: "m w = (Throw e, w') \<Longrightarrow> try_catch m h w = h e w'"
  by (simp add: try_catch_def)

lemma bnd_assoc: "bnd (bnd m f) g = bnd m (\<lambda>a. bnd (f a) g)"
  by (rule ext) (simp add: bnd_def split: prod.splits res.splits)

lemma bnd_RetE: "bnd m f w = (Ret u, w') \<Longrightarrow> \<exists>a v. m w = (Ret a, v) \<and> f a v = (Ret u, w')"
  by (auto simp: bnd_def split: prod.splits res.splits)

lemma try_catch_never_throws:
  "(\<And>e v. is_Ret (fst (h e v))) \<Longrightarrow> is_Ret (fst (try_catch m h w))"
  by (simp add: try_catch_def split: prod.splits res.splits)

end
