(* ===== verification/Js_String.thy ===== *)
theory Js_String
  imports Zaps_Prelude
begin

text \<open>
  Strings of the source language.  A string is the list of the bytes of its UTF-8 encoding.
  On ASCII text this is the list of its characters; equality, concatenation, prefixes,
  substrings and splitting at an ASCII character agree with the language on every
  well-formed string.  Case mapping and trimming are modelled on the ASCII range, the range
  of the identifiers, addresses, numbers and URIs the sources apply them to.
\<close>

section \<open>Character classes\<close>

definition is_ws :: "char \<Rightarrow> bool" where
  "is_ws c \<longleftrightarrow> (of_char c :: nat) \<in> {9, 10, 11, 12, 13, 32}"

definition is_digit :: "char \<Rightarrow> bool" where
  "is_digit c \<longleftrightarrow> 48 \<le> (of_char c :: nat) \<and> (of_char c :: nat) \<le> 57"

definition is_upper :: "char \<Rightarrow> bool" where
  "is_upper c \<longleftrightarrow> 65 \<le> (of_char c :: nat) \<and> (of_char c :: nat) \<le> 90"

definition is_lower :: "char \<Rightarrow> bool" where
  "is_lower c \<longleftrightarrow> 97 \<le> (of_char c :: nat) \<and> (of_char c :: nat) \<le> 122"

definition lower_char :: "char \<Rightarrow> char" where
  "lower_char c = (if is_upper c then char_of (of_char c + 32 :: nat) else c)"

definition upper_char :: "char \<Rightarrow> char" where
  "upper_char c = (if is_lower c then char_of (of_char c - 32 :: nat) else c)"

section \<open>String methods\<close>

definition toLowerCase :: "string \<Rightarrow> string" where
  "toLowerCase s = map lower_char s"

definition toUpperCase :: "string \<Rightarrow> string" where
  "toUpperCase s = map upper_char s"

definition trim :: "string \<Rightarrow> string" where
  "trim s = rev (dropWhile is_ws (rev (dropWhile is_ws s)))"

definition startsWith :: "string \<Rightarrow> string \<Rightarrow> bool" where
  "startsWith s p \<longleftrightarrow> take (length p) s = p"

fun includes_str :: "string \<Rightarrow> string \<Rightarrow> bool" where
  "includes_str [] p \<longleftrightarrow> p = []"
| "includes_str (c # s) p \<longleftrightarrow> startsWith (c # s) p \<or> includes_str s p"

text \<open>\<open>split d s\<close> is \<open>s.split(d)\<close> for a one-character separator; \<open>join\<close> is \<open>Array.join\<close>.\<close>

fun split :: "char \<Rightarrow> string \<Rightarrow> string list" where
  "split d [] = [[]]"
| "split d (c # s) = (if c = d then [] # split d s
     else (case split d s of [] \<Rightarrow> [[c]] | x # xs \<Rightarrow> (c # x) # xs))"

fun join :: "string \<Rightarrow> string list \<Rightarrow> string" where
  "join d [] = []"
| "join d [x] = x"
| "join d (x # y # xs) = x @ d @ join d (y # xs)"

text \<open>\<open>cut_at d s\<close> splits at the first occurrence of a character: the \<open>indexOf\<close> and \<open>slice\<close> idiom.\<close>

fun cut_at :: "char \<Rightarrow> string \<Rightarrow> (string \<times> string) option" where
  "cut_at d [] = None"
| "cut_at d (c # s) = (if c = d then Some ([], s)
     else map_option (\<lambda>(a, b). (c # a, b)) (cut_at d s))"

text \<open>Truthiness of an optional string: \<open>undefined\<close>, \<open>null\<close> and the empty string are false.\<close>

fun truthy :: "string option \<Rightarrow> bool" where
  "truthy None = False"
| "truthy (Some s) = (s \<noteq> [])"

text \<open>\<open>s || d\<close> on an optional string, and \<open>...(s && { key: s })\<close>.\<close>

definition or_else :: "string option \<Rightarrow> string \<Rightarrow> string" where
  "or_else s d = (case s of None \<Rightarrow> d | Some x \<Rightarrow> if x = [] then d else x)"

definition if_truthy :: "string option \<Rightarrow> string option" where
  "if_truthy s = (case s of None \<Rightarrow> None | Some x \<Rightarrow> if x = [] then None else Some x)"

text \<open>Decimal digits of a natural number and of an integer (\<open>String(n)\<close> below \<open>10 ^ 21\<close>).\<close>

fun nat_digits :: "nat \<Rightarrow> string" where
  "nat_digits n = (if n < 10 then [char_of (48 + n)]
     else nat_digits (n div 10) @ [char_of (48 + n mod 10)])"

declare nat_digits.simps [simp del]

definition show_int :: "int \<Rightarrow> string" where
  "show_int i = (if i < 0 then ''-'' @ nat_digits (nat (- i)) else nat_digits (nat i))"

lemma length_toLowerCase [simp]: "length (toLowerCase s) = length s"
  by (simp add: toLowerCase_def)

lemma toLowerCase_append: "toLowerCase (s @ t) = toLowerCase s @ toLowerCase t"
  by (simp add: toLowerCase_def)

lemma of_char_upper_bound: "is_upper c \<Longrightarrow> \<not> is_upper (char_of (of_char c + 32 :: nat))"
  by (simp add: is_upper_def)

lemma lower_char_idem [simp]: "lower_char (lower_char c) = lower_char c"
  using of_char_upper_bound[of c] by (simp add: lower_char_def)

lemma toLowerCase_idem [simp]: "toLowerCase (toLowerCase s) = toLowerCase s"
  by (simp add: toLowerCase_def)

lemma is_ws_lower_char [simp]: "is_ws (lower_char c) = is_ws c"
  by (auto simp: lower_char_def is_ws_def is_upper_def)

lemma trim_toLowerCase: "trim (toLowerCase s) = toLowerCase (trim s)"
  by (simp add: trim_def toLowerCase_def dropWhile_map comp_def rev_map)

lemma trim_Nil [simp]: "trim [] = []"
  by (simp add: trim_def)

lemma trim_no_ws: "list_all (\<lambda>c. \<not> is_ws c) s \<Longrightarrow> trim s = s"
proof -
  assume a: "list_all (\<lambda>c. \<not> is_ws c) s"
  have d: "dropWhile is_ws t = t" if "list_all (\<lambda>c. \<not> is_ws c) t" for t
    using that by (cases t) auto
  have "list_all (\<lambda>c. \<not> is_ws c) (rev s)" using a by simp
  with d a show ?thesis by (simp add: trim_def)
qed

lemma trim_hd_last:
  "trim s = [] \<or> (\<not> is_ws (hd (trim s)) \<and> \<not> is_ws (last (trim s)))"
proof -
  define u where "u = dropWhile is_ws s"
  have u: "u = [] \<or> \<not> is_ws (hd u)" unfolding u_def by (metis hd_dropWhile)
  define v where "v = dropWhile is_ws (rev u)"
  have v: "v = [] \<or> \<not> is_ws (hd v)" unfolding v_def by (metis hd_dropWhile)
  obtain w where w: "rev u = w @ v" unfolding v_def by (metis takeWhile_dropWhile_id)
  have t: "trim s = rev v" by (simp add: trim_def u_def v_def)
  show ?thesis
  proof (cases "v = []")
    case False
    then have "hd u = last v" using w by (metis hd_rev last_appendR rev_rev_ident)
    moreover have "u \<noteq> []" using w False by auto
    ultimately show ?thesis using u v t False by (simp add: hd_rev last_rev)
  qed (simp add: t)
qed

lemma trim_trim [simp]: "trim (trim s) = trim s"
proof (cases "trim s = []")
  case False
  then have h: "\<not> is_ws (hd (trim s))" "\<not> is_ws (last (trim s))" using trim_hd_last by auto
  have "dropWhile is_ws (trim s) = trim s" using h(1) False by (metis dropWhile_eq_self_iff)
  moreover have "dropWhile is_ws (rev (trim s)) = rev (trim s)"
    using h(2) False by (metis dropWhile_eq_self_iff hd_rev)
  ultimately show ?thesis by (simp add: trim_def[of "trim s"])
qed simp

lemma startsWith_append [simp]: "startsWith (p @ s) p"
  by (simp add: startsWith_def)

lemma split_not_Nil [simp]: "split d s \<noteq> []"
  by (induction s) (auto split: list.splits)

lemma split_no_sep: "d \<notin> set s \<Longrightarrow> split d s = [s]"
  by (induction s) auto

lemma split_append_sep: "d \<notin> set s \<Longrightarrow> split d (s @ d # t) = s # split d t"
  by (induction s) auto

lemma split_join:
  "xs \<noteq> [] \<Longrightarrow> \<forall>x \<in> set xs. d \<notin> set x \<Longrightarrow> split d (join [d] xs) = xs"
  by (induction "[d]" xs rule: join.induct) (auto simp: split_no_sep split_append_sep)

lemma join_split: "join [d] (split d s) = s"
proof (induction s)
  case (Cons c s)
  obtain x xs where "split d s = x # xs" by (cases "split d s") auto
  with Cons show ?case by (cases xs) auto
qed simp

lemma cut_at_append: "d \<notin> set a \<Longrightarrow> cut_at d (a @ d # b) = Some (a, b)"
  by (induction a) auto

lemma cut_at_SomeD: "cut_at d s = Some (a, b) \<Longrightarrow> s = a @ d # b \<and> d \<notin> set a"
  by (induction s arbitrary: a) (auto split: if_splits)

lemma cut_at_None_iff: "cut_at d s = None \<longleftrightarrow> d \<notin> set s"
  by (induction s) auto

lemma truthy_if_truthy: "truthy s \<longleftrightarrow> if_truthy s \<noteq> None"
  by (cases s) (auto simp: if_truthy_def)

lemma if_truthy_Some_iff: "if_truthy s = Some x \<longleftrightarrow> s = Some x \<and> x \<noteq> []"
  by (auto simp: if_truthy_def split: option.splits if_splits)

lemma if_truthy_idem [simp]: "if_truthy (if_truthy s) = if_truthy s"
  by (auto simp: if_truthy_def split: option.splits)

end
