(* ===== verification/Js_Number.thy ===== *)
theory Js_Number
  imports Js_Double Js_String
begin

text \<open>
  The \<open>number\<close> type over the rounding of \<open>Js_Double\<close>: arithmetic, comparison, and the
  conversions \<open>parseFloat\<close>, \<open>parseInt\<close> (radix 10) and \<open>Number\<close> from strings.
\<close>

section \<open>Values and arithmetic\<close>

datatype js_num = NaN | Infty bool | Fin rat

text \<open>\<open>Infty True\<close> is positive infinity.\<close>

definition double_limit :: rat where
  "double_limit = 2 ^ 1024"

definition to_num :: "rat \<Rightarrow> js_num" where
  "to_num x = (let y = round_double x
     in if double_limit \<le> y then Infty True else if y \<le> - double_limit then Infty False else Fin y)"

fun isFinite :: "js_num \<Rightarrow> bool" where
  "isFinite (Fin _) = True"
| "isFinite _ = False"

fun num_add :: "js_num \<Rightarrow> js_num \<Rightarrow> js_num" where
  "num_add (Fin x) (Fin y) = to_num (x + y)"
| "num_add NaN _ = NaN"
| "num_add _ NaN = NaN"
| "num_add (Infty a) (Infty b) = (if a = b then Infty a else NaN)"
| "num_add (Infty a) (Fin _) = Infty a"
| "num_add (Fin _) (Infty b) = Infty b"

fun num_mul :: "js_num \<Rightarrow> js_num \<Rightarrow> js_num" where
  "num_mul (Fin x) (Fin y) = to_num (x * y)"
| "num_mul NaN _ = NaN"
| "num_mul _ NaN = NaN"
| "num_mul (Infty a) (Infty b) = Infty (a = b)"
| "num_mul (Infty a) (Fin y) = (if y = 0 then NaN else Infty (a = (0 < y)))"
| "num_mul (Fin x) (Infty b) = (if x = 0 then NaN else Infty (b = (0 < x)))"

text \<open>Comparison is false when a side is \<open>NaN\<close>.\<close>

fun num_less :: "js_num \<Rightarrow> js_num \<Rightarrow> bool" where
  "num_less (Fin x) (Fin y) = (x < y)"
| "num_less (Fin _) (Infty b) = b"
| "num_less (Infty a) (Fin _) = (\<not> a)"
| "num_less (Infty a) (Infty b) = (\<not> a \<and> b)"
| "num_less _ _ = False"

definition num_le :: "js_num \<Rightarrow> js_num \<Rightarrow> bool" where
  "num_le x y \<longleftrightarrow> x \<noteq> NaN \<and> y \<noteq> NaN \<and> \<not> num_less y x"

fun num_floor :: "js_num \<Rightarrow> js_num" where
  "num_floor (Fin x) = Fin (of_int \<lfloor>x\<rfloor>)"
| "num_floor n = n"

fun num_pow :: "js_num \<Rightarrow> nat \<Rightarrow> js_num" where
  "num_pow _ 0 = Fin 1"
| "num_pow (Fin x) n = to_num (x ^ n)"
| "num_pow (Infty a) n = Infty (a \<or> even n)"
| "num_pow NaN n = NaN"

definition num_min :: "js_num \<Rightarrow> js_num \<Rightarrow> js_num" where
  "num_min x y = (if x = NaN \<or> y = NaN then NaN else if num_less y x then y else x)"

definition num_max :: "js_num \<Rightarrow> js_num \<Rightarrow> js_num" where
  "num_max x y = (if x = NaN \<or> y = NaN then NaN else if num_less x y then y else x)"

text \<open>\<open>Number(x) || d\<close>: zero and \<open>NaN\<close> are false.\<close>

definition num_or :: "js_num \<Rightarrow> js_num \<Rightarrow> js_num" where
  "num_or x d = (if x = NaN \<or> x = Fin 0 then d else x)"

section \<open>Reading numbers\<close>

definition span :: "('a \<Rightarrow> bool) \<Rightarrow> 'a list \<Rightarrow> 'a list \<times> 'a list" where
  "span P xs = (takeWhile P xs, dropWhile P xs)"

definition digits_val :: "string \<Rightarrow> nat" where
  "digits_val s = foldl (\<lambda>a c. 10 * a + (of_char c - 48)) 0 s"

text \<open>An exponent part \<open>e[+-]digits\<close>, taken only when it is complete.\<close>

definition exponent_part :: "string \<Rightarrow> int \<times> string" where
  "exponent_part s = (case s of
       c # t \<Rightarrow> if c = CHR ''e'' \<or> c = CHR ''E'' then
           (let (neg, u) = (case t of x # r \<Rightarrow>
                  if x = CHR ''-'' then (True, r) else if x = CHR ''+'' then (False, r) else (False, t)
                | [] \<Rightarrow> (False, t));
                (ds, r) = span is_digit u
            in if ds = [] then (0, s)
               else ((if neg then - int (digits_val ds) else int (digits_val ds)), r))
         else (0, s)
     | [] \<Rightarrow> (0, s))"

text \<open>The longest prefix that is an unsigned decimal literal, its value and the rest.\<close>

definition unsigned_decimal :: "string \<Rightarrow> (rat \<times> string) option" where
  "unsigned_decimal s =
     (let (ip, r1) = span is_digit s;
          (fp, r2) = (case r1 of c # t \<Rightarrow>
              if c = CHR ''.'' \<and> (ip \<noteq> [] \<or> fst (span is_digit t) \<noteq> []) then span is_digit t else ([], r1)
            | [] \<Rightarrow> ([], r1))
      in if ip = [] \<and> fp = [] then None
         else (let (ex, r3) = exponent_part r2
               in Some (of_nat (digits_val (ip @ fp)) / 10 ^ length fp * 10 powi ex, r3)))"

definition signed_decimal :: "string \<Rightarrow> (js_num \<times> string) option" where
  "signed_decimal s =
     (let (neg, t) = (case s of c # r \<Rightarrow>
            if c = CHR ''-'' then (True, r) else if c = CHR ''+'' then (False, r) else (False, s)
          | [] \<Rightarrow> (False, s))
      in if startsWith t ''Infinity'' then Some (Infty (\<not> neg), drop 8 t)
         else map_option (\<lambda>(v, r). (to_num (if neg then - v else v), r)) (unsigned_decimal t))"

definition parseFloat :: "string \<Rightarrow> js_num" where
  "parseFloat s = (case signed_decimal (dropWhile is_ws s) of None \<Rightarrow> NaN | Some (v, _) \<Rightarrow> v)"

text \<open>Literals \<open>0x\<close>, \<open>0o\<close> and \<open>0b\<close>, which \<open>Number\<close> accepts without a sign.\<close>

definition radix_digit :: "nat \<Rightarrow> char \<Rightarrow> nat option" where
  "radix_digit b c =
     (let n = of_char c;
          v = (if 48 \<le> n \<and> n \<le> 57 then n - 48 else if 65 \<le> n \<and> n \<le> 90 then n - 55
               else if 97 \<le> n \<and> n \<le> 122 then n - 87 else 99)
      in if v < b then Some v else None)"

definition radix_literal :: "string \<Rightarrow> js_num option" where
  "radix_literal s =
     (case s of z # x # r \<Rightarrow>
        if z \<noteq> CHR ''0'' then None
        else (let b = (if x \<in> set ''xX'' then 16 else if x \<in> set ''oO'' then 8
                       else if x \<in> set ''bB'' then 2 else 0);
                  ds = map (radix_digit b) r
              in if b = 0 then None
                 else if r = [] \<or> None \<in> set ds then Some NaN
                 else Some (to_num (of_nat (foldl (\<lambda>a d. b * a + the d) 0 ds))))
      | _ \<Rightarrow> None)"

definition Number :: "string \<Rightarrow> js_num" where
  "Number s = (let t = trim s in
     if t = [] then Fin 0
     else case radix_literal t of Some n \<Rightarrow> n
     | None \<Rightarrow> (case signed_decimal t of Some (v, []) \<Rightarrow> v | _ \<Rightarrow> NaN))"

definition parseInt :: "string \<Rightarrow> js_num" where
  "parseInt s =
     (let t = dropWhile is_ws s;
          (neg, u) = (case t of c # r \<Rightarrow>
            if c = CHR ''-'' then (True, r) else if c = CHR ''+'' then (False, r) else (False, t)
          | [] \<Rightarrow> (False, t));
          ds = takeWhile is_digit u
      in if ds = [] then NaN
         else to_num (of_int (if neg then - int (digits_val ds) else int (digits_val ds))))"

section \<open>Hexadecimal text\<close>

definition hex_char :: "nat \<Rightarrow> char" where
  "hex_char d = (if d < 10 then char_of (48 + d) else char_of (87 + d))"

text \<open>\<open>n.toString(16)\<close> and \<open>s.padStart(k, "0")\<close>.\<close>

fun toString16 :: "nat \<Rightarrow> string" where
  "toString16 n = (if n < 16 then [hex_char n] else toString16 (n div 16) @ [hex_char (n mod 16)])"

declare toString16.simps [simp del]

definition padStart0 :: "nat \<Rightarrow> string \<Rightarrow> string" where
  "padStart0 k s = replicate (k - length s) (CHR ''0'') @ s"

section \<open>Facts\<close>

lemma to_num_of_int: "\<bar>n\<bar> \<le> 2 ^ 53 \<Longrightarrow> to_num (of_int n) = Fin (of_int n)"
proof -
  assume a: "\<bar>n\<bar> \<le> 2 ^ 53"
  then have "(of_int \<bar>n\<bar> :: rat) \<le> of_int (2 ^ 53)" by (simp only: of_int_le_iff)
  then have b: "\<bar>of_int n :: rat\<bar> \<le> 2 ^ 53" by simp
  have "2 ^ 53 < double_limit" unfolding double_limit_def by (rule power_strict_increasing) simp_all
  with b have "\<not> double_limit \<le> of_int n" "\<not> of_int n \<le> - double_limit" by linarith+
  then show ?thesis by (simp add: to_num_def round_double_of_int[OF a])
qed

lemma num_less_irrefl: "\<not> num_less x x"
  by (cases x) auto

lemma num_less_trans: "num_less x y \<Longrightarrow> num_less y z \<Longrightarrow> num_less x z"
  by (cases x; cases y; cases z) auto

lemma num_less_asym: "num_less x y \<Longrightarrow> \<not> num_less y x"
  by (cases x; cases y) auto

lemma num_le_trans: "num_le x y \<Longrightarrow> num_le y z \<Longrightarrow> num_le x z"
  by (cases x; cases y; cases z) (auto simp: num_le_def)

lemma num_min_le: "x \<noteq> NaN \<Longrightarrow> y \<noteq> NaN \<Longrightarrow> num_le (num_min x y) x \<and> num_le (num_min x y) y"
  by (auto simp: num_min_def num_le_def num_less_irrefl dest: num_less_asym)

lemma to_num_numeral [simp]: "to_num (numeral k) = Fin (numeral k)" if "numeral k \<le> (2 ^ 53 :: int)"
  using that to_num_of_int[of "numeral k"] by simp

lemma to_num_0 [simp]: "to_num 0 = Fin 0" and to_num_1 [simp]: "to_num 1 = Fin 1"
  using to_num_of_int[of 0] to_num_of_int[of 1] by simp_all

lemma digits_val_snoc: "digits_val (s @ [c]) = 10 * digits_val s + (of_char c - 48)"
  by (simp add: digits_val_def)

lemma is_digit_char_of: "(n::nat) < 10 \<Longrightarrow> is_digit (char_of (48 + n))"
  by (simp add: is_digit_def)

lemma nat_digits_props:
  "list_all is_digit (nat_digits n) \<and> nat_digits n \<noteq> [] \<and> digits_val (nat_digits n) = n"
proof (induction n rule: nat_digits.induct)
  case (1 n)
  show ?case
  proof (cases "n < 10")
    case True
    then show ?thesis
      by (simp add: nat_digits.simps[of n] is_digit_char_of digits_val_def)
  next
    case False
    have m: "n mod 10 < 10" by simp
    have d: "of_char (char_of (48 + n mod 10)) - 48 = n mod 10"
      by simp
    from 1 False show ?thesis
      unfolding nat_digits.simps[of n]
      by (simp add: is_digit_char_of digits_val_snoc d)
  qed
qed

lemmas nat_digits_digit = nat_digits_props[THEN conjunct1]
  and nat_digits_ne [simp] = nat_digits_props[THEN conjunct2, THEN conjunct1]
  and digits_val_nat_digits [simp] = nat_digits_props[THEN conjunct2, THEN conjunct2]

lemma is_digit_not_ws: "is_digit c \<Longrightarrow> \<not> is_ws c"
  by (auto simp: is_digit_def is_ws_def)

lemma is_digit_not_sign: "is_digit c \<Longrightarrow> c \<noteq> CHR ''-'' \<and> c \<noteq> CHR ''+''"
  by (auto simp: is_digit_def)

lemma takeWhile_all: "list_all P xs \<Longrightarrow> takeWhile P xs = xs"
  by (induction xs) auto

text \<open>\<open>parseInt(String(n), 10)\<close> is \<open>n\<close> for every safe integer that is not negative.\<close>

lemma nat_digits_inj [simp]: "nat_digits i = nat_digits j \<longleftrightarrow> i = j"
  using digits_val_nat_digits by metis

theorem parseInt_show_nat: "n \<le> 2 ^ 53 \<Longrightarrow> parseInt (show_int (int n)) = Fin (of_nat n)"
proof -
  assume n: "n \<le> 2 ^ 53"
  obtain c r where cr: "nat_digits n = c # r" using nat_digits_ne by (metis neq_Nil_conv)
  then have c: "is_digit c" using nat_digits_digit[of n] by simp
  have "dropWhile is_ws (nat_digits n) = nat_digits n" using cr c is_digit_not_ws by simp
  then have "parseInt (show_int (int n)) = to_num (of_int (int n))"
    using is_digit_not_sign[OF c] takeWhile_all[OF nat_digits_digit[of n]] cr
      digits_val_nat_digits[of n]
    by (simp add: parseInt_def show_int_def Let_def)
  also have "\<dots> = Fin (of_nat n)"
  proof -
    have "int n \<le> int (2 ^ 53)" using n by (simp only: of_nat_le_iff)
    then show ?thesis using to_num_of_int[of "int n"] by simp
  qed
  finally show ?thesis .
qed

end
