(* ===== verification/Platform.thy ===== *)
theory Platform
  imports Js_String
begin

text \<open>
  The interfaces to what lies outside the repository.  The mobile app persists data through
  \<open>AsyncStorage\<close> and \<open>expo-secure-store\<close> and talks HTTP through \<open>fetch\<close>; the dashboard uses
  \<open>localStorage\<close>.  Their operations are arguments of every definition that uses them.  The
  locale \<open>kv_store\<close> states the documented behaviour of a key-value store, \<open>kv_net\<close> that a
  request leaves the store alone, and \<open>two_stores\<close> that two stores are independent.  The
  record \<open>device\<close> is a reference platform that satisfies all of them.
\<close>

section \<open>HTTP\<close>

record 'j response =
  status :: int
  statusText :: string
  json :: "'j res"
  text_of :: "string res"

text \<open>\<open>response.ok\<close> of the Fetch standard.\<close>

definition ok :: "'j response \<Rightarrow> bool" where
  "ok r \<longleftrightarrow> 200 \<le> status r \<and> status r \<le> 299"

record 'b request =
  url :: string
  meth :: string
  headers :: "string \<rightharpoonup> string"
  body :: "'b option"

text \<open>The header objects the sources build by spreading: later entries win.\<close>

definition json_header :: "string \<rightharpoonup> string" where
  "json_header = [''Content-Type'' \<mapsto> ''application/json'']"

definition bearer :: "string option \<Rightarrow> (string \<rightharpoonup> string)" where
  "bearer t = (if truthy t then [''Authorization'' \<mapsto> ''Bearer '' @ the t] else Map.empty)"

lemma bearer_truthy [simp]: "tok \<noteq> [] \<Longrightarrow> bearer (Some tok) ''Authorization'' = Some (''Bearer '' @ tok)"
  by (simp add: bearer_def)

lemma bearer_falsy: "\<not> truthy t \<Longrightarrow> bearer t = Map.empty"
  by (simp add: bearer_def)

lemma dom_bearer: "dom (bearer t) \<subseteq> {''Authorization''}"
  by (simp add: bearer_def)

lemma bearer_other [simp]: "k \<noteq> ''Authorization'' \<Longrightarrow> bearer t k = None"
  by (simp add: bearer_def)

section \<open>Stored text\<close>

text \<open>
  What a stored string is for the code that reads it back: \<open>JText a\<close> is the text
  \<open>JSON.stringify(a)\<close> of a value of the expected shape, \<open>JOther\<close> the JSON text of a value of
  another shape, \<open>JMalformed\<close> a text \<open>JSON.parse\<close> rejects, \<open>JEmpty\<close> the empty string.
\<close>

datatype 'a jtext = JEmpty | JMalformed | JOther | JText 'a

fun JSON_parse :: "'a jtext \<Rightarrow> 'a option res" where
  "JSON_parse (JText a) = Ret (Some a)"
| "JSON_parse JOther = Ret None"
| "JSON_parse JMalformed = Throw (Err ''Unexpected token'' None None)"
| "JSON_parse JEmpty = Throw (Err ''Unexpected end of JSON input'' None None)"

definition JSON_stringify :: "'a \<Rightarrow> 'a jtext" where
  "JSON_stringify a = JText a"

lemma JSON_parse_stringify [simp]: "JSON_parse (JSON_stringify a) = Ret (Some a)"
  by (simp add: JSON_stringify_def)

section \<open>Key-value stores\<close>

locale kv_store =
  fixes getItem :: "string \<Rightarrow> 'w \<Rightarrow> 'v option res"
    and setItem :: "string \<Rightarrow> 'v \<Rightarrow> ('w, unit) io"
    and removeItem :: "string \<Rightarrow> ('w, unit) io"
  assumes get_set: "setItem k v w = (Ret u, w') \<Longrightarrow> getItem k w' = Ret (Some v)"
    and get_set_other: "setItem k v w = (Ret u, w') \<Longrightarrow> k' \<noteq> k \<Longrightarrow> getItem k' w' = getItem k' w"
    and get_set_fail: "setItem k v w = (Throw e, w') \<Longrightarrow> getItem k' w' = getItem k' w"
    and get_remove: "removeItem k w = (Ret u, w') \<Longrightarrow> getItem k w' = Ret None"
    and get_remove_other: "removeItem k w = (Ret u, w') \<Longrightarrow> k' \<noteq> k \<Longrightarrow> getItem k' w' = getItem k' w"
    and get_remove_fail: "removeItem k w = (Throw e, w') \<Longrightarrow> getItem k' w' = getItem k' w"
begin

lemma set_swallowed:
  "getItem k' (snd (try_catch (setItem k v) (\<lambda>_. ret ()) w)) =
     (if is_Ret (fst (setItem k v w)) \<and> k' = k then Ret (Some v) else getItem k' w)"
  by (cases "setItem k v w"; cases "fst (setItem k v w)")
     (auto simp: try_catch_def dest: get_set get_set_other get_set_fail)

lemma set_frame: "k' \<noteq> k \<Longrightarrow> getItem k' (snd (setItem k v w)) = getItem k' w"
  by (cases "setItem k v w"; cases "fst (setItem k v w)")
     (auto dest: get_set_other get_set_fail)

lemma remove_frame: "k' \<noteq> k \<Longrightarrow> getItem k' (snd (removeItem k w)) = getItem k' w"
  by (cases "removeItem k w"; cases "fst (removeItem k w)")
     (auto dest: get_remove_other get_remove_fail)

lemma remove_removed_or_same:
  "getItem k (snd (removeItem k w)) \<in> {Ret None, getItem k w}"
  by (cases "removeItem k w"; cases "fst (removeItem k w)")
     (auto dest: get_remove get_remove_fail)

end

locale kv_net = kv_store getItem setItem removeItem
  for getItem :: "string \<Rightarrow> 'w \<Rightarrow> 'v option res"
    and setItem :: "string \<Rightarrow> 'v \<Rightarrow> ('w, unit) io"
    and removeItem :: "string \<Rightarrow> ('w, unit) io" +
  fixes fetch :: "'b request \<Rightarrow> ('w, 'j response) io"
  assumes fetch_frame: "getItem k (snd (fetch rq w)) = getItem k w"

locale two_stores = a: kv_store getA setA removeA + b: kv_store getB setB removeB
  for getA :: "string \<Rightarrow> 'w \<Rightarrow> 'v option res"
    and setA :: "string \<Rightarrow> 'v \<Rightarrow> ('w, unit) io"
    and removeA :: "string \<Rightarrow> ('w, unit) io"
    and getB :: "string \<Rightarrow> 'w \<Rightarrow> 'u option res"
    and setB :: "string \<Rightarrow> 'u \<Rightarrow> ('w, unit) io"
    and removeB :: "string \<Rightarrow> ('w, unit) io" +
  assumes a_keeps_b: "getB k (snd (setA k' v w)) = getB k w" "getB k (snd (removeA k' w)) = getB k w"
    and b_keeps_a: "getA k (snd (setB k' u w)) = getA k w" "getA k (snd (removeB k' w)) = getA k w"

section \<open>A reference device\<close>

text \<open>
  Plain storage (\<open>dev_kv\<close>), the keychain (\<open>dev_sec\<close>), flags under which either rejects every
  operation, the answers the network will give and the requests made so far.
\<close>

record ('v, 'b, 'j) device =
  dev_kv :: "string \<rightharpoonup> 'v"
  dev_sec :: "string \<rightharpoonup> string"
  dev_kv_broken :: bool
  dev_sec_broken :: bool
  dev_net :: "'j response res list"
  dev_log :: "'b request list"

definition storage_error :: js_error where
  "storage_error = Error ''storage unavailable''"

definition dev_getItem :: "string \<Rightarrow> ('v, 'b, 'j) device \<Rightarrow> 'v option res" where
  "dev_getItem k d = (if dev_kv_broken d then Throw storage_error else Ret (dev_kv d k))"

definition dev_setItem :: "string \<Rightarrow> 'v \<Rightarrow> (('v, 'b, 'j) device, unit) io" where
  "dev_setItem k v d = (if dev_kv_broken d then (Throw storage_error, d)
     else (Ret (), d\<lparr>dev_kv := (dev_kv d)(k \<mapsto> v)\<rparr>))"

definition dev_removeItem :: "string \<Rightarrow> (('v, 'b, 'j) device, unit) io" where
  "dev_removeItem k d = (if dev_kv_broken d then (Throw storage_error, d)
     else (Ret (), d\<lparr>dev_kv := (dev_kv d)(k := None)\<rparr>))"

definition dev_getSec :: "string \<Rightarrow> ('v, 'b, 'j) device \<Rightarrow> string option res" where
  "dev_getSec k d = (if dev_sec_broken d then Throw storage_error else Ret (dev_sec d k))"

definition dev_setSec :: "string \<Rightarrow> string \<Rightarrow> (('v, 'b, 'j) device, unit) io" where
  "dev_setSec k v d = (if dev_sec_broken d then (Throw storage_error, d)
     else (Ret (), d\<lparr>dev_sec := (dev_sec d)(k \<mapsto> v)\<rparr>))"

definition dev_removeSec :: "string \<Rightarrow> (('v, 'b, 'j) device, unit) io" where
  "dev_removeSec k d = (if dev_sec_broken d then (Throw storage_error, d)
     else (Ret (), d\<lparr>dev_sec := (dev_sec d)(k := None)\<rparr>))"

definition dev_fetch :: "'b request \<Rightarrow> (('v, 'b, 'j) device, 'j response) io" where
  "dev_fetch rq d = (case dev_net d of
       [] \<Rightarrow> (Throw (Error ''Network request failed''), d\<lparr>dev_log := dev_log d @ [rq]\<rparr>)
     | r # rs \<Rightarrow> (r, d\<lparr>dev_net := rs, dev_log := dev_log d @ [rq]\<rparr>))"

lemmas dev_defs = dev_getItem_def dev_setItem_def dev_removeItem_def dev_getSec_def
  dev_setSec_def dev_removeSec_def dev_fetch_def

interpretation dev_kvs: kv_net dev_getItem dev_setItem dev_removeItem dev_fetch
  by unfold_locales (auto simp: dev_defs split: if_splits list.splits)

interpretation dev_secs: kv_net dev_getSec dev_setSec dev_removeSec dev_fetch
  by unfold_locales (auto simp: dev_defs split: if_splits list.splits)

interpretation dev_both: two_stores dev_getItem dev_setItem dev_removeItem
    dev_getSec dev_setSec dev_removeSec
  by unfold_locales (auto simp: dev_defs split: if_splits)

definition blank_device :: "('v, 'b, 'j) device" where
  "blank_device = \<lparr>dev_kv = Map.empty, dev_sec = Map.empty, dev_kv_broken = False,
     dev_sec_broken = False, dev_net = [], dev_log = []\<rparr>"

section \<open>A store that does not fail\<close>

text \<open>
  Several properties are about what an operation achieves when the store does its part: \<open>keychain\<close>
  adds that no operation is rejected.  The plain map \<open>mem_*\<close> is such a store.
\<close>

locale keychain = kv_store getS setS delS
  for getS :: "string \<Rightarrow> 'w \<Rightarrow> 'v option res"
    and setS :: "string \<Rightarrow> 'v \<Rightarrow> ('w, unit) io"
    and delS :: "string \<Rightarrow> ('w, unit) io" +
  assumes set_ok: "is_Ret (fst (setS k v w))"
    and del_ok: "is_Ret (fst (delS k w))"
begin

lemma set_eq: "setS k v w = (Ret (), snd (setS k v w))"
  using set_ok[of k v w] by (cases "setS k v w"; cases "fst (setS k v w)") auto

lemma del_eq: "delS k w = (Ret (), snd (delS k w))"
  using del_ok[of k w] by (cases "delS k w"; cases "fst (delS k w)") auto

lemma get_after_set: "getS k' (snd (setS k v w)) = (if k' = k then Ret (Some v) else getS k' w)"
  using get_set[OF set_eq] get_set_other[OF set_eq] by auto

lemma get_after_del: "getS k' (snd (delS k w)) = (if k' = k then Ret None else getS k' w)"
  using get_remove[OF del_eq] get_remove_other[OF del_eq] by auto

lemma bnd_set: "bnd (setS k v) f w = f () (snd (setS k v w))"
  by (subst bnd_Ret[OF set_eq]) simp

lemma bnd_del: "bnd (delS k) f w = f () (snd (delS k w))"
  by (subst bnd_Ret[OF del_eq]) simp

end

definition mem_getItem :: "string \<Rightarrow> (string \<rightharpoonup> 'v) \<Rightarrow> 'v option res" where
  "mem_getItem k m = Ret (m k)"

definition mem_setItem :: "string \<Rightarrow> 'v \<Rightarrow> (string \<rightharpoonup> 'v, unit) io" where
  "mem_setItem k v m = (Ret (), m(k \<mapsto> v))"

definition mem_removeItem :: "string \<Rightarrow> (string \<rightharpoonup> 'v, unit) io" where
  "mem_removeItem k m = (Ret (), m(k := None))"

interpretation mem: keychain mem_getItem mem_setItem mem_removeItem
  by unfold_locales (auto simp: mem_getItem_def mem_setItem_def mem_removeItem_def)

end
