(* ===== verification/Offline_Queue.thy ===== *)
theory Offline_Queue
  imports Js_Double Js_Number Platform "HOL-Library.Sublist"
begin

text \<open>
  \<open>mobileapp/src/services/offlineQueue.ts\<close>: the persisted queue of transaction requests and the
  engine that replays it.  \<open>AsyncStorage\<close>, \<open>fetch\<close>, the clock and the source of randomness are
  arguments.  The functions are modelled as they run without interruption; the last section
  models the interleaving of \<open>flushQueue\<close> with \<open>enqueueTransaction\<close> at their \<open>await\<close> points.
\<close>

section \<open>Data\<close>

definition OFFLINE_QUEUE_KEY :: string where
  "OFFLINE_QUEUE_KEY = ''@zaps_offline_tx_queue''"

record 'b QueuedTransaction =
  qt_id :: string
  qt_endpoint :: string
  qt_method :: string
  qt_body :: 'b
  qt_authToken :: "string option"
  qt_enqueuedAt :: string
  qt_retryCount :: int
  qt_nextRetryAt :: int

record 'b EnqueueOptions =
  eo_endpoint :: string
  eo_method :: "string option"
  eo_body :: 'b
  eo_authToken :: "string option"

type_synonym 'b qtext = "'b QueuedTransaction list jtext"

definition MAX_RETRIES :: int where "MAX_RETRIES = 5"
definition BACKOFF_BASE_MS :: rat where "BACKOFF_BASE_MS = 2000"
definition BACKOFF_MAX_MS :: rat where "BACKOFF_MAX_MS = 30000"

text \<open>
  The runtime: \<open>Date.now()\<close>, \<open>new Date().toISOString()\<close>, the text \<open>Math.random().toString(36)\<close>
  and \<open>Math.random()\<close> itself.
\<close>

record 'w runtime =
  now :: "'w \<Rightarrow> int"
  isoTime :: "'w \<Rightarrow> string"
  random36 :: "'w \<Rightarrow> string"
  random :: "'w \<Rightarrow> rat \<times> 'w"

section \<open>Helpers\<close>

definition generateId :: "'w runtime \<Rightarrow> 'w \<Rightarrow> string" where
  "generateId rt w = show_int (now rt w) @ ''-'' @ take 7 (drop 2 (random36 rt w))"

definition backoff_exp :: "int \<Rightarrow> rat" where
  "backoff_exp retryCount = min (BACKOFF_BASE_MS * 2 ^ nat retryCount) BACKOFF_MAX_MS"

text \<open>\<open>r\<close> is the value \<open>Math.random()\<close> returned.\<close>

definition calcBackoffMs :: "int \<Rightarrow> rat \<Rightarrow> int" where
  "calcBackoffMs retryCount r =
     (let exp = backoff_exp retryCount;
          jitter = round_double (round_double (exp * round_double (2 / 10)) * r)
      in \<lfloor>round_double (exp + jitter)\<rfloor>)"

section \<open>Persistence\<close>

definition readQueue ::
  "(string \<Rightarrow> 'w \<Rightarrow> 'b qtext option res) \<Rightarrow> ('w, 'b QueuedTransaction list) io" where
  "readQueue getItem = try_catch
     (bnd (reads (getItem OFFLINE_QUEUE_KEY)) (\<lambda>raw.
        case raw of None \<Rightarrow> ret []
        | Some t \<Rightarrow> if t = JEmpty then ret []
            else bnd (reads (\<lambda>_. JSON_parse t)) (\<lambda>parsed.
              case parsed of None \<Rightarrow> ret [] | Some q \<Rightarrow> ret q)))
     (\<lambda>_. ret [])"

definition writeQueue ::
  "(string \<Rightarrow> 'b qtext \<Rightarrow> ('w, unit) io) \<Rightarrow> 'b QueuedTransaction list \<Rightarrow> ('w, unit) io" where
  "writeQueue setItem queue =
     try_catch (setItem OFFLINE_QUEUE_KEY (JSON_stringify queue)) (\<lambda>_. ret ())"

definition new_item :: "'w runtime \<Rightarrow> 'b EnqueueOptions \<Rightarrow> 'w \<Rightarrow> 'b QueuedTransaction" where
  "new_item rt opts w =
     \<lparr>qt_id = generateId rt w, qt_endpoint = eo_endpoint opts,
      qt_method = (case eo_method opts of None \<Rightarrow> ''POST'' | Some m \<Rightarrow> m),
      qt_body = eo_body opts, qt_authToken = eo_authToken opts, qt_enqueuedAt = isoTime rt w,
      qt_retryCount = 0, qt_nextRetryAt = now rt w\<rparr>"

definition enqueueTransaction ::
  "(string \<Rightarrow> 'w \<Rightarrow> 'b qtext option res) \<Rightarrow> (string \<Rightarrow> 'b qtext \<Rightarrow> ('w, unit) io) \<Rightarrow> 'w runtime \<Rightarrow>
   'b EnqueueOptions \<Rightarrow> ('w, unit) io" where
  "enqueueTransaction getItem setItem rt opts =
     bnd (readQueue getItem) (\<lambda>queue. bnd (asks (new_item rt opts)) (\<lambda>item.
       writeQueue setItem (queue @ [item])))"

definition removeFromQueue ::
  "(string \<Rightarrow> 'w \<Rightarrow> 'b qtext option res) \<Rightarrow> (string \<Rightarrow> 'b qtext \<Rightarrow> ('w, unit) io) \<Rightarrow>
   string \<Rightarrow> ('w, unit) io" where
  "removeFromQueue getItem setItem i =
     bnd (readQueue getItem) (\<lambda>queue. writeQueue setItem (filter (\<lambda>item. qt_id item \<noteq> i) queue))"

definition getQueueLength ::
  "(string \<Rightarrow> 'w \<Rightarrow> 'b qtext option res) \<Rightarrow> ('w, nat) io" where
  "getQueueLength getItem = bnd (readQueue getItem) (\<lambda>queue. ret (length queue))"

section \<open>Transmission\<close>

definition transmit_request :: "'b QueuedTransaction \<Rightarrow> 'b request" where
  "transmit_request item =
     \<lparr>url = qt_endpoint item, meth = qt_method item,
      headers = json_header ++ bearer (qt_authToken item), body = Some (qt_body item)\<rparr>"

definition transmit ::
  "('b request \<Rightarrow> ('w, 'j response) io) \<Rightarrow> 'b QueuedTransaction \<Rightarrow> ('w, bool) io" where
  "transmit fetch item = try_catch
     (bnd (fetch (transmit_request item)) (\<lambda>response.
        if ok response \<or> (400 \<le> status response \<and> status response < 500) then ret True
        else ret False))
     (\<lambda>_. ret False)"

section \<open>Flushing\<close>

text \<open>The module variables \<open>_isFlushing\<close> and \<open>_wasConnected\<close> beside the rest of the world.\<close>

record 'w q_state =
  isFlushing :: bool
  wasConnected :: "bool option"
  env :: 'w

definition lift :: "('w, 'a) io \<Rightarrow> ('w q_state, 'a) io" where
  "lift m s = (case m (env s) of (r, w) \<Rightarrow> (r, s\<lparr>env := w\<rparr>))"

text \<open>The item pushed back after a failed attempt, if any.\<close>

definition reschedule :: "int \<Rightarrow> rat \<Rightarrow> 'b QueuedTransaction \<Rightarrow> 'b QueuedTransaction" where
  "reschedule t r item = item\<lparr>qt_retryCount := qt_retryCount item + 1,
     qt_nextRetryAt := t + calcBackoffMs (qt_retryCount item + 1) r\<rparr>"

fun flush_loop ::
  "('b request \<Rightarrow> ('w, 'j response) io) \<Rightarrow> 'w runtime \<Rightarrow> int \<Rightarrow>
   'b QueuedTransaction list \<Rightarrow> 'b QueuedTransaction list \<Rightarrow> ('w, 'b QueuedTransaction list) io" where
  "flush_loop fetch rt t updated [] = ret updated"
| "flush_loop fetch rt t updated (item # queue) =
     (if t < qt_nextRetryAt item then flush_loop fetch rt t (updated @ [item]) queue
      else bnd (transmit fetch item) (\<lambda>success.
        if success then flush_loop fetch rt t updated queue
        else if MAX_RETRIES \<le> qt_retryCount item + 1 then flush_loop fetch rt t updated queue
        else (\<lambda>w. case random rt w of (r, w') \<Rightarrow>
               flush_loop fetch rt t (updated @ [reschedule t r item]) queue w')))"

definition flush_body ::
  "(string \<Rightarrow> 'w \<Rightarrow> 'b qtext option res) \<Rightarrow> (string \<Rightarrow> 'b qtext \<Rightarrow> ('w, unit) io) \<Rightarrow>
   ('b request \<Rightarrow> ('w, 'j response) io) \<Rightarrow> 'w runtime \<Rightarrow> ('w, unit) io" where
  "flush_body getItem setItem fetch rt =
     bnd (readQueue getItem) (\<lambda>queue.
       if queue = [] then ret ()
       else bnd (asks (now rt)) (\<lambda>t.
         bnd (flush_loop fetch rt t [] queue) (writeQueue setItem)))"

definition flushQueue ::
  "(string \<Rightarrow> 'w \<Rightarrow> 'b qtext option res) \<Rightarrow> (string \<Rightarrow> 'b qtext \<Rightarrow> ('w, unit) io) \<Rightarrow>
   ('b request \<Rightarrow> ('w, 'j response) io) \<Rightarrow> 'w runtime \<Rightarrow> ('w q_state, unit) io" where
  "flushQueue getItem setItem fetch rt s =
     (if isFlushing s then (Ret (), s)
      else always (lift (flush_body getItem setItem fetch rt)) (\<lambda>s. s\<lparr>isFlushing := False\<rparr>)
             (s\<lparr>isFlushing := True\<rparr>))"

section \<open>The NetInfo listener\<close>

text \<open>The event handler of \<open>startOfflineQueueSync\<close>; \<open>flush\<close> is the call of \<open>flushQueue\<close>.\<close>

definition onNetInfo ::
  "('w q_state, unit) io \<Rightarrow> bool option \<Rightarrow> 'w q_state \<Rightarrow> 'w q_state" where
  "onNetInfo flush state_isConnected s =
     (let isConnected = (state_isConnected = Some True);
          s' = (if isConnected \<and> wasConnected s = Some False then snd (flush s) else s)
      in s'\<lparr>wasConnected := Some isConnected\<rparr>)"

definition onInitialFetch ::
  "('w q_state, unit) io \<Rightarrow> bool option \<Rightarrow> 'w q_state \<Rightarrow> 'w q_state" where
  "onInitialFetch flush state_isConnected s =
     (let isConnected = (state_isConnected = Some True);
          s' = s\<lparr>wasConnected := Some isConnected\<rparr>
      in if isConnected then snd (flush s') else s')"

section \<open>Back-off\<close>

lemma backoff_exp_bounds: "0 \<le> backoff_exp c" "backoff_exp c \<le> 30000" "2000 \<le> backoff_exp c"
proof -
  have "(1::rat) \<le> 2 ^ nat c" by simp
  then show "2000 \<le> backoff_exp c" by (simp add: backoff_exp_def BACKOFF_BASE_MS_def BACKOFF_MAX_MS_def)
  then show "0 \<le> backoff_exp c" by simp
qed (simp add: backoff_exp_def BACKOFF_MAX_MS_def)

lemma backoff_exp_int: "\<exists>n. backoff_exp c = of_int n \<and> 0 \<le> n \<and> n \<le> 30000"
proof -
  let ?n = "min (2000 * 2 ^ nat c) (30000::int)"
  have "backoff_exp c = of_int ?n"
    by (simp add: backoff_exp_def BACKOFF_BASE_MS_def BACKOFF_MAX_MS_def of_int_min)
  then show ?thesis by (intro exI[of _ ?n]) auto
qed

lemma fifth_of_max: "round_double (30000 * round_double (2 / 10)) = 6000"
  by code_simp

lemma calcBackoffMs_bounds:
  assumes "0 \<le> r" "r < 1"
  shows "backoff_exp c \<le> of_int (calcBackoffMs c r)" "calcBackoffMs c r \<le> 36000"
proof -
  let ?d = "round_double (2 / 10)"
  let ?a = "round_double (backoff_exp c * ?d)"
  let ?j = "round_double (?a * r)"
  obtain n where n: "backoff_exp c = of_int n" "0 \<le> n" "n \<le> 30000" using backoff_exp_int by blast
  have d: "0 \<le> ?d" by (rule round_double_nonneg) simp
  have a0: "0 \<le> ?a" using d backoff_exp_bounds(1) by (intro round_double_nonneg) simp
  have "backoff_exp c * ?d \<le> 30000 * ?d" using d backoff_exp_bounds(2) by (rule mult_right_mono[rotated])
  then have a1: "?a \<le> 6000" using round_double_mono fifth_of_max by metis
  have j0: "0 \<le> ?j" using a0 assms by (intro round_double_nonneg) simp
  have "?a * r \<le> 6000 * 1" using a0 a1 assms by (intro mult_mono) auto
  then have "?j \<le> round_double (of_int 6000)" by (intro round_double_mono) simp
  then have j1: "?j \<le> 6000" using round_double_of_int[of 6000] by simp
  have "round_double (of_int n) \<le> round_double (backoff_exp c + ?j)"
    using n(1) j0 by (intro round_double_mono) simp
  moreover have "round_double (of_int n) = of_int n" using n by (intro round_double_of_int) simp
  ultimately have lo: "of_int n \<le> round_double (backoff_exp c + ?j)" by simp
  have "round_double (backoff_exp c + ?j) \<le> round_double (of_int 36000)"
    using j1 backoff_exp_bounds(2)[of c] by (intro round_double_mono) simp
  then have hi: "round_double (backoff_exp c + ?j) \<le> 36000" using round_double_of_int[of 36000] by simp
  have c: "calcBackoffMs c r = \<lfloor>round_double (backoff_exp c + ?j)\<rfloor>"
    by (simp add: calcBackoffMs_def Let_def)
  have "n \<le> calcBackoffMs c r" unfolding c using lo by (simp add: le_floor_iff)
  then show "backoff_exp c \<le> of_int (calcBackoffMs c r)" using n(1) by simp
  show "calcBackoffMs c r \<le> 36000"
    unfolding c using hi by (simp add: floor_le_iff)
qed

text \<open>
  The back-off delay in milliseconds lies between the exponential term
  \<open>min(2000 * 2 ^ retryCount, 30000)\<close> and 36000 (the maximum plus 20% jitter) for every
  value of \<open>Math.random()\<close>, rounding of double arithmetic included.
\<close>

theorem backoff_within_bounds:
  assumes "0 \<le> r" "r < 1"
  shows "min (2000 * 2 ^ nat c) 30000 \<le> calcBackoffMs c r \<and> calcBackoffMs c r \<le> 36000"
proof -
  have "of_int (min (2000 * 2 ^ nat c) 30000) = backoff_exp c"
    by (simp add: backoff_exp_def BACKOFF_BASE_MS_def BACKOFF_MAX_MS_def of_int_min)
  with calcBackoffMs_bounds[OF assms, of c] show ?thesis by (metis of_int_le_iff)
qed

theorem backoff_within_bounds_witness:
  "min (2000 * 2 ^ nat 3) 30000 \<le> calcBackoffMs 3 (1 / 2) \<and> calcBackoffMs 3 (1 / 2) \<le> 36000"
  by (rule backoff_within_bounds) simp_all

section \<open>The queue as the code sees it\<close>

text \<open>The abstraction: the list a stored text stands for, as \<open>readQueue\<close> reads it.\<close>

definition stored :: "(string \<Rightarrow> 'w \<Rightarrow> 'b qtext option res) \<Rightarrow> 'w \<Rightarrow> 'b QueuedTransaction list" where
  "stored getItem w = (case getItem OFFLINE_QUEUE_KEY w of Ret (Some (JText q)) \<Rightarrow> q | _ \<Rightarrow> [])"

lemma readQueue_eq [simp]: "readQueue getItem w = (Ret (stored getItem w), w)"
proof (cases "getItem OFFLINE_QUEUE_KEY w")
  case (Ret v)
  then show ?thesis
    by (cases v; cases "the v") (auto simp: readQueue_def stored_def try_catch_def bnd_def)
qed (simp add: readQueue_def stored_def try_catch_def bnd_def)

lemma writeQueue_Ret [simp]: "fst (writeQueue setItem q w) = Ret ()"
  by (auto simp: writeQueue_def try_catch_def split: prod.splits res.splits)

lemma transmit_Ret: "\<exists>b. fst (transmit fetch item w) = Ret b"
  by (auto simp: transmit_def try_catch_def bnd_def split: prod.splits res.splits)

text \<open>What a transmission reports: 2xx and 4xx answers finish the item, anything else does not.\<close>

lemma transmit_True_iff:
  "fst (transmit fetch item w) = Ret True \<longleftrightarrow>
     (\<exists>r w'. fetch (transmit_request item) w = (Ret r, w') \<and>
        (200 \<le> status r \<and> status r \<le> 299 \<or> 400 \<le> status r \<and> status r \<le> 499))"
  by (auto simp: transmit_def try_catch_def bnd_def ok_def split: prod.splits res.splits)

section \<open>Specification of a flush\<close>

text \<open>
  \<open>flushed t q tr u\<close>: at time \<open>t\<close> a flush of \<open>q\<close> makes the attempts \<open>tr\<close> (item and success) and
  leaves \<open>u\<close>.  Items still in back-off stay; an attempted item leaves the queue when it was
  sent or when its retries are exhausted, and is otherwise rescheduled.
\<close>

inductive flushed ::
  "int \<Rightarrow> 'b QueuedTransaction list \<Rightarrow> ('b QueuedTransaction \<times> bool) list \<Rightarrow>
   'b QueuedTransaction list \<Rightarrow> bool" for t where
  flushed_Nil: "flushed t [] [] []"
| flushed_wait: "t < qt_nextRetryAt i \<Longrightarrow> flushed t q tr u \<Longrightarrow> flushed t (i # q) tr (i # u)"
| flushed_sent: "qt_nextRetryAt i \<le> t \<Longrightarrow> flushed t q tr u \<Longrightarrow> flushed t (i # q) ((i, True) # tr) u"
| flushed_dropped: "qt_nextRetryAt i \<le> t \<Longrightarrow> MAX_RETRIES \<le> qt_retryCount i + 1 \<Longrightarrow>
     flushed t q tr u \<Longrightarrow> flushed t (i # q) ((i, False) # tr) u"
| flushed_retry: "qt_nextRetryAt i \<le> t \<Longrightarrow> qt_retryCount i + 1 < MAX_RETRIES \<Longrightarrow> 0 \<le> r \<Longrightarrow> r < 1 \<Longrightarrow>
     flushed t q tr u \<Longrightarrow> flushed t (i # q) ((i, False) # tr) (reschedule t r i # u)"

inductive_cases flushed_NilE: "flushed t [] tr u"

text \<open>The attempts as calls of \<open>transmit\<close>, one after the other.\<close>

fun replays ::
  "('b request \<Rightarrow> ('w, 'j response) io) \<Rightarrow> 'w runtime \<Rightarrow> ('b QueuedTransaction \<times> bool) list \<Rightarrow>
   'w \<Rightarrow> 'w \<Rightarrow> bool" where
  "replays fetch rt [] w w' \<longleftrightarrow> w' = w"
| "replays fetch rt ((i, b) # tr) w w' \<longleftrightarrow> fst (transmit fetch i w) = Ret b \<and>
     replays fetch rt tr
       (if \<not> b \<and> qt_retryCount i + 1 < MAX_RETRIES then snd (random rt (snd (transmit fetch i w)))
        else snd (transmit fetch i w)) w'"

lemma flushed_order: "flushed t q tr u \<Longrightarrow> subseq (map qt_id u) (map qt_id q)"
  by (induction rule: flushed.induct) (auto simp: reschedule_def)

lemma flushed_attempts: "flushed t q tr u \<Longrightarrow> subseq (map fst tr) q \<and> (\<forall>i \<in> fst ` set tr. qt_nextRetryAt i \<le> t)"
  by (induction rule: flushed.induct) auto

lemma flushed_accounts:
  "flushed t q tr u \<Longrightarrow> i \<in> set q \<Longrightarrow>
     i \<in> set u \<or> (i, True) \<in> set tr
     \<or> (i, False) \<in> set tr \<and> (MAX_RETRIES \<le> qt_retryCount i + 1 \<or> (\<exists>r. reschedule t r i \<in> set u))"
  by (induction rule: flushed.induct) auto

lemma flushed_retries:
  "flushed t q tr u \<Longrightarrow> x \<in> set u \<Longrightarrow>
     (x \<in> set q \<and> t < qt_nextRetryAt x)
     \<or> (\<exists>i r. i \<in> set q \<and> x = reschedule t r i \<and> qt_retryCount i + 1 < MAX_RETRIES \<and> 0 \<le> r \<and> r < 1)"
  by (induction rule: flushed.induct) auto

section \<open>The queue over a platform\<close>

text \<open>
  What the queue relies on: a key-value store, requests that leave it alone, and a source of
  randomness that leaves it alone and draws from the half-open unit interval.
\<close>

locale offline_env = kv_net getItem setItem removeItem fetch
  for getItem :: "string \<Rightarrow> 'w \<Rightarrow> 'b qtext option res"
    and setItem :: "string \<Rightarrow> 'b qtext \<Rightarrow> ('w, unit) io"
    and removeItem :: "string \<Rightarrow> ('w, unit) io"
    and fetch :: "'b request \<Rightarrow> ('w, 'j response) io" +
  fixes rt :: "'w runtime"
  assumes random_frame: "getItem k (snd (random rt w)) = getItem k w"
    and random_range: "0 \<le> fst (random rt w)" "fst (random rt w) < 1"
begin

lemma stored_write:
  "stored getItem (snd (writeQueue setItem q w)) =
     (if is_Ret (fst (setItem OFFLINE_QUEUE_KEY (JText q) w)) then q else stored getItem w)"
  using set_swallowed[of OFFLINE_QUEUE_KEY OFFLINE_QUEUE_KEY "JText q" w]
  by (simp add: writeQueue_def stored_def JSON_stringify_def)

lemma stored_enqueue:
  "stored getItem (snd (enqueueTransaction getItem setItem rt opts w)) =
     (if is_Ret (fst (setItem OFFLINE_QUEUE_KEY (JText (stored getItem w @ [new_item rt opts w])) w))
      then stored getItem w @ [new_item rt opts w] else stored getItem w)"
  by (simp add: enqueueTransaction_def bnd_def stored_write)

lemma stored_remove:
  "stored getItem (snd (removeFromQueue getItem setItem i w)) =
     (if is_Ret (fst (setItem OFFLINE_QUEUE_KEY (JText (filter (\<lambda>x. qt_id x \<noteq> i) (stored getItem w))) w))
      then filter (\<lambda>x. qt_id x \<noteq> i) (stored getItem w) else stored getItem w)"
  by (simp add: removeFromQueue_def bnd_def stored_write)

lemma transmit_frame: "getItem k (snd (transmit fetch i w)) = getItem k w"
  using fetch_frame[of k "transmit_request i" w]
  by (auto simp: transmit_def try_catch_def bnd_def split: prod.splits res.splits)

lemma flush_loop_spec:
  "\<exists>tr u w'. flush_loop fetch rt t acc q w = (Ret (acc @ u), w')
     \<and> flushed t q tr u \<and> replays fetch rt tr w w' \<and> (\<forall>k. getItem k w' = getItem k w)"
proof (induction q arbitrary: acc w)
  case Nil
  show ?case by (intro exI[of _ "[]"]) (auto intro: flushed.intros)
next
  case (Cons i q)
  show ?case
  proof (cases "t < qt_nextRetryAt i")
    case True
    from Cons[of "acc @ [i]" w] obtain tr u w' where
      h: "flush_loop fetch rt t (acc @ [i]) q w = (Ret ((acc @ [i]) @ u), w')" "flushed t q tr u"
        "replays fetch rt tr w w'" "\<forall>k. getItem k w' = getItem k w" by blast
    with True show ?thesis
      by (intro exI[of _ tr] exI[of _ "i # u"] exI[of _ w']) (auto intro: flushed_wait)
  next
    case elig: False
    obtain b w1 where tm: "transmit fetch i w = (Ret b, w1)"
      using transmit_Ret[of fetch i w] by (cases "transmit fetch i w") auto
    have fr: "\<forall>k. getItem k w1 = getItem k w" using transmit_frame[of _ i w] tm by simp
    let ?retry = "\<not> b \<and> qt_retryCount i + 1 < MAX_RETRIES"
    let ?r = "fst (random rt w1)"
    define w2 where "w2 = (if ?retry then snd (random rt w1) else w1)"
    define new where "new = (if ?retry then [reschedule t ?r i] else [])"
    have fr2: "\<forall>k. getItem k w2 = getItem k w" using fr random_frame by (simp add: w2_def)
    have step: "flush_loop fetch rt t acc (i # q) w = flush_loop fetch rt t (acc @ new) q w2"
      using elig tm by (auto simp: bnd_def w2_def new_def split: prod.splits)
    from Cons[of "acc @ new" w2] obtain tr u w' where
      h: "flush_loop fetch rt t (acc @ new) q w2 = (Ret ((acc @ new) @ u), w')" "flushed t q tr u"
        "replays fetch rt tr w2 w'" "\<forall>k. getItem k w' = getItem k w2" by blast
    have f: "flushed t (i # q) ((i, b) # tr) (new @ u)"
      using elig h(2) random_range[of w1]
      by (cases b; cases ?retry)
         (auto simp: new_def intro: flushed.intros)
    have r: "replays fetch rt ((i, b) # tr) w w'"
      using h(3) tm by (auto simp: w2_def split: if_splits)
    show ?thesis
      using step h(1) f r h(4) fr2 by (intro exI[of _ "(i, b) # tr"] exI[of _ "new @ u"] exI[of _ w']) auto
  qed
qed

lemma flush_body_spec:
  "\<exists>tr u w'. flushed (now rt w) (stored getItem w) tr u \<and> replays fetch rt tr w w'
     \<and> flush_body getItem setItem fetch rt w
         = (Ret (), if stored getItem w = [] then w else snd (writeQueue setItem u w'))
     \<and> (\<forall>k. getItem k w' = getItem k w)"
proof (cases "stored getItem w = []")
  case True
  then show ?thesis
    by (intro exI[of _ "[]"] exI[of _ w]) (auto simp: flush_body_def bnd_def intro: flushed_Nil)
next
  case False
  from flush_loop_spec[of "now rt w" "[]" "stored getItem w" w] obtain tr u w' where
    h: "flush_loop fetch rt (now rt w) [] (stored getItem w) w = (Ret u, w')"
      "flushed (now rt w) (stored getItem w) tr u" "replays fetch rt tr w w'"
      "\<forall>k. getItem k w' = getItem k w" by auto
  have "writeQueue setItem u w' = (Ret (), snd (writeQueue setItem u w'))"
    by (metis prod.collapse writeQueue_Ret)
  with h False show ?thesis
    by (intro exI[of _ tr] exI[of _ u] exI[of _ w']) (simp add: flush_body_def bnd_def)
qed

text \<open>A flush from a state that is not flushing.  A rejected final write keeps the old queue.\<close>

lemma flushQueue_spec:
  assumes "\<not> isFlushing s"
  shows "\<exists>tr u w'. flushed (now rt (env s)) (stored getItem (env s)) tr u
      \<and> replays fetch rt tr (env s) w'
      \<and> stored getItem (env (snd (flushQueue getItem setItem fetch rt s)))
          = (if is_Ret (fst (setItem OFFLINE_QUEUE_KEY (JText u) w')) then u else stored getItem (env s))"
proof -
  from flush_body_spec[of "env s"] obtain tr u w' where
    h: "flushed (now rt (env s)) (stored getItem (env s)) tr u" "replays fetch rt tr (env s) w'"
      "flush_body getItem setItem fetch rt (env s)
         = (Ret (), if stored getItem (env s) = [] then env s else snd (writeQueue setItem u w'))"
      "\<forall>k. getItem k w' = getItem k (env s)"
    by blast
  have e: "env (snd (flushQueue getItem setItem fetch rt s))
      = (if stored getItem (env s) = [] then env s else snd (writeQueue setItem u w'))"
    using assms(1) h(3) by (simp add: flushQueue_def always_def lift_def)
  have w': "stored getItem w' = stored getItem (env s)" using h(4) by (simp add: stored_def)
  have "stored getItem (env s) = [] \<Longrightarrow> u = []" using h(1) by (auto elim: flushed_NilE)
  with e h(1,2) w' show ?thesis
    by (intro exI[of _ tr] exI[of _ u] exI[of _ w']) (auto simp: stored_write)
qed

end

section \<open>The queue on the reference device\<close>

definition dev_rt :: "int \<Rightarrow> ('v, 'b, 'j) device runtime" where
  "dev_rt t = \<lparr>now = (\<lambda>_. t), isoTime = (\<lambda>_. ''2025-01-01T00:00:00.000Z''),
     random36 = (\<lambda>_. ''0.4fzyo82mvyr''), random = (\<lambda>d. (1 / 2, d))\<rparr>"

interpretation dev_q: offline_env dev_getItem dev_setItem dev_removeItem dev_fetch "dev_rt t" for t
  by unfold_locales (auto simp: dev_rt_def)

definition sample_item :: "int \<Rightarrow> int \<Rightarrow> unit QueuedTransaction" where
  "sample_item c t = \<lparr>qt_id = ''1000-4fzyo82'', qt_endpoint = ''https://api.zaps.app/api/v1/transfer'',
     qt_method = ''POST'', qt_body = (), qt_authToken = Some ''tok'', qt_enqueuedAt = ''t0'',
     qt_retryCount = c, qt_nextRetryAt = t\<rparr>"

definition queue_device :: "unit QueuedTransaction list \<Rightarrow> (unit qtext, unit, unit) device" where
  "queue_device q = blank_device\<lparr>dev_kv := [OFFLINE_QUEUE_KEY \<mapsto> JText q]\<rparr>"

definition sample_opts :: "unit EnqueueOptions" where
  "sample_opts = \<lparr>eo_endpoint = ''https://api.zaps.app/api/v1/transfer'', eo_method = None,
     eo_body = (), eo_authToken = None\<rparr>"

lemma new_item_dev_rt: "new_item (dev_rt t) opts w = new_item (dev_rt t) opts w'"
  by (simp add: new_item_def dev_rt_def generateId_def)

lemma queue_device_up [simp]: "\<not> dev_kv_broken (queue_device q)"
  by (simp add: queue_device_def blank_device_def)

lemma stored_queue_device [simp]: "stored dev_getItem (queue_device q) = q"
  by (simp add: stored_def queue_device_def dev_getItem_def blank_device_def)

definition idle :: "'w \<Rightarrow> 'w q_state" where
  "idle w = \<lparr>isFlushing = False, wasConnected = None, env = w\<rparr>"

lemma idle_simps [simp]: "\<not> isFlushing (idle w)" "env (idle w) = w"
  by (simp_all add: idle_def)

lemma dev_now [simp]: "now (dev_rt t) w = t"
  by (simp add: dev_rt_def)

lemma dev_writes: "is_Ret (fst (dev_setItem k v w)) \<longleftrightarrow> \<not> dev_kv_broken w"
  by (simp add: dev_setItem_def)

section \<open>Properties\<close>

text \<open>
  An enqueued transaction is appended at the tail of the persisted queue, with no retries and
  eligible at once; nothing already queued changes.
\<close>

theorem enqueue_appends:
  assumes "offline_env getItem setItem removeItem fetch rt"
    and "is_Ret (fst (setItem OFFLINE_QUEUE_KEY (JText (stored getItem w @ [new_item rt opts w])) w))"
  shows "readQueue getItem (snd (enqueueTransaction getItem setItem rt opts w))
      = (Ret (stored getItem w @ [new_item rt opts w]),
         snd (enqueueTransaction getItem setItem rt opts w))
    \<and> qt_retryCount (new_item rt opts w) = 0 \<and> qt_nextRetryAt (new_item rt opts w) = now rt w"
  using offline_env.stored_enqueue[OF assms(1), of opts w] assms(2)
  by (simp add: new_item_def)

theorem enqueue_appends_witness:
  "readQueue dev_getItem (snd (enqueueTransaction dev_getItem dev_setItem (dev_rt 7) sample_opts
       (queue_device [sample_item 1 9])))
     = (Ret [sample_item 1 9, new_item (dev_rt 7) sample_opts (queue_device [])],
        snd (enqueueTransaction dev_getItem dev_setItem (dev_rt 7) sample_opts
          (queue_device [sample_item 1 9])))"
  using enqueue_appends[OF dev_q.offline_env_axioms[of 7],
    where opts = sample_opts and w = "queue_device [sample_item 1 9]"]
  by (simp add: dev_writes new_item_dev_rt[of 7 sample_opts "queue_device [sample_item 1 9]" "queue_device []"])

text \<open>
  C1: \<open>flushQueue\<close> implements the specification \<open>flushed\<close>: what is persisted afterwards relates to
  what was persisted before by exactly the attempts it makes, each a call of \<open>transmit\<close>, in
  order: items in back-off are kept as they are, sent or exhausted items leave, every other
  failed item comes back with one retry more and a later \<open>nextRetryAt\<close>.
\<close>

theorem flush_refines:
  assumes "offline_env getItem setItem removeItem fetch rt" and "\<not> isFlushing s"
  shows "\<exists>tr u w'. flushed (now rt (env s)) (stored getItem (env s)) tr u
      \<and> replays fetch rt tr (env s) w'
      \<and> stored getItem (env (snd (flushQueue getItem setItem fetch rt s)))
          = (if is_Ret (fst (setItem OFFLINE_QUEUE_KEY (JText u) w')) then u else stored getItem (env s))"
  by (rule offline_env.flushQueue_spec[OF assms])

theorem flush_refines_witness:
  "\<exists>tr u w'. flushed 5 (stored dev_getItem (queue_device [sample_item 1 3, sample_item 0 9])) tr u
      \<and> replays dev_fetch (dev_rt 5) tr (queue_device [sample_item 1 3, sample_item 0 9]) w'
      \<and> stored dev_getItem (env (snd (flushQueue dev_getItem dev_setItem dev_fetch (dev_rt 5)
           (idle (queue_device [sample_item 1 3, sample_item 0 9])))))
          = (if is_Ret (fst (dev_setItem OFFLINE_QUEUE_KEY (JText u) w')) then u
             else stored dev_getItem (queue_device [sample_item 1 3, sample_item 0 9]))"
  using flush_refines[OF dev_q.offline_env_axioms[of 5],
    where s = "idle (queue_device [sample_item 1 3, sample_item 0 9])"]
  unfolding dev_now idle_simps(2) by simp

text \<open>
  A flush never reorders, duplicates or invents transactions: the identifiers persisted after
  it are a subsequence of those persisted before, and an item is missing afterwards only
  if its \<open>nextRetryAt\<close> had passed.
\<close>

theorem flush_keeps_order:
  assumes "offline_env getItem setItem removeItem fetch rt" and "\<not> isFlushing s"
  shows "let before = stored getItem (env s);
             after = stored getItem (env (snd (flushQueue getItem setItem fetch rt s)))
         in subseq (map qt_id after) (map qt_id before)
            \<and> (\<forall>i \<in> set before. now rt (env s) < qt_nextRetryAt i \<longrightarrow> i \<in> set after)"
proof -
  from offline_env.flushQueue_spec[OF assms] obtain tr u w' where
    h: "flushed (now rt (env s)) (stored getItem (env s)) tr u"
      "stored getItem (env (snd (flushQueue getItem setItem fetch rt s)))
        = (if is_Ret (fst (setItem OFFLINE_QUEUE_KEY (JText u) w')) then u else stored getItem (env s))"
    by blast
  have keep: "i \<in> set u" if "i \<in> set (stored getItem (env s))" "now rt (env s) < qt_nextRetryAt i" for i
    using flushed_accounts[OF h(1) that(1)] flushed_attempts[OF h(1)] that(2) by force
  show ?thesis using h(2) keep flushed_order[OF h(1)] by (simp add: Let_def)
qed

theorem flush_keeps_order_witness:
  "sample_item 0 9 \<in> set (stored dev_getItem (env (snd (flushQueue dev_getItem dev_setItem dev_fetch
     (dev_rt 5) (idle (queue_device [sample_item 1 3, sample_item 0 9]))))))"
  using flush_keeps_order[OF dev_q.offline_env_axioms[of 5],
    where s = "idle (queue_device [sample_item 1 3, sample_item 0 9])"]
  by (simp add: Let_def) (simp add: sample_item_def)

text \<open>The invariant of a persisted queue: retry counts below the limit.\<close>

definition wf_queue :: "'b QueuedTransaction list \<Rightarrow> bool" where
  "wf_queue q \<longleftrightarrow> list_all (\<lambda>i. 0 \<le> qt_retryCount i \<and> qt_retryCount i < MAX_RETRIES) q"

lemma wf_flushed: "flushed t q tr u \<Longrightarrow> wf_queue q \<Longrightarrow> wf_queue u"
  by (induction rule: flushed.induct) (auto simp: wf_queue_def reschedule_def)

text \<open>
  C26: Enqueueing, removing and flushing keep every persisted retry count between 0 and
  \<open>MAX_RETRIES - 1\<close>.
\<close>

theorem queue_invariant:
  assumes "offline_env getItem setItem removeItem fetch rt" and "wf_queue (stored getItem (env s))"
  shows "wf_queue (stored getItem (snd (enqueueTransaction getItem setItem rt opts (env s))))
    \<and> wf_queue (stored getItem (snd (removeFromQueue getItem setItem i (env s))))
    \<and> wf_queue (stored getItem (env (snd (flushQueue getItem setItem fetch rt s))))"
proof (intro conjI)
  show "wf_queue (stored getItem (snd (enqueueTransaction getItem setItem rt opts (env s))))"
    using assms(2) by (simp add: offline_env.stored_enqueue[OF assms(1)])
      (simp add: wf_queue_def new_item_def MAX_RETRIES_def)
  show "wf_queue (stored getItem (snd (removeFromQueue getItem setItem i (env s))))"
    using assms(2) by (simp add: offline_env.stored_remove[OF assms(1)])
      (simp add: wf_queue_def list_all_iff)
  show "wf_queue (stored getItem (env (snd (flushQueue getItem setItem fetch rt s))))"
  proof (cases "isFlushing s")
    case False
    from offline_env.flushQueue_spec[OF assms(1) this] assms(2) wf_flushed show ?thesis
      by (metis (full_types))
  qed (simp add: flushQueue_def assms(2))
qed

theorem queue_invariant_witness:
  "wf_queue (stored dev_getItem (env (snd (flushQueue dev_getItem dev_setItem dev_fetch
     (dev_rt 5) (idle (queue_device [sample_item 1 3, sample_item 4 3]))))))"
proof -
  have "wf_queue (stored dev_getItem (env (idle (queue_device [sample_item 1 3, sample_item 4 3]))))"
    by (simp add: wf_queue_def sample_item_def MAX_RETRIES_def)
  from queue_invariant[OF dev_q.offline_env_axioms[of 5] this] show ?thesis by blast
qed

text \<open>
  \<open>_isFlushing\<close> is a lock: a second flush while one is running does nothing, and a flush that ran
  leaves the flag clear on every path, whatever storage and network did.
\<close>

theorem flush_lock:
  "snd (flushQueue getItem setItem fetch rt s)\<lparr>env := w\<rparr> = s\<lparr>env := w\<rparr>
   \<and> (flushQueue getItem setItem fetch rt s = (Ret (), s)
      \<or> \<not> isFlushing s \<and> flushQueue getItem setItem fetch rt s =
           (fst (flush_body getItem setItem fetch rt (env s)),
            s\<lparr>env := snd (flush_body getItem setItem fetch rt (env s))\<rparr>))"
  by (cases s) (simp add: flushQueue_def always_def lift_def split: prod.splits)

section \<open>Draining\<close>

text \<open>\<open>n\<close> flushes one after the other, each at its own clock reading.\<close>

primrec flush_rounds ::
  "(string \<Rightarrow> 'w \<Rightarrow> 'b qtext option res) \<Rightarrow> (string \<Rightarrow> 'b qtext \<Rightarrow> ('w, unit) io) \<Rightarrow>
   ('b request \<Rightarrow> ('w, 'j response) io) \<Rightarrow> (nat \<Rightarrow> 'w runtime) \<Rightarrow> nat \<Rightarrow> 'w q_state \<Rightarrow> 'w q_state" where
  "flush_rounds getItem setItem fetch rts 0 s = s"
| "flush_rounds getItem setItem fetch rts (Suc n) s =
     snd (flushQueue getItem setItem fetch (rts n) (flush_rounds getItem setItem fetch rts n s))"

lemma flushQueue_idle: "\<not> isFlushing s \<Longrightarrow> \<not> isFlushing (snd (flushQueue getItem setItem fetch rt s))"
  by (simp add: flushQueue_def always_def split: prod.splits)

lemma flush_rounds_idle: "\<not> isFlushing s \<Longrightarrow> \<not> isFlushing (flush_rounds getItem setItem fetch rts n s)"
  by (induction n) (simp_all add: flushQueue_idle)

lemma flushed_all_due:
  assumes "flushed t q tr u" "\<forall>i \<in> set q. qt_nextRetryAt i \<le> t" "\<forall>i \<in> set q. c \<le> qt_retryCount i"
    and "x \<in> set u"
  shows "qt_nextRetryAt x \<le> t + 36000 \<and> c + 1 \<le> qt_retryCount x \<and> qt_retryCount x < MAX_RETRIES"
proof -
  from flushed_retries[OF assms(1,4)] assms(2) obtain i r where
    i: "i \<in> set q" "x = reschedule t r i" "qt_retryCount i + 1 < MAX_RETRIES" "0 \<le> r" "r < 1"
    by force
  show ?thesis
    using i assms(3) calcBackoffMs_bounds(2)[OF i(4,5), of "qt_retryCount i + 1"]
    by (simp add: reschedule_def)
qed


text \<open>A network that is down.\<close>

definition mem_rt :: "int \<Rightarrow> 'w runtime" where
  "mem_rt t = \<lparr>now = (\<lambda>_. t), isoTime = (\<lambda>_. ''2025-01-01T00:00:00.000Z''),
     random36 = (\<lambda>_. ''0.4fzyo82mvyr''), random = (\<lambda>d. (1 / 2, d))\<rparr>"

definition net_down :: "'b request \<Rightarrow> ('w, unit response) io" where
  "net_down rq = throw (Error ''Network request failed'')"

lemmas mem_defs = mem_getItem_def mem_setItem_def mem_removeItem_def mem_rt_def net_down_def

interpretation mem_q: offline_env mem_getItem mem_setItem mem_removeItem net_down "mem_rt t" for t
  by unfold_locales (auto simp: mem_defs)


section \<open>Interference\<close>

text \<open>
  \<open>fetch\<close> is awaited, so other code runs while a flush waits for an answer.  Here \<open>fetch\<close> is
  arbitrary: its effect on the world includes whatever ran in between, an
  \<open>enqueueTransaction\<close> for instance.
\<close>

lemma flush_loop_ids:
  "flush_loop fetch rt t acc q w = (Ret r, w') \<Longrightarrow> \<exists>u. r = acc @ u \<and> subseq (map qt_id u) (map qt_id q)"
proof (induction q arbitrary: acc w)
  case (Cons i q)
  obtain b w1 where tm: "transmit fetch i w = (Ret b, w1)"
    using transmit_Ret[of fetch i w] by (cases "transmit fetch i w") auto
  have "\<exists>acc' w2. flush_loop fetch rt t acc (i # q) w = flush_loop fetch rt t acc' q w2
      \<and> (acc' = acc \<or> (\<exists>j. acc' = acc @ [j] \<and> qt_id j = qt_id i))"
  proof (cases "t < qt_nextRetryAt i \<or> b \<or> MAX_RETRIES \<le> qt_retryCount i + 1")
    case True
    then show ?thesis using tm by (auto simp: bnd_def)
  next
    case False
    then have "flush_loop fetch rt t acc (i # q) w
        = flush_loop fetch rt t (acc @ [reschedule t (fst (random rt w1)) i]) q (snd (random rt w1))"
      using tm by (simp add: bnd_def split: prod.splits)
    moreover have "qt_id (reschedule t (fst (random rt w1)) i) = qt_id i" by (simp add: reschedule_def)
    ultimately show ?thesis by blast
  qed
  then obtain acc' w2 where step: "flush_loop fetch rt t acc (i # q) w = flush_loop fetch rt t acc' q w2"
    and acc': "acc' = acc \<or> (\<exists>j. acc' = acc @ [j] \<and> qt_id j = qt_id i)" by blast
  from Cons.IH[OF Cons.prems[unfolded step]] obtain u where
    "r = acc' @ u" "subseq (map qt_id u) (map qt_id q)" by blast
  with acc' show ?case by (elim disjE exE conjE) (force, simp)
qed simp

lemma flush_loop_Ret: "\<exists>r w'. flush_loop fetch rt t acc q w = (Ret r, w')"
proof (induction q arbitrary: acc w)
  case (Cons i q)
  obtain b w1 where "transmit fetch i w = (Ret b, w1)"
    using transmit_Ret[of fetch i w] by (cases "transmit fetch i w") auto
  with Cons show ?case by (cases "random rt w1") (auto simp: bnd_def)
qed simp

text \<open>
  The final write of a flush overwrites the whole queue with what was computed from the
  queue read at its start: whatever is enqueued while the flush waits for the network is lost,
  the identifiers persisted afterwards being among those persisted before the flush began.
\<close>

theorem flush_overwrites_concurrent_writes:
  assumes "kv_store getItem setItem removeItem"
    and "\<And>v w. is_Ret (fst (setItem OFFLINE_QUEUE_KEY v w))"
    and "\<not> isFlushing s" "stored getItem (env s) \<noteq> []"
  shows "subseq (map qt_id (stored getItem (env (snd (flushQueue getItem setItem fetch rt s)))))
           (map qt_id (stored getItem (env s)))"
proof -
  let ?q = "stored getItem (env s)"
  obtain r w' where r: "flush_loop fetch rt (now rt (env s)) [] ?q (env s) = (Ret r, w')"
    using flush_loop_Ret[of fetch rt "now rt (env s)" "[]" ?q "env s"] by auto
  have "env (snd (flushQueue getItem setItem fetch rt s)) = snd (writeQueue setItem r w')"
    using assms(3,4) r by (auto simp: flushQueue_def always_def lift_def flush_body_def bnd_def split: prod.splits)
  moreover have "stored getItem (snd (writeQueue setItem r w')) = r"
    using kv_store.set_swallowed[OF assms(1), of OFFLINE_QUEUE_KEY OFFLINE_QUEUE_KEY "JText r" w'] assms(2)
    by (simp add: writeQueue_def stored_def JSON_stringify_def)
  ultimately show ?thesis using flush_loop_ids[OF r] by auto
qed

text \<open>A request that is answered with status 200 after the user has queued another transaction.\<close>

definition busy_fetch :: "unit request \<Rightarrow> (string \<rightharpoonup> unit qtext, unit response) io" where
  "busy_fetch rq w = (Ret \<lparr>status = 200, statusText = ''OK'', json = Ret (), text_of = Ret []\<rparr>,
     snd (enqueueTransaction mem_getItem mem_setItem (mem_rt 5) sample_opts w))"

theorem flush_overwrites_concurrent_writes_witness:
  "subseq (map qt_id (stored mem_getItem (env (snd (flushQueue mem_getItem mem_setItem busy_fetch (mem_rt 5)
      (idle [OFFLINE_QUEUE_KEY \<mapsto> JText [sample_item 0 0]]))))))
     [qt_id (sample_item 0 0)]
   \<and> stored mem_getItem (env (snd (flushQueue mem_getItem mem_setItem busy_fetch (mem_rt 5)
      (idle [OFFLINE_QUEUE_KEY \<mapsto> JText [sample_item 0 0]])))) = []"
proof
  have st: "stored mem_getItem [OFFLINE_QUEUE_KEY \<mapsto> JText [sample_item 0 0]] = [sample_item 0 0]"
    by (simp add: stored_def mem_defs)
  show "subseq (map qt_id (stored mem_getItem (env (snd (flushQueue mem_getItem mem_setItem busy_fetch (mem_rt 5)
      (idle [OFFLINE_QUEUE_KEY \<mapsto> JText [sample_item 0 0]]))))))
     [qt_id (sample_item 0 0)]"
    using flush_overwrites_concurrent_writes[OF mem.kv_store_axioms,
      where s = "idle [OFFLINE_QUEUE_KEY \<mapsto> JText [sample_item 0 0]]" and fetch = busy_fetch and rt = "mem_rt 5"]
    by (simp add: st mem_setItem_def)
  show "stored mem_getItem (env (snd (flushQueue mem_getItem mem_setItem busy_fetch (mem_rt 5)
      (idle [OFFLINE_QUEUE_KEY \<mapsto> JText [sample_item 0 0]])))) = []"
    by (simp add: flushQueue_def always_def lift_def flush_body_def bnd_def st sample_item_def mem_defs
      transmit_def busy_fetch_def try_catch_def ok_def enqueueTransaction_def writeQueue_def
      stored_def JSON_stringify_def)
qed

section \<open>Listening for the network\<close>

text \<open>The offline-to-online transitions of a sequence of connectivity reports.\<close>

fun edges :: "bool \<Rightarrow> bool option list \<Rightarrow> nat" where
  "edges b [] = 0"
| "edges b (c # cs) = (if \<not> b \<and> c = Some True then 1 else 0) + edges (c = Some True) cs"

lemma onNetInfo_edges:
  assumes "\<And>s. snd (flush s) = s\<lparr>env := env s + 1\<rparr>" and "wasConnected s = Some b"
  shows "env (fold (onNetInfo flush) cs s) = env s + edges b cs"
  using assms(2)
proof (induction cs arbitrary: s b)
  case (Cons c cs)
  show ?case
    using Cons.IH[of "onNetInfo flush c s" "c = Some True"] Cons.prems assms(1)
    by (auto simp: onNetInfo_def Let_def)
qed simp

text \<open>
  After the initial check, the listener starts one flush per offline-to-online transition and
  none otherwise: the number of flushes a sequence of connectivity reports causes is the number
  of such transitions in it (plus the initial one when the app starts online).
\<close>

theorem listener_flushes_on_reconnect:
  assumes "\<And>s. snd (flush s) = s\<lparr>env := env s + 1\<rparr>"
  shows "env (fold (onNetInfo flush) cs (onInitialFetch flush c s))
    = env s + (if c = Some True then 1 else 0) + edges (c = Some True) cs"
proof -
  have w: "wasConnected (onInitialFetch flush c s) = Some (c = Some True)"
    and e: "env (onInitialFetch flush c s) = env s + (if c = Some True then 1 else 0)"
    using assms by (auto simp: onInitialFetch_def Let_def)
  show ?thesis using onNetInfo_edges[OF assms w] e by simp
qed

theorem listener_flushes_on_reconnect_witness:
  "env (fold (onNetInfo (\<lambda>s. (Ret (), s\<lparr>env := env s + 1\<rparr>))) [Some False, Some True, Some True, None, Some True]
     (onInitialFetch (\<lambda>s. (Ret (), s\<lparr>env := env s + 1\<rparr>)) (Some True) (idle 0))) = (3::nat)"
  by (subst listener_flushes_on_reconnect) simp_all

end
