(* ===== verification/Retry.thy ===== *)
theory Retry
  imports Js_Number Platform
begin

text \<open>
  \<open>mobileapp/src/utils/retry.ts\<close>: retrying with exponential back-off, the HTTP wrapper built
  on it and the wrapper that turns a failure into a toast.  \<open>sleep\<close> is the promise around
  \<open>setTimeout\<close>, and \<open>onRetry\<close> the caller's notification, both arguments of the model.
  Main results: the outcome of \<open>retryWithBackoff\<close> is that of the first successful attempt or
  of attempt \<open>maxRetries + 1\<close>; the number of attempts is bounded; a fulfilled
  \<open>fetchWithRetry\<close> carries a 2xx response.
\<close>

section \<open>Options\<close>

record 'w RetryOptions =
  maxRetries :: "int option"
  baseDelay :: "js_num option"
  maxDelay :: "js_num option"
  backoffFactor :: "js_num option"
  onRetry :: "(int \<Rightarrow> js_error \<Rightarrow> 'w \<Rightarrow> 'w) option"

definition no_options :: "'w RetryOptions" where
  "no_options = \<lparr>maxRetries = None, baseDelay = None, maxDelay = None, backoffFactor = None,
     onRetry = None\<rparr>"

definition default :: "'a option \<Rightarrow> 'a \<Rightarrow> 'a" where
  "default x d = (case x of None \<Rightarrow> d | Some a \<Rightarrow> a)"

text \<open>\<open>Math.min(baseDelay * Math.pow(backoffFactor, attempt), maxDelay)\<close>.\<close>

definition retry_delay :: "js_num \<Rightarrow> js_num \<Rightarrow> js_num \<Rightarrow> int \<Rightarrow> js_num" where
  "retry_delay base maxd factor attempt =
     num_min (num_mul base (num_pow factor (nat attempt))) maxd"

section \<open>The retry loop\<close>

text \<open>
  The \<open>for\<close> loop from \<open>attempt\<close> on.  \<open>lastError\<close> is \<open>undefined\<close> before the first failure,
  which is what the statement after the loop throws when the loop body never runs.
\<close>

function retry_loop ::
  "('w, 'a) io \<Rightarrow> (js_num \<Rightarrow> ('w, unit) io) \<Rightarrow> (int \<Rightarrow> js_error \<Rightarrow> 'w \<Rightarrow> 'w) \<Rightarrow> (int \<Rightarrow> js_num) \<Rightarrow>
   int \<Rightarrow> int \<Rightarrow> js_error \<Rightarrow> ('w, 'a) io" where
  "retry_loop fn sleep notify delay maxr attempt lastError w =
     (if attempt \<le> maxr then
        (case fn w of
           (Ret a, w1) \<Rightarrow> (Ret a, w1)
         | (Throw e, w1) \<Rightarrow>
             if attempt = maxr then (Throw e, w1)
             else (case sleep (delay attempt) (notify (attempt + 1) e w1) of
                     (Throw e2, w2) \<Rightarrow> (Throw e2, w2)
                   | (Ret _, w2) \<Rightarrow> retry_loop fn sleep notify delay maxr (attempt + 1) e w2))
      else (Throw lastError, w))"
  by pat_completeness auto
termination
  by (relation "measure (\<lambda>(_, _, _, _, maxr, attempt, _, _). nat (maxr + 1 - attempt))") auto

declare retry_loop.simps [simp del]

definition retryWithBackoff ::
  "(js_num \<Rightarrow> ('w, unit) io) \<Rightarrow> ('w, 'a) io \<Rightarrow> 'w RetryOptions \<Rightarrow> ('w, 'a) io" where
  "retryWithBackoff sleep fn opts =
     retry_loop fn sleep (default (onRetry opts) (\<lambda>_ _ w. w))
       (retry_delay (default (baseDelay opts) (Fin 1000)) (default (maxDelay opts) (Fin 10000))
          (default (backoffFactor opts) (Fin 2)))
       (default (maxRetries opts) 3) 0 NonError"

section \<open>Wrappers\<close>

text \<open>Spreading caller options over the defaults of \<open>fetchWithRetry\<close>.\<close>

definition over :: "'w RetryOptions \<Rightarrow> 'w RetryOptions \<Rightarrow> 'w RetryOptions" where
  "over d o' = (let pick = (\<lambda>a b. case b of None \<Rightarrow> a | Some _ \<Rightarrow> b) in
     \<lparr>maxRetries = (case maxRetries o' of None \<Rightarrow> maxRetries d | Some x \<Rightarrow> Some x),
      baseDelay = pick (baseDelay d) (baseDelay o'),
      maxDelay = pick (maxDelay d) (maxDelay o'),
      backoffFactor = pick (backoffFactor d) (backoffFactor o'),
      onRetry = (case onRetry o' of None \<Rightarrow> onRetry d | Some x \<Rightarrow> Some x)\<rparr>)"

definition http_error :: "'j response \<Rightarrow> js_error" where
  "http_error r = Error (''HTTP '' @ show_int (status r) @ '': '' @ statusText r)"

definition fetch_ok :: "('b request \<Rightarrow> ('w, 'j response) io) \<Rightarrow> 'b request \<Rightarrow> ('w, 'j response) io" where
  "fetch_ok fetch rq = bnd (fetch (rq\<lparr>headers := json_header ++ headers rq\<rparr>))
     (\<lambda>r. if ok r then ret r else throw (http_error r))"

text \<open>\<open>warn attempt\<close> is the \<open>Network error. Retrying... (attempt/3)\<close> toast.\<close>

definition fetchWithRetry ::
  "('b request \<Rightarrow> ('w, 'j response) io) \<Rightarrow> (js_num \<Rightarrow> ('w, unit) io) \<Rightarrow> (int \<Rightarrow> 'w \<Rightarrow> 'w) \<Rightarrow>
   'b request \<Rightarrow> 'w RetryOptions \<Rightarrow> ('w, 'j response) io" where
  "fetchWithRetry fetch sleep warn rq opts =
     retryWithBackoff sleep (fetch_ok fetch rq)
       (over \<lparr>maxRetries = Some 3, baseDelay = Some (Fin 1000), maxDelay = Some (Fin 5000),
              backoffFactor = None, onRetry = Some (\<lambda>n _ w. warn n w)\<rparr> opts)"

record 'w SafeOptions =
  successMessage :: "string option"
  errorMessage :: "string option"
  retryOptions :: "'w RetryOptions option"

definition safeAsyncCall ::
  "(js_num \<Rightarrow> ('w, unit) io) \<Rightarrow> (string \<Rightarrow> 'w \<Rightarrow> 'w) \<Rightarrow> (string \<Rightarrow> 'w \<Rightarrow> 'w) \<Rightarrow>
   ('w, 'a) io \<Rightarrow> 'w SafeOptions \<Rightarrow> ('w, 'a option) io" where
  "safeAsyncCall sleep toast_success toast_error fn opts =
     try_catch
       (bnd (case retryOptions opts of None \<Rightarrow> fn | Some ro \<Rightarrow> retryWithBackoff sleep fn ro)
          (\<lambda>result. bnd (if truthy (successMessage opts)
                          then modifies (toast_success (the (successMessage opts))) else ret ())
             (\<lambda>_. ret (Some result))))
       (\<lambda>_. bnd (modifies (toast_error
              (default (errorMessage opts) ''Something went wrong. Please try again.'')))
          (\<lambda>_. ret None))"

section \<open>Behaviour of the loop\<close>

text \<open>
  The world after \<open>n\<close> failed attempts, each followed by its notification and its pause:
  the reference against which the loop is stated.
\<close>

fun after_failures ::
  "('w, 'a) io \<Rightarrow> (js_num \<Rightarrow> ('w, unit) io) \<Rightarrow> (int \<Rightarrow> js_error \<Rightarrow> 'w \<Rightarrow> 'w) \<Rightarrow> (int \<Rightarrow> js_num) \<Rightarrow>
   nat \<Rightarrow> int \<Rightarrow> 'w \<Rightarrow> 'w option" where
  "after_failures fn sleep notify delay 0 i w = Some w"
| "after_failures fn sleep notify delay (Suc n) i w =
     (case fn w of (Ret _, _) \<Rightarrow> None
      | (Throw e, w1) \<Rightarrow> after_failures fn sleep notify delay n (i + 1)
          (snd (sleep (delay i) (notify (i + 1) e w1))))"

text \<open>One equation per way through the loop body.\<close>

lemma retry_loop_Ret:
  "i \<le> maxr \<Longrightarrow> fn w = (Ret a, w1) \<Longrightarrow> retry_loop fn sleep notify delay maxr i l w = (Ret a, w1)"
  by (subst retry_loop.simps) simp

lemma retry_loop_last:
  "fn w = (Throw e, w1) \<Longrightarrow> retry_loop fn sleep notify delay i i l w = (Throw e, w1)"
  by (subst retry_loop.simps) simp

lemma retry_loop_pause_fails:
  "i < maxr \<Longrightarrow> fn w = (Throw e, w1) \<Longrightarrow> sleep (delay i) (notify (i + 1) e w1) = (Throw e2, w2) \<Longrightarrow>
   retry_loop fn sleep notify delay maxr i l w = (Throw e2, w2)"
  by (subst retry_loop.simps) simp

lemma retry_loop_again:
  "i < maxr \<Longrightarrow> fn w = (Throw e, w1) \<Longrightarrow> sleep (delay i) (notify (i + 1) e w1) = (Ret u, w2) \<Longrightarrow>
   retry_loop fn sleep notify delay maxr i l w = retry_loop fn sleep notify delay maxr (i + 1) e w2"
  by (subst retry_loop.simps) simp

lemma retry_loop_stop: "maxr < i \<Longrightarrow> retry_loop fn sleep notify delay maxr i l w = (Throw l, w)"
  by (subst retry_loop.simps) simp

lemmas retry_loop_steps = retry_loop_Ret retry_loop_last retry_loop_pause_fails retry_loop_again
  retry_loop_stop

lemma retry_loop_outcome:
  assumes sleeps: "\<And>d v. is_Ret (fst (sleep d v))"
  shows "0 \<le> n \<Longrightarrow> maxr = i + int n \<Longrightarrow>
    \<exists>k v. k \<le> n \<and> after_failures fn sleep notify delay k i w = Some v
      \<and> retry_loop fn sleep notify delay maxr i l w = fn v
      \<and> (k = n \<or> is_Ret (fst (fn v)))"
proof (induction n arbitrary: i l w)
  case 0
  then show ?case
    by (intro exI[of _ 0] exI[of _ w])
       (cases "fn w"; cases "fst (fn w)"; auto simp: retry_loop_steps)
next
  case (Suc n)
  show ?case
  proof (cases "fn w")
    case (Pair r w1)
    show ?thesis
    proof (cases r)
      case (Ret a)
      with Pair Suc.prems show ?thesis
        by (intro exI[of _ 0] exI[of _ w]) (simp add: retry_loop_Ret)
    next
      case (Throw e)
      let ?w1 = "notify (i + 1) e w1"
      let ?w2 = "snd (sleep (delay i) ?w1)"
      obtain u where u: "sleep (delay i) ?w1 = (Ret u, ?w2)"
        using sleeps[of "delay i" ?w1] by (cases "sleep (delay i) ?w1"; cases "fst (sleep (delay i) ?w1)") auto
      have step: "retry_loop fn sleep notify delay maxr i l w
          = retry_loop fn sleep notify delay maxr (i + 1) e ?w2"
        using Pair Throw u Suc.prems by (simp add: retry_loop_again)
      have "maxr = i + 1 + int n" using Suc.prems by simp
      from Suc.IH[OF _ this, of ?w2 e] obtain k v where
        kv: "k \<le> n" "after_failures fn sleep notify delay k (i + 1) ?w2 = Some v"
          "retry_loop fn sleep notify delay maxr (i + 1) e ?w2 = fn v"
          "k = n \<or> is_Ret (fst (fn v))" by auto
      show ?thesis
        using kv Pair Throw by (intro exI[of _ "Suc k"] exI[of _ v]) (simp add: step)
    qed
  qed
qed

lemma retry_loop_count:
  assumes fn: "\<And>v. cnt (snd (fn v)) = cnt v + (1::nat)"
    and sleep: "\<And>d v. cnt (snd (sleep d v)) = cnt v"
    and notify: "\<And>n e v. cnt (notify n e v) = cnt v"
  shows "cnt (snd (retry_loop fn sleep notify delay maxr i l w)) \<le> cnt w + nat (maxr + 1 - i)"
proof (induction "nat (maxr + 1 - i)" arbitrary: i l w)
  case 0
  then show ?case by (simp add: retry_loop_stop)
next
  case (Suc n)
  obtain r w1 where f: "fn w = (r, w1)" by fastforce
  have w1: "cnt w1 = cnt w + 1" using fn[of w] f by simp
  show ?case
  proof (cases r)
    case (Ret a)
    with Suc(2) f w1 show ?thesis by (simp add: retry_loop_Ret)
  next
    case (Throw e)
    obtain q w2 where s: "sleep (delay i) (notify (i + 1) e w1) = (q, w2)" by fastforce
    have w2: "cnt w2 = cnt w + 1"
      using sleep[of "delay i" "notify (i + 1) e w1"] s notify w1 by simp
    have "cnt (snd (retry_loop fn sleep notify delay maxr (i + 1) e w2))
        \<le> cnt w2 + nat (maxr + 1 - (i + 1))"
      by (rule Suc(1)) (use Suc(2) in simp)
    then have "cnt (snd (retry_loop fn sleep notify delay maxr (i + 1) e w2)) \<le> cnt w + nat (maxr + 1 - i)"
      using w2 Suc(2) by linarith
    with Throw f s w1 w2 Suc(2) show ?thesis
      by (cases "i = maxr"; cases q) (simp_all add: retry_loop_steps)
  qed
qed

lemma retry_loop_post:
  assumes "\<And>v a v'. fn v = (Ret a, v') \<Longrightarrow> P a"
  shows "retry_loop fn sleep notify delay maxr i l w = (Ret a, w') \<Longrightarrow> P a"
proof (induction "nat (maxr + 1 - i)" arbitrary: i l w)
  case 0
  then show ?case by (simp add: retry_loop_stop)
next
  case (Suc n)
  from Suc.hyps(2) have i: "i \<le> maxr" "n = nat (maxr + 1 - (i + 1))" by auto
  obtain r w1 where f: "fn w = (r, w1)" by fastforce
  show ?case
  proof (cases r)
    case (Ret b)
    with f i Suc.prems have "fn w = (Ret a, w1)" by (simp add: retry_loop_Ret)
    then show ?thesis by (rule assms)
  next
    case (Throw e)
    with f Suc.prems i have lt: "i < maxr" by (cases "i = maxr") (auto simp: retry_loop_last)
    obtain q w2 where q: "sleep (delay i) (notify (i + 1) e w1) = (q, w2)" by fastforce
    with Suc.prems f Throw lt have "retry_loop fn sleep notify delay maxr (i + 1) e w2 = (Ret a, w')"
      by (cases q) (simp_all add: retry_loop_steps)
    then show ?thesis by (rule Suc.hyps(1)[OF i(2)])
  qed
qed

lemma default_delays:
  "map (retry_delay (Fin 1000) (Fin 5000) (Fin 2)) [0, 1, 2] = [Fin 1000, Fin 2000, Fin 4000]"
  by (simp add: retry_delay_def num_min_def numeral_2_eq_2)

text \<open>
  C19: \<open>retryWithBackoff\<close> returns.  With a pause that does not reject and \<open>maxRetries \<ge> 0\<close>, its
  outcome is exactly that of calling the function after some number \<open>k \<le> maxRetries\<close> of
  failed attempts, and either that last call succeeded or all \<open>maxRetries\<close> retries were used
  up; in particular a failure it reports is the failure of the last attempt.
\<close>

theorem retry_outcome:
  assumes "\<And>d v. is_Ret (fst (sleep d v))" and "maxRetries opts = Some (int n)"
  shows "\<exists>k v. k \<le> n
    \<and> after_failures fn sleep (default (onRetry opts) (\<lambda>_ _ w. w))
        (retry_delay (default (baseDelay opts) (Fin 1000)) (default (maxDelay opts) (Fin 10000))
          (default (backoffFactor opts) (Fin 2))) k 0 w = Some v
    \<and> retryWithBackoff sleep fn opts w = fn v
    \<and> (k = n \<or> is_Ret (fst (fn v)))"
  unfolding retryWithBackoff_def assms(2)
  using retry_loop_outcome[OF assms(1), where maxr = "int n" and i = 0 and n = n]
  by (simp add: default_def)

text \<open>A function that rejects its first two calls, counting them in the world.\<close>

definition third_time :: "(nat, nat) io" where
  "third_time v = (if v < 2 then Throw (Error ''down'') else Ret v, v + 1)"

theorem retry_outcome_witness:
  "\<exists>k v. k \<le> 3
    \<and> after_failures third_time (\<lambda>_. ret ()) (\<lambda>_ _ w. w)
        (retry_delay (Fin 1000) (Fin 10000) (Fin 2)) k 0 0 = Some v
    \<and> retryWithBackoff (\<lambda>_. ret ()) third_time (no_options\<lparr>maxRetries := Some 3\<rparr>) 0 = third_time v
    \<and> (k = 3 \<or> is_Ret (fst (third_time v)))"
  using retry_outcome[of "\<lambda>_. ret ()" "no_options\<lparr>maxRetries := Some 3\<rparr>" 3 third_time 0]
  by (simp add: no_options_def default_def)

text \<open>
  \<open>retryWithBackoff\<close> is bounded: whatever the function, the pause and the notification do,
  the function is called at most \<open>maxRetries + 1\<close> times (for any counter \<open>cnt\<close> of calls that
  pausing and notifying leave alone).
\<close>

theorem retry_attempt_bound:
  assumes "\<And>v. cnt (snd (fn v)) = cnt v + (1::nat)"
    and "\<And>d v. cnt (snd (sleep d v)) = cnt v"
    and "\<And>n e v. cnt (default (onRetry opts) (\<lambda>_ _ w. w) n e v) = cnt v"
  shows "cnt (snd (retryWithBackoff sleep fn opts w)) \<le> cnt w + nat (default (maxRetries opts) 3 + 1)"
  unfolding retryWithBackoff_def
  using retry_loop_count[of cnt fn sleep "default (onRetry opts) (\<lambda>_ _ w. w)", OF assms,
    where i = 0 and maxr = "default (maxRetries opts) 3"]
  by simp

theorem retry_attempt_bound_witness:
  "snd (retryWithBackoff (\<lambda>_. ret ()) third_time no_options 0) \<le> 0 + nat (3 + 1)"
  using retry_attempt_bound[of "\<lambda>v. v" third_time "\<lambda>_. ret ()" no_options 0]
  by (simp add: third_time_def no_options_def default_def)

text \<open>
  A response that \<open>fetchWithRetry\<close> hands to its caller has a 2xx status: every
  other answer counts as a failed attempt.
\<close>

theorem fetchWithRetry_ok:
  "fetchWithRetry fetch sleep warn rq opts w = (Ret r, w') \<Longrightarrow> 200 \<le> status r \<and> status r \<le> 299"
  unfolding fetchWithRetry_def retryWithBackoff_def
  by (erule retry_loop_post[rotated])
     (auto simp: fetch_ok_def bnd_def ok_def split: prod.splits res.splits if_splits)

text \<open>A server that answers 503 once and 200 afterwards.\<close>

definition flaky_fetch :: "unit request \<Rightarrow> (nat, unit response) io" where
  "flaky_fetch rq v = (Ret \<lparr>status = (if v = 0 then 503 else 200), statusText = [], json = Ret (),
     text_of = Ret []\<rparr>, v + 1)"

definition get_request :: "unit request" where
  "get_request = \<lparr>url = ''/health'', meth = ''GET'', headers = Map.empty, body = None\<rparr>"

theorem fetchWithRetry_ok_witness:
  "fetchWithRetry flaky_fetch (\<lambda>_. ret ()) (\<lambda>_ v. v) get_request no_options 0
     = (Ret \<lparr>status = 200, statusText = [], json = Ret (), text_of = Ret []\<rparr>, 2)
   \<and> (200::int) \<le> status \<lparr>status = 200, statusText = [], json = Ret (), text_of = Ret []\<rparr>
   \<and> status \<lparr>status = 200, statusText = [], json = Ret (), text_of = Ret []\<rparr> \<le> 299"
proof -
  have run: "fetchWithRetry flaky_fetch (\<lambda>_. ret ()) (\<lambda>_ v. v) get_request no_options 0
     = (Ret \<lparr>status = 200, statusText = [], json = Ret (), text_of = Ret []\<rparr>, 2)"
    by (simp add: fetchWithRetry_def retryWithBackoff_def no_options_def over_def default_def
      retry_loop.simps fetch_ok_def bnd_def flaky_fetch_def ok_def)
  from fetchWithRetry_ok[OF run] run show ?thesis by blast
qed

text \<open>
  \<open>safeAsyncCall\<close> never rejects: on every path it settles with a value or with \<open>null\<close>, and it
  settles with \<open>null\<close> exactly when the (possibly retried) call rejected.
\<close>

theorem safeAsyncCall_total:
  "\<exists>v. fst (safeAsyncCall sleep toast_success toast_error fn opts w) = Ret v
     \<and> (v = None \<longleftrightarrow> \<not> is_Ret (fst ((case retryOptions opts of
           None \<Rightarrow> fn | Some ro \<Rightarrow> retryWithBackoff sleep fn ro) w)))"
  by (auto simp: safeAsyncCall_def try_catch_def bnd_def split: prod.splits res.splits option.splits)

end
