(* ===== verification/Js_Uri.thy ===== *)
theory Js_Uri
  imports Js_String
begin

text \<open>
  Percent-encoding: \<open>encodeURIComponent\<close>, \<open>decodeURIComponent\<close> and the query-string reading
  of the WHATWG \<open>URL\<close> class (\<open>searchParams.get\<close>), on UTF-8 bytes.  The main result is that
  decoding inverts encoding on every well-formed string, and that an encoded component
  contains none of the delimiters of a query string.
\<close>

section \<open>UTF-8\<close>

abbreviation byte :: "char \<Rightarrow> nat" where
  "byte c \<equiv> of_char c"

definition is_cont :: "char \<Rightarrow> bool" where
  "is_cont c \<longleftrightarrow> 128 \<le> byte c \<and> byte c \<le> 191"

definition second_ok :: "nat \<Rightarrow> char \<Rightarrow> bool" where
  "second_ok b c \<longleftrightarrow> is_cont c
     \<and> (b = 224 \<longrightarrow> 160 \<le> byte c) \<and> (b = 237 \<longrightarrow> byte c \<le> 159)
     \<and> (b = 240 \<longrightarrow> 144 \<le> byte c) \<and> (b = 244 \<longrightarrow> byte c \<le> 143)"

fun utf8_ok :: "string \<Rightarrow> bool" where
  "utf8_ok [] = True"
| "utf8_ok (a # s) =
     (if byte a < 128 then utf8_ok s
      else if 194 \<le> byte a \<and> byte a \<le> 223
        then (case s of b # r \<Rightarrow> is_cont b \<and> utf8_ok r | _ \<Rightarrow> False)
      else if 224 \<le> byte a \<and> byte a \<le> 239
        then (case s of b # c # r \<Rightarrow> second_ok (byte a) b \<and> is_cont c \<and> utf8_ok r | _ \<Rightarrow> False)
      else if 240 \<le> byte a \<and> byte a \<le> 244
        then (case s of b # c # d # r \<Rightarrow>
                second_ok (byte a) b \<and> is_cont c \<and> is_cont d \<and> utf8_ok r | _ \<Rightarrow> False)
      else False)"

lemma utf8_ok_ascii: "list_all (\<lambda>c. byte c < 128) s \<Longrightarrow> utf8_ok s"
  by (induction s) auto

section \<open>Percent-encoding\<close>

definition unreserved :: "char \<Rightarrow> bool" where
  "unreserved c \<longleftrightarrow> is_upper c \<or> is_lower c \<or> is_digit c \<or> c \<in> set ''-_.!~*()'' \<or> byte c = 39"

definition hex_digit :: "nat \<Rightarrow> char" where
  "hex_digit n = (if n < 10 then char_of (48 + n) else char_of (55 + n))"

definition hex_val :: "char \<Rightarrow> nat option" where
  "hex_val c =
     (if is_digit c then Some (byte c - 48)
      else if 65 \<le> byte c \<and> byte c \<le> 70 then Some (byte c - 55)
      else if 97 \<le> byte c \<and> byte c \<le> 102 then Some (byte c - 87)
      else None)"

definition encode_char :: "char \<Rightarrow> string" where
  "encode_char c = (if unreserved c then [c]
     else [CHR ''%'', hex_digit (byte c div 16), hex_digit (byte c mod 16)])"

definition encodeURIComponent :: "string \<Rightarrow> string" where
  "encodeURIComponent s = concat (map encode_char s)"

fun decode_bytes :: "string \<Rightarrow> string option" where
  "decode_bytes [] = Some []"
| "decode_bytes (c # s) =
     (if c = CHR ''%'' then
        (case s of a # b # r \<Rightarrow>
           (case (hex_val a, hex_val b) of
              (Some x, Some y) \<Rightarrow> map_option ((#) (char_of (16 * x + y))) (decode_bytes r)
            | _ \<Rightarrow> None)
         | _ \<Rightarrow> None)
      else map_option ((#) c) (decode_bytes s))"

text \<open>A malformed escape or one that is not UTF-8 is a \<open>URIError\<close>.\<close>

definition decodeURIComponent :: "string \<Rightarrow> string res" where
  "decodeURIComponent s = (case decode_bytes s of
       Some t \<Rightarrow> if utf8_ok t then Ret t else Throw (Error ''URI malformed'')
     | None \<Rightarrow> Throw (Error ''URI malformed''))"

lemma byte_hex_digit: "n < 16 \<Longrightarrow> byte (hex_digit n) = (if n < 10 then 48 + n else 55 + n)"
  by (simp add: hex_digit_def)

lemma hex_val_hex_digit: "n < 16 \<Longrightarrow> hex_val (hex_digit n) = Some n"
  by (simp add: hex_val_def is_digit_def byte_hex_digit)

lemma not_unreserved_percent: "\<not> unreserved (CHR ''%'')"
  by (simp add: unreserved_def is_upper_def is_lower_def is_digit_def)

lemma byte_less_256 [simp]: "byte c < 256"
  by (metis mod_less_divisor of_char_mod_256 zero_less_numeral)

lemma decode_encode_char: "decode_bytes (encode_char c @ s) = map_option ((#) c) (decode_bytes s)"
proof (cases "unreserved c")
  case True
  then have "c \<noteq> CHR ''%''" using not_unreserved_percent by auto
  with True show ?thesis by (simp add: encode_char_def)
next
  case False
  have "byte c div 16 < 16" by (simp add: div_less_iff_less_mult)
  then have "decode_bytes (encode_char c @ s)
      = map_option ((#) (char_of (16 * (byte c div 16) + byte c mod 16))) (decode_bytes s)"
    using False by (simp add: encode_char_def hex_val_hex_digit)
  also have "16 * (byte c div 16) + byte c mod 16 = byte c" by simp
  finally show ?thesis by simp
qed

lemma decode_encode_bytes: "decode_bytes (encodeURIComponent s) = Some s"
  by (induction s) (auto simp: encodeURIComponent_def decode_encode_char)

theorem decode_encode_component:
  "utf8_ok s \<Longrightarrow> decodeURIComponent (encodeURIComponent s) = Ret s"
  by (simp add: decodeURIComponent_def decode_encode_bytes)

text \<open>The alphabet of an encoded component.\<close>

definition component_char :: "char \<Rightarrow> bool" where
  "component_char c \<longleftrightarrow> unreserved c \<or> c = CHR ''%''"

lemma hex_digit_unreserved: "n < 16 \<Longrightarrow> unreserved (hex_digit n)"
  by (simp add: unreserved_def is_upper_def is_digit_def byte_hex_digit)

lemma encode_component_chars: "c \<in> set (encodeURIComponent s) \<Longrightarrow> component_char c"
proof -
  assume "c \<in> set (encodeURIComponent s)"
  then obtain d where d: "c \<in> set (encode_char d)" by (auto simp: encodeURIComponent_def)
  have "byte d div 16 < 16" by (simp add: div_less_iff_less_mult)
  with d show ?thesis
    by (auto simp: encode_char_def component_char_def hex_digit_unreserved split: if_splits)
qed

lemma component_char_delims:
  "\<not> component_char (CHR ''&'')" "\<not> component_char (CHR ''='')" "\<not> component_char (CHR ''?'')"
  "\<not> component_char (CHR ''#'')" "\<not> component_char (CHR ''+'')" "\<not> component_char (CHR '' '')"
  by (simp_all add: component_char_def unreserved_def is_upper_def is_lower_def is_digit_def)

lemma encode_component_delims:
  "CHR ''&'' \<notin> set (encodeURIComponent s)" "CHR ''='' \<notin> set (encodeURIComponent s)"
  "CHR ''?'' \<notin> set (encodeURIComponent s)" "CHR ''#'' \<notin> set (encodeURIComponent s)"
  "CHR ''+'' \<notin> set (encodeURIComponent s)" "CHR '' '' \<notin> set (encodeURIComponent s)"
  using encode_component_chars[of _ s] component_char_delims by blast+

lemma component_char_not_ws: "component_char c \<Longrightarrow> \<not> is_ws c"
  by (auto simp: component_char_def unreserved_def is_upper_def is_lower_def is_digit_def is_ws_def)

lemma encode_component_id: "list_all unreserved s \<Longrightarrow> encodeURIComponent s = s"
  by (induction s) (auto simp: encodeURIComponent_def encode_char_def)

lemma encode_component_Nil_iff [simp]: "encodeURIComponent s = [] \<longleftrightarrow> s = []"
  by (cases s) (auto simp: encodeURIComponent_def encode_char_def)

section \<open>Query strings of the \<open>URL\<close> class\<close>

text \<open>
  \<open>application/x-www-form-urlencoded\<close> decoding: a plus sign is a space and an escape that is
  not two hexadecimal digits is kept as it stands.
\<close>

fun form_decode :: "string \<Rightarrow> string" where
  "form_decode [] = []"
| "form_decode (c # s) =
     (if c = CHR ''+'' then CHR '' '' # form_decode s
      else if c = CHR ''%'' then
        (case s of a # b # r \<Rightarrow>
           (case (hex_val a, hex_val b) of
              (Some x, Some y) \<Rightarrow> char_of (16 * x + y) # form_decode r
            | _ \<Rightarrow> c # form_decode s)
         | _ \<Rightarrow> c # form_decode s)
      else c # form_decode s)"

definition query_pair :: "string \<Rightarrow> string \<times> string" where
  "query_pair p = (case cut_at (CHR ''='') p of
     None \<Rightarrow> (form_decode p, []) | Some (k, v) \<Rightarrow> (form_decode k, form_decode v))"

definition query_pairs :: "string \<Rightarrow> (string \<times> string) list" where
  "query_pairs q = map query_pair (filter (\<lambda>p. p \<noteq> []) (split (CHR ''&'') q))"

text \<open>
  The query of a URL: tabs and newlines are removed, the fragment is dropped, and the query
  is what follows the first question mark.
\<close>

definition url_query :: "string \<Rightarrow> string" where
  "url_query u = (let v = filter (\<lambda>c. byte c \<noteq> 9 \<and> byte c \<noteq> 10 \<and> byte c \<noteq> 13) u;
       w = (case cut_at (CHR ''#'') v of None \<Rightarrow> v | Some (a, _) \<Rightarrow> a)
     in case cut_at (CHR ''?'') w of None \<Rightarrow> [] | Some (_, q) \<Rightarrow> q)"

definition searchParams_get :: "string \<Rightarrow> string \<Rightarrow> string option" where
  "searchParams_get u k = map_of (query_pairs (url_query u)) k"

lemma form_decode_encode_char: "form_decode (encode_char c @ s) = c # form_decode s"
proof (cases "unreserved c")
  case True
  then have "c \<noteq> CHR ''%''" "c \<noteq> CHR ''+''"
    by (auto simp: unreserved_def is_upper_def is_lower_def is_digit_def)
  with True show ?thesis by (simp add: encode_char_def)
next
  case False
  have "byte c div 16 < 16" by (simp add: div_less_iff_less_mult)
  then have "form_decode (encode_char c @ s)
      = char_of (16 * (byte c div 16) + byte c mod 16) # form_decode s"
    using False by (simp add: encode_char_def hex_val_hex_digit)
  also have "16 * (byte c div 16) + byte c mod 16 = byte c" by simp
  finally show ?thesis by simp
qed

theorem form_decode_encode: "form_decode (encodeURIComponent s) = s"
  by (induction s) (auto simp: encodeURIComponent_def form_decode_encode_char)

text \<open>The \<open>key=value&...\<close> text the sources build, and what reading it back gives.\<close>

definition query_text :: "(string \<times> string) list \<Rightarrow> string" where
  "query_text ps = join ''&'' (map (\<lambda>(k, v). encodeURIComponent k @ ''='' @ encodeURIComponent v) ps)"

lemma query_pairs_text: "ps \<noteq> [] \<Longrightarrow> query_pairs (query_text ps) = ps"
proof -
  assume ne: "ps \<noteq> []"
  let ?e = "\<lambda>(k, v). encodeURIComponent k @ ''='' @ encodeURIComponent v"
  have "split (CHR ''&'') (query_text ps) = map ?e ps"
    unfolding query_text_def using ne by (intro split_join) (auto simp: encode_component_delims)
  moreover have "filter (\<lambda>p. p \<noteq> []) (map ?e ps) = map ?e ps"
    by (auto simp: filter_id_conv)
  moreover have "query_pair (?e p) = p" for p
    by (cases p) (simp add: query_pair_def cut_at_append encode_component_delims form_decode_encode)
  ultimately show ?thesis
    by (simp only: query_pairs_def map_map comp_def map_ident)
qed

section \<open>\<open>URLSearchParams\<close>\<close>

text \<open>\<open>toString\<close> of the \<open>URLSearchParams\<close> class: its own escape set, and a plus sign for a space.\<close>

definition form_safe :: "char \<Rightarrow> bool" where
  "form_safe c \<longleftrightarrow> is_upper c \<or> is_lower c \<or> is_digit c \<or> c \<in> set ''*-._''"

definition form_encode_char :: "char \<Rightarrow> string" where
  "form_encode_char c = (if c = CHR '' '' then ''+'' else if form_safe c then [c]
     else [CHR ''%'', hex_digit (byte c div 16), hex_digit (byte c mod 16)])"

definition form_encode :: "string \<Rightarrow> string" where
  "form_encode s = concat (map form_encode_char s)"

definition form_text :: "(string \<times> string) list \<Rightarrow> string" where
  "form_text ps = join ''&'' (map (\<lambda>(k, v). form_encode k @ ''='' @ form_encode v) ps)"

lemma form_safe_facts: "\<not> form_safe (CHR ''%'')" "\<not> form_safe (CHR ''+'')" "\<not> form_safe (CHR ''&'')"
  "\<not> form_safe (CHR ''='')" "\<not> form_safe (CHR ''?'')" "\<not> form_safe (CHR ''#'')"
  by (simp_all add: form_safe_def is_upper_def is_lower_def is_digit_def)

lemma form_decode_form_encode_char: "form_decode (form_encode_char c @ s) = c # form_decode s"
proof (cases "c = CHR '' '' \<or> form_safe c")
  case True
  then show ?thesis using form_safe_facts(1,2) by (auto simp: form_encode_char_def)
next
  case False
  have "byte c div 16 < 16" by (simp add: div_less_iff_less_mult)
  then have "form_decode (form_encode_char c @ s)
      = char_of (16 * (byte c div 16) + byte c mod 16) # form_decode s"
    using False by (simp add: form_encode_char_def hex_val_hex_digit)
  also have "16 * (byte c div 16) + byte c mod 16 = byte c" by simp
  finally show ?thesis by simp
qed

theorem form_decode_form_encode: "form_decode (form_encode s) = s"
  by (induction s) (auto simp: form_encode_def form_decode_form_encode_char)

lemma form_encode_chars:
  "c \<in> set (form_encode s) \<Longrightarrow> form_safe c \<or> c = CHR ''+'' \<or> c = CHR ''%''"
proof -
  assume "c \<in> set (form_encode s)"
  then obtain d where d: "c \<in> set (form_encode_char d)" by (auto simp: form_encode_def)
  have "byte d div 16 < 16" by (simp add: div_less_iff_less_mult)
  moreover have "n < 16 \<Longrightarrow> form_safe (hex_digit n)" for n
    by (simp add: form_safe_def is_upper_def is_digit_def byte_hex_digit)
  ultimately show ?thesis using d by (auto simp: form_encode_char_def split: if_splits)
qed

lemma form_encode_delims:
  "CHR ''&'' \<notin> set (form_encode s)" "CHR ''='' \<notin> set (form_encode s)"
  "CHR ''?'' \<notin> set (form_encode s)" "CHR ''#'' \<notin> set (form_encode s)"
  using form_encode_chars[of _ s] form_safe_facts by force+

lemma query_pairs_form_text: "query_pairs (form_text ps) = ps"
proof (cases "ps = []")
  case False
  let ?e = "\<lambda>(k, v). form_encode k @ ''='' @ form_encode v"
  have "split (CHR ''&'') (form_text ps) = map ?e ps"
    unfolding form_text_def using False by (intro split_join) (auto simp: form_encode_delims)
  moreover have "filter (\<lambda>p. p \<noteq> []) (map ?e ps) = map ?e ps"
    by (auto simp: filter_id_conv)
  moreover have "query_pair (?e p) = p" for p
    by (cases p) (simp add: query_pair_def cut_at_append form_encode_delims form_decode_form_encode)
  ultimately show ?thesis
    by (simp only: query_pairs_def map_map comp_def map_ident)
qed (simp add: form_text_def query_pairs_def)

lemma set_join: "set (join d xs) \<subseteq> set d \<union> (\<Union>x \<in> set xs. set x)"
  by (induction d xs rule: join.induct) auto

definition query_char :: "char \<Rightarrow> bool" where
  "query_char c \<longleftrightarrow> c \<noteq> CHR ''#'' \<and> byte c \<noteq> 9 \<and> byte c \<noteq> 10 \<and> byte c \<noteq> 13"

lemma form_text_chars: "c \<in> set (form_text ps) \<Longrightarrow> query_char c"
proof -
  assume "c \<in> set (form_text ps)"
  then have "c \<in> set ''&='' \<or> (\<exists>s. c \<in> set (form_encode s))"
    unfolding form_text_def by (auto dest!: subsetD[OF set_join])
  moreover have "form_safe c \<Longrightarrow> query_char c"
    using form_safe_facts by (auto simp: query_char_def form_safe_def is_upper_def is_lower_def is_digit_def)
  ultimately show ?thesis by (auto simp: query_char_def dest!: form_encode_chars)
qed

text \<open>Reading back the query of a URL whose path has no query or fragment of its own.\<close>

lemma url_query_append:
  assumes "list_all query_char path" "CHR ''?'' \<notin> set path" "list_all query_char q"
  shows "url_query (path @ CHR ''?'' # q) = q"
proof -
  have f: "filter (\<lambda>c. byte c \<noteq> 9 \<and> byte c \<noteq> 10 \<and> byte c \<noteq> 13) (path @ CHR ''?'' # q) = path @ CHR ''?'' # q"
    using assms(1,3) by (auto simp: filter_id_conv list_all_iff query_char_def)
  have "CHR ''#'' \<notin> set (path @ CHR ''?'' # q)"
    using assms(1,3) by (auto simp: list_all_iff query_char_def)
  then have c: "cut_at (CHR ''#'') (path @ CHR ''?'' # q) = None" by (simp add: cut_at_None_iff)
  show ?thesis unfolding url_query_def Let_def f c using cut_at_append[OF assms(2), of q] by simp
qed

end
