(* ===== verification/Api_Client.thy ===== *)
theory Api_Client
  imports Offline_Queue Js_Uri
begin

text \<open>
  \<open>mobileapp/src/services/api.ts\<close>: the session in the keychain, the authenticated fetch
  wrapper, recent recipients, username resolution, sending with the offline queue as
  fallback, and recovery of a wallet through Privy.

  The keychain (\<open>getS\<close>, \<open>setS\<close>, \<open>delS\<close>), \<open>AsyncStorage\<close>, \<open>fetch\<close> and the expiry handler are
  arguments.  The JSON text of the Privy user state, an object of another package, is given by
  \<open>stringify\<close> and \<open>parse\<close>.  A JSON answer is \<open>None\<close> when it is \<open>null\<close>; its fields, when they are
  present, have their declared types.
\<close>

section \<open>Session\<close>

definition SESSION_TOKEN_KEY :: string where "SESSION_TOKEN_KEY = ''privy_session_token''"
definition SESSION_USER_STATE_KEY :: string where "SESSION_USER_STATE_KEY = ''privy_user_state''"

lemma session_keys [simp]:
  "SESSION_TOKEN_KEY \<noteq> SESSION_USER_STATE_KEY" "SESSION_USER_STATE_KEY \<noteq> SESSION_TOKEN_KEY"
  by (simp_all add: SESSION_TOKEN_KEY_def SESSION_USER_STATE_KEY_def)

definition setSessionToken ::
  "(string \<Rightarrow> string \<Rightarrow> ('w, unit) io) \<Rightarrow> ('u \<Rightarrow> string) \<Rightarrow> string \<Rightarrow> 'u option \<Rightarrow> ('w, unit) io" where
  "setSessionToken setS stringify token userState =
     bnd (setS SESSION_TOKEN_KEY token) (\<lambda>_. case userState of None \<Rightarrow> ret ()
       | Some u \<Rightarrow> setS SESSION_USER_STATE_KEY (stringify u))"

definition getSessionToken ::
  "(string \<Rightarrow> 'w \<Rightarrow> string option res) \<Rightarrow> ('w, string option) io" where
  "getSessionToken getS = try_catch (reads (getS SESSION_TOKEN_KEY)) (\<lambda>_. ret None)"

definition getSessionUserState ::
  "(string \<Rightarrow> 'w \<Rightarrow> string option res) \<Rightarrow> (string \<Rightarrow> 'u res) \<Rightarrow> ('w, 'u option) io" where
  "getSessionUserState getS parse = try_catch
     (bnd (reads (getS SESSION_USER_STATE_KEY)) (\<lambda>raw.
        if truthy raw then bnd (reads (\<lambda>_. parse (the raw))) (\<lambda>u. ret (Some u)) else ret None))
     (\<lambda>_. ret None)"

definition clearSessionToken :: "(string \<Rightarrow> ('w, unit) io) \<Rightarrow> ('w, unit) io" where
  "clearSessionToken delS =
     bnd (try_catch (delS SESSION_TOKEN_KEY) (\<lambda>_. ret ()))
       (\<lambda>_. try_catch (delS SESSION_USER_STATE_KEY) (\<lambda>_. ret ()))"

text \<open>The module variable \<open>_onSessionExpired\<close>: the registered handler, if any.\<close>

type_synonym 'w expiry_handler = "('w \<Rightarrow> 'w) option"

definition registerSessionExpiredHandler :: "('w \<Rightarrow> 'w) \<Rightarrow> 'w expiry_handler \<Rightarrow> 'w expiry_handler" where
  "registerSessionExpiredHandler handler _ = Some handler"

section \<open>The fetch wrapper\<close>

definition api_headers :: "string option \<Rightarrow> (string \<rightharpoonup> string) \<Rightarrow> (string \<rightharpoonup> string)" where
  "api_headers token hs = json_header ++ hs ++ bearer token"

definition apiFetch ::
  "(string \<Rightarrow> 'w \<Rightarrow> string option res) \<Rightarrow> (string \<Rightarrow> ('w, unit) io) \<Rightarrow>
   ('b request \<Rightarrow> ('w, 'j response) io) \<Rightarrow> 'w expiry_handler \<Rightarrow> 'b request \<Rightarrow> ('w, 'j response) io" where
  "apiFetch getS delS fetch onExpired rq =
     bnd (getSessionToken getS) (\<lambda>token.
       bnd (fetch (rq\<lparr>headers := api_headers token (headers rq)\<rparr>)) (\<lambda>response.
         if status response = 401 then
           bnd (clearSessionToken delS) (\<lambda>_.
             bnd (modifies (case onExpired of None \<Rightarrow> (\<lambda>w. w) | Some h \<Rightarrow> h)) (\<lambda>_. ret response))
         else ret response))"

definition get_rq :: "string \<Rightarrow> 'b request" where
  "get_rq u = \<lparr>url = u, meth = ''GET'', headers = Map.empty, body = None\<rparr>"

definition send_rq :: "string \<Rightarrow> string \<Rightarrow> 'b \<Rightarrow> 'b request" where
  "send_rq u m b = \<lparr>url = u, meth = m, headers = Map.empty, body = Some b\<rparr>"

section \<open>Recent recipients\<close>

definition RECENT_RECIPIENTS_KEY :: string where
  "RECENT_RECIPIENTS_KEY = ''recent_recipient_usernames''"

definition MAX_RECENT_RECIPIENTS :: nat where "MAX_RECENT_RECIPIENTS = 20"

type_synonym recents = "string list jtext"

text \<open>\<open>raw ? JSON.parse(raw) : []\<close>; \<open>None\<close> is a value that is not an array.\<close>

definition parse_recents :: "recents option \<Rightarrow> string list option res" where
  "parse_recents raw = (case raw of None \<Rightarrow> Ret (Some []) | Some t \<Rightarrow>
     if t = JEmpty then Ret (Some []) else JSON_parse t)"

definition getRecentRecipients ::
  "(string \<Rightarrow> 'w \<Rightarrow> recents option res) \<Rightarrow> ('w, string list option) io" where
  "getRecentRecipients getA = try_catch
     (bnd (reads (getA RECENT_RECIPIENTS_KEY)) (\<lambda>raw. reads (\<lambda>_. parse_recents raw)))
     (\<lambda>_. ret (Some []))"

definition next_recents :: "string \<Rightarrow> string list \<Rightarrow> string list" where
  "next_recents username current =
     take MAX_RECENT_RECIPIENTS (username # filter (\<lambda>item. item \<noteq> username) current)"

definition saveRecentRecipient ::
  "(string \<Rightarrow> 'w \<Rightarrow> recents option res) \<Rightarrow> (string \<Rightarrow> recents \<Rightarrow> ('w, unit) io) \<Rightarrow> string \<Rightarrow>
   ('w, unit) io" where
  "saveRecentRecipient getA setA username =
     (if username = [] then ret ()
      else try_catch
        (bnd (reads (getA RECENT_RECIPIENTS_KEY)) (\<lambda>raw.
           bnd (reads (\<lambda>_. parse_recents raw)) (\<lambda>current. case current of
               None \<Rightarrow> throw (Error ''current.filter is not a function'')
             | Some l \<Rightarrow> setA RECENT_RECIPIENTS_KEY (JSON_stringify (next_recents username l)))))
        (\<lambda>_. ret ()))"

section \<open>Bodies and answers\<close>

datatype 'x api_body =
    AutoEarnBody bool
  | PrivyBody (privy_token: string) (privy_did_sent: string)
  | TxBody 'x

record api_json =
  aj_error :: "string option"
  aj_username :: "string option"
  aj_address :: "string option"
  aj_privy_did :: "string option"
  aj_display_name :: "string option"

section \<open>Yield\<close>

definition http_status_error :: "'j response \<Rightarrow> js_error" where
  "http_status_error r = Error (''HTTP '' @ show_int (status r))"

definition fetchYieldBalance ::
  "('b request \<Rightarrow> ('w, 'j response) io) \<Rightarrow> string \<Rightarrow> ('w, 'j) io" where
  "fetchYieldBalance api API_BASE =
     bnd (api (get_rq (API_BASE @ ''/api/yield/balance''))) (\<lambda>r.
       if ok r then reads (\<lambda>_. json r) else throw (http_status_error r))"

definition updateAutoEarn ::
  "('x api_body request \<Rightarrow> ('w, 'j response) io) \<Rightarrow> string \<Rightarrow> bool \<Rightarrow> ('w, unit) io" where
  "updateAutoEarn api API_BASE enabled = try_catch
     (bnd (api (send_rq (API_BASE @ ''/api/yield/auto-earn'') ''PATCH'' (AutoEarnBody enabled)))
        (\<lambda>_. ret ()))
     (\<lambda>_. ret ())"

section \<open>Username resolution\<close>

record ReceiverDetails =
  rd_username :: string
  rd_address :: string

text \<open>\<open>coded m c s\<close>: an error with message, \<open>code\<close> and optional \<open>statusCode\<close>.\<close>

definition coded :: "string \<Rightarrow> string \<Rightarrow> int option \<Rightarrow> js_error" where
  "coded m c s = Err m (Some c) s"

definition lookup_failure :: "api_json option response \<Rightarrow> js_error" where
  "lookup_failure r =
     (case json r of Ret None \<Rightarrow> Error ''Cannot read properties of null''
      | j \<Rightarrow>
        (let message = or_else (case j of Ret (Some d) \<Rightarrow> aj_error d | _ \<Rightarrow> None)
               (''HTTP '' @ show_int (status r) @ '': '' @ statusText r)
         in coded message
              (if status r = 404 then ''NOT_FOUND''
               else if status r = 400 then ''INVALID_USERNAME'' else ''NETWORK_ERROR'')
              (Some (status r))))"

definition details_of :: "api_json option \<Rightarrow> ReceiverDetails option" where
  "details_of data = (case data of None \<Rightarrow> None
     | Some d \<Rightarrow> if truthy (aj_username d) \<and> truthy (aj_address d)
         then Some \<lparr>rd_username = the (aj_username d), rd_address = the (aj_address d)\<rparr> else None)"

fun recode :: "js_error \<Rightarrow> js_error" where
  "recode (Err m (Some c) s) = Err m (Some c) s"
| "recode (Err m None s) = coded m ''NETWORK_ERROR'' None"
| "recode NonError = coded ''Unknown error occurred during username lookup'' ''NETWORK_ERROR'' None"

definition resolveUsername ::
  "('b request \<Rightarrow> ('w, api_json option response) io) \<Rightarrow> (string \<Rightarrow> ('w, unit) io) \<Rightarrow> string \<Rightarrow>
   string \<Rightarrow> ('w, ReceiverDetails) io" where
  "resolveUsername api save API_BASE username =
     (if username = [] then
        throw (coded ''Username is required and must be a string'' ''INVALID_USERNAME'' None)
      else let trimmedUsername = toLowerCase (trim username) in
        if trimmedUsername = [] then throw (coded ''Username cannot be empty'' ''INVALID_USERNAME'' None)
        else try_catch
          (bnd (api (get_rq (API_BASE @ ''/api/users/resolve/'' @ encodeURIComponent trimmedUsername)))
             (\<lambda>response.
               if \<not> ok response then throw (lookup_failure response)
               else bnd (reads (\<lambda>_. json response)) (\<lambda>data.
                 case details_of data of
                   None \<Rightarrow> throw (coded ''Invalid response format from server'' ''UNKNOWN_ERROR'' None)
                 | Some receiverDetails \<Rightarrow>
                     bnd (try_catch (save (rd_username receiverDetails)) (\<lambda>_. ret ()))
                       (\<lambda>_. ret receiverDetails))))
          (\<lambda>err. throw (recode err)))"

definition safeResolveUsername :: "(string \<Rightarrow> ('w, ReceiverDetails) io) \<Rightarrow> string \<Rightarrow> ('w, ReceiverDetails option) io" where
  "safeResolveUsername resolve username =
     try_catch (bnd (resolve username) (\<lambda>d. ret (Some d))) (\<lambda>_. ret None)"

text \<open>
  The lookups of a batch are started together; their results are collected in the order of
  the input, so the map is the one of running them in that order.
\<close>

fun batch_loop ::
  "(string \<Rightarrow> ('w, ReceiverDetails) io) \<Rightarrow> (string \<rightharpoonup> ReceiverDetails) \<Rightarrow> string list \<Rightarrow>
   ('w, string \<rightharpoonup> ReceiverDetails) io" where
  "batch_loop resolve results [] = ret results"
| "batch_loop resolve results (username # us) =
     bnd (safeResolveUsername resolve username) (\<lambda>result.
       batch_loop resolve
         (case result of None \<Rightarrow> results
          | Some d \<Rightarrow> results(toLowerCase (trim username) \<mapsto> d)) us)"

definition batchResolveUsernames ::
  "(string \<Rightarrow> ('w, ReceiverDetails) io) \<Rightarrow> string list \<Rightarrow> ('w, string \<rightharpoonup> ReceiverDetails) io" where
  "batchResolveUsernames resolve usernames =
     (if usernames = [] then ret Map.empty else batch_loop resolve Map.empty usernames)"

record ZapsUser =
  zu_username :: string
  zu_address :: string
  zu_avatar_url :: "string option"
  zu_isVerified :: bool

definition resolveUsernameAsZapsUser ::
  "(string \<Rightarrow> ('w, ReceiverDetails) io) \<Rightarrow> string \<Rightarrow> ('w, ZapsUser) io" where
  "resolveUsernameAsZapsUser resolve username = bnd (resolve username) (\<lambda>d.
     ret \<lparr>zu_username = rd_username d, zu_address = rd_address d, zu_avatar_url = None,
          zu_isVerified = False\<rparr>)"

section \<open>Sending with the offline queue as fallback\<close>

record 'x TransactionPayload =
  tp_endpoint :: string
  tp_method :: "string option"
  tp_body :: 'x

record 'j OfflineSendResult =
  sent :: bool
  sent_response :: "'j response option"
  queued :: bool

definition queue_payload ::
  "(string \<Rightarrow> 'w \<Rightarrow> string option res) \<Rightarrow> ('x EnqueueOptions \<Rightarrow> ('w, unit) io) \<Rightarrow>
   'x TransactionPayload \<Rightarrow> ('w, 'j OfflineSendResult) io" where
  "queue_payload getS enqueue payload =
     bnd (getSessionToken getS) (\<lambda>authToken.
       bnd (enqueue \<lparr>eo_endpoint = tp_endpoint payload,
              eo_method = Some (case tp_method payload of None \<Rightarrow> ''POST'' | Some m \<Rightarrow> m),
              eo_body = tp_body payload, eo_authToken = authToken\<rparr>)
         (\<lambda>_. ret \<lparr>sent = False, sent_response = None, queued = True\<rparr>))"

definition sendTransactionWithOfflineSupport ::
  "(string \<Rightarrow> 'w \<Rightarrow> string option res) \<Rightarrow> ('x request \<Rightarrow> ('w, 'j response) io) \<Rightarrow>
   ('x EnqueueOptions \<Rightarrow> ('w, unit) io) \<Rightarrow> ('w, bool option) io \<Rightarrow> 'x TransactionPayload \<Rightarrow>
   ('w, 'j OfflineSendResult) io" where
  "sendTransactionWithOfflineSupport getS api enqueue netInfo payload =
     bnd netInfo (\<lambda>state_isConnected.
       if state_isConnected \<noteq> Some True then queue_payload getS enqueue payload
       else try_catch
         (bnd (api (send_rq (tp_endpoint payload)
                 (case tp_method payload of None \<Rightarrow> ''POST'' | Some m \<Rightarrow> m) (tp_body payload)))
            (\<lambda>response. ret \<lparr>sent = True, sent_response = Some response, queued = False\<rparr>))
         (\<lambda>_. queue_payload getS enqueue payload))"

section \<open>Privy recovery\<close>

record PrivyRecoveryResult =
  pr_privy_did :: "string option"
  pr_username :: "string option"
  pr_address :: string
  pr_display_name :: "string option"

definition text_or_unknown :: "'j response \<Rightarrow> string" where
  "text_or_unknown r = (case text_of r of Ret t \<Rightarrow> t | Throw _ \<Rightarrow> ''Unknown error'')"

definition recoverWalletViaPrivy ::
  "('x api_body request \<Rightarrow> ('w, api_json option response) io) \<Rightarrow> string \<Rightarrow> string \<Rightarrow>
   ('w, PrivyRecoveryResult) io" where
  "recoverWalletViaPrivy api API_BASE privyToken =
     (if privyToken = [] then throw (Error ''Privy token is required for social recovery.'')
      else bnd (api (send_rq (API_BASE @ ''/api/auth/privy'') ''POST'' (PrivyBody privyToken []))) (\<lambda>res.
        if \<not> ok res then throw (Error (''Privy verification failed: '' @ text_or_unknown res))
        else bnd (reads (\<lambda>_. json res)) (\<lambda>data.
          case data of None \<Rightarrow> throw (Error ''Privy identity could not be resolved.'')
          | Some d \<Rightarrow>
            if \<not> truthy (aj_privy_did d) then throw (Error ''Privy identity could not be resolved.'')
            else bnd (api (get_rq (API_BASE @ ''/api/users/did/'' @ encodeURIComponent (the (aj_privy_did d)))))
              (\<lambda>didRes.
                if status didRes = 404 then throw (Error
                  ''No Zaps wallet is linked to this social identity. Please create an account first.'')
                else if \<not> ok didRes then throw (Error (''User lookup failed: '' @ text_or_unknown didRes))
                else bnd (reads (\<lambda>_. json didRes)) (\<lambda>user.
                  case user of None \<Rightarrow> throw (Error ''Linked account has no wallet address.'')
                  | Some u \<Rightarrow>
                    if \<not> truthy (aj_address u) then throw (Error ''Linked account has no wallet address.'')
                    else ret \<lparr>pr_privy_did = aj_privy_did u, pr_username = aj_username u,
                               pr_address = the (aj_address u), pr_display_name = aj_display_name u\<rparr>)))))"

section \<open>The session as the code sees it\<close>

definition session :: "(string \<Rightarrow> 'w \<Rightarrow> string option res) \<Rightarrow> 'w \<Rightarrow> string option" where
  "session getS w = (case getS SESSION_TOKEN_KEY w of Ret t \<Rightarrow> t | Throw _ \<Rightarrow> None)"

lemma getSessionToken_eq [simp]: "getSessionToken getS w = (Ret (session getS w), w)"
  by (simp add: getSessionToken_def session_def try_catch_def split: res.splits)

lemma swallow_eq: "try_catch m (\<lambda>_. ret ()) w = (Ret (), snd (m w))"
  by (cases "m w"; cases "fst (m w)") (auto simp: try_catch_def)

lemma clearSessionToken_eq:
  "clearSessionToken delS w = (Ret (), snd (delS SESSION_USER_STATE_KEY (snd (delS SESSION_TOKEN_KEY w))))"
  by (simp add: clearSessionToken_def bnd_def swallow_eq)

definition run_handler :: "'w expiry_handler \<Rightarrow> 'w \<Rightarrow> 'w" where
  "run_handler h = (case h of None \<Rightarrow> (\<lambda>w. w) | Some f \<Rightarrow> f)"

lemma apiFetch_Ret:
  assumes "fetch (rq\<lparr>headers := api_headers (session getS w) (headers rq)\<rparr>) w = (Ret r, w1)"
  shows "apiFetch getS delS fetch onExpired rq w =
    (Ret r, if status r = 401 then run_handler onExpired (snd (clearSessionToken delS w1)) else w1)"
  using assms by (auto simp: apiFetch_def bnd_def clearSessionToken_eq run_handler_def)

lemma apiFetch_Throw:
  assumes "fetch (rq\<lparr>headers := api_headers (session getS w) (headers rq)\<rparr>) w = (Throw e, w1)"
  shows "apiFetch getS delS fetch onExpired rq w = (Throw e, w1)"
  using assms by (simp add: apiFetch_def bnd_def)

lemma api_headers_auth:
  "api_headers t hs ''Authorization'' = (if truthy t then Some (''Bearer '' @ the t) else hs ''Authorization'')"
  by (cases t) (auto simp: api_headers_def bearer_def json_header_def map_add_def split: option.splits)

text \<open>
  What the client relies on: the keychain is a key-value store independent of \<open>AsyncStorage\<close>,
  requests change neither, and the expiry handler (a navigation) does not either.
\<close>

locale app_env = q: offline_env getA setA removeA fetch rt + two_stores getA setA removeA getS setS delS
  for getA :: "string \<Rightarrow> 'w \<Rightarrow> 'b qtext option res"
    and setA :: "string \<Rightarrow> 'b qtext \<Rightarrow> ('w, unit) io"
    and removeA :: "string \<Rightarrow> ('w, unit) io"
    and fetch :: "'b request \<Rightarrow> ('w, 'j response) io"
    and rt :: "'w runtime"
    and getS :: "string \<Rightarrow> 'w \<Rightarrow> string option res"
    and setS :: "string \<Rightarrow> string \<Rightarrow> ('w, unit) io"
    and delS :: "string \<Rightarrow> ('w, unit) io" +
  fixes onExpired :: "'w expiry_handler"
  assumes fetch_keeps_S: "getS k (snd (fetch rq w)) = getS k w"
    and handler_frame: "getS k (run_handler onExpired w) = getS k w" "getA k (run_handler onExpired w) = getA k w"
begin

lemma clear_removes:
  assumes "is_Ret (fst (delS SESSION_TOKEN_KEY w))"
  shows "session getS (snd (clearSessionToken delS w)) = None"
proof -
  obtain u w1 where d: "delS SESSION_TOKEN_KEY w = (Ret u, w1)"
    using assms by (cases "delS SESSION_TOKEN_KEY w"; cases "fst (delS SESSION_TOKEN_KEY w)") auto
  from b.get_remove[OF d] b.remove_frame[of SESSION_TOKEN_KEY SESSION_USER_STATE_KEY w1] d
  show ?thesis by (simp add: clearSessionToken_eq session_def)
qed

lemma clear_frame: "k \<noteq> SESSION_TOKEN_KEY \<Longrightarrow> k \<noteq> SESSION_USER_STATE_KEY \<Longrightarrow>
    getS k (snd (clearSessionToken delS w)) = getS k w"
  by (simp add: clearSessionToken_eq b.remove_frame)

lemma clear_keeps_queue: "getA k (snd (clearSessionToken delS w)) = getA k w"
  by (simp add: clearSessionToken_eq b_keeps_a)

lemma session_frame: "(\<And>k. getS k w' = getS k w) \<Longrightarrow> session getS w' = session getS w"
  by (simp add: session_def)

lemma stored_frame: "(\<And>k. getA k w' = getA k w) \<Longrightarrow> stored getA w' = stored getA w"
  by (simp add: stored_def)

lemma apiFetch_session:
  assumes f: "fetch (rq\<lparr>headers := api_headers (session getS w) (headers rq)\<rparr>) w = (Ret r, w1)"
    and d: "is_Ret (fst (delS SESSION_TOKEN_KEY w1))"
  shows "session getS (snd (apiFetch getS delS fetch onExpired rq w))
    = (if status r = 401 then None else session getS w)"
proof -
  have "getS k w1 = getS k w" for k using fetch_keeps_S[of k] f by (metis snd_conv)
  then have "session getS w1 = session getS w" by (rule session_frame)
  moreover have "session getS (run_handler onExpired v) = session getS v" for v
    by (rule session_frame) (rule handler_frame)
  ultimately show ?thesis
    using apiFetch_Ret[where fetch = fetch and rq = rq and getS = getS and w = w, OF f] clear_removes[OF d] by simp
qed

lemma apiFetch_keeps_queue: "stored getA (snd (apiFetch getS delS fetch onExpired rq w)) = stored getA w"
proof -
  let ?rq = "rq\<lparr>headers := api_headers (session getS w) (headers rq)\<rparr>"
  obtain x w1 where f: "fetch ?rq w = (x, w1)" by fastforce
  have fr: "stored getA w1 = stored getA w"
    by (rule stored_frame) (metis f q.fetch_frame snd_conv)
  have h: "stored getA (run_handler onExpired v) = stored getA v" for v
    by (rule stored_frame) (rule handler_frame)
  have c: "stored getA (snd (clearSessionToken delS v)) = stored getA v" for v
    by (rule stored_frame) (rule clear_keeps_queue)
  show ?thesis
    by (cases x) (use f fr in \<open>simp_all add: apiFetch_Ret apiFetch_Throw h c\<close>)
qed

end

interpretation dev_app: app_env dev_getItem dev_setItem dev_removeItem dev_fetch "dev_rt t"
    dev_getSec dev_setSec dev_removeSec None for t
  by unfold_locales (auto simp: run_handler_def dev_defs split: list.splits)

section \<open>Properties of the session\<close>

text \<open>
  An answered request leaves the session exactly as the status says: a 401 answer clears the
  stored token and runs the expiry handler, any other answer keeps the token; the answer is
  returned either way, and the request carried the stored token as its bearer credential,
  overriding a caller's own \<open>Authorization\<close> header.
\<close>

theorem api_fetch_session:
  assumes "app_env getA setA removeA fetch rt getS setS delS onExpired"
    and "fetch (rq\<lparr>headers := api_headers (session getS w) (headers rq)\<rparr>) w = (Ret r, w1)"
    and "is_Ret (fst (delS SESSION_TOKEN_KEY w1))"
  shows "apiFetch getS delS fetch onExpired rq w =
      (Ret r, if status r = 401 then run_handler onExpired (snd (clearSessionToken delS w1)) else w1)
    \<and> session getS (snd (apiFetch getS delS fetch onExpired rq w))
        = (if status r = 401 then None else session getS w)
    \<and> api_headers (session getS w) (headers rq) ''Authorization''
        = (if truthy (session getS w) then Some (''Bearer '' @ the (session getS w))
           else headers rq ''Authorization'')"
  using apiFetch_Ret[where fetch = fetch and rq = rq and getS = getS and w = w, OF assms(2)] app_env.apiFetch_session[OF assms] api_headers_auth
  by blast

definition answer :: "int \<Rightarrow> 'j \<Rightarrow> 'j response" where
  "answer s j = \<lparr>status = s, statusText = [], json = Ret j, text_of = Ret []\<rparr>"

lemma answer_simps [simp]: "status (answer s j) = s" "json (answer s j) = Ret j" "statusText (answer s j) = []"
  by (simp_all add: answer_def)

definition session_device :: "'j response res list \<Rightarrow> ('v, 'b, 'j) device" where
  "session_device net = blank_device\<lparr>dev_sec := [SESSION_TOKEN_KEY \<mapsto> ''tok''], dev_net := net\<rparr>"

lemma session_device_simps [simp]:
  "session dev_getSec (session_device net) = Some ''tok''"
  "\<not> dev_kv_broken (session_device net)" "\<not> dev_sec_broken (session_device net)"
  by (simp_all add: session_def dev_getSec_def session_device_def blank_device_def)

theorem api_fetch_session_witness:
  "session dev_getSec (snd (apiFetch dev_getSec dev_removeSec dev_fetch None (get_rq ''/x'')
     (session_device [Ret (answer 401 ())] :: (unit qtext, unit, unit) device))) = None"
proof -
  let ?w = "session_device [Ret (answer 401 ())] :: (unit qtext, unit, unit) device"
  let ?rq = "(get_rq ''/x'' :: unit request)\<lparr>headers := api_headers (session dev_getSec ?w) (headers (get_rq ''/x'' :: unit request))\<rparr>"
  have f: "dev_fetch ?rq ?w = (Ret (answer 401 ()), ?w\<lparr>dev_net := [], dev_log := [?rq]\<rparr>)"
    by (simp add: dev_fetch_def session_device_def blank_device_def)
  have d: "is_Ret (fst (dev_removeSec SESSION_TOKEN_KEY (?w\<lparr>dev_net := [], dev_log := [?rq]\<rparr>)))"
    by (simp add: dev_removeSec_def)
  show ?thesis
    using api_fetch_session[OF dev_app.app_env_axioms[of 0],
      where rq = "get_rq ''/x''" and w = ?w, OF f d, THEN conjunct2, THEN conjunct1]
    by (simp only: answer_simps if_True conj_imp_eq_imp_imp simp_thms)
qed



section \<open>Properties of sending\<close>

abbreviation queued_result :: "'j OfflineSendResult" where
  "queued_result \<equiv> \<lparr>sent = False, sent_response = None, queued = True\<rparr>"

text \<open>
  The item that stands for a transaction in the queue, and \<open>queue_grows\<close>: the queue is \<open>q\<close> with the item at its end,
  unless the store rejected that very write.
\<close>

definition queued_item :: "'w runtime \<Rightarrow> string option \<Rightarrow> 'x TransactionPayload \<Rightarrow> 'w \<Rightarrow> 'x QueuedTransaction" where
  "queued_item rt token payload v =
     \<lparr>qt_id = generateId rt v, qt_endpoint = tp_endpoint payload,
      qt_method = (case tp_method payload of None \<Rightarrow> ''POST'' | Some m \<Rightarrow> m), qt_body = tp_body payload,
      qt_authToken = token, qt_enqueuedAt = isoTime rt v, qt_retryCount = 0, qt_nextRetryAt = now rt v\<rparr>"

definition queue_grows ::
  "(string \<Rightarrow> 'w \<Rightarrow> 'x qtext option res) \<Rightarrow> (string \<Rightarrow> 'x qtext \<Rightarrow> ('w, unit) io) \<Rightarrow> 'x QueuedTransaction \<Rightarrow>
   'x QueuedTransaction list \<Rightarrow> 'w \<Rightarrow> 'w \<Rightarrow> bool" where
  "queue_grows getA setA item q v w' \<longleftrightarrow>
     stored getA w' = (if is_Ret (fst (setA OFFLINE_QUEUE_KEY (JText (q @ [item])) v)) then q @ [item] else q)"

lemma enqueue_Ret: "fst (enqueueTransaction getA setA rt opts w) = Ret ()"
  by (simp add: enqueueTransaction_def bnd_def)

lemma queue_payload_grows:
  fixes getA :: "string \<Rightarrow> 'w \<Rightarrow> 'x qtext option res"
  assumes "offline_env getA setA removeA fetch rt"
    and "stored getA v = q" "session getS v = token"
  shows "fst (queue_payload getS (enqueueTransaction getA setA rt) payload v)
      = (Ret queued_result :: 'j OfflineSendResult res)
    \<and> queue_grows getA setA (queued_item rt token payload v) q v
        (snd (queue_payload getS (enqueueTransaction getA setA rt) payload v :: 'j OfflineSendResult res \<times> 'w))"
proof -
  let ?o = "\<lparr>eo_endpoint = tp_endpoint payload,
      eo_method = Some (case tp_method payload of None \<Rightarrow> ''POST'' | Some m \<Rightarrow> m),
      eo_body = tp_body payload, eo_authToken = session getS v\<rparr>"
  have e: "queue_payload getS (enqueueTransaction getA setA rt) payload v
      = (Ret queued_result :: 'j OfflineSendResult res, snd (enqueueTransaction getA setA rt ?o v))"
    using enqueue_Ret[of getA setA rt ?o v]
    by (cases "enqueueTransaction getA setA rt ?o v") (simp add: queue_payload_def bnd_def)
  have "new_item rt ?o v = queued_item rt token payload v" using assms(3) by (simp add: new_item_def queued_item_def)
  then have "queue_grows getA setA (queued_item rt token payload v) q v (snd (enqueueTransaction getA setA rt ?o v))"
    unfolding queue_grows_def using offline_env.stored_enqueue[OF assms(1), of ?o v] assms(2) by simp
  with e show ?thesis by simp
qed

text \<open>
  C23: A transaction handed to \<open>sendTransactionWithOfflineSupport\<close> is either answered by the server or appended to the
  persisted queue, never both and never neither.  Online, it is requested with its method (\<open>POST\<close> by default), its body
  and the session token; when that request is answered, with whatever status, the answer is handed back and the queue
  is unchanged.  Offline, or when the request is rejected, the queue grows by exactly this transaction with its endpoint, method
  and body and the session token, unless the store itself rejects that write, which the queue ignores.
\<close>

theorem send_or_queue:
  fixes fetch :: "'x request \<Rightarrow> ('w, 'j response) io"
  assumes env: "app_env getA setA removeA fetch rt getS setS delS onExpired"
    and net: "netInfo w = (Ret c, w0)" "\<And>k. getA k w0 = getA k w" "\<And>k. getS k w0 = getS k w"
  shows "let out = sendTransactionWithOfflineSupport getS (apiFetch getS delS fetch onExpired)
           (enqueueTransaction getA setA rt) netInfo payload w;
         rq = send_rq (tp_endpoint payload) (case tp_method payload of None \<Rightarrow> ''POST'' | Some m \<Rightarrow> m) (tp_body payload);
         queued_at = (\<lambda>v. fst out = Ret queued_result
           \<and> queue_grows getA setA (queued_item rt (session getS w) payload v) (stored getA w) v (snd out))
    in if c \<noteq> Some True then queued_at w0
       else (case fetch (rq\<lparr>headers := api_headers (session getS w) (headers rq)\<rparr>) w0 of
           (Ret r, _) \<Rightarrow> fst out = Ret \<lparr>sent = True, sent_response = Some r, queued = False\<rparr> \<and> stored getA (snd out) = stored getA w
         | (Throw _, v) \<Rightarrow> queued_at v)"
proof -
  have q: "offline_env getA setA removeA fetch rt" using env by (simp add: app_env_def)
  have st0: "stored getA w0 = stored getA w" and se0: "session getS w0 = session getS w"
    using net by (simp_all add: stored_def session_def)
  let ?api = "apiFetch getS delS fetch onExpired"
  let ?rq = "send_rq (tp_endpoint payload)
      (case tp_method payload of None \<Rightarrow> ''POST'' | Some m \<Rightarrow> m) (tp_body payload)"
  let ?rq' = "?rq\<lparr>headers := api_headers (session getS w) (headers ?rq)\<rparr>"
  note grows = queue_payload_grows[where 'j = 'j, OF q, where q = "stored getA w" and token = "session getS w" and payload = payload]
  show ?thesis
  proof (cases "c = Some True")
    case False
    then show ?thesis
      using net(1) grows[OF st0 se0] by (simp add: sendTransactionWithOfflineSupport_def bnd_def Let_def)
  next
    case True
    obtain x w1 where f: "fetch ?rq' w0 = (x, w1)" by fastforce
    show ?thesis
    proof (cases x)
      case (Ret r)
      obtain v where a: "?api ?rq w0 = (Ret r, v)"
        using apiFetch_Ret[where fetch = fetch and rq = ?rq and getS = getS and w = w0] f Ret se0 by (metis (no_types) surj_pair)
      then have "stored getA v = stored getA w" using app_env.apiFetch_keeps_queue[OF env, of ?rq w0] st0 by simp
      then show ?thesis
        using net(1) True a f Ret by (simp add: sendTransactionWithOfflineSupport_def bnd_def try_catch_def Let_def)
    next
      case (Throw e)
      have a: "?api ?rq w0 = (Throw e, w1)"
        using apiFetch_Throw[where fetch = fetch and rq = ?rq and getS = getS and w = w0] f Throw se0 by simp
      have st1: "stored getA w1 = stored getA w" using app_env.apiFetch_keeps_queue[OF env, of ?rq w0] a st0 by simp
      have "getS k w1 = getS k w0" for k
        using app_env.fetch_keeps_S[OF env, of k ?rq' w0] f by simp
      then have "session getS w1 = session getS w" using se0 by (simp add: session_def)
      from grows[OF st1 this] show ?thesis
        using net(1) True a f Throw by (simp add: sendTransactionWithOfflineSupport_def bnd_def try_catch_def Let_def)
    qed
  qed
qed

definition sample_payload :: "unit TransactionPayload" where
  "sample_payload = \<lparr>tp_endpoint = ''https://api.zaps.app/api/v1/transfer'', tp_method = None, tp_body = ()\<rparr>"

theorem send_or_queue_witness:
  "let out = sendTransactionWithOfflineSupport dev_getSec (apiFetch dev_getSec dev_removeSec dev_fetch None)
         (enqueueTransaction dev_getItem dev_setItem (dev_rt 3)) (ret (Some False)) sample_payload
         (session_device [] :: (unit qtext, unit, unit) device)
   in fst out = Ret queued_result \<and> stored dev_getItem (snd out) = [queued_item (dev_rt 3) (Some ''tok'') sample_payload
         (session_device [] :: (unit qtext, unit, unit) device)]"
proof -
  have "stored dev_getItem (session_device [] :: (unit qtext, unit, unit) device) = []"
    by (simp add: stored_def dev_getItem_def session_device_def blank_device_def)
  moreover have "is_Ret (fst (dev_setItem k v (session_device [] :: (unit qtext, unit, unit) device)))" for k v
    by (simp add: dev_setItem_def)
  ultimately show ?thesis
    using send_or_queue[OF dev_app.app_env_axioms[of 3],
      where netInfo = "ret (Some False)" and w = "session_device [] :: (unit qtext, unit, unit) device" and c = "Some False"
        and payload = sample_payload]
    by (simp add: Let_def queue_grows_def)
qed

section \<open>Properties of username resolution\<close>

definition resolve_url :: "string \<Rightarrow> string \<Rightarrow> string" where
  "resolve_url base u = base @ ''/api/users/resolve/'' @ encodeURIComponent (toLowerCase (trim u))"

lemma err_code_recode: "\<exists>c. err_code (recode e) = Some c"
  by (cases e rule: recode.cases) (auto simp: coded_def)

text \<open>
  Every rejection of \<open>resolveUsername\<close> carries an error code, whatever the network, the server
  and the recent-recipients cache do.
\<close>

theorem resolve_error_has_code:
  "fst (resolveUsername api save base u w) = Throw e \<Longrightarrow> \<exists>c. err_code e = Some c"
  using err_code_recode
  by (auto simp: resolveUsername_def Let_def coded_def try_catch_def split: if_splits prod.splits res.splits)

theorem resolve_error_has_code_witness:
  "\<exists>c. err_code (coded ''Network request failed'' ''NETWORK_ERROR'' None) = Some c
     \<and> fst (resolveUsername (\<lambda>_. throw (Error ''Network request failed'')) (\<lambda>_. ret ()) [] ''ada'' ())
       = Throw (coded ''Network request failed'' ''NETWORK_ERROR'' None)"
proof -
  have r: "fst (resolveUsername (\<lambda>_. throw (Error ''Network request failed'')) (\<lambda>_. ret ()) [] ''ada'' ())
       = Throw (coded ''Network request failed'' ''NETWORK_ERROR'' None)"
    by (simp add: resolveUsername_def trim_def is_ws_def toLowerCase_def try_catch_def bnd_def Error_def)
  from resolve_error_has_code[OF r] r show ?thesis by blast
qed

text \<open>
  What \<open>resolveUsername\<close> does with an answer to its request for the trimmed, lower-case name:
  a 404 is \<open>NOT_FOUND\<close>, a 400 is \<open>INVALID_USERNAME\<close>, any other failure \<open>NETWORK_ERROR\<close>, each with
  the status; a success without a name or an address is \<open>UNKNOWN_ERROR\<close>; otherwise the details
  are returned after the name has been offered to the recent recipients, whatever that does.
\<close>

theorem resolve_outcomes:
  assumes "toLowerCase (trim u) \<noteq> []" and "api (get_rq (resolve_url base u)) w = (Ret r, w1)"
  shows "(\<not> ok r \<and> json r \<noteq> Ret None \<longrightarrow>
            (\<exists>m. resolveUsername api save base u w = (Throw (Err m
               (Some (if status r = 404 then ''NOT_FOUND'' else if status r = 400 then ''INVALID_USERNAME''
                      else ''NETWORK_ERROR'')) (Some (status r))), w1)))
    \<and> (ok r \<longrightarrow> (\<forall>d. json r = Ret d \<longrightarrow> resolveUsername api save base u w =
          (case details_of d of
             None \<Rightarrow> (Throw (coded ''Invalid response format from server'' ''UNKNOWN_ERROR'' None), w1)
           | Some rd \<Rightarrow> (Ret rd, snd (save (rd_username rd) w1)))))"
proof -
  have u: "u \<noteq> []" using assms(1) by (auto simp: toLowerCase_def)
  show ?thesis
    using assms u
    by (auto simp: resolveUsername_def Let_def resolve_url_def try_catch_def bnd_def lookup_failure_def coded_def
        swallow_eq[unfolded try_catch_def] split: option.splits res.splits)
qed

theorem resolve_outcomes_witness:
  "\<exists>m w'. resolveUsername dev_fetch (\<lambda>_. ret ()) ''https://api.zaps.app'' '' Ada''
     (session_device [Ret (answer 404 (Some \<lparr>aj_error = None, aj_username = None, aj_address = None,
        aj_privy_did = None, aj_display_name = None\<rparr>))] :: (unit, unit, api_json option) device)
     = (Throw (Err m (Some ''NOT_FOUND'') (Some 404)), w')"
proof -
  let ?j = "\<lparr>aj_error = None, aj_username = None, aj_address = None, aj_privy_did = None, aj_display_name = None\<rparr>"
  let ?w = "session_device [Ret (answer 404 (Some ?j))] :: (unit, unit, api_json option) device"
  let ?rq = "get_rq (resolve_url ''https://api.zaps.app'' '' Ada'') :: unit request"
  have t: "toLowerCase (trim '' Ada'') \<noteq> []" by (simp add: trim_def is_ws_def toLowerCase_def)
  have f: "dev_fetch ?rq ?w = (Ret (answer 404 (Some ?j)), ?w\<lparr>dev_net := [], dev_log := [?rq]\<rparr>)"
    by (simp add: dev_fetch_def session_device_def blank_device_def)
  from resolve_outcomes[where api = dev_fetch and base = "''https://api.zaps.app''" and save = "\<lambda>_. ret ()", OF t f]
  show ?thesis by (auto simp: ok_def)
qed

lemma batch_loop_entries:
  assumes "batch_loop resolve m us w = (x, w')"
  shows "\<exists>m'. x = Ret m' \<and> (\<forall>k d. m' k = Some d \<longrightarrow> m k = Some d
     \<or> (\<exists>u \<in> set us. k = toLowerCase (trim u) \<and> (\<exists>v. fst (resolve u v) = Ret d)))"
  using assms
proof (induction us arbitrary: m w)
  case (Cons u us)
  obtain y w1 where s: "safeResolveUsername resolve u w = (Ret y, w1)"
    and y: "\<forall>d. y = Some d \<longrightarrow> fst (resolve u w) = Ret d"
    by (cases "resolve u w"; cases "fst (resolve u w)")
       (auto simp: safeResolveUsername_def try_catch_def bnd_def)
  let ?m = "case y of None \<Rightarrow> m | Some d \<Rightarrow> m(toLowerCase (trim u) \<mapsto> d)"
  from Cons.prems s have "batch_loop resolve ?m us w1 = (x, w')" by (simp add: bnd_def)
  from Cons.IH[OF this] obtain m' where x: "x = Ret m'"
    and m': "\<And>k d. m' k = Some d \<Longrightarrow> ?m k = Some d
      \<or> (\<exists>u \<in> set us. k = toLowerCase (trim u) \<and> (\<exists>v. fst (resolve u v) = Ret d))" by blast
  have "?m k = Some d \<Longrightarrow> m k = Some d \<or> k = toLowerCase (trim u) \<and> fst (resolve u w) = Ret d" for k d
    using y by (auto split: option.splits if_splits)
  with m' have "m' k = Some d \<Longrightarrow> m k = Some d
      \<or> (\<exists>u \<in> set (u # us). k = toLowerCase (trim u) \<and> (\<exists>v. fst (resolve u v) = Ret d))" for k d
    by (metis list.set_intros)
  with x show ?case by blast
qed auto

text \<open>
  A batch never rejects, and every entry of its result is the details of a successful lookup of
  one of the given names, filed under that name trimmed and in lower case.
\<close>

theorem batch_resolves_inputs:
  "\<exists>m. fst (batchResolveUsernames resolve us w) = Ret m
     \<and> (\<forall>k \<in> dom m. \<exists>u \<in> set us. k = toLowerCase (trim u) \<and> (\<exists>v. fst (resolve u v) = Ret (the (m k))))"
proof (cases "us = []")
  case False
  obtain x w' where b: "batch_loop resolve Map.empty us w = (x, w')" by fastforce
  from batch_loop_entries[OF b] show ?thesis
    using False b by (fastforce simp: batchResolveUsernames_def)
qed (simp add: batchResolveUsernames_def)

section \<open>Properties of the recent recipients\<close>

definition recent_list :: "(string \<Rightarrow> 'w \<Rightarrow> recents option res) \<Rightarrow> 'w \<Rightarrow> string list" where
  "recent_list getA w = (case getA RECENT_RECIPIENTS_KEY w of Ret raw \<Rightarrow>
     (case parse_recents raw of Ret (Some l) \<Rightarrow> l | _ \<Rightarrow> []) | _ \<Rightarrow> [])"

definition wf_recents :: "string list \<Rightarrow> bool" where
  "wf_recents l \<longleftrightarrow> distinct l \<and> length l \<le> MAX_RECENT_RECIPIENTS \<and> [] \<notin> set l"

lemma next_recents_wf: "u \<noteq> [] \<Longrightarrow> wf_recents l \<Longrightarrow> wf_recents (next_recents u l)"
  by (auto simp: wf_recents_def next_recents_def MAX_RECENT_RECIPIENTS_def dest: in_set_takeD)

lemma next_recents_shape: "hd (next_recents u l) = u \<and> subseq (tl (next_recents u l)) l"
proof -
  have "subseq (take n (filter P l)) l" for n P
    by (rule subseq_order.trans[of _ "filter P l"]) (auto simp: take_is_prefix prefix_imp_subseq)
  then show ?thesis by (simp add: next_recents_def MAX_RECENT_RECIPIENTS_def)
qed

text \<open>
  The recent recipients are a most-recently-used list: saving a name never rejects, keeps the list
  free of duplicates and at most twenty long, and, when the cache could be read and written,
  puts the name first and keeps the others in their order.
\<close>

theorem recents_mru:
  assumes "kv_store getA setA removeA" and "wf_recents (recent_list getA w)"
  shows "\<exists>w'. saveRecentRecipient getA setA u w = (Ret (), w')
    \<and> wf_recents (recent_list getA w')
    \<and> (recent_list getA w' = recent_list getA w
       \<or> hd (recent_list getA w') = u \<and> subseq (tl (recent_list getA w')) (recent_list getA w))"
proof (cases "u \<noteq> [] \<and> (\<exists>raw l. getA RECENT_RECIPIENTS_KEY w = Ret raw \<and> parse_recents raw = Ret (Some l))")
  case True
  then obtain raw l where r: "getA RECENT_RECIPIENTS_KEY w = Ret raw" "parse_recents raw = Ret (Some l)"
    and u: "u \<noteq> []" by blast
  have l: "recent_list getA w = l" using r by (simp add: recent_list_def)
  let ?w = "snd (setA RECENT_RECIPIENTS_KEY (JText (next_recents u l)) w)"
  have s: "saveRecentRecipient getA setA u w = (Ret (), ?w)"
    using u r swallow_eq[of "setA RECENT_RECIPIENTS_KEY (JText (next_recents u l))" w]
    by (simp add: saveRecentRecipient_def try_catch_def bnd_def JSON_stringify_def)
  have g: "getA RECENT_RECIPIENTS_KEY ?w = Ret (Some (JText (next_recents u l)))
      \<or> getA RECENT_RECIPIENTS_KEY ?w = getA RECENT_RECIPIENTS_KEY w"
    using kv_store.set_swallowed[OF assms(1), of RECENT_RECIPIENTS_KEY RECENT_RECIPIENTS_KEY
        "JText (next_recents u l)" w] swallow_eq[of "setA RECENT_RECIPIENTS_KEY (JText (next_recents u l))" w]
    by (auto split: if_splits)
  have "recent_list getA ?w = next_recents u l \<or> recent_list getA ?w = l"
    using g l by (auto simp: recent_list_def parse_recents_def)
  with s l u next_recents_wf[OF u, of l] next_recents_shape[of u l] assms(2) show ?thesis by fastforce
next
  case False
  then have "saveRecentRecipient getA setA u w = (Ret (), w)"
    by (auto simp: saveRecentRecipient_def try_catch_def bnd_def split: res.splits option.splits)
  with assms(2) show ?thesis by simp
qed

theorem recents_mru_witness:
  "\<exists>w'. saveRecentRecipient mem_getItem mem_setItem ''bob'' [RECENT_RECIPIENTS_KEY \<mapsto> JText [''ada'', ''bob'']]
      = (Ret (), w') \<and> wf_recents (recent_list mem_getItem w')"
proof -
  have wf: "wf_recents (recent_list mem_getItem [RECENT_RECIPIENTS_KEY \<mapsto> JText [''ada'', ''bob'']])"
    by (simp add: wf_recents_def recent_list_def mem_getItem_def parse_recents_def MAX_RECENT_RECIPIENTS_def)
  have kv: "kv_store mem_getItem mem_setItem (mem_removeItem :: string \<Rightarrow> (string \<rightharpoonup> recents, unit) io)"
    by unfold_locales (auto simp: mem_defs)
  from recents_mru[OF kv wf, of "''bob''"] show ?thesis
    by (elim exE conjE) (intro exI conjI)
qed

section \<open>Properties of wallet recovery\<close>

text \<open>
  \<open>recoverWalletViaPrivy\<close> hands out a wallet only after both steps succeeded: the token was
  accepted with an identity, and the account linked to exactly that identity has a non-empty
  address, which is the one returned.
\<close>

theorem recovery_needs_linked_wallet:
  assumes "recoverWalletViaPrivy api base tok w = (Ret p, w')"
  shows "tok \<noteq> [] \<and> pr_address p \<noteq> [] \<and>
    (\<exists>r1 w1 d did r2 u. api (send_rq (base @ ''/api/auth/privy'') ''POST'' (PrivyBody tok [])) w = (Ret r1, w1)
       \<and> ok r1 \<and> json r1 = Ret (Some d) \<and> aj_privy_did d = Some did \<and> did \<noteq> []
       \<and> api (get_rq (base @ ''/api/users/did/'' @ encodeURIComponent did)) w1 = (Ret r2, w')
       \<and> ok r2 \<and> json r2 = Ret (Some u) \<and> aj_address u = Some (pr_address p))"
proof -
  have tr: "truthy x \<Longrightarrow> \<exists>s. x = Some s \<and> s \<noteq> []" for x by (cases x) auto
  show ?thesis
    using assms
    by (fastforce simp: recoverWalletViaPrivy_def bnd_def dest!: tr
        split: if_splits prod.splits res.splits option.splits)
qed

definition linked :: "api_json option response" where
  "linked = answer 200 (Some \<lparr>aj_error = None, aj_username = Some ''ada'', aj_address = Some ''GABC'',
     aj_privy_did = Some ''did:1'', aj_display_name = None\<rparr>)"

theorem recovery_needs_linked_wallet_witness:
  "\<exists>p w'. recoverWalletViaPrivy dev_fetch [] ''jwt''
     (session_device [Ret linked, Ret linked] :: (unit, unit api_body, api_json option) device) = (Ret p, w')
     \<and> pr_address p \<noteq> []"
proof -
  let ?w = "session_device [Ret linked, Ret linked] :: (unit, unit api_body, api_json option) device"
  have "\<exists>p w'. recoverWalletViaPrivy dev_fetch [] ''jwt'' ?w = (Ret p, w')"
    by (simp add: recoverWalletViaPrivy_def bnd_def dev_fetch_def session_device_def blank_device_def
      linked_def ok_def)
  then obtain p w' where r: "recoverWalletViaPrivy dev_fetch [] ''jwt'' ?w = (Ret p, w')" by blast
  from recovery_needs_linked_wallet[OF r] r show ?thesis by blast
qed

end
