(* ===== verification/Transactions.thy ===== *)
theory Transactions
  imports Js_Number Js_Uri Platform "HOL-Library.Sublist" "HOL-Library.Multiset"
begin

text \<open>
  \<open>mobileapp/src/services/transactionService.ts\<close>, the types of \<open>mobileapp/src/types/transaction.ts\<close>,
  \<open>getYieldTransactions\<close> of \<open>api.ts\<close> and the hook \<open>mobileapp/src/hooks/useTransactions.ts\<close>: the
  transaction list with its two caches, the client-side filters, sorting, cursor pagination and
  the incremental list of the screen.

  \<open>date_of\<close> is \<open>new Date(s).getTime()\<close>, whose result on strings outside the ISO format depends on
  the engine, \<open>toISO\<close> is \<open>toISOString\<close>, \<open>now\<close> is \<open>Date.now()\<close> and \<open>sleep\<close> the simulated latency.
\<close>

section \<open>Types\<close>

datatype TransactionType = Sent | Received | Swap | Payment | Yield | Mass_payout
datatype TransactionStatus = Completed | Pending | Failed
datatype YieldType = Interest | Reward | Apy

record Transaction =
  tx_id :: string
  tx_type :: TransactionType
  tx_status :: TransactionStatus
  tx_amount :: string
  tx_asset :: string
  tx_fiatValue :: string
  tx_fiatCurrency :: string
  tx_address :: string
  tx_addressLabel :: "string option"
  tx_timestamp :: string
  tx_stellarTxHash :: "string option"
  tx_memo :: "string option"
  tx_fee :: "string option"
  tx_feeAsset :: "string option"
  tx_network :: "string option"
  tx_yieldType :: "YieldType option"
  tx_stellarTxXdr :: "string option"
  tx_senderName :: "string option"
  tx_senderAnchor :: "string option"

record TransactionPage =
  pg_items :: "Transaction list"
  pg_nextCursor :: "string option"
  pg_total :: nat

text \<open>\<open>None\<close> in \<open>tf_type\<close> and \<open>tf_status\<close> is \<open>"all"\<close>.\<close>

record TransactionFilters =
  tf_type :: "TransactionType option"
  tf_status :: "TransactionStatus option"
  tf_dateFrom :: "string option"
  tf_dateTo :: "string option"
  tf_search :: string
  tf_amountMin :: "string option"
  tf_amountMax :: "string option"
  tf_yieldOnly :: bool
  tf_asset :: "string option"

definition CACHE_KEY :: string where "CACHE_KEY = ''tx_cache_v1''"
definition CACHE_TTL_MS :: int where "CACHE_TTL_MS = 5 * 60 * 1000"
definition PAGE_SIZE :: nat where "PAGE_SIZE = 20"

section \<open>Built-in data\<close>

text \<open>The mock transactions, with timestamps relative to the time \<open>t\<close> the module was loaded at.\<close>

definition mock_payments :: "(int \<Rightarrow> string) \<Rightarrow> int \<Rightarrow> Transaction list" where
  "mock_payments toISO t =
   [\<lparr>tx_id = ''tx_001'', tx_type = Sent, tx_status = Completed, tx_amount = ''50.00'',
      tx_asset = ''USDC'', tx_fiatValue = ''50.00'', tx_fiatCurrency = ''USD'',
      tx_address = ''GBBD47IF6LWK7P7MDEVSCWR7DPUWV3NY3DTQEVFL4NAT4AQH3ZLLFLA5'', tx_addressLabel = Some ''alice.zaps'',
      tx_timestamp = toISO (t - 1 * 60 * 60 * 1000),
      tx_stellarTxHash = Some ''a1b2c3d4e5f6a1b2c3d4e5f6a1b2c3d4e5f6a1b2c3d4e5f6a1b2c3d4e5f6a1b2'',
      tx_memo = Some ''Lunch split'', tx_fee = Some ''0.00001'', tx_feeAsset = Some ''XLM'', tx_network = Some ''Stellar'',
      tx_yieldType = None, tx_stellarTxXdr = None,
      tx_senderName = None, tx_senderAnchor = None\<rparr>,
    \<lparr>tx_id = ''tx_002'', tx_type = Received, tx_status = Completed, tx_amount = ''120.00'',
      tx_asset = ''USDC'', tx_fiatValue = ''120.00'', tx_fiatCurrency = ''USD'',
      tx_address = ''GCEZWKCA5VLDNRLN3RPRJMRZOX3Z6G5CHCGZXG5CPCJDGX4LNZM4IXX'', tx_addressLabel = Some ''bob.zaps'',
      tx_timestamp = toISO (t - 3 * 60 * 60 * 1000),
      tx_stellarTxHash = Some ''b2c3d4e5f6a1b2c3d4e5f6a1b2c3d4e5f6a1b2c3d4e5f6a1b2c3d4e5f6a1b2c3'',
      tx_memo = None, tx_fee = Some ''0.00001'', tx_feeAsset = Some ''XLM'', tx_network = Some ''Stellar'',
      tx_yieldType = None, tx_stellarTxXdr = None,
      tx_senderName = None, tx_senderAnchor = None\<rparr>,
    \<lparr>tx_id = ''tx_003'', tx_type = Sent, tx_status = Pending, tx_amount = ''25.50'',
      tx_asset = ''XLM'', tx_fiatValue = ''3.18'', tx_fiatCurrency = ''USD'',
      tx_address = ''GDQOE23CFSUMSVQK4Y5JHPPYK73VYCNHZHA7ENKCV37P6SUEO6XQBKPP'', tx_addressLabel = None,
      tx_timestamp = toISO (t - 6 * 60 * 60 * 1000),
      tx_stellarTxHash = Some ''c3d4e5f6a1b2c3d4e5f6a1b2c3d4e5f6a1b2c3d4e5f6a1b2c3d4e5f6a1b2c3d4'',
      tx_memo = None, tx_fee = Some ''0.00001'', tx_feeAsset = Some ''XLM'', tx_network = Some ''Stellar'',
      tx_yieldType = None, tx_stellarTxXdr = Some ''AAAAAgAAAABhGug7fJjQPWZ3cN+e8rPcmBif9aM...demo-envelope...'',
      tx_senderName = None, tx_senderAnchor = None\<rparr>,
    \<lparr>tx_id = ''tx_004'', tx_type = Received, tx_status = Completed, tx_amount = ''200.00'',
      tx_asset = ''USDT'', tx_fiatValue = ''200.00'', tx_fiatCurrency = ''USD'',
      tx_address = ''GBRPYHIL2CI3FNQ4BXLFMNDLFJUNPU2HY3ZMFSHONUCEOASW7QC7OX2H'', tx_addressLabel = Some ''carol.zaps'',
      tx_timestamp = toISO (t - 24 * 60 * 60 * 1000),
      tx_stellarTxHash = Some ''d4e5f6a1b2c3d4e5f6a1b2c3d4e5f6a1b2c3d4e5f6a1b2c3d4e5f6a1b2c3d4e5'',
      tx_memo = Some ''Invoice #1042'', tx_fee = Some ''0.00001'', tx_feeAsset = Some ''XLM'', tx_network = Some ''Stellar'',
      tx_yieldType = None, tx_stellarTxXdr = None,
      tx_senderName = None, tx_senderAnchor = None\<rparr>,
    \<lparr>tx_id = ''tx_005'', tx_type = Sent, tx_status = Failed, tx_amount = ''10.00'',
      tx_asset = ''USDC'', tx_fiatValue = ''10.00'', tx_fiatCurrency = ''USD'',
      tx_address = ''GCFONE23CFSUMSVQK4Y5JHPPYK73VYCNHZHA7ENKCV37P6SUEO6XQBKPP'', tx_addressLabel = None,
      tx_timestamp = toISO (t - 2 * 24 * 60 * 60 * 1000),
      tx_stellarTxHash = Some ''e5f6a1b2c3d4e5f6a1b2c3d4e5f6a1b2c3d4e5f6a1b2c3d4e5f6a1b2c3d4e5f6'',
      tx_memo = None, tx_fee = Some ''0.00001'', tx_feeAsset = Some ''XLM'', tx_network = Some ''Stellar'',
      tx_yieldType = None, tx_stellarTxXdr = None,
      tx_senderName = None, tx_senderAnchor = None\<rparr>,
    \<lparr>tx_id = ''tx_006'', tx_type = Received, tx_status = Completed, tx_amount = ''75.00'',
      tx_asset = ''USDC'', tx_fiatValue = ''75.00'', tx_fiatCurrency = ''USD'',
      tx_address = ''GBBD47IF6LWK7P7MDEVSCWR7DPUWV3NY3DTQEVFL4NAT4AQH3ZLLFLA5'', tx_addressLabel = Some ''alice.zaps'',
      tx_timestamp = toISO (t - 3 * 24 * 60 * 60 * 1000),
      tx_stellarTxHash = Some ''f6a1b2c3d4e5f6a1b2c3d4e5f6a1b2c3d4e5f6a1b2c3d4e5f6a1b2c3d4e5f6a1'',
      tx_memo = Some ''Rent share'', tx_fee = Some ''0.00001'', tx_feeAsset = Some ''XLM'', tx_network = Some ''Stellar'',
      tx_yieldType = None, tx_stellarTxXdr = None,
      tx_senderName = None, tx_senderAnchor = None\<rparr>,
    \<lparr>tx_id = ''tx_007'', tx_type = Sent, tx_status = Completed, tx_amount = ''500.00'',
      tx_asset = ''USDC'', tx_fiatValue = ''500.00'', tx_fiatCurrency = ''USD'',
      tx_address = ''GCEZWKCA5VLDNRLN3RPRJMRZOX3Z6G5CHCGZXG5CPCJDGX4LNZM4IXX'', tx_addressLabel = Some ''bob.zaps'',
      tx_timestamp = toISO (t - 5 * 24 * 60 * 60 * 1000),
      tx_stellarTxHash = Some ''a2b3c4d5e6f7a2b3c4d5e6f7a2b3c4d5e6f7a2b3c4d5e6f7a2b3c4d5e6f7a2b3'',
      tx_memo = Some ''Project payment'', tx_fee = Some ''0.00001'', tx_feeAsset = Some ''XLM'', tx_network = Some ''Stellar'',
      tx_yieldType = None, tx_stellarTxXdr = None,
      tx_senderName = None, tx_senderAnchor = None\<rparr>]"

definition mock_yield_and_payouts :: "(int \<Rightarrow> string) \<Rightarrow> int \<Rightarrow> Transaction list" where
  "mock_yield_and_payouts toISO t =
   [\<lparr>tx_id = ''tx_008'', tx_type = Received, tx_status = Pending, tx_amount = ''30.00'',
      tx_asset = ''XLM'', tx_fiatValue = ''3.75'', tx_fiatCurrency = ''USD'',
      tx_address = ''GDQOE23CFSUMSVQK4Y5JHPPYK73VYCNHZHA7ENKCV37P6SUEO6XQBKPP'', tx_addressLabel = None,
      tx_timestamp = toISO (t - 7 * 24 * 60 * 60 * 1000),
      tx_stellarTxHash = Some ''b3c4d5e6f7a2b3c4d5e6f7a2b3c4d5e6f7a2b3c4d5e6f7a2b3c4d5e6f7a2b3c4'',
      tx_memo = None, tx_fee = Some ''0.00001'', tx_feeAsset = Some ''XLM'', tx_network = Some ''Stellar'',
      tx_yieldType = None, tx_stellarTxXdr = Some ''AAAAAgAAAABhGug7fJjQPWZ3cN+e8rPcmBif9aM...demo-envelope...'',
      tx_senderName = None, tx_senderAnchor = None\<rparr>,
    \<lparr>tx_id = ''tx_009'', tx_type = Yield, tx_status = Completed, tx_amount = ''2.45'',
      tx_asset = ''USDC'', tx_fiatValue = ''2.45'', tx_fiatCurrency = ''USD'',
      tx_address = ''yield.zaps'', tx_addressLabel = Some ''Daily yield'',
      tx_timestamp = toISO (t - 12 * 60 * 60 * 1000),
      tx_stellarTxHash = None,
      tx_memo = Some ''Daily yield interest'', tx_fee = None, tx_feeAsset = None, tx_network = Some ''Stellar'',
      tx_yieldType = Some Interest, tx_stellarTxXdr = None,
      tx_senderName = None, tx_senderAnchor = None\<rparr>,
    \<lparr>tx_id = ''tx_010'', tx_type = Yield, tx_status = Completed, tx_amount = ''15.20'',
      tx_asset = ''USDC'', tx_fiatValue = ''15.20'', tx_fiatCurrency = ''USD'',
      tx_address = ''yield.zaps'', tx_addressLabel = Some ''Yield reward'',
      tx_timestamp = toISO (t - 4 * 24 * 60 * 60 * 1000),
      tx_stellarTxHash = None,
      tx_memo = Some ''Weekly yield reward'', tx_fee = None, tx_feeAsset = None, tx_network = Some ''Stellar'',
      tx_yieldType = Some Reward, tx_stellarTxXdr = None,
      tx_senderName = None, tx_senderAnchor = None\<rparr>,
    \<lparr>tx_id = ''tx_011'', tx_type = Yield, tx_status = Completed, tx_amount = ''8.75'',
      tx_asset = ''USDC'', tx_fiatValue = ''8.75'', tx_fiatCurrency = ''USD'',
      tx_address = ''yield.zaps'', tx_addressLabel = Some ''APY payout'',
      tx_timestamp = toISO (t - 10 * 24 * 60 * 60 * 1000),
      tx_stellarTxHash = None,
      tx_memo = Some ''APY accrual'', tx_fee = None, tx_feeAsset = None, tx_network = Some ''Stellar'',
      tx_yieldType = Some Apy, tx_stellarTxXdr = None,
      tx_senderName = None, tx_senderAnchor = None\<rparr>,
    \<lparr>tx_id = ''tx_012'', tx_type = Mass_payout, tx_status = Completed, tx_amount = ''250.00'',
      tx_asset = ''USDC'', tx_fiatValue = ''250.00'', tx_fiatCurrency = ''USD'',
      tx_address = ''GCMASS47IF6LWK7P7MDEVSCWR7DPUWV3NY3DTQEVFL4NAT4AQH3ZLLFLA5'', tx_addressLabel = Some ''SDP Disbursement'',
      tx_timestamp = toISO (t - 2 * 60 * 60 * 1000),
      tx_stellarTxHash = Some ''m1n2o3p4q5r6m1n2o3p4q5r6m1n2o3p4q5r6m1n2o3p4q5r6m1n2o3p4q5r6m1n2'',
      tx_memo = Some ''Monthly aid disbursement'', tx_fee = Some ''0.00001'', tx_feeAsset = Some ''XLM'', tx_network = Some ''Stellar'',
      tx_yieldType = None, tx_stellarTxXdr = None,
      tx_senderName = Some ''Acme Relief Fund'', tx_senderAnchor = Some ''AnchorUSD''\<rparr>,
    \<lparr>tx_id = ''tx_013'', tx_type = Mass_payout, tx_status = Completed, tx_amount = ''100.00'',
      tx_asset = ''USDC'', tx_fiatValue = ''100.00'', tx_fiatCurrency = ''USD'',
      tx_address = ''GCMASS57IF6LWK7P7MDEVSCWR7DPUWV3NY3DTQEVFL4NAT4AQH3ZLLFLA6'', tx_addressLabel = Some ''SDP Disbursement'',
      tx_timestamp = toISO (t - 8 * 24 * 60 * 60 * 1000),
      tx_stellarTxHash = Some ''n2o3p4q5r6m1n2o3p4q5r6m1n2o3p4q5r6m1n2o3p4q5r6m1n2o3p4q5r6m1n2o3'',
      tx_memo = Some ''Quarterly payout batch'', tx_fee = Some ''0.00001'', tx_feeAsset = Some ''XLM'', tx_network = Some ''Stellar'',
      tx_yieldType = None, tx_stellarTxXdr = None,
      tx_senderName = Some ''Global Aid Org'', tx_senderAnchor = Some ''StellarAnchor''\<rparr>,
    \<lparr>tx_id = ''tx_014'', tx_type = Mass_payout, tx_status = Pending, tx_amount = ''75.00'',
      tx_asset = ''USDC'', tx_fiatValue = ''75.00'', tx_fiatCurrency = ''USD'',
      tx_address = ''GCMASS67IF6LWK7P7MDEVSCWR7DPUWV3NY3DTQEVFL4NAT4AQH3ZLLFLA7'', tx_addressLabel = Some ''SDP Disbursement'',
      tx_timestamp = toISO (t - 30 * 60 * 1000),
      tx_stellarTxHash = Some ''o3p4q5r6m1n2o3p4q5r6m1n2o3p4q5r6m1n2o3p4q5r6m1n2o3p4q5r6m1n2o3p4'',
      tx_memo = Some ''Emergency relief batch'', tx_fee = Some ''0.00001'', tx_feeAsset = Some ''XLM'', tx_network = Some ''Stellar'',
      tx_yieldType = None, tx_stellarTxXdr = Some ''AAAAAgAAAABhGug7fJjQPWZ3cN+e8rPcmBif9aM...demo-envelope...'',
      tx_senderName = Some ''Community Wallet Project'', tx_senderAnchor = Some ''MoneyGram''\<rparr>]"

definition MOCK_TRANSACTIONS :: "(int \<Rightarrow> string) \<Rightarrow> int \<Rightarrow> Transaction list" where
  "MOCK_TRANSACTIONS toISO t = mock_payments toISO t @ mock_yield_and_payouts toISO t"

section \<open>The stored cache\<close>

record CacheEntry =
  ce_data :: "Transaction list"
  ce_timestamp :: int

definition readCache ::
  "(string \<Rightarrow> 'w \<Rightarrow> CacheEntry jtext option res) \<Rightarrow> ('w \<Rightarrow> int) \<Rightarrow> ('w, Transaction list option) io" where
  "readCache getItem now = try_catch
     (bnd (reads (getItem CACHE_KEY)) (\<lambda>raw.
        case raw of None \<Rightarrow> ret None
        | Some t \<Rightarrow> if t = JEmpty then ret None
          else bnd (reads (\<lambda>_. JSON_parse t)) (\<lambda>entry. case entry of
              None \<Rightarrow> ret None
            | Some e \<Rightarrow> (\<lambda>w. (Ret (if CACHE_TTL_MS < now w - ce_timestamp e then None else Some (ce_data e)), w)))))
     (\<lambda>_. ret None)"

definition writeCache ::
  "(string \<Rightarrow> CacheEntry jtext \<Rightarrow> ('w, unit) io) \<Rightarrow> ('w \<Rightarrow> int) \<Rightarrow> Transaction list \<Rightarrow> ('w, unit) io" where
  "writeCache setItem now data = try_catch
     (bnd (asks now) (\<lambda>t. setItem CACHE_KEY (JSON_stringify \<lparr>ce_data = data, ce_timestamp = t\<rparr>)))
     (\<lambda>_. ret ())"

section \<open>Request parameters\<close>

fun type_str :: "TransactionType \<Rightarrow> string" where
  "type_str Sent = ''sent''" | "type_str Received = ''received''" | "type_str Swap = ''swap''"
| "type_str Payment = ''payment''" | "type_str Yield = ''yield''" | "type_str Mass_payout = ''mass_payout''"

fun status_str :: "TransactionStatus \<Rightarrow> string" where
  "status_str Completed = ''completed''" | "status_str Pending = ''pending''" | "status_str Failed = ''failed''"

definition param :: "string \<Rightarrow> string option \<Rightarrow> (string \<times> string) list" where
  "param k v = (if truthy v then [(k, the v)] else [])"

definition tx_params :: "TransactionFilters \<Rightarrow> string option \<Rightarrow> (string \<times> string) list" where
  "tx_params f cursor =
     (let effectiveType = (if tf_yieldOnly f \<and> tf_type f = None then Some Yield else tf_type f) in
      param ''cursor'' cursor
      @ param ''type'' (map_option type_str effectiveType)
      @ param ''status'' (map_option status_str (tf_status f))
      @ param ''asset'' (tf_asset f)
      @ param ''date_from'' (tf_dateFrom f)
      @ param ''date_to'' (tf_dateTo f)
      @ param ''amount_min'' (tf_amountMin f)
      @ param ''amount_max'' (tf_amountMax f)
      @ param ''search'' (Some (tf_search f)))"

section \<open>Filtering, sorting and paging\<close>

definition merge_cached :: "Transaction list \<Rightarrow> Transaction list option \<Rightarrow> Transaction list" where
  "merge_cached mock cached = (case cached of None \<Rightarrow> mock
     | Some data \<Rightarrow> filter (\<lambda>t. tx_id t \<notin> tx_id ` set data) mock @ data)"

definition opt_includes :: "string option \<Rightarrow> string \<Rightarrow> bool" where
  "opt_includes s q = (case s of None \<Rightarrow> False | Some x \<Rightarrow> includes_str (toLowerCase x) q)"

definition matches_search :: "string \<Rightarrow> Transaction \<Rightarrow> bool" where
  "matches_search s tx = (let q = toLowerCase s in
     includes_str (toLowerCase (tx_address tx)) q \<or> opt_includes (tx_addressLabel tx) q
     \<or> opt_includes (tx_memo tx) q \<or> opt_includes (tx_stellarTxHash tx) q
     \<or> includes_str (toLowerCase (tx_asset tx)) q)"

definition keeps :: "(string \<Rightarrow> js_num) \<Rightarrow> TransactionFilters \<Rightarrow> Transaction \<Rightarrow> bool" where
  "keeps date_of f tx =
     (if tf_yieldOnly f \<and> tx_type tx \<noteq> Yield then False
      else if tf_type f \<noteq> None \<and> Some (tx_type tx) \<noteq> tf_type f then False
      else if tf_status f \<noteq> None \<and> Some (tx_status tx) \<noteq> tf_status f then False
      else if truthy (tf_asset f) \<and> toUpperCase (tx_asset tx) \<noteq> toUpperCase (the (tf_asset f)) then False
      else if tf_search f \<noteq> [] \<and> \<not> matches_search (tf_search f) tx then False
      else if truthy (tf_dateFrom f) \<and> num_less (date_of (tx_timestamp tx)) (date_of (the (tf_dateFrom f))) then False
      else if truthy (tf_dateTo f) \<and> num_less (date_of (the (tf_dateTo f))) (date_of (tx_timestamp tx)) then False
      else if truthy (tf_amountMin f) \<and> num_less (parseFloat (tx_amount tx)) (parseFloat (the (tf_amountMin f))) then False
      else if truthy (tf_amountMax f) \<and> num_less (parseFloat (the (tf_amountMax f))) (parseFloat (tx_amount tx)) then False
      else True)"

text \<open>
  \<open>Array.sort\<close>, which is stable: \<open>insert_sorted\<close> puts an element after everything that does not
  have to come after it.  A comparison with an invalid date is \<open>NaN\<close>, which counts as equal.
\<close>

fun insert_sorted :: "(Transaction \<Rightarrow> js_num) \<Rightarrow> Transaction \<Rightarrow> Transaction list \<Rightarrow> Transaction list" where
  "insert_sorted time x [] = [x]"
| "insert_sorted time x (y # ys) =
     (if num_less (time y) (time x) then x # y # ys else y # insert_sorted time x ys)"

definition newest_first :: "(string \<Rightarrow> js_num) \<Rightarrow> Transaction list \<Rightarrow> Transaction list" where
  "newest_first date_of xs = fold (insert_sorted (\<lambda>t. date_of (tx_timestamp t))) xs []"

fun findIndex :: "('a \<Rightarrow> bool) \<Rightarrow> 'a list \<Rightarrow> int" where
  "findIndex P [] = - 1"
| "findIndex P (x # xs) = (if P x then 0 else let i = findIndex P xs in if i = - 1 then - 1 else i + 1)"

definition paginate :: "Transaction list \<Rightarrow> string option \<Rightarrow> Transaction list \<times> string option" where
  "paginate filtered cursor =
     (let startIndex = (if truthy cursor then nat (findIndex (\<lambda>t. tx_id t = the cursor) filtered + 1) else 0);
          page = take PAGE_SIZE (drop startIndex filtered)
      in (page, if startIndex + PAGE_SIZE < length filtered then
                  (if page = [] then None else Some (tx_id (last page))) else None))"

section \<open>Fetching\<close>

text \<open>The in-memory cache beside the rest of the world; the key text stands for the pair it encodes.\<close>

record 'w tx_state =
  memCache :: "TransactionFilters \<times> string option \<rightharpoonup> TransactionPage \<times> int"
  tx_world :: 'w

definition on_world :: "('w, 'a) io \<Rightarrow> ('w tx_state, 'a) io" where
  "on_world m s = (case m (tx_world s) of (r, w) \<Rightarrow> (r, s\<lparr>tx_world := w\<rparr>))"

definition page_of :: "(string \<Rightarrow> js_num) \<Rightarrow> TransactionFilters \<Rightarrow> string option \<Rightarrow> Transaction list \<Rightarrow> TransactionPage" where
  "page_of date_of f cursor all =
     (let filtered = newest_first date_of (filter (keeps date_of f) all)
      in \<lparr>pg_items = fst (paginate filtered cursor), pg_nextCursor = snd (paginate filtered cursor),
          pg_total = length filtered\<rparr>)"

text \<open>The part of \<open>fetchTransactions\<close> after the lookup in \<open>memCache\<close>.\<close>

definition fetch_fresh ::
  "(string \<Rightarrow> 'w \<Rightarrow> CacheEntry jtext option res) \<Rightarrow> (string \<Rightarrow> CacheEntry jtext \<Rightarrow> ('w, unit) io) \<Rightarrow>
   ('w \<Rightarrow> int) \<Rightarrow> ('w, unit) io \<Rightarrow> (string \<Rightarrow> js_num) \<Rightarrow> Transaction list \<Rightarrow>
   TransactionFilters \<Rightarrow> string option \<Rightarrow> ('w tx_state, TransactionPage) io" where
  "fetch_fresh getItem setItem now sleep date_of mock f cursor =
     bnd (on_world sleep) (\<lambda>_. bnd (on_world (readCache getItem now)) (\<lambda>cached.
       bnd (on_world (writeCache setItem now (merge_cached mock cached))) (\<lambda>_ s.
         let result = page_of date_of f cursor (merge_cached mock cached) in
         (Ret result, s\<lparr>memCache := (memCache s)((f, cursor) \<mapsto> (result, now (tx_world s) + 30000))\<rparr>))))"

definition fetchTransactions ::
  "(string \<Rightarrow> 'w \<Rightarrow> CacheEntry jtext option res) \<Rightarrow> (string \<Rightarrow> CacheEntry jtext \<Rightarrow> ('w, unit) io) \<Rightarrow>
   ('w \<Rightarrow> int) \<Rightarrow> ('w, unit) io \<Rightarrow> (string \<Rightarrow> js_num) \<Rightarrow> Transaction list \<Rightarrow>
   TransactionFilters \<Rightarrow> string option \<Rightarrow> ('w tx_state, TransactionPage) io" where
  "fetchTransactions getItem setItem now sleep date_of mock f cursor s =
     (case memCache s (f, cursor) of
        Some (data, expiresAt) \<Rightarrow>
          if now (tx_world s) < expiresAt then (Ret data, s)
          else fetch_fresh getItem setItem now sleep date_of mock f cursor s
      | None \<Rightarrow> fetch_fresh getItem setItem now sleep date_of mock f cursor s)"

definition fetchTransactionById ::
  "(string \<Rightarrow> 'w \<Rightarrow> CacheEntry jtext option res) \<Rightarrow> ('w \<Rightarrow> int) \<Rightarrow> Transaction list \<Rightarrow> string \<Rightarrow>
   ('w, Transaction option) io" where
  "fetchTransactionById getItem now mock i = bnd (readCache getItem now) (\<lambda>cached.
     case cached of
       Some data \<Rightarrow> (case List.find (\<lambda>t. tx_id t = i) data of Some t \<Rightarrow> ret (Some t)
         | None \<Rightarrow> ret (List.find (\<lambda>t. tx_id t = i) mock))
     | None \<Rightarrow> ret (List.find (\<lambda>t. tx_id t = i) mock))"

definition invalidateTransactionCache :: "(string \<Rightarrow> ('w, unit) io) \<Rightarrow> ('w tx_state, unit) io" where
  "invalidateTransactionCache removeItem s = on_world (removeItem CACHE_KEY) (s\<lparr>memCache := Map.empty\<rparr>)"

text \<open>\<open>getYieldTransactions\<close> of \<open>api.ts\<close>, on \<open>fetchTransactions\<close>.\<close>

record YieldTransactionQuery =
  yq_asset :: "string option"
  yq_dateFrom :: "string option"
  yq_dateTo :: "string option"

definition yield_filters :: "YieldTransactionQuery \<Rightarrow> TransactionFilters" where
  "yield_filters q = \<lparr>tf_type = Some Yield, tf_status = None, tf_dateFrom = yq_dateFrom q, tf_dateTo = yq_dateTo q,
     tf_search = [], tf_amountMin = None, tf_amountMax = None, tf_yieldOnly = True, tf_asset = yq_asset q\<rparr>"

definition getYieldTransactions ::
  "(TransactionFilters \<Rightarrow> string option \<Rightarrow> ('s, TransactionPage) io) \<Rightarrow> YieldTransactionQuery \<Rightarrow>
   ('s, Transaction list) io" where
  "getYieldTransactions fetch query = bnd (fetch (yield_filters query) None) (\<lambda>page. ret (pg_items page))"

section \<open>The hook\<close>

definition DEFAULT_FILTERS :: TransactionFilters where
  "DEFAULT_FILTERS = \<lparr>tf_type = None, tf_status = None, tf_dateFrom = None, tf_dateTo = None, tf_search = [],
     tf_amountMin = None, tf_amountMax = None, tf_yieldOnly = False, tf_asset = None\<rparr>"

record tx_hook =
  th_items :: "Transaction list"
  th_loading :: bool
  th_refreshing :: bool
  th_loadingMore :: bool
  th_error :: "string option"
  th_filters :: TransactionFilters
  th_total :: nat
  th_cursor :: "string option"
  th_hasMore :: bool
  th_active :: TransactionFilters

definition th_init :: tx_hook where
  "th_init = \<lparr>th_items = [], th_loading = False, th_refreshing = False, th_loadingMore = False, th_error = None,
     th_filters = DEFAULT_FILTERS, th_total = 0, th_cursor = None, th_hasMore = True, th_active = DEFAULT_FILTERS\<rparr>"

text \<open>What \<open>load\<close> does with the outcome of its request.\<close>

definition load_done :: "bool \<Rightarrow> TransactionPage res \<Rightarrow> tx_hook \<Rightarrow> tx_hook" where
  "load_done isAppend outcome h = (case outcome of
       Throw e \<Rightarrow> h\<lparr>th_error := Some (message_or ''Failed to load transactions'' e)\<rparr>
     | Ret page \<Rightarrow> h\<lparr>th_cursor := pg_nextCursor page, th_hasMore := (pg_nextCursor page \<noteq> None),
         th_total := pg_total page,
         th_items := (if \<not> isAppend then pg_items page
           else th_items h @ filter (\<lambda>t. tx_id t \<notin> tx_id ` set (th_items h)) (pg_items page)),
         th_error := None\<rparr>)"

text \<open>The parts of \<open>reload\<close>, \<open>refresh\<close> and \<open>loadMore\<close> before and after their \<open>await\<close>.\<close>

definition reload_begin :: "TransactionFilters option \<Rightarrow> tx_hook \<Rightarrow> tx_hook" where
  "reload_begin newFilters h = (let f = (case newFilters of None \<Rightarrow> th_active h | Some f \<Rightarrow> f) in
     h\<lparr>th_active := f, th_cursor := None, th_hasMore := True, th_loading := True\<rparr>)"

definition reload_end :: "tx_hook \<Rightarrow> tx_hook" where
  "reload_end h = h\<lparr>th_loading := False\<rparr>"

definition refresh_begin :: "tx_hook \<Rightarrow> tx_hook" where
  "refresh_begin h = h\<lparr>th_refreshing := True, th_cursor := None, th_hasMore := True\<rparr>"

definition refresh_end :: "tx_hook \<Rightarrow> tx_hook" where
  "refresh_end h = h\<lparr>th_refreshing := False\<rparr>"

definition more_allowed :: "tx_hook \<Rightarrow> bool" where
  "more_allowed h \<longleftrightarrow> \<not> (th_loadingMore h \<or> \<not> th_hasMore h \<or> th_cursor h = None)"

definition more_begin :: "tx_hook \<Rightarrow> tx_hook" where
  "more_begin h = h\<lparr>th_loadingMore := True\<rparr>"

definition more_end :: "tx_hook \<Rightarrow> tx_hook" where
  "more_end h = h\<lparr>th_loadingMore := False\<rparr>"

definition apply_begin :: "TransactionFilters \<Rightarrow> tx_hook \<Rightarrow> tx_hook" where
  "apply_begin f h = reload_begin (Some f) (h\<lparr>th_filters := f\<rparr>)"

text \<open>The requests under way: which call made them, with which filters and cursor.\<close>

datatype tx_request = Reload TransactionFilters | Refresh TransactionFilters | More TransactionFilters string

fun answered :: "tx_request \<Rightarrow> TransactionPage res \<Rightarrow> tx_hook \<Rightarrow> tx_hook" where
  "answered (Reload _) r h = reload_end (load_done False r h)"
| "answered (Refresh _) r h = refresh_end (load_done False r h)"
| "answered (More _ _) r h = more_end (load_done True r h)"

inductive hook_step :: "tx_hook \<times> tx_request list \<Rightarrow> tx_hook \<times> tx_request list \<Rightarrow> bool" where
  reload: "hook_step (h, rs) (reload_begin nf h, rs @ [Reload (th_active (reload_begin nf h))])"
| apply_filters: "hook_step (h, rs) (apply_begin f h, rs @ [Reload f])"
| refresh: "hook_step (h, rs) (refresh_begin h, rs @ [Refresh (th_active h)])"
| load_more: "more_allowed h \<Longrightarrow> th_cursor h = Some c \<Longrightarrow>
     hook_step (h, rs) (more_begin h, rs @ [More (th_active h) c])"
| response: "q \<in> set rs \<Longrightarrow> (\<And>p. r = Ret p \<Longrightarrow> distinct (map tx_id (pg_items p))) \<Longrightarrow>
     hook_step (h, rs) (answered q r h, remove1 q rs)"

section \<open>Lists\<close>

lemma insert_sorted_mset: "mset (insert_sorted time x ys) = add_mset x (mset ys)"
  by (induction ys) auto

lemma newest_first_mset: "mset (newest_first date_of xs) = mset xs"
proof -
  have "mset (fold (insert_sorted f) xs acc) = mset xs + mset acc" for f acc
    by (induction xs arbitrary: acc) (auto simp: insert_sorted_mset)
  then show ?thesis by (simp add: newest_first_def)
qed

abbreviation not_older :: "(Transaction \<Rightarrow> js_num) \<Rightarrow> Transaction \<Rightarrow> Transaction \<Rightarrow> bool" where
  "not_older time a b \<equiv> \<not> num_less (time a) (time b)"

lemma not_older_trans:
  "time a \<noteq> NaN \<Longrightarrow> time b \<noteq> NaN \<Longrightarrow> time c \<noteq> NaN \<Longrightarrow> not_older time a b \<Longrightarrow> not_older time b c \<Longrightarrow> not_older time a c"
  by (cases "time a"; cases "time b"; cases "time c") auto

lemma insert_sorted_sorted:
  assumes "\<forall>z \<in> insert x (set ys). time z \<noteq> NaN" "sorted_wrt (not_older time) ys"
  shows "sorted_wrt (not_older time) (insert_sorted time x ys)"
  using assms
proof (induction ys)
  case (Cons y ys)
  have s: "set (insert_sorted time x ys) = insert x (set ys)"
    using insert_sorted_mset by (metis set_mset_add_mset_insert set_mset_mset)
  show ?case
  proof (cases "num_less (time y) (time x)")
    case True
    have "not_older time x z" if "z \<in> set ys" for z
      using not_older_trans[of time x y z] True that Cons.prems num_less_asym by auto
    with True Cons.prems num_less_asym show ?thesis by auto
  next
    case False
    with Cons s show ?thesis by auto
  qed
qed simp

lemma newest_first_sorted:
  assumes "\<forall>t \<in> set xs. date_of (tx_timestamp t) \<noteq> NaN"
  shows "sorted_wrt (\<lambda>a b. \<not> num_less (date_of (tx_timestamp a)) (date_of (tx_timestamp b))) (newest_first date_of xs)"
proof -
  let ?f = "\<lambda>t. date_of (tx_timestamp t)"
  have "sorted_wrt (not_older ?f) (fold (insert_sorted ?f) xs acc)"
    if "\<forall>t \<in> set xs \<union> set acc. ?f t \<noteq> NaN" "sorted_wrt (not_older ?f) acc" for acc
    using that
  proof (induction xs arbitrary: acc)
    case (Cons x xs)
    have "set (insert_sorted ?f x acc) = insert x (set acc)"
      using insert_sorted_mset by (metis set_mset_add_mset_insert set_mset_mset)
    with Cons insert_sorted_sorted[of x acc ?f] show ?case by simp
  qed simp
  from this[of "[]"] assms show ?thesis by (simp add: newest_first_def)
qed

lemma findIndex_nth:
  "k < length xs \<Longrightarrow> P (xs ! k) \<Longrightarrow> (\<And>i. i < k \<Longrightarrow> \<not> P (xs ! i)) \<Longrightarrow> findIndex P xs = int k"
proof (induction xs arbitrary: k)
  case (Cons x xs)
  show ?case
  proof (cases k)
    case (Suc j)
    have "findIndex P xs = int j" using Cons.prems Suc by (intro Cons.IH) force+
    with Cons.prems(3)[of 0] Suc show ?thesis by (simp add: Let_def)
  qed (use Cons in simp)
qed simp

text \<open>The pages that are shown when \<open>nextCursor\<close> is followed from a cursor on, at most \<open>n\<close> of them.\<close>

fun follow :: "nat \<Rightarrow> Transaction list \<Rightarrow> string option \<Rightarrow> Transaction list list" where
  "follow 0 l cursor = []"
| "follow (Suc n) l cursor = fst (paginate l cursor)
     # (case snd (paginate l cursor) of None \<Rightarrow> [] | Some c \<Rightarrow> follow n l (Some c))"

lemma paginate_at:
  assumes "distinct (map tx_id l)" "[] \<notin> tx_id ` set l" "k \<le> length l"
    and c: "c = (if k = 0 then None else Some (tx_id (l ! (k - 1))))"
  shows "paginate l c = (take 20 (drop k l), if k + 20 < length l then Some (tx_id (l ! (k + 19))) else None)"
proof -
  have start: "(if truthy c then nat (findIndex (\<lambda>t. tx_id t = the c) l + 1) else 0) = k"
  proof (cases k)
    case (Suc j)
    then have j: "j < length l" using assms(3) by simp
    then have "tx_id (l ! j) \<noteq> []" using assms(2) by (metis image_eqI nth_mem)
    moreover have "findIndex (\<lambda>t. tx_id t = tx_id (l ! j)) l = int j"
      using assms(1) j by (intro findIndex_nth) (auto simp: distinct_conv_nth)
    ultimately show ?thesis using c Suc by simp
  qed (simp add: c)
  have "last (take 20 (drop k l)) = l ! (k + 19)" "take 20 (drop k l) \<noteq> []" if "k + 20 < length l"
  proof -
    have "length (take 20 (drop k l)) = 20" using that by simp
    then show "take 20 (drop k l) \<noteq> []" "last (take 20 (drop k l)) = l ! (k + 19)"
      using that by (auto simp: last_conv_nth)
  qed
  with start show ?thesis by (auto simp: paginate_def Let_def PAGE_SIZE_def)
qed

text \<open>The list cut into pages of twenty: the last page may be shorter, and an empty list is one empty page.\<close>

definition page_count :: "nat \<Rightarrow> nat" where
  "page_count k = max 1 ((k + 19) div 20)"

lemma page_count_more: "20 < k \<Longrightarrow> page_count k = Suc (page_count (k - 20))"
  by (auto simp: page_count_def max_def)

lemma follow_from:
  assumes "distinct (map tx_id l)" "[] \<notin> tx_id ` set l"
  shows "k \<le> length l \<Longrightarrow> page_count (length l - k) \<le> n \<Longrightarrow>
    follow n l (if k = 0 then None else Some (tx_id (l ! (k - 1))))
      = map (\<lambda>i. take 20 (drop (k + 20 * i) l)) [0..<page_count (length l - k)]"
proof (induction n arbitrary: k)
  case 0
  then show ?case by (simp add: page_count_def)
next
  case (Suc n)
  note p = paginate_at[OF assms Suc.prems(1) refl]
  show ?case
  proof (cases "k + 20 < length l")
    case True
    have c: "page_count (length l - k) = Suc (page_count (length l - (k + 20)))"
      using page_count_more[of "length l - k"] True by simp
    have "follow n l (Some (tx_id (l ! (k + 19))))
        = map (\<lambda>i. take 20 (drop (k + 20 + 20 * i) l)) [0..<page_count (length l - (k + 20))]"
      using Suc.IH[of "k + 20"] True Suc.prems(2) c by (simp add: add.commute)
    with True show ?thesis unfolding follow.simps p c
      by (simp add: map_upt_Suc add.assoc del: upt_Suc)
  next
    case False
    then have "page_count (length l - k) = 1" by (auto simp: page_count_def)
    with False show ?thesis unfolding follow.simps p by simp
  qed
qed

lemma pages_cover: "length l \<le> 20 * n \<Longrightarrow> concat (map (\<lambda>i. take 20 (drop (20 * i) l)) [0..<n]) = l"
proof (induction n arbitrary: l)
  case (Suc n)
  have "concat (map (\<lambda>i. take 20 (drop (20 * i) (drop 20 l))) [0..<n]) = drop 20 l" by (rule Suc.IH) (use Suc.prems in simp)
  then show ?case by (simp add: map_upt_Suc add.commute del: upt_Suc)
qed simp

section \<open>Properties\<close>

text \<open>
  C9: Cursor pagination is complete: on a list with distinct, non-empty identifiers, following \<open>nextCursor\<close> from the first
  page shows every transaction exactly once and in order, on exactly \<open>length / 20\<close> pages, rounded up (an empty list is one
  empty page), all of them full but the last; more requests than that are never made.
\<close>

theorem pagination_complete:
  assumes "distinct (map tx_id l)" "[] \<notin> tx_id ` set l" "max 1 ((length l + 19) div 20) \<le> n"
  shows "concat (follow n l None) = l \<and> length (follow n l None) = max 1 ((length l + 19) div 20)
    \<and> (\<forall>i < length (follow n l None) - 1. length (follow n l None ! i) = 20)"
proof -
  have f: "follow n l None = map (\<lambda>i. take 20 (drop (20 * i) l)) [0..<page_count (length l)]"
    using follow_from[OF assms(1,2), of 0 n] assms(3) by (simp add: page_count_def)
  have "length l \<le> 20 * page_count (length l)" by (auto simp: page_count_def max_def)
  from pages_cover[OF this] f have "concat (follow n l None) = l" by simp
  moreover have "length (take 20 (drop (20 * i) l)) = 20" if "i < page_count (length l) - 1" for i
    using that by (auto simp: page_count_def max_def split: if_splits)
  ultimately show ?thesis by (simp add: f page_count_def)
qed

lemma mock_ids: "map tx_id (MOCK_TRANSACTIONS toISO t) =
  [''tx_001'', ''tx_002'', ''tx_003'', ''tx_004'', ''tx_005'', ''tx_006'', ''tx_007'', ''tx_008'', ''tx_009'',
   ''tx_010'', ''tx_011'', ''tx_012'', ''tx_013'', ''tx_014'']"
  by (simp add: MOCK_TRANSACTIONS_def mock_payments_def mock_yield_and_payouts_def)

text \<open>Forty-five payments, told apart by the length of their identifiers.\<close>

definition many_txs :: "Transaction list" where
  "many_txs = map (\<lambda>i. (hd (MOCK_TRANSACTIONS (\<lambda>t. show_int t) 0))\<lparr>tx_id := replicate (Suc i) (CHR ''x'')\<rparr>) [0..<45]"

theorem pagination_complete_witness:
  "concat (follow 3 many_txs None) = many_txs \<and> length (follow 3 many_txs None) = 3 \<and> length (follow 3 many_txs None ! 1) = 20"
proof -
  have ids: "map tx_id many_txs = map (\<lambda>i. replicate (Suc i) (CHR ''x'')) [0..<45]" by (simp add: many_txs_def)
  have "inj (\<lambda>i. replicate (Suc i) (CHR ''x''))" by (rule injI) (metis length_replicate nat.inject)
  then have d: "distinct (map tx_id many_txs)" unfolding ids by (auto simp: distinct_map intro: inj_on_subset)
  have "tx_id ` set many_txs = set (map tx_id many_txs)" by simp
  then have ne: "[] \<notin> tx_id ` set many_txs" unfolding ids by auto
  have n: "length many_txs = 45" by (simp add: many_txs_def)
  have "max 1 ((length many_txs + 19) div 20) \<le> (3::nat)" by (simp add: n)
  from pagination_complete[OF d ne this] n show ?thesis by simp
qed

text \<open>
  A page that \<open>fetchTransactions\<close> computes holds at most twenty transactions, each one of the merged
  list and accepted by every filter, and newest first when all timestamps are dates; the total
  is the number of accepted transactions.
\<close>

theorem page_correct:
  assumes "\<forall>t \<in> set all. date_of (tx_timestamp t) \<noteq> NaN"
  shows "let p = page_of date_of f cursor all in
      length (pg_items p) \<le> 20
    \<and> set (pg_items p) \<subseteq> {t \<in> set all. keeps date_of f t}
    \<and> sorted_wrt (\<lambda>a b. \<not> num_less (date_of (tx_timestamp a)) (date_of (tx_timestamp b))) (pg_items p)
    \<and> pg_total p = length (filter (keeps date_of f) all)"
proof -
  let ?l = "newest_first date_of (filter (keeps date_of f) all)"
  obtain k where k: "fst (paginate ?l cursor) = take 20 (drop k ?l)" by (auto simp: paginate_def Let_def PAGE_SIZE_def)
  have s: "set ?l = {t \<in> set all. keeps date_of f t}" using newest_first_mset by (metis set_filter set_mset_mset)
  have "length ?l = length (filter (keeps date_of f) all)" using newest_first_mset by (metis size_mset)
  moreover have "sorted_wrt (\<lambda>a b. \<not> num_less (date_of (tx_timestamp a)) (date_of (tx_timestamp b))) (take 20 (drop k ?l))"
    using assms by (intro sorted_wrt_take sorted_wrt_drop newest_first_sorted) simp
  moreover have "set (take 20 (drop k ?l)) \<subseteq> {t \<in> set all. keeps date_of f t}"
    using s by (metis order_trans set_drop_subset set_take_subset)
  ultimately show ?thesis by (simp add: page_of_def Let_def k)
qed

theorem page_correct_witness:
  "let p = page_of (\<lambda>s. Fin (of_nat (length s))) DEFAULT_FILTERS None (MOCK_TRANSACTIONS (\<lambda>t. show_int t) 0)
   in length (pg_items p) \<le> 20"
  using page_correct[of "MOCK_TRANSACTIONS (\<lambda>t. show_int t) 0" "\<lambda>s. Fin (of_nat (length s))" DEFAULT_FILTERS None]
  by (simp add: Let_def)

lemma merge_cached_ids:
  "distinct (map tx_id mock) \<Longrightarrow> (\<And>d. cached = Some d \<Longrightarrow> distinct (map tx_id d)) \<Longrightarrow>
   distinct (map tx_id (merge_cached mock cached))"
  by (cases cached) (auto simp: merge_cached_def distinct_map_filter)

lemma merge_cached_again:
  "merge_cached mock (Some (merge_cached mock cached)) = merge_cached mock cached"
proof -
  have "tx_id t \<in> tx_id ` set (merge_cached mock cached)" if "t \<in> set mock" for t
    using that by (auto simp: merge_cached_def split: option.splits)
  then have "filter (\<lambda>t. tx_id t \<notin> tx_id ` set (merge_cached mock cached)) mock = []" by (simp add: filter_empty_conv)
  then show ?thesis by (simp add: merge_cached_def)
qed

text \<open>
  The two caches: after a fetch, the same request made within thirty seconds returns the same page
  without touching storage, the clock or the network, and after \<open>invalidateTransactionCache\<close> it is
  computed afresh; merging the stored list again changes nothing, and no transaction is listed
  twice.
\<close>

theorem transaction_caches:
  assumes "fetch_fresh getItem setItem now sleep date_of mock f cursor s = (Ret page, s')"
  shows "(\<forall>w. now w < now (tx_world s') + 30000 \<longrightarrow>
        fetchTransactions getItem setItem now sleep date_of mock f cursor (s'\<lparr>tx_world := w\<rparr>) = (Ret page, s'\<lparr>tx_world := w\<rparr>))
    \<and> (let s2 = snd (invalidateTransactionCache removeItem s') in
        fetchTransactions getItem setItem now sleep date_of mock f cursor s2
          = fetch_fresh getItem setItem now sleep date_of mock f cursor s2)
    \<and> (\<exists>cached. page = page_of date_of f cursor (merge_cached mock cached)
        \<and> merge_cached mock (Some (merge_cached mock cached)) = merge_cached mock cached)"
proof (intro conjI)
  from assms obtain s1 cached where
    s': "s' = s1\<lparr>memCache := (memCache s1)((f, cursor) \<mapsto> (page, now (tx_world s1) + 30000))\<rparr>"
    and page: "page = page_of date_of f cursor (merge_cached mock cached)"
    by (auto simp: fetch_fresh_def bnd_def Let_def split: prod.splits res.splits)
  show "\<forall>w. now w < now (tx_world s') + 30000 \<longrightarrow>
        fetchTransactions getItem setItem now sleep date_of mock f cursor (s'\<lparr>tx_world := w\<rparr>) = (Ret page, s'\<lparr>tx_world := w\<rparr>)"
    using s' by (simp add: fetchTransactions_def)
  show "let s2 = snd (invalidateTransactionCache removeItem s') in
        fetchTransactions getItem setItem now sleep date_of mock f cursor s2
          = fetch_fresh getItem setItem now sleep date_of mock f cursor s2"
    by (simp add: Let_def fetchTransactions_def invalidateTransactionCache_def on_world_def split: prod.splits)
  show "\<exists>cached. page = page_of date_of f cursor (merge_cached mock cached)
        \<and> merge_cached mock (Some (merge_cached mock cached)) = merge_cached mock cached"
    using page merge_cached_again by blast
qed

definition tx_no_cache :: "string \<Rightarrow> int \<Rightarrow> CacheEntry jtext option res" where
  "tx_no_cache k w = Ret None"

theorem transaction_caches_witness:
  "\<exists>page s'. fetch_fresh tx_no_cache (\<lambda>_ _. ret ()) (\<lambda>w. w) (ret ()) (\<lambda>_. Fin 0) [] DEFAULT_FILTERS None
       \<lparr>memCache = Map.empty, tx_world = 0\<rparr> = (Ret page, s')
     \<and> fetchTransactions tx_no_cache (\<lambda>_ _. ret ()) (\<lambda>w. w) (ret ()) (\<lambda>_. Fin 0) [] DEFAULT_FILTERS None
         (s'\<lparr>tx_world := 29999\<rparr>) = (Ret page, s'\<lparr>tx_world := 29999\<rparr>)"
proof -
  let ?s = "\<lparr>memCache = Map.empty, tx_world = 0 :: int\<rparr>"
  have "\<exists>page s'. fetch_fresh tx_no_cache (\<lambda>_ _. ret ()) (\<lambda>w. w) (ret ()) (\<lambda>_. Fin 0) [] DEFAULT_FILTERS None ?s
      = (Ret page, s') \<and> tx_world s' = 0"
    by (simp add: fetch_fresh_def bnd_def on_world_def readCache_def writeCache_def try_catch_def tx_no_cache_def Let_def)
  then obtain page s' where f: "fetch_fresh tx_no_cache (\<lambda>_ _. ret ()) (\<lambda>w. w) (ret ()) (\<lambda>_. Fin 0) [] DEFAULT_FILTERS None ?s
      = (Ret page, s')" and w: "tx_world s' = 0" by blast
  from transaction_caches[OF f, THEN conjunct1] w f show ?thesis by auto
qed

definition hook_ok :: "tx_hook \<times> tx_request list \<Rightarrow> bool" where
  "hook_ok c \<longleftrightarrow> distinct (map tx_id (th_items (fst c)))"

lemma load_done_items:
  assumes "distinct (map tx_id (th_items h))" "\<And>p. r = Ret p \<Longrightarrow> distinct (map tx_id (pg_items p))"
  shows "distinct (map tx_id (th_items (load_done a r h)))"
  using assms by (cases r) (auto simp: load_done_def distinct_map_filter image_iff)

lemma answered_items: "\<exists>a. th_items (answered q r h) = th_items (load_done a r h)"
  by (cases q) (auto simp: reload_end_def refresh_end_def more_end_def)

lemma hook_ok_step: "hook_step c c' \<Longrightarrow> hook_ok c \<Longrightarrow> hook_ok c'"
proof (induction rule: hook_step.induct)
  case (response q rs r h)
  obtain a where "th_items (answered q r h) = th_items (load_done a r h)" using answered_items by blast
  with response load_done_items[of h r a] show ?case by (simp add: hook_ok_def)
qed (auto simp: hook_ok_def reload_begin_def apply_begin_def refresh_begin_def more_begin_def Let_def)

text \<open>
  The screen's list never shows a transaction twice: in every interleaving of reloads, refreshes,
  filter changes, page requests and their answers, the identifiers of the items are distinct,
  provided every single page has distinct ones.
\<close>

theorem list_without_duplicates:
  assumes "hook_step\<^sup>*\<^sup>* (th_init, []) (h, rs)"
  shows "distinct (map tx_id (th_items h))"
proof -
  have "hook_ok (h, rs)" using assms
  proof (induction "(h, rs)" arbitrary: h rs rule: rtranclp_induct)
    case base
    then show ?case by (simp add: hook_ok_def th_init_def)
  next
    case (step y h rs)
    then show ?case by (cases y) (blast intro: hook_ok_step)
  qed
  then show ?thesis by (simp add: hook_ok_def)
qed

definition empty_page :: TransactionPage where
  "empty_page = \<lparr>pg_items = [], pg_nextCursor = None, pg_total = 0\<rparr>"

theorem list_without_duplicates_witness:
  "distinct (map tx_id (th_items (answered (Refresh DEFAULT_FILTERS) (Ret empty_page) (refresh_begin th_init))))"
proof (rule list_without_duplicates)
  have "hook_step (th_init, []) (refresh_begin th_init, [] @ [Refresh (th_active th_init)])" by (rule hook_step.refresh)
  moreover have "hook_step (refresh_begin th_init, [] @ [Refresh (th_active th_init)])
      (answered (Refresh DEFAULT_FILTERS) (Ret empty_page) (refresh_begin th_init),
       remove1 (Refresh DEFAULT_FILTERS) ([] @ [Refresh (th_active th_init)]))"
    by (rule hook_step.response) (auto simp: th_init_def empty_page_def)
  ultimately show "hook_step\<^sup>*\<^sup>* (th_init, [])
      (answered (Refresh DEFAULT_FILTERS) (Ret empty_page) (refresh_begin th_init),
       remove1 (Refresh DEFAULT_FILTERS) ([] @ [Refresh (th_active th_init)]))"
    by (meson rtranclp.rtrancl_into_rtrancl rtranclp.rtrancl_refl)
qed

text \<open>
  Answers are not matched to the filters they were requested with: when the filters are changed
  twice and the answer for the first choice arrives last, the screen shows the transactions of
  the first choice under the second.
\<close>

theorem stale_answer_wins:
  "\<exists>h. hook_step\<^sup>*\<^sup>* (th_init, []) (h, [])
     \<and> th_filters h = f2 \<and> th_items h = [t1] \<and> th_loading h = False"
proof -
  let ?p1 = "Ret \<lparr>pg_items = [t1], pg_nextCursor = None, pg_total = 1\<rparr>"
  let ?h1 = "apply_begin f1 th_init"
  let ?h2 = "apply_begin f2 ?h1"
  let ?h3 = "answered (Reload f2) (Ret empty_page) ?h2"
  let ?h4 = "answered (Reload f1) ?p1 ?h3"
  have s1: "hook_step (th_init, []) (?h1, [Reload f1])" using hook_step.apply_filters[of th_init "[]" f1] by simp
  have s2: "hook_step (?h1, [Reload f1]) (?h2, [Reload f1, Reload f2])"
    using hook_step.apply_filters[of ?h1 "[Reload f1]" f2] by simp
  have s3: "hook_step (?h2, [Reload f1, Reload f2]) (?h3, remove1 (Reload f2) [Reload f1, Reload f2])"
    by (rule hook_step.response) (auto simp: empty_page_def)
  have r: "remove1 (Reload f2) [Reload f1, Reload f2] = [Reload f1]" by simp
  have s4: "hook_step (?h3, [Reload f1]) (?h4, remove1 (Reload f1) [Reload f1])"
    by (rule hook_step.response) auto
  have "hook_step\<^sup>*\<^sup>* (th_init, []) (?h4, [])"
    using s1 s2 s3[unfolded r] s4 by (auto intro: rtranclp.rtrancl_into_rtrancl)
  moreover have "th_filters ?h4 = f2" "th_items ?h4 = [t1]" "th_loading ?h4 = False"
    by (simp_all add: load_done_def reload_end_def apply_begin_def reload_begin_def empty_page_def)
  ultimately show ?thesis by blast
qed

end
