(* ===== verification/Contacts.thy ===== *)
theory Contacts
  imports Platform Js_Number "HOL-Library.Word"
begin

unbundle bit_operations_syntax

text \<open>
  Finding contacts (\<open>mobileapp/src/services/contacts.ts\<close>): phone numbers are normalised and hashed
  on the device, the hashes are sent to the backend in batches and the answers are joined with
  the local names.  The contacts are hashed concurrently: a run is given by a schedule, the list of
  the contacts whose next pending hash settles.  \<open>digest\<close> is \<open>crypto.subtle.digest\<close>, a function of
  the bytes; where it is missing it throws.  The lookup \<open>hashMap[phone_hash]\<close> is that of the entries
  the code put there: the names an object inherits (\<open>constructor\<close> and the like) are left aside.
\<close>

section \<open>Data\<close>

record MatchedContact =
  mc_contactName :: string
  mc_username :: string
  mc_address :: string
  mc_phoneNumber :: string
  mc_avatarUrl :: "string option"

datatype denial = Denied | Restricted | Unavailable

record ContactPermissionResult =
  cp_granted :: bool
  cp_reason :: "denial option"

record BackendContactMatch =
  bm_phone_hash :: string
  bm_username :: string
  bm_address :: string
  bm_avatar_url :: "string option"

record device_contact =
  dc_name :: "string option"
  dc_firstName :: "string option"
  dc_lastName :: "string option"
  dc_phoneNumbers :: "string option list option"

record local_contact =
  lc_contactName :: string
  lc_phoneNumber :: string

section \<open>Normalisation and hashing\<close>

definition normalizePhoneNumber :: "string \<Rightarrow> string" where
  "normalizePhoneNumber phone =
     (let digitsOnly = filter is_digit phone in if startsWith digitsOnly ''0'' then drop 1 digitsOnly else digitsOnly)"

text \<open>
  One round of the fallback: \<open>h ^= c\<close> is a signed 32-bit number, the product with the prime is a
  double, and \<open>>>> 0\<close> reads that double modulo \<open>2 ^ 32\<close>.
\<close>

definition fnv_round :: "32 word \<Rightarrow> char \<Rightarrow> 32 word" where
  "fnv_round h c = word_of_int \<lfloor>round_double (of_int (sint (h XOR word_of_nat (of_char c)) * 16777619))\<rfloor>"

definition fnv_fallback :: "string \<Rightarrow> string" where
  "fnv_fallback input = padStart0 8 (toString16 (unat (foldl fnv_round 0x811c9dc5 input)))"

definition sha256Hex :: "(string \<Rightarrow> nat list res) \<Rightarrow> string \<Rightarrow> string" where
  "sha256Hex digest input = (case digest input of
       Ret hashArray \<Rightarrow> concat (map (\<lambda>b. padStart0 2 (toString16 b)) hashArray)
     | Throw _ \<Rightarrow> fnv_fallback input)"

definition hashPhoneNumber :: "(string \<Rightarrow> nat list res) \<Rightarrow> string \<Rightarrow> string option" where
  "hashPhoneNumber digest rawPhone =
     (let normalised = normalizePhoneNumber rawPhone in
      if length normalised < 7 then None else Some (sha256Hex digest normalised))"

section \<open>Permission\<close>

definition requestContactsPermission :: "string res \<Rightarrow> ContactPermissionResult" where
  "requestContactsPermission req = (case req of
       Ret st \<Rightarrow> if st = ''granted'' then \<lparr>cp_granted = True, cp_reason = None\<rparr>
         else if st = ''denied'' then \<lparr>cp_granted = False, cp_reason = Some Denied\<rparr>
         else \<lparr>cp_granted = False, cp_reason = Some Restricted\<rparr>
     | Throw _ \<Rightarrow> \<lparr>cp_granted = False, cp_reason = Some Unavailable\<rparr>)"

section \<open>The map of hashes\<close>

definition displayName :: "device_contact \<Rightarrow> string" where
  "displayName c = or_else (dc_name c)
     (or_else (Some (trim ((case dc_firstName c of None \<Rightarrow> [] | Some s \<Rightarrow> s) @ '' '' @
        (case dc_lastName c of None \<Rightarrow> [] | Some s \<Rightarrow> s)))) ''Unknown'')"

text \<open>The object \<open>map\<close>, in the order in which its keys were created.\<close>

type_synonym phone_map = "(string \<times> local_contact) list"

definition put_phone :: "(string \<Rightarrow> nat list res) \<Rightarrow> string \<Rightarrow> string option \<Rightarrow> phone_map \<Rightarrow> phone_map" where
  "put_phone digest name entry m =
     (let raw = (case entry of None \<Rightarrow> [] | Some s \<Rightarrow> s) in
      if raw = [] then m
      else case hashPhoneNumber digest raw of None \<Rightarrow> m
      | Some hash \<Rightarrow> if hash = [] then m
          else if map_of m hash = None
          then m @ [(hash, \<lparr>lc_contactName = name, lc_phoneNumber = normalizePhoneNumber raw\<rparr>)] else m)"

text \<open>A contact being processed: its name and the numbers that are left.\<close>

type_synonym contact_task = "string \<times> string option list"

definition contact_task :: "device_contact \<Rightarrow> contact_task" where
  "contact_task c = (displayName c, case dc_phoneNumbers c of None \<Rightarrow> [] | Some ps \<Rightarrow> ps)"

definition hash_step :: "(string \<Rightarrow> nat list res) \<Rightarrow> nat \<Rightarrow> contact_task list \<times> phone_map \<Rightarrow> contact_task list \<times> phone_map" where
  "hash_step digest i = (\<lambda>(ts, m). if length ts \<le> i then (ts, m)
     else case ts ! i of (name, []) \<Rightarrow> (ts, m)
       | (name, e # es) \<Rightarrow> (ts[i := (name, es)], put_phone digest name e m))"

definition hash_run :: "(string \<Rightarrow> nat list res) \<Rightarrow> nat list \<Rightarrow> contact_task list \<Rightarrow> contact_task list \<times> phone_map" where
  "hash_run digest sched ts = foldl (\<lambda>s i. hash_step digest i s) (ts, []) sched"

definition finished :: "contact_task list \<Rightarrow> bool" where
  "finished ts \<longleftrightarrow> list_all (\<lambda>t. snd t = []) ts"

text \<open>\<open>Promise.all\<close> waits for every contact: the result of a schedule that does not finish them is \<open>None\<close>.\<close>

definition buildPhoneHashMap ::
  "(string \<Rightarrow> nat list res) \<Rightarrow> nat list \<Rightarrow> device_contact list res \<Rightarrow> phone_map res option" where
  "buildPhoneHashMap digest sched contacts = (case contacts of Throw e \<Rightarrow> Some (Throw e)
     | Ret data \<Rightarrow> (case hash_run digest sched (map contact_task data) of
         (ts, m) \<Rightarrow> if finished ts then Some (Ret m) else None))"

section \<open>Batch matching\<close>

definition batchMatchContacts ::
  "string \<Rightarrow> (string list request \<Rightarrow> ('w, BackendContactMatch list option response) io) \<Rightarrow> string list \<Rightarrow> string option
     \<Rightarrow> ('w, BackendContactMatch list) io" where
  "batchMatchContacts api_base fetch phoneHashes authToken =
     (if phoneHashes = [] then ret []
      else bnd (fetch \<lparr>url = api_base @ ''/api/v1/contacts/match'', meth = ''POST'',
                 headers = json_header ++ bearer authToken, body = Some phoneHashes\<rparr>)
        (\<lambda>r. if \<not> ok r then throw (Error (''Contact match endpoint returned HTTP '' @ show_int (status r)))
          else case json r of Throw e \<Rightarrow> throw e
            | Ret b \<Rightarrow> ret (case b of None \<Rightarrow> [] | Some ms \<Rightarrow> ms)))"

text \<open>\<open>xs.slice(a, b)\<close> for integers.\<close>

definition js_slice :: "'a list \<Rightarrow> int \<Rightarrow> int \<Rightarrow> 'a list" where
  "js_slice xs a b = (let n = int (length xs); pos = (\<lambda>k. if k < 0 then max 0 (n + k) else min k n)
     in take (nat (pos b - pos a)) (drop (nat (pos a)) xs))"

text \<open>The loop over the batches, with at most \<open>fuel\<close> tests of its condition; \<open>None\<close> when it is still running.\<close>

fun match_loop :: "(string list \<Rightarrow> ('w, BackendContactMatch list) io) \<Rightarrow> string list \<Rightarrow> int \<Rightarrow> nat \<Rightarrow> int
    \<Rightarrow> BackendContactMatch list \<Rightarrow> 'w \<Rightarrow> (BackendContactMatch list res \<times> 'w) option" where
  "match_loop batch allHashes batchSize 0 i acc w = None"
| "match_loop batch allHashes batchSize (Suc fuel) i acc w =
     (if \<not> i < int (length allHashes) then Some (Ret acc, w)
      else case batch (js_slice allHashes i (i + batchSize)) w of
          (Throw e, w') \<Rightarrow> Some (Throw e, w')
        | (Ret ms, w') \<Rightarrow> match_loop batch allHashes batchSize fuel (i + batchSize) (acc @ ms) w')"

text \<open>
  \<open>Object.keys\<close>: the keys that are array indices first, in numeric order, then the others in the
  order of their creation.
\<close>

definition is_index :: "string \<Rightarrow> bool" where
  "is_index k \<longleftrightarrow> k \<noteq> [] \<and> list_all is_digit k \<and> nat_digits (digits_val k) = k \<and> digits_val k < 2 ^ 32 - 1"

definition object_keys :: "(string \<times> 'v) list \<Rightarrow> string list" where
  "object_keys m = sort_key digits_val (filter is_index (map fst m)) @ filter (\<lambda>k. \<not> is_index k) (map fst m)"

definition merge_match :: "phone_map \<Rightarrow> BackendContactMatch \<Rightarrow> MatchedContact option" where
  "merge_match hashMap b = (case map_of hashMap (bm_phone_hash b) of None \<Rightarrow> None
     | Some l \<Rightarrow> Some \<lparr>mc_contactName = lc_contactName l, mc_username = bm_username b, mc_address = bm_address b,
         mc_phoneNumber = lc_phoneNumber l, mc_avatarUrl = bm_avatar_url b\<rparr>)"

definition fetchMatchedContacts ::
  "string \<Rightarrow> (string list request \<Rightarrow> ('w, BackendContactMatch list option response) io) \<Rightarrow> (string \<Rightarrow> nat list res)
     \<Rightarrow> nat list \<Rightarrow> string res \<Rightarrow> device_contact list res \<Rightarrow> nat \<Rightarrow> string option \<Rightarrow> int option \<Rightarrow> 'w
     \<Rightarrow> (MatchedContact list res \<times> 'w) option" where
  "fetchMatchedContacts api_base fetch digest sched req contacts fuel authToken size_opt w =
     (let batchSize = (case size_opt of None \<Rightarrow> 500 | Some n \<Rightarrow> n) in
      if \<not> cp_granted (requestContactsPermission req) then Some (Ret [], w)
      else case buildPhoneHashMap digest sched contacts of None \<Rightarrow> None
      | Some (Throw e) \<Rightarrow> Some (Throw e, w)
      | Some (Ret hashMap) \<Rightarrow>
        (let allHashes = object_keys hashMap in
         if allHashes = [] then Some (Ret [], w)
         else map_option (\<lambda>(r, w'). (case r of Throw e \<Rightarrow> Throw e
               | Ret allMatches \<Rightarrow> Ret (List.map_filter (merge_match hashMap) allMatches), w'))
             (match_loop (\<lambda>chunk. batchMatchContacts api_base fetch chunk authToken) allHashes batchSize fuel 0 [] w)))"

section \<open>Every interleaving builds the same keys\<close>

text \<open>The hashes a list of tasks still has to produce, with the entries that would produce them.\<close>

definition phone_entry :: "(string \<Rightarrow> nat list res) \<Rightarrow> string \<Rightarrow> string option \<Rightarrow> (string \<times> local_contact) option" where
  "phone_entry digest name entry = (case entry of None \<Rightarrow> None | Some raw \<Rightarrow>
     (case hashPhoneNumber digest raw of None \<Rightarrow> None | Some h \<Rightarrow> if h = [] then None else
        Some (h, \<lparr>lc_contactName = name, lc_phoneNumber = normalizePhoneNumber raw\<rparr>)))"

definition entries_of :: "(string \<Rightarrow> nat list res) \<Rightarrow> contact_task list \<Rightarrow> (string \<times> local_contact) set" where
  "entries_of digest ts = {x. \<exists>(name, es) \<in> set ts. \<exists>e \<in> set es. phone_entry digest name e = Some x}"

lemma hash_Nil: "hashPhoneNumber digest [] = None"
  by (simp add: hashPhoneNumber_def normalizePhoneNumber_def startsWith_def)

lemma put_phone_eq:
  "put_phone digest name e m = (case phone_entry digest name e of None \<Rightarrow> m
     | Some (h, l) \<Rightarrow> if h \<in> fst ` set m then m else m @ [(h, l)])"
  by (auto simp: put_phone_def phone_entry_def Let_def hash_Nil map_of_eq_None_iff split: option.splits)

text \<open>What every step keeps: keys are distinct, entries are sound, and no key is lost.\<close>

definition hash_inv :: "(string \<Rightarrow> nat list res) \<Rightarrow> contact_task list \<Rightarrow> contact_task list \<times> phone_map \<Rightarrow> bool" where
  "hash_inv digest ts0 s \<longleftrightarrow> distinct (map fst (snd s)) \<and> set (snd s) \<subseteq> entries_of digest ts0
     \<and> entries_of digest (fst s) \<subseteq> entries_of digest ts0
     \<and> fst ` entries_of digest ts0 \<subseteq> fst ` set (snd s) \<union> fst ` entries_of digest (fst s)"

lemma entries_of_update:
  assumes "i < length ts" "ts ! i = (name, e # es)"
  shows "entries_of digest ts = set_option (phone_entry digest name e) \<union> entries_of digest (ts[i := (name, es)])"
proof -
  have ts: "ts = take i ts @ (name, e # es) # drop (Suc i) ts" using assms by (metis id_take_nth_drop)
  have up: "ts[i := (name, es)] = take i ts @ (name, es) # drop (Suc i) ts" using assms(1) by (rule upd_conv_take_nth_drop)
  show ?thesis unfolding up by (subst (1) ts) (auto simp: entries_of_def)
qed

lemma hash_step_inv: "hash_inv digest ts0 s \<Longrightarrow> hash_inv digest ts0 (hash_step digest i s)"
proof -
  assume inv: "hash_inv digest ts0 s"
  obtain ts m where s: "s = (ts, m)" by fastforce
  show "hash_inv digest ts0 (hash_step digest i s)"
  proof (cases "\<exists>name e es. i < length ts \<and> ts ! i = (name, e # es)")
    case True
    then obtain name e es where i: "i < length ts" "ts ! i = (name, e # es)" by blast
    have st: "hash_step digest i s = (ts[i := (name, es)], put_phone digest name e m)"
      using i by (simp add: hash_step_def s)
    let ?es = "entries_of digest (ts[i := (name, es)])" and ?o = "phone_entry digest name e"
    have inv': "distinct (map fst m)" "set m \<subseteq> entries_of digest ts0" "set_option ?o \<union> ?es \<subseteq> entries_of digest ts0"
        "fst ` entries_of digest ts0 \<subseteq> fst ` set m \<union> fst ` (set_option ?o \<union> ?es)"
      using inv unfolding hash_inv_def s fst_conv snd_conv entries_of_update[OF i, symmetric] by blast+
    show ?thesis
    proof (cases ?o)
      case None
      with inv' show ?thesis by (simp add: st hash_inv_def put_phone_eq)
    next
      case (Some x)
      obtain h l where x: "x = (h, l)" by fastforce
      from inv' show ?thesis
        by (cases "h \<in> fst ` set m") (auto simp: st hash_inv_def put_phone_eq Some x)
    qed
  next
    case False
    then have "hash_step digest i s = s"
      by (cases "ts ! i"; cases "snd (ts ! i)") (auto simp: hash_step_def s)
    with inv show ?thesis by simp
  qed
qed

lemma hash_run_inv: "hash_inv digest ts (hash_run digest sched ts)"
proof -
  have "hash_inv digest ts s \<Longrightarrow> hash_inv digest ts (foldl (\<lambda>s i. hash_step digest i s) s is')" for s is'
    by (induction is' arbitrary: s) (simp_all add: hash_step_inv)
  then show ?thesis by (simp add: hash_run_def hash_inv_def)
qed

lemma entries_of_finished: "finished ts \<Longrightarrow> entries_of digest ts = {}"
  by (fastforce simp: finished_def entries_of_def list_all_iff)

lemma phone_entry_Some: "phone_entry digest name e = Some (h, l) \<longleftrightarrow> h \<noteq> [] \<and>
    (\<exists>raw. e = Some raw \<and> hashPhoneNumber digest raw = Some h
       \<and> l = \<lparr>lc_contactName = name, lc_phoneNumber = normalizePhoneNumber raw\<rparr>)"
  by (auto simp: phone_entry_def split: option.splits if_splits)

lemma entries_of_map: "(h, l) \<in> entries_of digest (map contact_task cs) \<longleftrightarrow> h \<noteq> [] \<and>
    (\<exists>c \<in> set cs. \<exists>raw. Some raw \<in> set (snd (contact_task c)) \<and> hashPhoneNumber digest raw = Some h
       \<and> l = \<lparr>lc_contactName = displayName c, lc_phoneNumber = normalizePhoneNumber raw\<rparr>)"
  by (auto simp: entries_of_def phone_entry_Some contact_task_def)

lemma entries_keys: "h \<in> fst ` entries_of digest (map contact_task cs) \<longleftrightarrow>
    (\<exists>c \<in> set cs. \<exists>p \<in> set (snd (contact_task c)). \<exists>raw. p = Some raw \<and> hashPhoneNumber digest raw = Some h \<and> h \<noteq> [])"
proof -
  have "h \<in> fst ` S \<longleftrightarrow> (\<exists>l. (h, l) \<in> S)" for S :: "(string \<times> local_contact) set" by force
  then show ?thesis by (auto simp: entries_of_map)
qed

text \<open>
  The map of hashes does not depend on how the concurrent hashing of the contacts interleaves,
  except for the name under which a number shared by several contacts is listed: whatever
  the schedule, every valid number of every contact is in the map, under one key, and every
  entry of the map is a number of a contact under that contact's display name.
\<close>

theorem hash_map_any_order:
  assumes "buildPhoneHashMap digest sched (Ret cs) = Some (Ret m)"
  shows "distinct (map fst m)
    \<and> (\<forall>h. map_of m h \<noteq> None \<longleftrightarrow> (\<exists>c \<in> set cs. \<exists>p \<in> set (snd (contact_task c)). \<exists>raw.
           p = Some raw \<and> hashPhoneNumber digest raw = Some h \<and> h \<noteq> []))
    \<and> (\<forall>h l. map_of m h = Some l \<longrightarrow> (\<exists>c \<in> set cs. \<exists>raw. Some raw \<in> set (snd (contact_task c)) \<and>
           hashPhoneNumber digest raw = Some h \<and> l = \<lparr>lc_contactName = displayName c, lc_phoneNumber = normalizePhoneNumber raw\<rparr>))"
proof (intro conjI)
  let ?ts = "map contact_task cs"
  obtain ts where r: "hash_run digest sched ?ts = (ts, m)" and f: "finished ts"
    using assms by (auto simp: buildPhoneHashMap_def split: prod.splits if_splits)
  from hash_run_inv[of digest ?ts sched] show d: "distinct (map fst m)" by (simp add: r hash_inv_def)
  have e: "set m \<subseteq> entries_of digest ?ts" "fst ` entries_of digest ?ts \<subseteq> fst ` set m"
    using hash_run_inv[of digest ?ts sched] entries_of_finished[OF f, of digest] by (simp_all add: r hash_inv_def)
  have "map_of m h \<noteq> None \<longleftrightarrow> h \<in> fst ` entries_of digest ?ts" for h
    using e by (auto simp: map_of_eq_None_iff)
  moreover have "h \<in> fst ` entries_of digest ?ts \<longleftrightarrow> (\<exists>c \<in> set cs. \<exists>p \<in> set (snd (contact_task c)). \<exists>raw.
           p = Some raw \<and> hashPhoneNumber digest raw = Some h \<and> h \<noteq> [])" for h
    by (rule entries_keys)
  ultimately show "\<forall>h. map_of m h \<noteq> None \<longleftrightarrow> (\<exists>c \<in> set cs. \<exists>p \<in> set (snd (contact_task c)). \<exists>raw.
           p = Some raw \<and> hashPhoneNumber digest raw = Some h \<and> h \<noteq> [])"
    by simp
  show "\<forall>h l. map_of m h = Some l \<longrightarrow> (\<exists>c \<in> set cs. \<exists>raw. Some raw \<in> set (snd (contact_task c)) \<and>
           hashPhoneNumber digest raw = Some h \<and> l = \<lparr>lc_contactName = displayName c, lc_phoneNumber = normalizePhoneNumber raw\<rparr>)"
  proof (intro allI impI)
    fix h l assume "map_of m h = Some l"
    then have "(h, l) \<in> entries_of digest ?ts" using e(1) map_of_SomeD by fast
    then show "\<exists>c \<in> set cs. \<exists>raw. Some raw \<in> set (snd (contact_task c)) \<and>
           hashPhoneNumber digest raw = Some h \<and> l = \<lparr>lc_contactName = displayName c, lc_phoneNumber = normalizePhoneNumber raw\<rparr>"
      unfolding entries_of_map by blast
  qed
qed

definition two_friends :: "device_contact list" where
  "two_friends = [\<lparr>dc_name = Some ''Ada'', dc_firstName = None, dc_lastName = None,
       dc_phoneNumbers = Some [Some ''0801 234 5678'', Some ''12'']\<rparr>,
     \<lparr>dc_name = None, dc_firstName = Some ''Bo'', dc_lastName = None, dc_phoneNumbers = Some [Some ''8012345678'']\<rparr>]"

definition toy_digest :: "string \<Rightarrow> nat list res" where
  "toy_digest s = Ret ([length s])"

lemma two_friends_run:
  "buildPhoneHashMap toy_digest [1, 0, 0] (Ret two_friends)
     = Some (Ret [(''0a'', \<lparr>lc_contactName = ''Bo'', lc_phoneNumber = ''8012345678''\<rparr>)])"
  by code_simp

theorem hash_map_any_order_witness:
  "\<exists>c \<in> set two_friends. \<exists>raw. Some raw \<in> set (snd (contact_task c)) \<and> hashPhoneNumber toy_digest raw = Some ''0a''"
  using hash_map_any_order[OF two_friends_run] by (metis option.distinct(1) map_of_Cons_code(2))

section \<open>Batching is invisible\<close>

text \<open>
  The contract of the match endpoint: it answers every request, with the matches of the requested
  hashes, in their order, under a directory that does not change meanwhile.
\<close>

locale contact_backend =
  fixes fetch :: "string list request \<Rightarrow> ('w, BackendContactMatch list option response) io"
    and directory :: "string \<Rightarrow> BackendContactMatch option"
  assumes answers: "\<exists>r w'. fetch rq w = (Ret r, w') \<and> ok r \<and> json r = Ret (Some (List.map_filter directory (the (body rq))))"
begin

lemma batch: "\<exists>w'. batchMatchContacts base fetch hs tok w = (Ret (List.map_filter directory hs), w')"
proof (cases "hs = []")
  case False
  define rq where "rq = \<lparr>url = base @ ''/api/v1/contacts/match'', meth = ''POST'',
      headers = json_header ++ bearer tok, body = Some hs\<rparr>"
  from answers[of rq w] obtain r w' where a: "fetch rq w = (Ret r, w')" "ok r"
    "json r = Ret (Some (List.map_filter directory hs))" by (auto simp: rq_def)
  then show ?thesis using False
    by (intro exI[of _ w']) (simp add: batchMatchContacts_def rq_def[symmetric] bnd_apply)
qed (simp add: batchMatchContacts_def List.map_filter_def)

end

definition dir_fetch :: "(string \<Rightarrow> BackendContactMatch option) \<Rightarrow> string list request
    \<Rightarrow> (nat, BackendContactMatch list option response) io" where
  "dir_fetch directory rq n = (Ret \<lparr>status = 200, statusText = [],
     json = Ret (Some (List.map_filter directory (the (body rq)))), text_of = Ret []\<rparr>, n + 1)"

interpretation dir_backend: contact_backend "dir_fetch d" d for d
  by unfold_locales (simp add: dir_fetch_def ok_def)

lemma js_slice_batch:
  assumes "0 \<le> i" "i < int (length xs)" "1 \<le> n"
  shows "js_slice xs i (i + n) = take (nat n) (drop (nat i) xs)"
proof -
  have "take (nat (min (i + n) (int (length xs)) - i)) (drop (nat i) xs) = take (nat n) (drop (nat i) xs)"
    by (cases "i + n \<le> int (length xs)") (use assms in \<open>auto simp: min_def intro!: take_all_iff[THEN iffD2]\<close>)
  with assms show ?thesis by (simp add: js_slice_def Let_def)
qed

context contact_backend begin

lemma loop:
  assumes "1 \<le> n"
  shows "0 \<le> i \<Longrightarrow> length all - nat i < fuel \<Longrightarrow>
    \<exists>w'. match_loop (\<lambda>chunk. batchMatchContacts base fetch chunk tok) all n fuel i acc w
      = Some (Ret (acc @ List.map_filter directory (drop (nat i) all)), w')"
proof (induction fuel arbitrary: i acc w)
  case (Suc fuel)
  show ?case
  proof (cases "i < int (length all)")
    case True
    let ?c = "take (nat n) (drop (nat i) all)"
    obtain w1 where b: "batchMatchContacts base fetch ?c tok w = (Ret (List.map_filter directory ?c), w1)"
      using batch by blast
    have "nat (i + n) = nat i + nat n" using Suc.prems(1) assms by simp
    then have d: "drop (nat i) all = ?c @ drop (nat (i + n)) all"
      by (metis append_take_drop_id drop_drop add.commute)
    have m: "List.map_filter directory (drop (nat i) all)
        = List.map_filter directory ?c @ List.map_filter directory (drop (nat (i + n)) all)"
      by (subst d) (simp add: List.map_filter_def)
    have "length all - nat (i + n) < fuel" using Suc.prems True assms by linarith
    from Suc.IH[OF _ this, of "acc @ List.map_filter directory ?c" w1] Suc.prems(1) assms
    show ?thesis using True by (simp add: js_slice_batch[OF Suc.prems(1) True assms] b m)
  qed (simp add: List.map_filter_def)
qed simp

lemma loop_nonpositive:
  assumes "n \<le> 0" "all \<noteq> []"
  shows "i \<le> 0 \<Longrightarrow> match_loop (\<lambda>chunk. batchMatchContacts base fetch chunk tok) all n fuel i acc w = None"
proof (induction fuel arbitrary: i acc w)
  case (Suc fuel)
  obtain w1 where b: "batchMatchContacts base fetch (js_slice all i (i + n)) tok w
      = (Ret (List.map_filter directory (js_slice all i (i + n))), w1)"
    using batch by blast
  have "i < int (length all)" using Suc.prems assms(2) by (cases all) auto
  with Suc.IH[of "i + n"] Suc.prems assms show ?case by (simp add: b)
qed simp

end

lemma length_object_keys: "length (object_keys m) = length m"
  using sum_length_filter_compl[of is_index "map fst m"] by (simp add: object_keys_def)

lemma set_object_keys: "set (object_keys m) = fst ` set m"
  by (auto simp: object_keys_def)

text \<open>
  C18: The batches are invisible: against a backend that answers from a directory,
  \<open>fetchMatchedContacts\<close> returns, for every positive batch size, the directory's matches of all the
  hashes of the device joined with the local names, and it returns after at most one test of the
  loop more than there are hashes; with a batch size that is not positive and at least one
  hash it never returns.
\<close>

theorem batching_invisible:
  assumes "contact_backend fetch directory" and "buildPhoneHashMap digest sched cs = Some (Ret m)"
  shows "(1 \<le> (case sz of None \<Rightarrow> 500 | Some n \<Rightarrow> n) \<and> length m < fuel \<longrightarrow>
      (\<exists>w'. fetchMatchedContacts base fetch digest sched (Ret ''granted'') cs fuel tok sz w
        = Some (Ret (List.map_filter (merge_match m) (List.map_filter directory (object_keys m))), w')))
    \<and> (n \<le> 0 \<and> m \<noteq> [] \<longrightarrow> fetchMatchedContacts base fetch digest sched (Ret ''granted'') cs fuel tok (Some n) w = None)"
proof (intro conjI impI)
  have p: "cp_granted (requestContactsPermission (Ret ''granted''))" by (simp add: requestContactsPermission_def)
  define all where "all = object_keys m"
  let ?b = "\<lambda>chunk. batchMatchContacts base fetch chunk tok"
  have f: "fetchMatchedContacts base fetch digest sched (Ret ''granted'') cs fuel tok sz' w
      = (if all = [] then Some (Ret [], w) else map_option (\<lambda>(r, w'). (case r of Throw e \<Rightarrow> Throw e
               | Ret allMatches \<Rightarrow> Ret (List.map_filter (merge_match m) allMatches), w'))
             (match_loop ?b all (case sz' of None \<Rightarrow> 500 | Some n \<Rightarrow> n) fuel 0 [] w))" for sz'
    using p by (simp add: fetchMatchedContacts_def assms(2) all_def Let_def)
  {
    assume sz: "1 \<le> (case sz of None \<Rightarrow> 500 | Some n \<Rightarrow> n) \<and> length m < fuel"
    then obtain w' where "match_loop ?b all (case sz of None \<Rightarrow> 500 | Some n \<Rightarrow> n) fuel 0 [] w
        = Some (Ret (List.map_filter directory all), w')"
      using contact_backend.loop[OF assms(1), of "case sz of None \<Rightarrow> 500 | Some n \<Rightarrow> n" 0 all fuel base tok "[]" w]
        length_object_keys[of m]
      unfolding all_def by auto
    then show "\<exists>w'. fetchMatchedContacts base fetch digest sched (Ret ''granted'') cs fuel tok sz w
        = Some (Ret (List.map_filter (merge_match m) (List.map_filter directory (object_keys m))), w')"
      unfolding f all_def[symmetric] by (auto simp: List.map_filter_def)
  }
  assume n: "n \<le> 0 \<and> m \<noteq> []"
  then have "all \<noteq> []" using length_object_keys[of m] by (auto simp: all_def)
  then show "fetchMatchedContacts base fetch digest sched (Ret ''granted'') cs fuel tok (Some n) w = None"
    unfolding f using n contact_backend.loop_nonpositive[OF assms(1), of n all 0] by simp
qed

definition bo_match :: BackendContactMatch where
  "bo_match = \<lparr>bm_phone_hash = ''0a'', bm_username = ''bo'', bm_address = ''GBO'', bm_avatar_url = None\<rparr>"

theorem batching_invisible_witness:
  "fetchMatchedContacts [] (dir_fetch [''0a'' \<mapsto> bo_match]) toy_digest [1, 0, 0] (Ret ''granted'') (Ret two_friends) 2 None (Some 0) 0 = None
   \<and> (\<exists>w'. fetchMatchedContacts [] (dir_fetch [''0a'' \<mapsto> bo_match]) toy_digest [1, 0, 0] (Ret ''granted'') (Ret two_friends) 2 None (Some 7) 0
        = Some (Ret [\<lparr>mc_contactName = ''Bo'', mc_username = ''bo'', mc_address = ''GBO'', mc_phoneNumber = ''8012345678'', mc_avatarUrl = None\<rparr>], w'))"
proof -
  let ?m = "[(''0a'', \<lparr>lc_contactName = ''Bo'', lc_phoneNumber = ''8012345678''\<rparr>)]"
  have k: "List.map_filter (merge_match ?m) (List.map_filter [''0a'' \<mapsto> bo_match] (object_keys ?m))
      = [\<lparr>mc_contactName = ''Bo'', mc_username = ''bo'', mc_address = ''GBO'', mc_phoneNumber = ''8012345678'', mc_avatarUrl = None\<rparr>]"
    by (simp add: object_keys_def is_index_def is_digit_def List.map_filter_def merge_match_def bo_match_def)
  from batching_invisible[OF dir_backend.contact_backend_axioms[of "[''0a'' \<mapsto> bo_match]"] two_friends_run, of "Some 7" 2 "[]" None 0 0]
  show ?thesis unfolding k by simp
qed

section \<open>The fallback hash\<close>

text \<open>
  The 32-bit FNV-1a hash the fallback is named after.  The two agree on a round whose signed state is
  at most \<open>2 ^ 28\<close> in magnitude; beyond it the product may not fit in the 53 bits of a double.
\<close>

definition fnv1a_round :: "32 word \<Rightarrow> char \<Rightarrow> 32 word" where
  "fnv1a_round h c = (h XOR word_of_nat (of_char c)) * 16777619"

lemma fnv_round_small:
  assumes "\<bar>sint (h XOR word_of_nat (of_char c))\<bar> \<le> 2 ^ 28"
  shows "fnv_round h c = fnv1a_round h c"
proof -
  let ?x = "h XOR word_of_nat (of_char c)"
  have "\<bar>sint ?x * 16777619\<bar> \<le> 2 ^ 53" using assms by (simp add: abs_mult)
  then have "round_double (of_int (sint ?x * 16777619)) = of_int (sint ?x * 16777619)"
    by (intro round_double_exact[of _ "sint ?x * 16777619" 0]) simp_all
  then have "fnv_round h c = word_of_int (sint ?x * 16777619)" by (simp add: fnv_round_def del: of_int_mult)
  also have "\<dots> = ?x * 16777619" by (simp add: wi_hom_mult[symmetric])
  finally show ?thesis by (simp add: fnv1a_round_def)
qed

lemma fnv_fallback_deviates: "fnv_round 0x811c9dc5 (CHR ''8'') \<noteq> fnv1a_round 0x811c9dc5 (CHR ''8'')"
  by code_simp

end
