(* ===== verification/Biometric.thy ===== *)
theory Biometric
  imports Platform Js_Number "HOL-Library.List_Lexorder" "HOL-Library.Char_ord"
begin

text \<open>
  Biometric unlocking and the PIN fallback (\<open>src/services/biometricAuth.ts\<close>) and the React hook over
  them (\<open>src/hooks/useBiometric.ts\<close>).  The operations of \<open>expo-local-authentication\<close> are the fields
  of a record; \<open>expo-secure-store\<close> is the store \<open>getS\<close>, \<open>setS\<close>, \<open>delS\<close>, whose access options are not
  modelled; \<open>digest\<close> is \<open>crypto.subtle.digest\<close>.
\<close>

section \<open>Data\<close>

datatype BiometricType = FaceId | TouchId | Fingerprint | IrisScan | NoType

record BiometricStatus =
  bs_available :: bool
  bs_enrolled :: bool
  bs_types :: "BiometricType list"
  bs_hasChanged :: bool

record BiometricPromptOptions =
  po_title :: "string option"
  po_subtitle :: "string option"
  po_description :: "string option"
  po_cancelLabel :: "string option"
  po_fallbackLabel :: "string option"
  po_disableDeviceFallback :: "bool option"

definition no_prompt_options :: BiometricPromptOptions where
  "no_prompt_options = \<lparr>po_title = None, po_subtitle = None, po_description = None, po_cancelLabel = None,
     po_fallbackLabel = None, po_disableDeviceFallback = None\<rparr>"

record BiometricAuthResult =
  br_success :: bool
  br_error :: "string option"
  br_warning :: "string option"

definition BIOMETRIC_PREFERENCE_KEY :: string where "BIOMETRIC_PREFERENCE_KEY = ''biometric_auth_enabled''"
definition BIOMETRIC_ENROLLED_HASH_KEY :: string where "BIOMETRIC_ENROLLED_HASH_KEY = ''biometric_enrolled_hash''"
definition SECURE_STORAGE_KEY :: string where "SECURE_STORAGE_KEY = ''wallet_secure_key''"
definition PIN_STORAGE_KEY :: string where "PIN_STORAGE_KEY = ''fallback_pin_hash''"
definition PIN_ATTEMPTS_KEY :: string where "PIN_ATTEMPTS_KEY = ''pin_attempts_remaining''"
definition MAX_PIN_ATTEMPTS :: int where "MAX_PIN_ATTEMPTS = 5"

datatype prompt_context = WalletAccess | PaymentConfirm | PrivateKeyView | SeedPhraseView | SecuritySettings | SendPayment

definition prompt_text :: "string \<Rightarrow> string \<Rightarrow> string \<Rightarrow> BiometricPromptOptions" where
  "prompt_text t s d = no_prompt_options\<lparr>po_title := Some t, po_subtitle := Some s, po_description := Some d\<rparr>"

fun PROMPT_CONTEXTS :: "prompt_context \<Rightarrow> BiometricPromptOptions" where
  "PROMPT_CONTEXTS WalletAccess = prompt_text ''Unlock Wallet'' ''Access your Stellar wallet''
     ''Authenticate to view your balance and transactions''"
| "PROMPT_CONTEXTS PaymentConfirm = prompt_text ''Confirm Payment'' ''Authorize transaction''
     ''Authenticate to sign and send this payment''"
| "PROMPT_CONTEXTS PrivateKeyView = prompt_text ''View Private Key'' ''High security access''
     ''Authenticate to reveal your private key. Never share this.''"
| "PROMPT_CONTEXTS SeedPhraseView = prompt_text ''View Recovery Phrase'' ''High security access''
     ''Authenticate to reveal your 12-word recovery phrase. Keep it secret.''"
| "PROMPT_CONTEXTS SecuritySettings = prompt_text ''Security Settings'' ''Change authentication''
     ''Authenticate to modify your security preferences''"
| "PROMPT_CONTEXTS SendPayment = prompt_text ''Send Payment'' ''Authorize transfer''
     ''Authenticate to confirm this payment''"

section \<open>The device\<close>

text \<open>What \<open>authenticateAsync\<close> is asked, what it answers, and the operations of the package.\<close>

record auth_request =
  ar_promptMessage :: string
  ar_subTitle :: "string option"
  ar_description :: "string option"
  ar_cancelLabel :: string
  ar_fallbackLabel :: string
  ar_disableDeviceFallback :: bool
  ar_requireConfirmation :: bool

record auth_answer =
  aa_success :: bool
  aa_error :: "string option"

record 'w local_auth =
  la_hasHardware :: "('w, bool) io"
  la_isEnrolled :: "('w, bool) io"
  la_types :: "('w, int list) io"
  la_authenticate :: "auth_request \<Rightarrow> ('w, auth_answer) io"

text \<open>The values of \<open>AuthenticationType\<close>.\<close>

definition type_of_code :: "int \<Rightarrow> BiometricType" where
  "type_of_code t = (if t = 2 then FaceId else if t = 1 then Fingerprint else if t = 3 then IrisScan else NoType)"

text \<open>\<open>btoa\<close> on a string of bytes.\<close>

definition b64_char :: "nat \<Rightarrow> char" where
  "b64_char n = (if n < 26 then char_of (65 + n) else if n < 52 then char_of (71 + n)
     else if n < 62 then char_of (n - 4) else if n = 62 then CHR ''+'' else CHR ''/'')"

fun b64 :: "nat list \<Rightarrow> string" where
  "b64 [] = []"
| "b64 [a] = [b64_char (a div 4), b64_char (a mod 4 * 16), CHR ''='', CHR ''='']"
| "b64 [a, b] = [b64_char (a div 4), b64_char (a mod 4 * 16 + b div 16), b64_char (b mod 16 * 4), CHR ''='']"
| "b64 (a # b # c # xs) = b64_char (a div 4) # b64_char (a mod 4 * 16 + b div 16)
     # b64_char (b mod 16 * 4 + c div 64) # b64_char (c mod 64) # b64 xs"

definition btoa :: "string \<Rightarrow> string" where
  "btoa s = b64 (map of_char s)"

section \<open>Status and prompt\<close>

text \<open>\<open>types.sort()\<close> compares the texts of the numbers.\<close>

definition getEnrollmentHash :: "'w local_auth \<Rightarrow> ('w, string) io" where
  "getEnrollmentHash la = bnd (la_types la) (\<lambda>types. bnd (la_isEnrolled la) (\<lambda>enrolled.
     ret (btoa ((if enrolled then ''true'' else ''false'') @ ''-'' @ join '','' (sort (map show_int types))))))"

definition checkBiometricStatus ::
  "'w local_auth \<Rightarrow> (string \<Rightarrow> 'w \<Rightarrow> string option res) \<Rightarrow> ('w, BiometricStatus) io" where
  "checkBiometricStatus la getS =
     bnd (la_hasHardware la) (\<lambda>hasHardware. bnd (la_isEnrolled la) (\<lambda>isEnrolled.
     bnd (la_types la) (\<lambda>supportedTypes. bnd (getEnrollmentHash la) (\<lambda>currentHash.
     bnd (reads (getS BIOMETRIC_ENROLLED_HASH_KEY)) (\<lambda>storedHash.
       ret \<lparr>bs_available = hasHardware, bs_enrolled = isEnrolled,
         bs_types = filter (\<lambda>t. t \<noteq> NoType) (map type_of_code supportedTypes),
         bs_hasChanged = (storedHash \<noteq> None \<and> storedHash \<noteq> Some currentHash)\<rparr>)))))"

definition auth_request :: "bool \<Rightarrow> BiometricPromptOptions \<Rightarrow> auth_request" where
  "auth_request android o' = \<lparr>ar_promptMessage = or_else (po_title o') ''Authenticate'', ar_subTitle = po_subtitle o',
     ar_description = po_description o', ar_cancelLabel = or_else (po_cancelLabel o') ''Cancel'',
     ar_fallbackLabel = or_else (po_fallbackLabel o') ''Use PIN'',
     ar_disableDeviceFallback = (case po_disableDeviceFallback o' of None \<Rightarrow> False | Some b \<Rightarrow> b),
     ar_requireConfirmation = android\<rparr>"

definition refused :: "string \<Rightarrow> BiometricAuthResult" where
  "refused e = \<lparr>br_success = False, br_error = Some e, br_warning = None\<rparr>"

definition promptBiometric ::
  "'w local_auth \<Rightarrow> (string \<Rightarrow> 'w \<Rightarrow> string option res) \<Rightarrow> (string \<Rightarrow> string \<Rightarrow> ('w, unit) io) \<Rightarrow> bool
     \<Rightarrow> BiometricPromptOptions \<Rightarrow> ('w, BiometricAuthResult) io" where
  "promptBiometric la getS setS android options =
     bnd (checkBiometricStatus la getS) (\<lambda>st.
       if \<not> bs_available st then ret (refused ''Biometric authentication not available on this device'')
       else if \<not> bs_enrolled st then ret (refused
         ''No biometric credentials enrolled. Please set up Face ID/Touch ID/Fingerprint in device settings.'')
       else try_catch
         (bnd (la_authenticate la (auth_request android options)) (\<lambda>result.
           bnd (if aa_success result
                then bnd (getEnrollmentHash la) (\<lambda>newHash. setS BIOMETRIC_ENROLLED_HASH_KEY newHash)
                else ret ()) (\<lambda>_.
           ret \<lparr>br_success = aa_success result,
             br_error = (if aa_success result then None else Some (or_else (aa_error result) ''Authentication cancelled'')),
             br_warning = (if bs_hasChanged st then Some ''Biometric enrollment changed since last use'' else None)\<rparr>)))
         (\<lambda>e. ret (refused (message_or ''Authentication failed'' e))))"

definition promptForOperation ::
  "'w local_auth \<Rightarrow> (string \<Rightarrow> 'w \<Rightarrow> string option res) \<Rightarrow> (string \<Rightarrow> string \<Rightarrow> ('w, unit) io) \<Rightarrow> bool
     \<Rightarrow> prompt_context \<Rightarrow> ('w, BiometricAuthResult) io" where
  "promptForOperation la getS setS android operation = promptBiometric la getS setS android (PROMPT_CONTEXTS operation)"

section \<open>Preference and secure key\<close>

definition isBiometricEnabled :: "(string \<Rightarrow> 'w \<Rightarrow> string option res) \<Rightarrow> ('w, bool) io" where
  "isBiometricEnabled getS = bnd (reads (getS BIOMETRIC_PREFERENCE_KEY)) (\<lambda>v. ret (v = Some ''true''))"

definition setBiometricEnabled ::
  "'w local_auth \<Rightarrow> (string \<Rightarrow> string \<Rightarrow> ('w, unit) io) \<Rightarrow> (string \<Rightarrow> ('w, unit) io) \<Rightarrow> bool \<Rightarrow> ('w, unit) io" where
  "setBiometricEnabled la setS delS enabled =
     bnd (setS BIOMETRIC_PREFERENCE_KEY (if enabled then ''true'' else ''false'')) (\<lambda>_.
       if enabled then bnd (getEnrollmentHash la) (\<lambda>h. setS BIOMETRIC_ENROLLED_HASH_KEY h)
       else delS BIOMETRIC_ENROLLED_HASH_KEY)"

definition storeSecureKey :: "(string \<Rightarrow> string \<Rightarrow> ('w, unit) io) \<Rightarrow> string \<Rightarrow> ('w, unit) io" where
  "storeSecureKey setS key = setS SECURE_STORAGE_KEY key"

definition retrieveSecureKey :: "(string \<Rightarrow> 'w \<Rightarrow> string option res) \<Rightarrow> ('w, string option) io" where
  "retrieveSecureKey getS = reads (getS SECURE_STORAGE_KEY)"

definition deleteSecureKey :: "(string \<Rightarrow> ('w, unit) io) \<Rightarrow> ('w, unit) io" where
  "deleteSecureKey delS = delS SECURE_STORAGE_KEY"

section \<open>PIN fallback\<close>

definition hashPIN :: "(string \<Rightarrow> nat list res) \<Rightarrow> string \<Rightarrow> string res" where
  "hashPIN digest pin = (case digest (pin @ ''zaps-salt-v1'') of Throw e \<Rightarrow> Throw e
     | Ret hashArray \<Rightarrow> Ret (concat (map (\<lambda>b. padStart0 2 (toString16 b)) hashArray)))"

definition hasPINFallback :: "(string \<Rightarrow> 'w \<Rightarrow> string option res) \<Rightarrow> ('w, bool) io" where
  "hasPINFallback getS = bnd (reads (getS PIN_STORAGE_KEY)) (\<lambda>h. ret (h \<noteq> None))"

definition setupPIN ::
  "(string \<Rightarrow> nat list res) \<Rightarrow> (string \<Rightarrow> string \<Rightarrow> ('w, unit) io) \<Rightarrow> string \<Rightarrow> ('w, unit) io" where
  "setupPIN digest setS pin = (if length pin < 4 then throw (Error ''PIN must be at least 4 digits'')
     else bnd (reads (\<lambda>_. hashPIN digest pin)) (\<lambda>hash. bnd (setS PIN_STORAGE_KEY hash) (\<lambda>_.
       setS PIN_ATTEMPTS_KEY (show_int MAX_PIN_ATTEMPTS))))"

text \<open>\<open>String(n)\<close> for the integers \<open>parseInt\<close> yields below \<open>10 ^ 21\<close> and for the other numbers.\<close>

fun show_count :: "js_num \<Rightarrow> string" where
  "show_count NaN = ''NaN''"
| "show_count (Infty True) = ''Infinity''"
| "show_count (Infty False) = ''-Infinity''"
| "show_count (Fin q) = show_int \<lfloor>q\<rfloor>"

definition lockout :: js_error where
  "lockout = Error ''Too many failed attempts. Please re-authenticate with device password.''"

definition verifyPIN ::
  "(string \<Rightarrow> nat list res) \<Rightarrow> (string \<Rightarrow> 'w \<Rightarrow> string option res) \<Rightarrow> (string \<Rightarrow> string \<Rightarrow> ('w, unit) io)
     \<Rightarrow> string \<Rightarrow> ('w, bool) io" where
  "verifyPIN digest getS setS pin =
     bnd (reads (getS PIN_ATTEMPTS_KEY)) (\<lambda>attemptsStr.
       let attempts = (if truthy attemptsStr then parseInt (the attemptsStr) else Fin (of_int MAX_PIN_ATTEMPTS)) in
       if num_le attempts (Fin 0) then throw lockout
       else bnd (reads (getS PIN_STORAGE_KEY)) (\<lambda>storedHash.
         if \<not> truthy storedHash then ret False
         else bnd (reads (\<lambda>_. hashPIN digest pin)) (\<lambda>inputHash.
           let valid = (storedHash = Some inputHash) in
           bnd (setS PIN_ATTEMPTS_KEY (if \<not> valid then show_count (num_add attempts (Fin (- 1))) else show_int MAX_PIN_ATTEMPTS))
             (\<lambda>_. ret valid))))"

definition resetPINAttempts :: "(string \<Rightarrow> string \<Rightarrow> ('w, unit) io) \<Rightarrow> ('w, unit) io" where
  "resetPINAttempts setS = setS PIN_ATTEMPTS_KEY (show_int MAX_PIN_ATTEMPTS)"

section \<open>The hook\<close>

record 'w bio_hook =
  bh_env :: 'w
  bh_status :: "BiometricStatus option"
  bh_enabled :: bool
  bh_hasPIN :: bool
  bh_isLoading :: bool
  bh_error :: "string option"

definition bio_mounted :: "'w \<Rightarrow> 'w bio_hook" where
  "bio_mounted w = \<lparr>bh_env = w, bh_status = None, bh_enabled = False, bh_hasPIN = False, bh_isLoading = True, bh_error = None\<rparr>"

definition in_env :: "('w, 'a) io \<Rightarrow> ('w bio_hook, 'a) io" where
  "in_env m s = (case m (bh_env s) of (r, w') \<Rightarrow> (r, s\<lparr>bh_env := w'\<rparr>))"

text \<open>
  \<open>Promise.all\<close> over three reads: they do not disturb one another and are run in turn; when several
  fail, the error kept is that of the first.
\<close>

definition refreshStatus ::
  "'w local_auth \<Rightarrow> (string \<Rightarrow> 'w \<Rightarrow> string option res) \<Rightarrow> ('w bio_hook, unit) io" where
  "refreshStatus la getS = always (try_catch
     (bnd (modifies (\<lambda>s. s\<lparr>bh_isLoading := True, bh_error := None\<rparr>)) (\<lambda>_.
      bnd (in_env (checkBiometricStatus la getS)) (\<lambda>bioStatus.
      bnd (in_env (isBiometricEnabled getS)) (\<lambda>bioEnabled.
      bnd (in_env (hasPINFallback getS)) (\<lambda>pinSet.
        modifies (\<lambda>s. s\<lparr>bh_status := Some bioStatus, bh_enabled := bioEnabled, bh_hasPIN := pinSet\<rparr>))))))
     (\<lambda>e. modifies (\<lambda>s. s\<lparr>bh_error := Some (message_or ''Failed to check biometric status'' e)\<rparr>)))
     (\<lambda>s. s\<lparr>bh_isLoading := False\<rparr>)"

text \<open>\<open>enabled\<close> is the value of the render the callback was made in.\<close>

definition authenticate ::
  "'w local_auth \<Rightarrow> (string \<Rightarrow> 'w \<Rightarrow> string option res) \<Rightarrow> (string \<Rightarrow> string \<Rightarrow> ('w, unit) io) \<Rightarrow> bool
     \<Rightarrow> bool \<Rightarrow> prompt_context option \<Rightarrow> ('w bio_hook, bool) io" where
  "authenticate la getS setS android enabled operation =
     (if \<not> enabled then ret True
      else bnd (modifies (\<lambda>s. s\<lparr>bh_error := None\<rparr>)) (\<lambda>_.
        bnd (in_env (case operation of Some c \<Rightarrow> promptForOperation la getS setS android c
               | None \<Rightarrow> promptBiometric la getS setS android no_prompt_options)) (\<lambda>result.
        bnd (modifies (\<lambda>s. if \<not> br_success result \<and> truthy (br_error result) then s\<lparr>bh_error := br_error result\<rparr> else s))
          (\<lambda>_. ret (br_success result)))))"

definition authenticateWithPIN ::
  "(string \<Rightarrow> nat list res) \<Rightarrow> (string \<Rightarrow> 'w \<Rightarrow> string option res) \<Rightarrow> (string \<Rightarrow> string \<Rightarrow> ('w, unit) io)
     \<Rightarrow> string \<Rightarrow> ('w bio_hook, bool) io" where
  "authenticateWithPIN digest getS setS pin = try_catch
     (bnd (modifies (\<lambda>s. s\<lparr>bh_error := None\<rparr>)) (\<lambda>_.
      bnd (in_env (verifyPIN digest getS setS pin)) (\<lambda>valid.
      bnd (modifies (\<lambda>s. if \<not> valid then s\<lparr>bh_error := Some ''Invalid PIN''\<rparr> else s)) (\<lambda>_. ret valid))))
     (\<lambda>e. bnd (modifies (\<lambda>s. s\<lparr>bh_error := Some (message_or ''PIN verification failed'' e)\<rparr>)) (\<lambda>_. ret False))"

text \<open>The frame of the three callbacks that change the settings: report the error and rethrow.\<close>

definition changing :: "string \<Rightarrow> ('w bio_hook, unit) io \<Rightarrow> ('w bio_hook, unit) io" where
  "changing msg m = always (try_catch (bnd (modifies (\<lambda>s. s\<lparr>bh_isLoading := True\<rparr>)) (\<lambda>_. m))
     (\<lambda>e. bnd (modifies (\<lambda>s. s\<lparr>bh_error := Some (message_or msg e)\<rparr>)) (\<lambda>_. throw e)))
     (\<lambda>s. s\<lparr>bh_isLoading := False\<rparr>)"

definition enableBiometric ::
  "'w local_auth \<Rightarrow> (string \<Rightarrow> 'w \<Rightarrow> string option res) \<Rightarrow> (string \<Rightarrow> string \<Rightarrow> ('w, unit) io)
     \<Rightarrow> (string \<Rightarrow> ('w, unit) io) \<Rightarrow> bool \<Rightarrow> ('w bio_hook, unit) io" where
  "enableBiometric la getS setS delS android = changing ''Failed to enable biometric''
     (bnd (in_env (promptBiometric la getS setS android (prompt_text ''Enable Biometric Authentication''
          ''Confirm your identity'' ''You will use this to secure your wallet and payments''))) (\<lambda>result.
      if \<not> br_success result then throw (Error (or_else (br_error result) ''Biometric verification failed''))
      else bnd (in_env (setBiometricEnabled la setS delS True)) (\<lambda>_. modifies (\<lambda>s. s\<lparr>bh_enabled := True\<rparr>))))"

definition disableBiometric ::
  "'w local_auth \<Rightarrow> (string \<Rightarrow> string \<Rightarrow> ('w, unit) io) \<Rightarrow> (string \<Rightarrow> ('w, unit) io) \<Rightarrow> ('w bio_hook, unit) io" where
  "disableBiometric la setS delS = changing ''Failed to disable biometric''
     (bnd (in_env (setBiometricEnabled la setS delS False)) (\<lambda>_. modifies (\<lambda>s. s\<lparr>bh_enabled := False\<rparr>)))"

definition hookSetupPIN ::
  "(string \<Rightarrow> nat list res) \<Rightarrow> (string \<Rightarrow> string \<Rightarrow> ('w, unit) io) \<Rightarrow> string \<Rightarrow> ('w bio_hook, unit) io" where
  "hookSetupPIN digest setS pin = changing ''Failed to set PIN''
     (bnd (in_env (setupPIN digest setS pin)) (\<lambda>_. modifies (\<lambda>s. s\<lparr>bh_hasPIN := True\<rparr>)))"

section \<open>The PIN counter\<close>

lemma count_text:
  assumes "0 \<le> k" "k \<le> 5"
  shows "parseInt (show_int k) = Fin (of_int k)" "show_int k \<noteq> []"
proof -
  have "int (nat k) = k" "nat k \<le> 2 ^ 53" using assms by simp_all
  then show "parseInt (show_int k) = Fin (of_int k)"
    using parseInt_show_nat[of "nat k"] by (metis of_int_of_nat_eq)
  show "show_int k \<noteq> []" using assms by (simp add: show_int_def)
qed

lemma count_down:
  assumes "1 \<le> k" "k \<le> 5"
  shows "show_count (num_add (Fin (of_int k)) (Fin (- 1))) = show_int (k - 1)"
proof -
  have "to_num (of_int (k - 1)) = Fin (of_int (k - 1))" using assms by (intro to_num_of_int) auto
  then show ?thesis by simp
qed

lemma pin_keys: "PIN_STORAGE_KEY \<noteq> PIN_ATTEMPTS_KEY"
  by (simp add: PIN_STORAGE_KEY_def PIN_ATTEMPTS_KEY_def)

text \<open>The stored state in which \<open>k\<close> attempts are left for the PIN of hash \<open>h\<close>.\<close>

definition pin_state :: "(string \<Rightarrow> 'w \<Rightarrow> string option res) \<Rightarrow> string \<Rightarrow> int \<Rightarrow> 'w \<Rightarrow> bool" where
  "pin_state getS h k w \<longleftrightarrow> getS PIN_STORAGE_KEY w = Ret (Some h) \<and> getS PIN_ATTEMPTS_KEY w = Ret (Some (show_int k))"

text \<open>A series of attempts and their outcomes.\<close>

fun verify_all ::
  "(string \<Rightarrow> nat list res) \<Rightarrow> (string \<Rightarrow> 'w \<Rightarrow> string option res) \<Rightarrow> (string \<Rightarrow> string \<Rightarrow> ('w, unit) io)
     \<Rightarrow> string list \<Rightarrow> 'w \<Rightarrow> bool res list \<times> 'w" where
  "verify_all digest getS setS [] w = ([], w)"
| "verify_all digest getS setS (p # ps) w = (case verifyPIN digest getS setS p w of (r, w1) \<Rightarrow>
     (case verify_all digest getS setS ps w1 of (rs, w2) \<Rightarrow> (r # rs, w2)))"

text \<open>The secure store as the PIN uses it: a store of texts that does not fail.\<close>

locale pin_store = keychain getS setS delS
  for getS :: "string \<Rightarrow> 'w \<Rightarrow> string option res"
    and setS :: "string \<Rightarrow> string \<Rightarrow> ('w, unit) io"
    and delS :: "string \<Rightarrow> ('w, unit) io"
begin

lemmas store_ops = bnd_set get_after_set

lemma setup_state:
  assumes "setupPIN digest setS pin w = (Ret (), w')"
  shows "\<exists>h. hashPIN digest pin = Ret h \<and> pin_state getS h 5 w'"
proof -
  obtain h where h: "hashPIN digest pin = Ret h" "4 \<le> length pin"
    using assms by (auto simp: setupPIN_def bnd_apply split: if_splits res.splits)
  have "w' = snd (setS PIN_ATTEMPTS_KEY (show_int MAX_PIN_ATTEMPTS) (snd (setS PIN_STORAGE_KEY h w)))"
    using assms h by (simp add: setupPIN_def bnd_apply[of "reads _"] bnd_set)
  then show ?thesis using h pin_keys
    by (simp add: pin_state_def get_after_set MAX_PIN_ATTEMPTS_def)
qed

lemma verify_open:
  assumes "pin_state getS h k w" "1 \<le> k" "k \<le> 5" "hashPIN digest p = Ret h'" "h \<noteq> []"
  shows "\<exists>w'. verifyPIN digest getS setS p w = (Ret (h' = h), w') \<and> pin_state getS h (if h' = h then 5 else k - 1) w'"
proof -
  let ?t = "if h' = h then show_int 5 else show_int (k - 1)"
  have "\<not> num_le (Fin (of_int k)) (Fin 0)" using assms(2) by (simp add: num_le_def)
  then have "verifyPIN digest getS setS p w = (Ret (h' = h), snd (setS PIN_ATTEMPTS_KEY ?t w))"
    using assms count_text[of k] count_down[of k]
    by (auto simp: verifyPIN_def pin_state_def bnd_apply[of "reads _"] bnd_set Let_def MAX_PIN_ATTEMPTS_def)
  moreover have "pin_state getS h (if h' = h then 5 else k - 1) (snd (setS PIN_ATTEMPTS_KEY ?t w))"
    using assms(1) pin_keys by (simp add: pin_state_def get_after_set)
  ultimately show ?thesis by blast
qed

lemma verify_locked:
  assumes "pin_state getS h 0 w"
  shows "verifyPIN digest getS setS p w = (Throw lockout, w)"
  using assms count_text[of 0] by (simp add: verifyPIN_def pin_state_def bnd_apply num_le_def)

lemma verify_all_locked:
  "pin_state getS h 0 w \<Longrightarrow> verify_all digest getS setS ps w = (replicate (length ps) (Throw lockout), w)"
  by (induction ps) (simp_all add: verify_locked)

lemma verify_all_wrong:
  assumes "h \<noteq> []"
  shows "pin_state getS h k w \<Longrightarrow> 0 \<le> k \<Longrightarrow> k \<le> 5 \<Longrightarrow> \<forall>p \<in> set ps. \<exists>h'. hashPIN digest p = Ret h' \<and> h' \<noteq> h \<Longrightarrow>
    \<exists>w'. verify_all digest getS setS ps w =
        (replicate (min (nat k) (length ps)) (Ret False) @ replicate (length ps - nat k) (Throw lockout), w')
      \<and> pin_state getS h (max 0 (k - int (length ps))) w'"
proof (induction ps arbitrary: k w)
  case (Cons p ps)
  show ?case
  proof (cases "k = 0")
    case True
    with Cons.prems show ?thesis using verify_all_locked[of h w digest "p # ps"] by simp
  next
    case False
    obtain h' where h': "hashPIN digest p = Ret h'" "h' \<noteq> h" using Cons.prems(4) by auto
    obtain w1 where v: "verifyPIN digest getS setS p w = (Ret False, w1)" "pin_state getS h (k - 1) w1"
      using verify_open[OF Cons.prems(1) _ Cons.prems(3) h'(1) assms] h'(2) False Cons.prems(2) by auto
    obtain w' where i: "verify_all digest getS setS ps w1 =
        (replicate (min (nat (k - 1)) (length ps)) (Ret False) @ replicate (length ps - nat (k - 1)) (Throw lockout), w')"
      "pin_state getS h (max 0 (k - 1 - int (length ps))) w'"
      using Cons.IH[OF v(2)] Cons.prems False by auto
    have "nat k = Suc (nat (k - 1))" using Cons.prems(2) False by simp
    then show ?thesis using i by (simp add: v(1) algebra_simps)
  qed
qed simp

end

interpretation pins: pin_store mem_getItem mem_setItem mem_removeItem
  by unfold_locales

text \<open>
  C13: The PIN fallback allows five wrong attempts.  After a successful \<open>setupPIN\<close>, a series of
  wrong PINs is answered \<open>false\<close> five times and then refused; the right PIN is accepted while
  fewer than five wrong ones were tried, and refused like any other afterwards.  The keychain is one
  that works (\<open>pin_store\<close>): of an operation it rejects nothing is claimed.
\<close>

theorem pin_lockout:
  assumes "pin_store getS setS delS" and "setupPIN digest setS pin w0 = (Ret (), w)"
    and "hashPIN digest pin = Ret h" "h \<noteq> []"
    and "\<forall>p \<in> set ps. \<exists>h'. hashPIN digest p = Ret h' \<and> h' \<noteq> h"
    and "verify_all digest getS setS ps w = (rs, w')"
  shows "rs = replicate (min 5 (length ps)) (Ret False) @ replicate (length ps - 5) (Throw lockout)
    \<and> fst (verifyPIN digest getS setS pin w') = (if length ps < 5 then Ret True else Throw lockout)"
proof -
  have st: "pin_state getS h 5 w" using pin_store.setup_state[OF assms(1,2)] assms(3) by auto
  obtain v where v: "verify_all digest getS setS ps w = (replicate (min 5 (length ps)) (Ret False)
      @ replicate (length ps - 5) (Throw lockout), v)" "pin_state getS h (max 0 (5 - int (length ps))) v"
    using pin_store.verify_all_wrong[OF assms(1,4) st _ _ assms(5)] by auto
  then have e: "rs = replicate (min 5 (length ps)) (Ret False) @ replicate (length ps - 5) (Throw lockout)" "w' = v"
    using assms(6) by auto
  show ?thesis
  proof (cases "length ps < 5")
    case True
    with v(2) have "pin_state getS h (5 - int (length ps)) v" by (simp add: max_def)
    from pin_store.verify_open[OF assms(1) this _ _ assms(3,4)] True e show ?thesis by fastforce
  next
    case False
    then have "max 0 (5 - int (length ps)) = 0" by simp
    with v(2) have "pin_state getS h 0 v" by metis
    from pin_store.verify_locked[OF assms(1) this] False e show ?thesis by simp
  qed
qed

definition pin_digest :: "string \<Rightarrow> nat list res" where
  "pin_digest s = Ret (map of_char (take 4 s))"

theorem pin_lockout_witness:
  "fst (verify_all pin_digest mem_getItem mem_setItem [''0000'', ''1111''] (snd (setupPIN pin_digest mem_setItem ''1234'' Map.empty)))
     = [Ret False, Ret False]"
proof -
  have h: "hashPIN pin_digest ''1234'' = Ret ''31323334''" "hashPIN pin_digest ''0000'' = Ret ''30303030''"
    "hashPIN pin_digest ''1111'' = Ret ''31313131''" by code_simp+
  obtain w where s: "setupPIN pin_digest mem_setItem ''1234'' Map.empty = (Ret (), w)"
    by (simp add: setupPIN_def bnd_apply h mem_setItem_def)
  obtain rs w' where v: "verify_all pin_digest mem_getItem mem_setItem [''0000'', ''1111''] w = (rs, w')" by fastforce
  have "\<forall>p \<in> set [''0000'', ''1111'']. \<exists>h'. hashPIN pin_digest p = Ret h' \<and> h' \<noteq> ''31323334''" by (simp add: h)
  from pin_lockout[OF pins.pin_store_axioms s h(1) _ this v] have "rs = [Ret False, Ret False]" by (simp add: numeral_2_eq_2)
  then show ?thesis unfolding s snd_conv v by simp
qed

text \<open>A counter that is no number is never exhausted: attempts stay unlimited.\<close>

lemma malformed_counter_never_locks:
  assumes "pin_store getS setS delS" "getS PIN_ATTEMPTS_KEY w = Ret (Some ''NaN'')" "getS PIN_STORAGE_KEY w = Ret (Some h)"
    "hashPIN digest p = Ret h'" "h' \<noteq> h" "h \<noteq> []"
  shows "\<exists>w'. verifyPIN digest getS setS p w = (Ret False, w') \<and> getS PIN_ATTEMPTS_KEY w' = Ret (Some ''NaN'')"
proof -
  have n: "parseInt ''NaN'' = NaN" by code_simp
  have "verifyPIN digest getS setS p w = (Ret False, snd (setS PIN_ATTEMPTS_KEY ''NaN'' w))"
    using assms(2-6) by (simp add: pin_store.store_ops(1)[OF assms(1)] verifyPIN_def n bnd_apply[of "reads _"] num_le_def Let_def)
  then show ?thesis using pin_store.store_ops(2)[OF assms(1)] by simp
qed

section \<open>The gate\<close>

lemma prompt_success:
  assumes "promptBiometric la getS setS android o' w = (Ret r, w')" "br_success r"
  shows "\<exists>st w1 a w2. checkBiometricStatus la getS w = (Ret st, w1) \<and> bs_available st \<and> bs_enrolled st
    \<and> la_authenticate la (auth_request android o') w1 = (Ret a, w2) \<and> aa_success a
    \<and> (\<exists>h w3. getEnrollmentHash la w2 = (Ret h, w3) \<and> setS BIOMETRIC_ENROLLED_HASH_KEY h w3 = (Ret (), w'))"
  using assms
  by (auto simp: promptBiometric_def bnd_apply try_catch_apply refused_def Let_def
      split: prod.splits res.splits if_splits)

text \<open>
  With biometrics enabled, \<open>authenticate\<close> answers \<open>true\<close> only after the device reported hardware
  and an enrolment and the system prompt, with the texts of the operation, succeeded, and only
  once the new enrolment hash is stored; it answers \<open>false\<close> or rejects otherwise.
\<close>

theorem gate_needs_prompt:
  assumes "authenticate la getS setS android True operation s = (Ret True, s')"
  shows "\<exists>st w1 a w2 h w3. checkBiometricStatus la getS (bh_env s) = (Ret st, w1) \<and> bs_available st \<and> bs_enrolled st
    \<and> la_authenticate la (auth_request android (case operation of Some c \<Rightarrow> PROMPT_CONTEXTS c | None \<Rightarrow> no_prompt_options)) w1 = (Ret a, w2)
    \<and> aa_success a \<and> getEnrollmentHash la w2 = (Ret h, w3) \<and> setS BIOMETRIC_ENROLLED_HASH_KEY h w3 = (Ret (), bh_env s')"
proof -
  let ?o = "case operation of Some c \<Rightarrow> PROMPT_CONTEXTS c | None \<Rightarrow> no_prompt_options"
  have eq: "(case operation of Some c \<Rightarrow> promptForOperation la getS setS android c
               | None \<Rightarrow> promptBiometric la getS setS android no_prompt_options) = promptBiometric la getS setS android ?o"
    by (simp add: promptForOperation_def split: option.splits)
  obtain r w' where "promptBiometric la getS setS android ?o (bh_env s) = (Ret r, w')" "br_success r" "bh_env s' = w'"
    using assms by (auto simp: authenticate_def eq bnd_apply in_env_def split: prod.splits res.splits if_splits)
  from prompt_success[OF this(1,2)] this(3) show ?thesis by blast
qed

definition dev_auth :: "(string \<rightharpoonup> string) local_auth" where
  "dev_auth = \<lparr>la_hasHardware = ret True, la_isEnrolled = ret True, la_types = ret [2, 1],
     la_authenticate = (\<lambda>_. ret \<lparr>aa_success = True, aa_error = None\<rparr>)\<rparr>"

lemma dev_auth_run: "\<exists>s'. authenticate dev_auth mem_getItem mem_setItem False True None (bio_mounted Map.empty) = (Ret True, s')"
  by (simp add: authenticate_def promptBiometric_def checkBiometricStatus_def getEnrollmentHash_def dev_auth_def in_env_def
      bio_mounted_def bnd_apply try_catch_apply mem_getItem_def mem_setItem_def)

theorem gate_needs_prompt_witness:
  "\<exists>st w1. checkBiometricStatus dev_auth mem_getItem (bh_env (bio_mounted Map.empty)) = (Ret st, w1) \<and> bs_enrolled st"
proof -
  obtain s' where "authenticate dev_auth mem_getItem mem_setItem False True None (bio_mounted Map.empty) = (Ret True, s')"
    using dev_auth_run by blast
  from gate_needs_prompt[OF this] show ?thesis by blast
qed

text \<open>
  The gate of the hook fails open.  Until \<open>refreshStatus\<close> has succeeded the hook's \<open>enabled\<close> is
  false, whatever the stored preference: a freshly mounted component authenticates without any
  prompt, and when the device's status cannot be read this stays so.
\<close>

theorem gate_fails_open:
  "authenticate la getS setS android (bh_enabled (bio_mounted w)) operation (bio_mounted w) = (Ret True, bio_mounted w)
   \<and> (\<forall>e w1. checkBiometricStatus la getS w = (Throw e, w1) \<longrightarrow>
        (let s1 = snd (refreshStatus la getS (bio_mounted w)) in
         bh_env s1 = w1 \<and> \<not> bh_isLoading s1 \<and> bh_error s1 = Some (message_or ''Failed to check biometric status'' e)
         \<and> authenticate la getS setS android (bh_enabled s1) operation s1 = (Ret True, s1)))"
  by (simp add: authenticate_def bio_mounted_def refreshStatus_def always_apply try_catch_apply bnd_apply in_env_def)

theorem gate_fails_open_witness:
  "let la = dev_auth\<lparr>la_hasHardware := throw storage_error\<rparr>;
       w = [BIOMETRIC_PREFERENCE_KEY \<mapsto> ''true''];
       s1 = snd (refreshStatus la mem_getItem (bio_mounted w))
   in isBiometricEnabled mem_getItem w = (Ret True, w)
     \<and> authenticate la mem_getItem mem_setItem False (bh_enabled s1) (Some SeedPhraseView) s1 = (Ret True, s1)"
proof -
  let ?la = "dev_auth\<lparr>la_hasHardware := throw storage_error\<rparr>" and ?w = "[BIOMETRIC_PREFERENCE_KEY \<mapsto> ''true'']"
  have c: "checkBiometricStatus ?la mem_getItem ?w = (Throw storage_error, ?w)"
    by (simp add: checkBiometricStatus_def dev_auth_def bnd_apply)
  from gate_fails_open[of ?la mem_getItem mem_setItem False ?w "Some SeedPhraseView"] c show ?thesis
    by (simp add: Let_def isBiometricEnabled_def bnd_apply mem_getItem_def)
qed

end
