(* ===== verification/Wallet_Security.thy ===== *)
theory Wallet_Security
  imports Js_Number Platform "HOL-Library.Word"
begin

text \<open>
  \<open>mobileapp/src/services/walletSecurity.ts\<close>: mnemonics, SEP-0005 key derivation, the keys of the
  accounts in the keychain, the account counter and the clipboard timer.  The BIP39 package, the
  HMAC and the Stellar key pairs are the fields of \<open>wallet_crypto\<close>; the keychain operations
  \<open>getS\<close>, \<open>setS\<close> and \<open>delS\<close> are arguments (the accessibility option they all carry is left out).
\<close>

type_synonym bytes = "8 word list"

record ('w, 'k) wallet_crypto =
  bip_generate :: "int \<Rightarrow> ('w, string) io"
  bip_validate :: "string \<Rightarrow> bool"
  bip_seed :: "string \<Rightarrow> bytes"
  hmac_sha512 :: "bytes \<Rightarrow> bytes \<Rightarrow> bytes"
  kp_from_seed :: "bytes \<Rightarrow> 'k"
  kp_from_secret :: "string \<Rightarrow> 'k res"
  kp_secret :: "'k \<Rightarrow> string"
  kp_public :: "'k \<Rightarrow> string"

section \<open>Storage keys\<close>

text \<open>An account index or counter in a template string.\<close>

fun index_str :: "js_num \<Rightarrow> string" where
  "index_str (Fin x) = show_int \<lfloor>x\<rfloor>"
| "index_str NaN = ''NaN''"
| "index_str (Infty b) = (if b then ''Infinity'' else ''-Infinity'')"

definition MNEMONIC_KEY :: string where "MNEMONIC_KEY = ''wallet_mnemonic_v1''"

definition secretKeyStorageKey :: "js_num \<Rightarrow> string" where
  "secretKeyStorageKey accountIndex = ''wallet_secret_key_v1_'' @ index_str accountIndex"

definition publicKeyStorageKey :: "js_num \<Rightarrow> string" where
  "publicKeyStorageKey accountIndex = ''wallet_public_key_v1_'' @ index_str accountIndex"

definition ACCOUNT_COUNT_KEY :: string where "ACCOUNT_COUNT_KEY = ''wallet_account_count_v1''"

record WalletAccount =
  wa_accountIndex :: js_num
  wa_publicKey :: string

record GeneratedWallet =
  gw_mnemonic :: string
  gw_accounts :: "WalletAccount list"

section \<open>Mnemonics\<close>

definition generateMnemonic :: "('w, 'k) wallet_crypto \<Rightarrow> int \<Rightarrow> ('w, string) io" where
  "generateMnemonic C wordCount = bip_generate C (if wordCount = 12 then 128 else 256)"

text \<open>\<open>replace(/\s+/g, " ")\<close>.\<close>

function collapse :: "string \<Rightarrow> string" where
  "collapse [] = []"
| "collapse (c # s) = (if is_ws c then CHR '' '' # collapse (dropWhile is_ws s) else c # collapse s)"
  by pat_completeness auto
termination
  by (relation "measure length") (auto simp: less_Suc_eq_le length_dropWhile_le)

definition normalizePhrase :: "string \<Rightarrow> string" where
  "normalizePhrase mnemonic = collapse (toLowerCase (trim mnemonic))"

definition validateMnemonic :: "('w, 'k) wallet_crypto \<Rightarrow> string \<Rightarrow> bool" where
  "validateMnemonic C mnemonic = bip_validate C (normalizePhrase mnemonic)"

section \<open>Key derivation\<close>

text \<open>\<open>Buffer.writeUInt32BE\<close>: a value above the range is a \<open>RangeError\<close>, \<open>NaN\<close> is written as 0.\<close>

fun writeUInt32BE :: "js_num \<Rightarrow> bytes res" where
  "writeUInt32BE (Fin x) =
     (let n = \<lfloor>x\<rfloor> in
      if 4294967295 < x \<or> x < 0 then Throw (Error ''The value of \"value\" is out of range.'')
      else Ret [word_of_int (n div 16777216), word_of_int (n div 65536), word_of_int (n div 256), word_of_int n])"
| "writeUInt32BE NaN = Ret [0, 0, 0, 0]"
| "writeUInt32BE (Infty b) = Throw (Error ''The value of \"value\" is out of range.'')"

definition ascii_bytes :: "string \<Rightarrow> bytes" where
  "ascii_bytes s = map (\<lambda>c. of_nat (of_char c)) s"

text \<open>The 37 bytes that are hashed for one path component.\<close>

definition child_data :: "bytes \<Rightarrow> bytes \<Rightarrow> bytes" where
  "child_data key index = take 33 (0 # key @ replicate 32 0) @ index"

fun derive_path :: "(bytes \<Rightarrow> bytes \<Rightarrow> bytes) \<Rightarrow> bytes \<Rightarrow> bytes \<Rightarrow> js_num list \<Rightarrow> bytes res" where
  "derive_path hmac key chainCode [] = Ret key"
| "derive_path hmac key chainCode (index # path) = (case writeUInt32BE index of
      Throw e \<Rightarrow> Throw e
    | Ret be \<Rightarrow> (let result = hmac chainCode (child_data key be)
        in derive_path hmac (take 32 result) (drop 32 result) path))"

definition path_components :: "js_num \<Rightarrow> js_num list" where
  "path_components accountIndex = [Fin 0x8000002c, Fin 0x80000094, num_add (Fin 0x80000000) accountIndex]"

definition deriveStellarKey :: "('w, 'k) wallet_crypto \<Rightarrow> bytes \<Rightarrow> js_num \<Rightarrow> bytes res" where
  "deriveStellarKey C seed accountIndex =
     (let masterResult = hmac_sha512 C (ascii_bytes ''ed25519 seed'') seed
      in derive_path (hmac_sha512 C) (take 32 masterResult) (drop 32 masterResult) (path_components accountIndex))"

definition deriveKeypairFromMnemonic :: "('w, 'k) wallet_crypto \<Rightarrow> string \<Rightarrow> js_num \<Rightarrow> 'k res" where
  "deriveKeypairFromMnemonic C mnemonic accountIndex =
     (let normalized = normalizePhrase mnemonic in
      if \<not> bip_validate C normalized then Throw (Error ''Invalid mnemonic phrase'')
      else case deriveStellarKey C (bip_seed C normalized) accountIndex of
        Throw e \<Rightarrow> Throw e | Ret derivedKey \<Rightarrow> Ret (kp_from_seed C derivedKey))"

section \<open>Secure storage\<close>

definition storeMnemonic :: "(string \<Rightarrow> string \<Rightarrow> ('w, unit) io) \<Rightarrow> string \<Rightarrow> ('w, unit) io" where
  "storeMnemonic setS mnemonic = setS MNEMONIC_KEY mnemonic"

definition retrieveMnemonic :: "(string \<Rightarrow> 'w \<Rightarrow> string option res) \<Rightarrow> ('w, string option) io" where
  "retrieveMnemonic getS = reads (getS MNEMONIC_KEY)"

definition storeKeypair ::
  "('w, 'k) wallet_crypto \<Rightarrow> (string \<Rightarrow> string \<Rightarrow> ('w, unit) io) \<Rightarrow> 'k \<Rightarrow> js_num \<Rightarrow> ('w, unit) io" where
  "storeKeypair C setS keypair accountIndex =
     bnd (setS (secretKeyStorageKey accountIndex) (kp_secret C keypair))
       (\<lambda>_. setS (publicKeyStorageKey accountIndex) (kp_public C keypair))"

definition retrieveKeypair ::
  "('w, 'k) wallet_crypto \<Rightarrow> (string \<Rightarrow> 'w \<Rightarrow> string option res) \<Rightarrow> js_num \<Rightarrow> ('w, 'k option) io" where
  "retrieveKeypair C getS accountIndex =
     bnd (reads (getS (secretKeyStorageKey accountIndex))) (\<lambda>secret.
       if truthy secret then bnd (reads (\<lambda>_. kp_from_secret C (the secret))) (\<lambda>k. ret (Some k))
       else ret None)"

definition retrievePublicKey :: "(string \<Rightarrow> 'w \<Rightarrow> string option res) \<Rightarrow> js_num \<Rightarrow> ('w, string option) io" where
  "retrievePublicKey getS accountIndex = reads (getS (publicKeyStorageKey accountIndex))"

section \<open>Accounts\<close>

definition getAccountCount :: "(string \<Rightarrow> 'w \<Rightarrow> string option res) \<Rightarrow> ('w, js_num) io" where
  "getAccountCount getS = bnd (reads (getS ACCOUNT_COUNT_KEY)) (\<lambda>raw.
     ret (if truthy raw then parseInt (the raw) else Fin 0))"

definition incrementAccountCount ::
  "(string \<Rightarrow> 'w \<Rightarrow> string option res) \<Rightarrow> (string \<Rightarrow> string \<Rightarrow> ('w, unit) io) \<Rightarrow> ('w, js_num) io" where
  "incrementAccountCount getS setS = bnd (getAccountCount getS) (\<lambda>current.
     let nxt = num_add current (Fin 1) in
     bnd (setS ACCOUNT_COUNT_KEY (index_str nxt)) (\<lambda>_. ret nxt))"

text \<open>
  The rounds of \<open>for (let i = 0; i < count; i++)\<close>: none for \<open>NaN\<close>.  The counter in the keychain is at
  most 2048 bytes long and written by this module only, so an infinite count does not occur.
\<close>

fun rounds :: "js_num \<Rightarrow> nat" where
  "rounds (Fin x) = nat \<lceil>x\<rceil>"
| "rounds _ = 0"

abbreviation acct :: "nat \<Rightarrow> js_num" where
  "acct i \<equiv> Fin (of_nat i)"

fun list_loop ::
  "(string \<Rightarrow> 'w \<Rightarrow> string option res) \<Rightarrow> nat list \<Rightarrow> WalletAccount list \<Rightarrow> ('w, WalletAccount list) io" where
  "list_loop getS [] accounts = ret accounts"
| "list_loop getS (i # ns) accounts = bnd (retrievePublicKey getS (acct i)) (\<lambda>pk.
     list_loop getS ns (if truthy pk then accounts @ [\<lparr>wa_accountIndex = acct i, wa_publicKey = the pk\<rparr>] else accounts))"

definition listAccounts :: "(string \<Rightarrow> 'w \<Rightarrow> string option res) \<Rightarrow> ('w, WalletAccount list) io" where
  "listAccounts getS = bnd (getAccountCount getS) (\<lambda>count. list_loop getS [0..<rounds count] [])"

definition createNewWallet ::
  "('w, 'k) wallet_crypto \<Rightarrow> (string \<Rightarrow> string \<Rightarrow> ('w, unit) io) \<Rightarrow> int \<Rightarrow> ('w, GeneratedWallet) io" where
  "createNewWallet C setS wordCount =
     bnd (generateMnemonic C wordCount) (\<lambda>mnemonic.
       bnd (reads (\<lambda>_. deriveKeypairFromMnemonic C mnemonic (Fin 0))) (\<lambda>keypair.
         bnd (storeMnemonic setS mnemonic) (\<lambda>_.
           bnd (storeKeypair C setS keypair (Fin 0)) (\<lambda>_.
             bnd (setS ACCOUNT_COUNT_KEY ''1'') (\<lambda>_.
               ret \<lparr>gw_mnemonic = mnemonic,
                    gw_accounts = [\<lparr>wa_accountIndex = Fin 0, wa_publicKey = kp_public C keypair\<rparr>]\<rparr>)))))"

definition addAccount ::
  "('w, 'k) wallet_crypto \<Rightarrow> (string \<Rightarrow> 'w \<Rightarrow> string option res) \<Rightarrow> (string \<Rightarrow> string \<Rightarrow> ('w, unit) io) \<Rightarrow>
   ('w, WalletAccount) io" where
  "addAccount C getS setS =
     bnd (retrieveMnemonic getS) (\<lambda>mnemonic.
       if \<not> truthy mnemonic
       then throw (Error ''No wallet found. Please create or restore a wallet first.'')
       else bnd (getAccountCount getS) (\<lambda>newIndex.
         bnd (reads (\<lambda>_. deriveKeypairFromMnemonic C (the mnemonic) newIndex)) (\<lambda>keypair.
           bnd (storeKeypair C setS keypair newIndex) (\<lambda>_.
             bnd (incrementAccountCount getS setS) (\<lambda>_.
               ret \<lparr>wa_accountIndex = newIndex, wa_publicKey = kp_public C keypair\<rparr>)))))"

definition restoreWalletFromMnemonic ::
  "('w, 'k) wallet_crypto \<Rightarrow> (string \<Rightarrow> string \<Rightarrow> ('w, unit) io) \<Rightarrow> string \<Rightarrow> ('w, WalletAccount) io" where
  "restoreWalletFromMnemonic C setS mnemonic =
     (let normalized = normalizePhrase mnemonic in
      if \<not> bip_validate C normalized
      then throw (Error ''Invalid mnemonic phrase. Please check your words and try again.'')
      else bnd (reads (\<lambda>_. deriveKeypairFromMnemonic C normalized (Fin 0))) (\<lambda>keypair.
        bnd (storeMnemonic setS normalized) (\<lambda>_.
          bnd (storeKeypair C setS keypair (Fin 0)) (\<lambda>_.
            bnd (setS ACCOUNT_COUNT_KEY ''1'') (\<lambda>_.
              ret \<lparr>wa_accountIndex = Fin 0, wa_publicKey = kp_public C keypair\<rparr>)))))"

definition rotateKey ::
  "('w, 'k) wallet_crypto \<Rightarrow> (string \<Rightarrow> 'w \<Rightarrow> string option res) \<Rightarrow> (string \<Rightarrow> string \<Rightarrow> ('w, unit) io) \<Rightarrow>
   js_num \<Rightarrow> ('w, WalletAccount) io" where
  "rotateKey C getS setS i =
     bnd (retrieveMnemonic getS) (\<lambda>mnemonic.
       if \<not> truthy mnemonic then throw (Error ''No wallet mnemonic found.'')
       else bnd (reads (\<lambda>_. deriveKeypairFromMnemonic C (the mnemonic) i)) (\<lambda>keypair.
         bnd (storeKeypair C setS keypair i) (\<lambda>_.
           ret \<lparr>wa_accountIndex = i, wa_publicKey = kp_public C keypair\<rparr>)))"

definition hasWallet :: "(string \<Rightarrow> 'w \<Rightarrow> string option res) \<Rightarrow> ('w, bool) io" where
  "hasWallet getS = bnd (getAccountCount getS) (\<lambda>count. ret (num_less (Fin 0) count))"

fun delete_loop :: "(string \<Rightarrow> ('w, unit) io) \<Rightarrow> nat list \<Rightarrow> ('w, unit) io" where
  "delete_loop delS [] = ret ()"
| "delete_loop delS (i # ns) =
     bnd (delS (secretKeyStorageKey (acct i))) (\<lambda>_.
       bnd (delS (publicKeyStorageKey (acct i))) (\<lambda>_. delete_loop delS ns))"

definition deleteWallet ::
  "(string \<Rightarrow> 'w \<Rightarrow> string option res) \<Rightarrow> (string \<Rightarrow> ('w, unit) io) \<Rightarrow> ('w, unit) io" where
  "deleteWallet getS delS =
     bnd (getAccountCount getS) (\<lambda>count.
       bnd (delete_loop delS [0..<rounds count]) (\<lambda>_.
         bnd (delS MNEMONIC_KEY) (\<lambda>_. delS ACCOUNT_COUNT_KEY)))"

section \<open>The clipboard\<close>

definition CLIPBOARD_CLEAR_DELAY_MS :: int where "CLIPBOARD_CLEAR_DELAY_MS = 30000"

text \<open>
  The clipboard, the module variable \<open>clipboardClearTimer\<close>, the timers the runtime has pending
  (identifier and due time), the clock, and two ghosts: whether the text on the clipboard was put
  there by \<open>copyWithAutoClear\<close>, and when.
\<close>

record clip =
  board :: string
  clipboardClearTimer :: "nat option"
  pending :: "(nat \<times> int) list"
  clock :: int
  next_timer :: nat
  sensitive :: bool
  copied_at :: int

definition clearTimer :: "clip \<Rightarrow> clip" where
  "clearTimer s = (case clipboardClearTimer s of None \<Rightarrow> s
     | Some i \<Rightarrow> s\<lparr>pending := filter (\<lambda>p. fst p \<noteq> i) (pending s), clipboardClearTimer := None\<rparr>)"

definition copyWithAutoClear :: "string \<Rightarrow> clip \<Rightarrow> clip" where
  "copyWithAutoClear v s = (let s1 = clearTimer s in
     s1\<lparr>board := v, sensitive := True, copied_at := clock s,
        clipboardClearTimer := Some (next_timer s),
        pending := pending s1 @ [(next_timer s, clock s + CLIPBOARD_CLEAR_DELAY_MS)],
        next_timer := next_timer s + 1\<rparr>)"

text \<open>The cancel function it returns, and \<open>clearClipboard\<close>.\<close>

definition cancelCopy :: "clip \<Rightarrow> clip" where
  "cancelCopy s = (clearTimer s)\<lparr>board := [], sensitive := False\<rparr>"

definition clearClipboard :: "clip \<Rightarrow> clip" where
  "clearClipboard s = (clearTimer s)\<lparr>board := [], sensitive := False\<rparr>"

definition fire :: "nat \<times> int \<Rightarrow> clip \<Rightarrow> clip" where
  "fire p s = s\<lparr>board := [], sensitive := False, clipboardClearTimer := None\<rparr>"

text \<open>A millisecond passes, and the timers that are due fire.\<close>

definition tick :: "clip \<Rightarrow> clip" where
  "tick s = (let t = clock s + 1 in
     fold fire (filter (\<lambda>p. snd p \<le> t) (pending s))
       (s\<lparr>clock := t, pending := filter (\<lambda>p. t < snd p) (pending s)\<rparr>))"

inductive clip_step :: "clip \<Rightarrow> clip \<Rightarrow> bool" where
  copy: "clip_step s (copyWithAutoClear v s)"
| cancel: "clip_step s (cancelCopy s)"
| clear: "clip_step s (clearClipboard s)"
| other_app: "clip_step s (s\<lparr>board := v, sensitive := False\<rparr>)"
| time: "clip_step s (tick s)"

section \<open>Normal form of a mnemonic\<close>

lemma collapse_ws_free_hd: "t \<noteq> [] \<Longrightarrow> \<not> is_ws (hd t) \<Longrightarrow> collapse t \<noteq> [] \<and> hd (collapse t) = hd t"
  by (cases t) auto

lemma is_ws_space [simp]: "is_ws (CHR '' '')"
  by (simp add: is_ws_def)

lemma dropWhile_collapse: "dropWhile is_ws (collapse (dropWhile is_ws s)) = collapse (dropWhile is_ws s)"
proof (cases "dropWhile is_ws s")
  case Nil
  show ?thesis unfolding Nil by simp
next
  case (Cons c t)
  then have "\<not> is_ws c" by (metis hd_dropWhile list.discI list.sel(1))
  with Cons show ?thesis by simp
qed

lemma collapse_idem: "collapse (collapse s) = collapse s"
  by (induction s rule: collapse.induct) (auto simp: dropWhile_collapse)

lemma lower_collapse: "toLowerCase (collapse (toLowerCase s)) = collapse (toLowerCase s)"
proof -
  have "list_all (\<lambda>c. lower_char c = c) t \<Longrightarrow> list_all (\<lambda>c. lower_char c = c) (collapse t)" for t
  proof (induction t rule: collapse.induct)
    case (2 c s)
    have "list_all (\<lambda>c. lower_char c = c) (dropWhile is_ws s)"
      using 2(3) by (auto simp: list_all_iff dest: set_dropWhileD)
    with 2 show ?case by (auto simp: lower_char_def is_upper_def)
  qed simp
  moreover have "list_all (\<lambda>c. lower_char c = c) (toLowerCase s)"
    by (simp add: toLowerCase_def list_all_iff)
  ultimately have "list_all (\<lambda>c. lower_char c = c) (collapse (toLowerCase s))" by blast
  then show ?thesis unfolding toLowerCase_def[of "collapse _"] by (simp add: list_all_iff map_idI)
qed

lemma last_collapse: "t \<noteq> [] \<Longrightarrow> \<not> is_ws (last t) \<Longrightarrow> collapse t \<noteq> [] \<and> last (collapse t) = last t"
proof (induction t rule: collapse.induct)
  case (2 c s)
  show ?case
  proof (cases "is_ws c")
    case True
    have ne: "s \<noteq> []" using 2(3,4) True by (cases s) auto
    have "\<exists>x \<in> set s. \<not> is_ws x" using ne 2(4) by (metis last.simps last_in_set)
    then have d: "dropWhile is_ws s \<noteq> []" by (simp add: dropWhile_eq_Nil_conv)
    have l: "last (dropWhile is_ws s) = last s"
      using d by (metis last_appendR takeWhile_dropWhile_id)
    with 2(1)[OF True d] 2(4) ne True show ?thesis by simp
  next
    case False
    with 2 show ?thesis by (cases s) auto
  qed
qed simp

lemma trim_fix: "t = [] \<or> (\<not> is_ws (hd t) \<and> \<not> is_ws (last t)) \<Longrightarrow> trim t = t"
proof -
  assume t: "t = [] \<or> (\<not> is_ws (hd t) \<and> \<not> is_ws (last t))"
  have "dropWhile is_ws t = t" using t by (cases t) auto
  moreover have "dropWhile is_ws (rev t) = rev t" using t by (cases t rule: rev_cases) auto
  ultimately show ?thesis by (simp add: trim_def)
qed

lemma normalizePhrase_idem [simp]: "normalizePhrase (normalizePhrase m) = normalizePhrase m"
proof -
  let ?t = "toLowerCase (trim m)"
  have "?t = [] \<or> (\<not> is_ws (hd ?t) \<and> \<not> is_ws (last ?t))"
    using trim_hd_last[of m] by (auto simp: toLowerCase_def hd_map last_map)
  then have "collapse ?t = [] \<or> (\<not> is_ws (hd (collapse ?t)) \<and> \<not> is_ws (last (collapse ?t)))"
    using collapse_ws_free_hd[of ?t] last_collapse[of ?t] by (cases "?t = []") auto
  then have "trim (collapse ?t) = collapse ?t" by (rule trim_fix)
  then show ?thesis by (simp add: normalizePhrase_def lower_collapse collapse_idem)
qed

section \<open>Derivation\<close>

lemma top_byte: "(k :: int) < 4294967296 \<Longrightarrow> 2147483648 \<le> k \<Longrightarrow> 128 \<le> k div 16777216 mod 256"
  and top_byte_id: "(k :: int) < 4294967296 \<Longrightarrow> 0 \<le> k \<Longrightarrow> k div 16777216 mod 256 = k div 16777216"
proof -
  have d: "k = 16777216 * (k div 16777216) + k mod 16777216" "0 \<le> k mod 16777216" "k mod 16777216 < 16777216"
    by simp_all
  show id: "k div 16777216 mod 256 = k div 16777216" if "k < 4294967296" "0 \<le> k"
    using d that by (intro mod_pos_pos_trivial) linarith+
  show "128 \<le> k div 16777216 mod 256" if "k < 4294967296" "2147483648 \<le> k"
    using d that id by linarith
qed

lemma be32_inj:
  assumes "0 \<le> m" "m < 4294967296" "0 \<le> n" "n < 4294967296"
    and "writeUInt32BE (Fin (of_int m)) = writeUInt32BE (Fin (of_int n))"
  shows "m = n"
proof -
  have e: "uint (word_of_int k :: 8 word) = k mod 256" for k :: int by (simp add: uint_word_of_int)
  have r: "(4294967295 < (of_int k :: rat)) = (4294967295 < k)" for k :: int
    using of_int_less_iff[of 4294967295 k, where 'a = rat] by simp
  have b: "m div 16777216 mod 256 = n div 16777216 mod 256" "m div 65536 mod 256 = n div 65536 mod 256"
    "m div 256 mod 256 = n div 256 mod 256" "m mod 256 = n mod 256"
    using assms r by (auto dest: arg_cong[of _ _ uint] simp: e)
  have "k = 16777216 * (k div 16777216 mod 256) + 65536 * (k div 65536 mod 256) + 256 * (k div 256 mod 256) + k mod 256"
    if "0 \<le> k" "k < 4294967296" for k :: int
  proof -
    have "k div 256 div 256 = k div 65536" "k div 65536 div 256 = k div 16777216"
      by (simp_all flip: zdiv_zmult2_eq)
    moreover have "k div 16777216 mod 256 = k div 16777216"
      using that by (intro top_byte_id)
    ultimately show ?thesis
      using div_mult_mod_eq[of k 256] div_mult_mod_eq[of "k div 256" 256] div_mult_mod_eq[of "k div 65536" 256]
      by linarith
  qed
  with b assms(1-4) show ?thesis by metis
qed

lemma child_index:
  assumes "0 \<le> i" "i < 2147483648"
  shows "num_add (Fin 0x80000000) (Fin (of_int i)) = Fin (of_int (2147483648 + i))"
  using to_num_of_int[of "2147483648 + i"] assms by simp

text \<open>
  Derivation paths do not collide: for account indices from 0 to \<open>2 ^ 31 - 1\<close> the hardened index
  is written without wrap-around, 37 bytes are hashed for every 32-byte key, and different
  accounts hash different bytes; an index beyond that range is an error, not another account's
  key.
\<close>

theorem derivation_index_bounds:
  assumes "length key = 32" "0 \<le> i" "i < 2147483648" "0 \<le> j" "j < 2147483648"
  shows "\<exists>x y. writeUInt32BE (num_add (Fin 0x80000000) (Fin (of_int i))) = Ret x
      \<and> writeUInt32BE (num_add (Fin 0x80000000) (Fin (of_int j))) = Ret y
      \<and> length (child_data key x) = 37 \<and> 128 \<le> uint (hd x)
      \<and> (child_data key x = child_data key y \<longleftrightarrow> i = j)
      \<and> (\<forall>n. 2147483648 \<le> n \<and> n \<le> 2 ^ 52 \<longrightarrow> (\<exists>e. writeUInt32BE (num_add (Fin 0x80000000) (Fin (of_int n))) = Throw e))"
proof -
  have big: "\<exists>e. writeUInt32BE (num_add (Fin 0x80000000) (Fin (of_int n))) = Throw e"
    if "2147483648 \<le> n" "n \<le> 2 ^ 52" for n
  proof -
    have "num_add (Fin 0x80000000) (Fin (of_int n)) = Fin (of_int (2147483648 + n))"
      using to_num_of_int[of "2147483648 + n"] that by simp
    moreover have "(4294967295 :: rat) < of_int (2147483648 + n)"
      using of_int_less_iff[of 4294967295 "2147483648 + n", where 'a = rat] that by simp
    ultimately show ?thesis by (simp only: writeUInt32BE.simps Let_def if_True simp_thms) blast
  qed
  have ok: "\<exists>x. writeUInt32BE (num_add (Fin 0x80000000) (Fin (of_int k))) = Ret x \<and> length x = 4 \<and> 128 \<le> uint (hd x)"
    if "0 \<le> k" "k < 2147483648" for k
  proof -
    have "(4294967295 < (of_int (2147483648 + k) :: rat)) = (4294967295 < 2147483648 + k)"
      using of_int_less_iff[of 4294967295 "2147483648 + k", where 'a = rat] by simp
    moreover have "128 \<le> ((2147483648 + k) div 16777216) mod 256"
      using top_byte[of "2147483648 + k"] that by simp
    moreover have "\<lfloor>of_int (2147483648 + k) :: rat\<rfloor> = 2147483648 + k" by (rule floor_of_int)
    moreover have "\<not> (of_int (2147483648 + k) :: rat) < 0" using that by simp
    ultimately show ?thesis
      unfolding child_index[OF that] writeUInt32BE.simps Let_def using that by (simp add: uint_word_of_int)
  qed
  obtain x y where xy: "writeUInt32BE (num_add (Fin 0x80000000) (Fin (of_int i))) = Ret x"
      "writeUInt32BE (num_add (Fin 0x80000000) (Fin (of_int j))) = Ret y"
      "length x = 4" "length y = 4" "128 \<le> uint (hd x)" using ok assms by metis
  have "x = y \<longleftrightarrow> i = j"
    using be32_inj[of "2147483648 + i" "2147483648 + j"] xy assms(2-5)
      child_index[of i] child_index[of j] by auto
  with xy assms(1) big show ?thesis by (intro exI[of _ x] exI[of _ y]) (simp add: child_data_def)
qed

theorem derivation_index_bounds_witness:
  "\<exists>x y. writeUInt32BE (num_add (Fin 0x80000000) (Fin (of_int 0))) = Ret x
      \<and> writeUInt32BE (num_add (Fin 0x80000000) (Fin (of_int 1))) = Ret y
      \<and> length (child_data (replicate 32 7) x) = 37 \<and> 128 \<le> uint (hd x)
      \<and> (child_data (replicate 32 7) x = child_data (replicate 32 7) y \<longleftrightarrow> (0::int) = 1)
      \<and> (\<forall>n. 2147483648 \<le> n \<and> n \<le> 2 ^ 52 \<longrightarrow> (\<exists>e. writeUInt32BE (num_add (Fin 0x80000000) (Fin (of_int n))) = Throw e))"
  by (rule derivation_index_bounds) simp_all

section \<open>The wallet in the keychain\<close>

lemma index_str_acct [simp]: "index_str (acct i) = nat_digits i"
  by (simp add: show_int_def)

lemma nat_digits_1: "''1'' = nat_digits (Suc 0)"
proof -
  have "(of_char (CHR ''1'') :: nat) = 49" by simp
  then have "char_of (49 :: nat) = CHR ''1''" by (metis char_of_char)
  then show ?thesis by (simp add: nat_digits.simps)
qed

lemma wallet_keys [simp]:
  "secretKeyStorageKey (acct i) = secretKeyStorageKey (acct j) \<longleftrightarrow> i = j"
  "publicKeyStorageKey (acct i) = publicKeyStorageKey (acct j) \<longleftrightarrow> i = j"
  "secretKeyStorageKey a \<noteq> publicKeyStorageKey b" "publicKeyStorageKey b \<noteq> secretKeyStorageKey a"
  "secretKeyStorageKey a \<noteq> MNEMONIC_KEY" "MNEMONIC_KEY \<noteq> secretKeyStorageKey a"
  "publicKeyStorageKey a \<noteq> MNEMONIC_KEY" "MNEMONIC_KEY \<noteq> publicKeyStorageKey a"
  "secretKeyStorageKey a \<noteq> ACCOUNT_COUNT_KEY" "ACCOUNT_COUNT_KEY \<noteq> secretKeyStorageKey a"
  "publicKeyStorageKey a \<noteq> ACCOUNT_COUNT_KEY" "ACCOUNT_COUNT_KEY \<noteq> publicKeyStorageKey a"
  "MNEMONIC_KEY \<noteq> ACCOUNT_COUNT_KEY" "ACCOUNT_COUNT_KEY \<noteq> MNEMONIC_KEY"
  by (simp_all add: secretKeyStorageKey_def publicKeyStorageKey_def MNEMONIC_KEY_def ACCOUNT_COUNT_KEY_def
    del: index_str.simps)

lemma wallet_keys_0 [simp]:
  "secretKeyStorageKey (acct i) = secretKeyStorageKey (Fin 0) \<longleftrightarrow> i = 0"
  "publicKeyStorageKey (acct i) = publicKeyStorageKey (Fin 0) \<longleftrightarrow> i = 0"
  using wallet_keys(1)[of i 0] wallet_keys(2)[of i 0] by simp_all

lemma derive_valid:
  assumes "bip_validate C (normalizePhrase m)" "i < 2147483648"
  shows "\<exists>k. deriveKeypairFromMnemonic C m (acct i) = Ret k"
proof -
  have "num_add (Fin 0x80000000) (acct i) = Fin (of_int (2147483648 + int i))"
    using child_index[of "int i"] assms(2) by simp
  moreover have "\<not> (4294967295 :: rat) < of_int (2147483648 + int i)" "\<not> (of_int (2147483648 + int i) :: rat) < 0"
    using of_int_less_iff[of 4294967295 "2147483648 + int i", where 'a = rat] assms(2) by simp_all
  ultimately obtain b where "writeUInt32BE (num_add (Fin 0x80000000) (acct i)) = Ret b"
    by (simp only: writeUInt32BE.simps Let_def simp_thms if_False)
  then show ?thesis
    using assms(1) by (simp add: deriveKeypairFromMnemonic_def deriveStellarKey_def path_components_def Let_def
      del: num_add.simps)
qed

text \<open>
  What the wallet relies on besides a keychain that works: a secret determines its key pair, the
  encoded keys and a valid mnemonic are not empty, and a generated mnemonic is valid.
\<close>

locale seeded_wallet = kv_store getS setS delS
  for getS :: "string \<Rightarrow> 'w \<Rightarrow> string option res"
    and setS :: "string \<Rightarrow> string \<Rightarrow> ('w, unit) io"
    and delS :: "string \<Rightarrow> ('w, unit) io" +
  fixes C :: "('w, 'k) wallet_crypto"
  assumes from_secret: "kp_from_secret C (kp_secret C k) = Ret k"
    and encodings: "kp_secret C k \<noteq> []" "kp_public C k \<noteq> []"
    and no_empty: "\<not> bip_validate C []"
    and generated: "bip_generate C n w = (Ret m, w') \<Longrightarrow> bip_validate C (normalizePhrase m)"

text \<open>The same on a keychain that rejects nothing, for what an operation achieves there.\<close>

locale wallet = keychain getS setS delS + seeded_wallet getS setS delS C
  for getS :: "string \<Rightarrow> 'w \<Rightarrow> string option res"
    and setS :: "string \<Rightarrow> string \<Rightarrow> ('w, unit) io"
    and delS :: "string \<Rightarrow> ('w, unit) io"
    and C :: "('w, 'k) wallet_crypto"

text \<open>The invariant: mnemonic \<open>m\<close>, the counter \<open>n\<close>, and for every account below it the derived keys.\<close>

definition wallet_ok ::
  "(string \<Rightarrow> 'w \<Rightarrow> string option res) \<Rightarrow> ('w, 'k) wallet_crypto \<Rightarrow> string \<Rightarrow> nat \<Rightarrow> 'w \<Rightarrow> bool" where
  "wallet_ok getS C m n w \<longleftrightarrow> bip_validate C (normalizePhrase m) \<and> 0 < n \<and> n \<le> 2147483648
     \<and> getS MNEMONIC_KEY w = Ret (Some m) \<and> getS ACCOUNT_COUNT_KEY w = Ret (Some (nat_digits n))
     \<and> (\<forall>i < n. \<exists>k. deriveKeypairFromMnemonic C m (acct i) = Ret k
          \<and> getS (secretKeyStorageKey (acct i)) w = Ret (Some (kp_secret C k))
          \<and> getS (publicKeyStorageKey (acct i)) w = Ret (Some (kp_public C k)))"

text \<open>The public key of account \<open>i\<close> under mnemonic \<open>m\<close>.\<close>

definition pub :: "('w, 'k) wallet_crypto \<Rightarrow> string \<Rightarrow> nat \<Rightarrow> string" where
  "pub C m i = (case deriveKeypairFromMnemonic C m (acct i) of Ret k \<Rightarrow> kp_public C k | Throw _ \<Rightarrow> [])"

lemma wallet_count:
  "wallet_ok getS C m n w \<Longrightarrow> getAccountCount getS w = (Ret (acct n), w)"
  using parseInt_show_nat[of n] by (simp add: wallet_ok_def getAccountCount_def bnd_def show_int_def)

context seeded_wallet
begin

lemma mnemonic_ne: "bip_validate C (normalizePhrase m) \<Longrightarrow> m \<noteq> []"
  using no_empty by (auto simp: normalizePhrase_def toLowerCase_def)

lemma storeKeypair_frame:
  "k' \<noteq> secretKeyStorageKey i \<Longrightarrow> k' \<noteq> publicKeyStorageKey i \<Longrightarrow> getS k' (snd (storeKeypair C setS kp i w)) = getS k' w"
  by (auto simp: storeKeypair_def bnd_apply split: res.splits prod.splits) (metis set_frame snd_conv)+

lemma storeKeypair_Ret:
  assumes "storeKeypair C setS kp i w = (Ret u, w')"
  shows "getS k' w' = (if k' = publicKeyStorageKey i then Ret (Some (kp_public C kp))
     else if k' = secretKeyStorageKey i then Ret (Some (kp_secret C kp)) else getS k' w)"
proof -
  obtain w1 where "setS (secretKeyStorageKey i) (kp_secret C kp) w = (Ret (), w1)"
    "setS (publicKeyStorageKey i) (kp_public C kp) w1 = (Ret (), w')"
    using assms by (auto simp: storeKeypair_def dest!: bnd_RetE)
  then show ?thesis by (metis get_set get_set_other)
qed

lemma storeKeypair_Throw:
  "storeKeypair C setS kp i w = (Throw e, w') \<Longrightarrow> \<exists>key v u. fst (setS key v u) = Throw e"
  by (auto simp: storeKeypair_def bnd_apply split: res.splits prod.splits) (metis fst_conv)+

text \<open>The three writes of a new wallet, when all were accepted.\<close>

lemma fresh_wallet:
  assumes "bip_validate C (normalizePhrase m)" "deriveKeypairFromMnemonic C m (Fin 0) = Ret k"
    and "setS MNEMONIC_KEY m w = (Ret (), w1)" "storeKeypair C setS k (Fin 0) w1 = (Ret (), w2)"
    and "setS ACCOUNT_COUNT_KEY ''1'' w2 = (Ret (), w3)"
  shows "wallet_ok getS C m 1 w3"
proof -
  have g: "getS key w3 = (if key = ACCOUNT_COUNT_KEY then Ret (Some ''1'') else if key = publicKeyStorageKey (Fin 0)
      then Ret (Some (kp_public C k)) else if key = secretKeyStorageKey (Fin 0) then Ret (Some (kp_secret C k))
      else if key = MNEMONIC_KEY then Ret (Some m) else getS key w)" for key
    using get_set[OF assms(5)] get_set_other[OF assms(5)] storeKeypair_Ret[OF assms(4)] get_set[OF assms(3)]
      get_set_other[OF assms(3)] by auto
  show ?thesis using assms(1,2) nat_digits_1 by (simp add: wallet_ok_def g)
qed

lemma create_ok:
  assumes "createNewWallet C setS wc w = (Ret g, w')"
  shows "wallet_ok getS C (gw_mnemonic g) 1 w'"
proof -
  obtain m w0 where m: "bip_generate C (if wc = 12 then 128 else 256) w = (Ret m, w0)"
    using assms by (auto simp: createNewWallet_def generateMnemonic_def bnd_def split: prod.splits res.splits)
  then have v: "bip_validate C (normalizePhrase m)" by (rule generated)
  then obtain k where k: "deriveKeypairFromMnemonic C m (Fin 0) = Ret k"
    using derive_valid[of C m 0] by auto
  obtain w1 w2 where "setS MNEMONIC_KEY m w0 = (Ret (), w1)" "storeKeypair C setS k (Fin 0) w1 = (Ret (), w2)"
    "setS ACCOUNT_COUNT_KEY ''1'' w2 = (Ret (), w')" "gw_mnemonic g = m"
    using assms unfolding createNewWallet_def generateMnemonic_def storeMnemonic_def
    by (auto simp: m k dest!: bnd_RetE)
  then show ?thesis using fresh_wallet[OF v k] by simp
qed

lemma restore_ok:
  assumes "restoreWalletFromMnemonic C setS p w = (Ret a, w')"
  shows "wallet_ok getS C (normalizePhrase p) 1 w'"
proof -
  have v: "bip_validate C (normalizePhrase p)"
    using assms by (auto simp: restoreWalletFromMnemonic_def Let_def split: if_splits)
  obtain k where k: "deriveKeypairFromMnemonic C (normalizePhrase p) (Fin 0) = Ret k"
    using derive_valid[of C "normalizePhrase p" 0] v by auto
  obtain w1 w2 where "setS MNEMONIC_KEY (normalizePhrase p) w = (Ret (), w1)" "storeKeypair C setS k (Fin 0) w1 = (Ret (), w2)"
    "setS ACCOUNT_COUNT_KEY ''1'' w2 = (Ret (), w')"
    using assms v unfolding restoreWalletFromMnemonic_def storeMnemonic_def
    by (auto simp: Let_def k dest!: bnd_RetE)
  then show ?thesis using fresh_wallet[of "normalizePhrase p"] v k by simp
qed

lemma wallet_ok_frame:
  assumes "wallet_ok getS C m n w"
    and "\<And>key. key \<noteq> secretKeyStorageKey (acct n) \<Longrightarrow> key \<noteq> publicKeyStorageKey (acct n) \<Longrightarrow> getS key w' = getS key w"
  shows "wallet_ok getS C m n w'"
  using assms by (auto simp: wallet_ok_def)

text \<open>Adding an account, whichever of its writes is rejected.\<close>

lemma add_outcome:
  assumes ok: "wallet_ok getS C m n w" and n: "n < 2147483648" and run: "addAccount C getS setS w = (r, w')"
  shows "case r of Ret a \<Rightarrow> a = \<lparr>wa_accountIndex = acct n, wa_publicKey = pub C m n\<rparr> \<and> wallet_ok getS C m (Suc n) w'
    | Throw e \<Rightarrow> wallet_ok getS C m n w' \<and> (\<exists>key v u. fst (setS key v u) = Throw e)"
proof -
  obtain k where k: "deriveKeypairFromMnemonic C m (acct n) = Ret k"
    using derive_valid[of C m n] ok n by (auto simp: wallet_ok_def)
  have tm: "truthy (Some m)" using mnemonic_ne ok by (auto simp: wallet_ok_def)
  have nx: "num_add (acct n) (Fin 1) = acct (Suc n)"
    using to_num_of_int[of "int n + 1"] n by (simp add: add.commute)
  have sx: "index_str (Fin (1 + of_nat n)) = nat_digits (Suc n)"
    using index_str_acct[of "Suc n"] by (simp del: index_str_acct index_str.simps)
  obtain r1 w1 where s1: "storeKeypair C setS k (acct n) w = (r1, w1)" by (cases "storeKeypair C setS k (acct n) w")
  have f1: "getS key w1 = getS key w" if "key \<noteq> secretKeyStorageKey (acct n)" "key \<noteq> publicKeyStorageKey (acct n)" for key
    using storeKeypair_frame[OF that, of k w] s1 by simp
  have ok1: "wallet_ok getS C m n w1" using wallet_ok_frame[OF ok f1] .
  obtain r2 w2 where s2: "setS ACCOUNT_COUNT_KEY (nat_digits (Suc n)) w1 = (r2, w2)"
    by (cases "setS ACCOUNT_COUNT_KEY (nat_digits (Suc n)) w1")
  have run': "(r, w') = (case r1 of Throw e \<Rightarrow> (Throw e, w1) | Ret _ \<Rightarrow> (case r2 of Throw e \<Rightarrow> (Throw e, w2)
      | Ret _ \<Rightarrow> (Ret \<lparr>wa_accountIndex = acct n, wa_publicKey = kp_public C k\<rparr>, w2)))"
    using run ok tm unfolding addAccount_def retrieveMnemonic_def
    by (cases r1; cases r2) (simp_all add: wallet_ok_def bnd_apply[of "getAccountCount getS"] wallet_count[OF ok] k s1 incrementAccountCount_def
        bnd_assoc wallet_count[OF ok1] nx sx Let_def s2 del: num_add.simps index_str.simps)
  show ?thesis
  proof (cases r1)
    case (Throw e)
    then show ?thesis using run' ok1 storeKeypair_Throw s1 by auto
  next
    case r1: (Ret u)
    show ?thesis
    proof (cases r2)
      case (Throw e)
      then have "getS key w2 = getS key w1" for key using get_set_fail s2 by simp
      then have "wallet_ok getS C m n w2" using ok1 by (simp add: wallet_ok_def)
      then show ?thesis using run' r1 Throw s2 by (simp, metis fst_conv)
    next
      case (Ret u')
      have g: "getS key w2 = (if key = ACCOUNT_COUNT_KEY then Ret (Some (nat_digits (Suc n))) else if key = publicKeyStorageKey (acct n)
          then Ret (Some (kp_public C k)) else if key = secretKeyStorageKey (acct n) then Ret (Some (kp_secret C k)) else getS key w)" for key
        using get_set[OF s2[unfolded Ret]] get_set_other[OF s2[unfolded Ret]] storeKeypair_Ret[OF s1[unfolded r1]] by auto
      have "wallet_ok getS C m (Suc n) w2"
        using ok k n by (auto simp: wallet_ok_def g less_Suc_eq)
      then show ?thesis using run' r1 Ret k by (simp add: pub_def)
    qed
  qed
qed

lemma list_loop_ok:
  assumes "\<And>i. i \<in> set ns \<Longrightarrow> getS (publicKeyStorageKey (acct i)) w = Ret (Some (pk i)) \<and> pk i \<noteq> []"
  shows "list_loop getS ns acc w = (Ret (acc @ map (\<lambda>i. \<lparr>wa_accountIndex = acct i, wa_publicKey = pk i\<rparr>) ns), w)"
  using assms by (induction ns arbitrary: acc) (simp_all add: retrievePublicKey_def bnd_def)

lemma list_ok:
  assumes "wallet_ok getS C m n w"
  shows "listAccounts getS w = (Ret (map (\<lambda>i. \<lparr>wa_accountIndex = acct i, wa_publicKey = pub C m i\<rparr>) [0..<n]), w)"
proof -
  have "getS (publicKeyStorageKey (acct i)) w = Ret (Some (pub C m i)) \<and> pub C m i \<noteq> []" if "i \<in> set [0..<n]" for i
    using assms that encodings(2) by (fastforce simp: wallet_ok_def pub_def)
  from list_loop_ok[OF this, of "[0..<n]" "[]"] show ?thesis
    by (simp add: listAccounts_def bnd_apply wallet_count[OF assms])
qed

lemma retrieve_ok:
  assumes "wallet_ok getS C m n w" "i < n"
  shows "\<exists>k. deriveKeypairFromMnemonic C m (acct i) = Ret k \<and> retrieveKeypair C getS (acct i) w = (Ret (Some k), w)"
proof -
  from assms obtain k where "deriveKeypairFromMnemonic C m (acct i) = Ret k"
    "getS (secretKeyStorageKey (acct i)) w = Ret (Some (kp_secret C k))" by (auto simp: wallet_ok_def)
  with from_secret[of k] encodings(1)[of k] show ?thesis by (simp add: retrieveKeypair_def bnd_def)
qed

end

context wallet
begin

lemma get_after_keypair:
  "getS k' (snd (storeKeypair C setS kp i w)) =
     (if k' = publicKeyStorageKey i then Ret (Some (kp_public C kp))
      else if k' = secretKeyStorageKey i then Ret (Some (kp_secret C kp)) else getS k' w)"
  by (simp add: storeKeypair_def bnd_set get_after_set)

lemma storeKeypair_eq: "storeKeypair C setS kp i w = (Ret (), snd (storeKeypair C setS kp i w))"
  unfolding storeKeypair_def bnd_set by (rule set_eq)

lemma bnd_keypair: "bnd (storeKeypair C setS kp i) f w = f () (snd (storeKeypair C setS kp i w))"
  by (subst bnd_Ret[OF storeKeypair_eq]) simp

lemma fresh_wallet_ok:
  assumes "bip_validate C (normalizePhrase m)" "deriveKeypairFromMnemonic C m (Fin 0) = Ret k"
  shows "wallet_ok getS C m 1
    (snd (setS ACCOUNT_COUNT_KEY ''1'' (snd (storeKeypair C setS k (Fin 0) (snd (setS MNEMONIC_KEY m w))))))"
  using assms nat_digits_1 by (simp add: wallet_ok_def get_after_set get_after_keypair)

lemma restore_run:
  assumes "bip_validate C (normalizePhrase p)"
  shows "\<exists>k. deriveKeypairFromMnemonic C (normalizePhrase p) (Fin 0) = Ret k
    \<and> restoreWalletFromMnemonic C setS p w = (Ret \<lparr>wa_accountIndex = Fin 0, wa_publicKey = kp_public C k\<rparr>,
      snd (setS ACCOUNT_COUNT_KEY ''1'' (snd (storeKeypair C setS k (Fin 0) (snd (setS MNEMONIC_KEY (normalizePhrase p) w))))))"
proof -
  obtain k where k: "deriveKeypairFromMnemonic C (normalizePhrase p) (Fin 0) = Ret k"
    using derive_valid[of C "normalizePhrase p" 0] assms by auto
  with assms show ?thesis
    by (intro exI[of _ k]) (simp add: restoreWalletFromMnemonic_def Let_def storeMnemonic_def bnd_set bnd_keypair)
qed

lemma add_ok:
  assumes ok: "wallet_ok getS C m n w" and n: "n < 2147483648"
  shows "\<exists>w'. addAccount C getS setS w = (Ret \<lparr>wa_accountIndex = acct n, wa_publicKey = pub C m n\<rparr>, w')
    \<and> wallet_ok getS C m (Suc n) w'"
proof (cases "addAccount C getS setS w")
  case (Pair r w')
  have "fst (setS key v u) \<noteq> Throw e" for key v u e using set_ok[of key v u] by auto
  with add_outcome[OF ok n Pair] Pair show ?thesis by (cases r) auto
qed

lemma rotate_same:
  assumes "wallet_ok getS C m n w" "i < n"
  shows "\<exists>w'. rotateKey C getS setS (acct i) w = (Ret \<lparr>wa_accountIndex = acct i, wa_publicKey = pub C m i\<rparr>, w')
    \<and> (\<forall>key. getS key w' = getS key w)"
proof -
  from assms obtain k where k: "deriveKeypairFromMnemonic C m (acct i) = Ret k"
    "getS (secretKeyStorageKey (acct i)) w = Ret (Some (kp_secret C k))"
    "getS (publicKeyStorageKey (acct i)) w = Ret (Some (kp_public C k))" by (auto simp: wallet_ok_def)
  have m: "getS MNEMONIC_KEY w = Ret (Some m)" "m \<noteq> []"
    using assms(1) mnemonic_ne by (auto simp: wallet_ok_def)
  show ?thesis
    using k m by (intro exI[of _ "snd (storeKeypair C setS k (acct i) w)"])
      (auto simp: rotateKey_def retrieveMnemonic_def bnd_keypair pub_def get_after_keypair)
qed

lemma delete_loop_ok:
  "\<exists>w'. delete_loop delS ns w = (Ret (), w') \<and> (\<forall>key. getS key w' =
     (if \<exists>i \<in> set ns. key = secretKeyStorageKey (acct i) \<or> key = publicKeyStorageKey (acct i)
      then Ret None else getS key w))"
proof (induction ns arbitrary: w)
  case (Cons i ns)
  let ?w = "snd (delS (publicKeyStorageKey (acct i)) (snd (delS (secretKeyStorageKey (acct i)) w)))"
  from Cons[of ?w] obtain w' where w': "delete_loop delS ns ?w = (Ret (), w')"
    "\<forall>key. getS key w' = (if \<exists>i \<in> set ns. key = secretKeyStorageKey (acct i) \<or> key = publicKeyStorageKey (acct i)
      then Ret None else getS key ?w)" by blast
  then show ?case by (intro exI[of _ w']) (auto simp: bnd_del get_after_del)
qed simp

lemma delete_ok:
  assumes "getAccountCount getS w = (Ret (acct n), w)"
  shows "\<exists>w'. deleteWallet getS delS w = (Ret (), w') \<and> getS MNEMONIC_KEY w' = Ret None
    \<and> getS ACCOUNT_COUNT_KEY w' = Ret None
    \<and> (\<forall>i. getS (secretKeyStorageKey (acct i)) w' = (if i < n then Ret None else getS (secretKeyStorageKey (acct i)) w)
         \<and> getS (publicKeyStorageKey (acct i)) w' = (if i < n then Ret None else getS (publicKeyStorageKey (acct i)) w))"
proof -
  from delete_loop_ok[of "[0..<n]" w] obtain w1 where w1: "delete_loop delS [0..<n] w = (Ret (), w1)"
    "\<forall>key. getS key w1 = (if \<exists>i \<in> set [0..<n]. key = secretKeyStorageKey (acct i) \<or> key = publicKeyStorageKey (acct i)
      then Ret None else getS key w)" by blast
  let ?w = "snd (delS ACCOUNT_COUNT_KEY (snd (delS MNEMONIC_KEY w1)))"
  have "deleteWallet getS delS w = (Ret (), ?w)"
    by (simp add: deleteWallet_def bnd_apply[of "getAccountCount getS"] bnd_apply[of "delete_loop delS _"]
        assms w1(1) bnd_del del_eq[symmetric])
  then show ?thesis using w1(2) by (intro exI[of _ ?w]) (simp add: get_after_del)
qed

end

section \<open>A reference wallet\<close>

definition key_text :: "bytes \<Rightarrow> string" where
  "key_text k = map (\<lambda>b. char_of (unat b)) k"

lemma key_text_inv: "map (\<lambda>c. of_nat (of_char c)) (key_text k) = k"
proof (induction k)
  case (Cons b k)
  have "unat b < 2 ^ LENGTH(8)" by (rule unsigned_less)
  then have "unat b < 256" by simp
  with Cons show ?case by (simp add: key_text_def)
qed (simp add: key_text_def)

definition toy_keys :: "('w, bytes) wallet_crypto" where
  "toy_keys = \<lparr>bip_generate = (\<lambda>_. ret ''abandon about''), bip_validate = (\<lambda>s. s = ''abandon about''),
     bip_seed = ascii_bytes, hmac_sha512 = (\<lambda>k d. take 64 (rev d @ k @ replicate 64 0)), kp_from_seed = (\<lambda>b. b),
     kp_from_secret = (\<lambda>s. Ret (map (\<lambda>c. of_nat (of_char c)) (tl s))),
     kp_secret = (\<lambda>k. CHR ''S'' # key_text k), kp_public = (\<lambda>k. CHR ''G'' # key_text k)\<rparr>"

definition toy_crypto :: "(string \<rightharpoonup> string, bytes) wallet_crypto" where
  "toy_crypto = toy_keys"

lemmas toy_crypto_defs = toy_crypto_def toy_keys_def

lemma phrase_normal: "normalizePhrase ''abandon about'' = ''abandon about''"
  by (simp add: normalizePhrase_def trim_def is_ws_def toLowerCase_def lower_char_def is_upper_def)

interpretation mem_wallet: wallet mem_getItem mem_setItem mem_removeItem toy_crypto
  by unfold_locales (auto simp: toy_crypto_defs key_text_inv phrase_normal)

interpretation dev_wallet: seeded_wallet dev_getSec dev_setSec dev_removeSec toy_keys
  by unfold_locales (auto simp: toy_keys_def key_text_inv phrase_normal)

section \<open>Properties\<close>

text \<open>
  C7: The wallet invariant, on a keychain any of whose operations may be rejected.  A wallet whose creation or
  restoration is fulfilled satisfies it.  Adding an account (below the derivation limit) ends in one of two
  ways: fulfilled, it returns the account of the next index with the key derived for it and the
  wallet is in order with one account more; rejected, its error is that of a rejected write and the
  wallet is in order as it was.  Under the invariant every account's stored key pair is the
  one derived from the mnemonic.  Nothing is claimed of a creation or restoration that is rejected.
\<close>

theorem wallet_invariant:
  assumes "seeded_wallet getS setS delS C"
  shows "(\<forall>g w'. createNewWallet C setS wc w = (Ret g, w') \<longrightarrow> wallet_ok getS C (gw_mnemonic g) 1 w')
    \<and> (\<forall>a w'. restoreWalletFromMnemonic C setS p w = (Ret a, w') \<longrightarrow> wallet_ok getS C (normalizePhrase p) 1 w')
    \<and> (wallet_ok getS C m n w \<and> n < 2147483648 \<longrightarrow> (case addAccount C getS setS w of
          (Ret a, w') \<Rightarrow> a = \<lparr>wa_accountIndex = acct n, wa_publicKey = pub C m n\<rparr> \<and> wallet_ok getS C m (Suc n) w'
        | (Throw e, w') \<Rightarrow> wallet_ok getS C m n w' \<and> (\<exists>key v u. fst (setS key v u) = Throw e)))
    \<and> (wallet_ok getS C m n w \<longrightarrow> (\<forall>i < n. \<exists>k. deriveKeypairFromMnemonic C m (acct i) = Ret k
           \<and> retrieveKeypair C getS (acct i) w = (Ret (Some k), w)))"
proof (intro conjI impI)
  show "\<forall>g w'. createNewWallet C setS wc w = (Ret g, w') \<longrightarrow> wallet_ok getS C (gw_mnemonic g) 1 w'"
    using seeded_wallet.create_ok[OF assms] by blast
  show "\<forall>a w'. restoreWalletFromMnemonic C setS p w = (Ret a, w') \<longrightarrow> wallet_ok getS C (normalizePhrase p) 1 w'"
    using seeded_wallet.restore_ok[OF assms] by blast
  assume "wallet_ok getS C m n w \<and> n < 2147483648"
  then show "case addAccount C getS setS w of
          (Ret a, w') \<Rightarrow> a = \<lparr>wa_accountIndex = acct n, wa_publicKey = pub C m n\<rparr> \<and> wallet_ok getS C m (Suc n) w'
        | (Throw e, w') \<Rightarrow> wallet_ok getS C m n w' \<and> (\<exists>key v u. fst (setS key v u) = Throw e)"
    using seeded_wallet.add_outcome[OF assms, of m n w] by (auto split: prod.split res.split)
next
  assume "wallet_ok getS C m n w"
  with seeded_wallet.retrieve_ok[OF assms]
  show "\<forall>i < n. \<exists>k. deriveKeypairFromMnemonic C m (acct i) = Ret k
           \<and> retrieveKeypair C getS (acct i) w = (Ret (Some k), w)" by blast
qed

lemma toy_valid: "bip_validate toy_crypto (normalizePhrase ''abandon about'')"
  unfolding phrase_normal by (simp add: toy_crypto_defs)

lemma toy_restore: "\<exists>a w'. restoreWalletFromMnemonic toy_crypto mem_setItem ''abandon about'' w = (Ret a, w')"
  using mem_wallet.restore_run[OF toy_valid, of w] by blast

theorem wallet_invariant_witness:
  "\<exists>w. wallet_ok mem_getItem toy_crypto ''abandon about'' 1 w
     \<and> (\<exists>a w'. addAccount toy_crypto mem_getItem mem_setItem w = (Ret a, w')
         \<and> a = \<lparr>wa_accountIndex = acct 1, wa_publicKey = pub toy_crypto ''abandon about'' 1\<rparr>
         \<and> wallet_ok mem_getItem toy_crypto ''abandon about'' (Suc 1) w')"
proof -
  obtain a w where "restoreWalletFromMnemonic toy_crypto mem_setItem ''abandon about'' Map.empty = (Ret a, w)"
    using toy_restore by blast
  from mem_wallet.restore_ok[OF this] have ok: "wallet_ok mem_getItem toy_crypto ''abandon about'' 1 w"
    by (simp add: phrase_normal)
  have "wallet_ok mem_getItem toy_crypto ''abandon about'' 1 w \<and> (1::nat) < 2147483648" using ok by simp
  note c = mp[OF wallet_invariant[OF mem_wallet.seeded_wallet_axioms, THEN conjunct2, THEN conjunct2, THEN conjunct1] this]
  obtain r w' where a: "addAccount toy_crypto mem_getItem mem_setItem w = (r, w')"
    by (cases "addAccount toy_crypto mem_getItem mem_setItem w")
  show ?thesis
  proof (cases r)
    case (Ret b)
    with a c ok show ?thesis by (intro exI conjI) auto
  next
    case (Throw e)
    with a c show ?thesis by (simp add: mem_setItem_def)
  qed
qed

text \<open>
  On a wallet with \<open>n\<close> accounts, \<open>listAccounts\<close> returns exactly the accounts 0 to \<open>n - 1\<close> in order with
  their derived public keys, and \<open>deleteWallet\<close> leaves no mnemonic, no counter, no key of any of
  these accounts, and no wallet according to \<open>hasWallet\<close>.
\<close>

theorem list_and_delete_wallet:
  assumes "wallet getS setS delS C" and "wallet_ok getS C m n w"
  shows "listAccounts getS w = (Ret (map (\<lambda>i. \<lparr>wa_accountIndex = acct i, wa_publicKey = pub C m i\<rparr>) [0..<n]), w)
    \<and> (\<exists>w'. deleteWallet getS delS w = (Ret (), w') \<and> getS MNEMONIC_KEY w' = Ret None
        \<and> (\<forall>i < n. getS (secretKeyStorageKey (acct i)) w' = Ret None \<and> getS (publicKeyStorageKey (acct i)) w' = Ret None)
        \<and> fst (hasWallet getS w') = Ret False)"
proof
  show "listAccounts getS w = (Ret (map (\<lambda>i. \<lparr>wa_accountIndex = acct i, wa_publicKey = pub C m i\<rparr>) [0..<n]), w)"
    by (rule seeded_wallet.list_ok[OF wallet.axioms(2)[OF assms(1)] assms(2)])
  from wallet.delete_ok[OF assms(1) wallet_count[OF assms(2)]] obtain w' where
    w': "deleteWallet getS delS w = (Ret (), w')" "getS MNEMONIC_KEY w' = Ret None" "getS ACCOUNT_COUNT_KEY w' = Ret None"
      "\<forall>i < n. getS (secretKeyStorageKey (acct i)) w' = Ret None \<and> getS (publicKeyStorageKey (acct i)) w' = Ret None"
    by auto
  moreover have "fst (hasWallet getS w') = Ret False"
    using w'(3) by (simp add: hasWallet_def getAccountCount_def bnd_def)
  ultimately show "\<exists>w'. deleteWallet getS delS w = (Ret (), w') \<and> getS MNEMONIC_KEY w' = Ret None
        \<and> (\<forall>i < n. getS (secretKeyStorageKey (acct i)) w' = Ret None \<and> getS (publicKeyStorageKey (acct i)) w' = Ret None)
        \<and> fst (hasWallet getS w') = Ret False" by blast
qed

lemma toy_wallet:
  "0 < n \<Longrightarrow> n < 2147483648 \<Longrightarrow> \<exists>w. wallet_ok mem_getItem toy_crypto ''abandon about'' n w"
proof (induction n)
  case (Suc n)
  show ?case
  proof (cases "n = 0")
    case True
    obtain a w where "restoreWalletFromMnemonic toy_crypto mem_setItem ''abandon about'' Map.empty = (Ret a, w)"
      using toy_restore by blast
    from mem_wallet.restore_ok[OF this] True show ?thesis by (auto simp: phrase_normal)
  next
    case False
    with Suc obtain w where w: "wallet_ok mem_getItem toy_crypto ''abandon about'' n w" by auto
    from mem_wallet.add_ok[OF w] Suc.prems show ?thesis by auto
  qed
qed simp

theorem list_and_delete_wallet_witness:
  "\<exists>w. wallet_ok mem_getItem toy_crypto ''abandon about'' 2 w
     \<and> listAccounts mem_getItem w = (Ret [\<lparr>wa_accountIndex = acct 0, wa_publicKey = pub toy_crypto ''abandon about'' 0\<rparr>,
          \<lparr>wa_accountIndex = acct 1, wa_publicKey = pub toy_crypto ''abandon about'' 1\<rparr>], w)"
proof -
  from toy_wallet[of 2] obtain w where w: "wallet_ok mem_getItem toy_crypto ''abandon about'' 2 w" by auto
  have "[0..<2] = [0, 1::nat]" by (simp add: numeral_2_eq_2)
  with list_and_delete_wallet[OF mem_wallet.wallet_axioms w, THEN conjunct1]
  have "listAccounts mem_getItem w = (Ret [\<lparr>wa_accountIndex = acct 0, wa_publicKey = pub toy_crypto ''abandon about'' 0\<rparr>,
          \<lparr>wa_accountIndex = acct 1, wa_publicKey = pub toy_crypto ''abandon about'' 1\<rparr>], w)"
    by (simp only: list.map)
  with w show ?thesis by blast
qed

text \<open>
  \<open>rotateKey\<close> does not rotate: the derivation is deterministic, so on a wallet in order it returns
  the account's present public key and leaves every keychain entry as it was.
\<close>

theorem rotate_key_is_identity:
  assumes "wallet getS setS delS C" and "wallet_ok getS C m n w" and "i < n"
  shows "\<exists>w'. rotateKey C getS setS (acct i) w = (Ret \<lparr>wa_accountIndex = acct i, wa_publicKey = pub C m i\<rparr>, w')
    \<and> (\<forall>key. getS key w' = getS key w)"
  by (rule wallet.rotate_same[OF assms])

theorem rotate_key_is_identity_witness:
  "\<exists>w w'. rotateKey toy_crypto mem_getItem mem_setItem (acct 0) w
      = (Ret \<lparr>wa_accountIndex = acct 0, wa_publicKey = pub toy_crypto ''abandon about'' 0\<rparr>, w')
     \<and> (\<forall>key. mem_getItem key w' = mem_getItem key w)"
proof -
  from toy_wallet[of 1] obtain w where w: "wallet_ok mem_getItem toy_crypto ''abandon about'' 1 w" by auto
  from rotate_key_is_identity[OF mem_wallet.wallet_axioms w zero_less_one] show ?thesis by blast
qed

text \<open>
  \<open>deleteWallet\<close> trusts the counter, and restoring a phrase resets the counter to 1 without removing
  the accounts of the wallet that was there: after restoring over a wallet with at least two
  accounts and deleting, the secret keys of accounts 1 to \<open>n - 1\<close> of the old wallet are still in
  the keychain.
\<close>

theorem delete_after_restore_leaves_secrets:
  assumes w: "wallet getS setS delS C" and ok: "wallet_ok getS C m n w0" and i: "0 < i" "i < n"
    and r: "restoreWalletFromMnemonic C setS p w0 = (Ret a, w1)"
  shows "\<exists>w2 s. deleteWallet getS delS w1 = (Ret (), w2)
    \<and> getS (secretKeyStorageKey (acct i)) w0 = Ret (Some s)
    \<and> getS (secretKeyStorageKey (acct i)) w2 = Ret (Some s)"
proof -
  have v: "bip_validate C (normalizePhrase p)"
    using r by (auto simp: restoreWalletFromMnemonic_def Let_def split: if_splits)
  have keep: "getS (secretKeyStorageKey (acct i)) w1 = getS (secretKeyStorageKey (acct i)) w0"
    using wallet.restore_run[OF w v, of w0] r i(1)
    by (auto simp: keychain.get_after_set[OF wallet.axioms(1)[OF w]] wallet.get_after_keypair[OF w])
  have "wallet_ok getS C (normalizePhrase p) 1 w1" by (rule seeded_wallet.restore_ok[OF wallet.axioms(2)[OF w] r])
  from wallet.delete_ok[OF w wallet_count[OF this]] i keep obtain w2 where
    "deleteWallet getS delS w1 = (Ret (), w2)"
    "getS (secretKeyStorageKey (acct i)) w2 = getS (secretKeyStorageKey (acct i)) w0" by auto
  moreover obtain s where "getS (secretKeyStorageKey (acct i)) w0 = Ret (Some s)"
    using ok i by (auto simp: wallet_ok_def)
  ultimately show ?thesis by auto
qed

theorem delete_after_restore_leaves_secrets_witness:
  "\<exists>w1 w2 s. deleteWallet mem_getItem mem_removeItem w1 = (Ret (), w2)
    \<and> mem_getItem (secretKeyStorageKey (acct 1)) w2 = Ret (Some s)"
proof -
  from toy_wallet[of 2] obtain w where w: "wallet_ok mem_getItem toy_crypto ''abandon about'' 2 w" by auto
  obtain a w1 where "restoreWalletFromMnemonic toy_crypto mem_setItem ''abandon about'' w = (Ret a, w1)"
    using toy_restore by blast
  from delete_after_restore_leaves_secrets[OF mem_wallet.wallet_axioms w _ _ this, where i = 1] show ?thesis by auto
qed

section \<open>The clipboard is cleared\<close>

definition clip_ok :: "clip \<Rightarrow> bool" where
  "clip_ok s \<longleftrightarrow> map fst (pending s) = (case clipboardClearTimer s of None \<Rightarrow> [] | Some i \<Rightarrow> [i])
     \<and> list_all (\<lambda>p. fst p < next_timer s \<and> clock s < snd p) (pending s)
     \<and> (sensitive s \<longrightarrow> (\<exists>i. pending s = [(i, copied_at s + CLIPBOARD_CLEAR_DELAY_MS)]))"

definition clip_start :: "int \<Rightarrow> clip" where
  "clip_start t = \<lparr>board = [], clipboardClearTimer = None, pending = [], clock = t, next_timer = 0,
     sensitive = False, copied_at = t\<rparr>"

lemma clip_ok_clearTimer:
  assumes "clip_ok s"
  shows "pending (clearTimer s) = []" "clipboardClearTimer (clearTimer s) = None" "clock (clearTimer s) = clock s"
    "next_timer (clearTimer s) = next_timer s"
proof -
  show "pending (clearTimer s) = []"
  proof (cases "clipboardClearTimer s")
    case (Some i)
    with assms obtain d where "pending s = [(i, d)]" by (cases "pending s") (auto simp: clip_ok_def)
    with Some show ?thesis by (simp add: clearTimer_def)
  qed (use assms in \<open>simp add: clip_ok_def clearTimer_def\<close>)
qed (simp_all add: clearTimer_def split: option.splits)

lemma clip_ok_tick: "clip_ok s \<Longrightarrow> clip_ok (tick s)"
proof -
  assume ok: "clip_ok s"
  show ?thesis
  proof (cases "pending s")
    case Nil
    with ok show ?thesis by (auto simp: tick_def Let_def clip_ok_def split: option.splits)
  next
    case (Cons p ps)
    with ok have "ps = []" "clipboardClearTimer s = Some (fst p)" "fst p < next_timer s"
      by (auto simp: clip_ok_def split: option.splits)
    with ok Cons show ?thesis
      by (cases p) (auto simp: tick_def Let_def fire_def clip_ok_def)
  qed
qed

lemma clip_ok_step: "clip_step s s' \<Longrightarrow> clip_ok s \<Longrightarrow> clip_ok s'"
proof (induction rule: clip_step.induct)
  case (copy s v)
  note c = clip_ok_clearTimer[OF copy]
  show ?case using c by (simp add: copyWithAutoClear_def Let_def clip_ok_def CLIPBOARD_CLEAR_DELAY_MS_def)
next
  case (cancel s)
  then show ?case using clip_ok_clearTimer[OF cancel] by (simp add: cancelCopy_def clip_ok_def)
next
  case (clear s)
  then show ?case using clip_ok_clearTimer[OF clear] by (simp add: clearClipboard_def clip_ok_def)
next
  case (other_app s v)
  then show ?case by (simp add: clip_ok_def)
next
  case (time s)
  then show ?case by (rule clip_ok_tick)
qed

text \<open>
  A copied secret is on the clipboard for less than thirty seconds: in every run of copies,
  cancellations, writes of other applications and passing time, the clipboard holds a text put
  there by \<open>copyWithAutoClear\<close> only while fewer than 30000 ms have passed since that call, and at
  most one clear timer is pending.
\<close>

theorem clipboard_auto_clears:
  assumes "clip_step\<^sup>*\<^sup>* (clip_start t) s"
  shows "length (pending s) \<le> 1 \<and> (sensitive s \<longrightarrow> clock s < copied_at s + 30000)"
proof -
  have "clip_ok s" using assms
    by (induction rule: rtranclp_induct) (simp add: clip_ok_def clip_start_def, blast intro: clip_ok_step)
  then show ?thesis
    by (cases "pending s") (auto simp: clip_ok_def CLIPBOARD_CLEAR_DELAY_MS_def split: option.splits)
qed

theorem clipboard_auto_clears_witness:
  "sensitive (tick (copyWithAutoClear ''SABC'' (clip_start 5)))
   \<and> clock (tick (copyWithAutoClear ''SABC'' (clip_start 5)))
       < copied_at (tick (copyWithAutoClear ''SABC'' (clip_start 5))) + 30000"
proof -
  let ?s = "copyWithAutoClear ''SABC'' (clip_start 5)"
  have "clip_step\<^sup>*\<^sup>* (clip_start 5) (tick ?s)"
    by (rule rtranclp.rtrancl_into_rtrancl[OF r_into_rtranclp]) (rule clip_step.copy, rule clip_step.time)
  moreover have "sensitive (tick ?s)"
    by (simp add: tick_def Let_def copyWithAutoClear_def clearTimer_def clip_start_def CLIPBOARD_CLEAR_DELAY_MS_def)
  ultimately show ?thesis using clipboard_auto_clears[of 5 "tick ?s"] by blast
qed

end
