(* ===== verification/Js_Format.thy ===== *)
theory Js_Format
  imports Js_Number
begin

text \<open>
  \<open>Number.prototype.toString\<close> in radix 10: the shortest decimal numeral that reads back as the same
  double, in the notation of the language.  A whole number of at most \<open>2 ^ 53\<close> prints its digits
  (neighbouring doubles are then at most 1 apart, so no shorter numeral denotes it).
\<close>

section \<open>Shortest digits\<close>

text \<open>The exponent \<open>n\<close> with \<open>10 ^ (n - 1) \<le> q < 10 ^ n\<close>, for a positive \<open>q\<close>.\<close>

definition dec_exponent :: "rat \<Rightarrow> int" where
  "dec_exponent q = (if 1 \<le> q then int (length (nat_digits (nat \<lfloor>q\<rfloor>)))
     else let c = nat \<lceil>1 / q\<rceil> in 1 - (if c \<le> 1 then 0 else int (length (nat_digits (c - 1)))))"

text \<open>The closer to \<open>q\<close> of the two \<open>k\<close>-digit numerals around it that read back as \<open>q\<close>.\<close>

definition digits_at :: "rat \<Rightarrow> int \<Rightarrow> nat \<Rightarrow> nat option" where
  "digits_at q n k = (let u = 10 powi (n - int k); f = nat \<lfloor>q / u\<rfloor>;
       ok = (\<lambda>s. round_double (of_nat s * u) = q) in
     if ok f \<and> (\<not> ok (f + 1) \<or> q - of_nat f * u \<le> of_nat (f + 1) * u - q) then Some f
     else if ok (f + 1) then Some (f + 1) else None)"

fun shortest :: "rat \<Rightarrow> int \<Rightarrow> nat \<Rightarrow> nat \<Rightarrow> nat \<times> nat" where
  "shortest q n k 0 = (nat \<lfloor>q / 10 powi (n - int k)\<rfloor>, k)"
| "shortest q n k (Suc fuel) = (case digits_at q n k of Some s \<Rightarrow> (s, k) | None \<Rightarrow> shortest q n (Suc k) fuel)"

section \<open>Notation\<close>

definition show_exponent :: "int \<Rightarrow> string" where
  "show_exponent e = ''e'' @ (if e < 0 then [] else ''+'') @ show_int e"

definition show_digits :: "string \<Rightarrow> int \<Rightarrow> string" where
  "show_digits ds n = (let k = int (length ds) in
     if k \<le> n \<and> n \<le> 21 then ds @ replicate (nat (n - k)) (CHR ''0'')
     else if 0 < n \<and> n \<le> 21 then take (nat n) ds @ ''.'' @ drop (nat n) ds
     else if - 6 < n \<and> n \<le> 0 then ''0.'' @ replicate (nat (- n)) (CHR ''0'') @ ds
     else if k = 1 then ds @ show_exponent (n - 1)
     else take 1 ds @ ''.'' @ drop 1 ds @ show_exponent (n - 1))"

definition show_pos :: "rat \<Rightarrow> string" where
  "show_pos q = (if q = of_int \<lfloor>q\<rfloor> \<and> q \<le> 2 ^ 53 then show_int \<lfloor>q\<rfloor>
     else let n = dec_exponent q; (s, k) = shortest q n 1 16 in
       if s = 10 ^ k then show_digits ''1'' (n + 1) else show_digits (nat_digits s) n)"

fun show_num :: "js_num \<Rightarrow> string" where
  "show_num NaN = ''NaN''"
| "show_num (Infty b) = (if b then ''Infinity'' else ''-Infinity'')"
| "show_num (Fin q) = (if q = 0 then ''0'' else if q < 0 then ''-'' @ show_pos (- q) else show_pos q)"

text \<open>\<open>toFixed(f)\<close>: the exact value rounded to \<open>f\<close> decimals, a tie going up.\<close>

definition fixed_digits :: "nat \<Rightarrow> nat \<Rightarrow> string" where
  "fixed_digits f n = (let ds = nat_digits n; ps = replicate (Suc f - length ds) (CHR ''0'') @ ds; k = length ps - f in
     if f = 0 then ps else take k ps @ ''.'' @ drop k ps)"

fun toFixed :: "nat \<Rightarrow> js_num \<Rightarrow> string" where
  "toFixed f (Fin q) = (if 10 ^ 21 \<le> \<bar>q\<bar> then show_num (Fin q)
     else if q < 0 then ''-'' @ fixed_digits f (nat \<lfloor>- q * 10 ^ f + 1 / 2\<rfloor>)
     else fixed_digits f (nat \<lfloor>q * 10 ^ f + 1 / 2\<rfloor>))"
| "toFixed f n = show_num n"

lemma show_num_of_int: "0 \<le> i \<Longrightarrow> i \<le> 2 ^ 53 \<Longrightarrow> show_num (Fin (of_int i)) = show_int i"
proof -
  assume i: "0 \<le> i" "i \<le> 2 ^ 53"
  have "(of_int i :: rat) \<le> of_int (2 ^ 53)" using i(2) by (simp only: of_int_le_iff)
  then have p: "show_pos (of_int i) = show_int i" by (simp add: show_pos_def)
  show ?thesis
  proof (cases "i = 0")
    case True
    have "show_int 0 = ''0''" by code_simp
    with True show ?thesis by simp
  next
    case False
    with i(1) p show ?thesis by simp
  qed
qed

section \<open>Reading a whole number back\<close>

lemma unsigned_decimal_nat: "unsigned_decimal (nat_digits n) = Some (of_nat n, [])"
proof -
  have "span is_digit (nat_digits n) = (nat_digits n, [])"
    using nat_digits_digit[of n] by (auto simp: span_def list_all_iff takeWhile_eq_all_conv)
  then show ?thesis by (simp add: unsigned_decimal_def exponent_part_def)
qed

lemma radix_literal_digits: "list_all is_digit s \<Longrightarrow> radix_literal s = None"
proof -
  assume a: "list_all is_digit s"
  show ?thesis
  proof (cases "\<exists>z x r. s = z # x # r")
    case True
    then obtain z x r where s: "s = z # x # r" by blast
    with a have "is_digit x" by simp
    then have x: "x \<noteq> CHR ''x''" "x \<noteq> CHR ''X''" "x \<noteq> CHR ''o''" "x \<noteq> CHR ''O''" "x \<noteq> CHR ''b''" "x \<noteq> CHR ''B''"
      by (auto simp: is_digit_def)
    show ?thesis unfolding radix_literal_def s Let_def using x by simp
  next
    case False
    then show ?thesis by (cases s; cases "tl s") (auto simp: radix_literal_def)
  qed
qed

theorem Number_show_nat: "n \<le> 2 ^ 53 \<Longrightarrow> Number (show_int (int n)) = Fin (of_nat n)"
proof -
  assume n: "n \<le> 2 ^ 53"
  obtain c r where cr: "nat_digits n = c # r" using nat_digits_ne by (metis neq_Nil_conv)
  then have c: "is_digit c" using nat_digits_digit[of n] by simp
  have ws: "list_all (\<lambda>c. \<not> is_ws c) (nat_digits n)"
    using nat_digits_digit[of n] is_digit_not_ws by (auto simp: list_all_iff)
  have inf: "\<not> startsWith (nat_digits n) ''Infinity''" using cr c by (auto simp: startsWith_def is_digit_def)
  have "signed_decimal (nat_digits n) = Some (to_num (of_nat n), [])"
    using cr inf is_digit_not_sign[OF c] unsigned_decimal_nat[of n] by (simp add: signed_decimal_def)
  then have "Number (show_int (int n)) = to_num (of_int (int n))"
    using trim_no_ws[OF ws] radix_literal_digits[OF nat_digits_digit[of n]] by (simp add: Number_def show_int_def)
  also have "\<dots> = Fin (of_int (int n))"
  proof (rule to_num_of_int)
    show "\<bar>int n\<bar> \<le> 2 ^ 53" using n by (simp add: nat_le_iff)
  qed
  finally show ?thesis by simp
qed

end
