(* ===== verification/Stellar_Wallet.thy ===== *)
theory Stellar_Wallet
  imports Retry Js_Format
begin

text \<open>
  Payments on the Stellar network (\<open>mobileapp/src/services/stellarWallet.ts\<close>): the wallet backends
  (the Freighter and Albedo extensions, a local key pair), the fee estimate, building, signing and
  submitting a payment, and the fee bump.  The SDK, the Horizon server and the extensions are the
  fields of the record \<open>stellar\<close>; transactions, accounts, assets and key pairs are its types.
\<close>

section \<open>What lies outside\<close>

datatype wallet_source = Freighter | Albedo | LocalKey

record StellarWalletState =
  sw_publicKey :: string
  sw_isConnected :: bool
  sw_source :: "wallet_source option"

record 'asset payment_op =
  op_destination :: string
  op_asset :: 'asset
  op_amount :: string

record balance_line =
  bl_balance :: string
  bl_asset_type :: string
  bl_asset_code :: "string option"

text \<open>
  The second argument of \<open>TransactionEnvelope.fromXDR\<close>.  The SDK documents a format there (raw, hex
  or base64); the code passes \<open>StellarSdk.xdr.TransactionEnvelopeType.envelopeTypeTx\<close>, whatever value
  that path has in the SDK at hand: none, a text, or something else.
\<close>

datatype xdr_argument = NoFormat | Format string | NotAFormat

text \<open>\<open>s_read\<close> is \<open>new Transaction(xdr)\<close>; \<open>s_envelopeTypeTx\<close> is the evaluation of the path
  \<open>xdr.TransactionEnvelopeType.envelopeTypeTx\<close>, which throws when the SDK exports no such object;
  \<open>s_read_envelope\<close> is \<open>TransactionEnvelope.fromXDR\<close> at a second argument, followed by \<open>new Transaction\<close>;
  \<open>s_read_any\<close> is \<open>TransactionBuilder.fromXDR\<close>; all but the second carry the network's passphrase.  \<open>x_albedoProbe\<close> is whether the request to the Albedo site was answered with success,
  \<open>x_albedoMissing\<close> the error of a property of the missing object.\<close>

record ('w, 'acc, 'asset, 'tx, 'kp) stellar =
  s_loadAccount :: "string \<Rightarrow> ('w, 'acc) io"
  s_balances :: "'acc \<Rightarrow> balance_line list"
  s_fetchBaseFee :: "('w, js_num) io"
  s_submit :: "'tx \<Rightarrow> ('w, string) io"
  s_native :: 'asset
  s_asset :: "string \<Rightarrow> string \<Rightarrow> 'asset res"
  s_build :: "'acc \<Rightarrow> string \<Rightarrow> 'asset payment_op \<Rightarrow> string option \<Rightarrow> int \<Rightarrow> 'tx res"
  s_feeBump :: "string \<Rightarrow> string \<Rightarrow> 'tx \<Rightarrow> 'tx res"
  s_toXDR :: "'tx \<Rightarrow> string"
  s_read :: "string \<Rightarrow> 'tx res"
  s_envelopeTypeTx :: "xdr_argument res"
  s_read_envelope :: "xdr_argument \<Rightarrow> string \<Rightarrow> 'tx res"
  s_read_any :: "string \<Rightarrow> 'tx res"
  s_sign :: "'kp \<Rightarrow> 'tx \<Rightarrow> 'tx"
  s_random :: "('w, 'kp) io"
  s_publicKey :: "'kp \<Rightarrow> string"
  s_secret :: "'kp \<Rightarrow> string"
  s_fromSecret :: "string \<Rightarrow> 'kp res"
  s_BASE_FEE :: string
  x_freighter :: "'w \<Rightarrow> bool"
  x_freighterKey :: "('w, string) io"
  x_freighterSign :: "string \<Rightarrow> ('w, string) io"
  x_albedo :: "'w \<Rightarrow> bool"
  x_albedoProbe :: "('w, bool) io"
  x_albedoKey :: "('w, string) io"
  x_albedoMissing :: js_error
  x_albedoSign :: "string \<Rightarrow> ('w, string) io"

section \<open>Wallet backends\<close>

definition KEY_STORAGE_KEY :: string where "KEY_STORAGE_KEY = ''stellar_keypair''"

definition checkFreighter :: "('w, 'acc, 'asset, 'tx, 'kp) stellar \<Rightarrow> ('w, bool) io" where
  "checkFreighter S = asks (x_freighter S)"

definition connectFreighter :: "('w, 'acc, 'asset, 'tx, 'kp) stellar \<Rightarrow> ('w, StellarWalletState) io" where
  "connectFreighter S = bnd (asks (x_freighter S)) (\<lambda>freighter.
     if \<not> freighter then throw (Error ''Freighter extension not found'')
     else bnd (x_freighterKey S) (\<lambda>k. ret \<lparr>sw_publicKey = k, sw_isConnected = True, sw_source = Some Freighter\<rparr>))"

definition signWithFreighter :: "('w, 'acc, 'asset, 'tx, 'kp) stellar \<Rightarrow> string \<Rightarrow> ('w, string) io" where
  "signWithFreighter S txXdr = bnd (asks (x_freighter S)) (\<lambda>freighter.
     if \<not> freighter then throw (Error ''Freighter extension not found'') else x_freighterSign S txXdr)"

text \<open>Without the extension the site is probed; the call on the missing object then throws.\<close>

definition connectAlbedo :: "('w, 'acc, 'asset, 'tx, 'kp) stellar \<Rightarrow> ('w, StellarWalletState) io" where
  "connectAlbedo S = try_catch
     (bnd (asks (x_albedo S)) (\<lambda>albedo.
      bnd (if albedo then ret () else bnd (x_albedoProbe S) (\<lambda>res_ok.
             if res_ok then ret () else throw (Error ''Albedo not available''))) (\<lambda>_.
      bnd (asks (x_albedo S)) (\<lambda>present.
      bnd (if present then x_albedoKey S else throw (x_albedoMissing S)) (\<lambda>k.
        ret \<lparr>sw_publicKey = k, sw_isConnected = True, sw_source = Some Albedo\<rparr>)))))
     (\<lambda>e. throw (Error (''Failed to connect Albedo: '' @ message_or ''undefined'' e)))"

definition signWithAlbedo :: "('w, 'acc, 'asset, 'tx, 'kp) stellar \<Rightarrow> string \<Rightarrow> ('w, string) io" where
  "signWithAlbedo S txXdr = bnd (asks (x_albedo S)) (\<lambda>albedo.
     if \<not> albedo then throw (Error ''Albedo not available'') else x_albedoSign S txXdr)"

definition generateLocalKeypair :: "('w, 'acc, 'asset, 'tx, 'kp) stellar \<Rightarrow> ('w, string \<times> string) io" where
  "generateLocalKeypair S = bnd (s_random S) (\<lambda>kp. ret (s_publicKey S kp, s_secret S kp))"

definition saveLocalKeypair :: "(string \<Rightarrow> string \<Rightarrow> ('w, unit) io) \<Rightarrow> string \<Rightarrow> ('w, unit) io" where
  "saveLocalKeypair setA secretKey = setA KEY_STORAGE_KEY secretKey"

definition getLocalKeypair ::
  "('w, 'acc, 'asset, 'tx, 'kp) stellar \<Rightarrow> (string \<Rightarrow> 'w \<Rightarrow> string option res) \<Rightarrow> ('w, 'kp option) io" where
  "getLocalKeypair S getA = try_catch
     (bnd (reads (getA KEY_STORAGE_KEY)) (\<lambda>secret. if \<not> truthy secret then ret None
        else bnd (reads (\<lambda>_. s_fromSecret S (the secret))) (\<lambda>kp. ret (Some kp))))
     (\<lambda>_. ret None)"

definition connectLocalWallet ::
  "('w, 'acc, 'asset, 'tx, 'kp) stellar \<Rightarrow> (string \<Rightarrow> 'w \<Rightarrow> string option res) \<Rightarrow> ('w, StellarWalletState) io" where
  "connectLocalWallet S getA = bnd (getLocalKeypair S getA) (\<lambda>kp. case kp of
       None \<Rightarrow> throw (Error ''No local keypair found. Generate one first.'')
     | Some k \<Rightarrow> ret \<lparr>sw_publicKey = s_publicKey S k, sw_isConnected = True, sw_source = Some LocalKey\<rparr>)"

section \<open>Balances and fees\<close>

definition getAccountBalance ::
  "('w, 'acc, 'asset, 'tx, 'kp) stellar \<Rightarrow> string \<Rightarrow> ('w, (string \<times> string) list) io" where
  "getAccountBalance S publicKey = try_catch
     (bnd (s_loadAccount S publicKey) (\<lambda>account. ret (map (\<lambda>b. (bl_balance b,
        if bl_asset_type b = ''native'' then ''XLM'' else or_else (bl_asset_code b) ''XLM'')) (s_balances S account))))
     (\<lambda>_. ret [])"

text \<open>A value of a decoded JSON text; \<open>JUndef\<close> is a missing property.\<close>

datatype js_value = JUndef | JNull | JBool bool | JNumber js_num | JString string
  | JArray "js_value list" | JObject "(string \<times> js_value) list"

definition NUMERIC_KEYS :: "string list" where
  "NUMERIC_KEYS = [''value'', ''amount'', ''fee'', ''feeCharged'', ''fee_charged'', ''minResourceFee'', ''min_resource_fee'',
     ''cpuInsns'', ''cpu_insns'', ''memBytes'', ''mem_bytes'']"

text \<open>The first of the keys whose property reads as a number.\<close>

fun first_numeric :: "(string \<times> string option) list \<Rightarrow> string list \<Rightarrow> string option" where
  "first_numeric ps [] = None"
| "first_numeric ps (k # ks) = (case map_of ps k of Some p \<Rightarrow> if truthy p then p else first_numeric ps ks
     | None \<Rightarrow> first_numeric ps ks)"

fun parseNumericValue :: "js_value \<Rightarrow> string option" where
  "parseNumericValue (JNumber n) = (if isFinite n then Some (show_num n) else None)"
| "parseNumericValue (JString s) = (let trimmed = trim s in if trimmed = [] then None
     else let numeric = Number trimmed in if isFinite numeric then Some (show_num numeric) else None)"
| "parseNumericValue (JArray (v # vs)) = parseNumericValue v"
| "parseNumericValue (JArray []) = first_numeric [] NUMERIC_KEYS"
| "parseNumericValue (JObject ps) = first_numeric (map (\<lambda>(k, v). (k, parseNumericValue v)) ps) NUMERIC_KEYS"
| "parseNumericValue _ = None"

fun prop_of :: "js_value \<Rightarrow> string \<Rightarrow> js_value" where
  "prop_of (JObject ps) k = (case map_of ps k of None \<Rightarrow> JUndef | Some v \<Rightarrow> v)"
| "prop_of _ k = JUndef"

text \<open>\<open>a ?? b ?? ...\<close> over the parsed properties.\<close>

fun first_some :: "'a option list \<Rightarrow> 'a option" where
  "first_some [] = None"
| "first_some (Some a # xs) = Some a"
| "first_some (None # xs) = first_some xs"

record TransactionFeeEstimate =
  tf_baseFee :: string
  tf_minResourceFee :: string
  tf_totalFee :: string
  tf_cpuInsns :: "string option"
  tf_memBytes :: "string option"

definition fee_fields :: "js_value \<Rightarrow> js_num \<Rightarrow> TransactionFeeEstimate" where
  "fee_fields resp baseFee =
     (let result = prop_of resp ''result''; cost = prop_of result ''cost'';
          minResourceFee = (case first_some (map parseNumericValue
              [prop_of result ''minResourceFee'', prop_of result ''min_resource_fee'',
               prop_of cost ''feeCharged'', prop_of cost ''fee_charged'',
               prop_of result ''feeCharged'', prop_of result ''fee_charged'',
               prop_of cost ''feeChanges'', prop_of cost ''fee_changes''])
            of None \<Rightarrow> ''0'' | Some t \<Rightarrow> t);
          baseFeeValue = num_or baseFee (Fin 0);
          minResourceFeeValue = num_or (Number minResourceFee) (Fin 0)
      in \<lparr>tf_baseFee = show_num baseFeeValue, tf_minResourceFee = show_num minResourceFeeValue,
        tf_totalFee = show_num (num_add baseFeeValue minResourceFeeValue),
        tf_cpuInsns = first_some (map parseNumericValue [prop_of cost ''cpuInsns'', prop_of cost ''cpu_insns'']),
        tf_memBytes = first_some (map parseNumericValue [prop_of cost ''memBytes'', prop_of cost ''mem_bytes''])\<rparr>)"

text \<open>The body of the request is the transaction to simulate.\<close>

definition estimateTransactionFee ::
  "('w, 'acc, 'asset, 'tx, 'kp) stellar \<Rightarrow> (string request \<Rightarrow> ('w, js_value response) io) \<Rightarrow> string option \<Rightarrow> string
     \<Rightarrow> string \<Rightarrow> ('w, TransactionFeeEstimate) io" where
  "estimateTransactionFee S fetch rpc_env network txXdr =
     bnd (s_fetchBaseFee S) (\<lambda>baseFee.
     let sorobanRpcUrl = or_else rpc_env (if network = ''PUBLIC'' then ''https://soroban.stellar.org''
           else ''https://soroban-testnet.stellar.org'') in
     bnd (fetch \<lparr>url = sorobanRpcUrl, meth = ''POST'', headers = json_header, body = Some txXdr\<rparr>) (\<lambda>r.
       if \<not> ok r then throw (Error (''Soroban simulation failed with HTTP '' @ show_int (status r)))
       else bnd (reads (\<lambda>_. json r)) (\<lambda>b. ret (fee_fields b baseFee))))"

section \<open>Payments\<close>

definition payment_asset ::
  "('w, 'acc, 'asset, 'tx, 'kp) stellar \<Rightarrow> string \<Rightarrow> string option \<Rightarrow> 'asset res" where
  "payment_asset S assetCode assetIssuer =
     (if assetCode = ''XLM'' then Ret (s_native S)
      else if truthy assetIssuer then s_asset S assetCode (the assetIssuer)
      else Ret (s_native S))"

definition buildPaymentEnvelope ::
  "('w, 'acc, 'asset, 'tx, 'kp) stellar \<Rightarrow> string \<Rightarrow> string \<Rightarrow> string \<Rightarrow> string option \<Rightarrow> string option
     \<Rightarrow> string option \<Rightarrow> ('w, string) io" where
  "buildPaymentEnvelope S sourcePublicKey destination amount assetCode assetIssuer memo =
     bnd (s_loadAccount S sourcePublicKey) (\<lambda>sourceAccount.
     bnd (reads (\<lambda>_. payment_asset S (case assetCode of None \<Rightarrow> ''XLM'' | Some c \<Rightarrow> c) assetIssuer)) (\<lambda>asset.
     bnd (s_fetchBaseFee S) (\<lambda>fee.
     bnd (reads (\<lambda>_. s_build S sourceAccount (show_num fee)
            \<lparr>op_destination = destination, op_asset = asset, op_amount = amount\<rparr> (if_truthy memo) 300)) (\<lambda>transaction.
       ret (s_toXDR S transaction)))))"

definition SPEED_UP_FEE_MULTIPLIER :: rat where "SPEED_UP_FEE_MULTIPLIER = 2"

definition buildFeeBumpEnvelope ::
  "('w, 'acc, 'asset, 'tx, 'kp) stellar \<Rightarrow> string \<Rightarrow> string \<Rightarrow> string \<Rightarrow> 'tx res" where
  "buildFeeBumpEnvelope S innerTxXdr feeSource baseFee = (case s_read S innerTxXdr of Throw e \<Rightarrow> Throw e
     | Ret innerTx \<Rightarrow> s_feeBump S feeSource baseFee innerTx)"

definition local_key ::
  "('w, 'acc, 'asset, 'tx, 'kp) stellar \<Rightarrow> (string \<Rightarrow> 'w \<Rightarrow> string option res) \<Rightarrow> ('w, 'kp) io" where
  "local_key S getA = bnd (getLocalKeypair S getA) (\<lambda>kp. case kp of
       None \<Rightarrow> throw (Error ''No local keypair available'') | Some k \<Rightarrow> ret k)"

definition signAndSubmitTransaction ::
  "('w, 'acc, 'asset, 'tx, 'kp) stellar \<Rightarrow> (string \<Rightarrow> 'w \<Rightarrow> string option res) \<Rightarrow> string \<Rightarrow> wallet_source
     \<Rightarrow> ('w, string) io" where
  "signAndSubmitTransaction S getA txXdr source =
     bnd (case source of Freighter \<Rightarrow> signWithFreighter S txXdr
          | Albedo \<Rightarrow> signWithAlbedo S txXdr
          | LocalKey \<Rightarrow> bnd (local_key S getA) (\<lambda>kp. bnd (reads (\<lambda>_. s_read S txXdr)) (\<lambda>transaction.
              ret (s_toXDR S (s_sign S kp transaction))))) (\<lambda>signedXdr.
     bnd (reads (\<lambda>_. s_envelopeTypeTx S)) (\<lambda>envelopeTypeTx.
     bnd (reads (\<lambda>_. s_read_envelope S envelopeTypeTx signedXdr)) (\<lambda>transaction. s_submit S transaction)))"

text \<open>The larger of twice the network's base fee and twice the SDK's minimum.\<close>

definition bumpedFee :: "('w, 'acc, 'asset, 'tx, 'kp) stellar \<Rightarrow> js_num \<Rightarrow> js_num" where
  "bumpedFee S baseFee = (let minimumFee = num_or (Number (s_BASE_FEE S)) (Fin 100) in
     num_max (num_mul baseFee (Fin SPEED_UP_FEE_MULTIPLIER)) (num_mul minimumFee (Fin SPEED_UP_FEE_MULTIPLIER)))"

definition fee_payer ::
  "('w, 'acc, 'asset, 'tx, 'kp) stellar \<Rightarrow> (string \<Rightarrow> 'w \<Rightarrow> string option res) \<Rightarrow> wallet_source \<Rightarrow> string option
     \<Rightarrow> ('w, string) io" where
  "fee_payer S getA source feeSource = (if truthy feeSource then ret (the feeSource)
     else case source of Freighter \<Rightarrow> bnd (connectFreighter S) (\<lambda>st. ret (sw_publicKey st))
       | Albedo \<Rightarrow> bnd (connectAlbedo S) (\<lambda>st. ret (sw_publicKey st))
       | LocalKey \<Rightarrow> bnd (local_key S getA) (\<lambda>kp. ret (s_publicKey S kp)))"

definition speedUpTransaction ::
  "('w, 'acc, 'asset, 'tx, 'kp) stellar \<Rightarrow> (string \<Rightarrow> 'w \<Rightarrow> string option res) \<Rightarrow> string \<Rightarrow> wallet_source
     \<Rightarrow> string option \<Rightarrow> ('w, string) io" where
  "speedUpTransaction S getA txXdr source feeSource =
     bnd (fee_payer S getA source feeSource) (\<lambda>feePayer.
     bnd (s_fetchBaseFee S) (\<lambda>baseFee.
     bnd (reads (\<lambda>_. buildFeeBumpEnvelope S txXdr feePayer (show_num (bumpedFee S baseFee)))) (\<lambda>feeBump.
     bnd (case source of Freighter \<Rightarrow> signWithFreighter S (s_toXDR S feeBump)
          | Albedo \<Rightarrow> signWithAlbedo S (s_toXDR S feeBump)
          | LocalKey \<Rightarrow> bnd (local_key S getA) (\<lambda>kp. ret (s_toXDR S (s_sign S kp feeBump)))) (\<lambda>signedXdr.
     bnd (reads (\<lambda>_. s_read_any S signedXdr)) (\<lambda>submitted. s_submit S submitted)))))"

record payment_record =
  pr_hash :: string
  pr_destination :: string
  pr_amount :: string
  pr_asset :: string
  pr_memo :: "string option"

record payment_result =
  ps_hash :: string
  ps_destination :: string
  ps_amount :: string

definition submitPayment ::
  "('w, 'acc, 'asset, 'tx, 'kp) stellar \<Rightarrow> (string \<Rightarrow> 'w \<Rightarrow> string option res)
     \<Rightarrow> (payment_record request \<Rightarrow> ('w, 'j response) io) \<Rightarrow> (js_num \<Rightarrow> ('w, unit) io) \<Rightarrow> (int \<Rightarrow> 'w \<Rightarrow> 'w) \<Rightarrow> string
     \<Rightarrow> string \<Rightarrow> string \<Rightarrow> wallet_source \<Rightarrow> string \<Rightarrow> string option \<Rightarrow> string option \<Rightarrow> string option
     \<Rightarrow> ('w, payment_result) io" where
  "submitPayment S getA fetch sleep warn api_base destination amount source sourcePublicKey assetCode assetIssuer memo =
     bnd (buildPaymentEnvelope S sourcePublicKey destination amount assetCode assetIssuer memo) (\<lambda>txXdr.
     bnd (signAndSubmitTransaction S getA txXdr source) (\<lambda>hash.
     bnd (try_catch
       (bnd (fetchWithRetry fetch sleep warn \<lparr>url = api_base @ ''/api/transactions'', meth = ''POST'', headers = Map.empty,
           body = Some \<lparr>pr_hash = hash, pr_destination = destination, pr_amount = amount,
             pr_asset = or_else assetCode ''XLM'', pr_memo = memo\<rparr>\<rparr> no_options) (\<lambda>_. ret ()))
       (\<lambda>_. ret ())) (\<lambda>_.
     ret \<lparr>ps_hash = hash, ps_destination = destination, ps_amount = amount\<rparr>)))"

section \<open>What a payment submits\<close>

lemma local_key_Ret:
  "local_key S getA w = (Ret kp, w') \<Longrightarrow> w' = w \<and> (\<exists>sec. getA KEY_STORAGE_KEY w = Ret (Some sec) \<and> s_fromSecret S sec = Ret kp)"
  by (auto simp: local_key_def getLocalKeypair_def bnd_apply try_catch_apply
      split: res.splits option.splits if_splits prod.splits elim: truthy.elims)

lemma swallowed: "\<exists>w'. try_catch (bnd m (\<lambda>_. ret ())) (\<lambda>_. ret ()) w = (Ret (), w')"
  by (simp add: try_catch_apply bnd_apply split: res.splits prod.splits)

lemma submitPayment_eq:
  "fst (submitPayment S getA fetch sleep warn base destination amount source pk code issuer memo w)
   = (case fst (bnd (buildPaymentEnvelope S pk destination amount code issuer memo)
        (\<lambda>txXdr. signAndSubmitTransaction S getA txXdr source) w) of Throw e \<Rightarrow> Throw e
      | Ret hash \<Rightarrow> Ret \<lparr>ps_hash = hash, ps_destination = destination, ps_amount = amount\<rparr>)"
proof -
  have k: "fst (bnd (try_catch (bnd m (\<lambda>_. ret ())) (\<lambda>_. ret ())) (\<lambda>_. ret a) v) = Ret a" for m a v
    using swallowed[of m v] by (auto simp: bnd_apply)
  show ?thesis unfolding submitPayment_def
    by (auto simp: k bnd_apply[of "buildPaymentEnvelope _ _ _ _ _ _ _"] bnd_apply[of "signAndSubmitTransaction _ _ _ _"]
        split: res.splits prod.splits)
qed

lemma local_key_iff:
  "local_key S getA w = (Ret kp, w') \<longleftrightarrow> w' = w \<and> (\<exists>sec. getA KEY_STORAGE_KEY w = Ret (Some sec) \<and> sec \<noteq> [] \<and> s_fromSecret S sec = Ret kp)"
  by (auto simp: local_key_def getLocalKeypair_def bnd_apply try_catch_apply neq_Nil_conv
      split: res.splits option.splits if_splits prod.splits elim: truthy.elims)

lemma buildPaymentEnvelope_Ret:
  "buildPaymentEnvelope S pk destination amount code issuer memo w = (Ret x, w2) \<longleftrightarrow> (\<exists>acc w1 asset fee tx.
    s_loadAccount S pk w = (Ret acc, w1) \<and> s_fetchBaseFee S w1 = (Ret fee, w2)
    \<and> payment_asset S (case code of None \<Rightarrow> ''XLM'' | Some c \<Rightarrow> c) issuer = Ret asset
    \<and> s_build S acc (show_num fee) \<lparr>op_destination = destination, op_asset = asset, op_amount = amount\<rparr> (if_truthy memo) 300 = Ret tx
    \<and> x = s_toXDR S tx)"
  by (auto simp: buildPaymentEnvelope_def bnd_apply split: res.splits prod.splits)

lemma local_submission_Ret:
  assumes "\<And>t. s_read S (s_toXDR S t) = Ret t"
  shows "fst (signAndSubmitTransaction S getA (s_toXDR S tx) LocalKey w) = Ret hash \<longleftrightarrow> (\<exists>sec kp arg tx'.
    getA KEY_STORAGE_KEY w = Ret (Some sec) \<and> sec \<noteq> [] \<and> s_fromSecret S sec = Ret kp \<and> s_envelopeTypeTx S = Ret arg
    \<and> s_read_envelope S arg (s_toXDR S (s_sign S kp tx)) = Ret tx' \<and> fst (s_submit S tx' w) = Ret hash)"
proof (cases "local_key S getA w")
  case (Pair k v)
  show ?thesis
  proof (cases k)
    case (Throw e)
    then have "\<not> (\<exists>sec kp. getA KEY_STORAGE_KEY w = Ret (Some sec) \<and> sec \<noteq> [] \<and> s_fromSecret S sec = Ret kp)"
      using Pair local_key_iff[of S getA w _ w] by auto
    then show ?thesis using Pair Throw by (auto simp: signAndSubmitTransaction_def bnd_apply)
  next
    case (Ret kp)
    then obtain sec where k: "v = w" "getA KEY_STORAGE_KEY w = Ret (Some sec)" "sec \<noteq> []" "s_fromSecret S sec = Ret kp"
      using Pair local_key_iff[of S getA w kp v] by auto
    show ?thesis using Pair Ret k
      by (auto simp: signAndSubmitTransaction_def bnd_apply assms split: res.splits prod.splits)
  qed
qed


text \<open>A toy network: a transaction is the text of its payment, a signature a prefix.\<close>

definition toy_stellar :: "(string list, string, string, string, string) stellar" where
  "toy_stellar = \<lparr>s_loadAccount = (\<lambda>k. ret k), s_balances = (\<lambda>_. []), s_fetchBaseFee = ret (Fin 100),
     s_submit = (\<lambda>t w. (Ret ''hash'', w @ [t])), s_native = ''native'', s_asset = (\<lambda>c i. Ret (c @ '':'' @ i)),
     s_build = (\<lambda>a f p m t. Ret (op_destination p @ '' '' @ op_amount p @ '' '' @ op_asset p)),
     s_feeBump = (\<lambda>src f t. Ret (f @ '' '' @ t)), s_toXDR = (\<lambda>t. t), s_read = Ret, s_envelopeTypeTx = Ret NotAFormat,
     s_read_envelope = (\<lambda>_. Ret), s_read_any = Ret,
     s_sign = (\<lambda>k t. k @ '' '' @ t), s_random = ret ''S'', s_publicKey = (\<lambda>k. k), s_secret = (\<lambda>k. k), s_fromSecret = Ret,
     s_BASE_FEE = ''100'', x_freighter = (\<lambda>_. False), x_freighterKey = ret [], x_freighterSign = (\<lambda>t. ret t),
     x_albedo = (\<lambda>_. False), x_albedoProbe = ret False, x_albedoKey = ret [], x_albedoMissing = NonError,
     x_albedoSign = (\<lambda>t. ret t)\<rparr>"

definition no_backend :: "payment_record request \<Rightarrow> (string list, unit response) io" where
  "no_backend rq = throw (Error ''offline'')"


text \<open>
  If the SDK at hand has no \<open>xdr.TransactionEnvelopeType\<close>, or \<open>fromXDR\<close> refuses what the path holds
  as a format, then no payment is ever submitted, whatever backend signs it: every
  \<open>signAndSubmitTransaction\<close> is rejected, and it is the same computation for every network.
\<close>

lemma bnd_refused:
  assumes "\<And>a w. \<exists>e. f a w = (Throw e, w)"
  shows "\<exists>e. fst (bnd m f w) = Throw e"
proof (cases "m w")
  case (Pair r v)
  then show ?thesis using assms by (cases r) (auto simp: bnd_apply, metis fst_conv)
qed

theorem envelope_argument_refused:
  assumes "\<And>arg. s_envelopeTypeTx S = Ret arg \<Longrightarrow> \<forall>x. \<exists>e. s_read_envelope S arg x = Throw e"
  shows "(\<exists>e. fst (signAndSubmitTransaction S getA txXdr source w) = Throw e)
    \<and> signAndSubmitTransaction (S\<lparr>s_submit := net\<rparr>) getA txXdr source w = signAndSubmitTransaction S getA txXdr source w
    \<and> (\<exists>e. fst (submitPayment S getA fetch sleep warn base destination amount source pk code issuer memo w) = Throw e)"
proof -
  let ?f = "\<lambda>n signedXdr. bnd (reads (\<lambda>_. s_envelopeTypeTx S)) (\<lambda>arg.
     bnd (reads (\<lambda>_. s_read_envelope S arg signedXdr)) (\<lambda>transaction. n transaction))"
  have f: "\<exists>e. ?f n x v = (Throw e, v) \<and> ?f m x v = (Throw e, v)" for n m x v
  proof (cases "s_envelopeTypeTx S")
    case (Ret arg)
    with assms obtain e where "s_read_envelope S arg x = Throw e" by blast
    with Ret show ?thesis by (simp add: bnd_apply)
  qed (simp add: bnd_apply)
  have g: "\<exists>e. fst (signAndSubmitTransaction S getA x source v) = Throw e" for x v
    unfolding signAndSubmitTransaction_def by (rule bnd_refused) (use f in metis)
  have "?f net = ?f (s_submit S)"
  proof (rule ext, rule ext)
    fix x v show "?f net x v = ?f (s_submit S) x v" using f[of x net v "s_submit S"] by auto
  qed
  then have "signAndSubmitTransaction (S\<lparr>s_submit := net\<rparr>) getA txXdr source w = signAndSubmitTransaction S getA txXdr source w"
    by (simp add: signAndSubmitTransaction_def signWithFreighter_def signWithAlbedo_def local_key_def getLocalKeypair_def
        cong: wallet_source.case_cong if_cong)
  moreover have "\<exists>e. fst (submitPayment S getA fetch sleep warn base destination amount source pk code issuer memo w) = Throw e"
    unfolding submitPayment_eq using g by (auto simp: bnd_apply split: res.splits prod.splits) (metis fst_conv res.distinct(1))
  ultimately show ?thesis using g by blast
qed

text \<open>
  An issued asset whose issuer is missing is paid in the native asset: the envelope is the very
  one for lumens, so a request to send 5 USDC sends 5 XLM.
\<close>

theorem missing_issuer_pays_native:
  "buildPaymentEnvelope S pk destination amount (Some code) None memo
     = buildPaymentEnvelope S pk destination amount (Some ''XLM'') None memo
   \<and> buildPaymentEnvelope S pk destination amount (Some code) (Some []) memo
     = buildPaymentEnvelope S pk destination amount (Some ''XLM'') None memo"
  by (simp add: buildPaymentEnvelope_def payment_asset_def)

section \<open>Fees\<close>

lemma parse_nat_text: "n \<le> 2 ^ 53 \<Longrightarrow> parseNumericValue (JString (show_int (int n))) = Some (show_int (int n))"
proof -
  assume n: "n \<le> 2 ^ 53"
  have "list_all (\<lambda>c. \<not> is_ws c) (show_int (int n))"
    using nat_digits_digit[of n] is_digit_not_ws by (auto simp: show_int_def list_all_iff)
  then have t: "trim (show_int (int n)) = show_int (int n)" by (rule trim_no_ws)
  have "int n \<le> 2 ^ 53" using n by (simp add: nat_le_iff)
  then have "show_num (Fin (of_nat n)) = show_int (int n)" using show_num_of_int[of "int n"] by simp
  then show ?thesis using t Number_show_nat[OF n] by (simp add: show_int_def)
qed

lemma num_or_0: "num_or (Fin q) (Fin 0) = Fin q"
  by (simp add: num_or_def)

text \<open>
  The fee estimate adds up: when the server's base fee is \<open>b\<close> and the simulation reports a
  resource fee of \<open>r\<close>, as a numeral under any of the eight names the code tries in turn with the
  earlier ones absent, the estimate shows \<open>b\<close>, \<open>r\<close> and \<open>b + r\<close>, exactly, for fees up to \<open>2 ^ 52\<close>.
\<close>

theorem fee_estimate_adds:
  assumes "b \<le> 2 ^ 52" "r \<le> 2 ^ 52"
    and "place \<in> {\<lambda>v. [(''minResourceFee'', v)], \<lambda>v. [(''min_resource_fee'', v)],
      \<lambda>v. [(''cost'', JObject [(''feeCharged'', v)])], \<lambda>v. [(''cost'', JObject [(''fee_charged'', v)])],
      \<lambda>v. [(''feeCharged'', v)], \<lambda>v. [(''fee_charged'', v)],
      \<lambda>v. [(''cost'', JObject [(''feeChanges'', v)])], \<lambda>v. [(''cost'', JObject [(''fee_changes'', v)])]}"
  shows "fee_fields (JObject [(''result'', JObject (place (JString (show_int (int r)))))]) (Fin (of_nat b))
    = \<lparr>tf_baseFee = show_int (int b), tf_minResourceFee = show_int (int r), tf_totalFee = show_int (int (b + r)),
       tf_cpuInsns = None, tf_memBytes = None\<rparr>"
proof -
  have le: "int b \<le> 2 ^ 52" "int r \<le> 2 ^ 52" using assms(1,2) by (simp_all add: nat_le_iff)
  have r53: "r \<le> 2 ^ 53" using assms(2) by simp
  have "num_add (Fin (of_nat b)) (Fin (of_nat r)) = to_num (of_int (int (b + r)))" by simp
  also have "\<dots> = Fin (of_int (int (b + r)))" using le by (intro to_num_of_int) simp
  finally have sum: "num_add (Fin (of_nat b)) (Fin (of_nat r)) = Fin (of_nat (b + r))" by simp
  have shw: "show_num (Fin (of_nat n)) = show_int (int n)" if "int n \<le> 2 ^ 53" for n
    using show_num_of_int[of "int n"] that by simp
  have texts: "show_num (Fin (of_nat b)) = show_int (int b)" "show_num (Fin (of_nat r)) = show_int (int r)"
    "show_num (Fin (of_nat (b + r))) = show_int (int (b + r))"
    using le by (intro shw; simp)+
  let ?v = "JString (show_int (int r))"
  have v: "parseNumericValue ?v = Some (show_int (int r))" using parse_nat_text[OF r53] .
  have "first_some (map parseNumericValue (let result = prop_of (JObject [(''result'', JObject (place ?v))]) ''result'';
        cost = prop_of result ''cost'' in
              [prop_of result ''minResourceFee'', prop_of result ''min_resource_fee'',
               prop_of cost ''feeCharged'', prop_of cost ''fee_charged'',
               prop_of result ''feeCharged'', prop_of result ''fee_charged'',
               prop_of cost ''feeChanges'', prop_of cost ''fee_changes''])) = Some (show_int (int r))"
    using assms(3) by (auto simp: v simp del: parseNumericValue.simps(2))
  moreover have "first_some (map parseNumericValue (let cost = prop_of (JObject (place ?v)) ''cost'' in
      [prop_of cost k1, prop_of cost k2])) = None" if "k1 \<in> {''cpuInsns'', ''memBytes''}" "k2 \<in> {''cpu_insns'', ''mem_bytes''}" for k1 k2
    using assms(3) that by auto
  ultimately show ?thesis
    using Number_show_nat[OF r53] sum texts
    by (simp add: fee_fields_def Let_def num_or_0 del: parseNumericValue.simps num_add.simps show_num.simps)
qed

theorem fee_estimate_adds_witness:
  "tf_totalFee (fee_fields (JObject [(''result'', JObject [(''cost'', JObject [(''fee_charged'', JString ''23'')])])]) (Fin 100)) = ''123''"
proof -
  have s: "show_int (int 23) = ''23''" "show_int (int (100 + 23)) = ''123''" by code_simp+
  from fee_estimate_adds[of 100 23 "\<lambda>v. [(''cost'', JObject [(''fee_charged'', v)])]"] show ?thesis unfolding s by simp
qed

text \<open>
  The fee bump offers twice the network's base fee and never less than 200 stroops: when the
  server answers with a base fee of \<open>b\<close>, the inner transaction is wrapped with exactly \<open>max (2 b) 200\<close>.
\<close>

theorem speed_up_pays_double:
  assumes "s_BASE_FEE S = ''100''" "0 \<le> b" "b \<le> 2 ^ 52"
    and "fee_payer S getA source feeSource w = (Ret payer, w1)" "s_fetchBaseFee S w1 = (Ret (Fin (of_int b)), w2)"
    and "speedUpTransaction S getA txXdr source feeSource w = (Ret hash, w')"
  shows "\<exists>inner bump. s_read S txXdr = Ret inner \<and> s_feeBump S payer (show_int (max (2 * b) 200)) inner = Ret bump"
proof -
  have n: "Number ''100'' = Fin 100"
  proof -
    have "show_int (int 100) = ''100''" by code_simp
    with Number_show_nat[of 100] show ?thesis by simp
  qed
  have t: "to_num (of_int (2 * b)) = Fin (of_int (2 * b))" using assms(2,3) by (intro to_num_of_int) simp
  have t2: "to_num (of_int 200) = Fin (of_int 200)" by (intro to_num_of_int) simp
  have "bumpedFee S (Fin (of_int b)) = Fin (of_int (max (2 * b) 200))"
    using t t2 by (auto simp: bumpedFee_def assms(1) n num_or_def SPEED_UP_FEE_MULTIPLIER_def num_max_def mult.commute max_def)
  moreover have "show_num (Fin (of_int (max (2 * b) 200))) = show_int (max (2 * b) 200)"
    using assms(2,3) by (intro show_num_of_int) auto
  ultimately have f: "show_num (bumpedFee S (Fin (of_int b))) = show_int (max (2 * b) 200)" by simp
  show ?thesis using assms(6)
    by (auto simp: speedUpTransaction_def bnd_apply assms(4,5) f buildFeeBumpEnvelope_def split: res.splits prod.splits)
qed

theorem speed_up_pays_double_witness:
  "s_feeBump toy_stellar ''S1'' ''200'' ''tx'' = Ret ''200 tx'' \<and>
   (\<exists>inner bump. s_feeBump toy_stellar ''S1'' (show_int (max (2 * 100) 200)) inner = Ret bump)"
proof -
  have f: "fee_payer toy_stellar (\<lambda>_ _. Ret (Some ''S1'')) LocalKey None [] = (Ret ''S1'', [])"
    by (simp add: fee_payer_def toy_stellar_def local_key_def getLocalKeypair_def bnd_apply try_catch_apply)
  have b: "s_fetchBaseFee toy_stellar [] = (Ret (Fin (of_int 100)), [])" by (simp add: toy_stellar_def)
  have "\<exists>h w'. speedUpTransaction toy_stellar (\<lambda>_ _. Ret (Some ''S1'')) ''tx'' LocalKey None [] = (Ret h, w')"
    by (simp add: speedUpTransaction_def f bnd_apply buildFeeBumpEnvelope_def toy_stellar_def local_key_def getLocalKeypair_def
        fee_payer_def try_catch_apply)
  then obtain h w' where s: "speedUpTransaction toy_stellar (\<lambda>_ _. Ret (Some ''S1'')) ''tx'' LocalKey None [] = (Ret h, w')" by blast
  have "s_BASE_FEE toy_stellar = ''100''" by (simp add: toy_stellar_def)
  from speed_up_pays_double[OF this _ _ f b s] show ?thesis by (auto simp: toy_stellar_def)
qed

end
