(* ===== verification/Deep_Links.thy ===== *)
theory Deep_Links
  imports Js_Number Js_Uri
begin

text \<open>
  The links and codes that start a payment or a claim: \<open>mobileapp/src/utils/sep0007.ts\<close> (SEP-0007 and
  \<open>zaps://\<close> payment URIs), \<open>mobileapp/src/utils/sdpDeepLink.ts\<close> and \<open>mobileapp/utils/sdpDeepLink.ts\<close>
  (disbursement invites) and \<open>mobileapp/src/services/nfcTapToPay.ts\<close>.  \<open>Linking.parse\<close>, the NFC
  manager and whether \<open>new URL\<close> accepts a text are arguments.  Percent-escapes in a query read
  through the \<open>URL\<close> class are assumed to be UTF-8.
\<close>

section \<open>SEP-0007\<close>

record Sep0007PaymentParams =
  sp_destination :: string
  sp_amount :: "string option"
  sp_asset_code :: "string option"
  sp_asset_issuer :: "string option"
  sp_memo :: "string option"
  sp_memo_type :: "string option"
  sp_callback :: "string option"
  sp_msg :: "string option"
  sp_network_passphrase :: "string option"
  sp_origin_domain :: "string option"
  sp_signature :: "string option"

record Sep0007TxParams =
  st_xdr :: string
  st_callback :: "string option"
  st_pubkey :: "string option"
  st_msg :: "string option"
  st_network_passphrase :: "string option"
  st_origin_domain :: "string option"
  st_signature :: "string option"

datatype ParseResult = ParseError string | PayUri Sep0007PaymentParams | TxUri Sep0007TxParams

definition base32_char :: "char \<Rightarrow> bool" where
  "base32_char c \<longleftrightarrow> is_upper c \<or> (50 \<le> (of_char c :: nat) \<and> (of_char c :: nat) \<le> 55)"

text \<open>\<open>/^G[A-Z2-7]{55}$/\<close> and \<open>/^[^*]+\*[^*]+\.[^*]+$/\<close>.\<close>

definition isStellarAddress :: "string \<Rightarrow> bool" where
  "isStellarAddress address \<longleftrightarrow> (case address of [] \<Rightarrow> False
     | c # s \<Rightarrow> c = CHR ''G'' \<and> length s = 55 \<and> list_all base32_char s)"

definition isFederatedAddress :: "string \<Rightarrow> bool" where
  "isFederatedAddress address \<longleftrightarrow> (case cut_at (CHR ''*'') address of None \<Rightarrow> False
     | Some (user, domain) \<Rightarrow> user \<noteq> [] \<and> CHR ''*'' \<notin> set domain \<and> CHR ''.'' \<in> set (butlast (tl domain)))"

definition isValidStellarDestination :: "string \<Rightarrow> bool" where
  "isValidStellarDestination destination \<longleftrightarrow> isStellarAddress destination \<or> isFederatedAddress destination"

definition isZapsPayUri :: "string \<Rightarrow> bool" where
  "isZapsPayUri uri \<longleftrightarrow> uri \<noteq> [] \<and>
     (let trimmed = trim uri in startsWith trimmed ''zaps://pay?'' \<or> startsWith trimmed ''zaps://pay/'')"

text \<open>\<open>isNaN(parseFloat(amount)) || parseFloat(amount) < 0\<close>.\<close>

definition bad_amount :: "string \<Rightarrow> bool" where
  "bad_amount amount \<longleftrightarrow> (let parsed = parseFloat amount in parsed = NaN \<or> num_less parsed (Fin 0))"

definition quoted :: "string \<Rightarrow> string" where
  "quoted s = CHR 0x22 # s @ [CHR 0x22]"

definition invalid_destination :: "string \<Rightarrow> ParseResult" where
  "invalid_destination d = ParseError (''Invalid Stellar destination address: '' @ quoted d)"

definition parseZapsPayUri :: "string \<Rightarrow> ParseResult" where
  "parseZapsPayUri uri =
     (if uri = [] then ParseError ''Empty or invalid URI''
      else let trimmed = trim uri in
      if \<not> startsWith trimmed ''zaps://'' then ParseError ''Not a Zaps pay URI (missing zaps:// scheme)''
      else let urlStr = ''https://placeholder/'' @ drop (length ''zaps://'') trimmed;
               get = searchParams_get urlStr;
               destination = (if truthy (get ''address'') then get ''address'' else get ''destination'')
        in if \<not> truthy destination then ParseError ''Missing required field: address''
        else if \<not> isValidStellarDestination (the destination) then invalid_destination (the destination)
        else if get ''amount'' \<noteq> None \<and> bad_amount (the (get ''amount''))
          then ParseError (''Invalid amount: '' @ quoted (the (get ''amount'')))
        else PayUri \<lparr>sp_destination = the destination, sp_amount = get ''amount'',
          sp_asset_code = if_truthy (get ''asset_code''), sp_asset_issuer = if_truthy (get ''asset_issuer''),
          sp_memo = if_truthy (get ''memo''), sp_memo_type = None, sp_callback = None,
          sp_msg = if_truthy (get ''msg''), sp_network_passphrase = None,
          sp_origin_domain = if_truthy (get ''origin_domain''), sp_signature = None\<rparr>)"

text \<open>The loop over the pairs of the query; \<open>decodeURIComponent\<close> throws on a malformed escape.\<close>

fun raw_params :: "(string \<rightharpoonup> string) \<Rightarrow> string list \<Rightarrow> (string \<rightharpoonup> string) res" where
  "raw_params m [] = Ret m"
| "raw_params m (pair # pairs) = (case cut_at (CHR ''='') pair of
      None \<Rightarrow> raw_params m pairs
    | Some (k, v) \<Rightarrow> (case decodeURIComponent k of Throw e \<Rightarrow> Throw e
        | Ret key \<Rightarrow> (case decodeURIComponent v of Throw e \<Rightarrow> Throw e
            | Ret val \<Rightarrow> raw_params (m(key \<mapsto> val)) pairs)))"

definition pay_of :: "(string \<rightharpoonup> string) \<Rightarrow> ParseResult" where
  "pay_of rawParams =
     (let destination = rawParams ''destination''; amount = rawParams ''amount''; memo_type = rawParams ''memo_type'' in
      if \<not> truthy destination then ParseError ''Missing required field: destination''
      else if \<not> isValidStellarDestination (the destination) then invalid_destination (the destination)
      else if amount \<noteq> None \<and> bad_amount (the amount) then ParseError (''Invalid amount: '' @ quoted (the amount))
      else if memo_type \<noteq> None \<and> the memo_type \<notin> set [''text'', ''id'', ''hash'', ''return'']
        then ParseError (''Invalid memo_type: '' @ quoted (the memo_type))
      else PayUri \<lparr>sp_destination = the destination, sp_amount = amount,
          sp_asset_code = if_truthy (rawParams ''asset_code''), sp_asset_issuer = if_truthy (rawParams ''asset_issuer''),
          sp_memo = if_truthy (rawParams ''memo''), sp_memo_type = if_truthy memo_type,
          sp_callback = if_truthy (rawParams ''callback''), sp_msg = if_truthy (rawParams ''msg''),
          sp_network_passphrase = if_truthy (rawParams ''network_passphrase''),
          sp_origin_domain = if_truthy (rawParams ''origin_domain''),
          sp_signature = if_truthy (rawParams ''signature'')\<rparr>)"

definition tx_of :: "(string \<rightharpoonup> string) \<Rightarrow> ParseResult" where
  "tx_of rawParams =
     (if \<not> truthy (rawParams ''xdr'') then ParseError ''Missing required field: xdr''
      else TxUri \<lparr>st_xdr = the (rawParams ''xdr''), st_callback = if_truthy (rawParams ''callback''),
        st_pubkey = if_truthy (rawParams ''pubkey''), st_msg = if_truthy (rawParams ''msg''),
        st_network_passphrase = if_truthy (rawParams ''network_passphrase''),
        st_origin_domain = if_truthy (rawParams ''origin_domain''),
        st_signature = if_truthy (rawParams ''signature'')\<rparr>)"

definition parseSep0007Uri :: "string \<Rightarrow> ParseResult res" where
  "parseSep0007Uri uri =
     (if uri = [] then Ret (ParseError ''Empty or invalid URI'')
      else if startsWith (trim uri) ''zaps://'' then Ret (parseZapsPayUri uri)
      else let trimmed = trim uri in
      if \<not> startsWith trimmed ''web+stellar:''
      then Ret (ParseError ''Not a SEP-0007 URI (missing web+stellar: scheme)'')
      else let withoutScheme = drop (length ''web+stellar:'') trimmed;
               (operation, queryPart) = (case cut_at (CHR ''?'') withoutScheme of
                  None \<Rightarrow> (withoutScheme, []) | Some (a, b) \<Rightarrow> (a, b))
        in if operation \<noteq> ''pay'' \<and> operation \<noteq> ''tx''
           then Ret (ParseError (''Unsupported SEP-0007 operation: '' @ quoted operation
                       @ ''. Expected '' @ quoted ''pay'' @ '' or '' @ quoted ''tx'' @ ''.''))
           else (case (if queryPart = [] then Ret Map.empty
                       else raw_params Map.empty (split (CHR ''&'') queryPart)) of
               Throw e \<Rightarrow> Throw e
             | Ret rawParams \<Rightarrow> Ret (if operation = ''pay'' then pay_of rawParams else tx_of rawParams)))"

text \<open>The entries of the parameter object in the order of the type, and those that are written.\<close>

definition pay_fields :: "Sep0007PaymentParams \<Rightarrow> (string \<times> string option) list" where
  "pay_fields p =
     [(''destination'', Some (sp_destination p)), (''amount'', sp_amount p), (''asset_code'', sp_asset_code p),
      (''asset_issuer'', sp_asset_issuer p), (''memo'', sp_memo p), (''memo_type'', sp_memo_type p),
      (''callback'', sp_callback p), (''msg'', sp_msg p), (''network_passphrase'', sp_network_passphrase p),
      (''origin_domain'', sp_origin_domain p), (''signature'', sp_signature p)]"

definition pay_entries :: "Sep0007PaymentParams \<Rightarrow> (string \<times> string) list" where
  "pay_entries p = map (\<lambda>(k, v). (k, the v)) (filter (\<lambda>(k, v). truthy v) (pay_fields p))"

definition buildSep0007PayUri :: "Sep0007PaymentParams \<Rightarrow> string" where
  "buildSep0007PayUri params = ''web+stellar:pay?'' @ query_text (pay_entries params)"

datatype QrContentType = Sep0007 | ZapsPay | StellarAddress | Unknown

definition detectQrContentType :: "string \<Rightarrow> QrContentType" where
  "detectQrContentType content =
     (if content = [] then Unknown
      else if startsWith content ''web+stellar:'' then Sep0007
      else if isZapsPayUri content then ZapsPay
      else if isValidStellarDestination (trim content) then StellarAddress
      else Unknown)"

section \<open>Disbursement invites\<close>

datatype query_value = One string | Many "string list"

record ParsedURL =
  pu_hostname :: "string option"
  pu_path :: "string option"
  pu_query :: "string \<rightharpoonup> query_value"

definition token_char :: "char \<Rightarrow> bool" where
  "token_char c \<longleftrightarrow> is_upper c \<or> is_lower c \<or> is_digit c \<or> c \<in> set ''._-''"

text \<open>\<open>/^[A-Za-z0-9._-]{6,256}$/\<close>.\<close>

definition isValidSdpToken :: "string \<Rightarrow> bool" where
  "isValidSdpToken token \<longleftrightarrow> list_all token_char token \<and> 6 \<le> length token \<and> length token \<le> 256"

definition CLAIM_PATH_SEGMENT :: string where "CLAIM_PATH_SEGMENT = ''claim''"

definition TOKEN_PARAM_NAMES :: "string list" where
  "TOKEN_PARAM_NAMES = [''token'', ''sdp_token'', ''claim_token'']"

fun first_token :: "(string \<rightharpoonup> query_value) \<Rightarrow> string list \<Rightarrow> string option" where
  "first_token q [] = None"
| "first_token q (name # names) = (case q name of
      Some (One v) \<Rightarrow> if v \<noteq> [] then Some v else first_token q names
    | Some (Many (v # vs)) \<Rightarrow> Some v
    | _ \<Rightarrow> first_token q names)"

datatype SdpClaimParseResult = ClaimError string | ClaimToken string

definition nth_opt :: "'a list \<Rightarrow> nat \<Rightarrow> 'a option" where
  "nth_opt xs i = (if i < length xs then Some (xs ! i) else None)"

definition parseSdpClaimUrl :: "(string \<Rightarrow> ParsedURL res) \<Rightarrow> string option \<Rightarrow> SdpClaimParseResult res" where
  "parseSdpClaimUrl linking_parse url =
     (if \<not> truthy url then Ret (ClaimError ''Empty or invalid URL'')
      else case linking_parse (the url) of Throw _ \<Rightarrow> Ret (ClaimError ''Could not parse URL'')
      | Ret parsed \<Rightarrow>
        (let pathSegments = filter (\<lambda>s. s \<noteq> []) (map trim (split (CHR ''/'')
               (case pu_path parsed of None \<Rightarrow> [] | Some p \<Rightarrow> p)));
             hostname = toLowerCase (case pu_hostname parsed of None \<Rightarrow> [] | Some h \<Rightarrow> h);
             first_is_claim = (map_option toLowerCase (nth_opt pathSegments 0) = Some CLAIM_PATH_SEGMENT)
         in if \<not> (hostname = CLAIM_PATH_SEGMENT \<or> first_is_claim) then Ret (ClaimError ''Not an SDP claim link'')
         else let q = first_token (pu_query parsed) TOKEN_PARAM_NAMES;
                  token = (if truthy q then q
                    else if hostname = CLAIM_PATH_SEGMENT then nth_opt pathSegments 0
                    else if first_is_claim then nth_opt pathSegments 1 else None)
           in if \<not> truthy token then Ret (ClaimError ''Missing claim token in URL'')
           else (case decodeURIComponent (the token) of Throw e \<Rightarrow> Throw e
             | Ret decoded \<Rightarrow> Ret (if isValidSdpToken decoded then ClaimToken decoded
                 else ClaimError ''Malformed claim token''))))"

record SdpDeepLinkParams =
  dl_token :: string
  dl_amount :: js_num

text \<open>\<open>url_ok\<close> tells whether \<open>new URL\<close> accepts a text.\<close>

definition parseSdpDeepLink :: "(string \<Rightarrow> bool) \<Rightarrow> string \<Rightarrow> SdpDeepLinkParams option" where
  "parseSdpDeepLink url_ok url =
     (if url = [] then None
      else let urlString = trim url in
      if \<not> includes_str urlString ''?'' then None
      else if \<not> url_ok urlString then None
      else let token = searchParams_get urlString ''token''; amountRaw = searchParams_get urlString ''amount'' in
      if \<not> truthy token then None
      else if \<not> truthy amountRaw then None
      else let amount = Number (the amountRaw) in
      if amount = NaN \<or> num_le amount (Fin 0) then None
      else Some \<lparr>dl_token = the token, dl_amount = amount\<rparr>)"

section \<open>NFC\<close>

record NfcPaymentPayload =
  np_destination :: string
  np_amount :: string
  np_assetCode :: "string option"
  np_assetIssuer :: "string option"

text \<open>\<open>/^\d+(?:\.\d+)?$/\<close>.\<close>

definition decimal_text :: "string \<Rightarrow> bool" where
  "decimal_text s \<longleftrightarrow> (case span is_digit s of (ip, r) \<Rightarrow> ip \<noteq> [] \<and>
     (r = [] \<or> (hd r = CHR ''.'' \<and> tl r \<noteq> [] \<and> list_all is_digit (tl r))))"

definition nfc_entries :: "NfcPaymentPayload \<Rightarrow> (string \<times> string) list" where
  "nfc_entries p = [(''address'', trim (np_destination p)), (''amount'', np_amount p)]
     @ (if truthy (np_assetCode p) then [(''asset_code'', the (np_assetCode p))] else [])
     @ (if truthy (np_assetIssuer p) then [(''asset_issuer'', the (np_assetIssuer p))] else [])"

text \<open>\<open>encode\<close> is \<open>Ndef.encodeMessage([Ndef.uriRecord(uri)])\<close>.\<close>

definition formatNfcPaymentPayload :: "(string \<Rightarrow> 'm) \<Rightarrow> NfcPaymentPayload \<Rightarrow> (string \<times> 'm) res" where
  "formatNfcPaymentPayload encode payload =
     (if trim (np_destination payload) = [] then Throw (Error ''A destination is required'')
      else if \<not> decimal_text (np_amount payload) \<or> num_le (Number (np_amount payload)) (Fin 0)
      then Throw (Error ''Amount must be a positive decimal'')
      else let uri = ''zaps://pay?'' @ query_text (nfc_entries payload) in Ret (uri, encode uri))"

text \<open>What a discovered tag is read as: its first NDEF payload, else its identifier, else its JSON text.\<close>

datatype ndef_payload = Bytes string | Text string | Other

record nfc_tag =
  tag_payload :: "ndef_payload option"
  tag_id :: "string option"
  tag_json :: string

definition tag_raw :: "nfc_tag \<Rightarrow> string" where
  "tag_raw tag =
     (let raw = trim (case tag_payload tag of Some (Bytes b) \<Rightarrow> b | Some (Text t) \<Rightarrow> t | _ \<Rightarrow> [])
      in if raw \<noteq> [] then raw else or_else (tag_id tag) (tag_json tag))"

text \<open>What settles first: a tag, the failure of the technology request, or the timeout.\<close>

datatype scan_event = Discovered nfc_tag | RequestFailed js_error | TimedOut

definition scan_result :: "int \<Rightarrow> scan_event \<Rightarrow> string res" where
  "scan_result timeoutMs ev = (case ev of Discovered tag \<Rightarrow> Ret (tag_raw tag)
     | RequestFailed e \<Rightarrow> Throw e
     | TimedOut \<Rightarrow> Throw (Error (''NFC scan timed out after '' @ show_int timeoutMs @ ''ms'')))"

definition scanNfcTag ::
  "('w, unit) io \<Rightarrow> ('w, bool) io \<Rightarrow> ('w, bool) io \<Rightarrow> ('w, scan_event) io \<Rightarrow> ('w \<Rightarrow> 'w) \<Rightarrow> int \<Rightarrow> ('w, string) io" where
  "scanNfcTag start isSupported isEnabled race stop timeoutMs =
     bnd start (\<lambda>_. always
       (bnd isSupported (\<lambda>hasNfc.
          if \<not> hasNfc then throw (Error ''NFC is not supported on this device'')
          else bnd isEnabled (\<lambda>enabled.
            if \<not> enabled then throw (Error ''NFC is disabled. Please enable NFC'')
            else bnd race (\<lambda>ev. reads (\<lambda>_. scan_result timeoutMs ev)))))
       stop)"

section \<open>Reading back what was written\<close>

lemma map_of_truthy:
  "distinct (map fst xs) \<Longrightarrow>
   map_of (map (\<lambda>(k, v). (k, the v)) (filter (\<lambda>(k, v). truthy v) xs)) k
     = (case map_of xs k of None \<Rightarrow> None | Some v \<Rightarrow> if_truthy v)"
proof (induction xs)
  case (Cons x xs)
  obtain k' v where x: "x = (k', v)" by fastforce
  have none: "map_of xs k' = None" using Cons.prems x by (simp add: map_of_eq_None_iff)
  show ?case
    using Cons x none by (cases v) (auto simp: if_truthy_def split: option.splits)
qed simp

lemma raw_params_text:
  assumes "\<forall>(k, v) \<in> set ps. utf8_ok k \<and> utf8_ok v"
  shows "raw_params m (map (\<lambda>(k, v). encodeURIComponent k @ ''='' @ encodeURIComponent v) ps) = Ret (m ++ map_of (rev ps))"
  using assms
proof (induction ps arbitrary: m)
  case (Cons kv ps)
  obtain k v where kv: "kv = (k, v)" by fastforce
  have "cut_at (CHR ''='') (encodeURIComponent k @ ''='' @ encodeURIComponent v) = Some (encodeURIComponent k, encodeURIComponent v)"
    using cut_at_append[OF encode_component_delims(2)] by simp
  with Cons kv show ?case by (simp add: decode_encode_component map_add_upd_left map_add_upd[symmetric] del: map_add_upd)
    (simp add: map_add_def fun_eq_iff split: option.splits)
qed simp

lemma split_query_text:
  "ps \<noteq> [] \<Longrightarrow> split (CHR ''&'') (query_text ps) = map (\<lambda>(k, v). encodeURIComponent k @ ''='' @ encodeURIComponent v) ps"
  unfolding query_text_def by (intro split_join) (auto simp: encode_component_delims)

lemma query_text_chars: "c \<in> set (query_text ps) \<Longrightarrow> component_char c \<or> c = CHR ''&'' \<or> c = CHR ''=''"
  unfolding query_text_def using encode_component_chars by (auto dest!: subsetD[OF set_join])

lemma component_char_query: "component_char c \<Longrightarrow> query_char c"
  by (auto simp: component_char_def query_char_def unreserved_def is_upper_def is_lower_def is_digit_def)

lemma query_text_ok: "list_all query_char (query_text ps)" "list_all (\<lambda>c. \<not> is_ws c) (query_text ps)"
proof -
  have "query_char (CHR ''&'')" "query_char (CHR ''='')" "\<not> is_ws (CHR ''&'')" "\<not> is_ws (CHR ''='')"
    by (simp_all add: query_char_def is_ws_def)
  then show "list_all query_char (query_text ps)" "list_all (\<lambda>c. \<not> is_ws c) (query_text ps)"
    using query_text_chars component_char_query component_char_not_ws by (auto simp: list_all_iff)
qed

definition wf_text :: "string option \<Rightarrow> bool" where
  "wf_text s \<longleftrightarrow> (case s of None \<Rightarrow> True | Some x \<Rightarrow> x \<noteq> [] \<and> utf8_ok x)"

text \<open>Parameters a caller can mean: valid, and with no field present but empty.\<close>

definition wf_pay :: "Sep0007PaymentParams \<Rightarrow> bool" where
  "wf_pay p \<longleftrightarrow> isValidStellarDestination (sp_destination p) \<and> utf8_ok (sp_destination p)
     \<and> list_all wf_text [sp_amount p, sp_asset_code p, sp_asset_issuer p, sp_memo p, sp_memo_type p, sp_callback p,
         sp_msg p, sp_network_passphrase p, sp_origin_domain p, sp_signature p]
     \<and> (case sp_amount p of None \<Rightarrow> True | Some a \<Rightarrow> \<not> bad_amount a)
     \<and> (case sp_memo_type p of None \<Rightarrow> True | Some t \<Rightarrow> t \<in> set [''text'', ''id'', ''hash'', ''return''])"

lemma wf_text_if_truthy [simp]: "wf_text s \<Longrightarrow> if_truthy s = s"
  by (auto simp: wf_text_def if_truthy_def split: option.splits)

lemma destination_ne: "isValidStellarDestination d \<Longrightarrow> d \<noteq> []"
  by (auto simp: isValidStellarDestination_def isStellarAddress_def isFederatedAddress_def)

lemma map_of_rev: "distinct (map fst xs) \<Longrightarrow> map_of (rev xs) = map_of xs"
proof (induction xs)
  case (Cons x xs)
  have "map_of xs (fst x) = None" using Cons.prems by (simp add: map_of_eq_None_iff)
  with Cons show ?case by (auto simp: map_add_def fun_eq_iff split: option.splits)
qed simp

lemma pay_fields_keys: "distinct (map fst (pay_fields p))"
  by (simp add: pay_fields_def)

lemma pay_entries_keys: "distinct (map fst (pay_entries p))"
proof -
  have "map fst (pay_entries p) = map fst (filter (\<lambda>(k, v). truthy v) (pay_fields p))"
    unfolding pay_entries_def by (auto simp: comp_def)
  then show ?thesis using pay_fields_keys[of p] by (simp add: distinct_map_filter)
qed

lemma pay_fields_utf8: "wf_pay p \<Longrightarrow> list_all (\<lambda>(k, v). utf8_ok k \<and> (truthy v \<longrightarrow> utf8_ok (the v))) (pay_fields p)"
  by (simp add: wf_pay_def pay_fields_def wf_text_def split: option.splits)

lemma pay_entries_utf8: "wf_pay p \<Longrightarrow> (k, v) \<in> set (pay_entries p) \<Longrightarrow> utf8_ok k \<and> utf8_ok v"
  using pay_fields_utf8[of p] by (auto simp: pay_entries_def list_all_iff)

lemma pay_entries_lookup:
  assumes "wf_pay p"
  shows "map_of (rev (pay_entries p)) k = (case map_of (pay_fields p) k of None \<Rightarrow> None | Some v \<Rightarrow> v)"
proof -
  have "list_all (\<lambda>(k, v). if_truthy v = v) (pay_fields p)"
    using assms destination_ne[of "sp_destination p"]
    by (simp add: wf_pay_def pay_fields_def) (simp add: if_truthy_def)
  then have "map_of (pay_fields p) k = Some v \<Longrightarrow> if_truthy v = v" for v
    by (auto simp: list_all_iff dest!: map_of_SomeD)
  then show ?thesis
    unfolding map_of_rev[OF pay_entries_keys] unfolding pay_entries_def map_of_truthy[OF pay_fields_keys]
    by (simp split: option.splits)
qed

lemma pay_of_entries:
  assumes w: "wf_pay p"
  shows "pay_of (map_of (rev (pay_entries p))) = PayUri p"
proof -
  let ?m = "map_of (rev (pay_entries p))"
  have m: "?m ''destination'' = Some (sp_destination p)" "?m ''amount'' = sp_amount p" "?m ''asset_code'' = sp_asset_code p"
    "?m ''asset_issuer'' = sp_asset_issuer p" "?m ''memo'' = sp_memo p" "?m ''memo_type'' = sp_memo_type p"
    "?m ''callback'' = sp_callback p" "?m ''msg'' = sp_msg p" "?m ''network_passphrase'' = sp_network_passphrase p"
    "?m ''origin_domain'' = sp_origin_domain p" "?m ''signature'' = sp_signature p"
    by (simp_all add: pay_entries_lookup[OF w] pay_fields_def)
  have ok: "truthy (Some (sp_destination p))" "isValidStellarDestination (sp_destination p)"
    "\<not> (sp_amount p \<noteq> None \<and> bad_amount (the (sp_amount p)))"
    "\<not> (sp_memo_type p \<noteq> None \<and> the (sp_memo_type p) \<notin> set [''text'', ''id'', ''hash'', ''return''])"
    using w destination_ne[of "sp_destination p"] unfolding wf_pay_def by (auto split: option.splits)
  show ?thesis
    unfolding pay_of_def Let_def m using ok w by (simp add: wf_pay_def)
qed

lemma pay_entries_ne: "wf_pay p \<Longrightarrow> pay_entries p \<noteq> []"
  using destination_ne[of "sp_destination p"] by (simp add: wf_pay_def pay_entries_def pay_fields_def)

lemma parse_build_pay:
  assumes "wf_pay p"
  shows "parseSep0007Uri (buildSep0007PayUri p) = Ret (PayUri p) \<and> detectQrContentType (buildSep0007PayUri p) = Sep0007"
proof -
  let ?q = "query_text (pay_entries p)"
  let ?u = "''web+stellar:pay?'' @ ?q"
  have "list_all (\<lambda>c. \<not> is_ws c) ?u" using query_text_ok(2) by (simp add: is_ws_def)
  then have t: "trim ?u = ?u" by (rule trim_no_ws)
  have z: "\<not> startsWith ?u ''zaps://''" "startsWith ?u ''web+stellar:''" by (simp_all add: startsWith_def)
  have c: "cut_at (CHR ''?'') (drop (length ''web+stellar:'') ?u) = Some (''pay'', ?q)" by simp
  have ne: "?q \<noteq> []" using split_query_text[OF pay_entries_ne[OF assms]] pay_entries_ne[OF assms]
    by (cases "pay_entries p") auto
  have r: "raw_params Map.empty (split (CHR ''&'') ?q) = Ret (map_of (rev (pay_entries p)))"
    using split_query_text[OF pay_entries_ne[OF assms]] raw_params_text[of "pay_entries p" Map.empty]
      pay_entries_utf8[OF assms] by auto
  have "parseSep0007Uri ?u = Ret (PayUri p)"
    unfolding parseSep0007Uri_def t Let_def c using z ne by (simp add: r pay_of_entries[OF assms])
  then show ?thesis using z by (simp add: buildSep0007PayUri_def detectQrContentType_def)
qed

definition sample_pay :: Sep0007PaymentParams where
  "sample_pay = \<lparr>sp_destination = ''ada*zaps.app'', sp_amount = Some ''12.5'', sp_asset_code = None, sp_asset_issuer = None,
     sp_memo = Some ''a&b=c? 100%'', sp_memo_type = Some ''text'', sp_callback = None, sp_msg = None,
     sp_network_passphrase = None, sp_origin_domain = None, sp_signature = None\<rparr>"

lemma sample_pay_wf: "wf_pay sample_pay"
proof -
  have n: "parseFloat ''12.5'' = to_num (125 / 10)"
    by (simp add: parseFloat_def signed_decimal_def unsigned_decimal_def exponent_part_def span_def is_digit_def is_ws_def
        digits_val_def startsWith_def Let_def)
  have "0 \<le> round_double (125 / 10)" by (rule round_double_nonneg) simp
  then have "\<not> bad_amount ''12.5''" by (auto simp: bad_amount_def n to_num_def Let_def)
  then show ?thesis
    by (simp add: wf_pay_def sample_pay_def wf_text_def isValidStellarDestination_def isFederatedAddress_def)
qed

text \<open>
  C14: A payment URI built from valid parameters is recognised as a SEP-0007 code and parsed back to
  exactly these parameters, whatever characters the memo, the message and the other texts
  contain.
\<close>

theorem sep0007_roundtrip:
  assumes "wf_pay p"
  shows "parseSep0007Uri (buildSep0007PayUri p) = Ret (PayUri p) \<and> detectQrContentType (buildSep0007PayUri p) = Sep0007"
  using assms by (rule parse_build_pay)

theorem sep0007_roundtrip_witness:
  "parseSep0007Uri (buildSep0007PayUri sample_pay) = Ret (PayUri sample_pay)"
  using sep0007_roundtrip[OF sample_pay_wf] by blast

section \<open>What a parser lets through\<close>

definition valid_result :: "ParseResult \<Rightarrow> bool" where
  "valid_result r \<longleftrightarrow> (case r of ParseError _ \<Rightarrow> True
    | PayUri p \<Rightarrow> isValidStellarDestination (sp_destination p)
        \<and> (\<forall>a \<in> set_option (sp_amount p). \<not> bad_amount a)
        \<and> (\<forall>t \<in> set_option (sp_memo_type p). t \<in> set [''text'', ''id'', ''hash'', ''return''])
    | TxUri t \<Rightarrow> st_xdr t \<noteq> [])"

lemma valid_pay_of: "valid_result (pay_of m)"
  by (auto simp: valid_result_def pay_of_def Let_def invalid_destination_def if_truthy_Some_iff)

lemma valid_tx_of: "valid_result (tx_of m)"
  by (cases "m ''xdr''") (auto simp: valid_result_def tx_of_def)

lemma valid_parseZapsPayUri: "valid_result (parseZapsPayUri u)"
  by (auto simp: valid_result_def parseZapsPayUri_def Let_def invalid_destination_def)

lemma valid_parseSep0007: "parseSep0007Uri u = Ret r \<Longrightarrow> valid_result r"
proof -
  assume "parseSep0007Uri u = Ret r"
  then consider e where "r = ParseError e" | "r = parseZapsPayUri u" | m where "r = pay_of m" | m where "r = tx_of m"
    by (auto simp: parseSep0007Uri_def Let_def split: if_splits prod.splits res.splits)
  then show ?thesis
    by cases (simp_all add: valid_pay_of valid_tx_of valid_parseZapsPayUri, simp add: valid_result_def)
qed

text \<open>
  Every parsed payment, from either scheme, has a destination of the form of a Stellar or federated
  address, an amount that reads as a number which is not negative, and one of the four memo
  types; every parsed transaction request has a non-empty envelope.
\<close>

theorem parsed_uri_valid:
  assumes "parseSep0007Uri u = Ret r"
  shows "case r of ParseError _ \<Rightarrow> True
    | PayUri p \<Rightarrow> isValidStellarDestination (sp_destination p)
        \<and> (\<forall>a \<in> set_option (sp_amount p). \<not> bad_amount a)
        \<and> (\<forall>t \<in> set_option (sp_memo_type p). t \<in> set [''text'', ''id'', ''hash'', ''return''])
    | TxUri t \<Rightarrow> st_xdr t \<noteq> []"
  using valid_parseSep0007[OF assms] by (simp add: valid_result_def)

theorem parsed_uri_valid_witness:
  "isValidStellarDestination (sp_destination sample_pay)"
proof -
  have "parseSep0007Uri (buildSep0007PayUri sample_pay) = Ret (PayUri sample_pay)"
    using parse_build_pay[OF sample_pay_wf] by blast
  from parsed_uri_valid[OF this] show ?thesis by simp
qed

text \<open>
  \<open>parseSep0007Uri\<close> does not always return its typed result: when a value of the query is not a
  well-formed escape sequence, the \<open>URIError\<close> of \<open>decodeURIComponent\<close> leaves the function.
\<close>

theorem malformed_escape_throws:
  assumes "decodeURIComponent v = Throw e" "list_all (\<lambda>c. \<not> is_ws c) v" "CHR ''&'' \<notin> set v"
  shows "parseSep0007Uri (''web+stellar:pay?memo='' @ v) = Throw e"
proof -
  let ?u = "''web+stellar:pay?memo='' @ v"
  have "list_all (\<lambda>c. \<not> is_ws c) ?u" using assms(2) by (simp add: is_ws_def)
  then have t: "trim ?u = ?u" by (rule trim_no_ws)
  have sv: "split (CHR ''&'') v = [v]" using assms(3) by (intro split_no_sep)
  have d: "decodeURIComponent ''memo'' = Ret ''memo''"
    using decode_encode_component[of "''memo''"] encode_component_id[of "''memo''"]
    by (simp add: utf8_ok_ascii unreserved_def is_lower_def)
  have c: "cut_at (CHR ''?'') (drop (length ''web+stellar:'') ?u) = Some (''pay'', ''memo='' @ v)" by simp
  have z: "\<not> startsWith ?u ''zaps://''" "startsWith ?u ''web+stellar:''" by (simp_all add: startsWith_def)
  show ?thesis
    unfolding parseSep0007Uri_def t Let_def c using z sv assms(1) d by simp
qed

theorem malformed_escape_throws_witness:
  "parseSep0007Uri ''web+stellar:pay?memo=100%'' = Throw (Error ''URI malformed'')"
  using malformed_escape_throws[of "''100%''" "Error ''URI malformed''"]
  by (simp add: decodeURIComponent_def is_ws_def)

section \<open>Codes for a terminal\<close>

lemma unsigned_decimal_nonneg:
  assumes "fst (span is_digit s) \<noteq> []"
  shows "\<exists>v r. unsigned_decimal s = Some (v, r) \<and> 0 \<le> v"
proof -
  obtain ip r1 where s: "span is_digit s = (ip, r1)" by fastforce
  obtain fp r2 where f: "(case r1 of c # t \<Rightarrow>
      if c = CHR ''.'' \<and> (ip \<noteq> [] \<or> fst (span is_digit t) \<noteq> []) then span is_digit t else ([], r1)
    | [] \<Rightarrow> ([], r1)) = (fp, r2)" by (rule prod.exhaust)
  obtain ex r3 where e: "exponent_part r2 = (ex, r3)" by fastforce
  have "ip \<noteq> []" using assms s by simp
  then have "unsigned_decimal s = Some (of_nat (digits_val (ip @ fp)) / 10 ^ length fp * 10 powi ex, r3)"
    unfolding unsigned_decimal_def s Let_def case_prod_conv f e by simp
  then show ?thesis by simp
qed

lemma decimal_not_bad:
  assumes "decimal_text a"
  shows "\<not> bad_amount a"
proof -
  obtain c r where cr: "a = c # r" and c: "is_digit c"
    using assms by (cases a) (auto simp: decimal_text_def span_def split: if_splits)
  have ip: "fst (span is_digit a) \<noteq> []" using cr c by (simp add: span_def)
  have ws: "dropWhile is_ws a = a" using cr is_digit_not_ws[OF c] by simp
  have inf: "\<not> startsWith a ''Infinity''" using cr c by (auto simp: startsWith_def is_digit_def)
  obtain v s where u: "unsigned_decimal a = Some (v, s)" "0 \<le> v"
    using unsigned_decimal_nonneg[OF ip] by blast
  have "parseFloat a = to_num v"
    using ws inf u(1) is_digit_not_sign[OF c] cr by (simp add: parseFloat_def signed_decimal_def)
  moreover have "0 \<le> round_double v" using u(2) by (rule round_double_nonneg)
  ultimately show ?thesis
    by (auto simp: bad_amount_def to_num_def Let_def double_limit_def)
qed

lemma query_pairs_nfc: "searchParams_get (''https://placeholder/pay?'' @ query_text ps) k = map_of ps k" if "ps \<noteq> []"
proof -
  have "url_query (''https://placeholder/pay'' @ CHR ''?'' # query_text ps) = query_text ps"
    by (rule url_query_append) (simp_all add: query_char_def query_text_ok)
  then show ?thesis using query_pairs_text[OF that] by (simp add: searchParams_get_def)
qed

text \<open>
  A code written for a payment terminal is read back as the payment it was written for: whenever
  \<open>formatNfcPaymentPayload\<close> accepts a payload with a valid destination, both parsers return its
  trimmed destination, its amount and its asset.
\<close>

theorem nfc_roundtrip:
  assumes "formatNfcPaymentPayload enc p = Ret (uri, m)" "isValidStellarDestination (trim (np_destination p))"
  shows "parseSep0007Uri uri = Ret (parseZapsPayUri uri)
    \<and> parseZapsPayUri uri = PayUri \<lparr>sp_destination = trim (np_destination p), sp_amount = Some (np_amount p),
        sp_asset_code = if_truthy (np_assetCode p), sp_asset_issuer = if_truthy (np_assetIssuer p), sp_memo = None,
        sp_memo_type = None, sp_callback = None, sp_msg = None, sp_network_passphrase = None,
        sp_origin_domain = None, sp_signature = None\<rparr>"
proof -
  let ?ps = "nfc_entries p"
  have u: "uri = ''zaps://pay?'' @ query_text ?ps" and dec: "decimal_text (np_amount p)"
    using assms(1) by (auto simp: formatNfcPaymentPayload_def Let_def split: if_splits)
  have "list_all (\<lambda>c. \<not> is_ws c) uri" using u query_text_ok(2) by (simp add: is_ws_def)
  then have t: "trim uri = uri" by (rule trim_no_ws)
  have st: "startsWith uri ''zaps://''" by (simp add: u startsWith_def)
  have ne: "uri \<noteq> []" by (simp add: u)
  have url: "''https://placeholder/'' @ drop (length ''zaps://'') uri = ''https://placeholder/pay?'' @ query_text ?ps"
    by (simp add: u)
  have ps: "?ps \<noteq> []" by (simp add: nfc_entries_def)
  have get: "searchParams_get (''https://placeholder/pay?'' @ query_text ?ps) = map_of ?ps"
    by (rule ext) (rule query_pairs_nfc[OF ps])
  have g: "map_of ?ps ''address'' = Some (trim (np_destination p))" "map_of ?ps ''amount'' = Some (np_amount p)"
    "map_of ?ps ''asset_code'' = if_truthy (np_assetCode p)" "map_of ?ps ''asset_issuer'' = if_truthy (np_assetIssuer p)"
    "map_of ?ps ''memo'' = None" "map_of ?ps ''msg'' = None" "map_of ?ps ''origin_domain'' = None"
    by (auto simp: nfc_entries_def if_truthy_def split: option.splits)
  have z: "parseZapsPayUri uri = PayUri \<lparr>sp_destination = trim (np_destination p), sp_amount = Some (np_amount p),
        sp_asset_code = if_truthy (np_assetCode p), sp_asset_issuer = if_truthy (np_assetIssuer p), sp_memo = None,
        sp_memo_type = None, sp_callback = None, sp_msg = None, sp_network_passphrase = None,
        sp_origin_domain = None, sp_signature = None\<rparr>"
    unfolding parseZapsPayUri_def t Let_def url get g
    using ne st assms(2) destination_ne[OF assms(2)] decimal_not_bad[OF dec] by simp (simp add: if_truthy_def)
  moreover have "parseSep0007Uri uri = Ret (parseZapsPayUri uri)"
    unfolding parseSep0007Uri_def t using ne st by simp
  ultimately show ?thesis by simp
qed

definition sample_nfc :: NfcPaymentPayload where
  "sample_nfc = \<lparr>np_destination = '' ada*zaps.app'', np_amount = ''12'', np_assetCode = Some ''USDC'', np_assetIssuer = None\<rparr>"

theorem nfc_roundtrip_witness:
  "\<exists>uri. formatNfcPaymentPayload (\<lambda>u. ()) sample_nfc = Ret (uri, ()) \<and> parseSep0007Uri uri = Ret (parseZapsPayUri uri)"
proof -
  have n: "Number ''12'' = Fin 12"
    by (simp add: Number_def trim_def is_ws_def radix_literal_def signed_decimal_def unsigned_decimal_def exponent_part_def
        span_def is_digit_def digits_val_def startsWith_def Let_def)
  have t: "trim '' ada*zaps.app'' = ''ada*zaps.app''" by (simp add: trim_def is_ws_def)
  have "\<exists>uri. formatNfcPaymentPayload (\<lambda>u. ()) sample_nfc = Ret (uri, ())"
    by (simp add: formatNfcPaymentPayload_def sample_nfc_def t n decimal_text_def span_def is_digit_def num_le_def Let_def)
  then obtain uri where f: "formatNfcPaymentPayload (\<lambda>u. ()) sample_nfc = Ret (uri, ())" by blast
  have "isValidStellarDestination (trim (np_destination sample_nfc))"
    by (simp add: sample_nfc_def t isValidStellarDestination_def isFederatedAddress_def)
  from nfc_roundtrip[OF f this] f show ?thesis by blast
qed

section \<open>Claim tokens\<close>

lemma claim_segment_ne: "toLowerCase [] \<noteq> CLAIM_PATH_SEGMENT"
  by (simp add: CLAIM_PATH_SEGMENT_def toLowerCase_def)

lemma nth_opt_mem: "nth_opt xs i = Some x \<Longrightarrow> x \<in> set xs"
  by (auto simp: nth_opt_def split: if_splits)

text \<open>
  A claim token reaches the app only when it consists of 6 to 256 letters, digits, dots, dashes and
  underscores, and only from a link whose host or first path segment is \<open>claim\<close>; an invite link
  with an amount yields only a non-empty token with a positive amount.
\<close>

theorem claim_token_valid:
  "(\<forall>t. parseSdpClaimUrl lp u = Ret (ClaimToken t) \<longrightarrow> list_all token_char t \<and> 6 \<le> length t \<and> length t \<le> 256
      \<and> (\<exists>url p. u = Some url \<and> lp url = Ret p
          \<and> (map_option toLowerCase (pu_hostname p) = Some CLAIM_PATH_SEGMENT
             \<or> (\<exists>seg. toLowerCase seg = CLAIM_PATH_SEGMENT \<and> seg \<in> trim ` set (split (CHR ''/'') (case pu_path p of None \<Rightarrow> [] | Some x \<Rightarrow> x))))))
   \<and> (\<forall>d. parseSdpDeepLink url_ok l = Some d \<longrightarrow> dl_token d \<noteq> [] \<and> num_less (Fin 0) (dl_amount d))"
proof (intro conjI allI impI)
  fix t
  assume r: "parseSdpClaimUrl lp u = Ret (ClaimToken t)"
  obtain url where u: "u = Some url" using r by (cases u) (simp_all add: parseSdpClaimUrl_def)
  obtain p where p: "lp url = Ret p" using r u by (auto simp: parseSdpClaimUrl_def split: res.splits if_splits)
  let ?segs = "filter (\<lambda>s. s \<noteq> []) (map trim (split (CHR ''/'') (case pu_path p of None \<Rightarrow> [] | Some x \<Rightarrow> x)))"
  show "list_all token_char t" "6 \<le> length t" "length t \<le> 256"
    using r by (auto simp: parseSdpClaimUrl_def Let_def isValidSdpToken_def split: if_splits res.splits)
  have "toLowerCase (case pu_hostname p of None \<Rightarrow> [] | Some h \<Rightarrow> h) = CLAIM_PATH_SEGMENT
      \<or> map_option toLowerCase (nth_opt ?segs 0) = Some CLAIM_PATH_SEGMENT"
    using r u p by (auto simp: parseSdpClaimUrl_def Let_def split: if_splits)
  then consider h where "pu_hostname p = Some h" "toLowerCase h = CLAIM_PATH_SEGMENT"
    | seg where "nth_opt ?segs 0 = Some seg" "toLowerCase seg = CLAIM_PATH_SEGMENT"
    using claim_segment_ne by (cases "pu_hostname p") auto
  then have "map_option toLowerCase (pu_hostname p) = Some CLAIM_PATH_SEGMENT
      \<or> (\<exists>seg. toLowerCase seg = CLAIM_PATH_SEGMENT \<and> seg \<in> trim ` set (split (CHR ''/'') (case pu_path p of None \<Rightarrow> [] | Some x \<Rightarrow> x)))"
  proof cases
    case (2 seg)
    have "seg \<in> trim ` set (split (CHR ''/'') (case pu_path p of None \<Rightarrow> [] | Some x \<Rightarrow> x))"
      using nth_opt_mem[OF 2(1)] by simp
    with 2(2) show ?thesis by blast
  qed simp
  with u p show "\<exists>url p. u = Some url \<and> lp url = Ret p
          \<and> (map_option toLowerCase (pu_hostname p) = Some CLAIM_PATH_SEGMENT
             \<or> (\<exists>seg. toLowerCase seg = CLAIM_PATH_SEGMENT \<and> seg \<in> trim ` set (split (CHR ''/'') (case pu_path p of None \<Rightarrow> [] | Some x \<Rightarrow> x))))"
    by blast
next
  fix d
  assume r: "parseSdpDeepLink url_ok l = Some d"
  then show "dl_token d \<noteq> []"
    by (auto simp: parseSdpDeepLink_def Let_def elim: truthy.elims split: if_splits)
  have "x \<noteq> NaN \<Longrightarrow> \<not> num_le x (Fin 0) \<Longrightarrow> num_less (Fin 0) x" for x
    by (cases x) (auto simp: num_le_def)
  with r show "num_less (Fin 0) (dl_amount d)"
    by (auto simp: parseSdpDeepLink_def Let_def split: if_splits)
qed

definition sample_claim :: ParsedURL where
  "sample_claim = \<lparr>pu_hostname = Some ''Claim'', pu_path = Some ''tok-123'', pu_query = Map.empty\<rparr>"

theorem claim_token_valid_witness:
  "parseSdpClaimUrl (\<lambda>_. Ret sample_claim) (Some ''zaps://Claim/tok-123'') = Ret (ClaimToken ''tok-123'')
   \<and> (case parseSdpClaimUrl (\<lambda>_. Ret sample_claim) (Some ''zaps://Claim/tok-123'') of Ret (ClaimToken t) \<Rightarrow> 6 \<le> length t | _ \<Rightarrow> False)"
proof -
  have d: "decodeURIComponent ''tok-123'' = Ret ''tok-123''"
    using decode_encode_component[of "''tok-123''"] encode_component_id[of "''tok-123''"]
    by (simp add: utf8_ok_ascii unreserved_def is_lower_def is_digit_def)
  have l: "toLowerCase ''Claim'' = ''claim''" "toLowerCase ''tok-123'' = ''tok-123''" by code_simp+
  have r: "parseSdpClaimUrl (\<lambda>_. Ret sample_claim) (Some ''zaps://Claim/tok-123'') = Ret (ClaimToken ''tok-123'')"
    by (simp add: parseSdpClaimUrl_def sample_claim_def CLAIM_PATH_SEGMENT_def l TOKEN_PARAM_NAMES_def
        trim_def is_ws_def nth_opt_def d isValidSdpToken_def token_char_def is_lower_def is_digit_def is_upper_def Let_def)
  with claim_token_valid[of "\<lambda>_. Ret sample_claim" "Some ''zaps://Claim/tok-123''" "\<lambda>_. True" "[]"] show ?thesis by simp
qed

end
