(* ===== verification/Dashboard_Session.thy ===== *)
theory Dashboard_Session
  imports Platform Js_Uri
begin

text \<open>
  \<open>dashboard/lib/api.ts\<close> (credentials, single-flight refresh, authenticated requests),
  \<open>dashboard/lib/auth-context.tsx\<close> and \<open>dashboard/middleware.ts\<close>.

  The browser is given by its operations (\<open>storage_api\<close>): reading and writing \<open>localStorage\<close>,
  assigning \<open>document.cookie\<close> and, on the server side, reading a request's cookie.  The locale
  \<open>web_storage\<close> has the laws the code relies on.  The first part runs the functions without
  interruption; the step relation at the end interleaves many requests at their \<open>await\<close> points.
\<close>

section \<open>The browser\<close>

record 'w storage_api =
  ls_get :: "string \<Rightarrow> 'w \<Rightarrow> string option"
  ls_set :: "string \<Rightarrow> string \<Rightarrow> 'w \<Rightarrow> 'w"
  ls_remove :: "string \<Rightarrow> 'w \<Rightarrow> 'w"
  set_cookie :: "string \<Rightarrow> 'w \<Rightarrow> 'w"
  cookie :: "string \<Rightarrow> 'w \<Rightarrow> string option"

definition cookie_text :: "string \<Rightarrow> bool" where
  "cookie_text s \<longleftrightarrow> list_all (\<lambda>c. \<not> is_ws c \<and> c \<noteq> CHR '';'' \<and> c \<noteq> CHR ''='') s"

locale web_storage =
  fixes S :: "'w storage_api"
  assumes get_set [simp]: "ls_get S k (ls_set S k' v w) = (if k = k' then Some v else ls_get S k w)"
    and get_remove [simp]: "ls_get S k (ls_remove S k' w) = (if k = k' then None else ls_get S k w)"
    and get_cookie [simp]: "ls_get S k (set_cookie S c w) = ls_get S k w"
    and cookie_ls [simp]: "cookie S n (ls_set S k v w) = cookie S n w" "cookie S n (ls_remove S k w) = cookie S n w"
    and cookie_set: "cookie_text m \<Longrightarrow> cookie_text v \<Longrightarrow> m \<noteq> [] \<Longrightarrow>
      cookie S n (set_cookie S (m @ ''='' @ v @ ''; path=/; SameSite=Lax'') w)
        = (if n = m then Some v else cookie S n w)"
    and cookie_expire: "cookie_text m \<Longrightarrow> m \<noteq> [] \<Longrightarrow>
      cookie S n (set_cookie S (m @ ''=; path=/; max-age=0'') w) = (if n = m then None else cookie S n w)"

section \<open>Credentials\<close>

definition TOKEN_KEY :: string where "TOKEN_KEY = ''token''"
definition REFRESH_TOKEN_KEY :: string where "REFRESH_TOKEN_KEY = ''refresh_token''"

text \<open>\<open>window\<close> tells whether the code runs in a browser.\<close>

definition readStored :: "'w storage_api \<Rightarrow> bool \<Rightarrow> string \<Rightarrow> 'w \<Rightarrow> string option" where
  "readStored S window key w = (if window then ls_get S key w else None)"

definition getToken :: "'w storage_api \<Rightarrow> bool \<Rightarrow> 'w \<Rightarrow> string option" where
  "getToken S window = readStored S window TOKEN_KEY"

definition getRefreshToken :: "'w storage_api \<Rightarrow> bool \<Rightarrow> 'w \<Rightarrow> string option" where
  "getRefreshToken S window = readStored S window REFRESH_TOKEN_KEY"

definition storeSession :: "'w storage_api \<Rightarrow> bool \<Rightarrow> string \<Rightarrow> string option \<Rightarrow> 'w \<Rightarrow> 'w" where
  "storeSession S window token refreshToken w =
     (if \<not> window then w
      else let w1 = ls_set S TOKEN_KEY token w;
               w2 = (if truthy refreshToken then ls_set S REFRESH_TOKEN_KEY (the refreshToken) w1 else w1)
           in set_cookie S (TOKEN_KEY @ ''='' @ encodeURIComponent token @ ''; path=/; SameSite=Lax'') w2)"

definition clearSession :: "'w storage_api \<Rightarrow> bool \<Rightarrow> 'w \<Rightarrow> 'w" where
  "clearSession S window w =
     (if \<not> window then w
      else set_cookie S (''zaps-auth=; path=/; max-age=0'')
             (set_cookie S (TOKEN_KEY @ ''=; path=/; max-age=0'')
               (ls_remove S REFRESH_TOKEN_KEY (ls_remove S TOKEN_KEY w))))"

section \<open>Refreshing\<close>

record refresh_json =
  rj_token :: "string option"
  rj_refresh_token :: "string option"

definition refresh_rq :: "string \<Rightarrow> string \<Rightarrow> string request" where
  "refresh_rq BASE refresh_token = \<lparr>url = BASE @ ''/auth/refresh'', meth = ''POST'',
     headers = json_header, body = Some refresh_token\<rparr>"

text \<open>The body of the shared promise, from the answer on; \<open>None\<close> as JSON is \<open>null\<close>.\<close>

definition settle_refresh ::
  "'w storage_api \<Rightarrow> bool \<Rightarrow> refresh_json option response res \<Rightarrow> 'w \<Rightarrow> string option \<times> 'w" where
  "settle_refresh S window answer w = (case answer of
       Throw _ \<Rightarrow> (None, w)
     | Ret res \<Rightarrow>
         if \<not> ok res then (None, clearSession S window w)
         else (case json res of
             Throw _ \<Rightarrow> (None, w)
           | Ret None \<Rightarrow> (None, w)
           | Ret (Some data) \<Rightarrow>
               if \<not> truthy (rj_token data) then (None, clearSession S window w)
               else (rj_token data, storeSession S window (the (rj_token data)) (rj_refresh_token data) w)))"

text \<open>\<open>refreshAccessToken\<close> with no refresh in flight.\<close>

definition refreshAccessToken ::
  "'w storage_api \<Rightarrow> bool \<Rightarrow> string \<Rightarrow> (string request \<Rightarrow> ('w, refresh_json option response) io) \<Rightarrow>
   ('w, string option) io" where
  "refreshAccessToken S window BASE fetchR w =
     (let refresh_token = getRefreshToken S window w in
      if \<not> truthy refresh_token then (Ret None, w)
      else case fetchR (refresh_rq BASE (the refresh_token)) w of
        (answer, w1) \<Rightarrow> (case settle_refresh S window answer w1 of (t, w2) \<Rightarrow> (Ret t, w2)))"

section \<open>Authenticated requests\<close>

definition authHeaders ::
  "string option \<Rightarrow> (string \<rightharpoonup> string) \<Rightarrow> (string \<rightharpoonup> string) \<Rightarrow> (string \<rightharpoonup> string)" where
  "authHeaders token init_headers base = base ++ bearer token ++ init_headers"

definition authedFetch ::
  "'w storage_api \<Rightarrow> bool \<Rightarrow> ('w, string option) io \<Rightarrow> ('b request \<Rightarrow> ('w, 'j response) io) \<Rightarrow>
   'b request \<Rightarrow> (string option \<Rightarrow> (string \<rightharpoonup> string)) \<Rightarrow> ('w, 'j response) io" where
  "authedFetch S window refresh fetch rq buildHeaders =
     bnd (asks (getToken S window)) (\<lambda>t.
       bnd (fetch (rq\<lparr>headers := buildHeaders t\<rparr>)) (\<lambda>res.
         if status res \<noteq> 401 then ret res
         else bnd refresh (\<lambda>token.
           if \<not> truthy token then ret res
           else fetch (rq\<lparr>headers := buildHeaders token\<rparr>))))"

definition status_error :: "'j response \<Rightarrow> js_error" where
  "status_error res = Error (show_int (status res) @ '' '' @ statusText res)"

definition json_or_error :: "'j response \<Rightarrow> ('w, 'j) io" where
  "json_or_error res = (if ok res then reads (\<lambda>_. json res) else throw (status_error res))"

text \<open>\<open>req\<close> and \<open>serverReq\<close> differ in the base URL only.\<close>

definition req ::
  "'w storage_api \<Rightarrow> bool \<Rightarrow> ('w, string option) io \<Rightarrow> ('b request \<Rightarrow> ('w, 'j response) io) \<Rightarrow> string \<Rightarrow>
   'b request \<Rightarrow> ('w, 'j) io" where
  "req S window refresh fetch BASE rq =
     bnd (authedFetch S window refresh fetch (rq\<lparr>url := BASE @ url rq\<rparr>)
            (\<lambda>token. authHeaders token (headers rq) json_header))
       json_or_error"

definition serverReq ::
  "'w storage_api \<Rightarrow> bool \<Rightarrow> ('w, string option) io \<Rightarrow> ('b request \<Rightarrow> ('w, 'j response) io) \<Rightarrow> string \<Rightarrow>
   'b request \<Rightarrow> ('w, 'j) io" where
  "serverReq S window refresh fetch SERVER_BASE rq =
     bnd (authedFetch S window refresh fetch (rq\<lparr>url := SERVER_BASE @ url rq\<rparr>)
            (\<lambda>token. authHeaders token (headers rq) json_header))
       json_or_error"

text \<open>\<open>isMultipart\<close> tells whether the body is a form.\<close>

definition sdp_headers :: "string \<Rightarrow> bool \<Rightarrow> (string \<rightharpoonup> string) \<Rightarrow> string option \<Rightarrow> (string \<rightharpoonup> string)" where
  "sdp_headers sdpAdminToken multipart init_headers token =
     authHeaders token Map.empty (if multipart then Map.empty else json_header)
     ++ (if sdpAdminToken = [] then Map.empty else [''SDP-Admin-Token'' \<mapsto> sdpAdminToken])
     ++ init_headers"

definition sdpReq ::
  "'w storage_api \<Rightarrow> bool \<Rightarrow> ('w, string option) io \<Rightarrow> ('b request \<Rightarrow> ('w, 'j response) io) \<Rightarrow> string \<Rightarrow>
   string \<Rightarrow> ('b \<Rightarrow> bool) \<Rightarrow> 'b request \<Rightarrow> ('w, 'j) io" where
  "sdpReq S window refresh fetch SDP_BASE sdpAdminToken isForm rq =
     (let multipart = (case body rq of None \<Rightarrow> False | Some b \<Rightarrow> isForm b) in
      bnd (authedFetch S window refresh fetch (rq\<lparr>url := SDP_BASE @ url rq\<rparr>)
             (sdp_headers sdpAdminToken multipart (headers rq)))
        json_or_error)"

section \<open>The provider of the login state\<close>

definition ROLE_SUPERADMIN :: string where "ROLE_SUPERADMIN = ''superadmin''"
definition ROLE_KEY :: string where "ROLE_KEY = ''role''"

definition readStoredRole :: "'w storage_api \<Rightarrow> bool \<Rightarrow> 'w \<Rightarrow> string option" where
  "readStoredRole S window w = (if window then ls_get S ROLE_KEY w else None)"

text \<open>The React state of \<open>AuthProvider\<close> beside the browser.\<close>

record 'w auth =
  au_token :: "string option"
  au_role :: "string option"
  au_web :: 'w

record login_json =
  lj_token :: string
  lj_refresh_token :: string
  lj_role :: string

definition auth_mount :: "'w storage_api \<Rightarrow> 'w auth \<Rightarrow> 'w auth" where
  "auth_mount S a = a\<lparr>au_token := ls_get S ''token'' (au_web a), au_role := readStoredRole S True (au_web a)\<rparr>"

text \<open>\<open>api_login\<close> is the call of \<open>api.login\<close>.\<close>

definition auth_login ::
  "'w storage_api \<Rightarrow> (string \<Rightarrow> string \<Rightarrow> ('w, login_json) io) \<Rightarrow> string \<Rightarrow> string \<Rightarrow> ('w auth, unit) io" where
  "auth_login S api_login user_id pin a =
     (case api_login user_id pin (au_web a) of
        (Throw e, w1) \<Rightarrow> (Throw e, a\<lparr>au_web := w1\<rparr>)
      | (Ret data, w1) \<Rightarrow>
          (let w2 = storeSession S True (lj_token data) (Some (lj_refresh_token data)) w1;
               a1 = a\<lparr>au_web := w2, au_token := Some (lj_token data)\<rparr>
           in (Ret (), if lj_role data = [] then a1
                else a1\<lparr>au_web := ls_set S ROLE_KEY (lj_role data) w2, au_role := Some (lj_role data)\<rparr>)))"

definition auth_logout :: "'w storage_api \<Rightarrow> 'w auth \<Rightarrow> 'w auth" where
  "auth_logout S a = \<lparr>au_token = None, au_role = None,
     au_web = ls_remove S ROLE_KEY (clearSession S True (au_web a))\<rparr>"

definition useSuperAdmin :: "'w auth \<Rightarrow> bool" where
  "useSuperAdmin a \<longleftrightarrow> au_role a = Some ROLE_SUPERADMIN"

section \<open>The middleware\<close>

definition AUTH_COOKIES :: "string list" where
  "AUTH_COOKIES = [''token'', ''zaps-auth'', ''privy-token'', ''privy-id-token'', ''privy-session'']"

definition isAuthenticated :: "(string \<Rightarrow> string option) \<Rightarrow> bool" where
  "isAuthenticated cookies \<longleftrightarrow> list_ex (\<lambda>name. truthy (cookies name)) AUTH_COOKIES"

datatype next_response = Next | RedirectTo string

definition middleware :: "(string \<Rightarrow> string option) \<Rightarrow> next_response" where
  "middleware cookies = (if isAuthenticated cookies then Next else RedirectTo ''/login'')"

section \<open>A reference browser\<close>

record browser =
  bw_local :: "string \<rightharpoonup> string"
  bw_cookies :: "string \<rightharpoonup> string"

definition bw_set_cookie :: "string \<Rightarrow> browser \<Rightarrow> browser" where
  "bw_set_cookie text b = (case map trim (split (CHR '';'') text) of
       [] \<Rightarrow> b
     | p # attrs \<Rightarrow> (case cut_at (CHR ''='') p of
           None \<Rightarrow> b
         | Some (n, v) \<Rightarrow> b\<lparr>bw_cookies := (bw_cookies b)(n := if ''max-age=0'' \<in> set attrs then None else Some v)\<rparr>))"

definition BW :: "browser storage_api" where
  "BW = \<lparr>ls_get = (\<lambda>k b. bw_local b k), ls_set = (\<lambda>k v b. b\<lparr>bw_local := (bw_local b)(k \<mapsto> v)\<rparr>),
     ls_remove = (\<lambda>k b. b\<lparr>bw_local := (bw_local b)(k := None)\<rparr>), set_cookie = bw_set_cookie,
     cookie = (\<lambda>n b. bw_cookies b n)\<rparr>"

lemma cookie_text_set: "cookie_text s \<Longrightarrow> CHR '';'' \<notin> set s \<and> CHR ''='' \<notin> set s \<and> list_all (\<lambda>c. \<not> is_ws c) s"
  by (auto simp: cookie_text_def list_all_iff)

lemma not_ws_eq [simp]: "\<not> is_ws (CHR ''='')"
  by (simp add: is_ws_def)

lemma bw_set_cookie_eq:
  assumes "cookie_text m" "cookie_text v"
  shows "bw_set_cookie (m @ ''='' @ v @ CHR '';'' # rest) b
    = b\<lparr>bw_cookies := (bw_cookies b)(m := if ''max-age=0'' \<in> set (map trim (split (CHR '';'') rest)) then None else Some v)\<rparr>"
proof -
  have no: "CHR '';'' \<notin> set (m @ CHR ''='' # v)" using assms by (auto dest: cookie_text_set)
  have "split (CHR '';'') (m @ ''='' @ v @ CHR '';'' # rest) = (m @ CHR ''='' # v) # split (CHR '';'') rest"
    using split_append_sep[OF no, of rest] by simp
  moreover have "trim (m @ CHR ''='' # v) = m @ CHR ''='' # v"
    using assms by (intro trim_no_ws) (auto dest: cookie_text_set)
  moreover have "cut_at (CHR ''='') (m @ CHR ''='' # v) = Some (m, v)"
    using assms by (intro cut_at_append) (auto dest: cookie_text_set)
  ultimately show ?thesis by (simp add: bw_set_cookie_def)
qed

lemma bw_ls [simp]: "bw_local (bw_set_cookie c b) = bw_local b"
  by (auto simp: bw_set_cookie_def split: list.splits option.splits)

interpretation bw: web_storage BW
proof unfold_locales
  fix m v n w
  assume c: "cookie_text m" "cookie_text v" "m \<noteq> []"
  show "cookie BW n (set_cookie BW (m @ ''='' @ v @ ''; path=/; SameSite=Lax'') w)
        = (if n = m then Some v else cookie BW n w)"
    using bw_set_cookie_eq[OF c(1,2), of "'' path=/; SameSite=Lax''" w]
    by (simp add: BW_def trim_def is_ws_def)
next
  fix m n w
  assume c: "cookie_text m" "m \<noteq> []"
  have "cookie_text []" by (simp add: cookie_text_def)
  from bw_set_cookie_eq[OF c(1) this, of "'' path=/; max-age=0''" w]
  show "cookie BW n (set_cookie BW (m @ ''=; path=/; max-age=0'') w) = (if n = m then None else cookie BW n w)"
    by (simp add: BW_def trim_def is_ws_def)
qed (simp_all add: BW_def)

section \<open>The session over a browser\<close>

lemma key_facts [simp]:
  "TOKEN_KEY \<noteq> REFRESH_TOKEN_KEY" "REFRESH_TOKEN_KEY \<noteq> TOKEN_KEY" "ROLE_KEY \<noteq> TOKEN_KEY" "ROLE_KEY \<noteq> REFRESH_TOKEN_KEY"
  "TOKEN_KEY \<noteq> ROLE_KEY" "REFRESH_TOKEN_KEY \<noteq> ROLE_KEY" "TOKEN_KEY \<noteq> []" "TOKEN_KEY \<noteq> ''zaps-auth''"
  by (simp_all add: TOKEN_KEY_def REFRESH_TOKEN_KEY_def ROLE_KEY_def)

lemma cookie_text_names [simp]: "cookie_text TOKEN_KEY" "cookie_text ''zaps-auth''"
  by (simp_all add: cookie_text_def TOKEN_KEY_def is_ws_def)

lemma cookie_text_encode [simp]: "cookie_text (encodeURIComponent s)"
proof -
  have "\<not> component_char (CHR '';'')"
    by (simp add: component_char_def unreserved_def is_upper_def is_lower_def is_digit_def)
  then have "component_char c \<Longrightarrow> \<not> is_ws c \<and> c \<noteq> CHR '';'' \<and> c \<noteq> CHR ''=''" for c
    using component_char_not_ws component_char_delims(2) by metis
  then show ?thesis using encode_component_chars by (auto simp: cookie_text_def list_all_iff)
qed

context web_storage
begin

lemma token_store: "getToken S True (storeSession S True t r w) = Some t"
  by (simp add: getToken_def readStored_def storeSession_def Let_def)

lemma refresh_store:
  "getRefreshToken S True (storeSession S True t r w) = (if truthy r then r else getRefreshToken S True w)"
  by (cases r) (auto simp: getRefreshToken_def readStored_def storeSession_def Let_def)

lemma token_clear: "getToken S True (clearSession S True w) = None" "getRefreshToken S True (clearSession S True w) = None"
  by (simp_all add: getToken_def getRefreshToken_def readStored_def clearSession_def)

lemma role_frame:
  "ls_get S ROLE_KEY (storeSession S True t r w) = ls_get S ROLE_KEY w"
  "ls_get S ROLE_KEY (clearSession S True w) = ls_get S ROLE_KEY w"
  by (simp_all add: storeSession_def clearSession_def Let_def)

lemma cookie_store:
  "cookie S n (storeSession S True t r w) = (if n = TOKEN_KEY then Some (encodeURIComponent t) else cookie S n w)"
  using cookie_set[OF cookie_text_names(1) cookie_text_encode, of n t] by (simp add: storeSession_def Let_def)

lemma cookie_clear:
  "cookie S n (clearSession S True w) = (if n = TOKEN_KEY \<or> n = ''zaps-auth'' then None else cookie S n w)"
proof -
  have t: "cookie S n (set_cookie S (TOKEN_KEY @ ''=; path=/; max-age=0'') v)
      = (if n = TOKEN_KEY then None else cookie S n v)" for n v
    by (rule cookie_expire) simp_all
  have z: "cookie S n (set_cookie S ''zaps-auth=; path=/; max-age=0'' v)
      = (if n = ''zaps-auth'' then None else cookie S n v)" for n v
    using cookie_expire[OF cookie_text_names(2), of n v] by simp
  show ?thesis by (simp add: clearSession_def t z)
qed

end

text \<open>
  The route guard follows the session: once a non-empty token is stored every dashboard route is
  let through; after \<open>clearSession\<close> it is redirected to the login page exactly when none of the
  identity provider's own cookies is present.
\<close>

theorem middleware_follows_session:
  assumes "web_storage S" and "t \<noteq> []"
  shows "middleware (\<lambda>n. cookie S n (storeSession S True t r w)) = Next
    \<and> (middleware (\<lambda>n. cookie S n (clearSession S True w)) = RedirectTo ''/login''
       \<longleftrightarrow> \<not> (\<exists>n \<in> {''privy-token'', ''privy-id-token'', ''privy-session''}. truthy (cookie S n w)))"
  using assms(2)
  by (simp add: middleware_def isAuthenticated_def AUTH_COOKIES_def TOKEN_KEY_def[symmetric]
        web_storage.cookie_store[OF assms(1)] web_storage.cookie_clear[OF assms(1)])
     (simp add: TOKEN_KEY_def)

theorem middleware_follows_session_witness:
  "middleware (\<lambda>n. cookie BW n (clearSession BW True (storeSession BW True ''jwt'' None
     \<lparr>bw_local = Map.empty, bw_cookies = Map.empty\<rparr>))) = RedirectTo ''/login''"
proof -
  let ?w = "storeSession BW True ''jwt'' None \<lparr>bw_local = Map.empty, bw_cookies = Map.empty\<rparr>"
  have "\<not> truthy (cookie BW n ?w)" if "n \<in> {''privy-token'', ''privy-id-token'', ''privy-session''}" for n
    using that by (auto simp: bw.cookie_store TOKEN_KEY_def) (simp_all add: BW_def)
  with middleware_follows_session[OF bw.web_storage_axioms, of "''jwt''" None ?w] show ?thesis by blast
qed

text \<open>
  \<open>refreshAccessToken\<close> never rejects.  When it resolves to a token, that token is the stored one
  and the rotated refresh token, if the answer had one, replaces the old one; when the server
  refuses, both credentials are gone; when the network fails, both are as before.
\<close>

theorem refresh_outcomes:
  assumes "web_storage S" and "truthy (getRefreshToken S True w)"
    and "fetchR (refresh_rq base (the (getRefreshToken S True w))) w = (answer, w1)"
    and "\<And>k. ls_get S k w1 = ls_get S k w"
  shows "\<exists>t w2. refreshAccessToken S True base fetchR w = (Ret t, w2)
    \<and> (t \<noteq> None \<longrightarrow> truthy t \<and> getToken S True w2 = t \<and> (\<exists>res d. answer = Ret res \<and> json res = Ret (Some d)
         \<and> getRefreshToken S True w2 = (if truthy (rj_refresh_token d) then rj_refresh_token d else getRefreshToken S True w)))
    \<and> ((\<exists>res. answer = Ret res \<and> \<not> ok res) \<longrightarrow> t = None \<and> getToken S True w2 = None \<and> getRefreshToken S True w2 = None)
    \<and> ((\<exists>e. answer = Throw e) \<longrightarrow> t = None \<and> getToken S True w2 = getToken S True w
         \<and> getRefreshToken S True w2 = getRefreshToken S True w)"
proof -
  have fr: "getToken S True w1 = getToken S True w" "getRefreshToken S True w1 = getRefreshToken S True w"
    using assms(4) by (simp_all add: getToken_def getRefreshToken_def readStored_def)
  have run: "refreshAccessToken S True base fetchR w
      = (Ret (fst (settle_refresh S True answer w1)), snd (settle_refresh S True answer w1))"
    using assms(2,3) by (simp add: refreshAccessToken_def Let_def split: prod.splits)
  have truthyE: "truthy x \<Longrightarrow> x = Some (the x)" for x by (cases x) auto
  show ?thesis
    unfolding run
    using fr truthyE
    by (cases answer)
       (auto simp: settle_refresh_def web_storage.token_store[OF assms(1)] web_storage.refresh_store[OF assms(1)]
          web_storage.token_clear[OF assms(1)] split: res.splits option.splits)
qed

definition logged_in :: browser where
  "logged_in = storeSession BW True ''jwt'' (Some ''r1'') \<lparr>bw_local = Map.empty, bw_cookies = Map.empty\<rparr>"

lemma logged_in_refresh [simp]: "getRefreshToken BW True logged_in = Some ''r1''"
  by (simp add: logged_in_def bw.refresh_store)

definition rotated :: "refresh_json option response" where
  "rotated = \<lparr>status = 200, statusText = ''OK'', json = Ret (Some \<lparr>rj_token = Some ''jwt2'', rj_refresh_token = Some ''r2''\<rparr>),
     text_of = Ret []\<rparr>"

theorem refresh_outcomes_witness:
  "\<exists>t w2. refreshAccessToken BW True [] (\<lambda>_ w. (Ret rotated, w)) logged_in = (Ret t, w2)
    \<and> (t \<noteq> None \<longrightarrow> truthy t \<and> getToken BW True w2 = t)"
proof -
  have a: "truthy (getRefreshToken BW True logged_in)" by simp
  show ?thesis
    using refresh_outcomes[OF bw.web_storage_axioms a, where fetchR = "\<lambda>_ w. (Ret rotated, w)" and base = "[]"]
    by blast
qed

text \<open>
  An authenticated request is sent at most twice: an answer other than 401 is returned as it is;
  after a 401 the request is replayed exactly once, with the refreshed token, and the replay's
  outcome is final; when no token could be obtained the 401 itself is returned.
\<close>

theorem authed_fetch_retries_once:
  assumes "fetch (rq\<lparr>headers := bh (getToken S window w)\<rparr>) w = (Ret r, w1)"
    and "refresh w1 = (Ret t, w2)"
  shows "authedFetch S window refresh fetch rq bh w =
    (if status r \<noteq> 401 then (Ret r, w1)
     else if truthy t then fetch (rq\<lparr>headers := bh t\<rparr>) w2
     else (Ret r, w2))"
  using assms by (simp add: authedFetch_def bnd_def)

theorem authed_fetch_retries_once_witness:
  "authedFetch BW True (refreshAccessToken BW True [] (\<lambda>_ w. (Ret rotated, w)))
     (\<lambda>rq w. (Ret \<lparr>status = (if headers rq ''Authorization'' = Some ''Bearer jwt2'' then 200 else 401),
        statusText = [], json = Ret (), text_of = Ret []\<rparr>, w))
     \<lparr>url = ''/payments/1'', meth = ''GET'', headers = Map.empty, body = None :: unit option\<rparr> bearer logged_in
   = (Ret \<lparr>status = 200, statusText = [], json = Ret (), text_of = Ret []\<rparr>,
      storeSession BW True ''jwt2'' (Some ''r2'') logged_in)"
proof -
  have t: "getToken BW True logged_in = Some ''jwt''" by (simp add: logged_in_def bw.token_store)
  show ?thesis
    by (subst authed_fetch_retries_once[where w = logged_in and ?w1.0 = logged_in and t = "Some ''jwt2''"
          and ?w2.0 = "storeSession BW True ''jwt2'' (Some ''r2'') logged_in"
          and r = "\<lparr>status = 401, statusText = [], json = Ret (), text_of = Ret []\<rparr>"])
       (simp_all add: t refreshAccessToken_def settle_refresh_def rotated_def ok_def)
qed

section \<open>Many requests at once\<close>

text \<open>
  The requests of a page, interleaved at their \<open>await\<close> points.  \<open>outstanding\<close> and \<open>spent\<close> are the
  refresh tokens of the refresh requests that wait for an answer and of all those ever sent;
  \<open>inflight\<close> is \<open>refreshInFlight !== null\<close>.
\<close>

datatype client = Idle | Requested | Waiting | Resumed "string option" | Replayed string | Finished

record 'w rsys =
  web :: 'w
  inflight :: bool
  outstanding :: "string list"
  spent :: "string list"
  clients :: "nat \<Rightarrow> client"

text \<open>A request that got a 401 calls \<open>refreshAccessToken\<close>, up to its first \<open>await\<close>.\<close>

definition on_401 :: "'w storage_api \<Rightarrow> nat \<Rightarrow> 'w rsys \<Rightarrow> 'w rsys" where
  "on_401 S c s =
     (if inflight s then s\<lparr>clients := (clients s)(c := Waiting)\<rparr>
      else let r = getRefreshToken S True (web s) in
        if \<not> truthy r then s\<lparr>clients := (clients s)(c := Resumed None)\<rparr>
        else s\<lparr>inflight := True, outstanding := outstanding s @ [the r], spent := spent s @ [the r],
               clients := (clients s)(c := Waiting)\<rparr>)"

text \<open>The answer to a refresh request settles the shared promise, which resumes every waiting request.\<close>

definition on_refreshed :: "'w storage_api \<Rightarrow> string \<Rightarrow> refresh_json option response res \<Rightarrow> 'w rsys \<Rightarrow> 'w rsys" where
  "on_refreshed S r answer s = (case settle_refresh S True answer (web s) of (t, w) \<Rightarrow>
     s\<lparr>web := w, inflight := False, outstanding := remove1 r (outstanding s),
       clients := (\<lambda>c. if clients s c = Waiting then Resumed t else clients s c)\<rparr>)"

fun on_resume :: "string option \<Rightarrow> client" where
  "on_resume t = (if truthy t then Replayed (the t) else Finished)"

inductive rstep :: "'w storage_api \<Rightarrow> 'w rsys \<Rightarrow> 'w rsys \<Rightarrow> bool" for S where
  send: "clients s c = Idle \<Longrightarrow> rstep S s (s\<lparr>clients := (clients s)(c := Requested)\<rparr>)"
| answered: "clients s c = Requested \<Longrightarrow> rstep S s (s\<lparr>clients := (clients s)(c := Finished)\<rparr>)"
| unauthorized: "clients s c = Requested \<Longrightarrow> rstep S s (on_401 S c s)"
| refreshed: "r \<in> set (outstanding s) \<Longrightarrow> rstep S s (on_refreshed S r answer s)"
| resume: "clients s c = Resumed t \<Longrightarrow> rstep S s (s\<lparr>clients := (clients s)(c := on_resume t)\<rparr>)"
| replayed: "clients s c = Replayed t \<Longrightarrow> rstep S s (s\<lparr>clients := (clients s)(c := Finished)\<rparr>)"
| login: "rstep S s (s\<lparr>web := storeSession S True t r (web s)\<rparr>)"
| logout: "rstep S s (s\<lparr>web := clearSession S True (web s)\<rparr>)"

definition page_load :: "'w \<Rightarrow> 'w rsys" where
  "page_load w = \<lparr>web = w, inflight = False, outstanding = [], spent = [], clients = (\<lambda>_. Idle)\<rparr>"

definition single :: "'w rsys \<Rightarrow> bool" where
  "single s \<longleftrightarrow> (if inflight s then length (outstanding s) = 1 else outstanding s = [])
     \<and> (\<forall>c. clients s c = Waiting \<longrightarrow> inflight s)"

lemma single_step: "rstep S s s' \<Longrightarrow> single s \<Longrightarrow> single s'"
proof (induction rule: rstep.induct)
  case (refreshed r s answer)
  then show ?case
    by (cases "outstanding s") (auto simp: single_def on_refreshed_def split: prod.splits if_splits)
qed (auto simp: single_def on_401_def Let_def split: if_splits)

text \<open>
  C3: Refreshing is single-flight: in every interleaving of any number of requests, refresh answers,
  logins and logouts, at most one refresh request waits for an answer, one does whenever a
  request is waiting for a token, and none does while \<open>refreshInFlight\<close> is clear.
\<close>

theorem single_flight:
  assumes "(rstep S)\<^sup>*\<^sup>* (page_load w) s"
  shows "length (outstanding s) \<le> 1 \<and> (inflight s \<longleftrightarrow> outstanding s \<noteq> [])
    \<and> (\<forall>c. clients s c = Waiting \<longrightarrow> outstanding s \<noteq> [])"
proof -
  have "single s" using assms
    by (induction rule: rtranclp_induct) (simp add: single_def page_load_def, blast intro: single_step)
  then show ?thesis by (auto simp: single_def split: if_splits)
qed

theorem single_flight_witness:
  "\<exists>s. (rstep BW)\<^sup>*\<^sup>* (page_load logged_in) s \<and> length (outstanding s) \<le> 1 \<and> outstanding s = [''r1'']"
proof -
  let ?s0 = "page_load logged_in"
  let ?s1 = "?s0\<lparr>clients := (clients ?s0)(0 := Requested)\<rparr>"
  have "rstep BW ?s0 ?s1" by (rule rstep.send) (simp add: page_load_def)
  moreover have "rstep BW ?s1 (on_401 BW 0 ?s1)" by (rule rstep.unauthorized) simp
  ultimately have r: "(rstep BW)\<^sup>*\<^sup>* ?s0 (on_401 BW 0 ?s1)" by (meson rtranclp.rtrancl_refl rtranclp.rtrancl_into_rtrancl)
  have o: "outstanding (on_401 BW 0 ?s1) = [''r1'']" by (simp add: on_401_def page_load_def)
  from single_flight[OF r] r o show ?thesis by blast
qed

lemma burst_joins: "inflight s \<Longrightarrow> spent (fold (on_401 S) cs s) = spent s \<and> inflight (fold (on_401 S) cs s)"
  by (induction cs arbitrary: s) (simp_all add: on_401_def)

text \<open>
  However many requests come back 401 before the refresh is answered, the stored refresh token is
  spent exactly once.
\<close>

theorem burst_spends_once:
  assumes "\<not> inflight s" "getRefreshToken S True (web s) = Some r" "r \<noteq> []" "cs \<noteq> []"
  shows "spent (fold (on_401 S) cs s) = spent s @ [r]"
proof -
  obtain c cs' where cs: "cs = c # cs'" using assms(4) by (cases cs) auto
  have "spent (on_401 S c s) = spent s @ [r]" "inflight (on_401 S c s)"
    using assms(1-3) by (simp_all add: on_401_def)
  with burst_joins[of "on_401 S c s" S cs'] cs show ?thesis by simp
qed

theorem burst_spends_once_witness:
  "spent (fold (on_401 BW) [0, 1, 2, 3] (page_load logged_in)) = [''r1'']"
proof -
  have g: "getRefreshToken BW True (web (page_load logged_in)) = Some ''r1''" by (simp add: page_load_def)
  show ?thesis
    using burst_spends_once[OF _ g, of "[0, 1, 2, 3]"] by (simp add: page_load_def)
qed

text \<open>
  A logout does not cancel a refresh in flight: when the refresh is answered with a token after
  the user has logged out, the answer stores a session again, and the token is back.
\<close>

theorem logout_undone_by_refresh:
  assumes "web_storage S" and "json res = Ret (Some d)" "rj_token d = Some t" "t \<noteq> []" "ok res"
  shows "getToken S True (clearSession S True (web s)) = None
    \<and> getToken S True (web (on_refreshed S r (Ret res) (s\<lparr>web := clearSession S True (web s)\<rparr>))) = Some t"
  using assms(2-5) web_storage.token_clear[OF assms(1)] web_storage.token_store[OF assms(1)]
  by (simp add: on_refreshed_def settle_refresh_def)

theorem logout_undone_by_refresh_witness:
  "getToken BW True (web (on_refreshed BW ''r1'' (Ret rotated)
     ((on_401 BW 0 (page_load logged_in))\<lparr>web := clearSession BW True logged_in\<rparr>))) = Some ''jwt2''"
proof -
  have "web (on_401 BW 0 (page_load logged_in)) = logged_in" by (simp add: on_401_def page_load_def Let_def)
  with logout_undone_by_refresh[OF bw.web_storage_axioms,
      of rotated "\<lparr>rj_token = Some ''jwt2'', rj_refresh_token = Some ''r2''\<rparr>" "''jwt2''"
        "on_401 BW 0 (page_load logged_in)" "''r1''"]
  show ?thesis by (simp add: rotated_def ok_def)
qed

section \<open>Login and roles\<close>

text \<open>
  After a login the provider, the stored token and, when the server named a role, the stored role
  agree with the server's answer, and a reload of the page restores them; after a logout nothing
  is left of either, also across a reload.
\<close>

theorem auth_reload_consistent:
  assumes "web_storage S" and "api_login u pin (au_web a) = (Ret d, w1)" and "lj_role d \<noteq> []"
  shows "let a' = snd (auth_login S api_login u pin a) in
      au_token a' = Some (lj_token d) \<and> au_role a' = Some (lj_role d) \<and> auth_mount S a' = a'
      \<and> (useSuperAdmin a' \<longleftrightarrow> lj_role d = ROLE_SUPERADMIN)
      \<and> auth_mount S (auth_logout S a') = auth_logout S a' \<and> \<not> useSuperAdmin (auth_logout S a')
      \<and> au_token (auth_logout S a') = None"
proof -
  have tk: "''token'' = TOKEN_KEY" by (simp add: TOKEN_KEY_def)
  have g: "ls_get S TOKEN_KEY w = getToken S True w" for w by (simp add: getToken_def readStored_def)
  have s: "ls_get S TOKEN_KEY (storeSession S True t x w) = Some t" for t x w
    using web_storage.token_store[OF assms(1)] by (simp add: g)
  have c: "ls_get S TOKEN_KEY (clearSession S True w) = None" for w
    using web_storage.token_clear(1)[OF assms(1)] by (simp add: g)
  show ?thesis
    using assms(2,3) web_storage.get_set[OF assms(1)] web_storage.get_remove[OF assms(1)]
    by (cases a) (simp add: auth_login_def auth_mount_def auth_logout_def useSuperAdmin_def readStoredRole_def Let_def tk s c)
qed

theorem auth_reload_consistent_witness:
  "useSuperAdmin (snd (auth_login BW (\<lambda>_ _. ret \<lparr>lj_token = ''jwt'', lj_refresh_token = ''r1'', lj_role = ''superadmin''\<rparr>)
     ''u'' ''1234'' \<lparr>au_token = None, au_role = None, au_web = logged_in\<rparr>))"
  using auth_reload_consistent[OF bw.web_storage_axioms,
    of "\<lambda>_ _. ret \<lparr>lj_token = ''jwt'', lj_refresh_token = ''r1'', lj_role = ''superadmin''\<rparr>" "''u''" "''1234''"
      "\<lparr>au_token = None, au_role = None, au_web = logged_in\<rparr>"
      "\<lparr>lj_token = ''jwt'', lj_refresh_token = ''r1'', lj_role = ''superadmin''\<rparr>" logged_in]
  by (simp add: ROLE_SUPERADMIN_def Let_def)

end
