(* ===== verification/Dashboard_Api.thy ===== *)
theory Dashboard_Api
  imports Dashboard_Session Js_Number
begin

text \<open>
  The endpoints of \<open>dashboard/lib/api.ts\<close>: the object \<open>api\<close>, whose methods build a request and
  hand it to \<open>req\<close>, \<open>serverReq\<close> or \<open>sdpReq\<close>.  A call is a value of one of the call types, its
  request is what the method builds, and \<open>dispatch\<close> sends it to the right server.
\<close>

section \<open>Bodies\<close>

datatype jv = JS string | JN js_num | JB bool

datatype 'f form_value = FText string | FFile 'f

text \<open>A JSON object by its fields, fields that are \<open>undefined\<close> left out, or a \<open>FormData\<close>.\<close>

datatype 'f dash_body = Json "(string \<times> jv) list" | Form "(string \<times> 'f form_value) list"

fun isForm :: "'f dash_body \<Rightarrow> bool" where
  "isForm (Form _) = True"
| "isForm (Json _) = False"

definition get_of :: "string \<Rightarrow> 'f dash_body request" where
  "get_of path = \<lparr>url = path, meth = ''GET'', headers = Map.empty, body = None\<rparr>"

definition post :: "string \<Rightarrow> 'f dash_body \<Rightarrow> 'f dash_body request" where
  "post path b = \<lparr>url = path, meth = ''POST'', headers = Map.empty, body = Some b\<rparr>"

text \<open>An optional field, included when it is present; \<open>set_truthy\<close> when it is truthy.\<close>

definition opt_field :: "string \<Rightarrow> ('a \<Rightarrow> 'b) \<Rightarrow> 'a option \<Rightarrow> (string \<times> 'b) list" where
  "opt_field k f x = (case x of None \<Rightarrow> [] | Some v \<Rightarrow> [(k, f v)])"

definition set_truthy :: "string \<Rightarrow> string option \<Rightarrow> (string \<times> string) list" where
  "set_truthy k x = opt_field k (\<lambda>v. v) (if_truthy x)"

definition page_query :: "int \<Rightarrow> int \<Rightarrow> string" where
  "page_query limit offset = ''limit='' @ show_int limit @ ''&offset='' @ show_int offset"

definition with_query :: "string \<Rightarrow> (string \<times> string) list \<Rightarrow> string" where
  "with_query path ps = (let query = form_text ps in path @ (if query = [] then [] else ''?'' @ query))"

section \<open>Accounts and payments\<close>

record QrRequest =
  qr_merchant_id :: string
  qr_amount :: js_num
  qr_asset :: string
  qr_memo :: "string option"
  qr_expiry :: js_num

record WithdrawalRequest =
  wr_destination_address :: string
  wr_amount :: js_num
  wr_asset :: string

record PayoutRequest =
  po_amount :: string
  po_asset :: string
  po_bankAccountId :: string
  po_anchorId :: string

datatype account_call =
    Login string string
  | DashboardStats
  | SocialFeed "int option"
  | Transactions "(string \<times> string) list option"
  | GetPayment string
  | GenerateQr QrRequest
  | CreateWithdrawal WithdrawalRequest
  | GetWithdrawal string
  | RequestPayout PayoutRequest
  | PayoutHistory "int option" "int option"
  | ListBatchPayouts "int option" "int option"
  | GetBatchPayout string

definition or_default :: "'a option \<Rightarrow> 'a \<Rightarrow> 'a" where
  "or_default x d = (case x of None \<Rightarrow> d | Some v \<Rightarrow> v)"

fun account_request :: "account_call \<Rightarrow> 'f dash_body request" where
  "account_request (Login user_id pin) =
     post ''/auth/login'' (Json [(''user_id'', JS user_id), (''pin'', JS pin)])"
| "account_request DashboardStats = get_of ''/admin/dashboard/stats''"
| "account_request (SocialFeed limit) =
     get_of (''/api/feed/public?limit='' @ show_int (or_default limit 100) @ ''&offset=0'')"
| "account_request (Transactions params) =
     get_of (''/admin/transactions'' @ (case params of None \<Rightarrow> [] | Some ps \<Rightarrow> ''?'' @ form_text ps))"
| "account_request (GetPayment i) = get_of (''/payments/'' @ i)"
| "account_request (GenerateQr b) = post ''/qr/generate'' (Json
     ([(''merchant_id'', JS (qr_merchant_id b)), (''amount'', JN (qr_amount b)), (''asset'', JS (qr_asset b))]
      @ opt_field ''memo'' JS (qr_memo b) @ [(''expiry'', JN (qr_expiry b))]))"
| "account_request (CreateWithdrawal b) = post ''/withdrawals'' (Json
     [(''destination_address'', JS (wr_destination_address b)), (''amount'', JN (wr_amount b)),
      (''asset'', JS (wr_asset b))])"
| "account_request (GetWithdrawal i) = get_of (''/withdrawals/'' @ i)"
| "account_request (RequestPayout b) = post ''/payouts'' (Json
     [(''amount'', JS (po_amount b)), (''asset'', JS (po_asset b)),
      (''bankAccountId'', JS (po_bankAccountId b)), (''anchorId'', JS (po_anchorId b))])"
| "account_request (PayoutHistory limit offset) =
     get_of (''/payouts/history?'' @ page_query (or_default limit 20) (or_default offset 0))"
| "account_request (ListBatchPayouts limit offset) =
     get_of (''/api/payouts/batches?'' @ page_query (or_default limit 20) (or_default offset 0))"
| "account_request (GetBatchPayout i) = get_of (''/api/payouts/batch/'' @ i)"

section \<open>Contracts and the Node server\<close>

datatype node_call =
    RetryBatchItem string int
  | ContractHealth
  | ContractMetrics
  | ContractAlerts
  | ContractConfig
  | SetFeeCoefficient js_num
  | AdminLogs "int option" "int option"

fun node_request :: "node_call \<Rightarrow> 'f dash_body request" where
  "node_request (RetryBatchItem i itemIndex) =
     post (''/api/v1/payouts/batch/'' @ i @ ''/retry'') (Json [(''item_index'', JN (Fin (of_int itemIndex)))])"
| "node_request ContractHealth = get_of ''/api/v1/admin/contracts/health''"
| "node_request ContractMetrics = get_of ''/api/v1/admin/contracts/metrics''"
| "node_request ContractAlerts = get_of ''/api/v1/admin/contracts/alerts''"
| "node_request ContractConfig = get_of ''/api/v1/admin/contracts/config''"
| "node_request (SetFeeCoefficient fee) =
     post ''/api/v1/admin/contracts/config/fee-coefficient'' (Json [(''fee_coefficient'', JN fee)])"
| "node_request (AdminLogs limit offset) =
     get_of (''/api/v1/admin/logs?'' @ page_query (or_default limit 50) (or_default offset 0))"

section \<open>Yield, registry and identities\<close>

record AuditParams =
  ap_q :: "string option"
  ap_action :: "string option"
  ap_limit :: "int option"
  ap_offset :: "int option"
  ap_from :: "string option"
  ap_to :: "string option"

definition audit_params :: "AuditParams \<Rightarrow> (string \<times> string) list" where
  "audit_params p = set_truthy ''q'' (ap_q p)
     @ set_truthy ''action'' (if ap_action p = Some ''all'' then None else ap_action p)
     @ opt_field ''limit'' show_int (ap_limit p)
     @ opt_field ''offset'' show_int (ap_offset p)
     @ set_truthy ''from'' (ap_from p)
     @ set_truthy ''to'' (ap_to p)"

record LinkParams =
  lp_query :: "string option"
  lp_limit :: "int option"
  lp_offset :: "int option"

definition link_params :: "LinkParams \<Rightarrow> (string \<times> string) list" where
  "link_params p = set_truthy ''q'' (lp_query p) @ opt_field ''limit'' show_int (lp_limit p)
     @ opt_field ''offset'' show_int (lp_offset p)"

datatype registry_call =
    MyProfile
  | YieldStats
  | YieldRateHistory
  | YieldAuditLogs AuditParams
  | SearchUsers string
  | RegistryClaims
  | RegistryStats
  | UserPayments string
  | IdentityLinks LinkParams
  | GetIdentityLink string

fun registry_request :: "registry_call \<Rightarrow> 'f dash_body request" where
  "registry_request MyProfile = get_of ''/profiles/me''"
| "registry_request YieldStats = get_of ''/admin/vault/stats''"
| "registry_request YieldRateHistory = get_of ''/api/yield/rates/history''"
| "registry_request (YieldAuditLogs p) = get_of (with_query ''/api/yield/history'' (audit_params p))"
| "registry_request (SearchUsers query) = get_of (''/api/users/search?q='' @ encodeURIComponent query)"
| "registry_request RegistryClaims = get_of ''/api/registry/claims''"
| "registry_request RegistryStats = get_of ''/api/registry/stats''"
| "registry_request (UserPayments u) = get_of (''/api/users/'' @ encodeURIComponent u @ ''/payments'')"
| "registry_request (IdentityLinks p) = get_of (with_query ''/admin/identity/links'' (link_params p))"
| "registry_request (GetIdentityLink u) = get_of (''/admin/identity/links/'' @ encodeURIComponent u)"

section \<open>The disbursement platform\<close>

record 'f BatchDisbursementParams =
  bd_file :: "'f option"
  bd_disbursement_name :: "string option"
  bd_asset_code :: "string option"
  bd_memo :: "string option"
  bd_wallet_id :: "string option"
  bd_auto_start :: "bool option"

datatype 'f sdp_call =
    SdpStatus
  | UploadDisbursementCSV 'f string
  | ListDisbursements "int option" "int option"
  | GetDisbursement string
  | GetDisbursementLogs string
  | TransmitBatchParameters "'f BatchDisbursementParams"
  | DisbursedVolumeStats

definition bool_str :: "bool \<Rightarrow> string" where
  "bool_str b = (if b then ''true'' else ''false'')"

definition batch_form :: "'f BatchDisbursementParams \<Rightarrow> 'f \<Rightarrow> (string \<times> 'f form_value) list" where
  "batch_form p file = [(''file'', FFile file)]
     @ opt_field ''disbursement_name'' FText (if_truthy (bd_disbursement_name p))
     @ opt_field ''asset_code'' FText (if_truthy (bd_asset_code p))
     @ opt_field ''memo'' FText (if_truthy (bd_memo p))
     @ opt_field ''wallet_id'' FText (if_truthy (bd_wallet_id p))
     @ opt_field ''auto_start'' (\<lambda>b. FText (bool_str b)) (bd_auto_start p)"

definition batch_json :: "'f BatchDisbursementParams \<Rightarrow> (string \<times> jv) list" where
  "batch_json p = opt_field ''disbursement_name'' JS (bd_disbursement_name p)
     @ opt_field ''asset_code'' JS (bd_asset_code p) @ opt_field ''memo'' JS (bd_memo p)
     @ opt_field ''wallet_id'' JS (bd_wallet_id p) @ opt_field ''auto_start'' JB (bd_auto_start p)"

fun sdp_request :: "'f sdp_call \<Rightarrow> 'f dash_body request" where
  "sdp_request SdpStatus = get_of ''/api/status''"
| "sdp_request (UploadDisbursementCSV file name) =
     post ''/api/disbursements'' (Form [(''file'', FFile file), (''disbursement_name'', FText name)])"
| "sdp_request (ListDisbursements limit offset) =
     get_of (''/api/disbursements?'' @ page_query (or_default limit 20) (or_default offset 0))"
| "sdp_request (GetDisbursement i) = get_of (''/api/disbursements/'' @ i)"
| "sdp_request (GetDisbursementLogs i) = get_of (''/api/disbursements/'' @ i @ ''/logs'')"
| "sdp_request (TransmitBatchParameters p) = (case bd_file p of
      Some file \<Rightarrow> post ''/api/disbursements'' (Form (batch_form p file))
    | None \<Rightarrow> post ''/api/disbursements'' (Json (batch_json p)))"
| "sdp_request DisbursedVolumeStats = get_of ''/api/disbursements/stats/volume''"

text \<open>\<open>.catch(() => fallback)\<close>, with the built-in figures of the two statistics calls.\<close>

definition or_fallback :: "('w, 'a) io \<Rightarrow> 'a \<Rightarrow> ('w, 'a) io" where
  "or_fallback m d = try_catch m (\<lambda>_. ret d)"

record volume_stats =
  totals_by_asset :: "(string \<times> int \<times> int) list"
  total_naira_volume :: int
  total_usd_volume :: int

definition volume_fallback :: volume_stats where
  "volume_fallback = \<lparr>totals_by_asset = [(''NGNC'', 18500000, 420), (''USDC'', 32400, 215), (''XLM'', 95000, 110)],
     total_naira_volume = 18500000, total_usd_volume = 32400\<rparr>"

record provider_stats =
  privy_signups :: int
  standard_signups :: int
  keypair_signups :: int
  total_users :: int
  breakdown :: "(string \<times> int \<times> rat) list"

definition provider_fallback :: provider_stats where
  "provider_fallback = \<lparr>privy_signups = 1420, standard_signups = 680, keypair_signups = 240, total_users = 2340,
     breakdown = [(''Privy (Web3/Social)'', 1420, 607/10), (''Standard (PIN/ID)'', 680, 291/10),
       (''Keypair/Freighter'', 240, 102/10)]\<rparr>"

section \<open>Sending\<close>

datatype 'f api_call = Account account_call | Node node_call | Registry registry_call | Sdp "'f sdp_call"

record bases =
  BASE :: string
  SERVER_BASE :: string
  SDP_BASE :: string
  SDP_ADMIN_TOKEN :: string

fun dispatch ::
  "'w storage_api \<Rightarrow> bool \<Rightarrow> ('w, string option) io \<Rightarrow> ('f dash_body request \<Rightarrow> ('w, 'j response) io) \<Rightarrow>
   bases \<Rightarrow> 'f api_call \<Rightarrow> ('w, 'j) io" where
  "dispatch S window refresh fetch B (Account c) = req S window refresh fetch (BASE B) (account_request c)"
| "dispatch S window refresh fetch B (Node c) = serverReq S window refresh fetch (SERVER_BASE B) (node_request c)"
| "dispatch S window refresh fetch B (Registry c) = req S window refresh fetch (BASE B) (registry_request c)"
| "dispatch S window refresh fetch B (Sdp c) =
     sdpReq S window refresh fetch (SDP_BASE B) (SDP_ADMIN_TOKEN B) isForm (sdp_request c)"

section \<open>Properties\<close>

lemma with_query_pairs:
  assumes "list_all query_char path" "CHR ''?'' \<notin> set path"
  shows "query_pairs (url_query (with_query path ps)) = ps"
proof (cases "form_text ps = []")
  case True
  then have "ps = []" using query_pairs_form_text[of ps] by (simp add: query_pairs_def)
  moreover have "cut_at (CHR ''?'') v = None" if "set v \<subseteq> set path" for v
    using assms(2) that by (auto simp: cut_at_None_iff)
  moreover have "url_query path = []"
  proof -
    have "filter (\<lambda>c. byte c \<noteq> 9 \<and> byte c \<noteq> 10 \<and> byte c \<noteq> 13) path = path"
      using assms(1) by (auto simp: filter_id_conv list_all_iff query_char_def)
    moreover have "cut_at (CHR ''#'') path = None"
      using assms(1) by (auto simp: cut_at_None_iff list_all_iff query_char_def)
    moreover have "cut_at (CHR ''?'') path = None" using assms(2) by (simp add: cut_at_None_iff)
    ultimately show ?thesis by (simp add: url_query_def Let_def)
  qed
  ultimately show ?thesis using True by (simp add: with_query_def query_pairs_def)
next
  case False
  have "list_all query_char (form_text ps)" using form_text_chars by (auto simp: list_all_iff)
  from url_query_append[OF assms this] False query_pairs_form_text[of ps] show ?thesis
    by (simp add: with_query_def Let_def)
qed

text \<open>
  The filters of the audit-log and identity-link calls survive the trip through the URL: reading
  the query string back gives exactly the given filters, whatever characters they contain, with
  empty filters and the action \<open>all\<close> left out.
\<close>

theorem filters_roundtrip:
  "query_pairs (url_query (url (registry_request (YieldAuditLogs p)))) = audit_params p
   \<and> query_pairs (url_query (url (registry_request (IdentityLinks l)))) = link_params l"
proof -
  have "list_all query_char ''/api/yield/history'' \<and> CHR ''?'' \<notin> set ''/api/yield/history''"
    "list_all query_char ''/admin/identity/links'' \<and> CHR ''?'' \<notin> set ''/admin/identity/links''"
    by (simp_all add: query_char_def)
  with with_query_pairs show ?thesis by (simp add: get_of_def)
qed

text \<open>
  The disbursement platform's requests: a form upload carries no \<open>Content-Type\<close> of its own, so
  that the browser sets the multipart boundary, every other call is JSON; the bearer token and
  the platform credential are present exactly when they are known.
\<close>

theorem sdp_request_headers:
  "let h = sdp_headers adm (case body (sdp_request c) of None \<Rightarrow> False | Some b \<Rightarrow> isForm b) (headers (sdp_request c)) t
   in h ''Content-Type'' = (if \<exists>fs. body (sdp_request c) = Some (Form fs) then None else Some ''application/json'')
    \<and> h ''Authorization'' = (if truthy t then Some (''Bearer '' @ the t) else None)
    \<and> h ''SDP-Admin-Token'' = (if adm = [] then None else Some adm)"
proof -
  have h: "headers (sdp_request c) = Map.empty"
    by (cases c) (auto simp: get_of_def post_def split: option.splits)
  have f: "(case b of None \<Rightarrow> False | Some b \<Rightarrow> isForm b) \<longleftrightarrow> (\<exists>fs. b = Some (Form fs))" for b :: "'a dash_body option"
    by (cases b; cases "the b") auto
  show ?thesis
    unfolding f h
    by (auto simp: Let_def sdp_headers_def authHeaders_def json_header_def bearer_def map_add_def split: option.splits)
qed

end
