(* ===== verification/Payout_Csv.thy ===== *)
theory Payout_Csv
  imports Js_Number
begin

text \<open>
  The disbursement upload of the dashboard (\<open>dashboard/app/dashboard/payouts/page.tsx\<close>): the headers and
  rows of a CSV file are validated before the file may be sent to the Stellar Disbursement Platform.
  \<open>Papa.parse\<close> is outside: its result is an argument.  Parsing takes time, so a drop is two events,
  and the state of the tab is that between two events.
\<close>

section \<open>Columns\<close>

definition SDP_HEADER_ALIASES :: "(string \<times> string list) list" where
  "SDP_HEADER_ALIASES =
     [(''phone'', [''phone'', ''phone_number'', ''msisdn'']),
      (''id'', [''id'', ''user_id'', ''identifier'']),
      (''amount'', [''amount'']),
      (''verification'', [''verification'', ''verification_code'', ''code'']),
      (''stellar_address'', [''stellar_address'', ''recipient_address'', ''destination'', ''destination_address'']),
      (''currency'', [''currency'', ''asset'', ''asset_code'']),
      (''recipient_name'', [''recipient_name'', ''name'', ''recipient''])]"

definition REQUIRED_CSV_HEADER_GROUPS :: "(string \<times> string list) list" where
  "REQUIRED_CSV_HEADER_GROUPS =
     [(''phone + id + amount + verification'', [''phone'', ''id'', ''amount'', ''verification'']),
      (''stellar_address + amount'', [''stellar_address'', ''amount''])]"

text \<open>\<open>/^G[A-Z2-7]{55}$/\<close>.\<close>

definition g_address :: "string \<Rightarrow> bool" where
  "g_address s \<longleftrightarrow> (case s of [] \<Rightarrow> False | c # r \<Rightarrow> c = CHR ''G'' \<and> length r = 55
     \<and> list_all (\<lambda>x. is_upper x \<or> x \<in> set ''234567'') r)"

definition normalizeHeader :: "string \<Rightarrow> string" where
  "normalizeHeader raw = (let clean = toLowerCase (trim raw) in
     case find (\<lambda>g. clean \<in> set (snd g)) SDP_HEADER_ALIASES of Some g \<Rightarrow> fst g | None \<Rightarrow> clean)"

fun header_map_from :: "nat \<Rightarrow> string list \<Rightarrow> (string \<rightharpoonup> nat) \<Rightarrow> (string \<rightharpoonup> nat)" where
  "header_map_from i [] m = m"
| "header_map_from i (h # hs) m = header_map_from (Suc i) hs (m(normalizeHeader h \<mapsto> i))"

definition buildHeaderMap :: "string list \<Rightarrow> (string \<rightharpoonup> nat)" where
  "buildHeaderMap rawHeaders = header_map_from 0 rawHeaders Map.empty"

record ParsedCsvRow =
  cr_rowNumber :: int
  cr_cells :: "string \<rightharpoonup> string"

definition getCell :: "ParsedCsvRow \<Rightarrow> string \<Rightarrow> string" where
  "getCell row column = (case cr_cells row column of None \<Rightarrow> [] | Some raw \<Rightarrow> trim raw)"

definition detectHeaderErrors :: "string list \<Rightarrow> string list" where
  "detectHeaderErrors hs =
     (let normalized = map normalizeHeader hs in
      if \<exists>g \<in> set REQUIRED_CSV_HEADER_GROUPS. \<forall>h \<in> set (snd g). h \<in> set normalized then []
      else let groupStr = join '' OR '' (map (\<lambda>g. ''['' @ join '', '' (snd g) @ ''] ('' @ fst g @ '')'') REQUIRED_CSV_HEADER_GROUPS)
        in [''Missing required column group. SDP expects any of: '' @ groupStr @ ''.'',
            ''Headers found: '' @ (let t = join '', '' hs in if t = [] then ''(none)'' else t)])"

section \<open>Rows\<close>

record ValidatedRow =
  vr_rowNumber :: int
  vr_raw :: ParsedCsvRow
  vr_valid :: bool
  vr_errors :: "string list"
  vr_stellarAddress :: "string option"
  vr_amount :: "js_num option"
  vr_currency :: "string option"

definition cell_of :: "string list \<Rightarrow> ParsedCsvRow \<Rightarrow> string \<Rightarrow> string" where
  "cell_of hs row column = (case buildHeaderMap hs column of Some i \<Rightarrow> getCell row (hs ! i) | None \<Rightarrow> [])"

definition positive :: "js_num \<Rightarrow> bool" where
  "positive n \<longleftrightarrow> isFinite n \<and> \<not> num_le n (Fin 0)"

definition row_errors :: "string list \<Rightarrow> ParsedCsvRow \<Rightarrow> string list" where
  "row_errors hs row =
     (let stellarAddress = cell_of hs row ''stellar_address''; phone = cell_of hs row ''phone'';
          ident = cell_of hs row ''id''; verification = cell_of hs row ''verification'';
          amountRaw = cell_of hs row ''amount'';
          hasStellar = stellarAddress \<noteq> []; hasPhoneId = (phone \<noteq> [] \<and> ident \<noteq> [] \<and> verification \<noteq> [])
      in (if \<not> hasStellar \<and> \<not> hasPhoneId
          then [''Row must provide either stellar_address OR (phone + id + verification).''] else [])
       @ (if hasStellar \<and> \<not> g_address stellarAddress then [''stellar_address is not a valid G-address.''] else [])
       @ (if amountRaw = [] then [''amount is required.'']
          else if \<not> positive (Number amountRaw) then [''amount must be a positive number.''] else []))"

definition validate_row :: "string list \<Rightarrow> ParsedCsvRow \<Rightarrow> ValidatedRow" where
  "validate_row hs row =
     (let stellarAddress = cell_of hs row ''stellar_address''; n = Number (cell_of hs row ''amount'');
          currency = toUpperCase (cell_of hs row ''currency'')
      in \<lparr>vr_rowNumber = cr_rowNumber row, vr_raw = row, vr_valid = (row_errors hs row = []),
        vr_errors = row_errors hs row, vr_stellarAddress = (if stellarAddress = [] then None else Some stellarAddress),
        vr_amount = (if positive n then Some n else None), vr_currency = (if currency = [] then None else Some currency)\<rparr>)"

definition validateRows :: "ParsedCsvRow list \<Rightarrow> string list \<Rightarrow> ValidatedRow list" where
  "validateRows rows hs = map (validate_row hs) rows"

section \<open>The summary of a file\<close>

text \<open>What \<open>Papa.parse\<close> delivers: the header fields, the rows, and the errors with their row.\<close>

record parse_result =
  pa_fields :: "string list option"
  pa_data :: "(string \<rightharpoonup> string) list"
  pa_errors :: "(int option \<times> string) list"

record csv_file =
  cf_name :: string
  cf_size :: js_num

record ParsedCsvSummary =
  su_fileName :: string
  su_fileSizeKb :: js_num
  su_headers :: "string list"
  su_totalRows :: nat
  su_validRows :: nat
  su_invalidRows :: nat
  su_headerErrors :: "string list"
  su_amountTotal :: "js_num option"
  su_currencyCounts :: "string \<rightharpoonup> nat"
  su_addressFoundCount :: nat
  su_rows :: "ValidatedRow list"

definition count_key :: "ValidatedRow \<Rightarrow> string" where
  "count_key r = (case vr_currency r of Some c \<Rightarrow> c | None \<Rightarrow> ''(default)'')"

definition count_row :: "(string \<rightharpoonup> nat) \<times> js_num \<times> nat \<Rightarrow> ValidatedRow \<Rightarrow> (string \<rightharpoonup> nat) \<times> js_num \<times> nat" where
  "count_row = (\<lambda>(counts, total, found) r. if \<not> vr_valid r then (counts, total, found)
     else (counts(count_key r \<mapsto> (case counts (count_key r) of None \<Rightarrow> 0 | Some n \<Rightarrow> n) + 1),
           (case vr_amount r of None \<Rightarrow> total | Some a \<Rightarrow> num_add total a),
           (if vr_stellarAddress r = None then found else found + 1)))"

definition parse_error_text :: "int option \<times> string \<Rightarrow> string" where
  "parse_error_text e = ''Parse'' @ (case fst e of None \<Rightarrow> [] | Some r \<Rightarrow> '' (row '' @ show_int (r + 1) @ '')'') @ '': '' @ snd e"

definition data_rows :: "parse_result \<Rightarrow> ParsedCsvRow list" where
  "data_rows p = map (\<lambda>(idx, cells). \<lparr>cr_rowNumber = int idx + 2, cr_cells = cells\<rparr>) (enumerate 0 (pa_data p))"

definition summarize :: "csv_file \<Rightarrow> parse_result \<Rightarrow> ParsedCsvSummary" where
  "summarize file p =
     (let rawHeaders = (case pa_fields p of None \<Rightarrow> [] | Some hs \<Rightarrow> hs);
          headerErrors = detectHeaderErrors rawHeaders;
          dataRows = data_rows p;
          parseErrors = headerErrors @ map parse_error_text (pa_errors p);
          validatedRows = (if headerErrors = [] then validateRows dataRows rawHeaders else []);
          validCount = length (filter vr_valid validatedRows);
          (counts, total, found) = foldl count_row (Map.empty, Fin 0, 0) validatedRows
      in \<lparr>su_fileName = cf_name file, su_fileSizeKb = num_mul (cf_size file) (Fin (1 / 1024)), su_headers = rawHeaders,
        su_totalRows = length dataRows, su_validRows = validCount,
        su_invalidRows = length validatedRows - validCount, su_headerErrors = parseErrors,
        su_amountTotal = (if num_less (Fin 0) total then Some total else None),
        su_currencyCounts = counts, su_addressFoundCount = found, su_rows = validatedRows\<rparr>)"

section \<open>The tab\<close>

datatype ValidationStatus = Idle | Parsing | Checked ParsedCsvSummary | Failed string

datatype upload_result = Uploaded | UploadFailed string

record sdp_tab =
  tb_disbursementName :: string
  tb_selectedFile :: "csv_file option"
  tb_validation :: ValidationStatus
  tb_uploading :: bool
  tb_uploadResult :: "upload_result option"

definition tab_mounted :: sdp_tab where
  "tab_mounted = \<lparr>tb_disbursementName = [], tb_selectedFile = None, tb_validation = Idle, tb_uploading = False,
     tb_uploadResult = None\<rparr>"

fun drop_begin :: "csv_file list \<Rightarrow> sdp_tab \<Rightarrow> sdp_tab" where
  "drop_begin [] s = s\<lparr>tb_uploadResult := None\<rparr>"
| "drop_begin (file # fs) s = s\<lparr>tb_uploadResult := None, tb_selectedFile := Some file, tb_validation := Parsing\<rparr>"

definition drop_end :: "csv_file \<Rightarrow> parse_result res \<Rightarrow> sdp_tab \<Rightarrow> sdp_tab" where
  "drop_end file r s = s\<lparr>tb_validation := (case r of Ret p \<Rightarrow> Checked (summarize file p)
     | Throw e \<Rightarrow> Failed (message_or ''Failed to parse CSV file.'' e))\<rparr>"

definition clearFile :: "sdp_tab \<Rightarrow> sdp_tab" where
  "clearFile s = s\<lparr>tb_selectedFile := None, tb_validation := Idle, tb_uploadResult := None\<rparr>"

definition submissionAllowed :: "sdp_tab \<Rightarrow> bool" where
  "submissionAllowed s \<longleftrightarrow> tb_selectedFile s \<noteq> None \<and> (case tb_validation s of
       Checked u \<Rightarrow> su_headerErrors u = [] \<and> su_invalidRows u = 0 | _ \<Rightarrow> False)"

definition fileBasename :: "string \<Rightarrow> string" where
  "fileBasename name = (case cut_at (CHR ''.'') (rev name) of None \<Rightarrow> name
     | Some (ext, base) \<Rightarrow> if base = [] then name else rev base)"

text \<open>The request an upload makes, if it makes one; \<open>now\<close> is \<open>Date.now()\<close>.\<close>

definition upload_request :: "int \<Rightarrow> sdp_tab \<Rightarrow> (csv_file \<times> string) option" where
  "upload_request now s = (if \<not> submissionAllowed s then None
     else let file = the (tb_selectedFile s); name = trim (tb_disbursementName s) in
       Some (file, if name = [] then fileBasename (cf_name file) @ ''-'' @ show_int now else name))"

definition upload_begin :: "sdp_tab \<Rightarrow> sdp_tab" where
  "upload_begin s = (if \<not> submissionAllowed s then s else s\<lparr>tb_uploading := True, tb_uploadResult := None\<rparr>)"

text \<open>A successful upload is recorded and the file cleared, which clears the record with it.\<close>

definition upload_end :: "unit res \<Rightarrow> sdp_tab \<Rightarrow> sdp_tab" where
  "upload_end r s = (case r of
       Ret _ \<Rightarrow> (clearFile (s\<lparr>tb_uploadResult := Some Uploaded\<rparr>))\<lparr>tb_disbursementName := [], tb_uploading := False\<rparr>
     | Throw e \<Rightarrow> s\<lparr>tb_uploadResult := Some (UploadFailed (message_or ''Upload failed.'' e)), tb_uploading := False\<rparr>)"

section \<open>Only payable files are sent\<close>

lemma show_int_ne: "show_int i \<noteq> []"
  by (simp add: show_int_def)

lemma header_map_from_dom: "dom (header_map_from i hs m) = dom m \<union> normalizeHeader ` set hs"
  by (induction hs arbitrary: i m) auto

text \<open>The column of a header is the last one with that name.\<close>

lemma buildHeaderMap_last:
  assumes "buildHeaderMap hs c = Some i"
  shows "\<exists>h rest. drop i hs = h # rest \<and> normalizeHeader h = c \<and> c \<notin> normalizeHeader ` set rest"
proof -
  have "header_map_from k xs m c = Some i \<Longrightarrow> (m c = Some i \<and> c \<notin> normalizeHeader ` set xs)
      \<or> (k \<le> i \<and> (\<exists>h rest. drop (i - k) xs = h # rest \<and> normalizeHeader h = c \<and> c \<notin> normalizeHeader ` set rest))" for xs k m
  proof (induction xs arbitrary: k m)
    case (Cons x xs)
    have h: "header_map_from (Suc k) xs (m(normalizeHeader x \<mapsto> k)) c = Some i"
      using Cons.prems by (simp only: header_map_from.simps)
    from Cons.IH[OF h]
    consider "(m(normalizeHeader x \<mapsto> k)) c = Some i" "c \<notin> normalizeHeader ` set xs"
      | h rest where "Suc k \<le> i" "drop (i - Suc k) xs = h # rest" "normalizeHeader h = c" "c \<notin> normalizeHeader ` set rest"
      by blast
    then show ?case
    proof cases
      case 1
      then show ?thesis by (cases "c = normalizeHeader x") auto
    next
      case (2 h rest)
      then have "drop (i - k) (x # xs) = h # rest" by (metis Suc_diff_le Suc_le_D diff_Suc_Suc drop_Suc_Cons)
      with 2 show ?thesis by auto
    qed
  qed simp
  from this[of 0 hs Map.empty] assms show ?thesis by (simp add: buildHeaderMap_def)
qed

lemma row_errors_Nil: "row_errors hs row = [] \<longleftrightarrow>
    positive (Number (cell_of hs row ''amount'')) \<and> cell_of hs row ''amount'' \<noteq> []
    \<and> (cell_of hs row ''stellar_address'' \<noteq> [] \<longrightarrow> g_address (cell_of hs row ''stellar_address''))
    \<and> (cell_of hs row ''stellar_address'' \<noteq> [] \<or>
       (cell_of hs row ''phone'' \<noteq> [] \<and> cell_of hs row ''id'' \<noteq> [] \<and> cell_of hs row ''verification'' \<noteq> []))"
  by (auto simp: row_errors_def Let_def)

lemma no_header_errors:
  "detectHeaderErrors hs = [] \<longleftrightarrow> (\<exists>g \<in> set REQUIRED_CSV_HEADER_GROUPS. \<forall>h \<in> set (snd g). buildHeaderMap hs h \<noteq> None)"
proof -
  have d: "buildHeaderMap hs h \<noteq> None \<longleftrightarrow> h \<in> normalizeHeader ` set hs" for h
    using header_map_from_dom[of 0 hs Map.empty] by (auto simp: buildHeaderMap_def dom_def set_eq_iff)
  show ?thesis unfolding d detectHeaderErrors_def Let_def set_map by simp
qed

lemma invalid_none: "length xs - length (filter P xs) = 0 \<longleftrightarrow> (\<forall>x \<in> set xs. P x)"
proof -
  have "length (filter P xs) < length xs \<longleftrightarrow> (\<exists>x \<in> set xs. \<not> P x)"
    using length_filter_less by (metis filter_True less_irrefl)
  then show ?thesis by (metis diff_is_0_eq not_less)
qed

lemma summarize_fields:
  "su_headerErrors (summarize file p) = detectHeaderErrors (case pa_fields p of None \<Rightarrow> [] | Some hs \<Rightarrow> hs) @ map parse_error_text (pa_errors p)"
  "su_rows (summarize file p) = (if detectHeaderErrors (case pa_fields p of None \<Rightarrow> [] | Some hs \<Rightarrow> hs) = []
     then validateRows (data_rows p) (case pa_fields p of None \<Rightarrow> [] | Some hs \<Rightarrow> hs) else [])"
  "su_validRows (summarize file p) = length (filter vr_valid (su_rows (summarize file p)))"
  "su_invalidRows (summarize file p) = length (su_rows (summarize file p)) - length (filter vr_valid (su_rows (summarize file p)))"
  "su_totalRows (summarize file p) = length (data_rows p)"
  "(su_currencyCounts (summarize file p), snd (foldl count_row (Map.empty, Fin 0, 0) (su_rows (summarize file p))))
     = foldl count_row (Map.empty, Fin 0, 0) (su_rows (summarize file p))"
  "su_addressFoundCount (summarize file p) = snd (snd (foldl count_row (Map.empty, Fin 0, 0) (su_rows (summarize file p))))"
  by (simp_all add: summarize_def Let_def split: prod.splits)

text \<open>
  C4: An upload sends only payable files.  When one file was dropped and its parse has ended, a
  request leaves the tab only for that file, only if it parsed without errors and has one of the
  required groups of columns, and only if every row has a positive finite amount and either a
  well-formed Stellar address or, with the address left empty, a phone, an id and a verification.
\<close>

theorem upload_only_valid:
  assumes "upload_request now (drop_end file (Ret p) (drop_begin [file] s)) = Some (f, name)"
  shows "f = file \<and> name \<noteq> [] \<and> pa_errors p = []
    \<and> (let hs = (case pa_fields p of None \<Rightarrow> [] | Some hs \<Rightarrow> hs) in
       (\<exists>g \<in> set REQUIRED_CSV_HEADER_GROUPS. \<forall>h \<in> set (snd g). buildHeaderMap hs h \<noteq> None)
       \<and> (\<forall>row \<in> set (data_rows p). positive (Number (cell_of hs row ''amount''))
           \<and> (if cell_of hs row ''stellar_address'' \<noteq> [] then g_address (cell_of hs row ''stellar_address'')
              else cell_of hs row ''phone'' \<noteq> [] \<and> cell_of hs row ''id'' \<noteq> [] \<and> cell_of hs row ''verification'' \<noteq> [])))"
proof -
  let ?s = "drop_end file (Ret p) (drop_begin [file] s)"
  define hs where "hs = (case pa_fields p of None \<Rightarrow> [] | Some hs \<Rightarrow> hs)"
  note fields = summarize_fields(1,2,4)[where p = p, folded hs_def]
  have a: "submissionAllowed ?s" using assms by (auto simp: upload_request_def split: if_splits)
  then have h: "su_headerErrors (summarize file p) = []" "su_invalidRows (summarize file p) = 0"
    by (auto simp: submissionAllowed_def drop_end_def)
  then have e: "detectHeaderErrors hs = []" "pa_errors p = []" by (simp_all add: fields)
  have "\<forall>r \<in> set (validateRows (data_rows p) hs). vr_valid r"
    using h(2) e(1) unfolding fields invalid_none by simp
  then have "\<forall>row \<in> set (data_rows p). row_errors hs row = []"
    by (simp add: validateRows_def validate_row_def Let_def)
  moreover have "f = file \<and> name \<noteq> []"
    using assms a by (auto simp: upload_request_def Let_def drop_end_def show_int_ne split: if_splits)
  ultimately show ?thesis
    using e(1) unfolding Let_def hs_def[symmetric] row_errors_Nil no_header_errors by (auto simp: e(2))
qed

definition sample_csv :: csv_file where
  "sample_csv = \<lparr>cf_name = ''march.csv'', cf_size = Fin 64\<rparr>"

definition sample_parse :: "string \<Rightarrow> parse_result" where
  "sample_parse amount = \<lparr>pa_fields = Some [''Phone'', ''id'', ''amount'', ''code''],
     pa_data = [[''Phone'' \<mapsto> ''0801'', ''id'' \<mapsto> ''7'', ''amount'' \<mapsto> amount, ''code'' \<mapsto> ''x'']], pa_errors = []\<rparr>"

lemma sample_columns:
  "normalizeHeader ''Phone'' = ''phone''" "normalizeHeader ''id'' = ''id''"
  "normalizeHeader ''amount'' = ''amount''" "normalizeHeader ''code'' = ''verification''"
  by code_simp+

lemma sample_summary:
  "su_headerErrors (summarize sample_csv (sample_parse ''5'')) = []" "su_invalidRows (summarize sample_csv (sample_parse ''5'')) = 0"
proof -
  let ?hs = "[''Phone'', ''id'', ''amount'', ''code'']"
  have n: "Number ''5'' = Fin 5"
    by (simp add: Number_def trim_def is_ws_def radix_literal_def signed_decimal_def unsigned_decimal_def exponent_part_def
        span_def is_digit_def digits_val_def startsWith_def Let_def)
  have d: "detectHeaderErrors ?hs = []"
    by (simp add: detectHeaderErrors_def sample_columns REQUIRED_CSV_HEADER_GROUPS_def)
  have c: "row_errors ?hs row = []" if "row \<in> set (data_rows (sample_parse ''5''))" for row
    using that unfolding row_errors_Nil
    by (simp add: cell_of_def buildHeaderMap_def sample_columns getCell_def data_rows_def sample_parse_def trim_def is_ws_def n
        positive_def num_le_def)
  show "su_headerErrors (summarize sample_csv (sample_parse ''5'')) = []"
    unfolding summarize_fields by (simp add: sample_parse_def d)
  show "su_invalidRows (summarize sample_csv (sample_parse ''5'')) = 0"
    unfolding summarize_fields(4) invalid_none
    using c by (auto simp: summarize_fields(2) sample_parse_def d validateRows_def validate_row_def Let_def)
qed

theorem upload_only_valid_witness:
  "upload_request 0 (drop_end sample_csv (Ret (sample_parse ''5'')) (drop_begin [sample_csv] tab_mounted)) = Some (sample_csv, ''march-0'')
   \<and> pa_errors (sample_parse ''5'') = []"
proof -
  have "fileBasename ''march.csv'' = ''march''" "show_int 0 = ''0''" by code_simp+
  then have u: "upload_request 0 (drop_end sample_csv (Ret (sample_parse ''5'')) (drop_begin [sample_csv] tab_mounted)) = Some (sample_csv, ''march-0'')"
    using sample_summary by (simp add: upload_request_def submissionAllowed_def drop_end_def tab_mounted_def sample_csv_def)
  from upload_only_valid[OF u] u show ?thesis by blast
qed

section \<open>The numbers on the card\<close>

definition total_count :: "(string \<rightharpoonup> nat) \<Rightarrow> nat" where
  "total_count m = (\<Sum>k \<in> dom m. the (m k))"

lemma total_count_bump:
  assumes "finite (dom m)"
  shows "total_count (m(k \<mapsto> (case m k of None \<Rightarrow> 0 | Some n \<Rightarrow> n) + 1)) = total_count m + 1"
proof -
  have c: "(\<Sum>x \<in> dom m - {k}. the ((m(k \<mapsto> v)) x)) = (\<Sum>x \<in> dom m - {k}. the (m x))" for v
    by (rule sum.cong) auto
  have t: "(\<Sum>x \<in> insert k (dom m). f x) = f k + (\<Sum>x \<in> dom m - {k}. f x)" for f :: "string \<Rightarrow> nat"
    using assms by (subst sum.insert_remove) auto
  have "total_count m = (case m k of None \<Rightarrow> 0 | Some n \<Rightarrow> n) + (\<Sum>x \<in> dom m - {k}. the (m x))"
  proof (cases "m k")
    case None
    then have "dom m - {k} = dom m" by auto
    with None show ?thesis by (simp add: total_count_def)
  next
    case (Some n)
    then have "k \<in> dom m" by auto
    from sum.remove[OF assms this, of "\<lambda>x. the (m x)"] Some show ?thesis by (simp add: total_count_def)
  qed
  then show ?thesis using t[of "\<lambda>x. the ((m(k \<mapsto> (case m k of None \<Rightarrow> 0 | Some n \<Rightarrow> n) + 1)) x)"] c
    by (simp add: total_count_def)
qed

lemma count_rows:
  assumes "finite (dom c0)" "foldl count_row (c0, t0, f0) rs = (c, t, f)"
  shows "finite (dom c) \<and> total_count c = total_count c0 + length (filter vr_valid rs)
    \<and> f = f0 + length (filter (\<lambda>r. vr_valid r \<and> vr_stellarAddress r \<noteq> None) rs)"
  using assms
proof (induction rs arbitrary: c0 t0 f0)
  case (Cons r rs)
  obtain c1 t1 f1 where r: "count_row (c0, t0, f0) r = (c1, t1, f1)" by (metis prod_cases3)
  have fold: "foldl count_row (c1, t1, f1) rs = (c, t, f)" using Cons.prems(2) r by simp
  show ?case
  proof (cases "vr_valid r")
    case True
    then have c1: "c1 = c0(count_key r \<mapsto> (case c0 (count_key r) of None \<Rightarrow> 0 | Some n \<Rightarrow> n) + 1)"
      and f1: "f1 = (if vr_stellarAddress r = None then f0 else f0 + 1)"
      using r by (auto simp: count_row_def)
    have "finite (dom c1)" using Cons.prems(1) by (simp add: c1)
    note IH = Cons.IH[OF this fold]
    from total_count_bump[OF Cons.prems(1), of "count_key r"]
    have "total_count c1 = total_count c0 + 1" unfolding c1 .
    with IH show ?thesis using True by (simp add: f1)
  next
    case False
    then have "c1 = c0" "f1 = f0" using r by (auto simp: count_row_def)
    with Cons.IH[OF _ fold] Cons.prems(1) False show ?thesis by simp
  qed
qed simp

text \<open>
  The numbers on the card agree with one another: valid and invalid rows together are all the
  rows of a file with acceptable headers and none otherwise, the per-currency counts, with the
  rows that name no currency under their own key, add up to the valid rows, and the rows counted
  as having an address are among them.
\<close>

theorem summary_consistent:
  "su_validRows (summarize file p) + su_invalidRows (summarize file p)
     = (if detectHeaderErrors (su_headers (summarize file p)) = [] then su_totalRows (summarize file p) else 0)
   \<and> (\<Sum>k \<in> dom (su_currencyCounts (summarize file p)). the (su_currencyCounts (summarize file p) k))
     = su_validRows (summarize file p)
   \<and> su_addressFoundCount (summarize file p) \<le> su_validRows (summarize file p)"
proof -
  let ?s = "summarize file p"
  have hd: "su_headers ?s = (case pa_fields p of None \<Rightarrow> [] | Some hs \<Rightarrow> hs)"
    by (simp add: summarize_def Let_def split: prod.splits)
  have len: "length (su_rows ?s) = (if detectHeaderErrors (su_headers ?s) = [] then su_totalRows ?s else 0)"
    unfolding summarize_fields(2,5) hd by (simp add: validateRows_def)
  obtain c t f where fold: "foldl count_row (Map.empty, Fin 0, 0) (su_rows ?s) = (c, t, f)" by (metis prod_cases3)
  have "su_currencyCounts ?s = c" "su_addressFoundCount ?s = f"
    using summarize_fields(6,7)[where p = p] fold by (metis prod.inject, metis snd_conv)
  moreover have "total_count c = length (filter vr_valid (su_rows ?s))"
    "f = length (filter (\<lambda>r. vr_valid r \<and> vr_stellarAddress r \<noteq> None) (su_rows ?s))"
    using count_rows[OF _ fold] by (simp_all add: total_count_def)
  moreover have "length (filter (\<lambda>r. vr_valid r \<and> vr_stellarAddress r \<noteq> None) rs) \<le> length (filter vr_valid rs)" for rs
    by (induction rs) auto
  moreover have "length (filter vr_valid (su_rows ?s)) \<le> length (su_rows ?s)" by simp
  ultimately show ?thesis using len summarize_fields(3,4)[where p = p] by (simp add: total_count_def)
qed

section \<open>Validation of another file\<close>

text \<open>
  The validation shown is not tied to the file that will be sent.  When a second file is dropped
  while the first is still being parsed and the first parse ends last, the tab holds the second
  file with the first one's verdict, and a request for the unvalidated file leaves it whenever
  the first one was acceptable, whatever the second one contains.
\<close>

theorem stale_validation:
  "upload_request now (drop_end a (Ret pa) (drop_end b pb (drop_begin [b] (drop_begin [a] s))))
     = (if su_headerErrors (summarize a pa) = [] \<and> su_invalidRows (summarize a pa) = 0
        then Some (b, let name = trim (tb_disbursementName s) in
          if name = [] then fileBasename (cf_name b) @ ''-'' @ show_int now else name)
        else None)"
  by (simp add: upload_request_def submissionAllowed_def drop_end_def Let_def)

text \<open>The notice of a successful upload does not survive the clearing of the form in the same update.\<close>

lemma success_notice_lost: "tb_uploadResult (upload_end (Ret ()) s) = None"
  by (simp add: upload_end_def clearFile_def)

end
