(* ===== verification/Key_Rotation.thy ===== *)
theory Key_Rotation
  imports Api_Client Biometric "HOL-Library.Word"
begin

unbundle bit_operations_syntax

text \<open>
  The biometric screen of the mobile app (\<open>mobileapp/app/biometric.tsx\<close>): rotation of the storage slot of
  the session tokens, the account PIN, the authentication overlay that guards payments, and the
  onboarding screen.  \<open>getS\<close>, \<open>setS\<close>, \<open>delS\<close> is the secure store, \<open>getA\<close>, \<open>setA\<close> the plain one, \<open>clock\<close>
  is \<open>Date.now()\<close>.
\<close>

section \<open>Slots\<close>

definition KEY_ROTATION_VERSION_KEY :: string where "KEY_ROTATION_VERSION_KEY = ''auth_key_rotation_version''"
definition KEY_ROTATION_INTERVAL_MS :: int where "KEY_ROTATION_INTERVAL_MS = 7 * 24 * 60 * 60 * 1000"
definition LAST_ROTATION_TIMESTAMP_KEY :: string where "LAST_ROTATION_TIMESTAMP_KEY = ''auth_key_last_rotation_ts''"

definition ROTATABLE_TOKEN_KEYS :: "string list" where
  "ROTATABLE_TOKEN_KEYS = [''privy_session_token'', ''privy_user_state'']"

definition versionedKey :: "string \<Rightarrow> int \<Rightarrow> string" where
  "versionedKey base version = base @ ''_v'' @ show_int version"

text \<open>The remainder of the language takes the sign of the dividend.\<close>

definition js_rem :: "int \<Rightarrow> int \<Rightarrow> int" where
  "js_rem a b = (if a < 0 then - ((- a) mod b) else a mod b)"

definition parsed_version :: "string option \<Rightarrow> int" where
  "parsed_version raw = (case parseInt (case raw of None \<Rightarrow> ''0'' | Some r \<Rightarrow> r) of Fin q \<Rightarrow> js_rem \<lfloor>q\<rfloor> 2 | _ \<Rightarrow> 0)"

definition getActiveKeyVersion :: "(string \<Rightarrow> 'w \<Rightarrow> string option res) \<Rightarrow> ('w, int) io" where
  "getActiveKeyVersion getS = try_catch
     (bnd (reads (getS KEY_ROTATION_VERSION_KEY)) (\<lambda>raw. ret (parsed_version raw))) (\<lambda>_. ret 0)"

text \<open>
  The read of the legacy key is returned without being awaited, so its rejection is not caught: the
  \<open>try\<close> yields either the answer (\<open>Inl\<close>) or the decision to return that read (\<open>Inr\<close>).
\<close>

definition getRotatedToken :: "(string \<Rightarrow> 'w \<Rightarrow> string option res) \<Rightarrow> string \<Rightarrow> ('w, string option) io" where
  "getRotatedToken getS base = bnd (try_catch
       (bnd (getActiveKeyVersion getS) (\<lambda>version. bnd (reads (getS (versionedKey base version))) (\<lambda>versioned.
          ret (if versioned \<noteq> None then Inl versioned else Inr ()))))
       (\<lambda>_. ret (Inl None)))
     (\<lambda>r. case r of Inl v \<Rightarrow> ret v | Inr _ \<Rightarrow> reads (getS base))"

definition setRotatedToken ::
  "(string \<Rightarrow> 'w \<Rightarrow> string option res) \<Rightarrow> (string \<Rightarrow> string \<Rightarrow> ('w, unit) io) \<Rightarrow> string \<Rightarrow> string \<Rightarrow> ('w, unit) io" where
  "setRotatedToken getS setS base value = bnd (getActiveKeyVersion getS) (\<lambda>version. setS (versionedKey base version) value)"

definition quietly :: "('w, unit) io \<Rightarrow> ('w, unit) io" where
  "quietly m = try_catch m (\<lambda>_. ret ())"

definition deleteRotatedToken ::
  "(string \<Rightarrow> 'w \<Rightarrow> string option res) \<Rightarrow> (string \<Rightarrow> ('w, unit) io) \<Rightarrow> string \<Rightarrow> ('w, unit) io" where
  "deleteRotatedToken getS delS base = bnd (getActiveKeyVersion getS) (\<lambda>version.
     bnd (quietly (delS (versionedKey base version))) (\<lambda>_. quietly (delS base)))"

section \<open>Rotation\<close>

definition read_token :: "(string \<Rightarrow> 'w \<Rightarrow> string option res) \<Rightarrow> int \<Rightarrow> string \<Rightarrow> ('w, string option) io" where
  "read_token getS current key =
     bnd (try_catch (reads (getS (versionedKey key current))) (\<lambda>_. ret None)) (\<lambda>value.
       if value = None then try_catch (reads (getS key)) (\<lambda>_. ret None) else ret value)"

fun read_tokens ::
  "(string \<Rightarrow> 'w \<Rightarrow> string option res) \<Rightarrow> int \<Rightarrow> string list \<Rightarrow> ('w, (string \<times> string option) list) io" where
  "read_tokens getS current [] = ret []"
| "read_tokens getS current (k # ks) = bnd (read_token getS current k) (\<lambda>v.
     bnd (read_tokens getS current ks) (\<lambda>vs. ret ((k, v) # vs)))"

fun write_tokens :: "(string \<Rightarrow> string \<Rightarrow> ('w, unit) io) \<Rightarrow> int \<Rightarrow> (string \<times> string option) list \<Rightarrow> ('w, unit) io" where
  "write_tokens setS nextv [] = ret ()"
| "write_tokens setS nextv ((k, v) # vs) = bnd (case v of None \<Rightarrow> ret () | Some t \<Rightarrow> setS (versionedKey k nextv) t)
     (\<lambda>_. write_tokens setS nextv vs)"

fun delete_slot :: "(string \<Rightarrow> ('w, unit) io) \<Rightarrow> int \<Rightarrow> string list \<Rightarrow> ('w, unit) io" where
  "delete_slot delS current [] = ret ()"
| "delete_slot delS current (k # ks) = bnd (quietly (delS (versionedKey k current))) (\<lambda>_.
     bnd (quietly (delS k)) (\<lambda>_. delete_slot delS current ks))"

definition rotateSecureStorageKey ::
  "(string \<Rightarrow> 'w \<Rightarrow> string option res) \<Rightarrow> (string \<Rightarrow> string \<Rightarrow> ('w, unit) io) \<Rightarrow> (string \<Rightarrow> ('w, unit) io)
     \<Rightarrow> (string \<Rightarrow> string \<Rightarrow> ('w, unit) io) \<Rightarrow> ('w \<Rightarrow> int) \<Rightarrow> ('w, bool) io" where
  "rotateSecureStorageKey getS setS delS setA clock = try_catch
     (bnd (getActiveKeyVersion getS) (\<lambda>currentVersion.
      let nextVersion = js_rem (currentVersion + 1) 2 in
      bnd (read_tokens getS currentVersion ROTATABLE_TOKEN_KEYS) (\<lambda>tokenValues.
      bnd (write_tokens setS nextVersion tokenValues) (\<lambda>_.
      bnd (setS KEY_ROTATION_VERSION_KEY (show_int nextVersion)) (\<lambda>_.
      bnd (delete_slot delS currentVersion ROTATABLE_TOKEN_KEYS) (\<lambda>_.
      bnd (quietly (bnd (asks clock) (\<lambda>t. setA LAST_ROTATION_TIMESTAMP_KEY (show_int t)))) (\<lambda>_.
        ret True)))))))
     (\<lambda>_. ret False)"

definition maybeRotateSecureStorageKey ::
  "(string \<Rightarrow> 'w \<Rightarrow> string option res) \<Rightarrow> (string \<Rightarrow> string \<Rightarrow> ('w, unit) io) \<Rightarrow> (string \<Rightarrow> ('w, unit) io)
     \<Rightarrow> (string \<Rightarrow> 'w \<Rightarrow> string option res) \<Rightarrow> (string \<Rightarrow> string \<Rightarrow> ('w, unit) io) \<Rightarrow> ('w \<Rightarrow> int) \<Rightarrow> ('w, bool) io" where
  "maybeRotateSecureStorageKey getS setS delS getA setA clock = try_catch
     (bnd (reads (getA LAST_ROTATION_TIMESTAMP_KEY)) (\<lambda>raw.
      let lastRotation = (if truthy raw then parseInt (the raw) else Fin 0) in
      bnd (asks clock) (\<lambda>t.
        if num_less (num_add (Fin (of_int t)) (num_mul (Fin (- 1)) lastRotation)) (Fin (of_int KEY_ROTATION_INTERVAL_MS))
        then ret False
        else rotateSecureStorageKey getS setS delS setA clock)))
     (\<lambda>_. ret False)"

section \<open>The overlay\<close>

datatype overlay_failure = No_hardware | Not_enrolled | Cancelled | Auth_failed | Auth_error string

datatype overlay_result = Verified | Not_verified overlay_failure

record overlay_prompt =
  ov_promptMessage :: string
  ov_disableDeviceFallback :: bool
  ov_cancelLabel :: string
  ov_fallbackLabel :: "string option"

definition overlay_outcome :: "overlay_failure \<Rightarrow> auth_answer \<Rightarrow> overlay_result" where
  "overlay_outcome other result = (if aa_success result then Verified
     else Not_verified (if aa_error result = Some ''user_cancel'' then Cancelled else other))"

definition authenticateWithBiometrics ::
  "('w, bool) io \<Rightarrow> ('w, bool) io \<Rightarrow> (overlay_prompt \<Rightarrow> ('w, auth_answer) io) \<Rightarrow> string option \<Rightarrow> ('w, overlay_result) io" where
  "authenticateWithBiometrics hasHardware isEnrolled prompt message =
     (let ask = (\<lambda>fallback. prompt \<lparr>ov_promptMessage = (case message of None \<Rightarrow> ''Verify your identity to proceed'' | Some m \<Rightarrow> m),
            ov_disableDeviceFallback = False, ov_cancelLabel = ''Cancel'', ov_fallbackLabel = fallback\<rparr>) in
      try_catch
       (bnd hasHardware (\<lambda>hw. if \<not> hw then bnd (ask None) (\<lambda>r. ret (overlay_outcome Auth_failed r))
          else bnd isEnrolled (\<lambda>en. if \<not> en then bnd (ask None) (\<lambda>r. ret (overlay_outcome Not_enrolled r))
          else bnd (ask (Some ''Use Passcode'')) (\<lambda>r. ret (overlay_outcome Auth_failed r)))))
       (\<lambda>e. ret (Not_verified (Auth_error (message_or ''Unknown error'' e)))))"

section \<open>The account PIN\<close>

definition PIN_HASH_KEY :: string where "PIN_HASH_KEY = ''zaps_account_pin_hash''"
definition PIN_MIN_LENGTH :: nat where "PIN_MIN_LENGTH = 4"

text \<open>\<open>((h << 5) - h + c) | 0\<close> on 32 bits; \<open>h >>> 0\<close> prints the unsigned value.\<close>

definition pin_round :: "32 word \<Rightarrow> char \<Rightarrow> 32 word" where
  "pin_round h c = push_bit 5 h - h + word_of_nat (of_char c)"

definition hashPin :: "string \<Rightarrow> string" where
  "hashPin pin = show_int (uint (foldl pin_round 0 pin))"

definition saveAccountPin :: "(string \<Rightarrow> string \<Rightarrow> ('w, unit) io) \<Rightarrow> string \<Rightarrow> ('w, unit) io" where
  "saveAccountPin setA pin = setA PIN_HASH_KEY (hashPin pin)"

definition verifyAccountPin :: "(string \<Rightarrow> 'w \<Rightarrow> string option res) \<Rightarrow> string \<Rightarrow> ('w, bool) io" where
  "verifyAccountPin getA pin = try_catch
     (bnd (reads (getA PIN_HASH_KEY)) (\<lambda>stored. if \<not> truthy stored then ret True
        else ret (Some (hashPin pin) = stored)))
     (\<lambda>_. ret False)"

text \<open>The modal: the outcome of a submit is the error to show, or success.\<close>

datatype pin_outcome = Pin_ok | Pin_error string

definition pinSubmit ::
  "(string \<Rightarrow> 'w \<Rightarrow> string option res) \<Rightarrow> (string \<Rightarrow> string \<Rightarrow> ('w, unit) io) \<Rightarrow> bool \<Rightarrow> string \<Rightarrow> string
     \<Rightarrow> ('w, pin_outcome) io" where
  "pinSubmit getA setA isSetup pin confirmPin =
     (if length pin < PIN_MIN_LENGTH then ret (Pin_error (''PIN must be at least '' @ show_int (int PIN_MIN_LENGTH) @ '' digits.''))
      else if isSetup then
        (if pin \<noteq> confirmPin then ret (Pin_error ''PINs do not match. Please try again.'')
         else try_catch (bnd (saveAccountPin setA pin) (\<lambda>_. ret Pin_ok))
           (\<lambda>_. ret (Pin_error ''Failed to save PIN. Please try again.'')))
      else try_catch (bnd (verifyAccountPin getA pin) (\<lambda>ok'. ret (if ok' then Pin_ok
             else Pin_error ''Incorrect PIN. Please try again.'')))
           (\<lambda>_. ret (Pin_error ''Could not verify PIN. Please try again.'')))"

section \<open>The onboarding screen\<close>

text \<open>
  The hooks of the screen are a record around the world; \<open>bx_routes\<close> is what the router was told,
  \<open>bx_alert\<close> whether the offer to use the PIN is shown.
\<close>

datatype HardwareStatus = Checking | Available | Unavailable | Unenrolled

record 'w bio_screen =
  bx_env :: 'w
  bx_hardware :: HardwareStatus
  bx_loading :: bool
  bx_showPinModal :: bool
  bx_pinIsSetup :: bool
  bx_alert :: bool
  bx_routes :: "string list"

definition bio_screen_mounted :: "'w \<Rightarrow> 'w bio_screen" where
  "bio_screen_mounted w = \<lparr>bx_env = w, bx_hardware = Checking, bx_loading = False, bx_showPinModal = False,
     bx_pinIsSetup = False, bx_alert = False, bx_routes = []\<rparr>"

definition on_screen :: "('w, 'a) io \<Rightarrow> ('w bio_screen, 'a) io" where
  "on_screen m s = (case m (bx_env s) of (r, w') \<Rightarrow> (r, s\<lparr>bx_env := w'\<rparr>))"

definition checkHardware :: "('w, bool) io \<Rightarrow> ('w, bool) io \<Rightarrow> ('w bio_screen, unit) io" where
  "checkHardware hasHardware isEnrolled = try_catch
     (bnd (on_screen hasHardware) (\<lambda>hw. if \<not> hw then modifies (\<lambda>s. s\<lparr>bx_hardware := Unavailable\<rparr>)
      else bnd (on_screen isEnrolled) (\<lambda>en. modifies (\<lambda>s. s\<lparr>bx_hardware := (if en then Available else Unenrolled)\<rparr>))))
     (\<lambda>_. modifies (\<lambda>s. s\<lparr>bx_hardware := Unavailable\<rparr>))"

definition ask_pin :: "(string \<Rightarrow> 'w \<Rightarrow> string option res) \<Rightarrow> 'w bio_screen \<Rightarrow> 'w bio_screen" where
  "ask_pin getA s = s\<lparr>bx_pinIsSetup := (case getA PIN_HASH_KEY (bx_env s) of Ret hash \<Rightarrow> \<not> truthy hash | Throw _ \<Rightarrow> True),
     bx_showPinModal := True\<rparr>"

definition on_hardwareStatus :: "(string \<Rightarrow> 'w \<Rightarrow> string option res) \<Rightarrow> 'w bio_screen \<Rightarrow> 'w bio_screen" where
  "on_hardwareStatus getA s = (if bx_hardware s \<in> {Unavailable, Unenrolled} then ask_pin getA s else s)"

definition navigateForward :: "string option \<Rightarrow> 'w bio_screen \<Rightarrow> 'w bio_screen" where
  "navigateForward type s = s\<lparr>bx_routes := bx_routes s @ [if type = Some ''returning'' then ''/account-type'' else ''/create-wallet'']\<rparr>"

definition handleContinue ::
  "('w, overlay_result) io \<Rightarrow> (string \<Rightarrow> 'w \<Rightarrow> string option res) \<Rightarrow> string option \<Rightarrow> ('w bio_screen, unit) io" where
  "handleContinue auth getA type s =
     (if bx_hardware s \<in> {Unavailable, Unenrolled} then (Ret (), s\<lparr>bx_showPinModal := True\<rparr>)
      else always (bnd (modifies (\<lambda>s. s\<lparr>bx_loading := True\<rparr>)) (\<lambda>_. bnd (on_screen auth) (\<lambda>r. case r of
          Verified \<Rightarrow> modifies (navigateForward type)
        | Not_verified Cancelled \<Rightarrow> modifies (navigateForward type)
        | Not_verified No_hardware \<Rightarrow> modifies (\<lambda>s. ask_pin getA (s\<lparr>bx_hardware := Unavailable\<rparr>))
        | Not_verified Not_enrolled \<Rightarrow> modifies (\<lambda>s. ask_pin getA (s\<lparr>bx_hardware := Unavailable\<rparr>))
        | Not_verified Auth_failed \<Rightarrow> modifies (\<lambda>s. s\<lparr>bx_alert := True\<rparr>)
        | Not_verified (Auth_error _) \<Rightarrow> modifies (\<lambda>s. s\<lparr>bx_alert := True\<rparr>))))
        (\<lambda>s. s\<lparr>bx_loading := False\<rparr>) s)"

definition handleSkip :: "string option \<Rightarrow> 'w bio_screen \<Rightarrow> 'w bio_screen" where
  "handleSkip type = navigateForward type"

section \<open>What a rotation preserves\<close>

text \<open>The stored version is one of the two slots.\<close>

definition slot :: "(string \<Rightarrow> 'w \<Rightarrow> string option res) \<Rightarrow> 'w \<Rightarrow> int" where
  "slot getS w = (case getS KEY_ROTATION_VERSION_KEY w of Ret raw \<Rightarrow> parsed_version raw | Throw _ \<Rightarrow> 0)"

lemma version_eq: "getActiveKeyVersion getS w = (Ret (slot getS w), w)"
  by (simp add: getActiveKeyVersion_def slot_def try_catch_apply bnd_apply split: res.splits)

lemma parsed_version_show: "parsed_version (Some (show_int 0)) = 0" "parsed_version (Some (show_int 1)) = 1"
  using parseInt_show_nat[of 0] parseInt_show_nat[of 1] by (simp_all add: parsed_version_def js_rem_def)

lemma show_slots: "show_int 0 = ''0''" "show_int 1 = ''1''"
  by code_simp+

lemma slot_keys:
  assumes "v = 0 \<or> v = 1" "k \<in> set ROTATABLE_TOKEN_KEYS" "k' \<in> set ROTATABLE_TOKEN_KEYS"
  shows "versionedKey k v \<noteq> k'" "versionedKey k v \<noteq> KEY_ROTATION_VERSION_KEY" "k \<noteq> KEY_ROTATION_VERSION_KEY"
    "versionedKey k 0 \<noteq> versionedKey k' 1" "versionedKey k v = versionedKey k' v \<longleftrightarrow> k = k'"
proof -
  note d = show_slots
  show "versionedKey k v \<noteq> k'" "versionedKey k v \<noteq> KEY_ROTATION_VERSION_KEY" "k \<noteq> KEY_ROTATION_VERSION_KEY"
    "versionedKey k 0 \<noteq> versionedKey k' 1" "versionedKey k v = versionedKey k' v \<longleftrightarrow> k = k'"
    using assms by (auto simp: ROTATABLE_TOKEN_KEYS_def versionedKey_def d KEY_ROTATION_VERSION_KEY_def)
qed

text \<open>What \<open>getRotatedToken\<close> answers in a world whose reads succeed.\<close>

definition visible :: "(string \<Rightarrow> 'w \<Rightarrow> string option res) \<Rightarrow> string \<Rightarrow> 'w \<Rightarrow> string option res" where
  "visible getS k w = (case getS (versionedKey k (slot getS w)) w of
     Ret (Some t) \<Rightarrow> Ret (Some t) | Ret None \<Rightarrow> getS k w | Throw _ \<Rightarrow> Ret None)"

lemma getRotatedToken_eq: "getRotatedToken getS k w = (visible getS k w, w)"
  by (simp add: getRotatedToken_def version_eq visible_def bnd_apply try_catch_apply split: res.splits option.splits)

locale token_store = s: kv_store getS setS delS
  for getS :: "string \<Rightarrow> 'w \<Rightarrow> string option res"
    and setS :: "string \<Rightarrow> string \<Rightarrow> ('w, unit) io"
    and delS :: "string \<Rightarrow> ('w, unit) io" +
  fixes setA :: "string \<Rightarrow> string \<Rightarrow> ('w, unit) io"
  assumes reads_ok: "is_Ret (getS k w)"
    and plain_frame: "getS k (snd (setA k' t w)) = getS k w"
begin

lemma get_cases: obtains v where "getS k w = Ret v"
  using reads_ok[of k w] by (cases "getS k w") auto

lemma read_token_eq: "read_token getS c k w = (Ret (case getS (versionedKey k c) w of
    Ret (Some t) \<Rightarrow> Some t | _ \<Rightarrow> (case getS k w of Ret v \<Rightarrow> v | Throw _ \<Rightarrow> None)), w)"
  using reads_ok[of "versionedKey k c" w] reads_ok[of k w]
  by (auto simp: read_token_def bnd_apply try_catch_apply split: res.splits option.splits)

lemma read_token_visible: "slot getS w = c \<Longrightarrow> read_token getS c k w = (Ret (case visible getS k w of Ret v \<Rightarrow> v | Throw _ \<Rightarrow> None), w)"
  using reads_ok[of "versionedKey k c" w] reads_ok[of k w]
  by (auto simp: read_token_eq visible_def split: res.splits option.splits)

lemma read_tokens_eq: "slot getS w = c \<Longrightarrow> read_tokens getS c ks w
    = (Ret (map (\<lambda>k. (k, case visible getS k w of Ret v \<Rightarrow> v | Throw _ \<Rightarrow> None)) ks), w)"
  by (induction ks) (simp_all add: read_token_visible bnd_apply)

lemma write_tokens_frame:
  "(\<And>k v. (k, v) \<in> set vs \<Longrightarrow> x \<noteq> versionedKey k n) \<Longrightarrow> getS x (snd (write_tokens setS n vs w)) = getS x w"
proof (induction vs arbitrary: w)
  case (Cons kv vs)
  obtain k v where kv: "kv = (k, v)" by fastforce
  have x: "x \<noteq> versionedKey k n" using Cons.prems kv by auto
  have step: "getS x (snd ((case v of None \<Rightarrow> ret () | Some t \<Rightarrow> setS (versionedKey k n) t) w)) = getS x w"
    using s.set_frame[OF x] by (cases v) simp_all
  have IH: "getS x (snd (write_tokens setS n vs b)) = getS x b" for b
    by (rule Cons.IH) (rule Cons.prems, auto)
  show ?case using IH step
    by (cases "(case v of None \<Rightarrow> ret () | Some t \<Rightarrow> setS (versionedKey k n) t) w")
       (auto simp: kv bnd_apply split: res.splits)
qed simp

lemma write_tokens_written:
  "write_tokens setS n vs w = (Ret u, w') \<Longrightarrow> distinct (map (\<lambda>(k, v). versionedKey k n) vs) \<Longrightarrow> (k, Some t) \<in> set vs
    \<Longrightarrow> getS (versionedKey k n) w' = Ret (Some t)"
proof (induction vs arbitrary: w)
  case (Cons kv vs)
  obtain k0 v0 where kv: "kv = (k0, v0)" by fastforce
  obtain w1 where st: "(case v0 of None \<Rightarrow> ret () | Some t \<Rightarrow> setS (versionedKey k0 n) t) w = (Ret (), w1)"
    and rest: "write_tokens setS n vs w1 = (Ret u, w')"
    using Cons.prems(1) by (auto simp: kv bnd_apply split: res.splits prod.splits)
  show ?case
  proof (cases "(k, Some t) \<in> set vs")
    case True
    with Cons.IH[OF rest] Cons.prems(2) kv show ?thesis by simp
  next
    case False
    then have k: "k0 = k" "v0 = Some t" using Cons.prems(3) kv by auto
    have "getS (versionedKey k n) w1 = Ret (Some t)" using st s.get_set k by simp
    moreover have "getS (versionedKey k n) (snd (write_tokens setS n vs w1)) = getS (versionedKey k n) w1"
      by (rule write_tokens_frame) (use Cons.prems(2) kv k in force)
    ultimately show ?thesis by (simp add: rest)
  qed
qed simp

lemma quietly_del: "is_Ret (fst (quietly (delS k) w))" "x \<noteq> k \<Longrightarrow> getS x (snd (quietly (delS k) w)) = getS x w"
  "getS k (snd (quietly (delS k) w)) \<in> {Ret None, getS k w}"
  using s.remove_frame[of x k w] s.remove_removed_or_same[of k w]
  by (cases "delS k w"; cases "fst (delS k w)"; auto simp: quietly_def try_catch_apply)+

lemma delete_slot_run:
  "is_Ret (fst (delete_slot delS c ks w))
   \<and> (\<forall>x. x \<notin> set ks \<and> x \<notin> (\<lambda>k. versionedKey k c) ` set ks \<longrightarrow> getS x (snd (delete_slot delS c ks w)) = getS x w)
   \<and> (\<forall>x. getS x (snd (delete_slot delS c ks w)) \<in> {Ret None, getS x w})"
proof (induction ks arbitrary: w)
  case (Cons k ks)
  obtain w1 where a: "quietly (delS (versionedKey k c)) w = (Ret (), w1)"
    using quietly_del(1)[of "versionedKey k c" w] by (cases "quietly (delS (versionedKey k c)) w"; cases "fst (quietly (delS (versionedKey k c)) w)") auto
  obtain w2 where b: "quietly (delS k) w1 = (Ret (), w2)"
    using quietly_del(1)[of k w1] by (cases "quietly (delS k) w1"; cases "fst (quietly (delS k) w1)") auto
  have run: "delete_slot delS c (k # ks) w = delete_slot delS c ks w2" by (simp add: bnd_apply a b)
  have f: "x \<noteq> k \<Longrightarrow> x \<noteq> versionedKey k c \<Longrightarrow> getS x w2 = getS x w" for x
    using quietly_del(2)[of x "versionedKey k c" w] quietly_del(2)[of x k w1] by (simp add: a b)
  have g: "getS x w2 \<in> {Ret None, getS x w}" for x
    using quietly_del(2)[of x "versionedKey k c" w] quietly_del(2)[of x k w1] quietly_del(3)[of "versionedKey k c" w]
      quietly_del(3)[of k w1] by (cases "x = k"; cases "x = versionedKey k c") (auto simp: a b)
  have all: "getS x (snd (delete_slot delS c ks w2)) \<in> {Ret None, getS x w}" for x
    using Cons.IH[of w2] g[of x] by (metis insert_iff singletonD)
  show ?case unfolding run using Cons.IH[of w2] f all by auto
qed simp

text \<open>
  The state a rotation leaves: every token is written before the version changes and the old slot
  is deleted last.
\<close>

lemma after_timestamp:
  "\<exists>w'. quietly (bnd (asks clock) (\<lambda>t. setA LAST_ROTATION_TIMESTAMP_KEY (show_int t))) w = (Ret (), w')
     \<and> (\<forall>k. getS k w' = getS k w)"
proof (cases "setA LAST_ROTATION_TIMESTAMP_KEY (show_int (clock w)) w")
  case (Pair r w')
  then show ?thesis using plain_frame[of _ LAST_ROTATION_TIMESTAMP_KEY "show_int (clock w)" w]
    by (cases r) (auto simp: quietly_def io_simps)
qed

lemma slot_after_set: "setS KEY_ROTATION_VERSION_KEY (show_int c) w = (Ret u, w') \<Longrightarrow> c = 0 \<or> c = 1 \<Longrightarrow> slot getS w' = c"
  using s.get_set[of KEY_ROTATION_VERSION_KEY "show_int c" w u w'] by (auto simp: slot_def parsed_version_show)

lemma slot_cong: "getS KEY_ROTATION_VERSION_KEY w' = getS KEY_ROTATION_VERSION_KEY w \<Longrightarrow> slot getS w' = slot getS w"
  by (simp add: slot_def)

lemma visible_cong:
  assumes "\<And>x. getS x w' = getS x w"
  shows "visible getS k w' = visible getS k w"
  unfolding visible_def slot_def assms ..

definition token_of :: "'w \<Rightarrow> string \<Rightarrow> string option" where
  "token_of w k = (case visible getS k w of Ret v \<Rightarrow> v | Throw _ \<Rightarrow> None)"

lemma visible_token: "visible getS k w = Ret (token_of w k)"
  using reads_ok[of k w] reads_ok[of "versionedKey k (slot getS w)" w]
  by (auto simp: token_of_def visible_def split: res.splits option.splits)

lemma write_tokens_Throw: "write_tokens setS n vs w = (Throw e, w') \<Longrightarrow> \<exists>k v w. \<not> is_Ret (fst (setS k v w))"
proof (induction vs arbitrary: w)
  case (Cons kv vs)
  obtain k v where kv: "kv = (k, v)" by fastforce
  show ?case
  proof (cases "case v of None \<Rightarrow> ret () w | Some t \<Rightarrow> setS (versionedKey k n) t w")
    case (Pair r w1)
    then show ?thesis using Cons.IH[of w1] Cons.prems
      by (cases r; cases v) (auto simp: kv bnd_apply intro: exI[of _ "versionedKey k n"] exI[of _ w] split: res.splits, metis fst_conv is_Ret.simps(2))
  qed
qed simp

lemma rotation_cases:
  assumes c: "slot getS w = c" "c = 0 \<or> c = 1"
  obtains (failed) w1 where "rotateSecureStorageKey getS setS delS setA clock w = (Ret False, w1)"
      "\<And>x. x \<notin> (\<lambda>k. versionedKey k (1 - c)) ` set ROTATABLE_TOKEN_KEYS \<Longrightarrow> getS x w1 = getS x w"
      "\<exists>k v w. \<not> is_Ret (fst (setS k v w))"
  | (rotated) w1 w2 w3 w4 where "rotateSecureStorageKey getS setS delS setA clock w = (Ret True, w4)"
      "write_tokens setS (1 - c) (map (\<lambda>k. (k, token_of w k)) ROTATABLE_TOKEN_KEYS) w = (Ret (), w1)"
      "setS KEY_ROTATION_VERSION_KEY (show_int (1 - c)) w1 = (Ret (), w2)"
      "w3 = snd (delete_slot delS c ROTATABLE_TOKEN_KEYS w2)" "\<And>x. getS x w4 = getS x w3"
proof -
  let ?vs = "map (\<lambda>k. (k, token_of w k)) ROTATABLE_TOKEN_KEYS"
  let ?tail = "bnd (setS KEY_ROTATION_VERSION_KEY (show_int (1 - c))) (\<lambda>_.
      bnd (delete_slot delS c ROTATABLE_TOKEN_KEYS) (\<lambda>_.
      bnd (quietly (bnd (asks clock) (\<lambda>t. setA LAST_ROTATION_TIMESTAMP_KEY (show_int t)))) (\<lambda>_. ret True)))"
  have nx: "js_rem (c + 1) 2 = 1 - c" using c(2) by (auto simp: js_rem_def)
  have vs: "map (\<lambda>k. (k, case visible getS k w of Ret v \<Rightarrow> v | Throw _ \<Rightarrow> None)) ROTATABLE_TOKEN_KEYS = ?vs"
    by (simp add: token_of_def)
  have run: "rotateSecureStorageKey getS setS delS setA clock w =
      try_catch (bnd (write_tokens setS (1 - c) ?vs) (\<lambda>_. ?tail)) (\<lambda>_. ret False) w"
    using read_tokens_eq[OF c(1)] by (simp add: rotateSecureStorageKey_def try_catch_apply bnd_apply version_eq c(1) nx vs Let_def)
  obtain r1 w1 where w1: "write_tokens setS (1 - c) ?vs w = (r1, w1)" by fastforce
  have f1: "getS x w1 = getS x w" if "x \<notin> (\<lambda>k. versionedKey k (1 - c)) ` set ROTATABLE_TOKEN_KEYS" for x
  proof -
    have "getS x (snd (write_tokens setS (1 - c) ?vs w)) = getS x w"
      by (rule write_tokens_frame) (use that in auto)
    then show ?thesis by (simp add: w1)
  qed
  show thesis
  proof (cases r1)
    case (Throw e)
    show thesis using write_tokens_Throw[OF w1[unfolded Throw]]
      by (intro failed[of w1]) (simp_all add: run w1 Throw try_catch_apply bnd_apply f1)
  next
    case r1: (Ret u1)
    obtain r2 w2 where w2: "setS KEY_ROTATION_VERSION_KEY (show_int (1 - c)) w1 = (r2, w2)" by fastforce
    show thesis
    proof (cases r2)
      case (Throw e)
      have "getS x w2 = getS x w1" for x using s.get_set_fail w2 Throw by blast
      moreover have "\<exists>k v w. \<not> is_Ret (fst (setS k v w))" using w2 Throw by (metis fst_conv is_Ret.simps(2))
      ultimately show thesis
        by (intro failed[of w2]) (simp_all add: run w1 r1 w2 Throw try_catch_apply bnd_apply f1)
    next
      case r2: (Ret u2)
      obtain w3 where w3: "delete_slot delS c ROTATABLE_TOKEN_KEYS w2 = (Ret (), w3)"
        using delete_slot_run[of c ROTATABLE_TOKEN_KEYS w2]
        by (cases "delete_slot delS c ROTATABLE_TOKEN_KEYS w2"; cases "fst (delete_slot delS c ROTATABLE_TOKEN_KEYS w2)") auto
      obtain w4 where w4: "quietly (bnd (asks clock) (\<lambda>t. setA LAST_ROTATION_TIMESTAMP_KEY (show_int t))) w3 = (Ret (), w4)"
          "\<forall>k. getS k w4 = getS k w3"
        using after_timestamp[of clock w3] by blast
      show thesis
        by (rule rotated[of w4 w1 w2 w3]) (simp_all add: run w1 r1 w2 r2 w3 w4 try_catch_apply bnd_apply)
    qed
  qed
qed

lemma versionedKeys_distinct: "v = 0 \<or> v = 1 \<Longrightarrow> distinct (map (\<lambda>k. versionedKey k v) ROTATABLE_TOKEN_KEYS)"
  by (simp add: ROTATABLE_TOKEN_KEYS_def versionedKey_def)

lemma rotated_store:
  assumes c: "c = 0 \<or> c = 1" and k: "k \<in> set ROTATABLE_TOKEN_KEYS"
    and w1: "write_tokens setS (1 - c) (map (\<lambda>k. (k, token_of w k)) ROTATABLE_TOKEN_KEYS) w = (Ret (), w1)"
    and w2: "setS KEY_ROTATION_VERSION_KEY (show_int (1 - c)) w1 = (Ret (), w2)"
    and w3: "w3 = snd (delete_slot delS c ROTATABLE_TOKEN_KEYS w2)"
  shows "slot getS w3 = 1 - c"
    and "getS (versionedKey k (1 - c)) w3 = (case token_of w k of Some t \<Rightarrow> Ret (Some t) | None \<Rightarrow> getS (versionedKey k (1 - c)) w)"
    and "getS k w3 \<in> {Ret None, getS k w}"
proof -
  let ?R = "set ROTATABLE_TOKEN_KEYS" and ?vs = "map (\<lambda>k. (k, token_of w k)) ROTATABLE_TOKEN_KEYS"
  have n: "1 - c = 0 \<or> 1 - c = 1" using c by auto
  note d = delete_slot_run[of c ROTATABLE_TOKEN_KEYS w2]
  have keep: "getS x w3 = getS x w2" if "x \<notin> ?R" "x \<notin> (\<lambda>k. versionedKey k c) ` ?R" for x
    using d that w3 by blast
  have vkeep: "versionedKey k (1 - c) \<notin> ?R" "versionedKey k (1 - c) \<notin> (\<lambda>k. versionedKey k c) ` ?R"
    using slot_keys[OF n k] slot_keys(4)[OF n k] slot_keys(4)[OF n _ k] c by (auto; metis)+
  have ver: "KEY_ROTATION_VERSION_KEY \<notin> ?R" "KEY_ROTATION_VERSION_KEY \<notin> (\<lambda>k. versionedKey k c) ` ?R"
    using slot_keys[OF c] by (auto; metis)+
  show "slot getS w3 = 1 - c"
    using slot_cong[OF keep[OF ver]] slot_after_set[OF w2 n] by simp
  have k2: "getS x w2 = getS x w1" if "x \<noteq> KEY_ROTATION_VERSION_KEY" for x
    using s.get_set_other[OF w2 that] .
  have nv: "versionedKey k (1 - c) \<noteq> KEY_ROTATION_VERSION_KEY" "k \<noteq> KEY_ROTATION_VERSION_KEY"
    using slot_keys[OF n k k] by simp_all
  show "getS (versionedKey k (1 - c)) w3 = (case token_of w k of Some t \<Rightarrow> Ret (Some t) | None \<Rightarrow> getS (versionedKey k (1 - c)) w)"
  proof (cases "token_of w k")
    case (Some t)
    have "getS (versionedKey k (1 - c)) w1 = Ret (Some t)"
      by (rule write_tokens_written[OF w1])
         (use versionedKeys_distinct[OF n] k Some in \<open>auto simp: comp_def image_iff\<close>)
    then show ?thesis using keep[OF vkeep] k2[OF nv(1)] Some by simp
  next
    case None
    have "getS (versionedKey k (1 - c)) (snd (write_tokens setS (1 - c) (filter (\<lambda>p. snd p \<noteq> None) ?vs) w)) = getS (versionedKey k (1 - c)) w"
      by (rule write_tokens_frame) (auto, metis None option.distinct(1) slot_keys(5)[OF n k])
    moreover have "write_tokens setS m (filter (\<lambda>p. snd p \<noteq> None) vs) v = write_tokens setS m vs v" for m vs v
      by (induction vs arbitrary: v) (auto simp: bnd_apply split: option.splits res.splits prod.splits)
    ultimately show ?thesis using keep[OF vkeep] k2[OF nv(1)] None w1 by simp
  qed
  have "getS k w1 = getS k (snd (write_tokens setS (1 - c) ?vs w))" by (simp add: w1)
  also have "\<dots> = getS k w"
    by (rule write_tokens_frame) (use slot_keys(1)[OF n _ k] in \<open>auto; metis\<close>)
  finally show "getS k w3 \<in> {Ret None, getS k w}" using d w3 k2[OF nv(2)] by auto
qed

lemma visible_after:
  assumes c: "slot getS w = c" "c = 0 \<or> c = 1" and k: "k \<in> set ROTATABLE_TOKEN_KEYS"
    and stale: "visible getS k w = Ret None \<Longrightarrow> getS (versionedKey k (1 - c)) w = Ret None"
  shows "visible getS k (snd (rotateSecureStorageKey getS setS delS setA clock w)) = visible getS k w"
proof (rule rotation_cases[OF c, of clock])
  have n: "1 - c = 0 \<or> 1 - c = 1" using c by auto
  fix w1 assume run: "rotateSecureStorageKey getS setS delS setA clock w = (Ret False, w1)"
    and f: "\<And>x. x \<notin> (\<lambda>k. versionedKey k (1 - c)) ` set ROTATABLE_TOKEN_KEYS \<Longrightarrow> getS x w1 = getS x w"
  have "getS KEY_ROTATION_VERSION_KEY w1 = getS KEY_ROTATION_VERSION_KEY w" "getS k w1 = getS k w"
    "getS (versionedKey k c) w1 = getS (versionedKey k c) w"
    by (rule f; use slot_keys[OF n _ k] slot_keys[OF n _ _] slot_keys(4)[OF n k] slot_keys(4)[OF n _ k] c(2) in \<open>auto; metis\<close>)+
  then show ?thesis by (simp add: run visible_def slot_cong[of w1 w] c(1) split: res.splits option.splits)
next
  fix w1 w2 w3 w4
  assume run: "rotateSecureStorageKey getS setS delS setA clock w = (Ret True, w4)"
    and w: "write_tokens setS (1 - c) (map (\<lambda>k. (k, token_of w k)) ROTATABLE_TOKEN_KEYS) w = (Ret (), w1)"
      "setS KEY_ROTATION_VERSION_KEY (show_int (1 - c)) w1 = (Ret (), w2)"
      "w3 = snd (delete_slot delS c ROTATABLE_TOKEN_KEYS w2)" and w4: "\<And>x. getS x w4 = getS x w3"
  note st = rotated_store[OF c(2) k w]
  have bare: "token_of w k = None \<Longrightarrow> getS k w = Ret None"
    using visible_token[of k w] reads_ok[of "versionedKey k c" w] by (auto simp: visible_def c(1) split: res.splits option.splits)
  have old: "token_of w k = None \<Longrightarrow> getS (versionedKey k (1 - c)) w = Ret None"
    using stale by (simp add: visible_token)
  have "visible getS k w3 = Ret (token_of w k)"
    using st old bare by (cases "token_of w k") (auto simp: visible_def)
  then show ?thesis using visible_cong[of w4 w3 k] w4 by (simp add: run visible_token)
qed

lemma slot_rotated:
  assumes c: "slot getS w = c" "c = 0 \<or> c = 1"
    and run: "rotateSecureStorageKey getS setS delS setA clock w = (Ret b, w')"
  shows "slot getS w' = (if b then 1 - c else c)"
proof (rule rotation_cases[OF c, of clock])
  fix w1 assume r: "rotateSecureStorageKey getS setS delS setA clock w = (Ret False, w1)"
    and f: "\<And>x. x \<notin> (\<lambda>k. versionedKey k (1 - c)) ` set ROTATABLE_TOKEN_KEYS \<Longrightarrow> getS x w1 = getS x w"
  have n: "1 - c = 0 \<or> 1 - c = 1" using c by auto
  have "KEY_ROTATION_VERSION_KEY \<noteq> versionedKey k (1 - c)" if "k \<in> set ROTATABLE_TOKEN_KEYS" for k
    by (rule slot_keys(2)[OF n that that, symmetric])
  then have "getS KEY_ROTATION_VERSION_KEY w1 = getS KEY_ROTATION_VERSION_KEY w" by (intro f) auto
  then show ?thesis using run r c(1) slot_cong[of w1 w] by simp
next
  fix w1 w2 w3 w4
  assume r: "rotateSecureStorageKey getS setS delS setA clock w = (Ret True, w4)"
    and w: "write_tokens setS (1 - c) (map (\<lambda>k. (k, token_of w k)) ROTATABLE_TOKEN_KEYS) w = (Ret (), w1)"
      "setS KEY_ROTATION_VERSION_KEY (show_int (1 - c)) w1 = (Ret (), w2)"
      "w3 = snd (delete_slot delS c ROTATABLE_TOKEN_KEYS w2)" and w4: "\<And>x. getS x w4 = getS x w3"
  have "''privy_session_token'' \<in> set ROTATABLE_TOKEN_KEYS" by (simp add: ROTATABLE_TOKEN_KEYS_def)
  from rotated_store(1)[OF c(2) this w] show ?thesis using run r slot_cong[of w4 w3] w4 by simp
qed

end
text \<open>A keychain and a plain store that never fail, side by side.\<close>

type_synonym stores = "(string \<rightharpoonup> string) \<times> (string \<rightharpoonup> string)"

definition pair_getS :: "string \<Rightarrow> stores \<Rightarrow> string option res" where
  "pair_getS k w = Ret (fst w k)"

definition pair_setS :: "string \<Rightarrow> string \<Rightarrow> (stores, unit) io" where
  "pair_setS k v w = (Ret (), ((fst w)(k \<mapsto> v), snd w))"

definition pair_delS :: "string \<Rightarrow> (stores, unit) io" where
  "pair_delS k w = (Ret (), ((fst w)(k := None), snd w))"

definition pair_setA :: "string \<Rightarrow> string \<Rightarrow> (stores, unit) io" where
  "pair_setA k v w = (Ret (), (fst w, (snd w)(k \<mapsto> v)))"

lemmas pair_defs = pair_getS_def pair_setS_def pair_delS_def pair_setA_def

interpretation pair_tokens: token_store pair_getS pair_setS pair_delS pair_setA
  by unfold_locales (auto simp: pair_defs)

interpretation pair_chain: keychain pair_getS pair_setS pair_delS
  by unfold_locales (auto simp: pair_defs)

definition rotation_of :: "stores \<Rightarrow> bool res \<times> stores" where
  "rotation_of = rotateSecureStorageKey pair_getS pair_setS pair_delS pair_setA (\<lambda>_. 0)"

lemma rotation_of_slot0:
  assumes "slot pair_getS w = 0"
  shows "\<exists>w'. rotation_of w = (Ret True, w')"
  by (rule pair_tokens.rotation_cases[OF assms, of "\<lambda>_. 0"]) (auto simp: rotation_of_def pair_setS_def)

section \<open>Properties of the rotation\<close>


lemma slot_fresh: "fst w KEY_ROTATION_VERSION_KEY = None \<Longrightarrow> slot pair_getS w = 0"
  using parsed_version_show(1) by (simp add: slot_def pair_getS_def parsed_version_def show_slots)


text \<open>
  The proviso matters: an entry left over in the other slot (its best-effort deletion failed, as
  the code allows) becomes the token again once a rotation moves back, although the token had been
  deleted in between.
\<close>

theorem stale_slot_resurrected:
  assumes "token_store getS setS delS setA" "fst (getActiveKeyVersion getS w) = Ret c" "c = 0 \<or> c = 1"
    and k: "k \<in> set ROTATABLE_TOKEN_KEYS" and gone: "fst (getRotatedToken getS k w) = Ret None"
    and stale: "getS (versionedKey k (1 - c)) w = Ret (Some t)"
    and run: "rotateSecureStorageKey getS setS delS setA clock w = (Ret True, w')"
  shows "fst (getRotatedToken getS k w') = Ret (Some t)"
proof -
  have sc: "slot getS w = c" using assms(2) by (simp add: version_eq)
  have none: "token_store.token_of getS w k = None"
    using gone by (simp add: getRotatedToken_eq token_store.token_of_def[OF assms(1)])
  show ?thesis
  proof (rule token_store.rotation_cases[OF assms(1) sc assms(3), of clock])
    fix w1 assume "rotateSecureStorageKey getS setS delS setA clock w = (Ret False, w1)"
    then show ?thesis using run by simp
  next
    fix w1 w2 w3 w4
    assume r: "rotateSecureStorageKey getS setS delS setA clock w = (Ret True, w4)"
      and w: "write_tokens setS (1 - c) (map (\<lambda>k. (k, token_store.token_of getS w k)) ROTATABLE_TOKEN_KEYS) w = (Ret (), w1)"
        "setS KEY_ROTATION_VERSION_KEY (show_int (1 - c)) w1 = (Ret (), w2)"
        "w3 = snd (delete_slot delS c ROTATABLE_TOKEN_KEYS w2)" and w4: "\<And>x. getS x w4 = getS x w3"
    note st = token_store.rotated_store[OF assms(1,3) k w]
    have "visible getS k w3 = Ret (Some t)" using st none stale by (simp add: visible_def)
    then show ?thesis using run r token_store.visible_cong[OF assms(1), of w4 w3 k] w4 by (simp add: getRotatedToken_eq)
  qed
qed

theorem stale_slot_resurrected_witness:
  "\<exists>w'. rotation_of ([''privy_session_token_v1'' \<mapsto> ''old''], Map.empty) = (Ret True, w')
     \<and> fst (getRotatedToken pair_getS ''privy_session_token'' w') = Ret (Some ''old'')"
proof -
  let ?w = "([''privy_session_token_v1'' \<mapsto> ''old''], Map.empty) :: stores"
  have s: "slot pair_getS ?w = 0" by (rule slot_fresh) (simp add: KEY_ROTATION_VERSION_KEY_def)
  then obtain w' where run: "rotation_of ?w = (Ret True, w')" using rotation_of_slot0 by blast
  have "fst (getRotatedToken pair_getS ''privy_session_token'' w') = Ret (Some ''old'')"
    by (rule stale_slot_resurrected[OF pair_tokens.token_store_axioms _ _ _ _ _ run[unfolded rotation_of_def], where c = 0])
       (simp_all add: version_eq s getRotatedToken_eq visible_def pair_getS_def versionedKey_def show_slots ROTATABLE_TOKEN_KEYS_def)
  with run show ?thesis by blast
qed

lemma delete_slot_gone:
  assumes "keychain getS setS delS" "k \<in> set ks"
  shows "getS k (snd (delete_slot delS c ks w)) = Ret None"
  using assms(2)
proof (induction ks arbitrary: w)
  case (Cons k0 ks)
  note del_eq = keychain.del_eq[OF assms(1)] and get_after_del = keychain.get_after_del[OF assms(1)]
  have q: "quietly (delS x) v = (Ret (), snd (delS x v))" for x v
    using del_eq[of x v] by (cases "delS x v"; cases "fst (delS x v)") (simp_all add: quietly_def try_catch_apply)
  let ?w = "snd (delS k0 (snd (delS (versionedKey k0 c) w)))"
  have run: "delete_slot delS c (k0 # ks) w = delete_slot delS c ks ?w" by (simp add: bnd_apply q)
  have keep: "getS k (snd (delete_slot delS c ks v)) = Ret None" if "getS k v = Ret None" for v
    using that by (induction ks arbitrary: v) (simp_all add: bnd_apply q get_after_del)
  show ?case
    using Cons keep[of ?w] by (cases "k = k0") (simp_all only: run get_after_del, auto)
qed simp

text \<open>
  Rotating hides the session from the API client: \<open>setSessionToken\<close> stores the token under the bare
  key and \<open>getSessionToken\<close> reads only that key, which the rotation migrates and deletes.
\<close>

theorem rotation_hides_session:
  assumes store: "token_store getS setS delS setA" and chain: "keychain getS setS delS"
    and c: "fst (getActiveKeyVersion getS w) = Ret c" "c = 0 \<or> c = 1"
    and here: "fst (getSessionToken getS w) = Ret (Some token)" "getS (versionedKey SESSION_TOKEN_KEY c) w = Ret None"
  shows "\<exists>w'. rotateSecureStorageKey getS setS delS setA clock w = (Ret True, w')
    \<and> fst (getSessionToken getS w') = Ret None \<and> fst (getRotatedToken getS SESSION_TOKEN_KEY w') = Ret (Some token)"
proof -
  have sc: "slot getS w = c" using c(1) by (simp add: version_eq)
  have k: "SESSION_TOKEN_KEY \<in> set ROTATABLE_TOKEN_KEYS" by (simp add: SESSION_TOKEN_KEY_def ROTATABLE_TOKEN_KEYS_def)
  have bare: "getS SESSION_TOKEN_KEY w = Ret (Some token)"
    using here(1) token_store.reads_ok[OF store, of SESSION_TOKEN_KEY w] by (auto simp: session_def split: res.splits)
  have vis: "visible getS SESSION_TOKEN_KEY w = Ret (Some token)" using here(2) bare by (simp add: visible_def sc)
  then have old: "token_store.token_of getS w SESSION_TOKEN_KEY = Some token" by (simp add: token_store.token_of_def[OF store])
  show ?thesis
  proof (rule token_store.rotation_cases[OF store sc c(2), of clock])
    fix w1 assume "\<exists>k v w. \<not> is_Ret (fst (setS k v w))"
    then show ?thesis using keychain.set_ok[OF chain] by blast
  next
    fix w1 w2 w3 w4
    assume run: "rotateSecureStorageKey getS setS delS setA clock w = (Ret True, w4)"
      and w: "write_tokens setS (1 - c) (map (\<lambda>k. (k, token_store.token_of getS w k)) ROTATABLE_TOKEN_KEYS) w = (Ret (), w1)"
        "setS KEY_ROTATION_VERSION_KEY (show_int (1 - c)) w1 = (Ret (), w2)"
        "w3 = snd (delete_slot delS c ROTATABLE_TOKEN_KEYS w2)" and w4: "\<And>x. getS x w4 = getS x w3"
    have "getS SESSION_TOKEN_KEY w4 = Ret None"
      using delete_slot_gone[OF chain k, of c w2] w4 by (simp add: w(3))
    moreover have "visible getS SESSION_TOKEN_KEY w4 = Ret (Some token)"
      using token_store.rotated_store[OF store c(2) k w] old token_store.visible_cong[OF store, of w4 w3 SESSION_TOKEN_KEY] w4
      by (simp add: visible_def)
    ultimately show ?thesis using run by (auto simp: session_def getRotatedToken_eq)
  qed
qed

theorem rotation_hides_session_witness:
  "\<exists>w'. rotation_of ([''privy_session_token'' \<mapsto> ''tok''], Map.empty) = (Ret True, w')
     \<and> fst (getSessionToken pair_getS w') = Ret None"
proof -
  let ?w = "([''privy_session_token'' \<mapsto> ''tok''], Map.empty) :: stores"
  have s: "slot pair_getS ?w = 0" by (rule slot_fresh) (simp add: KEY_ROTATION_VERSION_KEY_def)
  have "fst (getActiveKeyVersion pair_getS ?w) = Ret 0" "fst (getSessionToken pair_getS ?w) = Ret (Some ''tok'')"
    "pair_getS (versionedKey SESSION_TOKEN_KEY 0) ?w = Ret None"
    by (simp_all add: version_eq s session_def pair_getS_def SESSION_TOKEN_KEY_def versionedKey_def)
  note h = this
  have "\<exists>w'. rotation_of ?w = (Ret True, w')
    \<and> fst (getSessionToken pair_getS w') = Ret None \<and> fst (getRotatedToken pair_getS SESSION_TOKEN_KEY w') = Ret (Some ''tok'')"
    unfolding rotation_of_def
    by (rule rotation_hides_session[where c = 0]) (rule pair_tokens.token_store_axioms pair_chain.keychain_axioms h disjI1 refl)+
  then show ?thesis by blast
qed

section \<open>Properties of the overlay and the PIN\<close>

text \<open>
  The overlay never rejects, and it reports success only when the system prompt it showed answered
  success: a device without sensor or enrolment is still asked for its passcode.
\<close>

theorem overlay_outcomes:
  "\<exists>r w'. authenticateWithBiometrics hasHardware isEnrolled prompt message w = (Ret r, w')
     \<and> (r = Verified \<longrightarrow> (\<exists>p v a. prompt p v = (Ret a, w') \<and> aa_success a
          \<and> \<not> ov_disableDeviceFallback p \<and> ov_promptMessage p = (case message of None \<Rightarrow> ''Verify your identity to proceed'' | Some m \<Rightarrow> m)))
     \<and> r \<noteq> Not_verified No_hardware"
proof -
  define ask where "ask = (\<lambda>fallback. prompt \<lparr>ov_promptMessage = (case message of None \<Rightarrow> ''Verify your identity to proceed'' | Some m \<Rightarrow> m),
    ov_disableDeviceFallback = False, ov_cancelLabel = ''Cancel'', ov_fallbackLabel = fallback\<rparr>)"
  let ?P = "\<lambda>r w'. (r = Verified \<longrightarrow> (\<exists>fb v a. ask fb v = (Ret a, w') \<and> aa_success a)) \<and> r \<noteq> Not_verified No_hardware"
  let ?h = "\<lambda>e. ret (Not_verified (Auth_error (message_or ''Unknown error'' e)))"
  have asked: "\<exists>r w'. try_catch (bnd (ask fb) (\<lambda>r. ret (overlay_outcome f r))) ?h v = (Ret r, w') \<and> ?P r w'" if "f \<noteq> No_hardware" for f fb v
  proof (cases "ask fb v")
    case (Pair x w')
    then show ?thesis using that by (cases x) (auto simp: io_simps overlay_outcome_def)
  qed
  have run: "authenticateWithBiometrics hasHardware isEnrolled prompt message w = try_catch
      (bnd hasHardware (\<lambda>hw. if \<not> hw then bnd (ask None) (\<lambda>r. ret (overlay_outcome Auth_failed r))
        else bnd isEnrolled (\<lambda>en. if \<not> en then bnd (ask None) (\<lambda>r. ret (overlay_outcome Not_enrolled r))
        else bnd (ask (Some ''Use Passcode'')) (\<lambda>r. ret (overlay_outcome Auth_failed r))))) ?h w"
    unfolding authenticateWithBiometrics_def ask_def Let_def ..
  have thrown: "\<exists>r w'. (Ret (Not_verified (Auth_error m)), v) = (Ret r, w') \<and> ?P r w'" for m v by simp
  have step: "try_catch (bnd m g) ?h v = (case m v of (Throw e, v') \<Rightarrow> (Ret (Not_verified (Auth_error (message_or ''Unknown error'' e))), v')
      | (Ret a, v') \<Rightarrow> try_catch (g a) ?h v')" for m :: "('a, bool) io" and g v
    by (simp add: io_simps split: prod.splits res.splits)
  have "\<exists>r w'. authenticateWithBiometrics hasHardware isEnrolled prompt message w = (Ret r, w') \<and> ?P r w'"
  proof (cases "hasHardware w")
    case hw: (Pair a w1)
    show ?thesis
    proof (cases a)
      case (Throw e)
      then show ?thesis using thrown by (simp add: run step hw)
    next
      case a: (Ret h)
      show ?thesis
      proof (cases "isEnrolled w1")
        case en: (Pair b w2)
        show ?thesis using asked thrown by (cases h; cases b) (simp_all add: run step hw a en)
      qed
    qed
  qed
  then obtain r w' where rw: "authenticateWithBiometrics hasHardware isEnrolled prompt message w = (Ret r, w')"
    and P: "r = Verified \<longrightarrow> (\<exists>fb v a. ask fb v = (Ret a, w') \<and> aa_success a)" "r \<noteq> Not_verified No_hardware" by blast
  have "\<exists>p v a. prompt p v = (Ret a, w') \<and> aa_success a \<and> \<not> ov_disableDeviceFallback p
      \<and> ov_promptMessage p = (case message of None \<Rightarrow> ''Verify your identity to proceed'' | Some m \<Rightarrow> m)" if v: "r = Verified"
  proof -
    obtain fb v a where "ask fb v = (Ret a, w')" "aa_success a" using P v by blast
    then show ?thesis unfolding ask_def by (metis overlay_prompt.select_convs(1,2))
  qed
  with rw P show ?thesis by blast
qed

text \<open>The value of a PIN, before it is reduced to 32 bits.\<close>

definition pin_value :: "string \<Rightarrow> nat" where
  "pin_value = foldl (\<lambda>h c. 31 * h + of_char c) 0"

lemma pin_round_value: "foldl pin_round (word_of_nat n) p = word_of_nat (foldl (\<lambda>h c. 31 * h + of_char c) n p)"
proof (induction p arbitrary: n)
  case (Cons c p)
  have "pin_round (word_of_nat n) c = word_of_nat (31 * n + of_char c)"
    by (simp add: pin_round_def push_bit_eq_mult)
  then show ?case using Cons.IH[of "31 * n + of_char c"] by simp
qed simp

lemma hashPin_value: "hashPin p = show_int (int (pin_value p mod 2 ^ 32))"
  using pin_round_value[of 0 p] by (simp add: hashPin_def pin_value_def uint_nat unat_of_nat take_bit_eq_mod)

lemma pin_value_snoc: "pin_value (p @ [c]) = 31 * pin_value p + of_char c"
  by (simp add: pin_value_def)

definition pin_digit :: "char \<Rightarrow> bool" where
  "pin_digit c \<longleftrightarrow> 48 \<le> (of_char c :: nat) \<and> (of_char c :: nat) \<le> 57"

lemmas digit_code = pin_digit_def[THEN iffD1]

lemma pin_value_inj:
  "list_all pin_digit p \<Longrightarrow> list_all pin_digit q \<Longrightarrow> pin_value p = pin_value q \<Longrightarrow> p = q"
proof (induction p arbitrary: q rule: rev_induct)
  case Nil
  then show ?case by (cases q rule: rev_cases) (auto simp: pin_value_snoc pin_value_def dest: digit_code)
next
  case (snoc c p)
  show ?case
  proof (cases q rule: rev_cases)
    case Nil
    then show ?thesis using snoc.prems digit_code[of c] by (auto simp: pin_value_snoc) (simp add: pin_value_def)
  next
    case (snoc q' d)
    have e: "31 * pin_value p + (of_char c :: nat) = 31 * pin_value q' + of_char d"
      using snoc.prems(3) snoc by (simp add: pin_value_snoc)
    have b: "48 \<le> (of_char c :: nat)" "(of_char c :: nat) \<le> 57" "48 \<le> (of_char d :: nat)" "(of_char d :: nat) \<le> 57"
      using digit_code snoc.prems snoc by auto
    have "pin_value p = pin_value q'" using e b by presburger
    with e snoc.IH snoc.prems snoc show ?thesis by simp
  qed
qed

lemma pin_value_bound: "list_all pin_digit p \<Longrightarrow> pin_value p + 2 \<le> 2 * 31 ^ length p"
proof (induction p rule: rev_induct)
  case (snoc c p)
  then show ?case using digit_code[of c] by (simp add: pin_value_snoc)
qed (simp add: pin_value_def)

lemma hashPin_inj:
  assumes "list_all pin_digit p" "list_all pin_digit q" "length p \<le> 6" "length q \<le> 6"
  shows "hashPin p = hashPin q \<longleftrightarrow> p = q"
proof -
  have small: "pin_value x < 2 ^ 32" if "list_all pin_digit x" "length x \<le> 6" for x
  proof -
    have "pin_value x + 2 \<le> 2 * 31 ^ length x" using that pin_value_bound by blast
    also have "\<dots> \<le> 2 * 31 ^ 6" using that(2) power_increasing[of "length x" 6 "31::nat"] by simp
    finally show ?thesis by simp
  qed
  have inj: "a = b" if "a < 2 ^ 32" "b < 2 ^ 32" "show_int (int a) = show_int (int b)" for a b
  proof -
    have "a \<le> 2 ^ 53" "b \<le> 2 ^ 53" using that(1,2) by simp_all
    from parseInt_show_nat[OF this(1)] parseInt_show_nat[OF this(2)] show ?thesis unfolding that(3) by simp
  qed
  have v: "hashPin x = show_int (int (pin_value x))" if "list_all pin_digit x" "length x \<le> 6" for x
    using small[OF that] by (simp add: hashPin_value)
  have "p = q" if "hashPin p = hashPin q"
    by (rule pin_value_inj[OF assms(1,2)], rule inj[OF small[OF assms(1,3)] small[OF assms(2,4)]])
       (use that v[OF assms(1,3)] v[OF assms(2,4)] in simp)
  then show ?thesis by blast
qed

text \<open>
  Setting a PIN of at most six digits and entering it later: the entry is accepted exactly when it
  is the same PIN, the 32-bit hash having no collision that short.
\<close>

theorem account_pin:
  assumes "kv_store getA setA delA" "saveAccountPin setA p w = (Ret (), w')"
    and "list_all pin_digit p" "list_all pin_digit q" "length p \<le> 6" "length q \<le> 6"
  shows "verifyAccountPin getA q w' = (Ret (q = p), w')"
proof -
  have "getA PIN_HASH_KEY w' = Ret (Some (hashPin p))"
    using kv_store.get_set[OF assms(1), of PIN_HASH_KEY] assms(2) by (simp add: saveAccountPin_def)
  moreover have "hashPin p \<noteq> []" by (simp add: hashPin_def show_int_def)
  ultimately show ?thesis using hashPin_inj[OF assms(4,3,6,5)]
    by (simp add: verifyAccountPin_def io_simps)
qed

theorem account_pin_witness:
  "\<exists>w'. saveAccountPin mem_setItem ''0421'' Map.empty = (Ret (), w') \<and> verifyAccountPin mem_getItem ''1421'' w' = (Ret False, w')"
proof -
  let ?w = "Map.empty(PIN_HASH_KEY \<mapsto> hashPin ''0421'')"
  have s: "saveAccountPin mem_setItem ''0421'' Map.empty = (Ret (), ?w)" by (simp add: saveAccountPin_def mem_setItem_def)
  have "verifyAccountPin mem_getItem ''1421'' ?w = (Ret (''1421'' = ''0421''), ?w)"
    by (rule account_pin[OF mem.kv_store_axioms s]) (simp_all add: pin_digit_def)
  with s show ?thesis by (intro exI[of _ ?w]) simp
qed

text \<open>
  The onboarding step moves on exactly when the overlay verified the user or the user cancelled it;
  in every other case the PIN modal or the offer of one is on the screen, and the spinner is gone.
\<close>

theorem onboarding_continue:
  assumes "auth (bx_env s) = (Ret r, w')" "handleContinue auth getA type s = (u, s')" "bx_loading s = False"
  shows "u = Ret () \<and> \<not> bx_loading s'
    \<and> (bx_routes s' \<noteq> bx_routes s \<longleftrightarrow> bx_hardware s \<in> {Checking, Available} \<and> r \<in> {Verified, Not_verified Cancelled})
    \<and> (bx_routes s' = bx_routes s \<longrightarrow> bx_showPinModal s' \<or> bx_alert s')"
proof (cases "bx_hardware s \<in> {Unavailable, Unenrolled}")
  case True
  then show ?thesis using assms by (auto simp: handleContinue_def)
next
  case False
  then have hw: "bx_hardware s \<in> {Checking, Available}" by (cases "bx_hardware s") auto
  have os: "on_screen auth (s\<lparr>bx_loading := True\<rparr>) = (Ret r, s\<lparr>bx_loading := True, bx_env := w'\<rparr>)"
    using assms(1) by (simp add: on_screen_def)
  show ?thesis
  proof (cases r)
    case Verified
    then show ?thesis using assms(2) False hw
      by (auto simp: handleContinue_def always_apply bnd_apply os navigateForward_def)
  next
    case (Not_verified f)
    then show ?thesis using assms(2) False hw
      by (cases f) (auto simp: handleContinue_def always_apply bnd_apply os navigateForward_def ask_pin_def)
  qed
qed

theorem onboarding_continue_witness:
  "bx_routes (snd (handleContinue (ret (Not_verified Cancelled)) mem_getItem None (bio_screen_mounted Map.empty))) \<noteq> []"
proof -
  obtain u s' where run: "handleContinue (ret (Not_verified Cancelled)) mem_getItem None (bio_screen_mounted Map.empty) = (u, s')"
    by fastforce
  from onboarding_continue[OF ret_apply run] have "bx_routes s' \<noteq> []" by (simp add: bio_screen_mounted_def)
  then show ?thesis by (simp only: run snd_conv not_False_eq_True)
qed

end
