(* ===== verification/Batch_Csv.thy ===== *)
theory Batch_Csv
  imports Js_Format Platform
begin

text \<open>
  The distribution list of the transfer screen (\<open>mobileapp/app/transfer.tsx\<close>): parsing the CSV file, the
  preview (\<open>components/BatchPayoutSummary.tsx\<close>) and the submission.  Lengths count characters of ASCII
  text.
\<close>

section \<open>Lines and cells\<close>

datatype item_status = Pending | Completed | Failed

record BatchPayoutItem =
  bi_id :: string
  bi_recipientName :: string
  bi_recipientAddress :: string
  bi_amount :: string
  bi_currency :: string
  bi_status :: item_status

definition EXPECTED_CSV_HEADERS :: "string list" where
  "EXPECTED_CSV_HEADERS = [''recipient_name'', ''recipient_address'', ''amount'', ''currency'']"

text \<open>\<open>s.split(/\r?\n/)\<close>, and \<open>s.replace(/^"|"$/g, "")\<close>.\<close>

definition CR :: char where "CR = char_of (13 :: nat)"
definition LF :: char where "LF = char_of (10 :: nat)"
definition QUOTE :: char where "QUOTE = char_of (34 :: nat)"

definition strip_cr :: "string \<Rightarrow> string" where
  "strip_cr s = (if s \<noteq> [] \<and> last s = CR then butlast s else s)"

definition split_lines :: "string \<Rightarrow> string list" where
  "split_lines s = (let ps = split LF s in map strip_cr (butlast ps) @ [last ps])"

definition unquote :: "string \<Rightarrow> string" where
  "unquote s = (let t = (if s \<noteq> [] \<and> hd s = QUOTE then tl s else s) in
     if t \<noteq> [] \<and> last t = QUOTE then butlast t else t)"

definition cells :: "string \<Rightarrow> string list" where
  "cells line = map (\<lambda>c. unquote (trim c)) (split (CHR '','') line)"

definition indexOf :: "string list \<Rightarrow> string \<Rightarrow> nat" where
  "indexOf hs h = length (takeWhile (\<lambda>x. x \<noteq> h) hs)"

text \<open>\<open>cols[i] || ""\<close>.\<close>

definition cell :: "string list \<Rightarrow> nat \<Rightarrow> string" where
  "cell cols i = (if i < length cols then cols ! i else [])"

section \<open>Rows\<close>

definition address_ok :: "string \<Rightarrow> bool" where
  "address_ok a \<longleftrightarrow> startsWith a ''G'' \<and> 20 \<le> length a"

definition amount_ok :: "string \<Rightarrow> bool" where
  "amount_ok a \<longleftrightarrow> \<not> (Number a = NaN \<or> num_le (Number a) (Fin 0))"

definition batch_row_errors :: "nat \<Rightarrow> string \<Rightarrow> string \<Rightarrow> string \<Rightarrow> string \<Rightarrow> string list" where
  "batch_row_errors i name address amount currency = (let at_row = ''Row '' @ show_int (int i) @ '': '' in
     (if name = [] then [at_row @ ''recipient_name is required.''] else [])
   @ (if address = [] then [at_row @ ''recipient_address is required.'']
      else if \<not> address_ok address then [at_row @ [QUOTE] @ address @ [QUOTE] @ '' is not a valid Stellar address.''] else [])
   @ (if amount = [] then [at_row @ ''amount is required.'']
      else if \<not> amount_ok amount then [at_row @ ''amount must be a positive number.''] else [])
   @ (if currency = [] then [at_row @ ''currency is required.''] else []))"

definition batch_item :: "nat \<Rightarrow> string \<Rightarrow> string \<Rightarrow> string \<Rightarrow> string \<Rightarrow> BatchPayoutItem" where
  "batch_item i name address amount currency =
     \<lparr>bi_id = ''item-'' @ show_int (int i), bi_recipientName = name, bi_recipientAddress = address, bi_amount = amount,
      bi_currency = toUpperCase currency, bi_status = Pending\<rparr>"

fun batch_rows :: "(string \<Rightarrow> nat) \<Rightarrow> nat \<Rightarrow> string list \<Rightarrow> BatchPayoutItem list \<times> string list" where
  "batch_rows idx i [] = ([], [])"
| "batch_rows idx i (line # lines) = (let row = trim line; (items, errors) = batch_rows idx (Suc i) lines in
     if row = [] then (items, errors)
     else let cols = cells row; name = cell cols (idx ''recipient_name''); address = cell cols (idx ''recipient_address'');
         amount = cell cols (idx ''amount''); currency = cell cols (idx ''currency'');
         rowErrors = batch_row_errors i name address amount currency in
       if rowErrors \<noteq> [] then (items, rowErrors @ errors)
       else (batch_item i name address amount currency # items, errors))"

definition parseCSV :: "string \<Rightarrow> BatchPayoutItem list \<times> string list" where
  "parseCSV text = (let lines = split_lines (trim text) in
     if length lines < 2 then ([], [''CSV must contain a header row and at least one data row.''])
     else let headers = cells (trim (toLowerCase (hd lines)));
         missingHeaders = filter (\<lambda>e. e \<notin> set headers) EXPECTED_CSV_HEADERS in
       if missingHeaders \<noteq> [] then ([], [''Missing required columns: '' @ join '', '' missingHeaders @ ''. Expected: ''
           @ join '', '' EXPECTED_CSV_HEADERS])
       else let (items, errors) = batch_rows (indexOf headers) 1 (tl lines) in
         (items, if items = [] \<and> errors = [] then [''No valid data rows found in CSV.''] else errors))"

section \<open>Preview\<close>

record BatchPayoutSummary =
  bp_totalAmount :: string
  bp_currency :: string
  bp_itemCount :: nat
  bp_completedCount :: nat
  bp_failedCount :: nat

definition batch_total :: "BatchPayoutItem list \<Rightarrow> js_num" where
  "batch_total items = foldl (\<lambda>sum item. num_add sum (Number (bi_amount item))) (Fin 0) items"

definition batch_preview :: "BatchPayoutItem list \<Rightarrow> BatchPayoutSummary option" where
  "batch_preview items = (if items = [] then None else Some
     \<lparr>bp_totalAmount = toFixed 2 (batch_total items), bp_currency = bi_currency (hd items),
      bp_itemCount = length items, bp_completedCount = 0, bp_failedCount = 0\<rparr>)"

text \<open>The lines the summary card shows.\<close>

definition summary_lines :: "BatchPayoutSummary \<Rightarrow> string list" where
  "summary_lines s = (let pendingCount = int (bp_itemCount s) - int (bp_completedCount s) - int (bp_failedCount s) in
     [bp_totalAmount s @ '' '' @ bp_currency s,
      show_int (int (bp_itemCount s)) @ '' item'' @ (if bp_itemCount s \<noteq> 1 then ''s'' else []),
      show_int (int (bp_completedCount s)) @ '' completed'']
     @ (if bp_failedCount s > 0 then [show_int (int (bp_failedCount s)) @ '' failed''] else [])
     @ (if pendingCount > 0 then [show_int pendingCount @ '' pending''] else []))"

section \<open>Submission\<close>

definition submit_batch ::
  "(string \<Rightarrow> 'w \<Rightarrow> string option res) \<Rightarrow> (BatchPayoutItem list request \<Rightarrow> ('w, 'j response) io) \<Rightarrow> string
     \<Rightarrow> BatchPayoutItem list \<Rightarrow> ('w, unit) io" where
  "submit_batch getA fetch API_BASE items =
     bnd (reads (getA ''auth_token'')) (\<lambda>token.
     bnd (fetch \<lparr>url = API_BASE @ ''/api/admin/distribution-lists'', meth = ''POST'', headers = json_header ++ bearer token,
         body = Some items\<rparr>) (\<lambda>r.
       if ok r then ret () else bnd (reads (\<lambda>_. text_of r)) (\<lambda>t.
         throw (Error (if t \<noteq> [] then t else ''HTTP '' @ show_int (status r))))))"

section \<open>What a file is parsed to\<close>

definition item_valid :: "BatchPayoutItem \<Rightarrow> bool" where
  "item_valid it \<longleftrightarrow> bi_recipientName it \<noteq> [] \<and> address_ok (bi_recipientAddress it) \<and> amount_ok (bi_amount it)
     \<and> bi_currency it \<noteq> [] \<and> toUpperCase (bi_currency it) = bi_currency it \<and> bi_status it = Pending"

lemma upper_char_idem [simp]: "upper_char (upper_char c) = upper_char c"
proof (cases "is_lower c")
  case True
  then have "\<not> is_lower (char_of (of_char c - 32 :: nat))" by (auto simp: is_lower_def)
  then show ?thesis using True by (simp add: upper_char_def)
qed (simp add: upper_char_def)

lemma toUpperCase_idem [simp]: "toUpperCase (toUpperCase s) = toUpperCase s"
  by (simp add: toUpperCase_def)

lemma no_row_errors: "batch_row_errors i name address amount currency = [] \<longleftrightarrow>
    name \<noteq> [] \<and> address_ok address \<and> amount \<noteq> [] \<and> amount_ok amount \<and> currency \<noteq> []"
  by (auto simp: batch_row_errors_def Let_def address_ok_def)

lemma item_valid_batch_item:
  "batch_row_errors i name address amount currency = [] \<Longrightarrow> item_valid (batch_item i name address amount currency)"
  by (simp add: no_row_errors item_valid_def batch_item_def toUpperCase_def)

lemma batch_rows_valid: "batch_rows idx i lines = (items, errors) \<Longrightarrow> list_all item_valid items"
  by (induction lines arbitrary: i items errors)
     (auto simp: Let_def item_valid_batch_item split: if_splits prod.splits)

lemma batch_rows_ids:
  "batch_rows idx i lines = (items, errors) \<Longrightarrow> \<exists>ns. map bi_id items = map (\<lambda>n. ''item-'' @ show_int (int n)) ns
     \<and> sorted ns \<and> distinct ns \<and> (\<forall>n \<in> set ns. i \<le> n \<and> n < i + length lines)"
proof (induction lines arbitrary: i items errors)
  case (Cons line lines)
  obtain items' errors' where r: "batch_rows idx (Suc i) lines = (items', errors')" by fastforce
  from Cons.IH[OF r] obtain ns where ns: "map bi_id items' = map (\<lambda>n. ''item-'' @ show_int (int n)) ns" "sorted ns" "distinct ns"
    "\<forall>n \<in> set ns. Suc i \<le> n \<and> n < Suc i + length lines" by blast
  consider "items = items'" | x where "items = x # items'" "bi_id x = ''item-'' @ show_int (int i)"
    using Cons.prems r by (auto simp: Let_def batch_item_def split: if_splits)
  then show ?case
  proof cases
    case 1
    then show ?thesis using ns by (intro exI[of _ ns]) auto
  next
    case 2
    then show ?thesis using ns by (intro exI[of _ "i # ns"]) (auto dest: Suc_le_lessD)
  qed
qed simp

lemma show_nat_inj: "show_int (int m) = show_int (int n) \<longleftrightarrow> m = n"
  by (auto simp: show_int_def)

lemma batch_items_parsed:
  assumes "parseCSV text = (items, errors)"
  shows "list_all item_valid items \<and> distinct (map bi_id items) \<and> (items = [] \<longrightarrow> errors \<noteq> [])"
proof -
  let ?l = "split_lines (trim text)"
  let ?h = "cells (trim (toLowerCase (hd ?l)))"
  let ?m = "filter (\<lambda>e. e \<notin> set ?h) EXPECTED_CSV_HEADERS"
  obtain its es where r: "batch_rows (indexOf ?h) 1 (tl ?l) = (its, es)" by fastforce
  have p: "parseCSV text = (if length ?l < 2 then ([], [''CSV must contain a header row and at least one data row.''])
     else if ?m \<noteq> [] then ([], [''Missing required columns: '' @ join '', '' ?m @ ''. Expected: '' @ join '', '' EXPECTED_CSV_HEADERS])
     else (its, if its = [] \<and> es = [] then [''No valid data rows found in CSV.''] else es))"
    unfolding parseCSV_def Let_def r prod.case ..
  consider "items = []" "errors \<noteq> []" | "items = its" "errors = (if its = [] \<and> es = [] then [''No valid data rows found in CSV.''] else es)"
    using assms p by (cases "length ?l < 2"; cases "?m \<noteq> []") (auto split: if_splits)
  then show ?thesis
  proof cases
    case 2
    from batch_rows_ids[OF r] obtain ns where "map bi_id its = map (\<lambda>n. ''item-'' @ show_int (int n)) ns" "distinct ns" by blast
    then have "distinct (map bi_id its)" by (simp add: distinct_map inj_on_def show_nat_inj)
    with batch_rows_valid[OF r] 2 show ?thesis by simp
  qed simp
qed

text \<open>
  Whatever the file, the items it gives can be submitted: named, addressed, with a positive amount and
  a currency, under distinct identifiers; and a file that gives none is reported.
\<close>

theorem batch_items_valid:
  assumes "parseCSV text = (items, errors)"
  shows "list_all item_valid items \<and> distinct (map bi_id items) \<and> (items = [] \<longrightarrow> errors \<noteq> [])"
  using assms by (rule batch_items_parsed)

section \<open>Files that are written cell by cell\<close>

definition plain_cell :: "string \<Rightarrow> bool" where
  "plain_cell c \<longleftrightarrow> trim c = c \<and> CHR '','' \<notin> set c \<and> QUOTE \<notin> set c \<and> LF \<notin> set c"

definition csv_text :: "string list \<Rightarrow> string list list \<Rightarrow> string" where
  "csv_text hs rows = join [LF] (map (join '','') (hs # rows))"

definition solid :: "string \<Rightarrow> bool" where
  "solid s \<longleftrightarrow> s \<noteq> [] \<and> \<not> is_ws (hd s) \<and> \<not> is_ws (last s)"

lemma trim_solid: "solid s \<Longrightarrow> trim s = s"
proof -
  assume s: "solid s"
  then have "dropWhile is_ws s = s" by (metis dropWhile_eq_self_iff solid_def)
  moreover have "dropWhile is_ws (rev s) = rev s" using s by (metis dropWhile_eq_self_iff hd_rev solid_def)
  ultimately show ?thesis by (simp add: trim_def)
qed

lemma solid_append: "s \<noteq> [] \<Longrightarrow> t \<noteq> [] \<Longrightarrow> \<not> is_ws (hd s) \<Longrightarrow> \<not> is_ws (last t) \<Longrightarrow> solid (s @ t)"
  by (simp add: solid_def)

lemma solid_join_LF: "xs \<noteq> [] \<Longrightarrow> \<forall>x \<in> set xs. solid x \<Longrightarrow> solid (join [LF] xs)"
proof (induction xs)
  case (Cons x xs)
  then show ?case by (cases xs) (auto simp: solid_def)
qed simp

lemma join_cons: "xs \<noteq> [] \<Longrightarrow> join d (x # xs) = x @ d @ join d xs"
  by (cases xs) auto

lemma plain_cell_ends: "plain_cell c \<Longrightarrow> c = [] \<or> solid c"
  using trim_hd_last[of c] by (auto simp: plain_cell_def solid_def)

lemma join_last: "xs \<noteq> [] \<Longrightarrow> list_all plain_cell xs \<Longrightarrow> last ('','' @ join '','' xs) = CHR '','' \<or> \<not> is_ws (last ('','' @ join '','' xs))"
proof (induction xs)
  case (Cons x xs)
  show ?case
  proof (cases "xs = []")
    case True
    then show ?thesis using Cons.prems plain_cell_ends[of x] by (auto simp: solid_def)
  next
    case False
    then show ?thesis using Cons by (simp add: join_cons)
  qed
qed simp

lemma comma_not_ws: "\<not> is_ws (CHR '','')"
  by (simp add: is_ws_def)

lemma solid_line:
  assumes "2 \<le> length xs" "list_all plain_cell xs"
  shows "solid (join '','' xs)"
proof -
  obtain x zs where x: "xs = x # zs" "zs \<noteq> []" using assms(1) by (cases xs; cases "tl xs") auto
  then obtain y ys where xs: "xs = x # y # ys" by (cases zs) auto
  have l: "\<not> is_ws (last ('','' @ join '','' (y # ys)))"
    using join_last[of "y # ys"] assms(2) comma_not_ws xs by auto
  have "join '','' xs = x @ ('','' @ join '','' (y # ys))" by (simp add: xs join_cons)
  moreover have "x = [] \<or> solid x" using plain_cell_ends assms(2) xs by simp
  ultimately show ?thesis using l comma_not_ws by (auto simp: solid_def)
qed

lemma plain_unquote: "plain_cell c \<Longrightarrow> unquote (trim c) = c"
  by (auto simp: plain_cell_def unquote_def Let_def) (metis hd_in_set last_in_set)+

lemma cells_line:
  assumes "xs \<noteq> []" "list_all plain_cell xs"
  shows "cells (join '','' xs) = xs"
proof -
  have "split (CHR '','') (join '','' xs) = xs"
    by (rule split_join) (use assms in \<open>auto simp: list_all_iff plain_cell_def\<close>)
  then show ?thesis using assms(2) by (simp add: cells_def list_all_iff plain_unquote map_idI)
qed

lemma LF_not_in_line: "list_all plain_cell xs \<Longrightarrow> LF \<notin> set (join '','' xs)"
proof (induction xs)
  case (Cons x xs)
  have c: "LF \<noteq> CHR '',''" by (simp add: LF_def char_of_def)
  show ?case using Cons c by (cases xs) (auto simp: plain_cell_def)
qed simp

lemma strip_cr_solid: "solid s \<Longrightarrow> strip_cr s = s"
  by (auto simp: strip_cr_def solid_def CR_def is_ws_def)

lemma split_lines_join:
  assumes "xs \<noteq> []" "\<forall>x \<in> set xs. solid x \<and> LF \<notin> set x"
  shows "split_lines (join [LF] xs) = xs"
proof -
  have "split LF (join [LF] xs) = xs" by (rule split_join) (use assms in auto)
  moreover have "map strip_cr (butlast xs) = butlast xs"
    by (rule map_idI) (use assms(2) in \<open>auto simp: strip_cr_solid dest: in_set_butlastD\<close>)
  ultimately show ?thesis using assms(1) by (simp add: split_lines_def Let_def)
qed

text \<open>A row with a plain cell under every header, what is wrong with it, and the item it stands for.\<close>

definition plain_row :: "string list \<Rightarrow> string list \<Rightarrow> bool" where
  "plain_row hs r \<longleftrightarrow> length r = length hs \<and> list_all plain_cell r"

definition errors_of_row :: "string list \<Rightarrow> nat \<Rightarrow> string list \<Rightarrow> string list" where
  "errors_of_row hs i r = batch_row_errors i (r ! indexOf hs ''recipient_name'') (r ! indexOf hs ''recipient_address'')
     (r ! indexOf hs ''amount'') (r ! indexOf hs ''currency'')"

definition row_item :: "string list \<Rightarrow> nat \<Rightarrow> string list \<Rightarrow> BatchPayoutItem" where
  "row_item hs i r = batch_item i (r ! indexOf hs ''recipient_name'') (r ! indexOf hs ''recipient_address'')
     (r ! indexOf hs ''amount'') (r ! indexOf hs ''currency'')"

definition good_row :: "string list \<Rightarrow> string list \<Rightarrow> bool" where
  "good_row hs r \<longleftrightarrow> length r = length hs \<and> list_all plain_cell r \<and> r ! indexOf hs ''recipient_name'' \<noteq> []
     \<and> address_ok (r ! indexOf hs ''recipient_address'') \<and> r ! indexOf hs ''amount'' \<noteq> []
     \<and> amount_ok (r ! indexOf hs ''amount'') \<and> r ! indexOf hs ''currency'' \<noteq> []"

lemma good_row_iff: "good_row hs r \<longleftrightarrow> plain_row hs r \<and> errors_of_row hs i r = []"
  by (auto simp: good_row_def plain_row_def errors_of_row_def no_row_errors)

lemma indexOf_bound: "h \<in> set hs \<Longrightarrow> indexOf hs h < length hs"
  by (induction hs) (auto simp: indexOf_def)

text \<open>The numbered rows of a file split into those that give an item and those that are reported.\<close>

definition read_rows :: "string list \<Rightarrow> (nat \<times> string list) list \<Rightarrow> BatchPayoutItem list \<times> string list" where
  "read_rows hs rows = (map (\<lambda>(n, r). row_item hs n r) (filter (\<lambda>(n, r). errors_of_row hs n r = []) rows),
     concat (map (\<lambda>(n, r). errors_of_row hs n r) rows))"

lemma batch_rows_plain:
  assumes "set EXPECTED_CSV_HEADERS \<subseteq> set hs" "2 \<le> length hs" "list_all (plain_row hs) rows"
  shows "batch_rows (indexOf hs) i (map (join '','') rows) = read_rows hs (enumerate i rows)"
  using assms(3)
proof (induction rows arbitrary: i)
  case (Cons r rows)
  have len: "length r = length hs" "list_all plain_cell r" using Cons.prems by (simp_all add: plain_row_def)
  have t: "trim (join '','' r) = join '','' r" "join '','' r \<noteq> []"
    using solid_line[of r] len assms(2) trim_solid by (auto simp: solid_def)
  have "r \<noteq> []" using len assms(2) by auto
  then have c: "cells (join '','' r) = r" using cells_line len(2) by blast
  have at: "cell r (indexOf hs h) = r ! indexOf hs h" if "h \<in> set EXPECTED_CSV_HEADERS" for h
    using indexOf_bound[of h hs] that assms(1) len by (auto simp: cell_def)
  have cs: "cell r (indexOf hs ''recipient_name'') = r ! indexOf hs ''recipient_name''"
    "cell r (indexOf hs ''recipient_address'') = r ! indexOf hs ''recipient_address''"
    "cell r (indexOf hs ''amount'') = r ! indexOf hs ''amount''" "cell r (indexOf hs ''currency'') = r ! indexOf hs ''currency''"
    by (rule at; simp add: EXPECTED_CSV_HEADERS_def)+
  have IH: "batch_rows (indexOf hs) (Suc i) (map (join '','') rows) = read_rows hs (enumerate (Suc i) rows)"
    using Cons by simp
  show ?case
    by (simp only: list.map batch_rows.simps Let_def t c cs IH errors_of_row_def[symmetric] row_item_def[symmetric])
      (simp add: read_rows_def)
qed (simp add: read_rows_def)

lemma read_rows_ne: "rows \<noteq> [] \<Longrightarrow> \<not> (fst (read_rows hs rows) = [] \<and> snd (read_rows hs rows) = [])"
  by (cases rows) (auto simp: read_rows_def split: prod.splits if_splits)

lemma read_good_rows: "list_all (good_row hs) rows \<Longrightarrow> read_rows hs (enumerate i rows) = (map (\<lambda>(n, r). row_item hs n r) (enumerate i rows), [])"
proof -
  assume g: "list_all (good_row hs) rows"
  have "errors_of_row hs n r = []" if "(n, r) \<in> set (enumerate i rows)" for n r
  proof -
    have "r \<in> set rows" using that by (auto simp: in_set_enumerate_eq)
    then show ?thesis using g good_row_iff[of hs r n] by (simp add: list_all_iff)
  qed
  then have e: "\<And>p. p \<in> set (enumerate i rows) \<Longrightarrow> (\<lambda>(n, r). errors_of_row hs n r = []) p" by auto
  then have "filter (\<lambda>(n, r). errors_of_row hs n r = []) (enumerate i rows) = enumerate i rows" by (rule filter_True[OF ballI])
  with e show ?thesis by (auto simp: read_rows_def)
qed

text \<open>Headers may be written in any case.\<close>

lemma lower_char_punct:
  "lower_char c = CHR '','' \<longleftrightarrow> c = CHR '',''" "lower_char c = QUOTE \<longleftrightarrow> c = QUOTE" "lower_char c = LF \<longleftrightarrow> c = LF"
proof -
  have "lower_char c \<noteq> d" if "is_upper c" "(of_char d :: nat) < 97" for d
  proof
    assume "lower_char c = d"
    then have "(of_char d :: nat) = of_char c + 32" using that(1) by (auto simp: lower_char_def is_upper_def)
    then show False using that by (simp add: is_upper_def)
  qed
  from this[of "CHR '',''"] this[of QUOTE] this[of LF]
  show "lower_char c = CHR '','' \<longleftrightarrow> c = CHR '',''" "lower_char c = QUOTE \<longleftrightarrow> c = QUOTE" "lower_char c = LF \<longleftrightarrow> c = LF"
    by (auto simp: lower_char_def is_upper_def QUOTE_def LF_def)
qed

lemma trim_lower: "trim (toLowerCase s) = toLowerCase (trim s)"
  by (simp add: trim_def toLowerCase_def rev_map dropWhile_map comp_def)

lemma plain_cell_lower: "plain_cell h \<Longrightarrow> plain_cell (toLowerCase h)"
  by (auto simp: plain_cell_def trim_lower simp del: lower_char_punct) (auto simp: toLowerCase_def dest: lower_char_punct[THEN iffD1] sym)+

lemma lower_line: "toLowerCase (join '','' hs) = join '','' (map toLowerCase hs)"
proof (induction hs)
  case (Cons h hs)
  then show ?case using lower_char_punct(1)[of "CHR '',''"] by (cases hs) (simp_all add: toLowerCase_def)
qed (simp add: toLowerCase_def)

lemma csv_text_read:
  assumes heads: "set EXPECTED_CSV_HEADERS \<subseteq> set (map toLowerCase hs)" "list_all plain_cell hs"
    and rows: "list_all (plain_row hs) rows" "rows \<noteq> []"
  shows "parseCSV (csv_text hs rows) = read_rows (map toLowerCase hs) (enumerate 1 rows)"
proof -
  let ?hs = "map toLowerCase hs"
  have h2: "2 \<le> length hs"
  proof -
    have "card (set EXPECTED_CSV_HEADERS) \<le> card (set ?hs)" by (rule card_mono) (use heads(1) in auto)
    also have "\<dots> \<le> length ?hs" by (rule card_length)
    finally show ?thesis by (simp add: EXPECTED_CSV_HEADERS_def)
  qed
  have hp: "list_all plain_cell ?hs" using heads(2) plain_cell_lower by (auto simp: list_all_iff)
  have sh: "solid (join '','' ?hs)" by (rule solid_line[OF _ hp]) (use h2 in simp)
  have plain: "solid (join '','' xs) \<and> LF \<notin> set (join '','' xs)" if "length xs = length hs" "list_all plain_cell xs" for xs
    using solid_line[of xs] LF_not_in_line[of xs] that h2 by simp
  have all: "\<forall>x \<in> set (map (join '','') (hs # rows)). solid x \<and> LF \<notin> set x"
    using rows(1) heads(2) plain by (auto simp: list_all_iff plain_row_def)
  have tr: "trim (csv_text hs rows) = csv_text hs rows" unfolding csv_text_def
    by (rule trim_solid, rule solid_join_LF) (use all in auto)
  have l: "split_lines (csv_text hs rows) = map (join '','') (hs # rows)" unfolding csv_text_def
    by (rule split_lines_join) (use all in auto)
  have c: "cells (trim (toLowerCase (join '','' hs))) = ?hs"
    unfolding lower_line trim_solid[OF sh] by (rule cells_line[OF _ hp]) (use h2 in auto)
  have m: "filter (\<lambda>e. e \<notin> set ?hs) EXPECTED_CSV_HEADERS = []" using heads(1) by (auto simp: filter_empty_conv)
  have two: "\<not> length (map (join '','') (hs # rows)) < 2" using rows(2) by (cases rows) auto
  have b: "batch_rows (indexOf ?hs) 1 (map (join '','') rows) = read_rows ?hs (enumerate 1 rows)"
    by (rule batch_rows_plain) (use heads(1) h2 rows(1) in \<open>auto simp: plain_row_def list_all_iff\<close>)
  have "enumerate 1 rows \<noteq> []" using rows(2) by (cases rows) auto
  from read_rows_ne[OF this, of ?hs] show ?thesis
    unfolding parseCSV_def Let_def tr l list.map list.sel c m b using two
    by (cases "read_rows ?hs (enumerate 1 rows)") (simp only: if_False list.map simp_thms prod.case fst_conv snd_conv)
qed

lemma csv_text_parsed:
  assumes heads: "set EXPECTED_CSV_HEADERS \<subseteq> set hs" "list_all (\<lambda>h. plain_cell h \<and> toLowerCase h = h) hs"
    and rows: "list_all (good_row hs) rows" "rows \<noteq> []"
  shows "parseCSV (csv_text hs rows) = (map (\<lambda>(n, r). row_item hs n r) (enumerate 1 rows), [])"
proof -
  have h: "map toLowerCase hs = hs" "list_all plain_cell hs" using heads(2) by (auto simp: list_all_iff intro: map_idI)
  have "list_all (plain_row hs) rows" using rows(1) by (auto simp: list_all_iff good_row_iff[of _ _ 0])
  from csv_text_read[OF _ h(2) this rows(2)] heads(1) read_good_rows[OF rows(1)] show ?thesis by (simp add: h(1))
qed

text \<open>
  C10: A file written line by line, its cells free of commas, quotes, line breaks and outer blanks, is read back: with the
  columns in any order, in any case and among others, every row that passes the checks gives its item, numbered by its
  position, and every other row is reported with what is wrong with it.  A cell that needs quotes is not read
  (\<open>quoted_comma_splits\<close>).
\<close>

theorem batch_file_roundtrip:
  assumes heads: "set EXPECTED_CSV_HEADERS \<subseteq> set (map toLowerCase hs)" "list_all plain_cell hs"
    and rows: "list_all (plain_row hs) rows" "rows \<noteq> []"
  shows "parseCSV (csv_text hs rows)
    = (map (\<lambda>(n, r). row_item (map toLowerCase hs) n r)
         (filter (\<lambda>(n, r). errors_of_row (map toLowerCase hs) n r = []) (enumerate 1 rows)),
       concat (map (\<lambda>(n, r). errors_of_row (map toLowerCase hs) n r) (enumerate 1 rows)))"
  using csv_text_read[OF assms] by (simp add: read_rows_def)

definition sample_rows :: "string list list" where
  "sample_rows = [[''Ada'', ''USDC'', ''12'', ''GAAAAAAAAAAAAAAAAAAA'']]"

theorem batch_file_roundtrip_witness:
  "parseCSV (csv_text [''recipient_name'', ''currency'', ''amount'', ''recipient_address''] sample_rows)
     = ([batch_item 1 ''Ada'' ''GAAAAAAAAAAAAAAAAAAA'' ''12'' ''USDC''], [])"
proof -
  let ?hs = "[''recipient_name'', ''currency'', ''amount'', ''recipient_address'']"
  have n: "Number ''12'' = Fin 12"
  proof -
    have "show_int (int 12) = ''12''" by code_simp
    with Number_show_nat[of 12] show ?thesis by simp
  qed
  have i: "indexOf ?hs ''recipient_name'' = 0" "indexOf ?hs ''currency'' = 1" "indexOf ?hs ''amount'' = 2"
      "indexOf ?hs ''recipient_address'' = 3"
    by (simp_all add: indexOf_def)
  have g: "good_row ?hs [''Ada'', ''USDC'', ''12'', ''GAAAAAAAAAAAAAAAAAAA'']"
    by (simp add: good_row_def i plain_cell_def trim_def is_ws_def QUOTE_def LF_def char_of_def address_ok_def startsWith_def
        amount_ok_def n num_le_def)
  have h: "list_all plain_cell ?hs" "map toLowerCase ?hs = ?hs"
    by (simp_all add: plain_cell_def trim_def is_ws_def QUOTE_def LF_def char_of_def toLowerCase_def lower_char_def is_upper_def)
  have e: "errors_of_row ?hs 1 [''Ada'', ''USDC'', ''12'', ''GAAAAAAAAAAAAAAAAAAA''] = []" using g good_row_iff by blast
  have "parseCSV (csv_text ?hs sample_rows)
    = (map (\<lambda>(n, r). row_item (map toLowerCase ?hs) n r) (filter (\<lambda>(n, r). errors_of_row (map toLowerCase ?hs) n r = []) (enumerate 1 sample_rows)),
       concat (map (\<lambda>(n, r). errors_of_row (map toLowerCase ?hs) n r) (enumerate 1 sample_rows)))"
    by (rule batch_file_roundtrip) (use g h in \<open>auto simp: sample_rows_def EXPECTED_CSV_HEADERS_def good_row_def plain_row_def\<close>)
  then show ?thesis unfolding h(2) using e by (simp add: sample_rows_def row_item_def i)
qed

text \<open>
  A quoted cell with a comma, as spreadsheets write it, is split: the second half of the name is taken for the address.
\<close>

theorem quoted_comma_splits:
  "cells ([QUOTE] @ ''Doe, John'' @ [QUOTE] @ '',GAAA'') = [''Doe'', ''John'', ''GAAA'']"
  by (simp add: cells_def unquote_def trim_def is_ws_def QUOTE_def char_of_def)

theorem batch_items_valid_witness:
  "\<exists>items errors. parseCSV [] = (items, errors) \<and> errors \<noteq> []"
proof -
  obtain items errors where p: "parseCSV [] = (items, errors)" by fastforce
  have "items = []" using p by (simp add: parseCSV_def split_lines_def)
  with batch_items_valid[OF p] p show ?thesis by blast
qed

section \<open>The preview\<close>

lemma fixed_digits_2: "fixed_digits 2 (100 * n) = show_int (int n) @ ''.00''"
proof (cases "n = 0")
  case True
  have "fixed_digits 2 (100 * 0) = show_int (int 0) @ ''.00''" by code_simp
  with True show ?thesis by simp
next
  case False
  have zero: "char_of (48 :: nat) = CHR ''0''" by code_simp
  have d: "nat_digits (100 * n) = nat_digits n @ ''00''"
    using False zero by (simp add: nat_digits.simps[of "100 * n"] nat_digits.simps[of "10 * n"])
  have "Suc 0 \<le> length (nat_digits n)" by (subst nat_digits.simps) (simp add: Suc_le_eq)
  then show ?thesis by (simp add: fixed_digits_def d show_int_def Let_def)
qed

lemma toFixed_2_nat: "n < 10 ^ 21 \<Longrightarrow> toFixed 2 (Fin (of_nat n)) = show_int (int n) @ ''.00''"
proof -
  assume n: "n < 10 ^ 21"
  then have "(of_nat n :: rat) < of_nat (10 ^ 21)" by (simp only: of_nat_less_iff)
  then have small: "\<not> (10 ^ 21 :: rat) \<le> \<bar>of_nat n\<bar>" by simp
  have "\<lfloor>of_nat n * 10 ^ 2 + 1 / 2 :: rat\<rfloor> = int (100 * n)" by (rule floor_unique) simp_all
  then have "toFixed 2 (Fin (of_nat n)) = fixed_digits 2 (nat (int (100 * n)))" using small by (simp only: toFixed.simps) simp
  then show ?thesis by (simp only: fixed_digits_2 nat_int)
qed

lemma batch_total_whole:
  assumes "\<forall>it \<in> set items. bi_amount it = show_int (int (amt it))" "n0 + sum_list (map amt items) \<le> 2 ^ 53"
  shows "foldl (\<lambda>sum item. num_add sum (Number (bi_amount item))) (Fin (of_nat n0)) items = Fin (of_nat (n0 + sum_list (map amt items)))"
  using assms
proof (induction items arbitrary: n0)
  case (Cons it items)
  have b: "amt it \<le> 2 ^ 53" "n0 + amt it \<le> 2 ^ 53" using Cons.prems(2) by simp_all
  have "num_add (Fin (of_nat n0)) (Number (bi_amount it)) = to_num (of_int (int (n0 + amt it)))"
    using Number_show_nat[OF b(1)] Cons.prems(1) by simp
  also have "\<dots> = Fin (of_nat (n0 + amt it))"
    by (subst to_num_of_int) (use b(2) in \<open>simp_all flip: of_nat_add\<close>)
  finally show ?case using Cons.IH[of "n0 + amt it"] Cons.prems by (simp add: add.assoc)
qed simp

text \<open>
  The total of the preview is the exact sum of whole amounts, whatever their currencies, shown in the
  currency of the first item: five dollars and seven lumens are reviewed as twelve dollars.
\<close>

theorem preview_sums_currencies:
  assumes "\<forall>it \<in> set items. bi_amount it = show_int (int (amt it))" "sum_list (map amt items) \<le> 2 ^ 53" "items \<noteq> []"
  shows "\<exists>s. batch_preview items = Some s \<and> hd (summary_lines s)
     = show_int (int (sum_list (map amt items))) @ ''.00 '' @ bi_currency (hd items)"
proof -
  have "batch_total items = Fin (of_nat (sum_list (map amt items)))"
    using batch_total_whole[OF assms(1), of 0] assms(2) by (simp add: batch_total_def)
  moreover have "sum_list (map amt items) < 10 ^ 21" using assms(2) by (rule le_less_trans) simp
  ultimately have "toFixed 2 (batch_total items) = show_int (int (sum_list (map amt items))) @ ''.00''"
    by (simp only: toFixed_2_nat)
  then show ?thesis using assms(3) by (simp add: batch_preview_def summary_lines_def del: toFixed.simps)
qed

theorem preview_sums_currencies_witness:
  "\<exists>s. batch_preview [batch_item 1 ''Ada'' ''GA'' (show_int 5) ''USDC'', batch_item 2 ''Bo'' ''GB'' (show_int 7) ''XLM''] = Some s
     \<and> hd (summary_lines s) = ''12.00 USDC''"
proof -
  let ?amt = "\<lambda>it. if bi_recipientName it = ''Ada'' then 5 else 7 :: nat"
  let ?items = "[batch_item 1 ''Ada'' ''GA'' (show_int 5) ''USDC'', batch_item 2 ''Bo'' ''GB'' (show_int 7) ''XLM'']"
  have "\<exists>s. batch_preview ?items = Some s \<and> hd (summary_lines s)
     = show_int (int (sum_list (map ?amt ?items))) @ ''.00 '' @ bi_currency (hd ?items)"
    by (rule preview_sums_currencies) (simp_all add: batch_item_def)
  moreover have "show_int 12 = ''12''" by code_simp
  moreover have "toUpperCase ''USDC'' = ''USDC''" by code_simp
  ultimately show ?thesis by (simp add: batch_item_def)
qed

text \<open>An amount need not be finite to pass for a positive number.\<close>

theorem infinite_amount_accepted: "amount_ok ''Infinity''"
  by code_simp

end
