(* ===== verification/Transfer_Screen.thy ===== *)
theory Transfer_Screen
  imports Batch_Csv Stellar_Wallet Api_Client Contacts Deep_Links Key_Rotation
begin

text \<open>
  The transfer screen (\<open>mobileapp/app/transfer.tsx\<close>): choosing a recipient, the checks that guard the
  way to the confirmation, connecting a wallet, the biometric gate, the payment, and the upload of a
  distribution list.  The hooks of the screen are the record \<open>screen\<close>.  Every asynchronous handler is
  split at its awaits: its first part answers with the requests (\<open>flight\<close>) it leaves under way, the
  answer of a request is an event of its own.  \<open>handle\<close> is the transition of an event; React's effects
  run after it (\<open>commit\<close>).
\<close>

section \<open>Assets\<close>

definition STELLAR_ASSET_ISSUERS :: "string \<rightharpoonup> string" where
  "STELLAR_ASSET_ISSUERS = [''USDC'' \<mapsto> ''GA5ZSEJYB37JRC5AVCIA5MOP4RHTM335X2KGX3IHOJAPP5RE34K4KZVN'',
     ''USDT'' \<mapsto> ''GCQTGZQQ5G4PTM2GL7CDIFKUBIPEC52BROAQIAPW53XBRJVN6ZJVTG6V'']"

record token_info =
  tk_id :: string
  tk_symbol :: string
  tk_name :: string
  tk_balance :: string
  tk_value :: string

definition TOKENS :: "token_info list" where
  "TOKENS =
     [\<lparr>tk_id = ''xlm'', tk_symbol = ''XLM'', tk_name = ''Stellar'', tk_balance = ''100.00'', tk_value = ''125.32''\<rparr>,
      \<lparr>tk_id = ''usdt'', tk_symbol = ''USDT'', tk_name = ''Tether'', tk_balance = ''100.00'', tk_value = ''100''\<rparr>,
      \<lparr>tk_id = ''usdc'', tk_symbol = ''USDC'', tk_name = ''USD Coin'', tk_balance = ''100.00'', tk_value = ''100''\<rparr>]"

definition token_of_id :: "string \<Rightarrow> token_info" where
  "token_of_id i = (case find (\<lambda>t. tk_id t = i) TOKENS of Some t \<Rightarrow> t | None \<Rightarrow> hd TOKENS)"

definition assetIssuer :: "string \<Rightarrow> string option" where
  "assetIssuer symbol = (if symbol \<noteq> ''XLM'' then STELLAR_ASSET_ISSUERS symbol else None)"

section \<open>State\<close>

datatype transfer_type = ZAPS | External | BATCH
datatype visibility = PUBLIC | FRIENDS | PRIVATE
datatype username_status = Idle | Checking_name | Registered | Not_registered | Blacklisted
datatype federation_status = Fed_idle | Resolving | Resolved | Fed_error

record payment =
  py_recipient :: string
  py_amount :: string
  py_description :: string
  py_visibility :: visibility
  py_symbol :: string
  py_wallet :: "StellarWalletState option"

text \<open>The inputs the fee estimate depends on.\<close>

record fee_inputs =
  fi_wallet :: StellarWalletState
  fi_recipient :: string
  fi_amount :: string
  fi_symbol :: string
  fi_description :: string

text \<open>The requests a handler awaits.\<close>

datatype flight =
    Searching string | Checking_registry string | Federating string | Loading_contacts | Estimating fee_inputs
  | Connecting wallet_source | Prompting payment | Paying payment | Reading_file string
  | Posting_batch "BatchPayoutItem list"

record screen =
  ts_step :: nat
  ts_type :: transfer_type
  ts_recipient :: string
  ts_amount :: string
  ts_description :: string
  ts_visibility :: visibility
  ts_selectedToken :: string
  ts_wallet :: "StellarWalletState option"
  ts_fee :: "TransactionFeeEstimate option"
  ts_connecting :: bool
  ts_submitting :: bool
  ts_searchResults :: "ZapsUser list"
  ts_recentRecipients :: "string list"
  ts_searching :: bool
  ts_showDropdown :: bool
  ts_selectedUser :: "ZapsUser option"
  ts_searchTimer :: "string option"
  ts_usernameStatus :: username_status
  ts_federationStatus :: federation_status
  ts_federationError :: "string option"
  ts_federationTimer :: "string option"
  ts_batchFile :: "string option"
  ts_batchItems :: "BatchPayoutItem list"
  ts_batchErrors :: "string list"
  ts_uploading :: bool
  ts_matchedContacts :: "MatchedContact list"
  ts_loadingContacts :: bool
  ts_contactsLoaded :: bool
  ts_alerts :: "(string \<times> string) list"
  ts_routes :: "string list"

definition initial_screen :: screen where
  "initial_screen = \<lparr>ts_step = 0, ts_type = ZAPS, ts_recipient = [], ts_amount = [], ts_description = [], ts_visibility = PUBLIC,
     ts_selectedToken = ''xlm'', ts_wallet = None, ts_fee = None, ts_connecting = False, ts_submitting = False,
     ts_searchResults = [], ts_recentRecipients = [], ts_searching = False, ts_showDropdown = False, ts_selectedUser = None,
     ts_searchTimer = None, ts_usernameStatus = Idle, ts_federationStatus = Fed_idle, ts_federationError = None,
     ts_federationTimer = None, ts_batchFile = None, ts_batchItems = [], ts_batchErrors = [], ts_uploading = False,
     ts_matchedContacts = [], ts_loadingContacts = False, ts_contactsLoaded = False, ts_alerts = [], ts_routes = []\<rparr>"

definition alert :: "string \<Rightarrow> string \<Rightarrow> screen \<Rightarrow> screen" where
  "alert title message s = s\<lparr>ts_alerts := ts_alerts s @ [(title, message)]\<rparr>"

definition symbol_of :: "screen \<Rightarrow> string" where
  "symbol_of s = tk_symbol (token_of_id (ts_selectedToken s))"

section \<open>Searching a recipient\<close>

text \<open>\<open>query.trim().replace(/^@/, "")\<close>.\<close>

definition cleanQuery :: "string \<Rightarrow> string" where
  "cleanQuery query = (let t = trim query in if startsWith t ''@'' then tl t else t)"

definition search_url :: "string \<Rightarrow> string \<Rightarrow> string" where
  "search_url API_BASE q = API_BASE @ ''/api/users/search?q='' @ encodeURIComponent q @ ''&limit=6''"

definition searchUsers :: "string \<Rightarrow> screen \<Rightarrow> screen \<times> flight list" where
  "searchUsers query s = (let q = cleanQuery query in
     if length q < 2 then (s\<lparr>ts_searchResults := [], ts_showDropdown := False\<rparr>, [])
     else (s\<lparr>ts_searching := True\<rparr>, [Searching q]))"

definition search_answered :: "ZapsUser list response res \<Rightarrow> screen \<Rightarrow> screen" where
  "search_answered a s = (let failed = s\<lparr>ts_searchResults := [], ts_showDropdown := False, ts_searching := False\<rparr> in
     case a of Throw _ \<Rightarrow> failed
     | Ret r \<Rightarrow> if \<not> ok r then failed else (case json r of Throw _ \<Rightarrow> failed
         | Ret data \<Rightarrow> s\<lparr>ts_searchResults := data, ts_showDropdown := (data \<noteq> []), ts_searching := False\<rparr>))"

record registry_entry =
  re_username :: string
  re_address :: string
  re_is_blacklisted :: bool

definition resolve_url :: "string \<Rightarrow> string \<Rightarrow> string" where
  "resolve_url API_BASE u = API_BASE @ ''/api/users/resolve/'' @ encodeURIComponent u"

definition checkUsernameRegistry :: "string \<Rightarrow> screen \<Rightarrow> screen \<times> flight list" where
  "checkUsernameRegistry username s =
     (if length username < 2 then (s\<lparr>ts_usernameStatus := Idle\<rparr>, [])
      else (s\<lparr>ts_usernameStatus := Checking_name\<rparr>, [Checking_registry username]))"

definition registry_answered :: "registry_entry response res \<Rightarrow> screen \<Rightarrow> screen" where
  "registry_answered a s = s\<lparr>ts_usernameStatus := (case a of Throw _ \<Rightarrow> Idle
     | Ret r \<Rightarrow> if status r = 404 then Not_registered else if \<not> ok r then Idle
         else (case json r of Throw _ \<Rightarrow> Idle | Ret b \<Rightarrow> if re_is_blacklisted b then Blacklisted else Registered))\<rparr>"

section \<open>Federation\<close>

text \<open>
  \<open>StellarSdk\<close> is not imported by the file: \<open>sdk\<close> is the global binding of that name, if there is one, and
  within it the federation server, if it has one; without the binding the expression throws.
\<close>

record 'w federation_server =
  fs_resolve :: "string \<Rightarrow> ('w, string option) io"

text \<open>The first \<open>FEDERATION_SERVER\s*=\s*"([^"]+)"\<close> of a text.\<close>

definition federation_at :: "string \<Rightarrow> string option" where
  "federation_at s = (if \<not> startsWith s ''FEDERATION_SERVER'' then None
     else case dropWhile is_ws (drop 17 s) of [] \<Rightarrow> None
     | c # r \<Rightarrow> if c \<noteq> CHR ''='' then None else (case dropWhile is_ws r of [] \<Rightarrow> None
         | q # u \<Rightarrow> if q \<noteq> CHR 0x22 then None else (case cut_at (CHR 0x22) u of None \<Rightarrow> None
             | Some (v, _) \<Rightarrow> if v = [] then None else Some v)))"

fun federation_match :: "string \<Rightarrow> string option" where
  "federation_match [] = None"
| "federation_match (c # s) = (case federation_at (c # s) of Some u \<Rightarrow> Some u | None \<Rightarrow> federation_match s)"

record lookup_body =
  lb_stellar_address :: string
  lb_op :: string

definition lookup_by_toml ::
  "(lookup_body request \<Rightarrow> ('w, string option response) io) \<Rightarrow> (string \<Rightarrow> string res) \<Rightarrow> string
     \<Rightarrow> ('w, string option) io" where
  "lookup_by_toml fetch URL_toString address =
     (let domain = last (split (CHR ''*'') address) in
      if domain = [] then throw (Error ''Invalid federation address format'')
      else bnd (fetch (get_rq (''https://'' @ domain @ ''/.well-known/stellar.toml''))) (\<lambda>tomlRes.
        if \<not> ok tomlRes then throw (Error ''Federation server not found'')
        else bnd (reads (\<lambda>_. text_of tomlRes)) (\<lambda>tomlText. case federation_match tomlText of
            None \<Rightarrow> throw (Error ''Federation URL not found in TOML'')
          | Some u \<Rightarrow> bnd (reads (\<lambda>_. URL_toString u)) (\<lambda>federationUrl.
              bnd (fetch \<lparr>url = federationUrl, meth = ''POST'',
                  headers = [''Content-Type'' \<mapsto> ''application/x-www-form-urlencoded''],
                  body = Some \<lparr>lb_stellar_address = address, lb_op = ''lookup''\<rparr>\<rparr>) (\<lambda>r.
                if \<not> ok r then throw (Error ''Federation lookup failed'') else reads (\<lambda>_. json r))))))"

definition federation_lookup ::
  "'w federation_server option option \<Rightarrow> js_error \<Rightarrow> (lookup_body request \<Rightarrow> ('w, string option response) io)
     \<Rightarrow> (string \<Rightarrow> string res) \<Rightarrow> string \<Rightarrow> ('w, string) io" where
  "federation_lookup sdk unbound fetch URL_toString address =
     bnd (case sdk of None \<Rightarrow> throw unbound | Some (Some server) \<Rightarrow> fs_resolve server address
          | Some None \<Rightarrow> lookup_by_toml fetch URL_toString address) (\<lambda>publicKey.
       if \<not> truthy publicKey \<or> \<not> startsWith (the publicKey) ''G'' then throw (Error ''Invalid federation response'')
       else ret (the publicKey))"

definition resolveFederationAddress :: "string \<Rightarrow> screen \<Rightarrow> screen \<times> flight list" where
  "resolveFederationAddress address s =
     (if \<not> isFederatedAddress address then (s\<lparr>ts_federationStatus := Fed_idle, ts_federationError := None\<rparr>, [])
      else (s\<lparr>ts_federationStatus := Resolving, ts_federationError := None\<rparr>, [Federating address]))"

definition federation_answered :: "string res \<Rightarrow> screen \<Rightarrow> screen" where
  "federation_answered r s = (case r of
       Ret publicKey \<Rightarrow> s\<lparr>ts_recipient := publicKey, ts_federationStatus := Resolved, ts_usernameStatus := Registered\<rparr>
     | Throw e \<Rightarrow> s\<lparr>ts_federationStatus := Fed_error,
         ts_federationError := Some (message_or ''Failed to resolve federation address.'' e)\<rparr>)"

section \<open>Effects\<close>

text \<open>Run when the recipient or the type changes: both timers are restarted.\<close>

definition on_recipient :: "screen \<Rightarrow> screen" where
  "on_recipient s0 = (let s = s0\<lparr>ts_searchTimer := None, ts_federationTimer := None\<rparr> in
     if ts_type s \<noteq> ZAPS then s
     else s\<lparr>ts_usernameStatus := (if 2 \<le> length (ts_recipient s) then Idle else ts_usernameStatus s),
       ts_federationStatus := Fed_idle, ts_federationError := None,
       ts_federationTimer := (if isFederatedAddress (ts_recipient s) then Some (ts_recipient s) else None),
       ts_searchTimer := Some (ts_recipient s)\<rparr>)"

definition search_timer_fired :: "screen \<Rightarrow> screen \<times> flight list" where
  "search_timer_fired s = (case ts_searchTimer s of None \<Rightarrow> (s, [])
     | Some r \<Rightarrow> (let (s1, f1) = searchUsers r (s\<lparr>ts_searchTimer := None\<rparr>) in
         if 3 \<le> length r \<and> \<not> isFederatedAddress r then (let (s2, f2) = checkUsernameRegistry r s1 in (s2, f1 @ f2))
         else (s1\<lparr>ts_usernameStatus := Idle\<rparr>, f1)))"

definition federation_timer_fired :: "screen \<Rightarrow> screen \<times> flight list" where
  "federation_timer_fired s = (case ts_federationTimer s of None \<Rightarrow> (s, [])
     | Some r \<Rightarrow> resolveFederationAddress r (s\<lparr>ts_federationTimer := None\<rparr>))"

definition loadContacts :: "screen \<Rightarrow> screen \<times> flight list" where
  "loadContacts s = (if ts_contactsLoaded s \<or> ts_loadingContacts s then (s, [])
     else (s\<lparr>ts_loadingContacts := True\<rparr>, [Loading_contacts]))"

definition matches_request ::
  "(string \<Rightarrow> 'w \<Rightarrow> string option res) \<Rightarrow> (string option \<Rightarrow> ('w, MatchedContact list) io) \<Rightarrow> ('w, MatchedContact list) io" where
  "matches_request getA fetchMatched = bnd (reads (getA ''auth_token'')) fetchMatched"

definition contacts_answered :: "MatchedContact list res \<Rightarrow> screen \<Rightarrow> screen" where
  "contacts_answered r s = s\<lparr>ts_matchedContacts := (case r of Ret ms \<Rightarrow> ms | Throw _ \<Rightarrow> ts_matchedContacts s),
     ts_loadingContacts := False, ts_contactsLoaded := True\<rparr>"

definition on_step :: "screen \<Rightarrow> screen \<times> flight list" where
  "on_step s = (if ts_type s = ZAPS \<and> ts_step s = 1 then loadContacts s else (s, []))"

definition fee_request ::
  "('w, 'acc, 'asset, 'tx, 'kp) stellar \<Rightarrow> (string \<Rightarrow> ('w, TransactionFeeEstimate) io) \<Rightarrow> fee_inputs
     \<Rightarrow> ('w, TransactionFeeEstimate) io" where
  "fee_request S estimate i = bnd (buildPaymentEnvelope S (sw_publicKey (fi_wallet i)) (fi_recipient i) (fi_amount i)
       (Some (fi_symbol i)) (assetIssuer (fi_symbol i)) (if_truthy (Some (fi_description i)))) estimate"

definition fee_inputs_of :: "screen \<Rightarrow> fee_inputs option" where
  "fee_inputs_of s = (case ts_wallet s of None \<Rightarrow> None
     | Some w \<Rightarrow> if ts_step s \<noteq> 3 \<or> \<not> sw_isConnected w \<or> ts_recipient s = [] \<or> ts_amount s = [] then None
         else Some \<lparr>fi_wallet = w, fi_recipient = ts_recipient s, fi_amount = ts_amount s, fi_symbol = symbol_of s,
           fi_description = ts_description s\<rparr>)"

definition on_fee_inputs :: "screen \<Rightarrow> screen \<times> flight list" where
  "on_fee_inputs s = (case fee_inputs_of s of None \<Rightarrow> (s\<lparr>ts_fee := None\<rparr>, []) | Some i \<Rightarrow> (s, [Estimating i]))"

definition fee_answered :: "TransactionFeeEstimate res \<Rightarrow> screen \<Rightarrow> screen" where
  "fee_answered r s = s\<lparr>ts_fee := (case r of Ret e \<Rightarrow> Some e | Throw _ \<Rightarrow> None)\<rparr>"

definition fee_deps :: "screen \<Rightarrow> nat \<times> StellarWalletState option \<times> string \<times> string \<times> string \<times> string" where
  "fee_deps s = (ts_step s, ts_wallet s, ts_recipient s, ts_amount s, symbol_of s, ts_description s)"

text \<open>
  After a transition from \<open>old\<close>, the effects whose inputs changed run.  Unmounting the old fee effect
  makes its answer void, which is dropping its request.
\<close>

definition is_estimating :: "flight \<Rightarrow> bool" where
  "is_estimating f = (case f of Estimating _ \<Rightarrow> True | _ \<Rightarrow> False)"

definition commit :: "screen \<Rightarrow> screen \<times> flight list \<Rightarrow> screen \<times> flight list" where
  "commit old sf = (case sf of (s, fs) \<Rightarrow>
     let s1 = (if ts_recipient s \<noteq> ts_recipient old \<or> ts_type s \<noteq> ts_type old then on_recipient s else s);
         (s2, f2) = (if (ts_type s, ts_step s, ts_contactsLoaded s, ts_loadingContacts s)
             \<noteq> (ts_type old, ts_step old, ts_contactsLoaded old, ts_loadingContacts old) then on_step s1 else (s1, []));
         (s3, f3) = (if fee_deps s \<noteq> fee_deps old then on_fee_inputs s2 else (s2, []))
     in (s3, (if fee_deps s \<noteq> fee_deps old then filter (\<lambda>f. \<not> is_estimating f) fs else fs) @ f2 @ f3))"

section \<open>Handlers\<close>

definition editRecipient :: "string \<Rightarrow> screen \<Rightarrow> screen" where
  "editRecipient text s0 = (let s = s0\<lparr>ts_recipient := text, ts_selectedUser := None, ts_usernameStatus := Idle,
       ts_federationStatus := Fed_idle, ts_federationError := None\<rparr> in
     if ts_type s = ZAPS \<and> length text < 2 then s\<lparr>ts_showDropdown := False, ts_searchResults := []\<rparr> else s)"

definition handleSelectUser :: "ZapsUser \<Rightarrow> screen \<Rightarrow> screen" where
  "handleSelectUser user s = s\<lparr>ts_recipient := zu_username user, ts_selectedUser := Some user, ts_searchResults := [],
     ts_showDropdown := False, ts_usernameStatus := Registered\<rparr>"

definition contact_user :: "MatchedContact \<Rightarrow> ZapsUser" where
  "contact_user c = \<lparr>zu_username = mc_username c, zu_address = mc_address c, zu_avatar_url = mc_avatarUrl c, zu_isVerified = False\<rparr>"

definition handleSelectContact :: "MatchedContact \<Rightarrow> screen \<Rightarrow> screen" where
  "handleSelectContact contact s = handleSelectUser (contact_user contact) s"

definition select_recent :: "string \<Rightarrow> screen \<Rightarrow> screen \<times> flight list" where
  "select_recent username s = checkUsernameRegistry username (s\<lparr>ts_recipient := username, ts_showDropdown := False\<rparr>)"

text \<open>\<open>prev.slice(0, -1)\<close> or \<open>prev + value\<close>.\<close>

definition handleKeypadPress :: "string \<Rightarrow> screen \<Rightarrow> screen" where
  "handleKeypadPress value s = s\<lparr>ts_amount := (if value = ''backspace'' then butlast (ts_amount s) else ts_amount s @ value)\<rparr>"

definition handleConnectWallet ::
  "('w, 'acc, 'asset, 'tx, 'kp) stellar \<Rightarrow> (string \<Rightarrow> 'w \<Rightarrow> string option res) \<Rightarrow> (string \<Rightarrow> string \<Rightarrow> ('w, unit) io)
     \<Rightarrow> wallet_source \<Rightarrow> ('w, StellarWalletState option) io" where
  "handleConnectWallet S getA setA source = (case source of
       Freighter \<Rightarrow> bnd (checkFreighter S) (\<lambda>hasFreighter. if \<not> hasFreighter then ret None
         else bnd (connectFreighter S) (\<lambda>st. ret (Some st)))
     | Albedo \<Rightarrow> bnd (connectAlbedo S) (\<lambda>st. ret (Some st))
     | LocalKey \<Rightarrow> bnd (getLocalKeypair S getA) (\<lambda>existing. case existing of
           Some _ \<Rightarrow> bnd (connectLocalWallet S getA) (\<lambda>st. ret (Some st))
         | None \<Rightarrow> bnd (generateLocalKeypair S) (\<lambda>(pk, sec). bnd (saveLocalKeypair setA sec) (\<lambda>_.
             ret (Some \<lparr>sw_publicKey = pk, sw_isConnected = True, sw_source = Some LocalKey\<rparr>)))))"

definition wallet_answered :: "StellarWalletState option res \<Rightarrow> screen \<Rightarrow> screen" where
  "wallet_answered r s = (case r of
       Throw e \<Rightarrow> (alert ''Connection Failed'' (message_or ''undefined'' e) s)\<lparr>ts_connecting := False\<rparr>
     | Ret None \<Rightarrow> (alert ''Freighter Not Found'' ''Please install the Freighter wallet extension.'' s)\<lparr>ts_connecting := False\<rparr>
     | Ret (Some st) \<Rightarrow> s\<lparr>ts_wallet := Some st, ts_connecting := False\<rparr>)"

text \<open>The button of the footer.\<close>

definition wallet_connected :: "screen \<Rightarrow> bool" where
  "wallet_connected s = (case ts_wallet s of None \<Rightarrow> False | Some w \<Rightarrow> sw_isConnected w)"

definition next_enabled :: "screen \<Rightarrow> bool" where
  "next_enabled s \<longleftrightarrow> ts_type s \<noteq> BATCH \<and> ts_step s \<noteq> 4 \<and> ts_step s \<noteq> 5 \<and> \<not> ts_submitting s
     \<and> \<not> (ts_step s = 1 \<and> (ts_recipient s = [] \<or> ts_amount s = []
          \<or> (ts_type s = ZAPS \<and> 3 \<le> length (ts_recipient s) \<and> ts_usernameStatus s \<in> {Not_registered, Blacklisted})
          \<or> ts_federationStatus s \<in> {Resolving, Fed_error}))"

definition payment_of :: "screen \<Rightarrow> payment" where
  "payment_of s = \<lparr>py_recipient = ts_recipient s, py_amount = ts_amount s, py_description = ts_description s,
     py_visibility = ts_visibility s, py_symbol = symbol_of s, py_wallet = ts_wallet s\<rparr>"

definition handleNext :: "screen \<Rightarrow> screen \<times> flight list" where
  "handleNext s =
     (if ts_step s = 0 \<and> ts_type s = BATCH then (s\<lparr>ts_step := 1\<rparr>, [])
      else if ts_step s = 2 then (if \<not> wallet_connected s then (s\<lparr>ts_step := 5\<rparr>, []) else (s\<lparr>ts_step := 3\<rparr>, []))
      else if ts_step s = 3 then (s, [Prompting (payment_of s)])
      else if ts_step s = 4 then (s\<lparr>ts_routes := ts_routes s @ [''/(personal)/home'']\<rparr>, [])
      else (s\<lparr>ts_step := ts_step s + 1\<rparr>, []))"

definition prompt_answered :: "overlay_result \<Rightarrow> payment \<Rightarrow> screen \<Rightarrow> screen \<times> flight list" where
  "prompt_answered r p s = (case r of
       Verified \<Rightarrow> (s\<lparr>ts_submitting := True\<rparr>, [Paying p])
     | Not_verified Cancelled \<Rightarrow> (s, [])
     | Not_verified _ \<Rightarrow> (alert ''Authentication Required''
         ''You must verify your identity before sending a payment. Please try again.'' s, []))"

record transfer_entry =
  te_recipient :: string
  te_amount :: string
  te_description :: string
  te_visibility :: visibility
  te_token :: string
  te_hash :: string

definition transfer_entry_of :: "payment \<Rightarrow> string \<Rightarrow> transfer_entry" where
  "transfer_entry_of p hash = \<lparr>te_recipient = py_recipient p, te_amount = py_amount p,
     te_description = or_else (Some (py_description p)) ''Sent money'', te_visibility = py_visibility p,
     te_token = py_symbol p, te_hash = hash\<rparr>"

definition pending_list :: "transfer_entry list jtext option \<Rightarrow> transfer_entry list res" where
  "pending_list raw = (case raw of None \<Rightarrow> Ret [] | Some JEmpty \<Rightarrow> Ret []
     | Some t \<Rightarrow> (case JSON_parse t of Throw e \<Rightarrow> Throw e | Ret (Some l) \<Rightarrow> Ret l
         | Ret None \<Rightarrow> Throw (Error ''list.unshift is not a function'')))"

text \<open>
  What runs after the prompt: \<open>null_error\<close> is the error of reading a property of \<open>null\<close>; a wallet without
  source signs with the local key.
\<close>

definition perform_transfer ::
  "('w, 'acc, 'asset, 'tx, 'kp) stellar \<Rightarrow> (string \<Rightarrow> 'w \<Rightarrow> string option res)
     \<Rightarrow> (payment_record request \<Rightarrow> ('w, 'j response) io) \<Rightarrow> (js_num \<Rightarrow> ('w, unit) io) \<Rightarrow> (int \<Rightarrow> 'w \<Rightarrow> 'w) \<Rightarrow> string
     \<Rightarrow> (string \<Rightarrow> 'w \<Rightarrow> transfer_entry list jtext option res) \<Rightarrow> (string \<Rightarrow> transfer_entry list jtext \<Rightarrow> ('w, unit) io)
     \<Rightarrow> (string \<Rightarrow> 'w \<Rightarrow> recents option res) \<Rightarrow> (string \<Rightarrow> recents \<Rightarrow> ('w, unit) io) \<Rightarrow> js_error \<Rightarrow> payment \<Rightarrow> ('w, unit) io" where
  "perform_transfer S getA fetch sleep warn api_base getP setP getR setR null_error p = (case py_wallet p of
       None \<Rightarrow> throw null_error
     | Some wal \<Rightarrow>
       bnd (submitPayment S getA fetch sleep warn api_base (py_recipient p) (py_amount p)
           (case sw_source wal of Some src \<Rightarrow> src | None \<Rightarrow> LocalKey) (sw_publicKey wal) (Some (py_symbol p))
           (assetIssuer (py_symbol p)) (if_truthy (Some (py_description p)))) (\<lambda>result.
       bnd (reads (getP ''pending_transfers'')) (\<lambda>raw.
       bnd (reads (\<lambda>_. pending_list raw)) (\<lambda>list.
       bnd (setP ''pending_transfers'' (JSON_stringify (transfer_entry_of p (ps_hash result) # list))) (\<lambda>_.
         saveRecentRecipient getR setR (py_recipient p))))))"

definition payment_answered :: "unit res \<Rightarrow> screen \<Rightarrow> screen" where
  "payment_answered r s = (case r of
       Ret _ \<Rightarrow> s\<lparr>ts_submitting := False, ts_step := 4\<rparr>
     | Throw e \<Rightarrow> (alert ''Transfer Failed'' (message_or ''undefined'' e) s)\<lparr>ts_submitting := False\<rparr>)"

definition handleBack :: "screen \<Rightarrow> screen" where
  "handleBack s =
     (if ts_step s = 0 then s\<lparr>ts_routes := ts_routes s @ [''back'']\<rparr>
      else if ts_step s = 4 then s\<lparr>ts_routes := ts_routes s @ [''/(personal)/home'']\<rparr>
      else if ts_step s = 5 then s\<lparr>ts_step := 3\<rparr>
      else if ts_type s = BATCH \<and> ts_step s = 1 then s\<lparr>ts_type := ZAPS, ts_step := 0\<rparr>
      else s\<lparr>ts_step := ts_step s - 1\<rparr>)"

definition handleDisconnect :: "screen \<Rightarrow> screen" where
  "handleDisconnect s = s\<lparr>ts_wallet := None, ts_step := 3\<rparr>"

text \<open>The distribution list.\<close>

definition file_picked :: "string \<Rightarrow> screen \<Rightarrow> screen \<times> flight list" where
  "file_picked name s = (s\<lparr>ts_batchFile := Some name\<rparr>, [Reading_file name])"

definition file_read :: "string res \<Rightarrow> screen \<Rightarrow> screen" where
  "file_read r s = (case r of
       Ret content \<Rightarrow> (let (items, errors) = parseCSV content in s\<lparr>ts_batchItems := items, ts_batchErrors := errors\<rparr>)
     | Throw e \<Rightarrow> s\<lparr>ts_batchErrors := [message_or ''undefined'' e]\<rparr>)"

definition batch_enabled :: "screen \<Rightarrow> bool" where
  "batch_enabled s \<longleftrightarrow> ts_type s = BATCH \<and> ts_step s \<noteq> 4 \<and> \<not> (ts_step s = 1 \<and> ts_batchItems s = []) \<and> \<not> ts_uploading s"

definition batch_pressed :: "screen \<Rightarrow> screen \<times> flight list" where
  "batch_pressed s =
     (if ts_step s = 0 then (s\<lparr>ts_step := 1\<rparr>, [])
      else if ts_step s = 1 \<and> ts_batchItems s \<noteq> [] then (s\<lparr>ts_step := 2\<rparr>, [])
      else if ts_step s = 2 then (s\<lparr>ts_uploading := True\<rparr>, [Posting_batch (ts_batchItems s)])
      else (s, []))"

definition batch_answered :: "unit res \<Rightarrow> screen \<Rightarrow> screen" where
  "batch_answered r s = (case r of
       Ret _ \<Rightarrow> s\<lparr>ts_step := 4, ts_uploading := False\<rparr>
     | Throw e \<Rightarrow> (alert ''Upload Failed'' (message_or ''undefined'' e) s)\<lparr>ts_uploading := False\<rparr>)"

text \<open>The user on the confirmation card and the success screen.\<close>

definition displayUser :: "screen \<Rightarrow> ZapsUser" where
  "displayUser s = (case ts_selectedUser s of Some u \<Rightarrow> u
     | None \<Rightarrow> \<lparr>zu_username = ts_recipient s, zu_address = [], zu_avatar_url = None, zu_isVerified = False\<rparr>)"

section \<open>The screen as a transition system\<close>

text \<open>
  What a user can do is what the step on the screen offers.  The answer of a request names it by its
  position.  \<open>sy_submitted\<close> records, for the properties, the payments handed to \<open>submitPayment\<close>.
\<close>

datatype control =
    Choose transfer_type | Edit string | Select_user nat | Select_contact nat | Select_recent nat
  | Key string | Describe string | Set_visibility visibility | Set_token string
  | Press_next | Press_back | Connect wallet_source | Continue_wallet | Disconnect
  | Pick_file string | Press_batch
  | Search_timer | Federation_timer | Recents_loaded "string list" | Local_wallet string

datatype reply =
    Users "ZapsUser list response res" | Registry "registry_entry response res" | Address "string res"
  | Matches "MatchedContact list res" | Fee "TransactionFeeEstimate res" | Wallet "StellarWalletState option res"
  | Prompted overlay_result | Paid "unit res" | Content "string res" | Posted "unit res"

datatype event = Do control | Answer nat reply

record sys =
  sy_screen :: screen
  sy_flights :: "flight list"
  sy_submitted :: "payment list"

definition KEYS :: "string list" where
  "KEYS = [''1'', ''2'', ''3'', ''4'', ''5'', ''6'', ''7'', ''8'', ''9'', ''.'', ''0'', ''backspace'']"

text \<open>The step on which recipient, amount, note, visibility and token are entered.\<close>

definition on_form :: "screen \<Rightarrow> bool" where
  "on_form s \<longleftrightarrow> ts_step s = 1 \<and> ts_type s \<noteq> BATCH"

definition offers_recents :: "screen \<Rightarrow> bool" where
  "offers_recents s \<longleftrightarrow> on_form s \<and> ts_type s = ZAPS \<and> length (ts_recipient s) < 2 \<and> \<not> ts_showDropdown s"

text \<open>A press on a control, when it is there: the new screen and the requests it starts.\<close>

fun press :: "control \<Rightarrow> screen \<Rightarrow> (screen \<times> flight list) option" where
  "press (Choose t) s = (if ts_step s \<noteq> 0 then None
     else Some (if t = BATCH then s\<lparr>ts_type := BATCH, ts_step := 1\<rparr> else s\<lparr>ts_type := t\<rparr>, []))"
| "press (Edit text) s = (if on_form s then Some (editRecipient text s, []) else None)"
| "press (Select_user i) s = (if on_form s \<and> ts_type s = ZAPS \<and> ts_showDropdown s \<and> i < length (ts_searchResults s)
     then Some (handleSelectUser (ts_searchResults s ! i) s, []) else None)"
| "press (Select_contact i) s = (if offers_recents s \<and> i < 6 \<and> i < length (ts_matchedContacts s)
     then Some (handleSelectContact (ts_matchedContacts s ! i) s, []) else None)"
| "press (Select_recent i) s = (if offers_recents s \<and> i < length (ts_recentRecipients s)
     then Some (select_recent (ts_recentRecipients s ! i) s) else None)"
| "press (Key k) s = (if on_form s \<and> k \<in> set KEYS then Some (handleKeypadPress k s, []) else None)"
| "press (Describe d) s = (if on_form s \<and> length d \<le> 100 then Some (s\<lparr>ts_description := d\<rparr>, []) else None)"
| "press (Set_visibility v) s = (if on_form s then Some (s\<lparr>ts_visibility := v\<rparr>, []) else None)"
| "press (Set_token i) s = (if on_form s \<and> i \<in> tk_id ` set TOKENS then Some (s\<lparr>ts_selectedToken := i\<rparr>, []) else None)"
| "press Press_next s = (if next_enabled s then Some (handleNext s) else None)"
| "press Press_back s = (if ts_step s \<noteq> 4 then Some (handleBack s, []) else None)"
| "press (Connect w) s = (if ts_step s = 5 \<and> \<not> wallet_connected s \<and> \<not> ts_connecting s
     then Some (s\<lparr>ts_connecting := True\<rparr>, [Connecting w]) else None)"
| "press Continue_wallet s = (if ts_step s = 5 \<and> wallet_connected s \<and> \<not> ts_submitting s then Some (s\<lparr>ts_step := 3\<rparr>, []) else None)"
| "press Disconnect s = (if ts_step s = 5 \<and> wallet_connected s then Some (handleDisconnect s, []) else None)"
| "press (Pick_file name) s = (if ts_type s = BATCH \<and> ts_step s = 1 then Some (file_picked name s) else None)"
| "press Press_batch s = (if batch_enabled s then Some (batch_pressed s) else None)"
| "press Search_timer s = (if ts_searchTimer s = None then None else Some (search_timer_fired s))"
| "press Federation_timer s = (if ts_federationTimer s = None then None else Some (federation_timer_fired s))"
| "press (Recents_loaded l) s = Some (s\<lparr>ts_recentRecipients := l\<rparr>, [])"
| "press (Local_wallet k) s = Some (s\<lparr>ts_wallet := Some \<lparr>sw_publicKey = k, sw_isConnected = True, sw_source = Some LocalKey\<rparr>\<rparr>, [])"

text \<open>The answer of a request, if it is one of that request.\<close>

definition answer :: "reply \<Rightarrow> flight \<Rightarrow> screen \<Rightarrow> (screen \<times> flight list) option" where
  "answer r f s = (case f of
       Searching _ \<Rightarrow> (case r of Users a \<Rightarrow> Some (search_answered a s, []) | _ \<Rightarrow> None)
     | Checking_registry _ \<Rightarrow> (case r of Registry a \<Rightarrow> Some (registry_answered a s, []) | _ \<Rightarrow> None)
     | Federating _ \<Rightarrow> (case r of Address a \<Rightarrow> Some (federation_answered a s, []) | _ \<Rightarrow> None)
     | Loading_contacts \<Rightarrow> (case r of Matches a \<Rightarrow> Some (contacts_answered a s, []) | _ \<Rightarrow> None)
     | Estimating _ \<Rightarrow> (case r of Fee a \<Rightarrow> Some (fee_answered a s, []) | _ \<Rightarrow> None)
     | Connecting _ \<Rightarrow> (case r of Wallet a \<Rightarrow> Some (wallet_answered a s, []) | _ \<Rightarrow> None)
     | Prompting p \<Rightarrow> (case r of Prompted a \<Rightarrow> Some (prompt_answered a p s) | _ \<Rightarrow> None)
     | Paying _ \<Rightarrow> (case r of Paid a \<Rightarrow> Some (payment_answered a s, []) | _ \<Rightarrow> None)
     | Reading_file _ \<Rightarrow> (case r of Content a \<Rightarrow> Some (file_read a s, []) | _ \<Rightarrow> None)
     | Posting_batch _ \<Rightarrow> (case r of Posted a \<Rightarrow> Some (batch_answered a s, []) | _ \<Rightarrow> None))"

definition submitted_by :: "flight list \<Rightarrow> payment list" where
  "submitted_by fs = concat (map (\<lambda>f. case f of Paying p \<Rightarrow> if py_wallet p = None then [] else [p] | _ \<Rightarrow> []) fs)"

definition settle :: "sys \<Rightarrow> flight list \<Rightarrow> screen \<times> flight list \<Rightarrow> sys" where
  "settle y flights sn = (case sn of (s, new) \<Rightarrow> case commit (sy_screen y) (s, flights @ new) of (s', fs) \<Rightarrow>
     y\<lparr>sy_screen := s', sy_flights := fs, sy_submitted := sy_submitted y @ submitted_by new\<rparr>)"

fun handle :: "event \<Rightarrow> sys \<Rightarrow> sys option" where
  "handle (Do c) y = map_option (settle y (sy_flights y)) (press c (sy_screen y))"
| "handle (Answer n r) y = (if length (sy_flights y) \<le> n then None
     else map_option (settle y (take n (sy_flights y) @ drop (Suc n) (sy_flights y)))
       (answer r (sy_flights y ! n) (sy_screen y)))"

text \<open>Mounted: the debounce effect has armed its timer for the empty recipient.\<close>

definition mounted :: sys where
  "mounted = \<lparr>sy_screen = on_recipient initial_screen, sy_flights = [], sy_submitted = []\<rparr>"

text \<open>
  The answers a request can have: a federation lookup gives a key beginning with \<open>G\<close>, connecting gives a
  connected wallet with its source (\<open>federation_lookup_key\<close> and \<open>handleConnectWallet_connected\<close> below).
\<close>

fun plausible :: "event \<Rightarrow> bool" where
  "plausible (Answer _ (Address (Ret k))) \<longleftrightarrow> startsWith k ''G''"
| "plausible (Answer _ (Wallet (Ret (Some w)))) \<longleftrightarrow> sw_isConnected w \<and> sw_source w \<noteq> None"
| "plausible _ \<longleftrightarrow> True"

inductive reachable :: "sys \<Rightarrow> bool" where
  start: "reachable mounted"
| step: "reachable y \<Longrightarrow> plausible e \<Longrightarrow> handle e y = Some y' \<Longrightarrow> reachable y'"

fun run_events :: "event list \<Rightarrow> sys \<Rightarrow> sys option" where
  "run_events [] y = Some y"
| "run_events (e # es) y = (case handle e y of None \<Rightarrow> None | Some y' \<Rightarrow> run_events es y')"

lemma run_reachable: "reachable y \<Longrightarrow> list_all plausible es \<Longrightarrow> run_events es y = Some y' \<Longrightarrow> reachable y'"
  by (induction es arbitrary: y) (auto split: option.splits intro: reachable.step)

lemma federation_lookup_key:
  "federation_lookup sdk unbound fetch URL_toString address w = (Ret k, w') \<Longrightarrow> startsWith k ''G''"
  by (auto simp: federation_lookup_def bnd_apply split: if_splits prod.splits res.splits)

lemma handleConnectWallet_connected:
  "handleConnectWallet S getA setA source w = (Ret (Some st), w') \<Longrightarrow> sw_isConnected st \<and> sw_source st = Some source"
  by (cases source)
     (auto simp: handleConnectWallet_def connectFreighter_def connectAlbedo_def connectLocalWallet_def io_simps
       split: if_splits prod.splits res.splits option.splits)

end
