(* ===== verification/Transfer_Safety.thy ===== *)
theory Transfer_Safety
  imports Transfer_Screen
begin

text \<open>
  Properties of the transfer screen: what every reachable state of it guarantees about the payments and
  lists it submits, and the runs in which it does something else than what the user confirmed.
\<close>

section \<open>What the effects leave alone\<close>

definition form_of :: "screen \<Rightarrow> transfer_type \<times> nat \<times> string \<times> string \<times> string \<times> visibility \<times> string" where
  "form_of s = (ts_type s, ts_step s, ts_recipient s, ts_amount s, ts_description s, ts_visibility s, ts_selectedToken s)"

definition data_of :: "screen \<Rightarrow> StellarWalletState option \<times> bool \<times> ZapsUser option \<times> BatchPayoutItem list
    \<times> ZapsUser list \<times> MatchedContact list \<times> string list" where
  "data_of s = (ts_wallet s, ts_submitting s, ts_selectedUser s, ts_batchItems s, ts_searchResults s, ts_matchedContacts s,
     ts_recentRecipients s)"

definition core :: "screen \<Rightarrow> (transfer_type \<times> nat \<times> string \<times> string \<times> string \<times> visibility \<times> string) \<times>
    StellarWalletState option \<times> bool \<times> ZapsUser option \<times> BatchPayoutItem list \<times> ZapsUser list \<times> MatchedContact list
    \<times> string list" where
  "core s = (form_of s, data_of s)"

lemma core_eqD:
  assumes "core s = core t"
  shows "ts_type s = ts_type t" "ts_step s = ts_step t" "ts_recipient s = ts_recipient t" "ts_amount s = ts_amount t"
    "ts_description s = ts_description t" "ts_visibility s = ts_visibility t" "ts_selectedToken s = ts_selectedToken t"
    "ts_wallet s = ts_wallet t" "ts_submitting s = ts_submitting t" "ts_selectedUser s = ts_selectedUser t"
    "ts_batchItems s = ts_batchItems t" "ts_searchResults s = ts_searchResults t" "ts_matchedContacts s = ts_matchedContacts t"
    "ts_recentRecipients s = ts_recentRecipients t"
  using assms by (simp_all add: core_def form_of_def data_of_def)

lemma core_on_recipient [simp]: "core (on_recipient s) = core s"
  by (simp add: core_def form_of_def data_of_def on_recipient_def Let_def)

lemma core_on_step [simp]: "core (fst (on_step s)) = core s"
  by (simp add: core_def form_of_def data_of_def on_step_def loadContacts_def)

lemma core_on_fee_inputs [simp]: "core (fst (on_fee_inputs s)) = core s"
  by (simp add: core_def form_of_def data_of_def on_fee_inputs_def split: option.splits)

lemma fee_inputs_core:
  assumes "core s = core t"
  shows "fee_inputs_of s = fee_inputs_of t"
  unfolding fee_inputs_of_def symbol_of_def core_eqD[OF assms] ..

lemma fee_inputs_deps: "fee_deps s = fee_deps t \<Longrightarrow> fee_inputs_of s = fee_inputs_of t"
  unfolding fee_deps_def fee_inputs_of_def by (simp only: prod.inject)

lemma commit_eq: "commit old (s, fs) =
    (let s1 = (if ts_recipient s \<noteq> ts_recipient old \<or> ts_type s \<noteq> ts_type old then on_recipient s else s);
         p2 = (if (ts_type s, ts_step s, ts_contactsLoaded s, ts_loadingContacts s)
             \<noteq> (ts_type old, ts_step old, ts_contactsLoaded old, ts_loadingContacts old) then on_step s1 else (s1, []));
         p3 = (if fee_deps s \<noteq> fee_deps old then on_fee_inputs (fst p2) else (fst p2, []))
     in (fst p3, (if fee_deps s \<noteq> fee_deps old then filter (\<lambda>f. \<not> is_estimating f) fs else fs) @ snd p2 @ snd p3))"
  by (simp add: commit_def Let_def split: prod.splits)

lemma commit_core: "commit old (s, fs) = (s', fs') \<Longrightarrow> core s' = core s"
  by (auto simp: commit_eq Let_def)

lemma on_step_flights: "set (snd (on_step s)) \<subseteq> {Loading_contacts}"
  by (simp add: on_step_def loadContacts_def)

lemma commit_flights:
  assumes "commit old (s, fs) = (s', fs')" "f \<in> set fs'"
  shows "f \<in> set fs \<and> (is_estimating f \<longrightarrow> fee_deps s = fee_deps old) \<or> f = Loading_contacts
    \<or> (\<exists>i. f = Estimating i \<and> fee_inputs_of s = Some i)"
proof -
  let ?s1 = "if ts_recipient s \<noteq> ts_recipient old \<or> ts_type s \<noteq> ts_type old then on_recipient s else s"
  let ?p2 = "if (ts_type s, ts_step s, ts_contactsLoaded s, ts_loadingContacts s)
             \<noteq> (ts_type old, ts_step old, ts_contactsLoaded old, ts_loadingContacts old) then on_step ?s1 else (?s1, [])"
  have c: "core (fst ?p2) = core s" by simp
  have two: "set (snd ?p2) \<subseteq> {Loading_contacts}" using on_step_flights by simp
  have three: "set (snd (on_fee_inputs (fst ?p2))) \<subseteq> {f. \<exists>i. f = Estimating i \<and> fee_inputs_of s = Some i}"
    using fee_inputs_core[OF c] by (simp only: on_fee_inputs_def) (simp split: option.splits)
  have "fs' = (if fee_deps s \<noteq> fee_deps old then filter (\<lambda>f. \<not> is_estimating f) fs else fs) @ snd ?p2
      @ snd (if fee_deps s \<noteq> fee_deps old then on_fee_inputs (fst ?p2) else (fst ?p2, []))"
    using assms(1) by (simp only: commit_eq Let_def prod.inject)
  then show ?thesis using assms(2) two three by (cases "fee_deps s \<noteq> fee_deps old") auto
qed

lemma is_estimating_iff: "is_estimating f \<longleftrightarrow> (\<exists>i. f = Estimating i)"
  by (cases f) (simp_all add: is_estimating_def)

lemma commit_same: "commit s (s, fs) = (s, fs)"
  by (simp add: commit_eq)

section \<open>The invariant\<close>

definition payment_ready :: "payment \<Rightarrow> bool" where
  "payment_ready p \<longleftrightarrow> py_recipient p \<noteq> [] \<and> py_amount p \<noteq> []
     \<and> (py_symbol p = ''XLM'' \<or> assetIssuer (py_symbol p) \<noteq> None)
     \<and> (\<forall>w. py_wallet p = Some w \<longrightarrow> sw_isConnected w \<and> sw_source w \<noteq> None)"

definition ok_screen :: "screen \<Rightarrow> bool" where
  "ok_screen s \<longleftrightarrow> (ts_type s = BATCH \<longrightarrow> ts_step s \<in> {1, 2, 4})
     \<and> (ts_type s \<noteq> BATCH \<longrightarrow> ts_step s \<in> {2, 3, 5} \<longrightarrow> ts_recipient s \<noteq> [] \<and> ts_amount s \<noteq> [])
     \<and> ts_step s \<le> 5
     \<and> (\<forall>w. ts_wallet s = Some w \<longrightarrow> sw_isConnected w \<and> sw_source w \<noteq> None)
     \<and> list_all item_valid (ts_batchItems s) \<and> distinct (map bi_id (ts_batchItems s))"

definition ok_flight :: "screen \<Rightarrow> flight \<Rightarrow> bool" where
  "ok_flight s f \<longleftrightarrow> (case f of Prompting p \<Rightarrow> payment_ready p | Paying p \<Rightarrow> payment_ready p
     | Posting_batch its \<Rightarrow> list_all item_valid its \<and> distinct (map bi_id its)
     | Estimating i \<Rightarrow> fee_inputs_of s = Some i | _ \<Rightarrow> True)"

definition ok_sys :: "sys \<Rightarrow> bool" where
  "ok_sys y \<longleftrightarrow> ok_screen (sy_screen y) \<and> list_all (ok_flight (sy_screen y)) (sy_flights y)
     \<and> list_all (\<lambda>p. payment_ready p \<and> py_wallet p \<noteq> None) (sy_submitted y)"

lemma symbol_issuer: "symbol_of s = ''XLM'' \<or> assetIssuer (symbol_of s) \<noteq> None"
proof -
  have "token_of_id i \<in> set TOKENS" for i
    by (auto simp: token_of_id_def TOKENS_def)
  then have "symbol_of s \<in> tk_symbol ` set TOKENS" by (simp add: symbol_of_def)
  then show ?thesis by (auto simp: TOKENS_def assetIssuer_def STELLAR_ASSET_ISSUERS_def)
qed

lemma ok_screen_core:
  assumes "core s = core t" shows "ok_screen s = ok_screen t"
  unfolding ok_screen_def core_eqD[OF assms] ..

text \<open>Every press and every answer keeps the screen in order, and starts only requests that are.\<close>

named_theorems handlers

declare searchUsers_def [handlers] search_answered_def [handlers] checkUsernameRegistry_def [handlers]
  registry_answered_def [handlers] resolveFederationAddress_def [handlers] federation_answered_def [handlers]
  search_timer_fired_def [handlers] federation_timer_fired_def [handlers] contacts_answered_def [handlers]
  fee_answered_def [handlers] editRecipient_def [handlers] handleSelectUser_def [handlers] handleSelectContact_def [handlers]
  select_recent_def [handlers] handleKeypadPress_def [handlers] wallet_answered_def [handlers] handleNext_def [handlers]
  prompt_answered_def [handlers] payment_answered_def [handlers] handleBack_def [handlers] handleDisconnect_def [handlers]
  file_picked_def [handlers] file_read_def [handlers] batch_pressed_def [handlers] batch_answered_def [handlers]
  alert_def [handlers]

definition started_ok :: "flight list \<Rightarrow> bool" where
  "started_ok fs \<longleftrightarrow> list_all (\<lambda>f. \<not> is_estimating f \<and> (\<forall>s. ok_flight s f)) fs"

definition view :: "screen \<Rightarrow> transfer_type \<times> nat \<times> string \<times> string \<times> StellarWalletState option \<times> BatchPayoutItem list" where
  "view s = (ts_type s, ts_step s, ts_recipient s, ts_amount s, ts_wallet s, ts_batchItems s)"

lemma ok_screen_view: "view s' = view s \<Longrightarrow> ok_screen s' = ok_screen s"
  by (simp add: view_def ok_screen_def)

lemma view_kept [simp]:
  "view (fst (searchUsers q s)) = view s" "view (search_answered a s) = view s" "view (fst (checkUsernameRegistry u s)) = view s"
  "view (registry_answered b s) = view s" "view (fst (resolveFederationAddress u s)) = view s"
  "view (contacts_answered c s) = view s" "view (fee_answered d s) = view s" "view (alert t m s) = view s"
  by (simp_all add: view_def handlers Let_def split: res.splits)

lemma view_timers [simp]: "view (fst (search_timer_fired s)) = view s" "view (fst (federation_timer_fired s)) = view s"
  by (simp_all add: view_def search_timer_fired_def federation_timer_fired_def searchUsers_def checkUsernameRegistry_def
      resolveFederationAddress_def Let_def split: option.splits)

text \<open>What stays on the form keeps the screen in order, whatever is entered.\<close>

lemma ok_screen_form:
  assumes "ok_screen s" "on_form s" "ts_step s' = ts_step s" "ts_type s' = ts_type s" "ts_wallet s' = ts_wallet s"
    "ts_batchItems s' = ts_batchItems s"
  shows "ok_screen s'"
  using assms by (simp add: ok_screen_def on_form_def)

lemma handleNext_ok: "ok_screen s \<Longrightarrow> next_enabled s \<Longrightarrow> ok_screen (fst (handleNext s))"
  by (cases "ts_step s = 0"; cases "ts_step s = 1"; cases "ts_step s = 2"; cases "ts_step s = 3")
     (auto simp: handleNext_def ok_screen_def next_enabled_def)

lemma handleBack_ok: "ok_screen s \<Longrightarrow> ts_step s \<noteq> 4 \<Longrightarrow> ok_screen (handleBack s)"
  by (cases "ts_type s = BATCH"; cases "ts_step s = 0"; cases "ts_step s = 5"; cases "ts_step s = 3"; cases "ts_step s = 2"; cases "ts_step s = 1")
     (auto simp: handleBack_def ok_screen_def)

lemma press_ok:
  assumes p: "press c s = Some (s', new)" and ok: "ok_screen s"
  shows "ok_screen s'"
proof (cases c)
  case (Choose t)
  then have "ts_step s = 0" "s' = (if t = BATCH then s\<lparr>ts_type := BATCH, ts_step := 1\<rparr> else s\<lparr>ts_type := t\<rparr>)"
    using p by (simp_all split: if_splits)
  then show ?thesis using ok by (cases t) (simp_all add: ok_screen_def)
next
  case (Edit t)
  then have "on_form s" "s' = editRecipient t s"
    using p by (simp_all add: offers_recents_def split: if_splits)
  then show ?thesis by (intro ok_screen_form[OF ok]) (simp_all add: editRecipient_def Let_def)
next
  case (Select_user i)
  then have "on_form s" "s' = handleSelectUser (ts_searchResults s ! i) s"
    using p by (simp_all add: offers_recents_def split: if_splits)
  then show ?thesis by (intro ok_screen_form[OF ok]) (simp_all add: handleSelectUser_def)
next
  case (Select_contact i)
  then have "on_form s" "s' = handleSelectContact (ts_matchedContacts s ! i) s"
    using p by (simp_all add: offers_recents_def split: if_splits)
  then show ?thesis by (intro ok_screen_form[OF ok]) (simp_all add: handleSelectContact_def handleSelectUser_def)
next
  case (Select_recent i)
  then have "on_form s" "s' = fst (select_recent (ts_recentRecipients s ! i) s)"
    using p by (simp_all add: offers_recents_def split: if_splits)
  then show ?thesis by (intro ok_screen_form[OF ok]) (simp_all add: select_recent_def checkUsernameRegistry_def)
next
  case (Key k)
  then have "on_form s" "s' = handleKeypadPress k s"
    using p by (simp_all add: offers_recents_def split: if_splits)
  then show ?thesis by (intro ok_screen_form[OF ok]) (simp_all add: handleKeypadPress_def)
next
  case (Describe d)
  then have "on_form s" "s' = s\<lparr>ts_description := d\<rparr>"
    using p by (simp_all add: offers_recents_def split: if_splits)
  then show ?thesis by (intro ok_screen_form[OF ok]) (simp_all)
next
  case (Set_visibility v)
  then have "on_form s" "s' = s\<lparr>ts_visibility := v\<rparr>"
    using p by (simp_all add: offers_recents_def split: if_splits)
  then show ?thesis by (intro ok_screen_form[OF ok]) (simp_all)
next
  case (Set_token i)
  then have "on_form s" "s' = s\<lparr>ts_selectedToken := i\<rparr>"
    using p by (simp_all add: offers_recents_def split: if_splits)
  then show ?thesis by (intro ok_screen_form[OF ok]) (simp_all)
next
  case Press_next
  then have "next_enabled s" "handleNext s = (s', new)" using p by (simp_all split: if_splits)
  then show ?thesis using handleNext_ok[OF ok] by simp
next
  case Press_back
  then have "ts_step s \<noteq> 4" "s' = handleBack s" using p by (simp_all split: if_splits)
  then show ?thesis using handleBack_ok[OF ok] by simp
next
  case (Connect w)
  then have "s' = s\<lparr>ts_connecting := True\<rparr>" using p by (simp split: if_splits)
  then show ?thesis using ok by (simp add: ok_screen_def)
next
  case Continue_wallet
  then have "ts_step s = 5" "s' = s\<lparr>ts_step := 3\<rparr>" using p by (simp_all split: if_splits)
  then show ?thesis using ok by (simp add: ok_screen_def)
next
  case Disconnect
  then have "ts_step s = 5" "s' = handleDisconnect s" using p by (simp_all split: if_splits)
  then show ?thesis using ok by (simp add: ok_screen_def handleDisconnect_def)
next
  case (Pick_file n)
  then have "s' = s\<lparr>ts_batchFile := Some n\<rparr>" using p by (simp add: file_picked_def split: if_splits)
  then show ?thesis using ok by (simp add: ok_screen_def)
next
  case Press_batch
  then have "batch_enabled s" "batch_pressed s = (s', new)" using p by (simp_all split: if_splits)
  then show ?thesis using ok by (auto simp: batch_pressed_def batch_enabled_def ok_screen_def split: if_splits)
next
  case Search_timer
  then have "s' = fst (search_timer_fired s)" using p by (simp split: if_splits)
  then show ?thesis using ok ok_screen_view[OF view_timers(1), of s] by simp
next
  case Federation_timer
  then have "s' = fst (federation_timer_fired s)" using p by (simp split: if_splits)
  then show ?thesis using ok ok_screen_view[OF view_timers(2), of s] by simp
next
  case (Recents_loaded l)
  then have "s' = s\<lparr>ts_recentRecipients := l\<rparr>" using p by simp
  then show ?thesis using ok by (simp add: ok_screen_def)
next
  case (Local_wallet k)
  then have "s' = s\<lparr>ts_wallet := Some \<lparr>sw_publicKey = k, sw_isConnected = True, sw_source = Some LocalKey\<rparr>\<rparr>" using p by simp
  then show ?thesis using ok by (simp add: ok_screen_def)
qed

lemma started_simps [simp]: "started_ok []" "started_ok (f # fs) \<longleftrightarrow> \<not> is_estimating f \<and> (\<forall>s. ok_flight s f) \<and> started_ok fs"
  "started_ok (fs @ gs) \<longleftrightarrow> started_ok fs \<and> started_ok gs"
  by (simp_all add: started_ok_def)

lemma started_search [simp]: "started_ok (snd (searchUsers q s))" "started_ok (snd (checkUsernameRegistry u s))"
  "started_ok (snd (resolveFederationAddress u s))"
  by (simp_all add: handlers Let_def ok_flight_def is_estimating_def)

lemma payment_of_ready:
  assumes "ok_screen s" "next_enabled s" "ts_step s = 3"
  shows "payment_ready (payment_of s)"
  using assms symbol_issuer[of s] by (auto simp: ok_screen_def next_enabled_def payment_of_def payment_ready_def)

lemma press_started:
  assumes p: "press c s = Some (s', new)" and ok: "ok_screen s"
  shows "started_ok new"
proof (cases c)
  case Press_next
  then show ?thesis using p payment_of_ready[OF ok]
    by (auto simp: handleNext_def is_estimating_def ok_flight_def split: if_splits)
next
  case Press_batch
  then show ?thesis using p ok
    by (auto simp: batch_pressed_def is_estimating_def ok_flight_def ok_screen_def split: if_splits)
next
  case Search_timer
  then show ?thesis using p by (auto simp: search_timer_fired_def Let_def split: if_splits option.splits prod.splits) 
     (metis snd_conv started_search(1,2))+
next
  case Federation_timer
  then show ?thesis using p
    by (auto simp: federation_timer_fired_def split: if_splits option.splits) (metis snd_conv started_search(3))
next
  case (Select_recent i)
  then show ?thesis using p by (auto simp: select_recent_def split: if_splits) (metis snd_conv started_search(2))
qed (use p in \<open>auto simp: is_estimating_def ok_flight_def file_picked_def split: if_splits\<close>)

lemma parseCSV_ok: "parseCSV t = (items, errors) \<Longrightarrow> list_all item_valid items \<and> distinct (map bi_id items)"
  using batch_items_parsed by blast

lemma prompt_ok: "ok_screen s \<Longrightarrow> ok_screen (fst (prompt_answered r p s))"
  by (cases r) (auto simp: prompt_answered_def ok_screen_def alert_def split: overlay_failure.splits)

lemma answer_ok:
  assumes a: "answer r f s = Some (s', new)" and ok: "ok_screen s" and pl: "plausible (Answer n r)" and f: "ok_flight s f"
  shows "ok_screen s'"
proof (cases f)
  case (Searching q)
  then show ?thesis using a ok ok_screen_view[OF view_kept(2)] by (auto simp: answer_def split: reply.splits)
next
  case (Checking_registry u)
  then show ?thesis using a ok ok_screen_view[OF view_kept(4)] by (auto simp: answer_def split: reply.splits)
next
  case (Federating u)
  then obtain x where x: "r = Address x" "s' = federation_answered x s" using a by (auto simp: answer_def split: reply.splits)
  show ?thesis
  proof (cases x)
    case (Ret k)
    then have "k \<noteq> []" using pl x by (auto simp: startsWith_def)
    then show ?thesis using ok x Ret by (auto simp: federation_answered_def ok_screen_def)
  qed (use ok x in \<open>auto simp: federation_answered_def ok_screen_def\<close>)
next
  case Loading_contacts
  then show ?thesis using a ok ok_screen_view[OF view_kept(6)] by (auto simp: answer_def split: reply.splits)
next
  case (Estimating i)
  then show ?thesis using a ok ok_screen_view[OF view_kept(7)] by (auto simp: answer_def split: reply.splits)
next
  case (Connecting w)
  then obtain x where x: "r = Wallet x" "s' = wallet_answered x s" using a by (auto simp: answer_def split: reply.splits)
  show ?thesis
  proof (cases x)
    case (Ret o')
    then show ?thesis using ok x pl by (cases o') (auto simp: wallet_answered_def ok_screen_def alert_def)
  qed (use ok x in \<open>auto simp: wallet_answered_def ok_screen_def alert_def\<close>)
next
  case (Prompting p)
  then obtain x where "prompt_answered x p s = (s', new)" using a by (auto simp: answer_def split: reply.splits)
  then show ?thesis using prompt_ok[OF ok, of x p] by simp
next
  case (Paying p)
  then obtain x where "s' = payment_answered x s" using a by (auto simp: answer_def split: reply.splits)
  then show ?thesis using ok by (cases x) (auto simp: payment_answered_def ok_screen_def alert_def)
next
  case (Reading_file p)
  then obtain x where x: "r = Content x" "s' = file_read x s" using a by (auto simp: answer_def split: reply.splits)
  show ?thesis
  proof (cases x)
    case (Ret t)
    obtain items errors where "parseCSV t = (items, errors)" by fastforce
    with parseCSV_ok[OF this] show ?thesis using ok x Ret by (simp add: file_read_def ok_screen_def)
  qed (use ok x in \<open>simp add: file_read_def ok_screen_def\<close>)
next
  case (Posting_batch its)
  then obtain x where "s' = batch_answered x s" using a by (auto simp: answer_def split: reply.splits)
  then show ?thesis using ok by (cases x) (auto simp: batch_answered_def ok_screen_def alert_def)
qed

lemma answer_starts:
  assumes "answer r f s = Some (s', new)"
  obtains "new = []" | p where "f = Prompting p" "new = [Paying p]" "r = Prompted Verified"
proof (cases f)
  case (Prompting p)
  then obtain x where x: "r = Prompted x" "prompt_answered x p s = (s', new)" using assms by (cases r) (simp_all add: answer_def)
  show thesis
  proof (cases x)
    case Verified
    then show thesis using that(2) x Prompting by (simp add: prompt_answered_def)
  next
    case (Not_verified q)
    then show thesis using that(1) x by (cases q) (simp_all add: prompt_answered_def)
  qed
qed (use assms that(1) in \<open>cases r; simp add: answer_def\<close>)+

lemma answer_started:
  assumes a: "answer r f s = Some (s', new)" and f: "ok_flight s f"
  shows "started_ok new \<and> list_all (\<lambda>p. payment_ready p \<and> py_wallet p \<noteq> None) (submitted_by new)"
  by (rule answer_starts[OF a]) (use f in \<open>simp_all add: ok_flight_def is_estimating_def submitted_by_def\<close>)

lemma settle_ok:
  assumes y: "ok_sys y" and s: "ok_screen s" and new: "started_ok new"
    and fl: "set fl \<subseteq> set (sy_flights y)" and sub: "list_all (\<lambda>p. payment_ready p \<and> py_wallet p \<noteq> None) (submitted_by new)"
  shows "ok_sys (settle y fl (s, new))"
proof -
  obtain s' fs' where c: "commit (sy_screen y) (s, fl @ new) = (s', fs')" by fastforce
  note core = commit_core[OF c]
  have "ok_flight s' f" if f: "f \<in> set fs'" for f
  proof (cases "is_estimating f")
    case True
    then obtain i where i: "f = Estimating i" by (cases f) (simp_all add: is_estimating_def)
    have "fee_inputs_of s = Some i"
    proof (cases "f \<in> set (fl @ new) \<and> fee_deps s = fee_deps (sy_screen y)")
      case True
      then have "f \<in> set (sy_flights y)" using new fl i by (auto simp: started_ok_def list_all_iff is_estimating_def)
      then have "fee_inputs_of (sy_screen y) = Some i" using y i by (auto simp: ok_sys_def list_all_iff ok_flight_def)
      then show ?thesis using True fee_inputs_deps by metis
    next
      case False
      then show ?thesis using commit_flights[OF c f] \<open>is_estimating f\<close> i by auto
    qed
    then show ?thesis using fee_inputs_core[OF core] by (simp add: i ok_flight_def)
  next
    case False
    then have "f \<in> set (sy_flights y) \<or> f \<in> set new \<or> f = Loading_contacts"
      using commit_flights[OF c f] fl by (auto simp: is_estimating_def)
    moreover have "ok_flight s' f" if "ok_flight t f" for t
      using that False by (cases f) (simp_all add: ok_flight_def is_estimating_def)
    ultimately show ?thesis using y new by (auto simp: ok_sys_def list_all_iff started_ok_def) (simp add: ok_flight_def)
  qed
  then show ?thesis using y sub ok_screen_core[OF core] s
    by (auto simp: settle_def c ok_sys_def list_all_iff)
qed

lemma handle_cases:
  assumes "handle e y = Some y'"
  obtains (press) c s new where "e = Do c" "press c (sy_screen y) = Some (s, new)" "y' = settle y (sy_flights y) (s, new)"
  | (reply) n r s new where "e = Answer n r" "n < length (sy_flights y)" "answer r (sy_flights y ! n) (sy_screen y) = Some (s, new)"
      "y' = settle y (take n (sy_flights y) @ drop (Suc n) (sy_flights y)) (s, new)"
  using assms by (cases e) (auto split: if_splits)

lemma press_submits_none: "press c s = Some (s', new) \<Longrightarrow> submitted_by new = []"
  by (cases c) (auto simp: handlers submitted_by_def Let_def split: if_splits option.splits)

lemma without_flight: "set (take n fl @ drop (Suc n) fl) \<subseteq> set fl"
  using set_take_subset[of n fl] set_drop_subset[of "Suc n" fl] by auto

lemma handle_ok:
  assumes "ok_sys y" "plausible e" "handle e y = Some y'"
  shows "ok_sys y'"
  using assms(3)
proof (cases rule: handle_cases)
  case (press c s new)
  have "ok_screen (sy_screen y)" using assms(1) by (simp add: ok_sys_def)
  then show ?thesis using press settle_ok[OF assms(1)] press_ok press_started press_submits_none by simp
next
  case (reply n r s new)
  have "ok_screen (sy_screen y)" "ok_flight (sy_screen y) (sy_flights y ! n)"
    using assms(1) reply(2) by (simp_all add: ok_sys_def list_all_length)
  then have "ok_screen s" "started_ok new" "list_all (\<lambda>p. payment_ready p \<and> py_wallet p \<noteq> None) (submitted_by new)"
    using answer_ok[OF reply(3), of n] answer_started[OF reply(3)] assms(2) reply(1) by auto
  then show ?thesis unfolding reply(4) by (rule settle_ok[OF assms(1) _ _ without_flight])
qed

lemma mounted_ok: "ok_sys mounted"
  by (simp add: mounted_def ok_sys_def ok_screen_def on_recipient_def initial_screen_def isFederatedAddress_def)

lemma reachable_ok: "reachable y \<Longrightarrow> ok_sys y"
  by (induction rule: reachable.induct) (auto intro: mounted_ok handle_ok)

section \<open>What is submitted\<close>

definition verified :: "event \<Rightarrow> bool" where
  "verified e \<longleftrightarrow> (case e of Answer _ (Prompted Verified) \<Rightarrow> True | _ \<Rightarrow> False)"

lemma handle_submits:
  assumes "handle e y = Some y'"
  shows "length (sy_submitted y') \<le> length (sy_submitted y) + (if verified e then 1 else 0)"
  using assms
proof (cases rule: handle_cases)
  case (press c s new)
  then show ?thesis using press_submits_none by (simp add: settle_def split: prod.splits)
next
  case (reply n r s new)
  from reply(3) show ?thesis
  proof (rule answer_starts)
    assume "new = []"
    then show ?thesis using reply by (simp add: settle_def submitted_by_def split: prod.splits)
  next
    fix p assume "new = [Paying p]" "r = Prompted Verified"
    then show ?thesis using reply by (simp add: settle_def submitted_by_def verified_def split: prod.splits)
  qed
qed

lemma run_submits: "run_events es y = Some y' \<Longrightarrow> length (sy_submitted y') \<le> length (sy_submitted y) + length (filter verified es)"
proof (induction es arbitrary: y)
  case (Cons e es)
  then obtain y1 where "handle e y = Some y1" "run_events es y1 = Some y'" by (auto split: option.splits)
  with handle_submits[of e y y1] Cons.IH[of y1] show ?case by auto
qed simp

text \<open>
  C2: Whatever the user does and in whatever order the answers arrive: a payment that is submitted has a
  recipient and an amount, is signed by a connected wallet, names the issuer of its asset unless it
  is native, and there are no more payments than prompts the user passed.
\<close>

theorem transfer_submission_gate:
  assumes "run_events es mounted = Some y" "list_all plausible es"
  shows "(\<forall>p \<in> set (sy_submitted y). py_recipient p \<noteq> [] \<and> py_amount p \<noteq> []
      \<and> (py_symbol p = ''XLM'' \<or> assetIssuer (py_symbol p) \<noteq> None)
      \<and> (\<exists>w. py_wallet p = Some w \<and> sw_isConnected w \<and> sw_source w \<noteq> None))
    \<and> length (sy_submitted y) \<le> length (filter verified es)"
proof -
  have "ok_sys y" by (rule reachable_ok[OF run_reachable[OF reachable.start assms(2,1)]])
  then show ?thesis using run_submits[OF assms(1)]
    by (auto simp: ok_sys_def list_all_iff payment_ready_def mounted_def)
qed

definition to_confirmation :: "event list" where
  "to_confirmation = [Do Press_next, Do (Edit ''GDEST''), Do (Key ''5''), Do (Local_wallet ''GME''), Do Press_next, Do Press_next]"

definition send_run :: "event list" where
  "send_run = to_confirmation @ [Do Press_next, Answer 2 (Prompted Verified)]"

lemma send_run_submits: "map_option (\<lambda>y. map py_recipient (sy_submitted y)) (run_events send_run mounted) = Some [''GDEST'']"
  by code_simp

theorem transfer_submission_gate_witness:
  "\<exists>y p. run_events send_run mounted = Some y \<and> sy_submitted y = [p] \<and> py_recipient p = ''GDEST'' \<and> py_amount p \<noteq> []
     \<and> length (sy_submitted y) \<le> length (filter verified send_run)"
proof -
  obtain y where y: "run_events send_run mounted = Some y" "map py_recipient (sy_submitted y) = [''GDEST'']"
    using send_run_submits by auto
  then obtain p where p: "sy_submitted y = [p]" "py_recipient p = ''GDEST''" by auto
  have "list_all plausible send_run" by (simp add: send_run_def to_confirmation_def)
  from transfer_submission_gate[OF y(1) this] y p show ?thesis by auto
qed

text \<open>
  The estimate on its way is for what is on the confirmation: changing any of its inputs discards it.
\<close>

theorem fee_estimate_current:
  assumes "run_events es mounted = Some y" "list_all plausible es"
  shows "\<forall>i. Estimating i \<in> set (sy_flights y) \<longrightarrow> fee_inputs_of (sy_screen y) = Some i"
proof -
  have "ok_sys y" by (rule reachable_ok[OF run_reachable[OF reachable.start assms(2,1)]])
  then show ?thesis by (force simp: ok_sys_def list_all_iff ok_flight_def)
qed

theorem fee_estimate_current_witness:
  "\<exists>y i. run_events to_confirmation mounted = Some y \<and> Estimating i \<in> set (sy_flights y) \<and> fee_inputs_of (sy_screen y) = Some i"
proof -
  have "map_option (\<lambda>y. list_ex is_estimating (sy_flights y)) (run_events to_confirmation mounted) = Some True" by code_simp
  then obtain y where y: "run_events to_confirmation mounted = Some y" "list_ex is_estimating (sy_flights y)" by auto
  then obtain i where i: "Estimating i \<in> set (sy_flights y)" by (auto simp: list_ex_iff is_estimating_iff)
  have "list_all plausible to_confirmation" by (simp add: to_confirmation_def)
  from fee_estimate_current[OF y(1) this] y i show ?thesis by blast
qed

text \<open>A distribution list is posted only with items that passed validation, each under its own identifier.\<close>

theorem posted_batch_valid:
  assumes "run_events es mounted = Some y" "list_all plausible es" "Posting_batch its \<in> set (sy_flights y)"
  shows "list_all item_valid its \<and> distinct (map bi_id its)"
proof -
  have "ok_sys y" by (rule reachable_ok[OF run_reachable[OF reachable.start assms(2,1)]])
  then show ?thesis using assms(3) by (force simp: ok_sys_def list_all_iff ok_flight_def)
qed

section \<open>The confirmation names the recipient\<close>

text \<open>
  Usernames have at least two characters, and no federation lookup succeeds, which is the case since
  \<open>StellarSdk\<close> is not bound (\<open>federation_refused\<close> below).
\<close>

fun named :: "event \<Rightarrow> bool" where
  "named (Answer _ (Users (Ret r))) \<longleftrightarrow> (case json r of Ret us \<Rightarrow> list_all (\<lambda>u. 2 \<le> length (zu_username u)) us | Throw _ \<Rightarrow> True)"
| "named (Answer _ (Matches (Ret ms))) \<longleftrightarrow> list_all (\<lambda>m. 2 \<le> length (mc_username m)) ms"
| "named (Answer _ (Address (Ret _))) \<longleftrightarrow> False"
| "named _ \<longleftrightarrow> True"

definition names_ok :: "screen \<Rightarrow> bool" where
  "names_ok s \<longleftrightarrow> (\<forall>u. ts_selectedUser s = Some u \<longrightarrow> zu_username u = ts_recipient s \<and> 2 \<le> length (ts_recipient s))
     \<and> list_all (\<lambda>u. 2 \<le> length (zu_username u)) (ts_searchResults s)
     \<and> list_all (\<lambda>m. 2 \<le> length (mc_username m)) (ts_matchedContacts s)"

lemma names_ok_core:
  assumes "core s = core t" shows "names_ok s = names_ok t"
  unfolding names_ok_def core_eqD[OF assms] ..

definition names_view :: "screen \<Rightarrow> ZapsUser option \<times> string \<times> ZapsUser list \<times> MatchedContact list" where
  "names_view s = (ts_selectedUser s, ts_recipient s, ts_searchResults s, ts_matchedContacts s)"

lemma names_ok_view: "names_view s' = names_view s \<Longrightarrow> names_ok s' = names_ok s"
  by (simp add: names_view_def names_ok_def)

lemma names_searchUsers: "names_ok s \<Longrightarrow> names_ok (fst (searchUsers q s))"
  by (simp add: searchUsers_def names_ok_def Let_def)

lemma names_check: "names_ok (fst (checkUsernameRegistry u s)) = names_ok s"
  by (simp add: checkUsernameRegistry_def names_ok_def)

lemma names_press:
  assumes p: "press c s = Some (s', new)" and ok: "names_ok s"
  shows "names_ok s'"
proof (cases c)
  case (Edit t)
  then have "s' = editRecipient t s" using p by (simp split: if_splits)
  then show ?thesis using ok by (simp add: editRecipient_def names_ok_def Let_def)
next
  case (Select_user i)
  then have "i < length (ts_searchResults s)" "s' = handleSelectUser (ts_searchResults s ! i) s" using p by (simp_all split: if_splits)
  then show ?thesis using ok by (simp add: handleSelectUser_def names_ok_def list_all_length)
next
  case (Select_contact i)
  then have "i < length (ts_matchedContacts s)" "s' = handleSelectContact (ts_matchedContacts s ! i) s"
    using p by (simp_all split: if_splits)
  then show ?thesis using ok by (simp add: handleSelectContact_def handleSelectUser_def contact_user_def names_ok_def list_all_length)
next
  case (Select_recent i)
  then have o': "offers_recents s" and s': "s' = fst (select_recent (ts_recentRecipients s ! i) s)" using p by (simp_all split: if_splits)
  have "ts_selectedUser s = None" using o' ok by (cases "ts_selectedUser s") (auto simp: offers_recents_def names_ok_def)
  then show ?thesis using ok by (simp add: s' select_recent_def checkUsernameRegistry_def names_ok_def)
next
  case Search_timer
  then have s': "s' = fst (search_timer_fired s)" using p by (simp split: if_splits)
  have n: "names_ok (s\<lparr>ts_searchTimer := None\<rparr>)" using ok by (simp add: names_ok_def)
  have i: "names_ok t \<Longrightarrow> names_ok (t\<lparr>ts_usernameStatus := Idle\<rparr>)" for t by (simp add: names_ok_def)
  show ?thesis
  proof (cases "ts_searchTimer s")
    case (Some r)
    obtain s1 f1 where s1: "searchUsers r (s\<lparr>ts_searchTimer := None\<rparr>) = (s1, f1)" by fastforce
    then have "names_ok s1" using names_searchUsers[OF n, of r] by simp
    then show ?thesis using i names_check[of r s1]
      by (auto simp: s' search_timer_fired_def Some s1 split: prod.splits)
  qed (use ok in \<open>simp add: s' search_timer_fired_def\<close>)
next
  case (Choose t)
  then have "s' = (if t = BATCH then s\<lparr>ts_type := BATCH, ts_step := 1\<rparr> else s\<lparr>ts_type := t\<rparr>)" using p by (simp split: if_splits)
  then show ?thesis using ok by (simp add: names_ok_def)
next
  case (Key k)
  then have "s' = handleKeypadPress k s" using p by (simp split: if_splits)
  then show ?thesis using ok by (simp add: names_ok_def handleKeypadPress_def)
next
  case Press_next
  then have "s' = fst (handleNext s)" using p by (simp split: if_splits)
  then show ?thesis using ok by (simp add: names_ok_def handleNext_def)
next
  case Press_back
  then have "s' = handleBack s" using p by (simp split: if_splits)
  then show ?thesis using ok by (simp add: names_ok_def handleBack_def)
next
  case Disconnect
  then have "s' = handleDisconnect s" using p by (simp split: if_splits)
  then show ?thesis using ok by (simp add: names_ok_def handleDisconnect_def)
next
  case (Pick_file f)
  then have "s' = fst (file_picked f s)" using p by (simp split: if_splits)
  then show ?thesis using ok by (simp add: names_ok_def file_picked_def)
next
  case Press_batch
  then have "s' = fst (batch_pressed s)" using p by (simp split: if_splits)
  then show ?thesis using ok by (simp add: names_ok_def batch_pressed_def)
next
  case Federation_timer
  then have "s' = fst (federation_timer_fired s)" using p by (simp split: if_splits)
  then show ?thesis using ok
    by (simp add: names_ok_def federation_timer_fired_def resolveFederationAddress_def split: option.splits)
qed (use p ok in \<open>auto simp: names_ok_def split: if_splits\<close>)

lemma names_view_prompt: "names_view (fst (prompt_answered r p s)) = names_view s"
  by (cases r) (auto simp: prompt_answered_def alert_def names_view_def split: overlay_failure.splits)

lemma names_answer:
  assumes a: "answer r f s = Some (s', new)" and ok: "names_ok s" and n: "named (Answer k r)"
  shows "names_ok s'"
proof (cases f)
  case (Searching q)
  then obtain x where x: "r = Users x" "s' = search_answered x s" using a by (cases r) (auto simp: answer_def)
  show ?thesis
  proof (cases x)
    case (Ret v)
    then show ?thesis using ok n x by (cases "json v") (simp_all add: search_answered_def names_ok_def Let_def)
  qed (use ok x in \<open>simp add: search_answered_def names_ok_def\<close>)
next
  case (Checking_registry u)
  then obtain x where "s' = registry_answered x s" using a by (cases r) (auto simp: answer_def)
  then show ?thesis using ok by (simp add: registry_answered_def names_ok_def)
next
  case (Federating u)
  then obtain x where x: "r = Address x" "s' = federation_answered x s" using a by (cases r) (auto simp: answer_def)
  then show ?thesis using ok n by (cases x) (simp_all add: federation_answered_def names_ok_def)
next
  case Loading_contacts
  then obtain x where x: "r = Matches x" "s' = contacts_answered x s" using a by (cases r) (auto simp: answer_def)
  then show ?thesis using ok n by (cases x) (simp_all add: contacts_answered_def names_ok_def)
next
  case (Estimating i)
  then obtain x where "s' = fee_answered x s" using a by (cases r) (auto simp: answer_def)
  then show ?thesis using ok by (simp add: fee_answered_def names_ok_def)
next
  case (Connecting w)
  then obtain x where "s' = wallet_answered x s" using a by (cases r) (auto simp: answer_def)
  then show ?thesis using ok by (simp add: wallet_answered_def names_ok_def alert_def split: res.splits option.splits)
next
  case (Prompting p)
  then obtain x where x: "prompt_answered x p s = (s', new)" using a by (cases r) (auto simp: answer_def)
  have "names_ok (fst (prompt_answered x p s)) = names_ok s" by (rule names_ok_view[OF names_view_prompt])
  then show ?thesis using ok x by simp
next
  case (Paying p)
  then obtain x where "s' = payment_answered x s" using a by (cases r) (auto simp: answer_def)
  then show ?thesis using ok by (simp add: payment_answered_def names_ok_def alert_def split: res.splits)
next
  case (Reading_file p)
  then obtain x where "s' = file_read x s" using a by (cases r) (auto simp: answer_def)
  then show ?thesis using ok by (simp add: file_read_def names_ok_def split: res.splits prod.splits)
next
  case (Posting_batch its)
  then obtain x where "s' = batch_answered x s" using a by (cases r) (auto simp: answer_def)
  then show ?thesis using ok by (simp add: batch_answered_def names_ok_def alert_def split: res.splits)
qed

lemma names_settle: "names_ok s \<Longrightarrow> names_ok (sy_screen (settle y fl (s, new)))"
proof -
  assume s: "names_ok s"
  obtain s' fs where c: "commit (sy_screen y) (s, fl @ new) = (s', fs)" by fastforce
  then have "names_ok s'" using s names_ok_core[OF commit_core[OF c]] by simp
  then show ?thesis by (simp add: settle_def c)
qed

lemma names_handle: "handle e y = Some y' \<Longrightarrow> named e \<Longrightarrow> names_ok (sy_screen y) \<Longrightarrow> names_ok (sy_screen y')"
  by (erule handle_cases) (auto intro!: names_settle intro: names_press names_answer)

lemma names_run: "run_events es y = Some y' \<Longrightarrow> list_all named es \<Longrightarrow> names_ok (sy_screen y) \<Longrightarrow> names_ok (sy_screen y')"
proof (induction es arbitrary: y)
  case (Cons e es)
  then obtain y1 where "handle e y = Some y1" "run_events es y1 = Some y'" by (auto split: option.splits)
  with names_handle[of e y y1] Cons show ?case by auto
qed simp

text \<open>
  The confirmation card names the user who is paid: the username it shows is the recipient of the payment
  that pressing Send submits.
\<close>

theorem confirmation_names_recipient:
  assumes "run_events es mounted = Some y" "list_all named es"
  shows "zu_username (displayUser (sy_screen y)) = py_recipient (payment_of (sy_screen y))"
proof -
  have "names_ok (sy_screen mounted)"
    by (simp add: mounted_def on_recipient_def initial_screen_def names_ok_def isFederatedAddress_def)
  then have "names_ok (sy_screen y)" by (rule names_run[OF assms])
  then show ?thesis by (auto simp: names_ok_def displayUser_def payment_of_def split: option.splits)
qed

theorem confirmation_names_recipient_witness:
  "\<exists>y. run_events to_confirmation mounted = Some y
     \<and> zu_username (displayUser (sy_screen y)) = py_recipient (payment_of (sy_screen y)) \<and> ts_step (sy_screen y) = 3"
proof -
  have "map_option (\<lambda>y. ts_step (sy_screen y)) (run_events to_confirmation mounted) = Some 3" by code_simp
  then obtain y where y: "run_events to_confirmation mounted = Some y" "ts_step (sy_screen y) = 3" by auto
  have "list_all named to_confirmation" by (simp add: to_confirmation_def)
  from confirmation_names_recipient[OF y(1) this] y show ?thesis by blast
qed

end
