(* ===== verification/Transfer_Runs.thy ===== *)
theory Transfer_Runs
  imports Transfer_Safety
begin

text \<open>
  Runs of the transfer screen: what a completed payment leaves behind, and the runs in which a payment
  is sent twice, reported as failed, checked against an old answer, or shown with other data.
\<close>

section \<open>Distribution lists\<close>

definition batch_heads :: "string list" where
  "batch_heads = [''recipient_name'', ''recipient_address'', ''amount'', ''currency'']"

definition batch_file :: string where
  "batch_file = csv_text batch_heads [[''Ada'', ''GAAAAAAAAAAAAAAAAAAA'', ''12'', ''USDC'']]"

definition ada :: BatchPayoutItem where
  "ada = batch_item 1 ''Ada'' ''GAAAAAAAAAAAAAAAAAAA'' ''12'' ''USDC''"

lemma batch_file_parsed: "parseCSV batch_file = ([ada], [])"
proof -
  have n: "Number ''12'' = Fin 12"
  proof -
    have "show_int (int 12) = ''12''" by code_simp
    with Number_show_nat[of 12] show ?thesis by simp
  qed
  have i: "indexOf batch_heads ''recipient_name'' = 0" "indexOf batch_heads ''currency'' = 3" "indexOf batch_heads ''amount'' = 2"
      "indexOf batch_heads ''recipient_address'' = 1"
    by (simp_all add: indexOf_def batch_heads_def)
  have g: "good_row batch_heads [''Ada'', ''GAAAAAAAAAAAAAAAAAAA'', ''12'', ''USDC'']"
    unfolding good_row_def i
    by (simp add: batch_heads_def plain_cell_def trim_def is_ws_def QUOTE_def LF_def char_of_def address_ok_def startsWith_def
        amount_ok_def n num_le_def)
  have h: "list_all (\<lambda>h. plain_cell h \<and> toLowerCase h = h) batch_heads"
    by (simp add: batch_heads_def plain_cell_def trim_def is_ws_def QUOTE_def LF_def char_of_def toLowerCase_def lower_char_def is_upper_def)
  have "parseCSV batch_file = (map (\<lambda>(n, r). row_item batch_heads n r) (enumerate 1 [[''Ada'', ''GAAAAAAAAAAAAAAAAAAA'', ''12'', ''USDC'']]), [])"
    unfolding batch_file_def by (rule csv_text_parsed) (use g h in \<open>auto simp: batch_heads_def EXPECTED_CSV_HEADERS_def\<close>)
  then show ?thesis by (simp add: row_item_def i ada_def)
qed

definition batch_run :: "event list" where
  "batch_run = [Do (Choose BATCH), Do (Pick_file ''a.csv''), Answer 0 (Content (Ret batch_file)), Do Press_batch]"

text \<open>The screen after the file was parsed.\<close>

definition batch_screen :: screen where
  "batch_screen = initial_screen\<lparr>ts_type := BATCH, ts_step := 1, ts_batchFile := Some ''a.csv'', ts_batchItems := [ada]\<rparr>"

lemmas run_defs = settle_def commit_eq Let_def fee_deps_def symbol_of_def on_recipient_def on_step_def on_fee_inputs_def
  fee_inputs_of_def answer_def submitted_by_def

lemma batch_run_screen:
  "run_events (batch_run @ es) mounted = run_events (Do Press_batch # es) \<lparr>sy_screen = batch_screen, sy_flights = [], sy_submitted = []\<rparr>"
proof -
  let ?y = "\<lambda>s fs. \<lparr>sy_screen = s, sy_flights = fs, sy_submitted = []\<rparr>"
  let ?s1 = "initial_screen\<lparr>ts_type := BATCH, ts_step := 1\<rparr>"
  have h1: "handle (Do (Choose BATCH)) mounted = Some (?y ?s1 [])"
    by (simp add: mounted_def initial_screen_def run_defs isFederatedAddress_def)
  have h2: "handle (Do (Pick_file ''a.csv'')) (?y ?s1 []) = Some (?y (?s1\<lparr>ts_batchFile := Some ''a.csv''\<rparr>) [Reading_file ''a.csv''])"
    by (simp add: initial_screen_def run_defs file_picked_def)
  have h3: "handle (Answer 0 (Content (Ret batch_file))) (?y (?s1\<lparr>ts_batchFile := Some ''a.csv''\<rparr>) [Reading_file ''a.csv'']) = Some (?y batch_screen [])"
    by (simp add: initial_screen_def run_defs file_read_def batch_file_parsed batch_screen_def)
  show ?thesis by (simp only: batch_run_def append.simps run_events.simps h1 h2 h3 option.case)
qed

theorem posted_batch_valid_witness:
  "\<exists>y. run_events (batch_run @ [Do Press_batch]) mounted = Some y \<and> Posting_batch [ada] \<in> set (sy_flights y)
     \<and> list_all item_valid [ada]"
proof -
  have "\<exists>y. run_events (batch_run @ [Do Press_batch]) mounted = Some y \<and> Posting_batch [ada] \<in> set (sy_flights y)"
    unfolding batch_run_screen by (simp add: batch_screen_def initial_screen_def run_defs batch_enabled_def batch_pressed_def)
  then obtain y where y: "run_events (batch_run @ [Do Press_batch]) mounted = Some y" "Posting_batch [ada] \<in> set (sy_flights y)" by blast
  have "list_all plausible (batch_run @ [Do Press_batch])" by (simp add: batch_run_def)
  from posted_batch_valid[OF y(1) this y(2)] y show ?thesis by blast
qed

text \<open>
  A file that cannot be read leaves the items of the previous file under the name of the new one, and
  the button submits them.
\<close>

theorem failed_read_submits_previous:
  "\<exists>y y'. run_events (batch_run @ [Do Press_back, Do (Pick_file ''b.csv''), Answer 0 (Content (Throw e)), Do Press_batch]) mounted = Some y
     \<and> ts_batchFile (sy_screen y) = Some ''b.csv'' \<and> handle (Do Press_batch) y = Some y' \<and> sy_flights y' = [Posting_batch [ada]]"
proof -
  let ?y = "\<lambda>s fs. \<lparr>sy_screen = s, sy_flights = fs, sy_submitted = []\<rparr>"
  let ?b = "\<lambda>n. batch_screen\<lparr>ts_step := n\<rparr>"
  let ?f = "\<lambda>n. batch_screen\<lparr>ts_step := n, ts_batchFile := Some ''b.csv''\<rparr>"
  let ?g = "\<lambda>n. batch_screen\<lparr>ts_step := n, ts_batchFile := Some ''b.csv'', ts_batchErrors := [message_or ''undefined'' e]\<rparr>"
  have p: "ts_type batch_screen = BATCH" "ts_step batch_screen = 1" "ts_batchItems batch_screen = [ada]" "\<not> ts_uploading batch_screen"
    "ts_wallet batch_screen = None" "ts_fee batch_screen = None"
    by (simp_all add: batch_screen_def initial_screen_def)
  have h1: "handle (Do Press_batch) (?y batch_screen []) = Some (?y (?b 2) [])"
    by (simp add: run_defs batch_enabled_def batch_pressed_def p)
  have h2: "handle (Do Press_back) (?y (?b 2) []) = Some (?y (?b 1) [])"
    by (simp add: run_defs handleBack_def p)
  have h3: "handle (Do (Pick_file ''b.csv'')) (?y (?b 1) []) = Some (?y (?f 1) [Reading_file ''b.csv''])"
    by (simp add: run_defs file_picked_def p)
  have h4: "handle (Answer 0 (Content (Throw e))) (?y (?f 1) [Reading_file ''b.csv'']) = Some (?y (?g 1) [])"
    by (simp add: run_defs file_read_def p)
  have h5: "handle (Do Press_batch) (?y (?g 1) []) = Some (?y (?g 2) [])"
    by (simp add: run_defs batch_enabled_def batch_pressed_def p)
  have h6: "\<exists>y'. handle (Do Press_batch) (?y (?g 2) []) = Some y' \<and> sy_flights y' = [Posting_batch [ada]]"
    by (simp add: run_defs batch_enabled_def batch_pressed_def p)
  have "run_events (batch_run @ [Do Press_back, Do (Pick_file ''b.csv''), Answer 0 (Content (Throw e)), Do Press_batch]) mounted = Some (?y (?g 2) [])"
    unfolding batch_run_screen by (simp only: run_events.simps h1 h2 h3 h4 h5 option.case)
  moreover obtain y' where "handle (Do Press_batch) (?y (?g 2) []) = Some y'" "sy_flights y' = [Posting_batch [ada]]" using h6 by blast
  moreover have "ts_batchFile (sy_screen (?y (?g 2) [])) = Some ''b.csv''" by simp
  ultimately show ?thesis by (intro exI conjI)
qed

section \<open>Sending\<close>

text \<open>
  The gate does not close while the prompt is up: pressing Send twice on the confirmation and passing both
  prompts submits the same payment twice.
\<close>

theorem double_tap_pays_twice:
  assumes "next_enabled (sy_screen y)" "ts_step (sy_screen y) = 3" "ts_wallet (sy_screen y) = Some w"
  shows "\<exists>y'. run_events [Do Press_next, Do Press_next, Answer (length (sy_flights y)) (Prompted Verified),
        Answer (length (sy_flights y)) (Prompted Verified)] y = Some y'
     \<and> sy_submitted y' = sy_submitted y @ [payment_of (sy_screen y), payment_of (sy_screen y)]"
proof -
  define n where "n = length (sy_flights y)"
  define p where "p = payment_of (sy_screen y)"
  have pw: "py_wallet p \<noteq> None" by (simp add: p_def payment_of_def assms(3))
  have nxt: "handleNext (sy_screen y) = (sy_screen y, [Prompting p])" using assms(2) by (simp add: handleNext_def p_def)
  let ?fl = "sy_flights y"
  let ?y1 = "y\<lparr>sy_flights := ?fl @ [Prompting p]\<rparr>" and ?y2 = "y\<lparr>sy_flights := ?fl @ [Prompting p, Prompting p]\<rparr>"
  let ?s = "(sy_screen y)\<lparr>ts_submitting := True\<rparr>"
  let ?y3 = "\<lparr>sy_screen = ?s, sy_flights = ?fl @ [Prompting p, Paying p], sy_submitted = sy_submitted y @ [p]\<rparr>"
  have h1: "handle (Do Press_next) y = Some ?y1"
    by (simp add: assms(1) nxt settle_def commit_same submitted_by_def)
  have h2: "handle (Do Press_next) ?y1 = Some ?y2"
    by (simp add: assms(1) nxt settle_def commit_same submitted_by_def)
  have c: "commit (sy_screen y) (?s, fs) = (?s, fs)" for fs
    by (simp add: commit_eq fee_deps_def symbol_of_def)
  have h3: "handle (Answer n (Prompted Verified)) ?y2 = Some ?y3"
    by (simp add: n_def answer_def prompt_answered_def settle_def c submitted_by_def pw nth_append)
  have c': "commit ?s (?s, fs) = (?s, fs)" for fs by (rule commit_same)
  have h4: "\<exists>y'. handle (Answer n (Prompted Verified)) ?y3 = Some y' \<and> sy_submitted y' = sy_submitted y @ [p, p]"
    by (simp add: n_def answer_def prompt_answered_def settle_def submitted_by_def pw nth_append commit_same)
  show ?thesis unfolding n_def[symmetric] p_def[symmetric]
    using h4 by (simp only: run_events.simps h1 h2 h3 option.case) auto
qed

theorem double_tap_pays_twice_witness:
  "\<exists>y y' p. run_events to_confirmation mounted = Some y
     \<and> run_events [Do Press_next, Do Press_next, Answer 2 (Prompted Verified), Answer 2 (Prompted Verified)] y = Some y'
     \<and> sy_submitted y' = [p, p]"
proof -
  have "map_option (\<lambda>y. (next_enabled (sy_screen y), ts_step (sy_screen y), ts_wallet (sy_screen y) \<noteq> None, length (sy_flights y), sy_submitted y))
      (run_events to_confirmation mounted) = Some (True, 3, True, 2, [])" by code_simp
  then obtain y where y: "run_events to_confirmation mounted = Some y" "next_enabled (sy_screen y)" "ts_step (sy_screen y) = 3"
    "ts_wallet (sy_screen y) \<noteq> None" "length (sy_flights y) = 2" "sy_submitted y = []" by auto
  then obtain w where w: "ts_wallet (sy_screen y) = Some w" by auto
  obtain y' where y': "run_events [Do Press_next, Do Press_next, Answer 2 (Prompted Verified), Answer 2 (Prompted Verified)] y = Some y'"
      "sy_submitted y' = sy_submitted y @ [payment_of (sy_screen y), payment_of (sy_screen y)]"
    using double_tap_pays_twice[OF y(2,3) w] unfolding y(5) by blast
  then have "sy_submitted y' = [payment_of (sy_screen y), payment_of (sy_screen y)]" unfolding y(6) by simp
  with y(1) y'(1) show ?thesis by blast
qed

definition found :: "string \<Rightarrow> bool \<Rightarrow> registry_entry response" where
  "found u b = \<lparr>status = 200, statusText = [], json = Ret \<lparr>re_username = u, re_address = ''G'', re_is_blacklisted = b\<rparr>, text_of = Ret []\<rparr>"

definition registry_race :: "event list" where
  "registry_race = [Do Press_next, Do (Key ''5''), Do (Edit ''alice''), Do Search_timer, Do (Edit ''mallory''), Do Search_timer,
     Answer 4 (Registry (Ret (found ''mallory'' True)))]"

text \<open>
  The registry's answers are not matched to the name on the form: after the name was found blacklisted, the
  late answer for the name typed before opens the gate.
\<close>

theorem stale_registry_answer:
  "\<exists>y y'. run_events registry_race mounted = Some y \<and> sy_flights y ! 2 = Checking_registry ''alice''
     \<and> ts_recipient (sy_screen y) = ''mallory'' \<and> ts_usernameStatus (sy_screen y) = Blacklisted \<and> \<not> next_enabled (sy_screen y)
     \<and> handle (Answer 2 (Registry (Ret (found ''alice'' False)))) y = Some y'
     \<and> ts_recipient (sy_screen y') = ''mallory'' \<and> next_enabled (sy_screen y')"
proof -
  have "map_option (\<lambda>y. (sy_flights y ! 2, ts_recipient (sy_screen y), ts_usernameStatus (sy_screen y), next_enabled (sy_screen y),
      map_option (\<lambda>y'. (ts_recipient (sy_screen y'), next_enabled (sy_screen y'))) (handle (Answer 2 (Registry (Ret (found ''alice'' False)))) y)))
      (run_events registry_race mounted)
    = Some (Checking_registry ''alice'', ''mallory'', Blacklisted, False, Some (''mallory'', True))" by code_simp
  then show ?thesis by auto
qed

text \<open>
  The form stays open to edits while a payment is under way, and the success screen shows the form: a
  payment of 5 is reported as one of 55.
\<close>

theorem success_shows_edited:
  "\<exists>y p. run_events (send_run @ [Do Press_back, Do Press_back, Do (Key ''5''), Answer 1 (Paid (Ret ()))]) mounted = Some y
     \<and> sy_submitted y = [p] \<and> py_amount p = ''5'' \<and> ts_step (sy_screen y) = 4 \<and> ts_amount (sy_screen y) = ''55''"
proof -
  have "map_option (\<lambda>y. (map py_amount (sy_submitted y), ts_step (sy_screen y), ts_amount (sy_screen y)))
      (run_events (send_run @ [Do Press_back, Do Press_back, Do (Key ''5''), Answer 1 (Paid (Ret ()))]) mounted)
    = Some ([''5''], 4, ''55'')" by code_simp
  then show ?thesis by auto
qed

section \<open>What a payment leaves behind\<close>

text \<open>A computation that leaves an observation of the world alone.\<close>

definition keeps :: "('w \<Rightarrow> 'x) \<Rightarrow> ('w, 'a) io \<Rightarrow> bool" where
  "keeps g m \<longleftrightarrow> (\<forall>w. g (snd (m w)) = g w)"

lemma keeps_step: "keeps g m \<Longrightarrow> m w = (r, w') \<Longrightarrow> g w' = g w"
  by (metis keeps_def snd_conv)

lemma keeps_bnd: "keeps g m \<Longrightarrow> (\<And>a. keeps g (f a)) \<Longrightarrow> keeps g (bnd m f)"
  by (auto simp: keeps_def bnd_apply split: res.splits prod.splits) (metis snd_conv)+

lemma keeps_try_catch: "keeps g m \<Longrightarrow> (\<And>e. keeps g (h e)) \<Longrightarrow> keeps g (try_catch m h)"
  by (auto simp: keeps_def try_catch_apply split: res.splits prod.splits) (metis snd_conv)+

lemma keeps_pure: "keeps g (ret a)" "keeps g (throw e)" "keeps g (reads f)" "keeps g (asks h)"
  by (simp_all add: keeps_def)

lemmas keeps_intros = keeps_bnd keeps_try_catch keeps_pure

lemma keeps_retry_loop:
  assumes "keeps g fn" "\<And>d. keeps g (sleep d)" "\<And>n e w. g (notify n e w) = g w"
  shows "g (snd (retry_loop fn sleep notify delay maxr i l w)) = g w"
  using assms
proof (induction fn sleep notify delay maxr i l w rule: retry_loop.induct)
  case (1 fn sleep notify delay maxr i l w)
  show ?case
  proof (cases "i \<le> maxr \<and> i \<noteq> maxr")
    case False
    then show ?thesis using keeps_step[OF 1(2)] by (subst retry_loop.simps) (auto split: prod.splits res.splits)
  next
    case True
    obtain r w1 where f: "fn w = (r, w1)" by (cases "fn w")
    show ?thesis
    proof (cases r)
      case (Ret a)
      then show ?thesis using True f keeps_step[OF 1(2) f] by (subst retry_loop.simps) simp
    next
      case (Throw e)
      obtain q w2 where q: "sleep (delay i) (notify (i + 1) e w1) = (q, w2)" by (cases "sleep (delay i) (notify (i + 1) e w1)")
      have g: "g w2 = g w" using keeps_step[OF 1(3) q] keeps_step[OF 1(2) f] 1(4) by simp
      show ?thesis
      proof (cases q)
        case (Ret u)
        then show ?thesis using True f Throw q g 1(1)[OF _ f[symmetric] _ _ q[symmetric] _ 1(2-4)]
          by (subst retry_loop.simps) simp
      next
        case (Throw e')
        then show ?thesis using True f \<open>r = Throw e\<close> q g by (subst retry_loop.simps) simp
      qed
    qed
  qed
qed

text \<open>
  What a payment touches outside the list of transfers: the network, the extensions, the timer and the toast
  leave it alone, and so does a write of the recent recipients, which have another key of the same store.
\<close>

locale transfer_env = kv_store getP setP delP
  for getP :: "string \<Rightarrow> 'w \<Rightarrow> transfer_entry list jtext option res"
    and setP :: "string \<Rightarrow> transfer_entry list jtext \<Rightarrow> ('w, unit) io"
    and delP :: "string \<Rightarrow> ('w, unit) io" +
  fixes S :: "('w, 'acc, 'asset, 'tx, 'kp) stellar"
    and fetch :: "payment_record request \<Rightarrow> ('w, 'j response) io"
    and sleep :: "js_num \<Rightarrow> ('w, unit) io"
    and warn :: "int \<Rightarrow> 'w \<Rightarrow> 'w"
    and setR :: "string \<Rightarrow> recents \<Rightarrow> ('w, unit) io"
  assumes net_keeps: "keeps (getP k) (s_loadAccount S pk)" "keeps (getP k) (s_fetchBaseFee S)" "keeps (getP k) (s_submit S t)"
    and extensions_keep: "keeps (getP k) (x_freighterSign S x)" "keeps (getP k) (x_albedoSign S x)"
    and http_keeps: "keeps (getP k) (fetch rq)"
    and sleep_keeps: "keeps (getP k) (sleep d)"
    and warn_keeps: "getP k (warn n w) = getP k w"
    and recents_keep: "k \<noteq> k' \<Longrightarrow> keeps (getP k) (setR k' v)"
begin

lemma keeps_build: "keeps (getP k) (buildPaymentEnvelope S pk destination amount code issuer memo)"
  unfolding buildPaymentEnvelope_def by (intro keeps_intros net_keeps)

lemma keeps_sign: "keeps (getP k) (signAndSubmitTransaction S getA x src)"
  unfolding signAndSubmitTransaction_def signWithFreighter_def signWithAlbedo_def local_key_def getLocalKeypair_def
  by (auto intro!: keeps_intros net_keeps extensions_keep split: wallet_source.split option.split)

lemma keeps_fetchWithRetry: "keeps (getP k) (fetchWithRetry fetch sleep warn rq opts)" if "onRetry opts = None"
proof -
  have "keeps (getP k) (fetch_ok fetch rq)" unfolding fetch_ok_def by (auto intro!: keeps_intros http_keeps)
  then show ?thesis unfolding fetchWithRetry_def retryWithBackoff_def keeps_def[of _ "retry_loop _ _ _ _ _ _ _"]
    by (intro allI keeps_retry_loop) (simp_all add: sleep_keeps over_def default_def that warn_keeps Let_def)
qed

lemma keeps_submit: "keeps (getP k) (submitPayment S getA fetch sleep warn base destination amount src pk code issuer memo)"
  unfolding submitPayment_def
  by (intro keeps_intros keeps_build keeps_sign keeps_fetchWithRetry) (simp add: no_options_def)

lemma keeps_recent: "k \<noteq> RECENT_RECIPIENTS_KEY \<Longrightarrow> keeps (getP k) (saveRecentRecipient getR setR r)"
  unfolding saveRecentRecipient_def by (auto intro!: keeps_intros recents_keep split: option.split)

lemma transfer_recorded:
  assumes "perform_transfer S getA fetch sleep warn api_base getP setP getR setR null_error p w = (Ret u, w')"
  shows "\<exists>wal res w1 raw old. py_wallet p = Some wal
     \<and> submitPayment S getA fetch sleep warn api_base (py_recipient p) (py_amount p)
         (case sw_source wal of Some src \<Rightarrow> src | None \<Rightarrow> LocalKey) (sw_publicKey wal) (Some (py_symbol p))
         (assetIssuer (py_symbol p)) (if_truthy (Some (py_description p))) w = (Ret res, w1)
     \<and> getP ''pending_transfers'' w = Ret raw \<and> pending_list raw = Ret old
     \<and> getP ''pending_transfers'' w' = Ret (Some (JText (transfer_entry_of p (ps_hash res) # old)))"
proof -
  obtain wal where wal: "py_wallet p = Some wal" using assms by (cases "py_wallet p") (auto simp: perform_transfer_def)
  define sub where "sub = submitPayment S getA fetch sleep warn api_base (py_recipient p) (py_amount p)
         (case sw_source wal of Some src \<Rightarrow> src | None \<Rightarrow> LocalKey) (sw_publicKey wal) (Some (py_symbol p))
         (assetIssuer (py_symbol p)) (if_truthy (Some (py_description p)))"
  have run: "bnd sub (\<lambda>result. bnd (reads (getP ''pending_transfers'')) (\<lambda>raw. bnd (reads (\<lambda>_. pending_list raw)) (\<lambda>list.
       bnd (setP ''pending_transfers'' (JSON_stringify (transfer_entry_of p (ps_hash result) # list))) (\<lambda>_.
         saveRecentRecipient getR setR (py_recipient p))))) w = (Ret u, w')"
    using assms by (simp add: perform_transfer_def wal sub_def)
  obtain res w1 where r1: "sub w = (Ret res, w1)" using bnd_RetE[OF run] by metis
  note run1 = run[unfolded bnd_apply[of sub] r1, simplified]
  obtain raw where raw: "getP ''pending_transfers'' w1 = Ret raw" using bnd_RetE[OF run1] by auto
  obtain old where old: "pending_list raw = Ret old" using bnd_RetE[OF run1] raw by (auto dest!: bnd_RetE)
  obtain w2 where w2: "setP ''pending_transfers'' (JText (transfer_entry_of p (ps_hash res) # old)) w1 = (Ret (), w2)"
    "saveRecentRecipient getR setR (py_recipient p) w2 = (Ret u, w')"
    using run1 raw old by (auto simp: JSON_stringify_def dest!: bnd_RetE)
  have "getP ''pending_transfers'' w' = Ret (Some (JText (transfer_entry_of p (ps_hash res) # old)))"
    using get_set[OF w2(1)] keeps_step[OF keeps_recent w2(2)] by (simp add: RECENT_RECIPIENTS_KEY_def)
  moreover have "getP ''pending_transfers'' w = Ret raw"
    using raw keeps_step[OF keeps_submit r1[unfolded sub_def], of "''pending_transfers''"] by simp
  ultimately show ?thesis using wal r1 old unfolding sub_def by blast
qed

end

text \<open>The signed envelope a backend gives for an unsigned one.\<close>

definition signed_by ::
  "('w, 'acc, 'asset, 'tx, 'kp) stellar \<Rightarrow> (string \<Rightarrow> 'w \<Rightarrow> string option res) \<Rightarrow> wallet_source \<Rightarrow> string \<Rightarrow> 'w
     \<Rightarrow> string \<Rightarrow> 'w \<Rightarrow> bool" where
  "signed_by S getA src x w envelope v \<longleftrightarrow> (case src of
       Freighter \<Rightarrow> x_freighter S w \<and> x_freighterSign S x w = (Ret envelope, v)
     | Albedo \<Rightarrow> x_albedo S w \<and> x_albedoSign S x w = (Ret envelope, v)
     | LocalKey \<Rightarrow> \<exists>sec kp t. getA KEY_STORAGE_KEY w = Ret (Some sec) \<and> sec \<noteq> [] \<and> s_fromSecret S sec = Ret kp
          \<and> s_read S x = Ret t \<and> envelope = s_toXDR S (s_sign S kp t) \<and> v = w)"

lemma bnd_Ret_iff: "bnd m f w = (Ret a, w') \<longleftrightarrow> (\<exists>b v. m w = (Ret b, v) \<and> f b v = (Ret a, w'))"
  by (auto simp: bnd_apply split: res.splits prod.splits)

lemma submission_Ret:
  "signAndSubmitTransaction S getA x src w = (Ret hash, w') \<longleftrightarrow> (\<exists>envelope v arg t. signed_by S getA src x w envelope v
     \<and> s_envelopeTypeTx S = Ret arg \<and> s_read_envelope S arg envelope = Ret t \<and> s_submit S t v = (Ret hash, w'))"
  by (cases src) (auto simp: signAndSubmitTransaction_def signed_by_def signWithFreighter_def signWithAlbedo_def
      bnd_Ret_iff local_key_iff split: if_splits)

text \<open>
  C6: A transfer that ends well was taken by the network and is on record.  The network answered the
  submission of a transaction with a hash; that transaction is what was read back from the envelope
  the connected wallet's backend signed, for one payment of the confirmed amount of the confirmed asset to the
  confirmed recipient, out of the wallet's account.  At the end, after the recent recipients were
  saved too, the stored list is the list stored before the transfer with one entry in front, which
  names that hash.  It is assumed that the network, the extensions, the timer and the toasts leave the
  list alone and that the two keys of the store are independent (\<open>transfer_env\<close>); any of the calls may fail,
  the write of the recent recipients even unnoticed.
\<close>

theorem transfer_records_payment:
  assumes "transfer_env getP setP delP S fetch sleep warn setR"
    and "perform_transfer S getA fetch sleep warn api_base getP setP getR setR null_error p w = (Ret u, w')"
  shows "\<exists>wal acc w1 fee w2 asset tx envelope v arg t hash v' raw old. py_wallet p = Some wal
     \<and> s_loadAccount S (sw_publicKey wal) w = (Ret acc, w1) \<and> s_fetchBaseFee S w1 = (Ret fee, w2)
     \<and> payment_asset S (py_symbol p) (assetIssuer (py_symbol p)) = Ret asset
     \<and> s_build S acc (show_num fee) \<lparr>op_destination = py_recipient p, op_asset = asset, op_amount = py_amount p\<rparr>
          (if_truthy (Some (py_description p))) 300 = Ret tx
     \<and> signed_by S getA (case sw_source wal of Some src \<Rightarrow> src | None \<Rightarrow> LocalKey) (s_toXDR S tx) w2 envelope v
     \<and> s_envelopeTypeTx S = Ret arg \<and> s_read_envelope S arg envelope = Ret t \<and> s_submit S t v = (Ret hash, v')
     \<and> getP ''pending_transfers'' w = Ret raw \<and> pending_list raw = Ret old
     \<and> getP ''pending_transfers'' w' = Ret (Some (JText (transfer_entry_of p hash # old)))"
proof -
  obtain wal res w1 raw old where t: "py_wallet p = Some wal"
     "submitPayment S getA fetch sleep warn api_base (py_recipient p) (py_amount p)
         (case sw_source wal of Some src \<Rightarrow> src | None \<Rightarrow> LocalKey) (sw_publicKey wal) (Some (py_symbol p))
         (assetIssuer (py_symbol p)) (if_truthy (Some (py_description p))) w = (Ret res, w1)"
     "getP ''pending_transfers'' w = Ret raw" "pending_list raw = Ret old"
     "getP ''pending_transfers'' w' = Ret (Some (JText (transfer_entry_of p (ps_hash res) # old)))"
    using transfer_env.transfer_recorded[OF assms] by blast
  have i: "if_truthy (if_truthy m) = if_truthy m" for m by (auto simp: if_truthy_def split: option.splits)
  obtain x w2 v where b: "buildPaymentEnvelope S (sw_publicKey wal) (py_recipient p) (py_amount p) (Some (py_symbol p))
      (assetIssuer (py_symbol p)) (if_truthy (Some (py_description p))) w = (Ret x, w2)"
    "signAndSubmitTransaction S getA x (case sw_source wal of Some src \<Rightarrow> src | None \<Rightarrow> LocalKey) w2 = (Ret (ps_hash res), v)"
    using t(2) unfolding submitPayment_def bnd_Ret_iff by auto
  show ?thesis using b(1)[unfolded buildPaymentEnvelope_Ret i option.case] b(2)[unfolded submission_Ret] t(1,3,4,5) by metis
qed

text \<open>
  A payment that the network accepted is reported as failed when the list of transfers cannot be read
  afterwards; the screen stays on the confirmation with the button enabled.
\<close>

theorem accepted_payment_reported_failed:
  assumes "py_wallet p = Some wal"
    and "submitPayment S getA fetch sleep warn api_base (py_recipient p) (py_amount p)
         (case sw_source wal of Some src \<Rightarrow> src | None \<Rightarrow> LocalKey) (sw_publicKey wal) (Some (py_symbol p))
         (assetIssuer (py_symbol p)) (if_truthy (Some (py_description p))) w = (Ret res, w1)"
    and "getP ''pending_transfers'' w1 = Ret (Some JMalformed)"
    and "ts_step s = 3" "ts_type s \<noteq> BATCH"
  shows "\<exists>e. perform_transfer S getA fetch sleep warn api_base getP setP getR setR null_error p w = (Throw e, w1)
     \<and> ts_step (payment_answered (Throw e) s) = 3 \<and> next_enabled (payment_answered (Throw e) s)
     \<and> fst (last (ts_alerts (payment_answered (Throw e) s))) = ''Transfer Failed''"
proof -
  define sub where "sub = submitPayment S getA fetch sleep warn api_base (py_recipient p) (py_amount p)
         (case sw_source wal of Some src \<Rightarrow> src | None \<Rightarrow> LocalKey) (sw_publicKey wal) (Some (py_symbol p))
         (assetIssuer (py_symbol p)) (if_truthy (Some (py_description p)))"
  have r: "sub w = (Ret res, w1)" using assms(2) by (simp add: sub_def)
  have "\<exists>e. perform_transfer S getA fetch sleep warn api_base getP setP getR setR null_error p w = (Throw e, w1)"
    unfolding perform_transfer_def assms(1) option.case sub_def[symmetric]
    by (simp add: bnd_apply r assms(3) pending_list_def)
  then show ?thesis using assms(4,5) by (auto simp: payment_answered_def alert_def next_enabled_def)
qed

text \<open>A computation that is rejected in every world.\<close>

definition rejects :: "('w, 'a) io \<Rightarrow> bool" where
  "rejects m \<longleftrightarrow> (\<forall>w. \<exists>e w'. m w = (Throw e, w'))"

lemma rejects_first: "rejects m \<Longrightarrow> rejects (bnd m f)"
  unfolding rejects_def by (metis bnd_Throw)

lemma rejects_second: "(\<And>a. rejects (f a)) \<Longrightarrow> rejects (bnd m f)"
  by (auto simp: rejects_def bnd_apply split: res.splits prod.splits)

text \<open>
  C21: A transfer to a Zaps user names the username, not the address of the user that was picked, as the
  destination: the SDK, which takes keys only, rejects every such payment.
\<close>

theorem username_transfer_fails:
  assumes keys: "\<And>acc fee op memo t. op_destination op = zu_username user \<Longrightarrow> \<exists>e. s_build S acc fee op memo t = Throw e"
  shows "\<exists>e w'. perform_transfer S getA fetch sleep warn api_base getP setP getR setR null_error
     (payment_of (handleSelectUser user s)) w = (Throw e, w')"
proof -
  have b: "rejects (bnd (reads (\<lambda>_. s_build S acc fee \<lparr>op_destination = zu_username user, op_asset = a, op_amount = amt\<rparr> memo t)) f)"
    for acc fee a amt memo t f
    using keys[of "\<lparr>op_destination = zu_username user, op_asset = a, op_amount = amt\<rparr>" acc fee memo t]
    by (intro rejects_first) (auto simp: rejects_def)
  have "rejects (buildPaymentEnvelope S pk (zu_username user) amount code issuer memo)" for pk amount code issuer memo
    unfolding buildPaymentEnvelope_def by (intro rejects_second b)
  then have "rejects (submitPayment S getA fetch sleep warn api_base (zu_username user) amount src pk code issuer memo)"
    for amount src pk code issuer memo
    unfolding submitPayment_def by (rule rejects_first)
  then have "rejects (perform_transfer S getA fetch sleep warn api_base getP setP getR setR null_error p)"
    if "py_recipient p = zu_username user" for p
    using that by (cases "py_wallet p") (auto simp: perform_transfer_def rejects_def[of "throw null_error"] intro!: rejects_first)
  moreover have "py_recipient (payment_of (handleSelectUser user s)) = zu_username user"
    by (simp add: payment_of_def handleSelectUser_def)
  ultimately show ?thesis by (simp add: rejects_def)
qed

text \<open>
  No federated address is resolved: \<open>StellarSdk\<close> is not bound, so the lookup throws before any request, and
  the form refuses the address.
\<close>

theorem federation_refused:
  assumes "isFederatedAddress r" "ts_federationTimer s = Some r" "ts_step s = 1"
    and "federation_lookup None unbound fetch URL_toString r w = (a, w')"
  shows "\<exists>s1. federation_timer_fired s = (s1, [Federating r]) \<and> w' = w
     \<and> ts_federationStatus (federation_answered a s1) = Fed_error \<and> \<not> next_enabled (federation_answered a s1)"
  using assms by (auto simp: federation_timer_fired_def resolveFederationAddress_def federation_lookup_def bnd_apply
      federation_answered_def next_enabled_def)

section \<open>A network that accepts everything\<close>

definition pure_bank :: "('w, string, string, string, string) stellar" where
  "pure_bank = \<lparr>s_loadAccount = (\<lambda>k. ret k), s_balances = (\<lambda>_. []), s_fetchBaseFee = ret (Fin 100),
     s_submit = (\<lambda>t. ret ''hash''), s_native = ''native'', s_asset = (\<lambda>c i. Ret (c @ '':'' @ i)),
     s_build = (\<lambda>a f p m t. if startsWith (op_destination p) ''G'' then Ret (op_destination p) else Throw (Error ''destination is invalid'')),
     s_feeBump = (\<lambda>src f t. Ret t), s_toXDR = (\<lambda>t. t), s_read = Ret, s_envelopeTypeTx = Ret NotAFormat,
     s_read_envelope = (\<lambda>_. Ret), s_read_any = Ret,
     s_sign = (\<lambda>k t. t), s_random = ret ''S'', s_publicKey = (\<lambda>k. k), s_secret = (\<lambda>k. k), s_fromSecret = Ret,
     s_BASE_FEE = ''100'', x_freighter = (\<lambda>_. False), x_freighterKey = ret [], x_freighterSign = (\<lambda>t. ret t),
     x_albedo = (\<lambda>_. False), x_albedoProbe = ret False, x_albedoKey = ret [], x_albedoMissing = NonError,
     x_albedoSign = (\<lambda>t. ret t)\<rparr>"

definition fine_backend :: "payment_record request \<Rightarrow> ('w, unit response) io" where
  "fine_backend rq = ret \<lparr>status = 200, statusText = [], json = Ret (), text_of = Ret []\<rparr>"

definition sample_payment :: payment where
  "sample_payment = \<lparr>py_recipient = ''GB'', py_amount = ''5'', py_description = [], py_visibility = PUBLIC, py_symbol = ''XLM'',
     py_wallet = Some \<lparr>sw_publicKey = ''GA'', sw_isConnected = True, sw_source = Some LocalKey\<rparr>\<rparr>"

abbreviation pay_sample where
  "pay_sample \<equiv> submitPayment pure_bank (\<lambda>_ _. Ret (Some ''S1'')) fine_backend (\<lambda>_. ret ()) (\<lambda>_ w. w) [] ''GB'' ''5'' LocalKey ''GA''
     (Some ''XLM'') None None"

lemma bank_pays: "pay_sample w = (Ret \<lparr>ps_hash = ''hash'', ps_destination = ''GB'', ps_amount = ''5''\<rparr>, w)"
proof -
  have f: "fetchWithRetry fine_backend (\<lambda>_. ret ()) (\<lambda>_ w. w) rq no_options w = (Ret \<lparr>status = 200, statusText = [], json = Ret (), text_of = Ret []\<rparr>, w)"
    for rq and w :: 'a
    by (simp add: fetchWithRetry_def retryWithBackoff_def no_options_def over_def default_def retry_loop.simps fetch_ok_def
        fine_backend_def bnd_apply ok_def)
  show ?thesis
    by (simp add: submitPayment_def f pure_bank_def buildPaymentEnvelope_def payment_asset_def signAndSubmitTransaction_def
        local_key_def getLocalKeypair_def bnd_apply try_catch_apply startsWith_def)
qed

lemma sample_call: "submitPayment pure_bank (\<lambda>_ _. Ret (Some ''S1'')) fine_backend (\<lambda>_. ret ()) (\<lambda>_ w. w) [] (py_recipient sample_payment)
    (py_amount sample_payment) (case sw_source (the (py_wallet sample_payment)) of Some src \<Rightarrow> src | None \<Rightarrow> LocalKey)
    (sw_publicKey (the (py_wallet sample_payment))) (Some (py_symbol sample_payment)) (assetIssuer (py_symbol sample_payment))
    (if_truthy (Some (py_description sample_payment))) = pay_sample"
  by (simp add: sample_payment_def assetIssuer_def if_truthy_def)

lemma sample_wallet: "py_wallet sample_payment = Some (the (py_wallet sample_payment))"
  by (simp add: sample_payment_def)

abbreviation perform_sample where
  "perform_sample getP setP \<equiv> perform_transfer pure_bank (\<lambda>_ _. Ret (Some ''S1'')) fine_backend (\<lambda>_. ret ()) (\<lambda>_ w. w) [] getP setP
     (\<lambda>_ _. Ret None) (\<lambda>_ _. ret ()) NonError"

lemma perform_sample_eq: "perform_sample getP setP sample_payment =
    bnd pay_sample (\<lambda>result. bnd (reads (getP ''pending_transfers'')) (\<lambda>raw. bnd (reads (\<lambda>_. pending_list raw)) (\<lambda>list.
       bnd (setP ''pending_transfers'' (JSON_stringify (transfer_entry_of sample_payment (ps_hash result) # list))) (\<lambda>_.
         saveRecentRecipient (\<lambda>_ _. Ret None) (\<lambda>_ _. ret ()) (py_recipient sample_payment)))))"
  unfolding perform_transfer_def by (subst sample_wallet) (simp only: option.case sample_call)

text \<open>The two keys of the device's store, each with the values the screen keeps under it.\<close>

type_synonym shelves = "(string \<rightharpoonup> transfer_entry list jtext) \<times> (string \<rightharpoonup> recents)"

definition getPend :: "string \<Rightarrow> shelves \<Rightarrow> transfer_entry list jtext option res" where
  "getPend k w = Ret (fst w k)"

definition setPend :: "string \<Rightarrow> transfer_entry list jtext \<Rightarrow> (shelves, unit) io" where
  "setPend k v w = (Ret (), (fst w)(k \<mapsto> v), snd w)"

definition delPend :: "string \<Rightarrow> (shelves, unit) io" where
  "delPend k w = (Ret (), (fst w)(k := None), snd w)"

definition getRec :: "string \<Rightarrow> shelves \<Rightarrow> recents option res" where
  "getRec k w = Ret (snd w k)"

definition setRec :: "string \<Rightarrow> recents \<Rightarrow> (shelves, unit) io" where
  "setRec k v w = (Ret (), fst w, (snd w)(k \<mapsto> v))"

lemmas shelf_defs = getPend_def setPend_def delPend_def getRec_def setRec_def

interpretation bank_env: transfer_env getPend setPend delPend pure_bank fine_backend "\<lambda>_. ret ()" "\<lambda>_ w. w" setRec
  by unfold_locales (auto simp: shelf_defs keeps_def pure_bank_def fine_backend_def)

definition earlier :: transfer_entry where
  "earlier = transfer_entry_of sample_payment ''older''"

theorem transfer_records_payment_witness:
  "\<exists>w' hash v v'. perform_transfer pure_bank (\<lambda>_ _. Ret (Some ''S1'')) fine_backend (\<lambda>_. ret ()) (\<lambda>_ w. w) [] getPend setPend
       getRec setRec NonError sample_payment ([''pending_transfers'' \<mapsto> JText [earlier]], Map.empty) = (Ret (), w')
     \<and> s_submit pure_bank ''GB'' v = (Ret hash, v' :: shelves)
     \<and> getPend ''pending_transfers'' w' = Ret (Some (JText [transfer_entry_of sample_payment hash, earlier]))"
proof -
  let ?w = "([''pending_transfers'' \<mapsto> JText [earlier]], Map.empty) :: shelves"
  let ?p = "perform_transfer pure_bank (\<lambda>_ _. Ret (Some ''S1'')) fine_backend (\<lambda>_. ret ()) (\<lambda>_ w. w) [] getPend setPend getRec setRec
    NonError sample_payment ?w"
  have "is_Ret (fst ?p)"
    unfolding perform_transfer_def by (subst sample_wallet) (simp only: option.case sample_call,
      simp add: bnd_apply bank_pays shelf_defs pending_list_def saveRecentRecipient_def try_catch_apply parse_recents_def sample_payment_def)
  then obtain w' where run: "?p = (Ret (), w')"
    by (cases ?p) (metis fst_conv is_Ret.elims(2) old.unit.exhaust)
  show ?thesis using transfer_records_payment[OF bank_env.transfer_env_axioms run] run
    by (auto simp: sample_payment_def pure_bank_def payment_asset_def signed_by_def startsWith_def getPend_def pending_list_def)
qed

theorem accepted_payment_reported_failed_witness:
  "\<exists>e w'. perform_sample (\<lambda>_ _. Ret (Some JMalformed)) (\<lambda>_ _. ret ()) sample_payment () = (Throw e, w')
     \<and> next_enabled (payment_answered (Throw e) (initial_screen\<lparr>ts_step := 3\<rparr>))"
proof -
  note sub = trans[OF fun_cong[OF sample_call, of "()"] bank_pays]
  obtain e where "perform_sample (\<lambda>_ _. Ret (Some JMalformed)) (\<lambda>_ _. ret ()) sample_payment () = (Throw e, ())"
      "next_enabled (payment_answered (Throw e) (initial_screen\<lparr>ts_step := 3\<rparr>))"
    using accepted_payment_reported_failed[OF sample_wallet sub,
        of "\<lambda>_ _. Ret (Some JMalformed)" "initial_screen\<lparr>ts_step := 3\<rparr>" "\<lambda>_ _. ret ()" "\<lambda>_ _. Ret None" "\<lambda>_ _. ret ()" NonError]
    by (auto simp: initial_screen_def)
  then show ?thesis by blast
qed

theorem username_transfer_fails_witness:
  "\<exists>e w'. perform_transfer pure_bank (\<lambda>_ _. Ret (Some ''S1'')) fine_backend (\<lambda>_. ret ()) (\<lambda>_ w. w) [] mem_getItem mem_setItem
     (\<lambda>_ _. Ret None) (\<lambda>_ _. ret ()) NonError
     (payment_of (handleSelectUser \<lparr>zu_username = ''bob'', zu_address = ''GB'', zu_avatar_url = None, zu_isVerified = True\<rparr> initial_screen))
     Map.empty = (Throw e, w')"
  by (rule username_transfer_fails) (simp add: pure_bank_def startsWith_def)

theorem federation_refused_witness:
  "\<exists>s1 a. federation_timer_fired (initial_screen\<lparr>ts_step := 1, ts_federationTimer := Some ''bob*zaps.io''\<rparr>) = (s1, [Federating ''bob*zaps.io''])
     \<and> \<not> next_enabled (federation_answered a s1)"
proof -
  let ?s = "initial_screen\<lparr>ts_step := 1, ts_federationTimer := Some ''bob*zaps.io''\<rparr>"
  have f: "isFederatedAddress ''bob*zaps.io''" by code_simp
  obtain a w' where l: "federation_lookup None NonError (\<lambda>_. throw NonError) Ret ''bob*zaps.io'' () = (a, w')"
    by (rule prod.exhaust)
  from federation_refused[OF f _ _ l, of ?s] show ?thesis by auto
qed

end
