(* ===== verification/Freighter.thy ===== *)
theory Freighter
  imports Platform
begin

text \<open>
  The browser wallet of the dashboard: \<open>dashboard/lib/freighter.ts\<close> and the session provider of
  \<open>dashboard/lib/wallet-context.tsx\<close>.  The package \<open>@stellar/freighter-api\<close> is a record of operations
  on a world, \<open>localStorage\<close> the operations of a key-value store.  The provider is a transition
  system: its callbacks leave requests to the extension under way, whose answers are events.
\<close>

section \<open>The extension\<close>

record FreighterWalletState =
  fw_installed :: bool
  fw_connected :: bool
  fw_publicKey :: "string option"
  fw_network :: "string option"

definition DEFAULT_WALLET_STATE :: FreighterWalletState where
  "DEFAULT_WALLET_STATE = \<lparr>fw_installed = False, fw_connected = False, fw_publicKey = None, fw_network = None\<rparr>"

text \<open>An answer to a signing request: the fields \<open>signedTxXdr\<close> and \<open>error\<close>.\<close>

record sign_reply =
  sr_signedTxXdr :: "string option"
  sr_error :: "string option"

record 'w freighter_api =
  fa_isConnected :: "('w, bool) io"
  fa_getAddress :: "('w, string option) io"
  fa_getNetwork :: "('w, string option) io"
  fa_requestAccess :: "('w, string option) io"
  fa_signTransaction :: "string \<Rightarrow> string \<Rightarrow> ('w, sign_reply) io"

text \<open>
  \<open>injected\<close> reads the stand-in under \<open>__zapsFreighterApiMock__\<close> of the window, \<open>package\<close> imports
  the package.  Of the answer of \<open>requestAccess\<close> only \<open>error\<close> is used.
\<close>

definition loadFreighterApi ::
  "string \<Rightarrow> bool \<Rightarrow> ('w \<Rightarrow> 'w freighter_api option) \<Rightarrow> ('w, 'w freighter_api) io \<Rightarrow> ('w, 'w freighter_api) io" where
  "loadFreighterApi NODE_ENV window injected package =
     (if NODE_ENV \<noteq> ''production'' \<and> window
      then bnd (asks injected) (\<lambda>i. case i of Some F \<Rightarrow> ret F | None \<Rightarrow> package)
      else package)"

text \<open>\<open>Promise.allSettled\<close> of one promise; its elements run one after the other.\<close>

definition settled :: "('w, 'a) io \<Rightarrow> ('w, 'a res) io" where
  "settled m = (\<lambda>w. case m w of (r, w') \<Rightarrow> (Ret r, w'))"

fun fulfilled :: "string option res \<Rightarrow> string option" where
  "fulfilled (Ret s) = if_truthy s"
| "fulfilled (Throw _) = None"

definition detectFreighter :: "('w, 'w freighter_api) io \<Rightarrow> ('w, FreighterWalletState) io" where
  "detectFreighter load = try_catch
     (bnd load (\<lambda>F. bnd (fa_isConnected F) (\<lambda>connected.
        if \<not> connected then ret \<lparr>fw_installed = True, fw_connected = False, fw_publicKey = None, fw_network = None\<rparr>
        else bnd (settled (fa_getAddress F)) (\<lambda>addr. bnd (settled (fa_getNetwork F)) (\<lambda>network.
          ret \<lparr>fw_installed = True, fw_connected = True, fw_publicKey = fulfilled addr, fw_network = fulfilled network\<rparr>)))))
     (\<lambda>_. ret DEFAULT_WALLET_STATE)"

fun as_error :: "string \<Rightarrow> js_error \<Rightarrow> js_error" where
  "as_error d NonError = Error d"
| "as_error d e = e"

definition connectFreighter :: "('w, 'w freighter_api) io \<Rightarrow> ('w, FreighterWalletState) io" where
  "connectFreighter load = try_catch
     (bnd load (\<lambda>F. bnd (fa_requestAccess F) (\<lambda>error.
        if truthy error then throw (Error (the error)) else detectFreighter load)))
     (\<lambda>e. throw (as_error ''Failed to connect Freighter'' e))"

definition signWithFreighter :: "('w, 'w freighter_api) io \<Rightarrow> string \<Rightarrow> string \<Rightarrow> ('w, string option) io" where
  "signWithFreighter load xdr networkPassphrase =
     bnd load (\<lambda>F. bnd (fa_signTransaction F xdr networkPassphrase) (\<lambda>result.
       if truthy (sr_error result) then throw (Error (the (sr_error result))) else ret (sr_signedTxXdr result)))"

text \<open>The ellipsis is one character, written \<open>CHR 0x85\<close>.  \<open>slice(-0)\<close> is the whole key.\<close>

definition truncateKey :: "string \<Rightarrow> nat \<Rightarrow> nat \<Rightarrow> string" where
  "truncateKey key m n = (if length key \<le> m + n + 3 then key
     else take m key @ [CHR 0x85] @ (if n = 0 then key else drop (length key - n) key))"

section \<open>The remembered session\<close>

definition WALLET_SESSION_KEY :: string where
  "WALLET_SESSION_KEY = ''zaps.wallet.connected''"

definition hasWalletSession :: "(string \<Rightarrow> 'w \<Rightarrow> string option res) \<Rightarrow> bool \<Rightarrow> 'w \<Rightarrow> bool" where
  "hasWalletSession getItem window w \<longleftrightarrow> window \<and> getItem WALLET_SESSION_KEY w = Ret (Some ''true'')"

definition setWalletSession ::
  "(string \<Rightarrow> string \<Rightarrow> ('w, unit) io) \<Rightarrow> (string \<Rightarrow> ('w, unit) io) \<Rightarrow> bool \<Rightarrow> bool \<Rightarrow> 'w \<Rightarrow> 'w" where
  "setWalletSession setItem removeItem window connected w =
     (if \<not> window then w
      else snd ((if connected then setItem WALLET_SESSION_KEY ''true'' else removeItem WALLET_SESSION_KEY) w))"

section \<open>The provider\<close>

record provider =
  wp_wallet :: FreighterWalletState
  wp_restoring :: bool
  wp_connecting :: bool
  wp_error :: "string option"
  wp_mounted :: bool

text \<open>Beside the provider: the browser, and how many requests to the extension are under way.\<close>

record 'w wallet_sys =
  ws_provider :: provider
  ws_web :: 'w
  ws_restores :: nat
  ws_connects :: nat
  ws_signs :: nat

datatype wallet_event =
    Restored "FreighterWalletState res"
  | Connect | Connected "FreighterWalletState res"
  | Disconnect
  | Sign | Signed "string option res"
  | Unmount

text \<open>Mounting runs \<open>restore\<close>, which asks the extension only when a session is recorded.\<close>

definition provider_mounted :: "(string \<Rightarrow> 'w \<Rightarrow> string option res) \<Rightarrow> 'w \<Rightarrow> 'w wallet_sys" where
  "provider_mounted getItem w =
     \<lparr>ws_provider = \<lparr>wp_wallet = DEFAULT_WALLET_STATE, wp_restoring = hasWalletSession getItem True w,
        wp_connecting = False, wp_error = None, wp_mounted = True\<rparr>,
      ws_web = w, ws_restores = (if hasWalletSession getItem True w then 1 else 0), ws_connects = 0, ws_signs = 0\<rparr>"

definition set_session ::
  "(string \<Rightarrow> string \<Rightarrow> ('w, unit) io) \<Rightarrow> (string \<Rightarrow> ('w, unit) io) \<Rightarrow> bool \<Rightarrow> 'w wallet_sys \<Rightarrow> 'w wallet_sys" where
  "set_session setItem removeItem c s = s\<lparr>ws_web := setWalletSession setItem removeItem True c (ws_web s)\<rparr>"

definition put :: "(provider \<Rightarrow> provider) \<Rightarrow> 'w wallet_sys \<Rightarrow> 'w wallet_sys" where
  "put f s = s\<lparr>ws_provider := f (ws_provider s)\<rparr>"

text \<open>The answers; after unmounting they change nothing (\<open>cancelled\<close>, \<open>mountedRef\<close>).\<close>

definition on_restored ::
  "(string \<Rightarrow> string \<Rightarrow> ('w, unit) io) \<Rightarrow> (string \<Rightarrow> ('w, unit) io) \<Rightarrow> FreighterWalletState res \<Rightarrow> 'w wallet_sys \<Rightarrow> 'w wallet_sys" where
  "on_restored setItem removeItem r s =
     (if \<not> wp_mounted (ws_provider s) then s
      else case r of
          Ret detected \<Rightarrow>
            (let s1 = put (\<lambda>p. p\<lparr>wp_wallet := detected, wp_restoring := False\<rparr>) s in
             if fw_connected detected then s1 else set_session setItem removeItem False s1)
        | Throw _ \<Rightarrow> put (\<lambda>p. p\<lparr>wp_wallet := DEFAULT_WALLET_STATE, wp_restoring := False\<rparr>) s)"

definition on_connected ::
  "(string \<Rightarrow> string \<Rightarrow> ('w, unit) io) \<Rightarrow> (string \<Rightarrow> ('w, unit) io) \<Rightarrow> FreighterWalletState res \<Rightarrow> 'w wallet_sys \<Rightarrow> 'w wallet_sys" where
  "on_connected setItem removeItem r s =
     (if \<not> wp_mounted (ws_provider s) then s
      else case r of
          Ret x \<Rightarrow> set_session setItem removeItem (fw_connected x) (put (\<lambda>p. p\<lparr>wp_wallet := x, wp_connecting := False\<rparr>) s)
        | Throw e \<Rightarrow> set_session setItem removeItem False
            (put (\<lambda>p. p\<lparr>wp_wallet := DEFAULT_WALLET_STATE, wp_error := Some (message_or ''Failed to connect wallet'' e),
               wp_connecting := False\<rparr>) s))"

definition disconnect ::
  "(string \<Rightarrow> string \<Rightarrow> ('w, unit) io) \<Rightarrow> (string \<Rightarrow> ('w, unit) io) \<Rightarrow> 'w wallet_sys \<Rightarrow> 'w wallet_sys" where
  "disconnect setItem removeItem s = set_session setItem removeItem False
     (put (\<lambda>p. p\<lparr>wp_wallet := DEFAULT_WALLET_STATE, wp_error := None\<rparr>) s)"

text \<open>An attempt to sign without a wallet is rejected at once and leaves the provider as it is.\<close>

fun wallet_step ::
  "(string \<Rightarrow> string \<Rightarrow> ('w, unit) io) \<Rightarrow> (string \<Rightarrow> ('w, unit) io) \<Rightarrow> wallet_event \<Rightarrow> 'w wallet_sys \<Rightarrow> 'w wallet_sys option" where
  "wallet_step setItem removeItem (Restored r) s = (if ws_restores s = 0 then None
     else Some (on_restored setItem removeItem r (s\<lparr>ws_restores := ws_restores s - 1\<rparr>)))"
| "wallet_step setItem removeItem Connect s = (if \<not> wp_mounted (ws_provider s) then None
     else Some (put (\<lambda>p. p\<lparr>wp_connecting := True, wp_error := None\<rparr>) (s\<lparr>ws_connects := ws_connects s + 1\<rparr>)))"
| "wallet_step setItem removeItem (Connected r) s = (if ws_connects s = 0 then None
     else Some (on_connected setItem removeItem r (s\<lparr>ws_connects := ws_connects s - 1\<rparr>)))"
| "wallet_step setItem removeItem Disconnect s = (if \<not> wp_mounted (ws_provider s) then None
     else Some (disconnect setItem removeItem s))"
| "wallet_step setItem removeItem Sign s = (if \<not> wp_mounted (ws_provider s) then None
     else if \<not> fw_connected (wp_wallet (ws_provider s)) then Some s
     else Some (put (\<lambda>p. p\<lparr>wp_error := None\<rparr>) (s\<lparr>ws_signs := ws_signs s + 1\<rparr>)))"
| "wallet_step setItem removeItem (Signed r) s = (if ws_signs s = 0 then None
     else let s1 = s\<lparr>ws_signs := ws_signs s - 1\<rparr> in
       Some (case r of Ret _ \<Rightarrow> s1
         | Throw e \<Rightarrow> if wp_mounted (ws_provider s)
             then put (\<lambda>p. p\<lparr>wp_error := Some (message_or ''Failed to sign transaction'' e)\<rparr>) s1 else s1))"
| "wallet_step setItem removeItem Unmount s = (if \<not> wp_mounted (ws_provider s) then None
     else Some (put (\<lambda>p. p\<lparr>wp_mounted := False\<rparr>) s))"

fun wallet_run ::
  "(string \<Rightarrow> string \<Rightarrow> ('w, unit) io) \<Rightarrow> (string \<Rightarrow> ('w, unit) io) \<Rightarrow> wallet_event list \<Rightarrow> 'w wallet_sys \<Rightarrow> 'w wallet_sys option" where
  "wallet_run setItem removeItem [] s = Some s"
| "wallet_run setItem removeItem (e # es) s = Option.bind (wallet_step setItem removeItem e s) (wallet_run setItem removeItem es)"

section \<open>Detection\<close>

definition proper_wallet :: "FreighterWalletState \<Rightarrow> bool" where
  "proper_wallet x \<longleftrightarrow> (fw_connected x \<longrightarrow> fw_installed x) \<and> (\<not> fw_connected x \<longrightarrow> fw_publicKey x = None \<and> fw_network x = None)
     \<and> fw_publicKey x \<noteq> Some [] \<and> fw_network x \<noteq> Some []"

lemma fulfilled_ne: "fulfilled r \<noteq> Some []"
  by (cases r) (auto simp: if_truthy_def split: option.splits)

lemma detect_proper: "\<exists>x. fst (detectFreighter load w) = Ret x \<and> proper_wallet x"
  by (auto simp: detectFreighter_def try_catch_def bnd_def settled_def proper_wallet_def DEFAULT_WALLET_STATE_def
      fulfilled_ne split: prod.splits res.splits)

text \<open>
  Detecting the wallet never fails, and what it reports is consistent: a wallet that is not connected
  has no address and no network, and neither is ever the empty string.
\<close>

theorem detect_never_fails:
  "\<exists>x. fst (detectFreighter load w) = Ret x \<and> (fw_connected x \<longrightarrow> fw_installed x)
     \<and> (fw_connected x \<or> fw_publicKey x = None \<and> fw_network x = None)
     \<and> fw_publicKey x \<noteq> Some [] \<and> fw_network x \<noteq> Some []"
  using detect_proper[of load w] by (auto simp: proper_wallet_def)

lemma truncateKey_length:
  "m + n + 3 < length key \<Longrightarrow> 0 < n \<Longrightarrow> length (truncateKey key m n) = m + n + 1
     \<and> take m (truncateKey key m n) = take m key \<and> drop (m + 1) (truncateKey key m n) = drop (length key - n) key"
  by (simp add: truncateKey_def)

section \<open>The provider remembers what it shows\<close>

lemma put_simps [simp]:
  "ws_provider (put f s) = f (ws_provider s)" "ws_web (put f s) = ws_web s" "ws_restores (put f s) = ws_restores s"
  "ws_connects (put f s) = ws_connects s" "ws_signs (put f s) = ws_signs s"
  by (simp_all add: put_def)

lemma set_session_simps [simp]:
  "ws_provider (set_session st rm c s) = ws_provider s" "ws_restores (set_session st rm c s) = ws_restores s"
  "ws_connects (set_session st rm c s) = ws_connects s" "ws_signs (set_session st rm c s) = ws_signs s"
  by (simp_all add: set_session_def)

text \<open>An event is orderly when a request to connect and a disconnection wait for the requests under way.\<close>

definition orderly :: "wallet_event \<Rightarrow> 'w wallet_sys \<Rightarrow> bool" where
  "orderly e s \<longleftrightarrow> (e = Connect \<or> e = Disconnect) \<longrightarrow> ws_restores s = 0 \<and> ws_connects s = 0"

text \<open>
  \<open>localStorage\<close> may refuse a write (\<open>setWalletSession\<close> is best effort): an event is recordable when, if it shows a
  connected wallet, the write of its record is accepted.
\<close>

definition recordable :: "(string \<Rightarrow> string \<Rightarrow> ('w, unit) io) \<Rightarrow> wallet_event \<Rightarrow> 'w wallet_sys \<Rightarrow> bool" where
  "recordable setItem e s \<longleftrightarrow> (case e of
       Connected (Ret x) \<Rightarrow> wp_mounted (ws_provider s) \<and> fw_connected x \<longrightarrow> is_Ret (fst (setItem WALLET_SESSION_KEY ''true'' (ws_web s)))
     | _ \<Rightarrow> True)"

text \<open>Every event of a run has the property, in the state it happens in.\<close>

fun throughout ::
  "(wallet_event \<Rightarrow> 'w wallet_sys \<Rightarrow> bool) \<Rightarrow> (string \<Rightarrow> string \<Rightarrow> ('w, unit) io) \<Rightarrow> (string \<Rightarrow> ('w, unit) io)
     \<Rightarrow> wallet_event list \<Rightarrow> 'w wallet_sys \<Rightarrow> bool" where
  "throughout P setItem removeItem [] s = True"
| "throughout P setItem removeItem (e # es) s = (P e s \<and>
     (case wallet_step setItem removeItem e s of None \<Rightarrow> True | Some s' \<Rightarrow> throughout P setItem removeItem es s'))"

text \<open>\<open>r\<close>: so far every record was accepted.\<close>

definition session_inv :: "(string \<Rightarrow> 'w \<Rightarrow> string option res) \<Rightarrow> bool \<Rightarrow> 'w wallet_sys \<Rightarrow> bool" where
  "session_inv getItem r s \<longleftrightarrow> (let p = ws_provider s in wp_mounted p \<longrightarrow>
     ws_restores s + ws_connects s \<le> 1 \<and> (wp_restoring p \<longleftrightarrow> ws_restores s = 1) \<and> (wp_connecting p \<longleftrightarrow> ws_connects s = 1)
     \<and> (r \<and> (fw_connected (wp_wallet p) \<or> ws_restores s = 1) \<longrightarrow> hasWalletSession getItem True (ws_web s)))"

locale wallet_store = kv_store getItem setItem removeItem
  for getItem :: "string \<Rightarrow> 'w \<Rightarrow> string option res"
    and setItem :: "string \<Rightarrow> string \<Rightarrow> ('w, unit) io"
    and removeItem :: "string \<Rightarrow> ('w, unit) io"
begin

lemma session_recorded:
  "is_Ret (fst (setItem WALLET_SESSION_KEY ''true'' w)) \<Longrightarrow> hasWalletSession getItem True (setWalletSession setItem removeItem True True w)"
  using get_set[of WALLET_SESSION_KEY "''true''" w]
  by (cases "setItem WALLET_SESSION_KEY ''true'' w"; cases "fst (setItem WALLET_SESSION_KEY ''true'' w)")
     (auto simp: setWalletSession_def hasWalletSession_def)

lemma session_unrecorded:
  "setItem WALLET_SESSION_KEY ''true'' w = (Throw e, w') \<Longrightarrow>
     hasWalletSession getItem True (setWalletSession setItem removeItem True True w) = hasWalletSession getItem True w"
  using get_set_fail[of WALLET_SESSION_KEY "''true''" w e w'] by (simp add: setWalletSession_def hasWalletSession_def)

lemma mounted_inv: "session_inv getItem r (provider_mounted getItem w)"
  by (simp add: session_inv_def provider_mounted_def DEFAULT_WALLET_STATE_def)

lemma step_inv:
  assumes "wallet_step setItem removeItem e s = Some s'" "orderly e s" "session_inv getItem r s"
  shows "session_inv getItem (r \<and> recordable setItem e s) s'"
  using assms
  by (cases e) (auto simp: session_inv_def Let_def orderly_def recordable_def on_restored_def on_connected_def disconnect_def
      set_session_def session_recorded DEFAULT_WALLET_STATE_def split: if_splits res.splits)

lemma run_inv:
  "wallet_run setItem removeItem es s = Some s' \<Longrightarrow> throughout orderly setItem removeItem es s \<Longrightarrow> session_inv getItem r s
    \<Longrightarrow> session_inv getItem (r \<and> throughout (recordable setItem) setItem removeItem es s) s'"
proof (induction es arbitrary: s r)
  case (Cons e es)
  then obtain s1 where s1: "wallet_step setItem removeItem e s = Some s1" "wallet_run setItem removeItem es s1 = Some s'"
    by (auto simp: Option.bind_eq_Some_conv)
  with Cons.prems have "session_inv getItem (r \<and> recordable setItem e s) s1" "throughout orderly setItem removeItem es s1"
    using step_inv by auto
  from Cons.IH[OF s1(2) this(2,1)] s1(1) show ?case by (simp add: conj_assoc)
qed simp

text \<open>Nobody asked to connect and no session is recorded.\<close>

definition untouched :: "'w wallet_sys \<Rightarrow> bool" where
  "untouched s \<longleftrightarrow> wp_wallet (ws_provider s) = DEFAULT_WALLET_STATE \<and> ws_restores s = 0 \<and> ws_connects s = 0 \<and> ws_signs s = 0"

lemma run_untouched:
  "wallet_run setItem removeItem es s = Some s' \<Longrightarrow> Connect \<notin> set es \<Longrightarrow> untouched s \<Longrightarrow> untouched s'"
proof (induction es arbitrary: s)
  case (Cons e es)
  then obtain s1 where s1: "wallet_step setItem removeItem e s = Some s1" "wallet_run setItem removeItem es s1 = Some s'"
    by (auto simp: Option.bind_eq_Some_conv)
  with Cons.prems have "untouched s1"
    by (cases e) (auto simp: untouched_def disconnect_def DEFAULT_WALLET_STATE_def split: if_splits)
  with Cons s1 show ?case by simp
qed simp

end

interpretation wmem: wallet_store mem_getItem mem_setItem mem_removeItem
  by unfold_locales

interpretation wdev: wallet_store dev_getItem dev_setItem dev_removeItem
  by unfold_locales

type_synonym wallet_mem = "(string \<rightharpoonup> string) wallet_sys"

definition mem_wallet_run :: "wallet_event list \<Rightarrow> wallet_mem \<Rightarrow> wallet_mem option" where
  "mem_wallet_run = wallet_run mem_setItem mem_removeItem"

definition mem_wallet_mounted :: "(string \<rightharpoonup> string) \<Rightarrow> wallet_mem" where
  "mem_wallet_mounted = provider_mounted mem_getItem"

text \<open>
  A visitor who never granted access is left alone: as long as the connect button is not pressed, the
  extension is asked nothing and no wallet is shown, whatever else happens.
\<close>

theorem first_visit_left_alone:
  assumes "\<not> hasWalletSession mem_getItem True w" "mem_wallet_run es (mem_wallet_mounted w) = Some s" "Connect \<notin> set es"
  shows "wp_wallet (ws_provider s) = DEFAULT_WALLET_STATE \<and> ws_restores s = 0 \<and> ws_connects s = 0 \<and> ws_signs s = 0"
proof -
  have "wmem.untouched (mem_wallet_mounted w)"
    using assms(1) by (simp add: wmem.untouched_def mem_wallet_mounted_def provider_mounted_def)
  then have "wmem.untouched s" using wmem.run_untouched assms(2,3) by (auto simp: mem_wallet_run_def)
  then show ?thesis by (simp add: wmem.untouched_def)
qed

theorem first_visit_left_alone_witness:
  "\<exists>s. mem_wallet_run [Sign, Disconnect, Unmount] (mem_wallet_mounted Map.empty) = Some s
     \<and> wp_wallet (ws_provider s) = DEFAULT_WALLET_STATE \<and> ws_restores s = 0"
proof -
  obtain s where s: "mem_wallet_run [Sign, Disconnect, Unmount] (mem_wallet_mounted Map.empty) = Some s"
    by (simp add: mem_wallet_run_def mem_wallet_mounted_def provider_mounted_def hasWalletSession_def
        mem_getItem_def DEFAULT_WALLET_STATE_def disconnect_def)
  have "\<not> hasWalletSession mem_getItem True Map.empty" by (simp add: hasWalletSession_def mem_getItem_def)
  from first_visit_left_alone[OF this s] s show ?thesis by simp
qed

text \<open>
  C17: The provider remembers what it shows, as far as the browser lets it.  Over any store, provided that
  connecting and disconnecting wait for earlier requests: while the provider is mounted, the flags
  \<open>restoring\<close> and \<open>connecting\<close> are up exactly while their request is under way and at most one is;
  and a connected wallet on show is recorded for the next visit, unless the store refused the write of
  the record of a wallet that was connected, which \<open>setWalletSession\<close> passes over as best effort.
\<close>

theorem shown_wallet_is_recorded:
  assumes "kv_store getItem setItem removeItem"
    and "wallet_run setItem removeItem es (provider_mounted getItem w) = Some s"
    and "throughout orderly setItem removeItem es (provider_mounted getItem w)"
    and "wp_mounted (ws_provider s)"
  shows "(throughout (recordable setItem) setItem removeItem es (provider_mounted getItem w) \<and> fw_connected (wp_wallet (ws_provider s))
        \<longrightarrow> hasWalletSession getItem True (ws_web s))
    \<and> (wp_restoring (ws_provider s) \<longleftrightarrow> ws_restores s = 1) \<and> (wp_connecting (ws_provider s) \<longleftrightarrow> ws_connects s = 1)
    \<and> ws_restores s + ws_connects s \<le> 1"
proof -
  have l: "wallet_store getItem setItem removeItem" using assms(1) by (rule wallet_store.intro)
  from wallet_store.run_inv[OF l assms(2,3) wallet_store.mounted_inv[OF l, of True]] assms(4)
  show ?thesis by (simp add: session_inv_def Let_def)
qed

text \<open>
  A wallet whose record the store refuses is shown all the same, and the record is what it was: with none
  before, the next visit does not reconnect.
\<close>

theorem refused_record_unnoticed:
  assumes "kv_store getItem setItem removeItem" "wp_mounted (ws_provider s)" "ws_connects s = 1" "fw_connected x"
    and "setItem WALLET_SESSION_KEY ''true'' (ws_web s) = (Throw e, w')"
  shows "\<exists>s'. wallet_step setItem removeItem (Connected (Ret x)) s = Some s' \<and> wp_wallet (ws_provider s') = x
    \<and> wp_error (ws_provider s') = wp_error (ws_provider s)
    \<and> hasWalletSession getItem True (ws_web s') = hasWalletSession getItem True (ws_web s)"
  using wallet_store.session_unrecorded[OF wallet_store.intro[OF assms(1)] assms(5)] assms(2-4)
  by (auto simp: on_connected_def set_session_def)

definition granted :: FreighterWalletState where
  "granted = \<lparr>fw_installed = True, fw_connected = True, fw_publicKey = Some ''GA1YEF'', fw_network = Some ''TESTNET''\<rparr>"

lemmas wallet_eval = mem_wallet_run_def mem_wallet_mounted_def provider_mounted_def hasWalletSession_def mem_getItem_def
  DEFAULT_WALLET_STATE_def granted_def on_connected_def on_restored_def disconnect_def orderly_def set_session_def
  setWalletSession_def mem_setItem_def mem_removeItem_def put_def

theorem shown_wallet_is_recorded_witness:
  "\<exists>s. wallet_run mem_setItem mem_removeItem [Connect, Connected (Ret granted)] (provider_mounted mem_getItem Map.empty) = Some s
     \<and> fw_connected (wp_wallet (ws_provider s)) \<and> hasWalletSession mem_getItem True (ws_web s)"
proof -
  let ?s0 = "provider_mounted mem_getItem Map.empty" and ?es = "[Connect, Connected (Ret granted)]"
  obtain s where s: "wallet_run mem_setItem mem_removeItem ?es ?s0 = Some s" "fw_connected (wp_wallet (ws_provider s))"
    "wp_mounted (ws_provider s)"
    by (simp add: wallet_eval)
  have "throughout orderly mem_setItem mem_removeItem ?es ?s0" "throughout (recordable mem_setItem) mem_setItem mem_removeItem ?es ?s0"
    by (simp_all add: wallet_eval recordable_def)
  with shown_wallet_is_recorded[OF mem.kv_store_axioms s(1) _ s(3)] s show ?thesis by blast
qed

theorem refused_record_unnoticed_witness:
  "\<exists>s s' :: (string, unit, unit) device wallet_sys.
     wallet_run dev_setItem dev_removeItem [Connect] (provider_mounted dev_getItem (blank_device\<lparr>dev_kv_broken := True\<rparr>)) = Some s
     \<and> wallet_step dev_setItem dev_removeItem (Connected (Ret granted)) s = Some s' \<and> wp_wallet (ws_provider s') = granted
     \<and> \<not> hasWalletSession dev_getItem True (ws_web s')"
proof -
  let ?d = "blank_device\<lparr>dev_kv_broken := True\<rparr> :: (string, unit, unit) device"
  obtain s where s: "wallet_run dev_setItem dev_removeItem [Connect] (provider_mounted dev_getItem ?d) = Some s"
    "wp_mounted (ws_provider s)" "ws_connects s = 1" "ws_web s = ?d"
    by (simp add: provider_mounted_def hasWalletSession_def dev_getItem_def)
  have "dev_setItem WALLET_SESSION_KEY ''true'' (ws_web s) = (Throw storage_error, ?d)" by (simp add: s(4) dev_setItem_def)
  from refused_record_unnoticed[OF dev_kvs.kv_store_axioms s(2,3) _ this, of granted] s
  show ?thesis by (auto simp: granted_def hasWalletSession_def dev_getItem_def)
qed

text \<open>
  Disconnecting while the wallet of the last visit is being restored does not last: the answer of the
  extension shows the wallet again, although no session is recorded any more.
\<close>

theorem disconnect_undone_by_restore:
  "\<exists>s. mem_wallet_run [Disconnect, Restored (Ret granted)] (mem_wallet_mounted [WALLET_SESSION_KEY \<mapsto> ''true'']) = Some s
     \<and> wp_wallet (ws_provider s) = granted \<and> \<not> hasWalletSession mem_getItem True (ws_web s)"
  by (simp add: wallet_eval)

text \<open>
  A package that reports no connection is taken for an installed but disconnected extension: only a
  rejection is read as an extension that is missing.
\<close>

theorem unreachable_extension_installed:
  assumes "load w = (Ret F, w1)" "fa_isConnected F w1 = (Ret False, w2)"
  shows "detectFreighter load w = (Ret \<lparr>fw_installed = True, fw_connected = False, fw_publicKey = None, fw_network = None\<rparr>, w2)"
  using assms by (simp add: detectFreighter_def io_simps)

end
