(* ===== verification/Js_Arith.thy ===== *)
theory Js_Arith
  imports Js_Format
begin

text \<open>
  More of the \<open>number\<close> type: subtraction, division, \<open>Math.abs\<close>, and the facts about rounding that
  the percentages and indices of the dashboard need.  \<open>Number(x.toFixed(f))\<close> is the nearest double
  to the nearest multiple of \<open>10 powi -f\<close>; it is monotone, and a value of that form is a fixed point.
\<close>

section \<open>Operations\<close>

fun num_neg :: "js_num \<Rightarrow> js_num" where
  "num_neg (Fin x) = Fin (- x)"
| "num_neg (Infty b) = Infty (\<not> b)"
| "num_neg NaN = NaN"

definition num_sub :: "js_num \<Rightarrow> js_num \<Rightarrow> js_num" where
  "num_sub x y = num_add x (num_neg y)"

text \<open>Division; the divisors of the modelled code are never a zero whose sign would matter.\<close>

fun num_div :: "js_num \<Rightarrow> js_num \<Rightarrow> js_num" where
  "num_div (Fin x) (Fin y) = (if y = 0 then (if x = 0 then NaN else Infty (0 < x)) else to_num (x / y))"
| "num_div NaN _ = NaN"
| "num_div _ NaN = NaN"
| "num_div (Infty a) (Infty b) = NaN"
| "num_div (Infty a) (Fin y) = Infty (a = (0 \<le> y))"
| "num_div (Fin x) (Infty b) = Fin 0"

fun num_abs :: "js_num \<Rightarrow> js_num" where
  "num_abs (Fin x) = Fin \<bar>x\<bar>"
| "num_abs (Infty b) = Infty True"
| "num_abs NaN = NaN"

text \<open>\<open>Number(x.toFixed(f))\<close>.\<close>

definition fixed :: "nat \<Rightarrow> js_num \<Rightarrow> js_num" where
  "fixed f x = Number (toFixed f x)"

section \<open>Rounding\<close>

lemma to_num_le:
  assumes "0 \<le> x" "x \<le> of_nat n" "n \<le> 2 ^ 53"
  shows "\<exists>y. to_num x = Fin y \<and> y = round_double x \<and> 0 \<le> y \<and> y \<le> of_nat n"
proof -
  have n: "round_double (of_nat n) = of_nat n" using round_double_of_int[of "int n"] assms(3) by simp
  have y: "0 \<le> round_double x" "round_double x \<le> of_nat n"
    using round_double_nonneg[OF assms(1)] round_double_mono[OF assms(2)] n by simp_all
  have "(of_nat n :: rat) \<le> of_nat (2 ^ 53)" using assms(3) by (simp only: of_nat_le_iff)
  moreover have "(2::rat) ^ 53 < double_limit" unfolding double_limit_def by (rule power_strict_increasing) simp_all
  ultimately have "\<not> double_limit \<le> round_double x" "\<not> round_double x \<le> - double_limit"
    using y by (simp_all add: not_le)
  then show ?thesis using y by (simp add: to_num_def)
qed

lemma round_even_close: "\<bar>of_int (round_even x) - x\<bar> \<le> 1 / 2"
proof -
  have "of_int \<lfloor>x\<rfloor> \<le> x" "x < of_int \<lfloor>x\<rfloor> + 1" by linarith+
  then show ?thesis unfolding round_even_def Let_def by (auto simp: abs_le_iff)
qed

text \<open>The relative error of rounding is at most \<open>2 powi -53\<close>, away from the smallest numbers.\<close>

lemma round_double_close:
  assumes "0 < x" "-1022 \<le> ilog2 x"
  shows "\<bar>round_double x - x\<bar> \<le> x / 2 ^ 53"
proof -
  let ?u = "2 powi ulp_exp x :: rat"
  have u: "ulp_exp x = ilog2 x - 52" using assms by (simp add: ulp_exp_def)
  have "\<bar>of_int (round_even (x / ?u)) - x / ?u\<bar> * ?u \<le> 1 / 2 * ?u"
    by (intro mult_right_mono round_even_close) simp
  also have "\<bar>of_int (round_even (x / ?u)) - x / ?u\<bar> * ?u = \<bar>(of_int (round_even (x / ?u)) - x / ?u) * ?u\<bar>"
    by (simp add: abs_mult)
  also have "(of_int (round_even (x / ?u)) - x / ?u) * ?u = round_double x - x"
    using assms(1) by (simp add: round_double_def algebra_simps)
  finally have "\<bar>round_double x - x\<bar> \<le> 1 / 2 * ?u" .
  also have "?u = 2 powi ilog2 x / 2 ^ 52" unfolding u by (simp add: power_int_diff)
  also have "1 / 2 * (2 powi ilog2 x / 2 ^ 52) \<le> x / 2 ^ 53"
    using ilog2_bounds(1)[OF assms(1)] by simp
  finally show ?thesis .
qed

section \<open>Reading fixed notation\<close>

lemma digits_val_zeros: "digits_val (replicate k (CHR ''0'') @ s) = digits_val s"
  by (induction k) (simp_all add: digits_val_def)

lemma Number_fixed_digits:
  assumes "0 < f"
  shows "Number (fixed_digits f n) = to_num (of_nat n / 10 ^ f)"
proof -
  define ps where "ps = replicate (Suc f - length (nat_digits n)) (CHR ''0'') @ nat_digits n"
  define i where "i = take (length ps - f) ps"
  define d where "d = drop (length ps - f) ps"
  have ps: "list_all is_digit ps" "Suc f \<le> length ps" "digits_val ps = n"
    using nat_digits_digit[of n] by (auto simp: ps_def digits_val_zeros list_all_iff is_digit_def)
  have idd: "i @ d = ps" "length d = f" "i \<noteq> []" "list_all is_digit i" "list_all is_digit d" "d \<noteq> []"
    using ps assms by (auto simp: i_def d_def list_all_iff dest: in_set_takeD in_set_dropD)
  let ?s = "i @ ''.'' @ d"
  have fd: "fixed_digits f n = ?s" using assms by (simp add: fixed_digits_def ps_def i_def d_def Let_def)
  obtain c r where cr: "i = c # r" using idd(3) by (cases i) auto
  then have c: "is_digit c" using idd(4) by simp
  have ws: "list_all (\<lambda>c. \<not> is_ws c) ?s"
    using idd(4,5) is_digit_not_ws by (auto simp: list_all_iff is_ws_def)
  have inf: "\<not> startsWith ?s ''Infinity''" using cr c by (auto simp: startsWith_def is_digit_def)
  have dot: "\<not> is_digit (CHR ''.'')" by (simp add: is_digit_def)
  have sp: "span is_digit ?s = (i, ''.'' @ d)" "span is_digit d = (d, [])"
    using idd(4,5) dot by (auto simp: span_def list_all_iff takeWhile_append dropWhile_append takeWhile_eq_all_conv)
  have "unsigned_decimal ?s = Some (of_nat n / 10 ^ f, [])"
    using idd ps(3) sp by (simp add: unsigned_decimal_def exponent_part_def)
  moreover have "c \<noteq> CHR ''-''" "c \<noteq> CHR ''+''" using is_digit_not_sign[OF c] by auto
  ultimately have "signed_decimal ?s = Some (to_num (of_nat n / 10 ^ f), [])"
    using cr inf by (simp add: signed_decimal_def)
  moreover have "radix_literal ?s = None"
  proof -
    obtain x y where xy: "r @ ''.'' @ d = x # y" by (cases "r @ ''.'' @ d") auto
    have "x = CHR ''.'' \<or> is_digit x" using xy idd(4) cr by (cases r) auto
    then have "x \<noteq> CHR ''x''" "x \<noteq> CHR ''X''" "x \<noteq> CHR ''o''" "x \<noteq> CHR ''O''" "x \<noteq> CHR ''b''" "x \<noteq> CHR ''B''"
      by (auto simp: is_digit_def)
    then show ?thesis using xy cr by (simp add: radix_literal_def)
  qed
  ultimately show ?thesis using trim_no_ws[OF ws] cr unfolding fd by (simp add: Number_def)
qed

lemma fixed_eq:
  assumes "0 \<le> q" "q < 10 ^ 21" "0 < f"
  shows "fixed f (Fin q) = to_num (of_nat (nat \<lfloor>q * 10 ^ f + 1 / 2\<rfloor>) / 10 ^ f)"
  using assms by (simp add: fixed_def Number_fixed_digits)

lemma fixed_le:
  assumes "0 \<le> q" "q \<le> of_nat n" "n \<le> 2 ^ 53" "0 < f"
  shows "\<exists>y. fixed f (Fin q) = Fin y \<and> 0 \<le> y \<and> y \<le> of_nat n"
proof -
  have "(of_nat n :: rat) \<le> of_nat (2 ^ 53)" using assms(3) by (simp only: of_nat_le_iff)
  with assms(2) have q: "q < 10 ^ 21" by simp
  have "q * 10 ^ f \<le> of_nat (n * 10 ^ f)" using assms(2) by (simp add: mult_right_mono)
  then have "\<lfloor>q * 10 ^ f + 1 / 2\<rfloor> \<le> \<lfloor>of_int (int (n * 10 ^ f)) + 1 / 2 :: rat\<rfloor>" by (intro floor_mono) simp
  also have "\<dots> = int (n * 10 ^ f)" by linarith
  finally have "nat \<lfloor>q * 10 ^ f + 1 / 2\<rfloor> \<le> n * 10 ^ f" by linarith
  then have "(of_nat (nat \<lfloor>q * 10 ^ f + 1 / 2\<rfloor>) :: rat) \<le> of_nat (n * 10 ^ f)" by (simp only: of_nat_le_iff)
  then have "(of_nat (nat \<lfloor>q * 10 ^ f + 1 / 2\<rfloor>) :: rat) / 10 ^ f \<le> of_nat n" by (simp add: field_simps)
  with to_num_le[OF _ this assms(3)] show ?thesis using fixed_eq[OF assms(1) q assms(4)] by auto
qed

section \<open>The decimal grid\<close>

text \<open>The nearest double to \<open>k / 10 ^ f\<close> still tells \<open>k\<close>.\<close>

lemma grid_close:
  assumes "0 < k" "k < 2 ^ 52" "f \<le> 20"
  shows "\<bar>round_double (of_nat k / 10 ^ f) * 10 ^ f - of_nat k\<bar> < 1 / 2"
proof -
  let ?x = "of_nat k / 10 ^ f :: rat"
  have x: "0 < ?x" using assms(1) by simp
  have "2 powi (-1022) \<le> ?x"
  proof -
    have "(10::rat) ^ f \<le> 10 ^ 20" using assms(3) by (intro power_increasing) simp_all
    also have "\<dots> \<le> 2 ^ 1022" by (rule order_trans[of _ "2 ^ 67"]) (simp, rule power_increasing, simp_all)
    finally have "1 / 2 ^ 1022 \<le> 1 / (10 :: rat) ^ f" by (intro divide_left_mono) simp_all
    also have "\<dots> \<le> ?x" using assms(1) by (intro divide_right_mono) simp_all
    finally show ?thesis by (simp add: power_int_minus inverse_eq_divide)
  qed
  then have "ilog2 (2 powi (-1022)) \<le> ilog2 ?x" by (intro ilog2_mono) simp_all
  moreover have "ilog2 (2 powi (-1022)) = -1022" by (rule ilog2_unique) simp_all
  ultimately have "\<bar>round_double ?x - ?x\<bar> \<le> ?x / 2 ^ 53" using round_double_close[OF x] by simp
  then have "\<bar>round_double ?x - ?x\<bar> * 10 ^ f \<le> ?x / 2 ^ 53 * 10 ^ f" by (intro mult_right_mono) simp_all
  also have "?x / 2 ^ 53 * 10 ^ f = of_nat k / 2 ^ 53" by simp
  also have "\<dots> < 1 / 2"
  proof -
    have "(of_nat k :: rat) < of_nat (2 ^ 52)" using assms(2) by (simp only: of_nat_less_iff)
    then show ?thesis by simp
  qed
  also have "\<bar>round_double ?x - ?x\<bar> * 10 ^ f = \<bar>round_double ?x * 10 ^ f - of_nat k\<bar>"
    by (simp add: abs_mult_pos left_diff_distrib flip: abs_mult)
  finally show ?thesis .
qed

lemma grid_floor:
  assumes "0 < k" "k < 2 ^ 52" "f \<le> 20" "round_double (of_nat k / 10 ^ f) \<le> x"
  shows "k \<le> nat \<lfloor>x * 10 ^ f + 1 / 2\<rfloor>"
proof -
  have "of_nat k - 1 / 2 < round_double (of_nat k / 10 ^ f) * 10 ^ f" using grid_close[OF assms(1-3)] by linarith
  also have "\<dots> \<le> x * 10 ^ f" using assms(4) by (intro mult_right_mono) simp_all
  finally have "of_int (int k) \<le> x * 10 ^ f + 1 / 2" by simp
  then have "int k \<le> \<lfloor>x * 10 ^ f + 1 / 2\<rfloor>" by (simp only: le_floor_iff)
  then show ?thesis by linarith
qed

lemma to_num_mono: "to_num x = Fin a \<Longrightarrow> to_num y = Fin b \<Longrightarrow> x \<le> y \<Longrightarrow> a \<le> b"
  using round_double_mono[of x y] by (auto simp: to_num_def Let_def split: if_splits)

text \<open>Rounding to \<open>f\<close> decimals never takes a value below a grid point under it.\<close>

theorem fixed_above_grid:
  assumes "0 < k" "k < 2 ^ 52" "0 < f" "f \<le> 20" "round_double (of_nat k / 10 ^ f) \<le> x" "x < 10 ^ 21"
  shows "\<exists>k' \<ge> k. fixed f (Fin x) = to_num (of_nat k' / 10 ^ f)"
proof -
  have "0 \<le> x" using round_double_nonneg[of "of_nat k / 10 ^ f"] assms(5) by simp
  from fixed_eq[OF this assms(6,3)] grid_floor[OF assms(1,2,4,5)] show ?thesis by blast
qed

theorem fixed_on_grid:
  assumes "0 < k" "k < 2 ^ 52" "0 < f" "f \<le> 20" "to_num (of_nat k / 10 ^ f) = Fin b"
  shows "fixed f (Fin b) = Fin b"
proof -
  have b: "b = round_double (of_nat k / 10 ^ f)" using assms(5) by (auto simp: to_num_def Let_def split: if_splits)
  have "(of_nat k :: rat) < of_nat (2 ^ 52)" using assms(2) by (simp only: of_nat_less_iff)
  moreover have "(of_nat k :: rat) / 10 ^ f \<le> of_nat k / 1" by (intro divide_left_mono) simp_all
  ultimately have x: "(of_nat k :: rat) / 10 ^ f \<le> of_nat (2 ^ 52)" by linarith
  have "0 \<le> b" "b \<le> of_nat (2 ^ 52)"
    using to_num_le[OF _ x] assms(5) by auto
  then have bs: "0 \<le> b" "b < 10 ^ 21" by simp_all
  have "\<bar>b * 10 ^ f - of_nat k\<bar> < 1 / 2" using grid_close[OF assms(1,2,4)] b by simp
  then have "\<lfloor>b * 10 ^ f + 1 / 2\<rfloor> = int k" by (intro floor_unique) linarith+
  then show ?thesis using fixed_eq[OF bs assms(3)] assms(5) by simp
qed

section \<open>Reading literals\<close>

lemma to_num_binary:
  assumes "\<bar>m\<bar> \<le> 2 ^ 53" "k \<le> 1074"
  shows "to_num (of_int m / 2 ^ k) = Fin (of_int m / 2 ^ k)"
proof -
  have "(of_int m :: rat) / 2 ^ k = of_int m * 2 powi (- int k)" by (simp add: power_int_minus field_simps)
  then have r: "round_double (of_int m / 2 ^ k) = of_int m / 2 ^ k"
    using assms by (intro round_double_exact[of _ m "- int k"]) simp_all
  have "(of_int \<bar>m\<bar> :: rat) \<le> of_int (2 ^ 53)" using assms(1) by (simp only: of_int_le_iff)
  then have a: "\<bar>of_int m :: rat\<bar> / 1 \<le> 2 ^ 53" by simp
  have "\<bar>of_int m :: rat\<bar> / 2 ^ k \<le> \<bar>of_int m\<bar> / 1" by (intro divide_left_mono) simp_all
  with a have "\<bar>of_int m / 2 ^ k :: rat\<bar> \<le> 2 ^ 53" by simp
  moreover have "2 ^ 53 < double_limit" unfolding double_limit_def by (rule power_strict_increasing) simp_all
  ultimately have "\<not> double_limit \<le> of_int m / 2 ^ k" "\<not> of_int m / 2 ^ k \<le> - double_limit" by linarith+
  then show ?thesis by (simp add: to_num_def r)
qed

text \<open>A text that starts with a digit is read without its sign and its infinity cases.\<close>

lemma parseFloat_unsigned:
  assumes "unsigned_decimal s = Some (v, t)" "is_digit (hd s)" "s \<noteq> []"
  shows "parseFloat s = to_num v"
proof -
  obtain c r where s: "s = c # r" using assms(3) by (cases s) auto
  then have c: "is_digit c" using assms(2) by simp
  have "\<not> is_ws c" "c \<noteq> CHR ''-''" "c \<noteq> CHR ''+''" "c \<noteq> CHR ''I''"
    using is_digit_not_ws[OF c] is_digit_not_sign[OF c] c by (auto simp: is_digit_def)
  then show ?thesis using assms(1) by (simp add: s parseFloat_def signed_decimal_def startsWith_def)
qed

end
