(* ===== verification/Audit_Log.thy ===== *)
theory Audit_Log
  imports Js_Arith Dashboard_Api "HOL-Library.Multiset"
begin

text \<open>
  The ledger audit log of the yield page (\<open>dashboard/app/dashboard/yield/page.tsx\<close>): its entries,
  fetching and merging, the filters, sorting, paging and the statistics.  Three functions of the
  platform are parameters: \<open>date_of\<close> is \<open>new Date(s).getTime()\<close>, \<open>collate\<close> is \<open>localeCompare\<close>, and
  the server is an event of the transition system, as every answer is.  The dash that stands for no
  asset is one character, written \<open>CHR 0x97\<close>.
\<close>

section \<open>Entries\<close>

datatype tx_action = Deposit | Withdraw | Yield_accrual | Config

fun action_str :: "tx_action \<Rightarrow> string" where
  "action_str Deposit = ''deposit''"
| "action_str Withdraw = ''withdraw''"
| "action_str Yield_accrual = ''yield_accrual''"
| "action_str Config = ''config''"

record YieldTx =
  yt_id :: string
  yt_txHash :: string
  yt_timestamp :: string
  yt_address :: string
  yt_action :: tx_action
  yt_tokenVolume :: js_num
  yt_asset :: string
  yt_blockHeight :: "js_num option"
  yt_fee :: "js_num option"
  yt_yieldIndex :: "js_num option"
  yt_details :: "string option"

definition mock_tx ::
  "string \<Rightarrow> string \<Rightarrow> string \<Rightarrow> string \<Rightarrow> tx_action \<Rightarrow> rat \<Rightarrow> string \<Rightarrow> rat \<Rightarrow> rat \<Rightarrow> YieldTx" where
  "mock_tx i hash time address action volume asset block idx =
     \<lparr>yt_id = i, yt_txHash = hash, yt_timestamp = time, yt_address = address, yt_action = action,
      yt_tokenVolume = to_num volume, yt_asset = asset, yt_blockHeight = Some (to_num block),
      yt_fee = Some (to_num (1 / 100000)), yt_yieldIndex = Some (to_num (idx / 100000000)), yt_details = None\<rparr>"

definition MOCK_TXS :: "YieldTx list" where
  "MOCK_TXS =
    [mock_tx ''1'' ''abc123def456789012345678901234567890abcd'' ''2026-06-25T10:00:00Z''
       ''GD3XABCDEFGHIJKLMNOPQRSTUVWXYZ12345678ABCD'' Deposit 1000 ''USDC'' 48231902 104285012,
     mock_tx ''2'' ''bcd234efg5678901234567890123456789012345'' ''2026-06-24T15:30:00Z''
       ''GA1YEFGHIJKLMNOPQRSTUVWXYZ1234567890EFGH'' Yield_accrual (255 / 10) ''USDC'' 48198344 104261295,
     mock_tx ''3'' ''cde345fgh6789012345678901234567890123456'' ''2026-06-23T09:15:00Z''
       ''GB2ZIJKLMNOPQRSTUVWXYZ1234567890ABCDIJKL'' Withdraw 500 ''USDC'' 48164721 104238714,
     (mock_tx ''4'' ''def456ghi7890123456789012345678901234567'' ''2026-06-22T12:00:00Z''
       ''GD3XABCDEFGHIJKLMNOPQRSTUVWXYZ12345678ABCD'' Config 0 [CHR 0x97] 48131050 104215433)
       \<lparr>yt_details := Some ''Admin updated APY parameters and yield curve''\<rparr>,
     mock_tx ''5'' ''efg567hij8901234567890123456789012345678'' ''2026-06-21T08:45:00Z''
       ''GC4AMNOPQRSTUVWXYZ1234567890ABCDEFGHMNOP'' Deposit 2500 ''USDC'' 48097389 104192015,
     mock_tx ''6'' ''fgh678ijk9012345678901234567890123456789'' ''2026-06-20T17:20:00Z''
       ''GE5BOPQRSTUVWXYZ1234567890ABCDEFGHIJOPQR'' Yield_accrual (623 / 10) ''USDC'' 48063728 104168924,
     mock_tx ''7'' ''ghi789jkl0123456789012345678901234567890'' ''2026-06-19T11:05:00Z''
       ''GF6CQRSTUVWXYZ1234567890ABCDEFGHIJKLQRST'' Withdraw 1200 ''USDC'' 48030067 104145781,
     mock_tx ''8'' ''hij890klm1234567890123456789012345678901'' ''2026-06-18T14:55:00Z''
       ''GA1YEFGHIJKLMNOPQRSTUVWXYZ1234567890EFGH'' Deposit 750 ''USDC'' 47996406 104122509]"

section \<open>Filters, order and pages\<close>

datatype sort_key = By_timestamp | By_address | By_action | By_tokenVolume

record audit =
  au_transactions :: "YieldTx list"
  au_loading :: bool
  au_search :: string
  au_action :: "tx_action option"
  au_dateFrom :: string
  au_dateTo :: string
  au_sortKey :: sort_key
  au_sortAsc :: bool
  au_page :: nat
  au_expanded :: "string option"

text \<open>The empty filter \<open>"all"\<close> of actions is \<open>None\<close>.\<close>

definition audit_mounted :: audit where
  "audit_mounted = \<lparr>au_transactions = MOCK_TXS, au_loading = False, au_search = [], au_action = None,
     au_dateFrom = [], au_dateTo = [], au_sortKey = By_timestamp, au_sortAsc = False, au_page = 1, au_expanded = None\<rparr>"

definition matches_term :: "string \<Rightarrow> YieldTx \<Rightarrow> bool" where
  "matches_term q t \<longleftrightarrow> (\<exists>v \<in> set [yt_txHash t, yt_address t, action_str (yt_action t),
     (case yt_blockHeight t of None \<Rightarrow> [] | Some b \<Rightarrow> show_num b), (case yt_details t of None \<Rightarrow> [] | Some d \<Rightarrow> d)].
     includes_str (toLowerCase v) q)"

definition audit_keeps :: "(string \<Rightarrow> js_num) \<Rightarrow> audit \<Rightarrow> YieldTx \<Rightarrow> bool" where
  "audit_keeps date_of s t \<longleftrightarrow>
     (let q = toLowerCase (trim (au_search s)) in q \<noteq> [] \<longrightarrow> matches_term q t)
     \<and> (case au_action s of None \<Rightarrow> True | Some a \<Rightarrow> yt_action t = a)
     \<and> (au_dateFrom s \<noteq> [] \<longrightarrow> num_le (date_of (au_dateFrom s)) (date_of (yt_timestamp t)))
     \<and> (au_dateTo s \<noteq> [] \<longrightarrow> num_le (date_of (yt_timestamp t)) (date_of (au_dateTo s @ ''T23:59:59Z'')))"

text \<open>
  The comparator of the sort: whether \<open>a\<close> has to stay before \<open>b\<close>, which it does not when the
  comparison is positive.  A difference that is \<open>NaN\<close> counts as zero.
\<close>

fun tx_compare :: "(string \<Rightarrow> string \<Rightarrow> int) \<Rightarrow> sort_key \<Rightarrow> YieldTx \<Rightarrow> YieldTx \<Rightarrow> js_num" where
  "tx_compare collate By_tokenVolume a b = num_sub (yt_tokenVolume a) (yt_tokenVolume b)"
| "tx_compare collate By_timestamp a b = Fin (of_int (collate (yt_timestamp a) (yt_timestamp b)))"
| "tx_compare collate By_address a b = Fin (of_int (collate (yt_address a) (yt_address b)))"
| "tx_compare collate By_action a b = Fin (of_int (collate (action_str (yt_action a)) (action_str (yt_action b))))"

definition directed :: "(string \<Rightarrow> string \<Rightarrow> int) \<Rightarrow> audit \<Rightarrow> YieldTx \<Rightarrow> YieldTx \<Rightarrow> js_num" where
  "directed collate s a b = (let c = tx_compare collate (au_sortKey s) a b in if au_sortAsc s then c else num_neg c)"

text \<open>\<open>Array.prototype.sort\<close> is stable: an element is placed behind those it does not have to precede.\<close>

fun insert_tx :: "('a \<Rightarrow> 'a \<Rightarrow> js_num) \<Rightarrow> 'a \<Rightarrow> 'a list \<Rightarrow> 'a list" where
  "insert_tx cmp x [] = [x]"
| "insert_tx cmp x (y # ys) = (if num_less (Fin 0) (cmp y x) then x # y # ys else y # insert_tx cmp x ys)"

definition sort_txs :: "('a \<Rightarrow> 'a \<Rightarrow> js_num) \<Rightarrow> 'a list \<Rightarrow> 'a list" where
  "sort_txs cmp xs = fold (insert_tx cmp) xs []"

definition audit_filtered :: "(string \<Rightarrow> js_num) \<Rightarrow> (string \<Rightarrow> string \<Rightarrow> int) \<Rightarrow> audit \<Rightarrow> YieldTx list" where
  "audit_filtered date_of collate s = sort_txs (directed collate s) (filter (audit_keeps date_of s) (au_transactions s))"

definition PAGE_SIZE :: nat where "PAGE_SIZE = 6"

definition totalPages :: "'a list \<Rightarrow> nat" where
  "totalPages xs = max 1 ((length xs + PAGE_SIZE - 1) div PAGE_SIZE)"

definition page_slice :: "nat \<Rightarrow> 'a list \<Rightarrow> 'a list" where
  "page_slice n xs = take PAGE_SIZE (drop ((n - 1) * PAGE_SIZE) xs)"

definition paginated :: "(string \<Rightarrow> js_num) \<Rightarrow> (string \<Rightarrow> string \<Rightarrow> int) \<Rightarrow> audit \<Rightarrow> YieldTx list" where
  "paginated date_of collate s = page_slice (au_page s) (audit_filtered date_of collate s)"

section \<open>Controls\<close>

datatype audit_control =
    Search string | Filter_action "tx_action option" | Date_from string | Date_to string
  | Toggle_sort sort_key | Clear_filters | Prev_page | Next_page | Goto_page nat | Toggle_row string

definition toggleSort :: "sort_key \<Rightarrow> audit \<Rightarrow> audit" where
  "toggleSort key s = (if au_sortKey s = key then s\<lparr>au_sortAsc := \<not> au_sortAsc s\<rparr>
     else s\<lparr>au_sortKey := key, au_sortAsc := True\<rparr>)\<lparr>au_page := 1\<rparr>"

definition clearFilters :: "audit \<Rightarrow> audit" where
  "clearFilters s = s\<lparr>au_search := [], au_action := None, au_dateFrom := [], au_dateTo := [], au_page := 1\<rparr>"

fun audit_press :: "nat \<Rightarrow> audit_control \<Rightarrow> audit \<Rightarrow> audit" where
  "audit_press pages (Search q) s = s\<lparr>au_search := q, au_page := 1\<rparr>"
| "audit_press pages (Filter_action a) s = s\<lparr>au_action := a, au_page := 1\<rparr>"
| "audit_press pages (Date_from d) s = s\<lparr>au_dateFrom := d, au_page := 1\<rparr>"
| "audit_press pages (Date_to d) s = s\<lparr>au_dateTo := d, au_page := 1\<rparr>"
| "audit_press pages (Toggle_sort k) s = toggleSort k s"
| "audit_press pages Clear_filters s = clearFilters s"
| "audit_press pages Prev_page s = s\<lparr>au_page := max 1 (au_page s - 1)\<rparr>"
| "audit_press pages Next_page s = s\<lparr>au_page := min pages (au_page s + 1)\<rparr>"
| "audit_press pages (Goto_page n) s = s\<lparr>au_page := n\<rparr>"
| "audit_press pages (Toggle_row i) s = s\<lparr>au_expanded := (if au_expanded s = Some i then None else Some i)\<rparr>"

section \<open>Fetching\<close>

record YieldAuditLogItem =
  yi_id :: string
  yi_tx_hash :: string
  yi_type :: string
  yi_amount :: js_num
  yi_created_at :: string
  yi_address :: "string option"
  yi_asset :: "string option"
  yi_block_height :: "js_num option"
  yi_fee :: "js_num option"

definition item_action :: "string \<Rightarrow> tx_action" where
  "item_action ty = (let t = toLowerCase ty in if includes_str t ''deposit'' then Deposit
     else if includes_str t ''withdraw'' then Withdraw else if includes_str t ''config'' then Config else Yield_accrual)"

definition tx_of_item :: "YieldAuditLogItem \<Rightarrow> YieldTx" where
  "tx_of_item i = \<lparr>yt_id = yi_id i, yt_txHash = yi_tx_hash i, yt_timestamp = yi_created_at i,
     yt_address = or_else (yi_address i) ''GD3XABCDEFGHIJKLMNOPQRSTUVWXYZ12345678ABCD'',
     yt_action = item_action (yi_type i), yt_tokenVolume = num_div (num_abs (yi_amount i)) (Fin 10000000),
     yt_asset = or_else (yi_asset i) ''USDC'', yt_blockHeight = yi_block_height i,
     yt_fee = Some (or_default (yi_fee i) (to_num (1 / 100000))), yt_yieldIndex = None, yt_details = None\<rparr>"

definition audit_merge :: "YieldTx list \<Rightarrow> YieldTx list \<Rightarrow> YieldTx list" where
  "audit_merge mapped prev = filter (\<lambda>c. yt_action c = Config \<and> yt_id c \<notin> yt_id ` set mapped) prev @ mapped"

definition fetch_params :: "audit \<Rightarrow> AuditParams" where
  "fetch_params s = \<lparr>ap_q = if_truthy (Some (trim (au_search s))), ap_action = map_option action_str (au_action s),
     ap_limit = Some 50, ap_offset = None, ap_from = if_truthy (Some (au_dateFrom s)), ap_to = if_truthy (Some (au_dateTo s))\<rparr>"

text \<open>The state of the tab and the requests under way; an answer has the items when it is an object with an array.\<close>

type_synonym audit_sys = "bool \<times> audit \<times> AuditParams list"

datatype audit_event =
    Open_tab | Leave_tab | Press audit_control | Sync | Answer AuditParams "YieldAuditLogItem list option res"

definition fetchAuditHistory :: "audit_sys \<Rightarrow> audit_sys" where
  "fetchAuditHistory = (\<lambda>(tab, s, fl). (tab, s\<lparr>au_loading := True\<rparr>, fl @ [fetch_params s]))"

definition on_items :: "YieldAuditLogItem list option res \<Rightarrow> audit \<Rightarrow> audit" where
  "on_items r s = (case r of
       Ret (Some (i # is)) \<Rightarrow> s\<lparr>au_transactions := audit_merge (map tx_of_item (i # is)) (au_transactions s), au_loading := False\<rparr>
     | _ \<Rightarrow> s\<lparr>au_loading := False\<rparr>)"

text \<open>The effect fetches on opening the tab and, while it is open, whenever a filter changed.\<close>

definition filters_changed :: "audit \<Rightarrow> audit \<Rightarrow> bool" where
  "filters_changed s s' \<longleftrightarrow> (au_search s, au_action s, au_dateFrom s, au_dateTo s) \<noteq> (au_search s', au_action s', au_dateFrom s', au_dateTo s')"

fun audit_step :: "(string \<Rightarrow> js_num) \<Rightarrow> (string \<Rightarrow> string \<Rightarrow> int) \<Rightarrow> audit_event \<Rightarrow> audit_sys \<Rightarrow> audit_sys option" where
  "audit_step date_of collate Open_tab (tab, s, fl) = Some (if tab then (tab, s, fl) else fetchAuditHistory (True, s, fl))"
| "audit_step date_of collate Leave_tab (tab, s, fl) = Some (False, s, fl)"
| "audit_step date_of collate (Press c) (tab, s, fl) =
     (let s' = audit_press (totalPages (audit_filtered date_of collate s)) c s in
      if \<not> tab then None else Some (if filters_changed s s' then fetchAuditHistory (tab, s', fl) else (tab, s', fl)))"
| "audit_step date_of collate Sync (tab, s, fl) = (if \<not> tab \<or> au_loading s then None else Some (fetchAuditHistory (tab, s, fl)))"
| "audit_step date_of collate (Answer p r) (tab, s, fl) = (if p \<notin> set fl then None else Some (tab, on_items r s, remove1 p fl))"

fun audit_run :: "(string \<Rightarrow> js_num) \<Rightarrow> (string \<Rightarrow> string \<Rightarrow> int) \<Rightarrow> audit_event list \<Rightarrow> audit_sys \<Rightarrow> audit_sys option" where
  "audit_run date_of collate [] y = Some y"
| "audit_run date_of collate (e # es) y = Option.bind (audit_step date_of collate e y) (audit_run date_of collate es)"

section \<open>Statistics\<close>

record audit_stats =
  st_deposits :: js_num
  st_withdrawals :: js_num
  st_yieldAcc :: js_num
  st_total :: nat

definition volume_of :: "tx_action \<Rightarrow> YieldTx list \<Rightarrow> js_num" where
  "volume_of a ts = foldl (\<lambda>s t. num_add s (yt_tokenVolume t)) (Fin 0) (filter (\<lambda>t. yt_action t = a) ts)"

definition audit_stats_of :: "audit \<Rightarrow> audit_stats" where
  "audit_stats_of s = (let ts = au_transactions s in
     \<lparr>st_deposits = volume_of Deposit ts, st_withdrawals = volume_of Withdraw ts,
      st_yieldAcc = volume_of Yield_accrual ts, st_total = length ts\<rparr>)"

section \<open>Sorting\<close>

definition after :: "('a \<Rightarrow> 'a \<Rightarrow> js_num) \<Rightarrow> 'a \<Rightarrow> 'a \<Rightarrow> bool" where
  "after cmp a b \<longleftrightarrow> num_less (Fin 0) (cmp a b)"

text \<open>A comparator that is a total preorder on the elements of a set.\<close>

definition consistent :: "('a \<Rightarrow> 'a \<Rightarrow> js_num) \<Rightarrow> 'a set \<Rightarrow> bool" where
  "consistent cmp A \<longleftrightarrow> (\<forall>a \<in> A. \<forall>b \<in> A. after cmp a b \<longrightarrow> \<not> after cmp b a)
     \<and> (\<forall>a \<in> A. \<forall>b \<in> A. \<forall>c \<in> A. \<not> after cmp a b \<longrightarrow> \<not> after cmp b c \<longrightarrow> \<not> after cmp a c)"

lemma mset_insert_tx: "mset (insert_tx cmp x ys) = add_mset x (mset ys)"
  by (induction ys) auto

lemma mset_sort_txs: "mset (sort_txs cmp xs) = mset xs"
proof -
  have "mset (fold (insert_tx cmp) xs ys) = mset xs + mset ys" for ys
    by (induction xs arbitrary: ys) (simp_all add: mset_insert_tx)
  then show ?thesis by (simp add: sort_txs_def)
qed

lemma set_insert_tx: "set (insert_tx cmp x ys) = insert x (set ys)"
  using arg_cong[OF mset_insert_tx, of set_mset] by simp

lemma set_sort_txs [simp]: "set (sort_txs cmp xs) = set xs"
  using arg_cong[OF mset_sort_txs, of set_mset] by simp

lemma sorted_insert_tx:
  assumes "consistent cmp A" "insert x (set ys) \<subseteq> A" "sorted_wrt (\<lambda>a b. \<not> after cmp a b) ys"
  shows "sorted_wrt (\<lambda>a b. \<not> after cmp a b) (insert_tx cmp x ys)"
  using assms(2,3)
proof (induction ys)
  case (Cons y ys)
  have tr: "\<not> after cmp a c" if "\<not> after cmp a b" "\<not> after cmp b c" "a \<in> A" "b \<in> A" "c \<in> A" for a b c
    using assms(1) that unfolding consistent_def by blast
  have as: "\<not> after cmp b a" if "after cmp a b" "a \<in> A" "b \<in> A" for a b
    using assms(1) that unfolding consistent_def by blast
  show ?case
  proof (cases "after cmp y x")
    case True
    have "\<not> after cmp x y" using as[OF True] Cons.prems by simp
    moreover have "\<not> after cmp x z" if "z \<in> set ys" for z
      using tr[of x y z] \<open>\<not> after cmp x y\<close> that Cons.prems by auto
    ultimately show ?thesis using True Cons.prems by (simp add: after_def)
  next
    case False
    then show ?thesis using Cons by (auto simp: after_def set_insert_tx)
  qed
qed simp

lemma sorted_sort_txs:
  assumes "consistent cmp (set xs)"
  shows "sorted_wrt (\<lambda>a b. \<not> after cmp a b) (sort_txs cmp xs)"
proof -
  have "sorted_wrt (\<lambda>a b. \<not> after cmp a b) (fold (insert_tx cmp) zs ys)"
    if "set zs \<union> set ys \<subseteq> set xs" "sorted_wrt (\<lambda>a b. \<not> after cmp a b) ys" for zs ys
    using that
    by (induction zs arbitrary: ys) (simp_all add: set_insert_tx sorted_insert_tx[OF assms])
  then show ?thesis by (simp add: sort_txs_def)
qed

section \<open>The volumes are doubles\<close>

definition smallest :: rat where
  "smallest = 2 powi (-1074)"

definition dyadic :: "rat \<Rightarrow> bool" where
  "dyadic q \<longleftrightarrow> (\<exists>n :: int. q = of_int n * smallest)"

lemma smallest_pos: "0 < smallest"
  unfolding smallest_def by (rule zero_less_power_int) simp

lemma dyadic_0 [simp]: "dyadic 0"
  unfolding dyadic_def by (intro exI[of _ 0]) simp

lemma dyadic_round: "dyadic (round_double x)"
proof (cases "x = 0")
  case False
  define k where "k = nat (ulp_exp x + 1074)"
  have "-1074 \<le> ulp_exp x" by (simp add: ulp_exp_def)
  then have "ulp_exp x = int k + - 1074" by (simp add: k_def)
  then have "2 powi ulp_exp x = 2 powi int k * smallest"
    unfolding smallest_def by (elim ssubst) (rule power_int_add, simp)
  also have "(2::rat) powi int k = of_int (2 ^ k)" by (simp add: power_int_of_nat)
  finally have "round_double x = of_int (round_even (x / 2 powi ulp_exp x) * 2 ^ k) * smallest"
    using False by (simp add: round_double_def mult.assoc)
  then show ?thesis unfolding dyadic_def by blast
qed simp

lemma to_num_dyadic: "to_num x = Fin q \<Longrightarrow> dyadic q"
  by (auto simp: to_num_def Let_def dyadic_round split: if_splits)

lemma dyadic_diff: "dyadic a \<Longrightarrow> dyadic b \<Longrightarrow> dyadic (a - b)"
proof -
  assume "dyadic a" "dyadic b"
  then obtain m n :: int where "a = of_int m * smallest" "b = of_int n * smallest" by (auto simp: dyadic_def)
  then have "a - b = of_int (m - n) * smallest" by (simp add: left_diff_distrib)
  then show ?thesis unfolding dyadic_def by blast
qed

lemma round_smallest: "round_double smallest = smallest"
proof (rule round_double_exact[of _ 1 "-1074"])
  show "smallest = of_int 1 * 2 powi - 1074" by (simp only: smallest_def of_int_1 mult_1)
qed simp_all

lemma round_dyadic_pos: "dyadic x \<Longrightarrow> 0 < x \<Longrightarrow> 0 < round_double x"
proof -
  assume "dyadic x" "0 < x"
  then obtain n :: int where n: "x = of_int n * smallest" by (auto simp: dyadic_def)
  with \<open>0 < x\<close> smallest_pos have "1 \<le> n" by (simp add: zero_less_mult_iff)
  then have "1 \<le> (of_int n :: rat)" by simp
  then have "1 * smallest \<le> x" unfolding n using smallest_pos by (intro mult_right_mono) simp_all
  then have "round_double smallest \<le> round_double x" by (intro round_double_mono) simp
  then show ?thesis using smallest_pos round_smallest by simp
qed

lemma double_limit_pos: "0 < double_limit"
  by (simp add: double_limit_def)

lemma to_num_sign:
  assumes "dyadic x"
  shows "num_less (Fin 0) (to_num x) \<longleftrightarrow> 0 < x" "num_less (Fin 0) (num_neg (to_num x)) \<longleftrightarrow> x < 0"
proof -
  have m: "dyadic (- x)" using dyadic_diff[OF dyadic_0 assms] by simp
  consider "0 < x" "0 < round_double x" | "x < 0" "round_double x < 0" | "x = 0"
    using round_dyadic_pos[OF assms] round_dyadic_pos[OF m] round_double_minus[of x] by fastforce
  then have "(num_less (Fin 0) (to_num x) \<longleftrightarrow> 0 < x) \<and> (num_less (Fin 0) (num_neg (to_num x)) \<longleftrightarrow> x < 0)"
  proof cases
    case 1
    then show ?thesis using double_limit_pos by (auto simp: to_num_def Let_def)
  next
    case 2
    then show ?thesis using double_limit_pos by (auto simp: to_num_def Let_def)
  next
    case 3
    then show ?thesis using double_limit_pos by (simp add: to_num_def)
  qed
  then show "num_less (Fin 0) (to_num x) \<longleftrightarrow> 0 < x" "num_less (Fin 0) (num_neg (to_num x)) \<longleftrightarrow> x < 0"
    by blast+
qed

definition finite_volume :: "YieldTx \<Rightarrow> bool" where
  "finite_volume t \<longleftrightarrow> (\<exists>q. yt_tokenVolume t = Fin q \<and> dyadic q)"

text \<open>The laws of \<open>localeCompare\<close>: antisymmetric in sign, and transitive.\<close>

definition collation :: "(string \<Rightarrow> string \<Rightarrow> int) \<Rightarrow> bool" where
  "collation collate \<longleftrightarrow> (\<forall>a b. collate b a < 0 \<longleftrightarrow> 0 < collate a b)
     \<and> (\<forall>a b c. collate a b \<le> 0 \<longrightarrow> collate b c \<le> 0 \<longrightarrow> collate a c \<le> 0)"

text \<open>Both directions of every column compare by a linear preorder \<open>less\<close>.\<close>

definition key_less :: "(string \<Rightarrow> string \<Rightarrow> int) \<Rightarrow> sort_key \<Rightarrow> YieldTx \<Rightarrow> YieldTx \<Rightarrow> bool" where
  "key_less collate k a b = (case k of
       By_timestamp \<Rightarrow> collate (yt_timestamp a) (yt_timestamp b) < 0
     | By_address \<Rightarrow> collate (yt_address a) (yt_address b) < 0
     | By_action \<Rightarrow> collate (action_str (yt_action a)) (action_str (yt_action b)) < 0
     | By_tokenVolume \<Rightarrow> num_less (yt_tokenVolume a) (yt_tokenVolume b))"

lemma after_directed:
  assumes "collation collate" "finite_volume a" "finite_volume b"
  shows "after (directed collate s) a b \<longleftrightarrow>
    (if au_sortAsc s then key_less collate (au_sortKey s) b a else key_less collate (au_sortKey s) a b)"
proof -
  obtain p q where pq: "yt_tokenVolume a = Fin p" "yt_tokenVolume b = Fin q" "dyadic p" "dyadic q"
    using assms(2,3) by (auto simp: finite_volume_def)
  have sgn: "0 < collate x y \<longleftrightarrow> collate y x < 0" for x y using assms(1) by (auto simp: collation_def)
  note d = to_num_sign[OF dyadic_diff[OF pq(3,4)]]
  show ?thesis
    using d by (cases "au_sortKey s") (simp_all add: after_def directed_def Let_def key_less_def pq num_sub_def sgn)
qed

lemma key_less_order:
  assumes "collation collate" "finite_volume a" "finite_volume b" "finite_volume c"
  shows "key_less collate k a b \<Longrightarrow> \<not> key_less collate k b a"
    and "\<not> key_less collate k a b \<Longrightarrow> \<not> key_less collate k b c \<Longrightarrow> \<not> key_less collate k a c"
proof -
  have asym: "\<not> collate y x < 0" if "collate x y < 0" for x y
    using assms(1) that unfolding collation_def by (meson less_asym)
  have tr: "\<not> collate x z < 0" if "\<not> collate x y < 0" "\<not> collate y z < 0" for x y z
    using assms(1) that unfolding collation_def by (meson not_le)
  show "key_less collate k a b \<Longrightarrow> \<not> key_less collate k b a"
    using assms(2,3) by (cases k) (auto simp: key_less_def finite_volume_def dest: asym)
  show "\<not> key_less collate k a b \<Longrightarrow> \<not> key_less collate k b c \<Longrightarrow> \<not> key_less collate k a c"
    using assms(2-4) by (cases k) (auto simp: key_less_def finite_volume_def dest: tr)
qed

lemma directed_consistent:
  assumes "collation collate" "\<forall>t \<in> A. finite_volume t"
  shows "consistent (directed collate s) A"
proof -
  have ad: "after (directed collate s) a b \<longleftrightarrow>
      (if au_sortAsc s then key_less collate (au_sortKey s) b a else key_less collate (au_sortKey s) a b)"
    if "a \<in> A" "b \<in> A" for a b
    using after_directed[OF assms(1)] assms(2) that by blast
  show ?thesis
    unfolding consistent_def
  proof (intro conjI ballI impI)
    fix a b assume ab: "a \<in> A" "b \<in> A" "after (directed collate s) a b"
    show "\<not> after (directed collate s) b a"
      using ab(3) key_less_order(1)[OF assms(1)] assms(2) ab(1,2)
      unfolding ad[OF ab(1,2)] ad[OF ab(2,1)] by (metis (full_types))
  next
    fix a b c assume abc: "a \<in> A" "b \<in> A" "c \<in> A"
      and n: "\<not> after (directed collate s) a b" "\<not> after (directed collate s) b c"
    show "\<not> after (directed collate s) a c"
      using n key_less_order(2)[OF assms(1)] assms(2) abc
      unfolding ad[OF abc(1,2)] ad[OF abc(2,3)] ad[OF abc(1,3)] by (metis (full_types))
  qed
qed

section \<open>Volumes in reachable states\<close>

definition finite_amount :: "YieldAuditLogItem \<Rightarrow> bool" where
  "finite_amount i \<longleftrightarrow> (\<exists>q. yi_amount i = Fin q \<and> \<bar>q\<bar> \<le> 2 ^ 53)"

fun finite_answer :: "audit_event \<Rightarrow> bool" where
  "finite_answer (Answer p (Ret (Some is))) = list_all finite_amount is"
| "finite_answer _ = True"

lemma to_num_finite: "0 \<le> x \<Longrightarrow> x \<le> 2 ^ 53 \<Longrightarrow> \<exists>q. to_num x = Fin q \<and> dyadic q"
  using to_num_le[of x "2 ^ 53"] to_num_dyadic[of x] by auto

lemma mock_tx_volume: "0 \<le> v \<Longrightarrow> v \<le> 2 ^ 53 \<Longrightarrow> finite_volume (mock_tx i h tm ad ac v st bl ix)"
  unfolding finite_volume_def mock_tx_def by (simp del: to_num_numeral add: to_num_finite)

lemma mock_volumes: "\<forall>t \<in> set MOCK_TXS. finite_volume t"
proof -
  have d: "finite_volume (t\<lparr>yt_details := x\<rparr>) = finite_volume t" for t x by (simp add: finite_volume_def)
  have "list_all finite_volume MOCK_TXS"
    unfolding MOCK_TXS_def list.pred_inject d by (intro conjI; ((rule mock_tx_volume; simp) | simp))
  then show ?thesis by (simp only: list_all_iff)
qed

lemma item_volume: "finite_amount i \<Longrightarrow> finite_volume (tx_of_item i)"
proof -
  assume "finite_amount i"
  then obtain q where q: "yi_amount i = Fin q" "\<bar>q\<bar> \<le> 2 ^ 53" by (auto simp: finite_amount_def)
  have "\<bar>q\<bar> / 10000000 \<le> \<bar>q\<bar>" by (simp add: field_simps)
  with q(2) have "\<bar>q\<bar> / 10000000 \<le> 2 ^ 53" by linarith
  from to_num_finite[OF _ this] show ?thesis by (simp add: finite_volume_def tx_of_item_def q(1))
qed

definition volumes_ok :: "audit_sys \<Rightarrow> bool" where
  "volumes_ok y \<longleftrightarrow> (\<forall>t \<in> set (au_transactions (fst (snd y))). finite_volume t)"

lemma press_transactions [simp]: "au_transactions (audit_press n c s) = au_transactions s"
  by (cases c) (simp_all add: toggleSort_def clearFilters_def)

lemma fetch_volumes [simp]: "volumes_ok (fetchAuditHistory y) = volumes_ok y"
  by (cases y) (simp add: volumes_ok_def fetchAuditHistory_def)

lemma step_volumes:
  assumes "audit_step date_of collate e y = Some y'" "finite_answer e" "volumes_ok y"
  shows "volumes_ok y'"
proof -
  obtain tab s fl where y: "y = (tab, s, fl)" by (rule prod_cases3)
  show ?thesis
  proof (cases e)
    case (Answer p r)
    have "\<forall>t \<in> set (au_transactions (on_items r s)). finite_volume t"
      using assms(2,3) by (auto simp: Answer y on_items_def volumes_ok_def audit_merge_def item_volume list_all_iff
          split: res.splits option.splits list.splits)
    with assms(1) show ?thesis by (auto simp: Answer y volumes_ok_def split: if_splits)
  qed (use assms in \<open>auto simp: y volumes_ok_def[of "(_, _, _)"] Let_def split: if_splits\<close>)
qed

lemma run_volumes:
  "audit_run date_of collate es y = Some y' \<Longrightarrow> list_all finite_answer es \<Longrightarrow> volumes_ok y \<Longrightarrow> volumes_ok y'"
  by (induction es arbitrary: y) (auto simp: Option.bind_eq_Some_conv, metis step_volumes)

definition audit_opened :: audit_sys where
  "audit_opened = (False, audit_mounted, [])"

lemma opened_volumes: "volumes_ok audit_opened"
  using mock_volumes by (simp add: volumes_ok_def audit_opened_def audit_mounted_def)

text \<open>
  Whatever was fetched, filtered and sorted, the table is a rearrangement of exactly the entries that
  pass the filters, in the order of the chosen column and direction, as long as the server's amounts
  are finite and \<open>localeCompare\<close> is an order.
\<close>

theorem audit_table_sorted:
  assumes "audit_run date_of collate es audit_opened = Some (tab, s, fl)" "list_all finite_answer es" "collation collate"
  shows "mset (audit_filtered date_of collate s) = mset (filter (audit_keeps date_of s) (au_transactions s))
    \<and> sorted_wrt (\<lambda>a b. \<not> (if au_sortAsc s then key_less collate (au_sortKey s) b a else key_less collate (au_sortKey s) a b))
      (audit_filtered date_of collate s)"
proof (intro conjI)
  have "volumes_ok (tab, s, fl)" using run_volumes[OF assms(1,2) opened_volumes] .
  then have fv: "\<forall>t \<in> set (filter (audit_keeps date_of s) (au_transactions s)). finite_volume t" by (simp add: volumes_ok_def)
  show "mset (audit_filtered date_of collate s) = mset (filter (audit_keeps date_of s) (au_transactions s))"
    by (simp add: audit_filtered_def mset_sort_txs)
  from sorted_sort_txs[OF directed_consistent[OF assms(3) fv]]
  have "sorted_wrt (\<lambda>a b. \<not> after (directed collate s) a b) (audit_filtered date_of collate s)"
    by (simp add: audit_filtered_def)
  then show "sorted_wrt (\<lambda>a b. \<not> (if au_sortAsc s then key_less collate (au_sortKey s) b a else key_less collate (au_sortKey s) a b))
      (audit_filtered date_of collate s)"
    by (rule sorted_wrt_mono_rel[rotated]) (use fv in \<open>simp add: after_directed[OF assms(3)] audit_filtered_def\<close>)
qed

lemma concat_slices: "concat (map (\<lambda>n. take k (drop (n * k) xs)) [0..<m]) = take (m * k) xs"
  by (induction m) (simp_all add: take_add add.commute[of k])

text \<open>The pages of the table, one after the other, are the table: no entry is lost or shown twice.\<close>

theorem audit_pages_partition: "concat (map (\<lambda>n. page_slice n xs) [1..<Suc (totalPages xs)]) = xs"
proof -
  have "map (\<lambda>n. page_slice n xs) [1..<Suc (totalPages xs)] = map (\<lambda>n. take PAGE_SIZE (drop (n * PAGE_SIZE) xs)) [0..<totalPages xs]"
    unfolding One_nat_def map_Suc_upt[symmetric] map_map by (simp add: page_slice_def comp_def)
  moreover have "length xs \<le> totalPages xs * PAGE_SIZE"
    by (simp add: totalPages_def PAGE_SIZE_def max_def) presburger
  ultimately show ?thesis by (simp add: concat_slices)
qed

text \<open>
  Refreshing keeps every configuration change the log holds, under its own identifier, and refreshing
  twice with the same answer changes nothing more.
\<close>

theorem refresh_keeps_changes:
  "yt_id ` {t \<in> set prev. yt_action t = Config} \<subseteq> yt_id ` set (audit_merge mapped prev)
    \<and> audit_merge mapped (audit_merge mapped prev) = audit_merge mapped prev"
  by (auto simp: audit_merge_def intro!: filter_False)

definition sample_item :: "string \<Rightarrow> YieldAuditLogItem" where
  "sample_item ty = \<lparr>yi_id = ty, yi_tx_hash = ''h'', yi_type = ty, yi_amount = Fin 10000000, yi_created_at = ''2026-01-01'',
     yi_address = None, yi_asset = None, yi_block_height = None, yi_fee = None\<rparr>"

definition asked :: "tx_action option \<Rightarrow> AuditParams" where
  "asked a = fetch_params (audit_mounted\<lparr>au_action := a\<rparr>)"

lemma item_action_samples: "item_action ''deposit'' = Deposit" "item_action ''withdraw'' = Withdraw"
  by code_simp+

text \<open>
  Answers are not matched to the filters they were asked under: the late answer to an earlier filter
  replaces the entries of the current one, so the table is empty and the deposits add up to nothing.
\<close>

theorem stale_audit_answer:
  "\<exists>s fl. audit_run date_of collate [Open_tab, Answer (asked None) (Ret (Some [])),
       Press (Filter_action (Some Withdraw)), Press (Filter_action (Some Deposit)),
       Answer (asked (Some Deposit)) (Ret (Some [sample_item ''deposit''])),
       Answer (asked (Some Withdraw)) (Ret (Some [sample_item ''withdraw'']))] audit_opened = Some (True, s, fl)
     \<and> au_action s = Some Deposit \<and> audit_filtered date_of collate s = [] \<and> st_deposits (audit_stats_of s) = Fin 0"
  by (simp add: audit_opened_def audit_mounted_def fetchAuditHistory_def asked_def fetch_params_def on_items_def
      filters_changed_def audit_merge_def sample_item_def tx_of_item_def item_action_samples audit_filtered_def audit_keeps_def sort_txs_def audit_stats_of_def volume_of_def MOCK_TXS_def mock_tx_def)

theorem audit_table_sorted_witness:
  "\<exists>s fl. audit_run (\<lambda>_. NaN) (\<lambda>a b. int (length a) - int (length b)) [Open_tab, Answer (asked None) (Ret (Some [sample_item ''deposit'', sample_item ''withdraw'']))]
       audit_opened = Some (True, s, fl)
     \<and> mset (audit_filtered (\<lambda>_. NaN) (\<lambda>a b. int (length a) - int (length b)) s)
       = mset (filter (audit_keeps (\<lambda>_. NaN) s) (au_transactions s))"
proof -
  let ?c = "\<lambda>a b :: string. int (length a) - int (length b)" and ?d = "\<lambda>_ :: string. NaN"
  let ?es = "[Open_tab, Answer (asked None) (Ret (Some [sample_item ''deposit'', sample_item ''withdraw'']))]"
  obtain s fl where s: "audit_run ?d ?c ?es audit_opened = Some (True, s, fl)"
    by (simp add: audit_opened_def audit_mounted_def fetchAuditHistory_def asked_def fetch_params_def on_items_def)
  have f: "list_all finite_answer ?es" by (simp add: finite_amount_def sample_item_def)
  have "collation ?c" by (simp add: collation_def)
  from audit_table_sorted[OF s f this] s show ?thesis by blast
qed

end
