(* ===== verification/Vault.thy ===== *)
theory Vault
  imports Audit_Log Freighter Dashboard_Session
begin

text \<open>
  The configuration of the yield vault (\<open>dashboard/app/dashboard/yield/page.tsx\<close>): the rate and index
  engine, the validation of the form, and the page as a transition system over its requests to the
  wallet.  The ellipsis of a message is \<open>CHR 0x85\<close>.
\<close>

section \<open>The rate and index engine\<close>

datatype rule_type = Utilization | Tiered | Performance

fun rule_str :: "rule_type \<Rightarrow> string" where
  "rule_str Utilization = ''utilization''"
| "rule_str Tiered = ''tiered''"
| "rule_str Performance = ''performance''"

definition INITIAL_YIELD_INDEX :: js_num where
  "INITIAL_YIELD_INDEX = to_num (104285012 / 10 ^ 8)"

record metrics =
  me_effectiveRate :: js_num
  me_projected30d :: js_num
  me_projected1y :: js_num
  me_newYieldIndex :: js_num

definition effective_rate :: "js_num \<Rightarrow> js_num \<Rightarrow> bool \<Rightarrow> rule_type \<Rightarrow> js_num \<Rightarrow> js_num \<Rightarrow> js_num" where
  "effective_rate apyPercent baseRatePercent dynamicEnabled ruleType targetUtilization multiplier =
     num_min (Fin 25) (num_max (Fin 0)
       (if \<not> dynamicEnabled then apyPercent
        else case ruleType of
            Utilization \<Rightarrow> (let spread = num_max (Fin 0) (num_sub apyPercent baseRatePercent) in
              num_add baseRatePercent (num_mul (num_mul spread (num_div targetUtilization (Fin 100))) multiplier))
          | Tiered \<Rightarrow> num_mul apyPercent (to_num (115 / 100))
          | Performance \<Rightarrow> num_mul apyPercent (to_num (11 / 10))))"

text \<open>\<open>index * (1 + (rate / 100) * share)\<close>.\<close>

definition grown :: "js_num \<Rightarrow> js_num \<Rightarrow> js_num \<Rightarrow> js_num" where
  "grown idx rate share = num_mul idx (num_add (Fin 1) (num_mul (num_div rate (Fin 100)) share))"

definition calculateYieldIndexMetrics ::
  "js_num \<Rightarrow> js_num \<Rightarrow> js_num \<Rightarrow> bool \<Rightarrow> rule_type \<Rightarrow> js_num \<Rightarrow> js_num \<Rightarrow> metrics" where
  "calculateYieldIndexMetrics baseIndex apyPercent baseRatePercent dynamicEnabled ruleType targetUtilization multiplier =
     (let rate = effective_rate apyPercent baseRatePercent dynamicEnabled ruleType targetUtilization multiplier in
      \<lparr>me_effectiveRate = fixed 3 rate,
       me_projected30d = fixed 8 (grown baseIndex rate (num_div (Fin 30) (Fin 365))),
       me_projected1y = fixed 8 (num_mul baseIndex (num_add (Fin 1) (num_div rate (Fin 100)))),
       me_newYieldIndex = fixed 8 (grown baseIndex rate (num_div (Fin 1) (Fin 365)))\<rparr>)"

section \<open>The form\<close>

record VaultParams =
  vp_apy :: string
  vp_baseInterestRate :: string
  vp_dynamicApyEnabled :: bool
  vp_dynamicRuleType :: rule_type
  vp_targetUtilization :: string
  vp_utilizationMultiplier :: string
  vp_maxApyCap :: string
  vp_paused :: bool
  vp_adminAddress :: string

record FormErrors =
  fe_apy :: "string option"
  fe_baseInterestRate :: "string option"
  fe_adminAddress :: "string option"
  fe_targetUtilization :: "string option"
  fe_utilizationMultiplier :: "string option"

definition no_errors :: FormErrors where
  "no_errors = \<lparr>fe_apy = None, fe_baseInterestRate = None, fe_adminAddress = None, fe_targetUtilization = None,
     fe_utilizationMultiplier = None\<rparr>"

text \<open>\<open>/^G[A-Z0-9]{55}$/\<close>.\<close>

definition vault_address :: "string \<Rightarrow> bool" where
  "vault_address s \<longleftrightarrow> (case s of [] \<Rightarrow> False | c # r \<Rightarrow> c = CHR ''G'' \<and> length r = 55 \<and> list_all (\<lambda>x. is_upper x \<or> is_digit x) r)"

definition outside :: "js_num \<Rightarrow> js_num \<Rightarrow> js_num \<Rightarrow> bool" where
  "outside lo hi n \<longleftrightarrow> n = NaN \<or> num_less n lo \<or> num_less hi n"

definition validateVaultParams :: "VaultParams \<Rightarrow> FormErrors" where
  "validateVaultParams p =
     (let apyNum = parseFloat (vp_apy p); baseNum = parseFloat (vp_baseInterestRate p); admin = trim (vp_adminAddress p);
          curve = (vp_dynamicApyEnabled p \<and> vp_dynamicRuleType p = Utilization)
      in \<lparr>fe_apy = (if apyNum = NaN \<or> num_less apyNum (Fin 0) then Some ''APY must be a positive number (minimum 0%).''
            else if num_less (Fin 25) apyNum then Some ''APY cannot exceed 25.0% (Soroban contract safety ceiling).'' else None),
          fe_baseInterestRate = (if baseNum = NaN \<or> num_less baseNum (Fin 0) then Some ''Base interest rate must be 0% or higher.''
            else if num_less (if apyNum = NaN then Fin 0 else apyNum) baseNum
            then Some ''Base interest rate cannot exceed Target APY.'' else None),
          fe_adminAddress = (if admin = [] then Some ''Admin address is required.''
            else if \<not> vault_address admin
            then Some ''Invalid Stellar address (must be 56 uppercase alphanumeric chars starting with G).'' else None),
          fe_targetUtilization = (if curve \<and> outside (Fin 0) (Fin 100) (parseFloat (vp_targetUtilization p))
            then Some ''Target utilization must be between 0% and 100%.'' else None),
          fe_utilizationMultiplier = (if curve \<and> outside (Fin 1) (Fin 5) (parseFloat (vp_utilizationMultiplier p))
            then Some ''Multiplier must be between 1.0x and 5.0x.'' else None)\<rparr>)"

text \<open>The metrics of the form, as previewed and as submitted.\<close>

definition form_metrics :: "js_num \<Rightarrow> VaultParams \<Rightarrow> metrics" where
  "form_metrics idx p = calculateYieldIndexMetrics idx (num_or (parseFloat (vp_apy p)) (Fin 0))
     (num_or (parseFloat (vp_baseInterestRate p)) (Fin 0)) (vp_dynamicApyEnabled p) (vp_dynamicRuleType p)
     (num_or (parseFloat (vp_targetUtilization p)) (Fin 80)) (num_or (parseFloat (vp_utilizationMultiplier p)) (Fin (5 / 4)))"

section \<open>The page\<close>

record page =
  pg_wallet :: FreighterWalletState
  pg_walletLoading :: bool
  pg_params :: VaultParams
  pg_index :: js_num
  pg_formErrors :: FormErrors
  pg_confirmed :: bool
  pg_signing :: bool
  pg_msg :: "(bool \<times> string) option"
  pg_log :: "YieldTx list"

definition initial_params :: VaultParams where
  "initial_params = \<lparr>vp_apy = ''5.0'', vp_baseInterestRate = ''3.5'', vp_dynamicApyEnabled = True,
     vp_dynamicRuleType = Utilization, vp_targetUtilization = ''80'', vp_utilizationMultiplier = ''1.25'',
     vp_maxApyCap = ''25.0'', vp_paused = False, vp_adminAddress = []\<rparr>"

text \<open>What a submission signs: the call, and the values its later steps use.\<close>

record submission =
  sb_params :: VaultParams
  sb_publicKey :: string
  sb_metrics :: metrics

definition payload :: "submission \<Rightarrow> (string \<times> jv) list" where
  "payload b = (let p = sb_params b in
     [(''fn'', JS ''set_vault_params''), (''apy'', JS (vp_apy p)), (''base_interest_rate'', JS (vp_baseInterestRate p)),
      (''dynamic_apy_enabled'', JB (vp_dynamicApyEnabled p)), (''dynamic_rule_type'', JS (rule_str (vp_dynamicRuleType p))),
      (''target_utilization'', JS (vp_targetUtilization p)), (''utilization_multiplier'', JS (vp_utilizationMultiplier p)),
      (''new_yield_index'', JS (show_num (me_newYieldIndex (sb_metrics b)))),
      (''effective_annual_apy'', JS (show_num (me_effectiveRate (sb_metrics b)) @ ''%'')),
      (''paused'', JB (vp_paused p)), (''admin'', JS (sb_publicKey b))])"

datatype flight = Detecting | Connecting | Signing submission

type_synonym sys = "page \<times> flight list"

definition page_mounted :: sys where
  "page_mounted = (\<lparr>pg_wallet = DEFAULT_WALLET_STATE, pg_walletLoading = False, pg_params = initial_params,
     pg_index = INITIAL_YIELD_INDEX, pg_formErrors = no_errors, pg_confirmed = False, pg_signing = False,
     pg_msg = None, pg_log = MOCK_TXS\<rparr>, [Detecting])"

text \<open>Setting the wallet; the effect on its address fills in an empty admin address.\<close>

definition set_wallet :: "FreighterWalletState \<Rightarrow> page \<Rightarrow> page" where
  "set_wallet x s = (let s' = s\<lparr>pg_wallet := x\<rparr> in
     if fw_publicKey x \<noteq> fw_publicKey (pg_wallet s) \<and> truthy (fw_publicKey x) \<and> vp_adminAddress (pg_params s) = []
     then s'\<lparr>pg_params := (pg_params s)\<lparr>vp_adminAddress := the (fw_publicKey x)\<rparr>\<rparr> else s')"

definition fail :: "string \<Rightarrow> page \<Rightarrow> page" where
  "fail t s = s\<lparr>pg_msg := Some (False, t)\<rparr>"

definition signAndSubmit :: "page \<Rightarrow> page \<times> flight list" where
  "signAndSubmit s =
     (if \<not> pg_confirmed s then (s, [])
      else if validateVaultParams (pg_params s) \<noteq> no_errors
      then (fail ''Please fix input validation errors before submitting.''
          (s\<lparr>pg_formErrors := validateVaultParams (pg_params s)\<rparr>), [])
      else if \<not> fw_installed (pg_wallet s)
      then (fail ''Freighter wallet is not installed. Please install it from freighter.app.'' s, [])
      else if \<not> fw_connected (pg_wallet s) \<or> \<not> truthy (fw_publicKey (pg_wallet s))
      then (fail ''Wallet not connected. Please connect Freighter first.'' s, [])
      else let m = form_metrics (pg_index s) (pg_params s) in
        (s\<lparr>pg_signing := True, pg_msg := None, pg_index := me_newYieldIndex m\<rparr>,
         [Signing \<lparr>sb_params = pg_params s, sb_publicKey = the (fw_publicKey (pg_wallet s)), sb_metrics = m\<rparr>]))"

text \<open>Time and randomness of a log entry: \<open>Date.now()\<close>, the ISO time, eight hexadecimal digits, a number below 5000.\<close>

record stamp =
  sm_now :: int
  sm_iso :: string
  sm_hex :: string
  sm_block :: nat

definition log_entry :: "stamp \<Rightarrow> string \<Rightarrow> submission \<Rightarrow> YieldTx" where
  "log_entry z xdr b = (let p = sb_params b in
     \<lparr>yt_id = ''cfg-'' @ show_int (sm_now z), yt_txHash = ''tx_'' @ sm_hex z @ take 20 xdr, yt_timestamp = sm_iso z,
      yt_address = sb_publicKey b, yt_action = Config, yt_tokenVolume = Fin 0, yt_asset = [CHR 0x97],
      yt_blockHeight = Some (Fin (48240000 + of_nat (sm_block z))), yt_fee = Some (to_num (1 / 100000)),
      yt_yieldIndex = Some (me_newYieldIndex (sb_metrics b)),
      yt_details = Some (''APY adjusted to '' @ vp_apy p @ ''%, Base Rate: '' @ vp_baseInterestRate p @ ''%, Dynamic Rules: ''
        @ (if vp_dynamicApyEnabled p then rule_str (vp_dynamicRuleType p) else ''disabled''))\<rparr>)"

text \<open>The answer of the wallet; an answer without a signed envelope fails at \<open>slice\<close>, inside the \<open>try\<close>.\<close>

definition on_signed :: "submission \<Rightarrow> stamp \<Rightarrow> string option res \<Rightarrow> page \<Rightarrow> page" where
  "on_signed b z r s = (case r of
       Ret (Some xdr) \<Rightarrow> s\<lparr>pg_msg := Some (True, ''Transaction signed and submitted. Signed XDR: '' @ take 24 xdr @ [CHR 0x85]
            @ '' (Updated Yield Index: '' @ toFixed 8 (me_newYieldIndex (sb_metrics b)) @ '')''),
          pg_confirmed := False, pg_log := log_entry z xdr b # pg_log s\<rparr>
     | Ret None \<Rightarrow> fail ''Cannot read properties of undefined (reading 'slice')'' s
     | Throw e \<Rightarrow> fail (message_or ''Failed to sign transaction'' e) s)\<lparr>pg_signing := False\<rparr>"

datatype control =
    Apy string | Base_rate string | Dynamic bool | Rule rule_type | Utilization_typed string | Multiplier string
  | Admin_typed string | Use_wallet_address | Pause | Confirm bool | Connect_pressed | Submit

definition edit :: "(VaultParams \<Rightarrow> VaultParams) \<Rightarrow> page \<Rightarrow> page" where
  "edit f s = s\<lparr>pg_params := f (pg_params s)\<rparr>"

text \<open>Setting a field and \<open>validateField\<close>.\<close>

definition edit_validated :: "(VaultParams \<Rightarrow> VaultParams) \<Rightarrow> page \<Rightarrow> page" where
  "edit_validated f s = s\<lparr>pg_params := f (pg_params s), pg_formErrors := validateVaultParams (f (pg_params s))\<rparr>"

fun press :: "bool \<Rightarrow> control \<Rightarrow> page \<Rightarrow> page \<times> flight list" where
  "press isSuperAdmin (Apy v) s = (edit_validated (\<lambda>p. p\<lparr>vp_apy := v\<rparr>) s, [])"
| "press isSuperAdmin (Base_rate v) s = (edit_validated (\<lambda>p. p\<lparr>vp_baseInterestRate := v\<rparr>) s, [])"
| "press isSuperAdmin (Dynamic b) s = (edit (\<lambda>p. p\<lparr>vp_dynamicApyEnabled := b\<rparr>) s, [])"
| "press isSuperAdmin (Rule r) s = (edit (\<lambda>p. p\<lparr>vp_dynamicRuleType := r\<rparr>) s, [])"
| "press isSuperAdmin (Utilization_typed v) s = (edit_validated (\<lambda>p. p\<lparr>vp_targetUtilization := v\<rparr>) s, [])"
| "press isSuperAdmin (Multiplier v) s = (edit_validated (\<lambda>p. p\<lparr>vp_utilizationMultiplier := v\<rparr>) s, [])"
| "press isSuperAdmin (Admin_typed v) s = (edit_validated (\<lambda>p. p\<lparr>vp_adminAddress := v\<rparr>) s, [])"
| "press isSuperAdmin Use_wallet_address s =
     (edit_validated (\<lambda>p. p\<lparr>vp_adminAddress := the (fw_publicKey (pg_wallet s))\<rparr>) s, [])"
| "press isSuperAdmin Pause s = (if isSuperAdmin then edit (\<lambda>p. p\<lparr>vp_paused := \<not> vp_paused p\<rparr>) s else s, [])"
| "press isSuperAdmin (Confirm b) s = (s\<lparr>pg_confirmed := b\<rparr>, [])"
| "press isSuperAdmin Connect_pressed s = (s\<lparr>pg_walletLoading := True\<rparr>, [Connecting])"
| "press isSuperAdmin Submit s = signAndSubmit s"

text \<open>The controls that are rendered and not disabled.\<close>

fun enabled :: "bool \<Rightarrow> page \<Rightarrow> control \<Rightarrow> bool" where
  "enabled isSuperAdmin s (Apy v) = isSuperAdmin"
| "enabled isSuperAdmin s (Base_rate v) = isSuperAdmin"
| "enabled isSuperAdmin s (Dynamic b) = isSuperAdmin"
| "enabled isSuperAdmin s (Rule r) = (isSuperAdmin \<and> vp_dynamicApyEnabled (pg_params s))"
| "enabled isSuperAdmin s (Utilization_typed v) =
     (isSuperAdmin \<and> vp_dynamicApyEnabled (pg_params s) \<and> vp_dynamicRuleType (pg_params s) = Utilization)"
| "enabled isSuperAdmin s (Multiplier v) =
     (isSuperAdmin \<and> vp_dynamicApyEnabled (pg_params s) \<and> vp_dynamicRuleType (pg_params s) = Utilization)"
| "enabled isSuperAdmin s (Admin_typed v) = True"
| "enabled isSuperAdmin s Use_wallet_address = (fe_adminAddress (pg_formErrors s) = None \<and> truthy (fw_publicKey (pg_wallet s))
     \<and> fw_publicKey (pg_wallet s) \<noteq> Some (vp_adminAddress (pg_params s)))"
| "enabled isSuperAdmin s Pause = isSuperAdmin"
| "enabled isSuperAdmin s (Confirm b) = True"
| "enabled isSuperAdmin s Connect_pressed = (fw_installed (pg_wallet s) \<and> \<not> fw_connected (pg_wallet s) \<and> \<not> pg_walletLoading s)"
| "enabled isSuperAdmin s Submit = (isSuperAdmin \<and> pg_confirmed s \<and> \<not> pg_signing s \<and> fw_connected (pg_wallet s)
     \<and> pg_formErrors s = no_errors)"

datatype event =
    Do control | Detected FreighterWalletState | Connected_answer "FreighterWalletState res"
  | Signed_answer submission stamp "string option res"

text \<open>A failure to connect is only logged to the console.\<close>

fun vault_step :: "bool \<Rightarrow> event \<Rightarrow> sys \<Rightarrow> sys option" where
  "vault_step isSuperAdmin (Do c) (s, fl) = (if \<not> enabled isSuperAdmin s c then None
     else case press isSuperAdmin c s of (s', new) \<Rightarrow> Some (s', fl @ new))"
| "vault_step isSuperAdmin (Detected x) (s, fl) = (if Detecting \<notin> set fl then None
     else Some (set_wallet x s, remove1 Detecting fl))"
| "vault_step isSuperAdmin (Connected_answer r) (s, fl) = (if Connecting \<notin> set fl then None
     else Some ((case r of Ret x \<Rightarrow> set_wallet x s | Throw _ \<Rightarrow> s)\<lparr>pg_walletLoading := False\<rparr>, remove1 Connecting fl))"
| "vault_step isSuperAdmin (Signed_answer b z r) (s, fl) = (if Signing b \<notin> set fl then None
     else Some (on_signed b z r s, remove1 (Signing b) fl))"

fun vault_run :: "bool \<Rightarrow> event list \<Rightarrow> sys \<Rightarrow> sys option" where
  "vault_run isSuperAdmin [] y = Some y"
| "vault_run isSuperAdmin (e # es) y = Option.bind (vault_step isSuperAdmin e y) (vault_run isSuperAdmin es)"

end
