(* ===== verification/Vault_Safety.thy ===== *)
theory Vault_Safety
  imports Vault
begin

text \<open>
  What the vault page guarantees: who can have parameters signed and which, the bounds of the rate and
  the index, the log, and where the page falls short of its intent.
\<close>

section \<open>Rounding twice\<close>

lemma round_double_idem [simp]: "round_double (round_double x) = round_double x"
proof (cases "x = 0")
  case False
  let ?u = "ulp_exp x"
  have "\<bar>x\<bar> < 2 powi (ilog2 \<bar>x\<bar> + 1)" using ilog2_bounds(2)[of "\<bar>x\<bar>"] False by simp
  also have "\<dots> \<le> 2 powi (?u + 53)" by (simp add: ulp_exp_def)
  finally have "\<bar>x / 2 powi ?u\<bar> \<le> of_int (2 ^ 53)" by (simp add: power_int_add field_simps)
  then have "x / 2 powi ?u \<le> of_int (2 ^ 53)" "of_int (- (2 ^ 53)) \<le> x / 2 powi ?u" by linarith+
  from this[THEN round_even_mono] have "\<bar>round_even (x / 2 powi ?u)\<bar> \<le> 2 ^ 53"
    unfolding round_even_of_int by simp
  moreover have "round_double x = of_int (round_even (x / 2 powi ?u)) * 2 powi ?u"
    using False by (simp add: round_double_def)
  moreover have "- 1074 \<le> ?u" by (simp add: ulp_exp_def)
  ultimately show ?thesis by (intro round_double_exact)
qed simp

section \<open>Accepted parameters\<close>

lemma in_range:
  assumes "n \<noteq> NaN" "\<not> num_less n (Fin lo)" "\<not> num_less (Fin hi) n"
  obtains q where "n = Fin q" "lo \<le> q" "q \<le> hi"
  using assms by (cases n) auto

lemma accepted_params:
  assumes "validateVaultParams p = no_errors"
  obtains a b where "parseFloat (vp_apy p) = Fin a" "0 \<le> a" "a \<le> 25" "parseFloat (vp_baseInterestRate p) = Fin b" "0 \<le> b" "b \<le> a"
    "vault_address (trim (vp_adminAddress p))"
    "vp_dynamicApyEnabled p \<Longrightarrow> vp_dynamicRuleType p = Utilization \<Longrightarrow>
      (\<exists>u. parseFloat (vp_targetUtilization p) = Fin u \<and> 0 \<le> u \<and> u \<le> 100)
      \<and> (\<exists>m. parseFloat (vp_utilizationMultiplier p) = Fin m \<and> 1 \<le> m \<and> m \<le> 5)"
proof -
  let ?a = "parseFloat (vp_apy p)" and ?b = "parseFloat (vp_baseInterestRate p)"
  have e: "?a \<noteq> NaN" "\<not> num_less ?a (Fin 0)" "\<not> num_less (Fin 25) ?a" "?b \<noteq> NaN" "\<not> num_less ?b (Fin 0)"
    "\<not> num_less (if ?a = NaN then Fin 0 else ?a) ?b" "vault_address (trim (vp_adminAddress p))"
    "vp_dynamicApyEnabled p \<and> vp_dynamicRuleType p = Utilization \<Longrightarrow> \<not> outside (Fin 0) (Fin 100) (parseFloat (vp_targetUtilization p))"
    "vp_dynamicApyEnabled p \<and> vp_dynamicRuleType p = Utilization \<Longrightarrow> \<not> outside (Fin 1) (Fin 5) (parseFloat (vp_utilizationMultiplier p))"
    using assms unfolding validateVaultParams_def no_errors_def Let_def by (simp_all split: if_splits)
  obtain a where a: "?a = Fin a" "0 \<le> a" "a \<le> 25" using in_range[OF e(1-3)] .
  obtain b where b: "?b = Fin b" "0 \<le> b" "b \<le> a" using in_range[OF e(4,5), of a] e(6) a(1) by auto
  have c: "\<not> outside (Fin l) (Fin h) n \<Longrightarrow> \<exists>q. n = Fin q \<and> l \<le> q \<and> q \<le> h" for l h n
    by (cases n) (auto simp: outside_def)
  show thesis by (rule that[OF a b e(7)]) (use c e(8,9) in blast)+
qed

section \<open>The rate\<close>

lemma mul_le:
  assumes "0 \<le> x" "x \<le> of_nat m" "0 \<le> y" "y \<le> of_nat n" "m * n \<le> 2 ^ 53"
  shows "\<exists>z. num_mul (Fin x) (Fin y) = Fin z \<and> 0 \<le> z \<and> z \<le> of_nat (m * n)"
proof -
  have "x * y \<le> of_nat (m * n)" using assms(1-4) by (simp add: mult_mono)
  from to_num_le[OF _ this assms(5)] assms(1,3) show ?thesis by auto
qed

lemma add_le:
  assumes "0 \<le> x" "x \<le> of_nat m" "0 \<le> y" "y \<le> of_nat n" "m + n \<le> 2 ^ 53"
  shows "\<exists>z. num_add (Fin x) (Fin y) = Fin z \<and> 0 \<le> z \<and> z \<le> of_nat (m + n)"
proof -
  have "x + y \<le> of_nat (m + n)" using assms(1-4) by simp
  from to_num_le[OF _ this assms(5)] assms(1,3) show ?thesis by auto
qed

lemma clamp: "0 \<le> x \<Longrightarrow> \<exists>r. num_min (Fin 25) (num_max (Fin 0) (Fin x)) = Fin r \<and> 0 \<le> r \<and> r \<le> 25"
  by (simp add: num_max_def num_min_def)

lemma effective_rate_bounds:
  assumes "0 \<le> a" "a \<le> 25" "0 \<le> b" "b \<le> a"
    and "dyn \<Longrightarrow> rule = Utilization \<Longrightarrow> util = Fin u \<and> 0 \<le> u \<and> u \<le> 100 \<and> surge = Fin m \<and> 0 \<le> m \<and> m \<le> 5"
  shows "\<exists>r. effective_rate (Fin a) (Fin b) dyn rule util surge = Fin r \<and> 0 \<le> r \<and> r \<le> 25"
proof -
  have "\<exists>x \<ge> 0. (if \<not> dyn then Fin a else case rule of
      Utilization \<Rightarrow> (let spread = num_max (Fin 0) (num_sub (Fin a) (Fin b)) in
        num_add (Fin b) (num_mul (num_mul spread (num_div util (Fin 100))) surge))
    | Tiered \<Rightarrow> num_mul (Fin a) (to_num (115 / 100)) | Performance \<Rightarrow> num_mul (Fin a) (to_num (11 / 10))) = Fin x" (is "\<exists>x \<ge> 0. ?e = Fin x")
  proof (cases "dyn")
    case True
    show ?thesis
    proof (cases rule)
      case Utilization
      note um = assms(5)[OF True Utilization]
      have "a - b \<le> of_nat 25" using assms by simp
      from to_num_le[OF _ this] assms(4) obtain s where s: "num_sub (Fin a) (Fin b) = Fin s" "0 \<le> s" "s \<le> of_nat 25"
        by (auto simp: num_sub_def)
      have "u / 100 \<le> of_nat 1" using um by simp
      from to_num_le[OF _ this] um obtain w where w: "num_div util (Fin 100) = Fin w" "0 \<le> w" "w \<le> of_nat 1" by auto
      have mx: "num_max (Fin 0) (Fin s) = Fin s" using s(2) by (simp add: num_max_def)
      obtain v where v: "num_mul (Fin s) (Fin w) = Fin v" "0 \<le> v" "v \<le> of_nat (25 * 1)" using mul_le[OF s(2,3) w(2,3)] by auto
      have m: "surge = Fin m" "0 \<le> m" "m \<le> of_nat 5" using um by simp_all
      obtain z where z: "num_mul (Fin v) (Fin m) = Fin z" "0 \<le> z" "z \<le> of_nat (25 * 1 * 5)" using mul_le[OF v(2,3) m(2,3)] by auto
      have b: "b \<le> of_nat 25" using assms by simp
      obtain x where x: "num_add (Fin b) (Fin z) = Fin x" "0 \<le> x" using add_le[OF assms(3) b z(2,3)] by auto
      have "?e = Fin x"
        by (simp only: True Utilization not_True_eq_False if_False rule_type.case Let_def s(1) mx w(1) m(1) v(1) z(1) x(1))
      with x(2) show ?thesis by blast
    next
      case Tiered
      obtain c where c: "to_num (115 / 100) = Fin c" "0 \<le> c" "c \<le> of_nat 2" using to_num_le[of "115 / 100" 2] by auto
      have a: "a \<le> of_nat 25" using assms(2) by simp
      obtain x where x: "num_mul (Fin a) (Fin c) = Fin x" "0 \<le> x" using mul_le[OF assms(1) a c(2,3)] by auto
      have "?e = Fin x" by (simp only: True Tiered not_True_eq_False if_False rule_type.case c(1) x(1))
      with x(2) show ?thesis by blast
    next
      case Performance
      obtain c where c: "to_num (11 / 10) = Fin c" "0 \<le> c" "c \<le> of_nat 2" using to_num_le[of "11 / 10" 2] by auto
      have a: "a \<le> of_nat 25" using assms(2) by simp
      obtain x where x: "num_mul (Fin a) (Fin c) = Fin x" "0 \<le> x" using mul_le[OF assms(1) a c(2,3)] by auto
      have "?e = Fin x" by (simp only: True Performance not_True_eq_False if_False rule_type.case c(1) x(1))
      with x(2) show ?thesis by blast
    qed
  qed (use assms(1) in auto)
  then obtain x where x: "0 \<le> x" "?e = Fin x" by blast
  show ?thesis unfolding effective_rate_def x(2) by (rule clamp[OF x(1)])
qed

definition form_rate :: "VaultParams \<Rightarrow> js_num" where
  "form_rate p = effective_rate (num_or (parseFloat (vp_apy p)) (Fin 0)) (num_or (parseFloat (vp_baseInterestRate p)) (Fin 0))
     (vp_dynamicApyEnabled p) (vp_dynamicRuleType p) (num_or (parseFloat (vp_targetUtilization p)) (Fin 80))
     (num_or (parseFloat (vp_utilizationMultiplier p)) (Fin (5 / 4)))"

lemma rate_or_0 [simp]: "num_or (Fin a) (Fin 0) = Fin a"
  by (simp add: num_or_def)

lemma form_rate_bounds:
  assumes "validateVaultParams p = no_errors"
  shows "\<exists>r. form_rate p = Fin r \<and> 0 \<le> r \<and> r \<le> 25"
proof -
  obtain a b where ab: "parseFloat (vp_apy p) = Fin a" "0 \<le> a" "a \<le> 25" "parseFloat (vp_baseInterestRate p) = Fin b" "0 \<le> b" "b \<le> a"
    and c: "vp_dynamicApyEnabled p \<Longrightarrow> vp_dynamicRuleType p = Utilization \<Longrightarrow>
      (\<exists>u. parseFloat (vp_targetUtilization p) = Fin u \<and> 0 \<le> u \<and> u \<le> 100)
      \<and> (\<exists>m. parseFloat (vp_utilizationMultiplier p) = Fin m \<and> 1 \<le> m \<and> m \<le> 5)"
    using accepted_params[OF assms] by metis
  define util where "util = num_or (parseFloat (vp_targetUtilization p)) (Fin 80)"
  define surge where "surge = num_or (parseFloat (vp_utilizationMultiplier p)) (Fin (5 / 4))"
  have "\<exists>u m. (vp_dynamicApyEnabled p \<longrightarrow> vp_dynamicRuleType p = Utilization \<longrightarrow>
      util = Fin u \<and> 0 \<le> u \<and> u \<le> 100 \<and> surge = Fin m \<and> 0 \<le> m \<and> m \<le> 5)"
  proof (cases "vp_dynamicApyEnabled p \<and> vp_dynamicRuleType p = Utilization")
    case True
    with c obtain u m where "parseFloat (vp_targetUtilization p) = Fin u" "0 \<le> u" "u \<le> 100"
      "parseFloat (vp_utilizationMultiplier p) = Fin m" "1 \<le> m" "m \<le> 5" by blast
    then have "util = Fin (if u = 0 then 80 else u)" "surge = Fin m" "0 \<le> (if u = 0 then 80 else u)" "(if u = 0 then 80 else u) \<le> 100" "0 \<le> m" "m \<le> 5"
      by (simp_all add: util_def surge_def num_or_def)
    then show ?thesis by blast
  qed blast
  then obtain u m where "vp_dynamicApyEnabled p \<Longrightarrow> vp_dynamicRuleType p = Utilization \<Longrightarrow>
      util = Fin u \<and> 0 \<le> u \<and> u \<le> 100 \<and> surge = Fin m \<and> 0 \<le> m \<and> m \<le> 5" by blast
  from effective_rate_bounds[OF ab(2,3,5,6) this]
  show ?thesis by (simp add: form_rate_def ab util_def surge_def)
qed

lemma form_metrics_eq: "form_metrics idx p = (let rate = form_rate p in
   \<lparr>me_effectiveRate = fixed 3 rate, me_projected30d = fixed 8 (grown idx rate (num_div (Fin 30) (Fin 365))),
    me_projected1y = fixed 8 (num_mul idx (num_add (Fin 1) (num_div rate (Fin 100)))),
    me_newYieldIndex = fixed 8 (grown idx rate (num_div (Fin 1) (Fin 365)))\<rparr>)"
  by (simp add: form_metrics_def calculateYieldIndexMetrics_def form_rate_def)

section \<open>The index\<close>

definition on_grid :: "nat \<Rightarrow> js_num \<Rightarrow> bool" where
  "on_grid k n \<longleftrightarrow> n = to_num (of_nat k / 10 ^ 8)"

lemma grown_grid:
  assumes "on_grid k (Fin i)" "0 < k" "k < 2 ^ 52" "0 \<le> r" "r \<le> 25"
  shows "\<exists>k' \<ge> k. on_grid k' (fixed 8 (grown (Fin i) (Fin r) (num_div (Fin 1) (Fin 365))))"
proof -
  have i: "i = round_double (of_nat k / 10 ^ 8)" using assms(1) by (auto simp: on_grid_def to_num_def Let_def split: if_splits)
  have "(of_nat k :: rat) < of_nat (2 ^ 52)" using assms(3) by (simp only: of_nat_less_iff)
  then have "(of_nat k :: rat) / 10 ^ 8 \<le> of_nat 45035997" by (simp add: field_simps)
  with to_num_le[OF _ this] assms(1) have ib: "0 \<le> i" "i \<le> of_nat 45035997" by (auto simp: on_grid_def)
  obtain s where s: "num_div (Fin 1) (Fin 365) = Fin s" "0 \<le> s" "s \<le> of_nat 1" using to_num_le[of "1 / 365" 1] by auto
  have "r / 100 \<le> of_nat 1" using assms(5) by simp
  from to_num_le[OF _ this] assms(4) obtain w where w: "num_div (Fin r) (Fin 100) = Fin w" "0 \<le> w" "w \<le> of_nat 1" by auto
  obtain v where v: "num_mul (Fin w) (Fin s) = Fin v" "0 \<le> v" "v \<le> of_nat (1 * 1)" using mul_le[OF w(2,3) s(2,3)] by auto
  have one: "(0::rat) \<le> 1" "(1::rat) \<le> of_nat 1" by simp_all
  obtain g where g: "num_add (Fin 1) (Fin v) = Fin g" "g \<le> of_nat (1 + 1 * 1)" using add_le[OF one v(2,3)] by auto
  have g1: "1 \<le> g" using to_num_mono[of 1 1 "1 + v" g] g(1) v(2) by simp
  have g0: "0 \<le> g" using g1 by simp
  obtain x where x: "num_mul (Fin i) (Fin g) = Fin x" "0 \<le> x" "x \<le> of_nat (45035997 * (1 + 1 * 1))"
    using mul_le[OF ib g0 g(2)] by auto
  have "i * 1 \<le> i * g" using ib(1) g1 by (intro mult_left_mono)
  then have "round_double i \<le> round_double (i * g)" by (intro round_double_mono) simp
  moreover have "x = round_double (i * g)" using x(1) by (auto simp: to_num_def Let_def split: if_splits)
  ultimately have ix: "round_double (of_nat k / 10 ^ 8) \<le> x" by (simp add: i)
  have "x < 10 ^ 21" using x(3) by simp
  from fixed_above_grid[OF assms(2,3) _ _ ix this] show ?thesis
    unfolding on_grid_def grown_def w(1) s(1) v(1) g(1) x(1) by simp
qed

section \<open>Reachable pages\<close>

text \<open>The pages that can be reached while every page on the way satisfies \<open>B\<close>.\<close>

inductive vault_reach :: "bool \<Rightarrow> (page \<Rightarrow> bool) \<Rightarrow> sys \<Rightarrow> bool" for isSuperAdmin :: bool and B :: "page \<Rightarrow> bool" where
  start: "vault_reach isSuperAdmin B page_mounted"
| step: "vault_reach isSuperAdmin B y \<Longrightarrow> B (fst y) \<Longrightarrow> vault_step isSuperAdmin e y = Some y' \<Longrightarrow> vault_reach isSuperAdmin B y'"

fun is_signing :: "flight \<Rightarrow> bool" where
  "is_signing (Signing _) = True"
| "is_signing _ = False"

text \<open>The submissions a step can add.\<close>

lemma signAndSubmit_cases:
  assumes "signAndSubmit s = (s', new)"
  obtains (refused) "new = []" "pg_index s' = pg_index s" "pg_log s' = pg_log s" "pg_signing s' = pg_signing s"
  | (signed) m where "pg_confirmed s" "validateVaultParams (pg_params s) = no_errors" "truthy (fw_publicKey (pg_wallet s))"
    "m = form_metrics (pg_index s) (pg_params s)" "pg_index s' = me_newYieldIndex m" "pg_log s' = pg_log s" "pg_signing s'"
    "new = [Signing \<lparr>sb_params = pg_params s, sb_publicKey = the (fw_publicKey (pg_wallet s)), sb_metrics = m\<rparr>]"
  using assms unfolding signAndSubmit_def fail_def Let_def by (auto split: if_splits)

lemma press_quiet:
  assumes "press adm c s = (s', new)" "c \<noteq> Submit"
  shows "\<not> list_ex is_signing new \<and> pg_index s' = pg_index s \<and> pg_log s' = pg_log s \<and> pg_signing s' = pg_signing s"
  using assms by (cases c) (auto simp: edit_def edit_validated_def split: if_splits)

lemma set_wallet_keeps [simp]:
  "pg_index (set_wallet x s) = pg_index s" "pg_log (set_wallet x s) = pg_log s" "pg_signing (set_wallet x s) = pg_signing s"
  by (simp_all add: set_wallet_def Let_def)

lemma on_signed_keeps [simp]: "pg_index (on_signed b z r s) = pg_index s" "\<not> pg_signing (on_signed b z r s)"
  by (auto simp: on_signed_def fail_def split: res.splits option.splits)

lemma on_signed_log: "pg_log (on_signed b z r s) = (case r of Ret (Some xdr) \<Rightarrow> log_entry z xdr b # pg_log s | _ \<Rightarrow> pg_log s)"
  by (auto simp: on_signed_def fail_def split: res.splits option.splits)

definition good_submission :: "bool \<Rightarrow> submission \<Rightarrow> bool" where
  "good_submission isSuperAdmin b \<longleftrightarrow> isSuperAdmin \<and> validateVaultParams (sb_params b) = no_errors \<and> sb_publicKey b \<noteq> []
     \<and> (\<exists>idx. sb_metrics b = form_metrics idx (sb_params b))"

definition gate_inv :: "bool \<Rightarrow> page \<Rightarrow> flight list \<Rightarrow> bool" where
  "gate_inv isSuperAdmin s fl \<longleftrightarrow>
     (\<forall>b. Signing b \<in> set fl \<longrightarrow> good_submission isSuperAdmin b \<and> pg_index s = me_newYieldIndex (sb_metrics b))
     \<and> (pg_signing s \<longleftrightarrow> filter is_signing fl \<noteq> []) \<and> length (filter is_signing fl) \<le> 1"

lemma signing_member: "Signing b \<in> set fl \<longleftrightarrow> Signing b \<in> set (filter is_signing fl)"
  by simp

lemma filter_signing_remove1:
  "\<not> is_signing f \<Longrightarrow> filter is_signing (remove1 f fl) = filter is_signing fl"
  by (simp add: filter_remove1 remove1_idem)

lemma gate_invI:
  assumes "gate_inv adm s fl" "filter is_signing fl' = filter is_signing fl" "pg_index s' = pg_index s" "pg_signing s' = pg_signing s"
  shows "gate_inv adm s' fl'"
  using assms unfolding gate_inv_def by (metis signing_member)

lemma gate_step:
  assumes "vault_step adm e (s, fl) = Some (s', fl')" "gate_inv adm s fl"
  shows "gate_inv adm s' fl'"
proof (cases e)
  case (Do c)
  then obtain new where c: "enabled adm s c" "press adm c s = (s', new)" "fl' = fl @ new"
    using assms(1) by (auto split: if_splits prod.splits)
  show ?thesis
  proof (cases "c = Submit")
    case True
    with c have en: "adm" "\<not> pg_signing s" and ss: "signAndSubmit s = (s', new)" by simp_all
    have no: "filter is_signing fl = []" using assms(2) en(2) by (simp add: gate_inv_def)
    from ss show ?thesis
    proof (cases rule: signAndSubmit_cases)
      case refused
      then show ?thesis using c(3) by (intro gate_invI[OF assms(2)]) simp_all
    next
      case (signed m)
      have "Signing b \<notin> set fl" for b using no signing_member[of b fl] by simp
      with signed no c(3) en(1) show ?thesis
        by (auto simp: gate_inv_def good_submission_def) (metis option.sel truthy.elims(2))
    qed
  next
    case False
    note q = press_quiet[OF c(2) False]
    then have "filter is_signing new = []" by (auto simp: list_ex_iff filter_empty_conv)
    with q c(3) show ?thesis by (intro gate_invI[OF assms(2)]) simp_all
  qed
next
  case (Detected x)
  then show ?thesis using assms(1)
    by (intro gate_invI[OF assms(2)]) (auto simp: filter_signing_remove1 split: if_splits)
next
  case (Connected_answer r)
  then show ?thesis using assms(1)
    by (intro gate_invI[OF assms(2)]) (auto simp: filter_signing_remove1 split: if_splits res.splits)
next
  case (Signed_answer b z r)
  then have b: "Signing b \<in> set (filter is_signing fl)" "s' = on_signed b z r s" "fl' = remove1 (Signing b) fl"
    using assms(1) by (auto split: if_splits)
  moreover have "length (filter is_signing fl) \<le> 1" using assms(2) by (simp add: gate_inv_def)
  ultimately have "filter is_signing fl = [Signing b]" by (cases "filter is_signing fl") auto
  then have f: "filter is_signing fl' = []" unfolding b(3) filter_remove1 by simp
  then have "Signing b' \<notin> set fl'" for b' using signing_member[of b' fl'] by simp
  with f b(2) show ?thesis by (simp add: gate_inv_def)
qed

lemma gate_reach: "vault_reach adm B y \<Longrightarrow> gate_inv adm (fst y) (snd y)"
proof (induction rule: vault_reach.induct)
  case start
  show ?case by (simp add: gate_inv_def page_mounted_def)
next
  case (step y e y')
  then show ?case using gate_step[of adm e "fst y" "snd y" "fst y'" "snd y'"] by simp
qed

text \<open>A request to sign is made by the submit button alone, out of the form and the wallet of that moment.\<close>

lemma signing_born:
  assumes "vault_step adm e (s, fl) = Some (s', fl')" "Signing b \<in> set fl'" "Signing b \<notin> set fl"
  shows "e = Do Submit \<and> enabled adm s Submit \<and> pg_confirmed s \<and> fw_installed (pg_wallet s) \<and> fw_connected (pg_wallet s)
    \<and> fw_publicKey (pg_wallet s) = Some (sb_publicKey b) \<and> sb_publicKey b \<noteq> [] \<and> sb_params b = pg_params s"
proof (cases e)
  case (Do c)
  then obtain new where c: "enabled adm s c" "press adm c s = (s', new)" "Signing b \<in> set new"
    using assms by (auto split: if_splits prod.splits)
  have sub: "c = Submit"
  proof (rule ccontr)
    assume "c \<noteq> Submit"
    from press_quiet[OF c(2) this] c(3) show False by (auto simp: list_ex_iff)
  qed
  with c(2) have "signAndSubmit s = (s', new)" by simp
  with c(1,3) sub Do show ?thesis
    by (auto simp: signAndSubmit_def Let_def split: if_splits elim: truthy.elims)
qed (use assms in \<open>auto split: if_splits res.splits dest: notin_set_remove1\<close>)

text \<open>
  C12: Vault parameters go to the wallet only for a superadmin, after the form passed validation, and never
  twice at a time: after every step, a request under way carries valid parameters and is the only one.  It was
  made by the submit button, pressed with the confirmation ticked and no request under way, while the
  wallet on the page was connected, for the public key of that wallet and with the parameters on the form.
\<close>

theorem vault_signing_gate:
  assumes "vault_reach (useSuperAdmin a) (\<lambda>_. True) (s, fl)" "vault_step (useSuperAdmin a) e (s, fl) = Some (s', fl')"
    and "Signing b \<in> set fl'"
  shows "useSuperAdmin a \<and> validateVaultParams (sb_params b) = no_errors \<and> pg_signing s' \<and> filter is_signing fl' = [Signing b]
    \<and> (Signing b \<notin> set fl \<longrightarrow> e = Do Submit \<and> pg_confirmed s \<and> filter is_signing fl = []
        \<and> fw_installed (pg_wallet s) \<and> fw_connected (pg_wallet s)
        \<and> fw_publicKey (pg_wallet s) = Some (sb_publicKey b) \<and> sb_publicKey b \<noteq> [] \<and> sb_params b = pg_params s)"
proof -
  have g0: "gate_inv (useSuperAdmin a) s fl" using gate_reach[OF assms(1)] by simp
  have g: "gate_inv (useSuperAdmin a) s' fl'" by (rule gate_step[OF assms(2) g0])
  have m: "Signing b \<in> set (filter is_signing fl')" using assms(3) by simp
  moreover have "length (filter is_signing fl') \<le> 1" using g by (simp add: gate_inv_def)
  ultimately have one: "filter is_signing fl' = [Signing b]" by (cases "filter is_signing fl'") auto
  have "filter is_signing fl = []" if "Signing b \<notin> set fl"
    using signing_born[OF assms(2,3) that] g0 by (auto simp: gate_inv_def)
  then show ?thesis using g assms(3) one signing_born[OF assms(2,3)] unfolding gate_inv_def good_submission_def by simp
qed

text \<open>
  C25: Whatever dynamic rule is chosen, the annual rate that is signed is between 0 and the 25 percent the
  contract allows.
\<close>

theorem signed_rate_capped:
  assumes "vault_reach isSuperAdmin (\<lambda>_. True) (s, fl)" "Signing b \<in> set fl"
  shows "\<exists>r. me_effectiveRate (sb_metrics b) = Fin r \<and> 0 \<le> r \<and> r \<le> 25"
proof -
  have "good_submission isSuperAdmin b" using gate_reach[OF assms(1)] assms(2) by (simp add: gate_inv_def)
  then obtain idx where b: "validateVaultParams (sb_params b) = no_errors" "sb_metrics b = form_metrics idx (sb_params b)"
    by (auto simp: good_submission_def)
  obtain r where r: "form_rate (sb_params b) = Fin r" "0 \<le> r" "r \<le> of_nat 25" using form_rate_bounds[OF b(1)] by auto
  from fixed_le[OF r(2,3), of 3] show ?thesis by (auto simp: b(2) form_metrics_eq Let_def r(1))
qed

definition small_index :: "page \<Rightarrow> bool" where
  "small_index s \<longleftrightarrow> (case pg_index s of Fin i \<Rightarrow> i < 45000000 | _ \<Rightarrow> False)"

lemma grid_step:
  assumes "vault_step adm e (s, fl) = Some (s', fl')" "on_grid k (pg_index s)" "0 < k" "small_index s"
  shows "\<exists>k' \<ge> k. on_grid k' (pg_index s')"
proof (cases "pg_index s' = pg_index s")
  case True
  with assms(2) show ?thesis by auto
next
  case False
  have e: "e = Do Submit"
    using assms(1) False by (cases e) (auto dest: press_quiet split: if_splits prod.splits res.splits)
  then obtain new where "signAndSubmit s = (s', new)" using assms(1) by (auto split: if_splits prod.splits)
  then obtain m where m: "validateVaultParams (pg_params s) = no_errors" "m = form_metrics (pg_index s) (pg_params s)"
    "pg_index s' = me_newYieldIndex m"
    using False by (cases rule: signAndSubmit_cases) auto
  obtain i where i: "pg_index s = Fin i" "i < 45000000" using assms(4) by (auto simp: small_index_def split: js_num.splits)
  obtain r where r: "form_rate (pg_params s) = Fin r" "0 \<le> r" "r \<le> 25" using form_rate_bounds[OF m(1)] by auto
  have "k < 2 ^ 52"
  proof (rule ccontr)
    assume "\<not> k < 2 ^ 52"
    then have "(of_nat (2 ^ 52) :: rat) \<le> of_nat k" by (simp only: of_nat_le_iff not_less)
    then have "(45000000 :: rat) \<le> of_nat k / 10 ^ 8" by (simp add: field_simps)
    then have "round_double 45000000 \<le> round_double (of_nat k / 10 ^ 8)" by (rule round_double_mono)
    moreover have "i = round_double (of_nat k / 10 ^ 8)"
      using assms(2) i(1) by (auto simp: on_grid_def to_num_def Let_def split: if_splits)
    moreover have "round_double 45000000 = 45000000" using round_double_of_int[of 45000000] by simp
    ultimately show False using i(2) by simp
  qed
  from grown_grid[OF _ assms(3) this r(2,3), of i] assms(2) i(1) r(1) show ?thesis
    by (simp add: m(2,3) form_metrics_eq Let_def)
qed

lemma grid_reach: "vault_reach adm small_index y \<Longrightarrow> \<exists>k > 0. on_grid k (pg_index (fst y))"
proof (induction rule: vault_reach.induct)
  case start
  show ?case by (intro exI[of _ 104285012]) (simp add: on_grid_def page_mounted_def INITIAL_YIELD_INDEX_def)
next
  case (step y e y')
  then obtain k where "0 < k" "on_grid k (pg_index (fst y))" by blast
  with grid_step[of adm e "fst y" "snd y" "fst y'" "snd y'" k] step.hyps
  obtain k' where "k \<le> k'" "on_grid k' (pg_index (fst y'))" by auto
  with \<open>0 < k\<close> show ?case by (intro exI[of _ k']) simp
qed

text \<open>
  C11: The index never goes down: as long as it is below 45 million (it starts near 1), every step leaves it
  at least where it was, if it leaves it a finite number.
\<close>

theorem index_never_decreases:
  assumes "vault_reach isSuperAdmin small_index y" "vault_step isSuperAdmin e y = Some y'"
    and "pg_index (fst y) = Fin i" "i < 45000000" "pg_index (fst y') = Fin i'"
  shows "i \<le> i'"
proof -
  obtain k where k: "0 < k" "on_grid k (pg_index (fst y))" using grid_reach[OF assms(1)] by blast
  have "small_index (fst y)" using assms(3,4) by (simp add: small_index_def)
  with grid_step[of isSuperAdmin e "fst y" "snd y" "fst y'" "snd y'" k] k assms(2)
  obtain k' where k': "k \<le> k'" "on_grid k' (pg_index (fst y'))" by auto
  have "(of_nat k :: rat) / 10 ^ 8 \<le> of_nat k' / 10 ^ 8" using k'(1) by (simp add: divide_right_mono)
  with to_num_mono k(2) k'(2) assms(3,5) show ?thesis unfolding on_grid_def by metis
qed

section \<open>The log\<close>

fun accepted :: "event \<Rightarrow> bool" where
  "accepted (Signed_answer b z (Ret (Some xdr))) = True"
| "accepted _ = False"

lemma log_step:
  assumes "vault_step adm e (s, fl) = Some (s', fl')"
  shows "pg_log s' = (case e of Signed_answer b z (Ret (Some xdr)) \<Rightarrow> log_entry z xdr b # pg_log s | _ \<Rightarrow> pg_log s)"
proof (cases e)
  case (Do c)
  then obtain new where c: "press adm c s = (s', new)" using assms by (auto split: if_splits prod.splits)
  have "pg_log s' = pg_log s"
  proof (cases "c = Submit")
    case True
    with c have "signAndSubmit s = (s', new)" by simp
    then show ?thesis by (cases rule: signAndSubmit_cases) simp_all
  qed (use press_quiet[OF c] in simp)
  with Do show ?thesis by simp
next
  case (Signed_answer b z r)
  with assms show ?thesis by (auto simp: on_signed_log split: if_splits res.splits option.splits)
qed (use assms in \<open>auto split: if_splits res.splits\<close>)

text \<open>
  The log records exactly the accepted changes: a run adds one configuration entry for every answer with
  a signed envelope, on top of the entries that were there, and nothing else changes it.
\<close>

theorem log_records_accepted:
  "vault_run isSuperAdmin es (s, fl) = Some (s', fl') \<Longrightarrow>
   \<exists>new. pg_log s' = new @ pg_log s \<and> length new = length (filter accepted es) \<and> list_all (\<lambda>t. yt_action t = Config) new"
proof (induction es arbitrary: s fl)
  case Nil
  then show ?case by simp
next
  case (Cons e es)
  then obtain s1 fl1 where s1: "vault_step isSuperAdmin e (s, fl) = Some (s1, fl1)" "vault_run isSuperAdmin es (s1, fl1) = Some (s', fl')"
    by (auto simp: Option.bind_eq_Some_conv)
  obtain new where new: "pg_log s' = new @ pg_log s1" "length new = length (filter accepted es)" "list_all (\<lambda>t. yt_action t = Config) new"
    using Cons.IH[OF s1(2)] by blast
  obtain one where one: "pg_log s1 = one @ pg_log s" "length one = (if accepted e then 1 else 0)" "list_all (\<lambda>t. yt_action t = Config) one"
  proof (cases "accepted e")
    case True
    then obtain b z xdr where e: "e = Signed_answer b z (Ret (Some xdr))" by (cases e rule: accepted.cases) auto
    show thesis using log_step[OF s1(1)] by (intro that[of "[log_entry z xdr b]"]) (simp_all add: e log_entry_def Let_def)
  next
    case False
    have "pg_log s1 = pg_log s"
      using log_step[OF s1(1)] False by (cases e rule: accepted.cases) (auto split: res.splits option.splits)
    with False show thesis by (intro that[of "[]"]) simp_all
  qed
  show ?case
    by (intro exI[of _ "new @ one"]) (use new one in simp)
qed

section \<open>Runs\<close>

definition sample_key :: string where
  "sample_key = ''GA1YEFGHIJKLMNOPQRSTUVWXYZ1234567890EFGHIJKLMNOPQRSTUVWX''"

definition sample_wallet :: FreighterWalletState where
  "sample_wallet = \<lparr>fw_installed = True, fw_connected = True, fw_publicKey = Some sample_key, fw_network = Some ''TESTNET''\<rparr>"

definition sample_params :: VaultParams where
  "sample_params = initial_params\<lparr>vp_adminAddress := sample_key\<rparr>"

definition sample_submission :: submission where
  "sample_submission = \<lparr>sb_params = sample_params, sb_publicKey = sample_key, sb_metrics = form_metrics INITIAL_YIELD_INDEX sample_params\<rparr>"

lemma literals:
  "parseFloat ''5.0'' = Fin 5" "parseFloat ''3.5'' = Fin (7 / 2)" "parseFloat ''80'' = Fin 80" "parseFloat ''1.25'' = Fin (5 / 4)"
  "parseFloat ''0'' = Fin 0" "parseFloat ''9'' = Fin 9"
proof -
  have u: "unsigned_decimal ''5.0'' = Some (5, [])" "unsigned_decimal ''3.5'' = Some (7 / 2, [])"
    "unsigned_decimal ''80'' = Some (80, [])" "unsigned_decimal ''1.25'' = Some (5 / 4, [])"
    "unsigned_decimal ''0'' = Some (0, [])" "unsigned_decimal ''9'' = Some (9, [])" by code_simp+
  show "parseFloat ''5.0'' = Fin 5" using parseFloat_unsigned[OF u(1)] by (simp add: is_digit_def)
  show "parseFloat ''3.5'' = Fin (7 / 2)" using parseFloat_unsigned[OF u(2)] to_num_binary[of 7 1] by (simp add: is_digit_def)
  show "parseFloat ''80'' = Fin 80" using parseFloat_unsigned[OF u(3)] by (simp add: is_digit_def)
  show "parseFloat ''1.25'' = Fin (5 / 4)" using parseFloat_unsigned[OF u(4)] to_num_binary[of 5 2] by (simp add: is_digit_def)
  show "parseFloat ''0'' = Fin 0" using parseFloat_unsigned[OF u(5)] by (simp add: is_digit_def)
  show "parseFloat ''9'' = Fin 9" using parseFloat_unsigned[OF u(6)] by (simp add: is_digit_def)
qed

lemma sample_key_valid: "trim sample_key \<noteq> []" "vault_address (trim sample_key)"
  by code_simp+

lemmas validate_sample = validateVaultParams_def no_errors_def Let_def sample_params_def initial_params_def
  literals sample_key_valid outside_def

lemma sample_valid: "validateVaultParams sample_params = no_errors"
  by (simp add: validate_sample)

lemma sample_key_ne: "sample_key \<noteq> []"
  by (simp add: sample_key_def)

definition sample_stamp :: stamp where
  "sample_stamp = \<lparr>sm_now = 1750000000000, sm_iso = ''2026-01-01T00:00:00.000Z'', sm_hex = ''0123abcd'', sm_block = 17\<rparr>"

definition ready :: page where
  "ready = \<lparr>pg_wallet = sample_wallet, pg_walletLoading = False, pg_params = sample_params, pg_index = INITIAL_YIELD_INDEX,
     pg_formErrors = no_errors, pg_confirmed = True, pg_signing = False, pg_msg = None, pg_log = MOCK_TXS\<rparr>"

lemma ready_run: "vault_run True [Detected sample_wallet, Do (Confirm True)] page_mounted = Some (ready, [])"
  by (simp add: page_mounted_def set_wallet_def sample_wallet_def DEFAULT_WALLET_STATE_def sample_key_ne initial_params_def
      ready_def sample_params_def)

lemma ready_submit:
  "vault_step True (Do Submit) (ready, []) =
     Some (ready\<lparr>pg_signing := True, pg_index := me_newYieldIndex (sb_metrics sample_submission)\<rparr>, [Signing sample_submission])"
  by (simp add: signAndSubmit_def ready_def sample_valid sample_wallet_def sample_key_ne sample_submission_def Let_def)

lemma reach_run: "vault_run adm es y = Some y' \<Longrightarrow> vault_reach adm (\<lambda>_. True) y \<Longrightarrow> vault_reach adm (\<lambda>_. True) y'"
  by (induction es arbitrary: y) (auto simp: Option.bind_eq_Some_conv intro: vault_reach.step)

lemma signing_reached:
  "\<exists>s. vault_reach True (\<lambda>_. True) (s, [Signing sample_submission])"
  using reach_run[OF ready_run vault_reach.start] vault_reach.step[OF _ _ ready_submit] by blast

theorem vault_signing_gate_witness:
  "\<exists>s'. vault_step (useSuperAdmin \<lparr>au_token = None, au_role = Some ROLE_SUPERADMIN, au_web = ()\<rparr>) (Do Submit) (ready, [])
       = Some (s', [Signing sample_submission])
     \<and> pg_signing s' \<and> fw_publicKey (pg_wallet ready) = Some (sb_publicKey sample_submission)"
proof -
  let ?a = "\<lparr>au_token = None, au_role = Some ROLE_SUPERADMIN, au_web = ()\<rparr>"
  have u: "useSuperAdmin ?a" by (simp add: useSuperAdmin_def)
  have r: "vault_reach (useSuperAdmin ?a) (\<lambda>_. True) (ready, [])"
    using reach_run[OF ready_run vault_reach.start] u by simp
  obtain s' where s: "vault_step (useSuperAdmin ?a) (Do Submit) (ready, []) = Some (s', [Signing sample_submission])"
    using ready_submit u by simp
  from vault_signing_gate[OF r s, of sample_submission] s show ?thesis by auto
qed

theorem signed_rate_capped_witness:
  "\<exists>s r. vault_reach True (\<lambda>_. True) (s, [Signing sample_submission])
     \<and> me_effectiveRate (sb_metrics sample_submission) = Fin r \<and> r \<le> 25"
proof -
  obtain s where s: "vault_reach True (\<lambda>_. True) (s, [Signing sample_submission])" using signing_reached by blast
  from signed_rate_capped[OF s, of sample_submission] s show ?thesis by auto
qed

lemma initial_index: "\<exists>i. INITIAL_YIELD_INDEX = Fin i \<and> 0 \<le> i \<and> i \<le> 2"
  using to_num_le[of "104285012 / 10 ^ 8" 2] by (auto simp: INITIAL_YIELD_INDEX_def)

theorem index_never_decreases_witness:
  "\<exists>y i. vault_step True (Do Submit) (ready, []) = Some y \<and> pg_index ready = Fin i
     \<and> (\<forall>i'. pg_index (fst y) = Fin i' \<longrightarrow> i \<le> i')"
proof -
  obtain i where i: "INITIAL_YIELD_INDEX = Fin i" "0 \<le> i" "i \<le> 2" using initial_index by blast
  have r: "vault_reach True small_index (ready, [])"
  proof -
    have sm: "small_index (fst page_mounted)" using i(3) by (simp add: small_index_def page_mounted_def i(1))
    obtain y1 where y1: "vault_step True (Detected sample_wallet) page_mounted = Some y1" "vault_step True (Do (Confirm True)) y1 = Some (ready, [])"
      using ready_run by (auto simp: Option.bind_eq_Some_conv)
    have "vault_reach True small_index y1" by (rule vault_reach.step[where B = small_index, OF vault_reach.start sm y1(1)])
    moreover have "pg_index (fst y1) = INITIAL_YIELD_INDEX" using y1(1) by (auto simp: page_mounted_def)
    then have "small_index (fst y1)" using i(3) by (simp add: small_index_def i(1))
    ultimately show ?thesis using y1(2) by (rule vault_reach.step[where B = small_index])
  qed
  have pi: "pg_index (fst (ready, [] :: flight list)) = Fin i" "i < 45000000" using i by (simp_all add: ready_def)
  show ?thesis using index_never_decreases[OF r ready_submit pi] ready_submit pi(1) by auto
qed

theorem log_records_accepted_witness:
  "\<exists>s new. vault_run True [Do Submit, Signed_answer sample_submission sample_stamp (Ret (Some ''AAAA''))] (ready, []) = Some (s, [])
     \<and> pg_log s = new @ MOCK_TXS \<and> length new = 1"
proof -
  obtain s where s: "vault_run True [Do Submit, Signed_answer sample_submission sample_stamp (Ret (Some ''AAAA''))] (ready, []) = Some (s, [])"
    using ready_submit by auto
  from log_records_accepted[OF this] s show ?thesis by (auto simp: ready_def)
qed

section \<open>Where the page falls short\<close>

text \<open>
  The index is moved before the wallet is asked and not moved back: whatever the wallet answers, a
  rejection included, the page goes on with the index of the submission.
\<close>

theorem rejection_keeps_new_index:
  assumes "vault_reach isSuperAdmin (\<lambda>_. True) (s, fl)" "vault_step isSuperAdmin (Signed_answer b z r) (s, fl) = Some (s', fl')"
  shows "pg_index s' = me_newYieldIndex (sb_metrics b)"
proof -
  have "Signing b \<in> set fl" using assms(2) by (auto split: if_splits)
  then have "pg_index s = me_newYieldIndex (sb_metrics b)" using gate_reach[OF assms(1)] by (simp add: gate_inv_def)
  with assms(2) show ?thesis by (auto split: if_splits)
qed

theorem rejection_keeps_new_index_witness:
  "\<exists>s s'. vault_step True (Signed_answer sample_submission sample_stamp (Throw (Error ''User declined access'')))
       (s, [Signing sample_submission]) = Some (s', [])
     \<and> pg_index s' = me_newYieldIndex (sb_metrics sample_submission)"
proof -
  obtain s where s: "vault_reach True (\<lambda>_. True) (s, [Signing sample_submission])" using signing_reached by blast
  let ?r = "Throw (Error ''User declined access'')"
  have t: "vault_step True (Signed_answer sample_submission sample_stamp ?r) (s, [Signing sample_submission])
    = Some (on_signed sample_submission sample_stamp ?r s, [])" by simp
  from rejection_keeps_new_index[OF s t] t show ?thesis by blast
qed

text \<open>
  The admin address of the form, although required and validated, is not part of what is signed: the
  payload carries the connected account, whatever the field says.
\<close>

theorem admin_address_ignored:
  "payload (b\<lparr>sb_params := (sb_params b)\<lparr>vp_adminAddress := a\<rparr>, sb_metrics := form_metrics idx ((sb_params b)\<lparr>vp_adminAddress := a\<rparr>)\<rparr>)
   = payload (b\<lparr>sb_metrics := form_metrics idx (sb_params b)\<rparr>)"
  by (simp add: payload_def form_metrics_def Let_def)

text \<open>A target utilization of 0 percent, which validation allows, is computed as 80 percent.\<close>

theorem zero_utilization_is_80:
  "form_metrics idx (p\<lparr>vp_targetUtilization := ''0''\<rparr>) = form_metrics idx (p\<lparr>vp_targetUtilization := ''80''\<rparr>)
   \<and> fe_targetUtilization (validateVaultParams (p\<lparr>vp_targetUtilization := ''0''\<rparr>)) = None"
proof -
  show ?thesis by (simp add: literals form_metrics_def validateVaultParams_def Let_def outside_def num_or_def)
qed

text \<open>
  Changing the rule does not validate again: an error of a field that is no longer shown keeps a form
  with valid parameters from being submitted.
\<close>

theorem hidden_error_blocks:
  "\<exists>s. vault_run True [Do (Multiplier ''9''), Do (Rule Tiered)] (ready, []) = Some (s, [])
     \<and> validateVaultParams (pg_params s) = no_errors \<and> pg_formErrors s \<noteq> no_errors
     \<and> \<not> enabled True s Submit \<and> \<not> enabled True s (Multiplier ''2'')"
proof -
  let ?p = "sample_params\<lparr>vp_utilizationMultiplier := ''9'', vp_dynamicRuleType := Tiered\<rparr>"
  have v: "validateVaultParams ?p = no_errors" by (simp add: validate_sample)
  have w: "validateVaultParams (sample_params\<lparr>vp_utilizationMultiplier := ''9''\<rparr>) \<noteq> no_errors" by (simp add: validate_sample)
  have i: "vp_dynamicApyEnabled sample_params" "vp_dynamicRuleType sample_params = Utilization"
    by (simp_all add: sample_params_def initial_params_def)
  show ?thesis using v w i by (simp add: ready_def edit_def edit_validated_def)
qed

end
