(* ===== verification/Emergency_Pause.thy ===== *)
theory Emergency_Pause
  imports Zaps_Prelude Js_String
begin

text \<open>
  The emergency freeze of the vault (\<open>dashboard/components/EmergencyPauseControl.tsx\<close>): a button that
  opens a drawer, where a tick and a typed phrase have to confirm the change before the parent's
  \<open>onTogglePause\<close> is called.  The component's properties may change between two events.
\<close>

section \<open>The component\<close>

record props =
  pp_paused :: bool
  pp_isSuperAdmin :: bool
  pp_disabled :: bool

record drawer =
  dr_open :: bool
  dr_ackChecked :: bool
  dr_typedConfirm :: string
  dr_submitting :: bool

definition drawer_mounted :: drawer where
  "drawer_mounted = \<lparr>dr_open = False, dr_ackChecked = False, dr_typedConfirm = [], dr_submitting = False\<rparr>"

definition requiredPhrase :: "bool \<Rightarrow> string" where
  "requiredPhrase paused = (if paused then ''RESUME'' else ''FREEZE'')"

definition isDoubleVerified :: "props \<Rightarrow> drawer \<Rightarrow> bool" where
  "isDoubleVerified p d \<longleftrightarrow> dr_ackChecked d \<and> toUpperCase (trim (dr_typedConfirm d)) = requiredPhrase (pp_paused p)"

definition handleOpenDrawer :: "props \<Rightarrow> drawer \<Rightarrow> drawer" where
  "handleOpenDrawer p d = (if \<not> pp_isSuperAdmin p \<or> pp_disabled p then d
     else d\<lparr>dr_ackChecked := False, dr_typedConfirm := [], dr_open := True\<rparr>)"

definition handleCloseDrawer :: "drawer \<Rightarrow> drawer" where
  "handleCloseDrawer d = d\<lparr>dr_open := False, dr_ackChecked := False, dr_typedConfirm := []\<rparr>"

text \<open>The calls of \<open>onTogglePause\<close> under way, each with its argument.\<close>

type_synonym pause_sys = "props \<times> drawer \<times> bool list"

definition handleExecute :: "pause_sys \<Rightarrow> pause_sys" where
  "handleExecute = (\<lambda>(p, d, calls). if \<not> isDoubleVerified p d \<or> dr_submitting d then (p, d, calls)
     else (p, d\<lparr>dr_submitting := True\<rparr>, calls @ [\<not> pp_paused p]))"

definition toggled :: "unit res \<Rightarrow> drawer \<Rightarrow> drawer" where
  "toggled r d = (case r of Ret _ \<Rightarrow> handleCloseDrawer d | Throw _ \<Rightarrow> d)\<lparr>dr_submitting := False\<rparr>"

datatype pause_event =
    Open_pressed | Close_pressed | Key string | Ack bool | Type string | Execute
  | Toggled bool "unit res" | New_props props

text \<open>The button is disabled for others than superadmins; the rest of the controls are in the drawer.\<close>

fun pause_step :: "pause_event \<Rightarrow> pause_sys \<Rightarrow> pause_sys option" where
  "pause_step Open_pressed (p, d, calls) = Some (p, handleOpenDrawer p d, calls)"
| "pause_step Close_pressed (p, d, calls) = (if dr_open d then Some (p, handleCloseDrawer d, calls) else None)"
| "pause_step (Key k) (p, d, calls) = Some (p, if dr_open d \<and> k = ''Escape'' then handleCloseDrawer d else d, calls)"
| "pause_step (Ack b) (p, d, calls) = (if dr_open d then Some (p, d\<lparr>dr_ackChecked := b\<rparr>, calls) else None)"
| "pause_step (Type t) (p, d, calls) = (if dr_open d then Some (p, d\<lparr>dr_typedConfirm := t\<rparr>, calls) else None)"
| "pause_step Execute (p, d, calls) = (if dr_open d then Some (handleExecute (p, d, calls)) else None)"
| "pause_step (Toggled b r) (p, d, calls) = (if b \<in> set calls then Some (p, toggled r d, remove1 b calls) else None)"
| "pause_step (New_props q) (p, d, calls) = Some (q, d, calls)"

fun pause_run :: "pause_event list \<Rightarrow> pause_sys \<Rightarrow> pause_sys option" where
  "pause_run [] y = Some y"
| "pause_run (e # es) y = Option.bind (pause_step e y) (pause_run es)"

section \<open>Double validation\<close>

definition pause_inv :: "pause_sys \<Rightarrow> bool" where
  "pause_inv = (\<lambda>(p, d, calls). length calls = (if dr_submitting d then 1 else 0))"

lemmas pause_defs = handleOpenDrawer_def handleCloseDrawer_def handleExecute_def toggled_def

lemma pause_inv_step: "pause_step e y = Some y' \<Longrightarrow> pause_inv y \<Longrightarrow> pause_inv y'"
  by (cases y; cases e) (auto simp: pause_inv_def pause_defs length_remove1 split: if_splits res.splits)

lemma pause_run_append: "pause_run (es @ fs) y = Option.bind (pause_run es y) (pause_run fs)"
  by (induction es arbitrary: y) (auto simp: Option.bind_eq_None_conv split: Option.bind_splits)

text \<open>
  What the events since the drawer was last cleared leave in it: a tick or a phrase can only come from
  the user.
\<close>

lemma evidence:
  assumes "pause_run es (p, d, calls) = Some (p', d', calls')"
  shows "(dr_ackChecked d' \<longrightarrow> dr_ackChecked d \<or> Ack True \<in> set es)
    \<and> (dr_typedConfirm d' = [] \<or> dr_typedConfirm d' = dr_typedConfirm d \<or> Type (dr_typedConfirm d') \<in> set es)"
  using assms
proof (induction es arbitrary: p d calls)
  case (Cons e es)
  then obtain p1 d1 c1 where s: "pause_step e (p, d, calls) = Some (p1, d1, c1)" "pause_run es (p1, d1, c1) = Some (p', d', calls')"
    by (auto simp: Option.bind_eq_Some_conv)
  have "(dr_ackChecked d1 \<longrightarrow> dr_ackChecked d \<or> e = Ack True)
    \<and> (dr_typedConfirm d1 = [] \<or> dr_typedConfirm d1 = dr_typedConfirm d \<or> e = Type (dr_typedConfirm d1))"
    using s(1) by (cases e) (auto simp: pause_defs split: if_splits res.splits)
  with Cons.IH[OF s(2)] show ?case by auto
qed simp

text \<open>
  Freezing or resuming takes both confirmations, given anew each time: if an execution in a drawer that
  was opened afresh makes a call, the tick was set and the phrase for exactly this change was typed
  since, no other call is under way, and the call asks for the opposite of the present state.
\<close>

theorem double_validation:
  assumes "pause_inv (p, d, calls)" "\<not> dr_ackChecked d" "dr_typedConfirm d = []"
    and "pause_run (es @ [Execute]) (p, d, calls) = Some (p', d', calls')" "pause_run es (p, d, calls) = Some (p0, d0, calls0)"
    and "calls' \<noteq> calls0"
  shows "\<exists>t. Ack True \<in> set es \<and> Type t \<in> set es \<and> toUpperCase (trim t) = requiredPhrase (pp_paused p')
    \<and> calls' = [\<not> pp_paused p'] \<and> dr_open d'"
proof -
  have ex: "pause_step Execute (p0, d0, calls0) = Some (p', d', calls')"
    using assms(4,5) by (auto simp: pause_run_append split: Option.bind_splits if_splits)
  then have v: "isDoubleVerified p0 d0" "\<not> dr_submitting d0" "dr_open d'" "p' = p0" "calls' = calls0 @ [\<not> pp_paused p0]"
    using assms(6) by (auto simp: handleExecute_def split: if_splits)
  have "pause_inv (p0, d0, calls0)"
    using assms(1,5) by (induction es arbitrary: p d calls) (auto simp: Option.bind_eq_Some_conv dest: pause_inv_step)
  then have c: "calls0 = []" using v(2) by (simp add: pause_inv_def)
  have ph: "toUpperCase (trim (dr_typedConfirm d0)) = requiredPhrase (pp_paused p0)" "dr_ackChecked d0"
    using v(1) by (auto simp: isDoubleVerified_def)
  have "toUpperCase (trim []) \<noteq> requiredPhrase (pp_paused p0)" by (simp add: requiredPhrase_def toUpperCase_def)
  with ph(1) have "dr_typedConfirm d0 \<noteq> []" by metis
  with evidence[OF assms(5)] assms(2,3) ph(2) have "Ack True \<in> set es" "Type (dr_typedConfirm d0) \<in> set es" by auto
  with ph(1) v c show ?thesis by auto
qed

definition admin_props :: props where
  "admin_props = \<lparr>pp_paused = False, pp_isSuperAdmin = True, pp_disabled = False\<rparr>"

lemma freeze_phrase: "toUpperCase (trim '' freeze'') = requiredPhrase False"
  by code_simp

lemmas pause_eval = admin_props_def drawer_mounted_def pause_defs isDoubleVerified_def freeze_phrase

theorem double_validation_witness:
  "\<exists>d'. pause_run ([Open_pressed, Type '' freeze'', Ack True] @ [Execute]) (admin_props, drawer_mounted, []) = Some (admin_props, d', [True])
     \<and> dr_open d'"
proof -
  let ?es = "[Open_pressed, Type '' freeze'', Ack True]"
  obtain d0 where d0: "pause_run ?es (admin_props, drawer_mounted, []) = Some (admin_props, d0, [])"
    by (simp add: pause_eval)
  obtain d' where d': "pause_run (?es @ [Execute]) (admin_props, drawer_mounted, []) = Some (admin_props, d', [True])"
    by (simp add: pause_eval)
  have i: "pause_inv (admin_props, drawer_mounted, [])" "\<not> dr_ackChecked drawer_mounted" "dr_typedConfirm drawer_mounted = []"
    by (simp_all add: pause_inv_def drawer_mounted_def)
  from double_validation[OF i d' d0] d' show ?thesis by auto
qed

text \<open>Only opening the drawer looks at the role: a user who loses it while the drawer is open can still freeze the vault.\<close>

theorem demoted_admin_freezes:
  "\<exists>d'. pause_run [Open_pressed, Type '' freeze'', Ack True, New_props (admin_props\<lparr>pp_isSuperAdmin := False\<rparr>), Execute]
     (admin_props, drawer_mounted, []) = Some (admin_props\<lparr>pp_isSuperAdmin := False\<rparr>, d', [True])"
  by (simp add: pause_eval)

end
