(* ===== verification/Csv_Export.thy ===== *)
theory Csv_Export
  imports Js_Format Dashboard_Api
begin

text \<open>
  The exports of the dashboard: \<open>toCSV\<close> of \<open>dashboard/lib/utils.ts\<close>, \<open>exportAuditRows\<close> of
  \<open>dashboard/app/dashboard/transactions/page.tsx\<close>, and the export of users with its masks in
  \<open>dashboard/app/dashboard/page.tsx\<close>.  What a file means is given by a reader for the CSV format
  (RFC 4180 with line feeds), which is a specification and not part of the program.  The download
  itself is the browser's; the content of the file is what is modelled.
\<close>

section \<open>Writing\<close>

text \<open>\<open>`"${v.replace(/"/g, '""')}"`\<close>.\<close>

definition csv_cell :: "string \<Rightarrow> string" where
  "csv_cell v = CHR 0x22 # concat (map (\<lambda>c. if c = CHR 0x22 then [c, c] else [c]) v) @ [CHR 0x22]"

definition NL :: string where "NL = [CHR 0x0A]"

record DashTransaction =
  dt_id :: string
  dt_from_address :: string
  dt_send_asset :: string
  dt_send_amount :: js_num
  dt_receive_amount :: "js_num option"
  dt_status :: string
  dt_memo :: "string option"
  dt_created_at :: string

definition csv_headers :: "string list" where
  "csv_headers = [''id'', ''created_at'', ''from_address'', ''send_asset'', ''send_amount'', ''receive_amount'', ''status'', ''memo'']"

definition csv_fields :: "DashTransaction \<Rightarrow> string list" where
  "csv_fields r = [dt_id r, dt_created_at r, dt_from_address r, dt_send_asset r, show_num (dt_send_amount r),
     (case dt_receive_amount r of None \<Rightarrow> [] | Some a \<Rightarrow> show_num a), dt_status r, or_default (dt_memo r) []]"

definition csv_file :: "string list \<Rightarrow> string list list \<Rightarrow> string" where
  "csv_file hs rows = join NL (join '','' hs # map (\<lambda>r. join '','' (map csv_cell r)) rows)"

definition toCSV :: "DashTransaction list \<Rightarrow> string" where
  "toCSV rows = csv_file csv_headers (map csv_fields rows)"

text \<open>Rows of the social feed: their keys in order; \<open>String(v)\<close> of a value.\<close>

fun jv_str :: "jv \<Rightarrow> string" where
  "jv_str (JS s) = s"
| "jv_str (JN n) = show_num n"
| "jv_str (JB b) = (if b then ''true'' else ''false'')"

type_synonym feed_row = "(string \<times> jv option) list"

definition feed_cell :: "feed_row \<Rightarrow> string \<Rightarrow> string" where
  "feed_cell row key = (case map_of row key of Some (Some v) \<Rightarrow> jv_str v | _ \<Rightarrow> [])"

datatype export_rows = Tx_rows "DashTransaction list" | Feed_rows "feed_row list"

text \<open>The content of the exported CSV file; nothing is exported without rows.\<close>

fun export_csv :: "export_rows \<Rightarrow> string option" where
  "export_csv (Tx_rows []) = None"
| "export_csv (Feed_rows []) = None"
| "export_csv (Tx_rows rows) = Some (toCSV rows)"
| "export_csv (Feed_rows (first # rest)) =
     (let hs = map fst first in Some (csv_file hs (map (\<lambda>row. map (feed_cell row) hs) (first # rest))))"

section \<open>The export of users\<close>

record IdentityLink =
  il_user_id :: string
  il_privy_did :: string
  il_stellar_address :: string
  il_display_name :: "string option"
  il_email :: "string option"
  il_linked_at :: string
  il_status :: string

definition maskEmail :: "string \<Rightarrow> string" where
  "maskEmail email = (case split (CHR ''@'') email of
       loc # domain # _ \<Rightarrow> if domain = [] then ''***''
         else (if 1 < length loc then take 1 loc @ ''***'' else ''*'') @ ''@'' @ domain
     | _ \<Rightarrow> ''***'')"

definition maskPhone :: "string \<Rightarrow> string" where
  "maskPhone phone = (if length phone \<le> 4 then ''***'' else take 3 phone @ ''***'' @ drop (length phone - 2) phone)"

definition user_headers :: "string list" where
  "user_headers = [''User ID'', ''Privy DID'', ''Stellar Address'', ''Display Name'', ''Email'', ''Phone'', ''Status'', ''Linked At'']"

definition user_fields :: "IdentityLink \<Rightarrow> string list" where
  "user_fields l = [il_user_id l, il_privy_did l, il_stellar_address l, or_default (il_display_name l) [],
     (if truthy (il_email l) then maskEmail (the (il_email l)) else []),
     (if truthy (il_display_name l) then maskPhone (the (il_display_name l)) else []), il_status l, il_linked_at l]"

text \<open>\<open>`"${v}"`\<close>: here quotes inside a value are not doubled.\<close>

definition handleExportUsers :: "IdentityLink list \<Rightarrow> string" where
  "handleExportUsers links = join NL (join '','' user_headers
     # map (\<lambda>l. join '','' (map (\<lambda>v. CHR 0x22 # v @ [CHR 0x22]) (user_fields l))) links)"

section \<open>Reading\<close>

datatype csv_mode = Fresh | Plain | Quoted | Quote_seen

fun csv_read_from :: "csv_mode \<Rightarrow> string \<Rightarrow> string list \<Rightarrow> string \<Rightarrow> string list list" where
  "csv_read_from m cur row [] = [row @ [cur]]"
| "csv_read_from m cur row (c # cs) =
     (if m = Quoted then (if c = CHR 0x22 then csv_read_from Quote_seen cur row cs else csv_read_from Quoted (cur @ [c]) row cs)
      else if c = CHR '','' then csv_read_from Fresh [] (row @ [cur]) cs
      else if c = CHR 0x0A then (row @ [cur]) # csv_read_from Fresh [] [] cs
      else if c = CHR 0x22 \<and> m = Fresh then csv_read_from Quoted cur row cs
      else if c = CHR 0x22 \<and> m = Quote_seen then csv_read_from Quoted (cur @ [c]) row cs
      else csv_read_from Plain (cur @ [c]) row cs)"

definition csv_read :: "string \<Rightarrow> string list list" where
  "csv_read s = csv_read_from Fresh [] [] s"

definition plain_text :: "string \<Rightarrow> bool" where
  "plain_text s \<longleftrightarrow> list_all (\<lambda>c. c \<notin> {CHR 0x22, CHR '','', CHR 0x0A}) s"

lemma read_plain:
  "plain_text s \<Longrightarrow> m = Fresh \<or> m = Plain \<Longrightarrow>
   csv_read_from m cur row (s @ rest) = csv_read_from (if s = [] then m else Plain) (cur @ s) row rest"
  by (induction s arbitrary: m cur) (auto simp: plain_text_def)

lemma read_escaped:
  "csv_read_from Quoted cur row (concat (map (\<lambda>c. if c = CHR 0x22 then [c, c] else [c]) v) @ CHR 0x22 # rest)
   = csv_read_from Quote_seen (cur @ v) row rest"
  by (induction v arbitrary: cur) auto

lemma read_cell: "csv_read_from Fresh [] row (csv_cell v @ rest) = csv_read_from Quote_seen v row rest"
  using read_escaped[of "[]" row v rest] by (simp add: csv_cell_def)

text \<open>A line of cells, each of which the reader takes to the end of the cell.\<close>

lemma read_line:
  assumes "xs \<noteq> []"
    and "\<And>x row rest. x \<in> set xs \<Longrightarrow> \<exists>m. m \<noteq> Quoted \<and> csv_read_from Fresh [] row (enc x @ rest) = csv_read_from m x row rest"
  shows "csv_read_from Fresh [] row (join '','' (map enc xs)) = [row @ xs]"
    and "csv_read_from Fresh [] row (join '','' (map enc xs) @ CHR 0x0A # rest) = (row @ xs) # csv_read_from Fresh [] [] rest"
proof -
  have one: "csv_read_from Fresh [] row (enc x) = [row @ [x]]"
    "csv_read_from Fresh [] row (enc x @ CHR 0x0A # rest) = (row @ [x]) # csv_read_from Fresh [] [] rest"
    "csv_read_from Fresh [] row (enc x @ CHR '','' # rest) = csv_read_from Fresh [] (row @ [x]) rest"
    if "x \<in> set xs" for x row rest
    using assms(2)[OF that, of row "[]"] assms(2)[OF that, of row "CHR 0x0A # rest"] assms(2)[OF that, of row "CHR '','' # rest"] by auto
  have "csv_read_from Fresh [] row (join '','' (map enc ys)) = [row @ ys]
      \<and> csv_read_from Fresh [] row (join '','' (map enc ys) @ CHR 0x0A # rest) = (row @ ys) # csv_read_from Fresh [] [] rest"
    if "ys \<noteq> []" "set ys \<subseteq> set xs" for ys
    using that
  proof (induction ys arbitrary: row)
    case (Cons y ys)
    show ?case
    proof (cases ys)
      case Nil
      then show ?thesis using one Cons.prems by simp
    next
      case (Cons z zs)
      then have "join '','' (map enc (y # ys)) = enc y @ CHR '','' # join '','' (map enc ys)" by simp
      with one(3)[of y] Cons.IH[of "row @ [y]"] Cons Cons.prems show ?thesis by simp
    qed
  qed simp
  from this[OF assms(1)] show "csv_read_from Fresh [] row (join '','' (map enc xs)) = [row @ xs]"
    "csv_read_from Fresh [] row (join '','' (map enc xs) @ CHR 0x0A # rest) = (row @ xs) # csv_read_from Fresh [] [] rest"
    by simp_all
qed

lemma join_NL: "join NL (x # y # xs) = x @ CHR 0x0A # join NL (y # xs)"
  by (simp add: NL_def)

lemma read_quoted_line:
  assumes "xs \<noteq> []"
  shows "csv_read_from Fresh [] [] (join '','' (map csv_cell xs)) = [xs]"
    and "csv_read_from Fresh [] [] (join '','' (map csv_cell xs) @ CHR 0x0A # rest) = xs # csv_read_from Fresh [] [] rest"
  using read_line(1)[OF assms, where enc = csv_cell and row = "[]"]
    read_line(2)[OF assms, where enc = csv_cell and row = "[]" and rest = rest] read_cell by auto

lemma read_rows:
  "rows \<noteq> [] \<Longrightarrow> \<forall>r \<in> set rows. r \<noteq> [] \<Longrightarrow>
   csv_read_from Fresh [] [] (join NL (map (\<lambda>r. join '','' (map csv_cell r)) rows)) = rows"
proof (induction rows)
  case (Cons r rows)
  then have r: "r \<noteq> []" by simp
  show ?case
  proof (cases rows)
    case Nil
    with read_quoted_line(1)[OF r] show ?thesis by simp
  next
    case (Cons q qs)
    have "join NL (map (\<lambda>r. join '','' (map csv_cell r)) (r # rows))
      = join '','' (map csv_cell r) @ CHR 0x0A # join NL (map (\<lambda>r. join '','' (map csv_cell r)) rows)"
      unfolding Cons list.map join_NL ..
    then have "csv_read_from Fresh [] [] (join NL (map (\<lambda>r. join '','' (map csv_cell r)) (r # rows)))
      = r # csv_read_from Fresh [] [] (join NL (map (\<lambda>r. join '','' (map csv_cell r)) rows))"
      by (simp only: read_quoted_line(2)[OF r])
    with Cons.IH Cons.prems Cons show ?thesis by (simp del: join.simps)
  qed
qed simp

lemma csv_file_read:
  assumes "hs \<noteq> []" "\<forall>h \<in> set hs. plain_text h" "\<forall>r \<in> set rows. r \<noteq> []"
  shows "csv_read (csv_file hs rows) = hs # rows"
proof -
  have pl: "\<exists>m. m \<noteq> Quoted \<and> csv_read_from Fresh [] row (x @ rest) = csv_read_from m x row rest" if "x \<in> set hs" for x row rest
    using read_plain[of x Fresh "[]" row rest] assms(2) that by (intro exI[of _ "if x = [] then Fresh else Plain"]) simp
  have h: "csv_read_from Fresh [] [] (join '','' hs) = [hs]"
    "csv_read_from Fresh [] [] (join '','' hs @ CHR 0x0A # rest) = hs # csv_read_from Fresh [] [] rest" for rest
    using read_line(1)[OF assms(1), where enc = "\<lambda>x. x" and row = "[]"]
      read_line(2)[OF assms(1), where enc = "\<lambda>x. x" and row = "[]" and rest = rest] pl by simp_all
  show ?thesis
  proof (cases rows)
    case Nil
    then show ?thesis using h(1) by (simp add: csv_read_def csv_file_def)
  next
    case (Cons r rs)
    have "csv_file hs rows = join '','' hs @ CHR 0x0A # join NL (map (\<lambda>r. join '','' (map csv_cell r)) rows)"
      unfolding csv_file_def Cons list.map join_NL ..
    then show ?thesis using h(2) read_rows[OF _ assms(3)] Cons by (simp add: csv_read_def)
  qed
qed

text \<open>
  C15: The export of transactions loses nothing: whatever characters the values contain, quotes, commas and
  line feeds included, reading the file gives the header and the fields of every row.
\<close>

theorem toCSV_roundtrip: "csv_read (toCSV rows) = csv_headers # map csv_fields rows"
  unfolding toCSV_def
proof (rule csv_file_read)
  show "\<forall>h \<in> set csv_headers. plain_text h" by code_simp
  show "\<forall>r \<in> set (map csv_fields rows). r \<noteq> []" by (simp add: csv_fields_def)
qed (simp add: csv_headers_def)

text \<open>The same holds for the rows of the feed, under the keys of the first row.\<close>

lemma feed_roundtrip:
  assumes "export_csv (Feed_rows (first # rest)) = Some content" "first \<noteq> []" "\<forall>k \<in> fst ` set first. plain_text k"
  shows "csv_read content = map fst first # map (\<lambda>row. map (feed_cell row) (map fst first)) (first # rest)"
proof -
  have "content = csv_file (map fst first) (map (\<lambda>row. map (feed_cell row) (map fst first)) (first # rest))"
    using assms(1) by (simp add: Let_def)
  then show ?thesis using assms(2,3) csv_file_read[of "map fst first"] by simp
qed

text \<open>
  The export of users is faithful only to values without a quote: they are enclosed in quotes but not
  escaped.
\<close>

theorem users_export_roundtrip:
  assumes "\<forall>l \<in> set links. \<forall>v \<in> set (user_fields l). CHR 0x22 \<notin> set v"
  shows "csv_read (handleExportUsers links) = user_headers # map user_fields links"
proof -
  have "csv_cell v = CHR 0x22 # v @ [CHR 0x22]" if "CHR 0x22 \<notin> set v" for v
  proof -
    have "concat (map (\<lambda>c. if c = CHR 0x22 then [c, c] else [c]) v) = v" using that by (induction v) auto
    then show ?thesis by (simp add: csv_cell_def)
  qed
  then have "handleExportUsers links = csv_file user_headers (map user_fields links)"
    using assms by (auto simp: handleExportUsers_def csv_file_def comp_def intro!: arg_cong[where f = "join NL"] arg_cong[where f = "join '',''"])
  moreover have "\<forall>h \<in> set user_headers. plain_text h" by code_simp
  ultimately show ?thesis by (simp add: csv_file_read user_headers_def user_fields_def)
qed

definition sample_link :: "string \<Rightarrow> IdentityLink" where
  "sample_link name = \<lparr>il_user_id = ''u1'', il_privy_did = ''did:privy:1'', il_stellar_address = ''GABC'', il_display_name = Some name,
     il_email = Some ''eve@zaps.io'', il_linked_at = ''2026-01-01'', il_status = ''active''\<rparr>"

theorem users_export_roundtrip_witness:
  "csv_read (handleExportUsers [sample_link ''Eve, Ltd'']) = [user_headers, user_fields (sample_link ''Eve, Ltd'')]"
proof -
  have "\<forall>l \<in> set [sample_link ''Eve, Ltd'']. \<forall>v \<in> set (user_fields l). CHR 0x22 \<notin> set v" by code_simp
  from users_export_roundtrip[OF this] show ?thesis by simp
qed

text \<open>
  A display name with quotes moves the columns: the reader finds nine fields, the second half of the
  name where the e-mail belongs.
\<close>

theorem users_export_injection:
  "\<exists>row. csv_read (handleExportUsers [sample_link (''Eve'' @ [CHR 0x22, CHR '','', CHR 0x22] @ ''root@zaps.io'')]) = [user_headers, row]
     \<and> length row = 9 \<and> row ! 4 = ''root@zaps.io''"
proof -
  let ?row = "[''u1'', ''did:privy:1'', ''GABC'', ''Eve'', ''root@zaps.io'', ''e***@zaps.io'', ''Eve***io'', ''active'', ''2026-01-01'']"
  have "handleExportUsers [sample_link (''Eve'' @ [CHR 0x22, CHR '','', CHR 0x22] @ ''root@zaps.io'')] = csv_file user_headers [?row]"
    by code_simp
  moreover have "csv_read (csv_file user_headers [?row]) = [user_headers, ?row]"
  proof (rule csv_file_read)
    show "\<forall>h \<in> set user_headers. plain_text h" by code_simp
  qed (simp_all add: user_headers_def)
  ultimately show ?thesis by (intro exI[of _ ?row]) simp
qed

section \<open>Masks\<close>

text \<open>
  A masked address tells only the first letter and the domain: two addresses that agree on these, with
  local parts of more than one letter, have the same mask.
\<close>

theorem masked_email_hides:
  assumes "1 < length a" "1 < length b" "hd a = hd b" "CHR ''@'' \<notin> set a" "CHR ''@'' \<notin> set b"
  shows "maskEmail (a @ ''@'' @ d) = maskEmail (b @ ''@'' @ d)"
proof -
  have "take 1 a = take 1 b" using assms(1-3) by (cases a; cases b) auto
  moreover have "split (CHR ''@'') (a @ CHR ''@'' # d) = a # split (CHR ''@'') d" "split (CHR ''@'') (b @ CHR ''@'' # d) = b # split (CHR ''@'') d"
    using assms(4,5) by (auto intro: split_append_sep)
  ultimately show ?thesis using assms(1,2) by (simp add: maskEmail_def split: list.splits)
qed

theorem masked_email_hides_witness: "maskEmail ''alice@zaps.io'' = maskEmail ''andrew@zaps.io''"
  using masked_email_hides[of "''alice''" "''andrew''" "''zaps.io''"] by simp

text \<open>
  The mask of the phone column is applied to the display name, which stands unmasked two columns before
  it; and a text of five characters can be read off its mask.
\<close>

theorem phone_mask_reveals:
  "length s = 5 \<Longrightarrow> take 3 (maskPhone s) @ drop 6 (maskPhone s) = s"
  by (simp add: maskPhone_def)

theorem phone_mask_reveals_witness: "take 3 (maskPhone ''12345'') @ drop 6 (maskPhone ''12345'') = ''12345''"
  using phone_mask_reveals[of "''12345''"] by simp

end
