(* ===== verification/Polling.thy ===== *)
theory Polling
  imports Zaps_Prelude Js_String
begin

text \<open>
  The shared hooks of the dashboard: polling (\<open>dashboard/lib/use-polling.ts\<close>), the list of
  notifications (\<open>dashboard/lib/notifications-context.tsx\<close>) and the username search with its debounce
  (\<open>dashboard/components/SearchBar.tsx\<close> and the widget of \<open>dashboard/app/dashboard/page.tsx\<close>).  Timers
  and answers are events; a request under way is known by a number.
\<close>

section \<open>usePolling\<close>

record 'a poll =
  po_data :: "'a option"
  po_loading :: bool
  po_error :: "string option"

text \<open>
  Beside the hook: the fetcher in force (by its dependencies \<open>'d\<close>), the runs under way, each with the
  dependencies it was started under, and a counter that names them.
\<close>

record ('d, 'a) polling =
  pl_hook :: "'a poll"
  pl_deps :: 'd
  pl_runs :: "(nat \<times> 'd) list"
  pl_next :: nat

datatype ('d, 'a) poll_event = Tick | Refresh | New_deps 'd | Fetched nat "'a res"

definition poll_begin :: "('d, 'a) polling \<Rightarrow> ('d, 'a) polling" where
  "poll_begin s = s\<lparr>pl_runs := pl_runs s @ [(pl_next s, pl_deps s)], pl_next := pl_next s + 1\<rparr>"

definition poll_settle :: "'a res \<Rightarrow> 'a poll \<Rightarrow> 'a poll" where
  "poll_settle r h = (case r of Ret x \<Rightarrow> h\<lparr>po_data := Some x, po_error := None\<rparr>
     | Throw e \<Rightarrow> h\<lparr>po_error := Some (message_or ''Error'' e)\<rparr>)\<lparr>po_loading := False\<rparr>"

definition polling_mounted :: "'d \<Rightarrow> ('d, 'a) polling" where
  "polling_mounted d = poll_begin \<lparr>pl_hook = \<lparr>po_data = None, po_loading = True, po_error = None\<rparr>, pl_deps = d, pl_runs = [], pl_next = 0\<rparr>"

text \<open>Changed dependencies run the effect again; equal ones do not.\<close>

fun poll_step :: "('d, 'a) poll_event \<Rightarrow> ('d, 'a) polling \<Rightarrow> ('d, 'a) polling option" where
  "poll_step Tick s = Some (poll_begin s)"
| "poll_step Refresh s = Some (poll_begin s)"
| "poll_step (New_deps d) s = Some (if d = pl_deps s then s else poll_begin (s\<lparr>pl_deps := d\<rparr>))"
| "poll_step (Fetched n r) s = (case map_of (pl_runs s) n of None \<Rightarrow> None
     | Some d \<Rightarrow> Some (s\<lparr>pl_hook := poll_settle r (pl_hook s), pl_runs := filter (\<lambda>x. fst x \<noteq> n) (pl_runs s)\<rparr>))"

fun poll_run :: "('d, 'a) poll_event list \<Rightarrow> ('d, 'a) polling \<Rightarrow> ('d, 'a) polling option" where
  "poll_run [] s = Some s"
| "poll_run (e # es) s = Option.bind (poll_step e s) (poll_run es)"

text \<open>The last answer of a list of events, and the last that was a value.\<close>

fun answer_of :: "('d, 'a) poll_event \<Rightarrow> 'a res option" where
  "answer_of (Fetched n r) = Some r"
| "answer_of _ = None"

definition answers :: "('d, 'a) poll_event list \<Rightarrow> 'a res list" where
  "answers es = List.map_filter answer_of es"

definition values_of :: "'a res list \<Rightarrow> 'a list" where
  "values_of rs = List.map_filter (\<lambda>r. case r of Ret x \<Rightarrow> Some x | Throw _ \<Rightarrow> None) rs"

definition settled_hook :: "'a poll \<Rightarrow> 'a res list \<Rightarrow> 'a poll" where
  "settled_hook h rs = fold poll_settle rs h"

lemma poll_begin_hook [simp]: "pl_hook (poll_begin s) = pl_hook s"
  by (simp add: poll_begin_def)

lemma poll_run_hook:
  "poll_run es s = Some s' \<Longrightarrow> pl_hook s' = settled_hook (pl_hook s) (answers es)"
proof (induction es arbitrary: s)
  case (Cons e es)
  then obtain s1 where s1: "poll_step e s = Some s1" "poll_run es s1 = Some s'" by (auto simp: Option.bind_eq_Some_conv)
  have "pl_hook s1 = (case answer_of e of None \<Rightarrow> pl_hook s | Some r \<Rightarrow> poll_settle r (pl_hook s))"
    using s1(1) by (cases e) (auto split: option.splits if_splits)
  with Cons.IH[OF s1(2)] show ?case by (cases e) (simp_all add: answers_def settled_hook_def List.map_filter_def)
qed (simp add: settled_hook_def answers_def List.map_filter_def)

lemma settled_hook_props:
  "po_data (settled_hook h rs) = (if values_of rs = [] then po_data h else Some (last (values_of rs)))
   \<and> (rs \<noteq> [] \<longrightarrow> \<not> po_loading (settled_hook h rs)
        \<and> po_error (settled_hook h rs) = (case last rs of Ret _ \<Rightarrow> None | Throw e \<Rightarrow> Some (message_or ''Error'' e)))"
proof (induction rs arbitrary: h rule: rev_induct)
  case Nil
  then show ?case by (simp add: settled_hook_def values_of_def List.map_filter_def)
next
  case (snoc r rs)
  then show ?case
    by (cases r) (simp_all add: settled_hook_def values_of_def List.map_filter_def poll_settle_def)
qed

text \<open>
  C20: What a polling hook shows: the last value that arrived, kept through failures, and the message of the
  last answer when that was a failure; it is loading exactly until the first answer.
\<close>

theorem polling_shows_last_answer:
  assumes "poll_run es (polling_mounted d) = Some s"
  shows "po_data (pl_hook s) = (if values_of (answers es) = [] then None else Some (last (values_of (answers es))))
    \<and> (po_loading (pl_hook s) \<longleftrightarrow> answers es = [])
    \<and> po_error (pl_hook s) = (if answers es = [] then None
        else case last (answers es) of Ret _ \<Rightarrow> None | Throw e \<Rightarrow> Some (message_or ''Error'' e))"
proof -
  have h: "pl_hook s = settled_hook \<lparr>po_data = None, po_loading = True, po_error = None\<rparr> (answers es)"
    using poll_run_hook[OF assms] by (simp add: polling_mounted_def)
  show ?thesis
  proof (cases "answers es = []")
    case True
    then show ?thesis unfolding h by (simp add: settled_hook_def values_of_def List.map_filter_def)
  next
    case False
    then show ?thesis unfolding h using settled_hook_props[of _ "answers es"] by simp
  qed
qed

theorem polling_shows_last_answer_witness:
  "\<exists>s. poll_run [Fetched 0 (Ret (1::int)), Tick, Fetched 1 (Throw NonError)] (polling_mounted ()) = Some s
     \<and> po_data (pl_hook s) = Some 1 \<and> po_error (pl_hook s) = Some ''Error''"
proof -
  obtain s where s: "poll_run [Fetched 0 (Ret (1::int)), Tick, Fetched 1 (Throw NonError)] (polling_mounted ()) = Some s"
    by (simp add: polling_mounted_def poll_begin_def)
  from polling_shows_last_answer[OF s] s show ?thesis by (auto simp: answers_def values_of_def List.map_filter_def)
qed

text \<open>
  Answers are not tied to the dependencies: the late answer of a run for the old ones replaces the data
  of the new ones.  (The grid of identity links polls under its search text.)
\<close>

theorem old_dependencies_win:
  "\<exists>s. poll_run [New_deps d', Fetched 1 (Ret y), Fetched 0 (Ret x)] (polling_mounted d) = Some s
     \<and> pl_deps s = d' \<and> po_data (pl_hook s) = Some x \<and> pl_runs s = []" if "d \<noteq> d'"
  using that by (auto simp: polling_mounted_def poll_begin_def poll_settle_def)

section \<open>Notifications\<close>

datatype severity = Info | Warning | Critical

record ContractAlert =
  ca_id :: string
  ca_severity :: severity
  ca_title :: string
  ca_message :: string
  ca_timestamp :: string

record AppNotification =
  an_id :: string
  an_title :: string
  an_message :: string
  an_severity :: severity
  an_timestamp :: string
  an_read :: bool

definition alertToNotification :: "ContractAlert \<Rightarrow> AppNotification" where
  "alertToNotification a = \<lparr>an_id = ca_id a, an_title = ca_title a, an_message = ca_message a, an_severity = ca_severity a,
     an_timestamp = ca_timestamp a, an_read = False\<rparr>"

record note_list =
  nt_notifications :: "AppNotification list"
  nt_seenIds :: "string set"

definition no_notes :: note_list where
  "no_notes = \<lparr>nt_notifications = [], nt_seenIds = {}\<rparr>"

text \<open>A failed poll keeps the list.\<close>

definition fetched_alerts :: "ContractAlert list res \<Rightarrow> note_list \<Rightarrow> note_list" where
  "fetched_alerts r s = (case r of Throw _ \<Rightarrow> s
     | Ret alerts \<Rightarrow> (let incoming = map alertToNotification (filter (\<lambda>a. ca_id a \<notin> nt_seenIds s) alerts) in
         if incoming = [] then s
         else \<lparr>nt_notifications = incoming @ nt_notifications s, nt_seenIds = nt_seenIds s \<union> an_id ` set incoming\<rparr>))"

definition markAllRead :: "note_list \<Rightarrow> note_list" where
  "markAllRead s = s\<lparr>nt_notifications := map (\<lambda>n. n\<lparr>an_read := True\<rparr>) (nt_notifications s)\<rparr>"

definition markRead :: "string \<Rightarrow> note_list \<Rightarrow> note_list" where
  "markRead i s = s\<lparr>nt_notifications := map (\<lambda>n. if an_id n = i then n\<lparr>an_read := True\<rparr> else n) (nt_notifications s)\<rparr>"

definition unreadCount :: "note_list \<Rightarrow> nat" where
  "unreadCount s = length (filter (\<lambda>n. \<not> an_read n) (nt_notifications s))"

datatype note_event = Polled "ContractAlert list res" | Mark_all | Mark string

fun note_step :: "note_event \<Rightarrow> note_list \<Rightarrow> note_list" where
  "note_step (Polled r) s = fetched_alerts r s"
| "note_step Mark_all s = markAllRead s"
| "note_step (Mark i) s = markRead i s"

fun distinct_poll :: "note_event \<Rightarrow> bool" where
  "distinct_poll (Polled (Ret alerts)) = distinct (map ca_id alerts)"
| "distinct_poll _ = True"

definition read_ids :: "note_list \<Rightarrow> string set" where
  "read_ids s = an_id ` {n \<in> set (nt_notifications s). an_read n}"

definition notes_inv :: "note_list \<Rightarrow> bool" where
  "notes_inv s \<longleftrightarrow> nt_seenIds s = an_id ` set (nt_notifications s) \<and> distinct (map an_id (nt_notifications s))"

lemma incoming_ids: "map an_id (map alertToNotification xs) = map ca_id xs"
  by (simp add: alertToNotification_def comp_def)

lemma read_ids_map:
  assumes "\<And>n. an_id (f n) = an_id n" "\<And>n. an_read n \<Longrightarrow> an_read (f n)"
  shows "read_ids s \<subseteq> read_ids (s\<lparr>nt_notifications := map f (nt_notifications s)\<rparr>)"
proof
  fix i assume "i \<in> read_ids s"
  then obtain n where n: "i = an_id n" "n \<in> set (nt_notifications s)" "an_read n" by (auto simp: read_ids_def)
  then have "f n \<in> {m \<in> f ` set (nt_notifications s). an_read m}" using assms(2) by simp
  then have "an_id (f n) \<in> an_id ` {m \<in> f ` set (nt_notifications s). an_read m}" by (rule imageI)
  then show "i \<in> read_ids (s\<lparr>nt_notifications := map f (nt_notifications s)\<rparr>)"
    using assms(1) n(1) by (simp add: read_ids_def)
qed

lemma notes_step:
  assumes "notes_inv s" "distinct_poll e"
  shows "notes_inv (note_step e s) \<and> read_ids s \<subseteq> read_ids (note_step e s)
    \<and> an_id ` set (nt_notifications s) \<subseteq> an_id ` set (nt_notifications (note_step e s))"
proof (cases e)
  case (Polled r)
  show ?thesis
  proof (cases r)
    case (Ret alerts)
    define new where "new = filter (\<lambda>a. ca_id a \<notin> nt_seenIds s) alerts"
    have d: "distinct (map ca_id new)" "ca_id ` set new \<inter> nt_seenIds s = {}"
      using assms(2) unfolding Polled Ret new_def by (auto intro: distinct_map_filter)
    have ids: "an_id ` set (map alertToNotification new) = ca_id ` set new" by (simp add: image_image alertToNotification_def)
    show ?thesis
      using assms(1) d unfolding Polled Ret note_step.simps fetched_alerts_def res.case Let_def new_def[symmetric]
      by (auto simp: notes_inv_def read_ids_def ids incoming_ids alertToNotification_def comp_def image_Un)
  qed (use assms(1) Polled in \<open>simp add: fetched_alerts_def\<close>)
next
  case Mark_all
  have "read_ids s \<subseteq> read_ids (markAllRead s)" unfolding markAllRead_def by (rule read_ids_map) simp_all
  then show ?thesis using assms(1) Mark_all by (simp add: notes_inv_def markAllRead_def comp_def image_image)
next
  case (Mark i)
  have m: "map an_id (map (\<lambda>n. if an_id n = i then n\<lparr>an_read := True\<rparr> else n) xs) = map an_id xs" for xs
    by (induction xs) simp_all
  from arg_cong[OF m, of set] have i: "an_id ` set (map (\<lambda>n. if an_id n = i then n\<lparr>an_read := True\<rparr> else n) xs) = an_id ` set xs" for xs
    by (simp only: set_map)
  have r: "read_ids s \<subseteq> read_ids (markRead i s)" unfolding markRead_def by (rule read_ids_map) simp_all
  have n: "nt_notifications (markRead i s) = map (\<lambda>n. if an_id n = i then n\<lparr>an_read := True\<rparr> else n) (nt_notifications s)"
    "nt_seenIds (markRead i s) = nt_seenIds s" by (simp_all add: markRead_def)
  show ?thesis using assms(1) r unfolding Mark note_step.simps notes_inv_def n m i by simp
qed

text \<open>
  However polls and clicks interleave, every alert is listed once and none is forgotten, and what was
  read stays read, as long as a poll lists every alert once.
\<close>

theorem notifications_once:
  assumes "list_all distinct_poll es" "list_all distinct_poll fs"
  shows "distinct (map an_id (nt_notifications (fold note_step (es @ fs) no_notes)))
    \<and> read_ids (fold note_step es no_notes) \<subseteq> read_ids (fold note_step (es @ fs) no_notes)
    \<and> an_id ` set (nt_notifications (fold note_step es no_notes)) \<subseteq> an_id ` set (nt_notifications (fold note_step (es @ fs) no_notes))"
proof -
  have run: "notes_inv (fold note_step gs s) \<and> read_ids s \<subseteq> read_ids (fold note_step gs s)
      \<and> an_id ` set (nt_notifications s) \<subseteq> an_id ` set (nt_notifications (fold note_step gs s))"
    if "list_all distinct_poll gs" "notes_inv s" for gs s
    using that
  proof (induction gs arbitrary: s)
    case (Cons g gs)
    then have g: "notes_inv (note_step g s)" "read_ids s \<subseteq> read_ids (note_step g s)"
      "an_id ` set (nt_notifications s) \<subseteq> an_id ` set (nt_notifications (note_step g s))"
      using notes_step[of s g] by simp_all
    have "list_all distinct_poll gs" using Cons.prems(1) by simp
    from Cons.IH[OF this g(1)] g(2,3) show ?case by (simp only: fold_Cons comp_apply) (metis subset_trans)
  qed simp
  have "notes_inv no_notes" by (simp add: notes_inv_def no_notes_def)
  from run[OF assms(1) this] have "notes_inv (fold note_step es no_notes)" by blast
  from run[OF assms(2) this] show ?thesis by (simp add: notes_inv_def)
qed

definition sample_alert :: "string \<Rightarrow> ContractAlert" where
  "sample_alert i = \<lparr>ca_id = i, ca_severity = Warning, ca_title = ''Lag'', ca_message = ''m'', ca_timestamp = ''t''\<rparr>"

theorem notifications_once_witness:
  "distinct (map an_id (nt_notifications (fold note_step
     ([Polled (Ret [sample_alert ''a'']), Mark ''a''] @ [Polled (Ret [sample_alert ''b'', sample_alert ''a''])]) no_notes)))"
  using notifications_once[of "[Polled (Ret [sample_alert ''a'']), Mark ''a'']" "[Polled (Ret [sample_alert ''b'', sample_alert ''a''])]"]
  by (simp add: sample_alert_def)

end
