(* ===== verification/Transactions_Page.thy ===== *)
theory Transactions_Page
  imports Csv_Export Js_Uri
begin

text \<open>
  The transactions page of the dashboard (\<open>dashboard/app/dashboard/transactions/page.tsx\<close>) and the parts
  of \<open>dashboard/components/SearchBar.tsx\<close> it is made of: the filter of rows, the pagination footer, and
  the search for a username with its debounce, which the overview (\<open>dashboard/app/dashboard/page.tsx\<close>)
  has a copy of.
\<close>

section \<open>Filtering and paging\<close>

record filterable =
  fi_from_address :: "string option"
  fi_memo :: "string option"
  fi_status :: "string option"
  fi_sender_username :: "string option"
  fi_receiver_username :: "string option"
  fi_tx_hash :: "string option"

definition row_matches :: "string \<Rightarrow> filterable \<Rightarrow> bool" where
  "row_matches term r \<longleftrightarrow> list_ex (\<lambda>v. includes_str (toLowerCase (or_default v [])) term)
     [fi_from_address r, fi_memo r, fi_status r, fi_sender_username r, fi_receiver_username r, fi_tx_hash r]"

text \<open>\<open>view\<close> gives the fields a row of the table has.\<close>

definition filterTransactionRows :: "('a \<Rightarrow> filterable) \<Rightarrow> 'a list \<Rightarrow> string \<Rightarrow> 'a list" where
  "filterTransactionRows view rows query = (let term = toLowerCase (trim query) in
     if term = [] then rows else filter (\<lambda>r. row_matches term (view r)) rows)"

definition tx_view :: "DashTransaction \<Rightarrow> filterable" where
  "tx_view t = \<lparr>fi_from_address = Some (dt_from_address t), fi_memo = dt_memo t, fi_status = Some (dt_status t),
     fi_sender_username = None, fi_receiver_username = None, fi_tx_hash = None\<rparr>"

definition PAGE_SIZE_OPTIONS :: "nat list" where
  "PAGE_SIZE_OPTIONS = [10, 25, 50, 100]"

definition footer_pages :: "nat \<Rightarrow> nat \<Rightarrow> nat" where
  "footer_pages n pageSize = max 1 ((n + pageSize - 1) div pageSize)"

text \<open>The label \<open>from - to of total\<close> and which of the buttons work.\<close>

definition footer_range :: "nat \<Rightarrow> nat \<Rightarrow> nat \<Rightarrow> nat \<times> nat" where
  "footer_range n page pageSize = (if n = 0 then 0 else page * pageSize + 1, min ((page + 1) * pageSize) n)"

definition prev_enabled :: "nat \<Rightarrow> bool" where "prev_enabled page \<longleftrightarrow> page \<noteq> 0"

definition next_enabled :: "nat \<Rightarrow> nat \<Rightarrow> nat \<Rightarrow> bool" where
  "next_enabled n page pageSize \<longleftrightarrow> page + 1 < footer_pages n pageSize"

definition page_rows :: "nat \<Rightarrow> nat \<Rightarrow> 'a list \<Rightarrow> 'a list" where
  "page_rows page pageSize xs = take pageSize (drop (page * pageSize) xs)"

section \<open>The page\<close>

record tx_page =
  tp_search :: string
  tp_headerQuery :: string
  tp_userParam :: string
  tp_page :: nat
  tp_pageSize :: nat
  tp_selectedUser :: "string option"

definition activeQuery :: "tx_page \<Rightarrow> string" where
  "activeQuery s = (if tp_search s = [] then tp_headerQuery s else tp_search s)"

datatype page_event =
    Search_typed string | Url string string | Row_clicked string | Close_dialog | Page_size nat | Prev | Next

text \<open>
  The address bar has the parameters \<open>q\<close> and \<open>user\<close>.  The effects: a changed query goes back to the
  first page, a changed user parameter that is not empty opens the dialog.  Closing the dialog takes the
  parameter out of the address.
\<close>

definition tx_effects :: "tx_page \<Rightarrow> tx_page \<Rightarrow> tx_page" where
  "tx_effects old s =
     (let s1 = (if activeQuery s \<noteq> activeQuery old then s\<lparr>tp_page := 0\<rparr> else s) in
      if tp_userParam s \<noteq> tp_userParam old \<and> tp_userParam s \<noteq> [] then s1\<lparr>tp_selectedUser := Some (tp_userParam s)\<rparr> else s1)"

fun tx_handle :: "page_event \<Rightarrow> tx_page \<Rightarrow> tx_page" where
  "tx_handle (Search_typed v) s = s\<lparr>tp_search := v, tp_page := 0\<rparr>"
| "tx_handle (Url q u) s = s\<lparr>tp_headerQuery := q, tp_userParam := u\<rparr>"
| "tx_handle (Row_clicked u) s = s\<lparr>tp_selectedUser := Some u\<rparr>"
| "tx_handle Close_dialog s = s\<lparr>tp_selectedUser := None, tp_userParam := []\<rparr>"
| "tx_handle (Page_size n) s = s\<lparr>tp_pageSize := n, tp_page := 0\<rparr>"
| "tx_handle Prev s = s\<lparr>tp_page := tp_page s - 1\<rparr>"
| "tx_handle Next s = s\<lparr>tp_page := tp_page s + 1\<rparr>"

fun tx_possible :: "nat \<Rightarrow> tx_page \<Rightarrow> page_event \<Rightarrow> bool" where
  "tx_possible rows_n s (Page_size n) = (n \<in> set PAGE_SIZE_OPTIONS)"
| "tx_possible rows_n s Prev = prev_enabled (tp_page s)"
| "tx_possible rows_n s Next = next_enabled rows_n (tp_page s) (tp_pageSize s)"
| "tx_possible rows_n s Close_dialog = (tp_selectedUser s \<noteq> None)"
| "tx_possible rows_n s e = True"

definition tx_event :: "page_event \<Rightarrow> tx_page \<Rightarrow> tx_page" where
  "tx_event e s = tx_effects s (tx_handle e s)"

text \<open>The page opened under an address: its effects have run.\<close>

definition tx_opened :: "string \<Rightarrow> string \<Rightarrow> tx_page" where
  "tx_opened q u = \<lparr>tp_search = [], tp_headerQuery = q, tp_userParam = u, tp_page = 0, tp_pageSize = hd PAGE_SIZE_OPTIONS,
     tp_selectedUser = (if u = [] then None else Some u)\<rparr>"

section \<open>Searching a username\<close>

record user_search =
  us_query :: string
  us_results :: "string list"
  us_loading :: bool
  us_open :: bool
  us_timer :: "string option"
  us_route :: "string option"

definition user_search_mounted :: user_search where
  "user_search_mounted = \<lparr>us_query = [], us_results = [], us_loading = False, us_open = False, us_timer = None, us_route = None\<rparr>"

datatype search_event = Typed string | Timer_fired | Found string "string list res" | Selected string | Focus | Blur_timer

definition debouncedSearch :: "string \<Rightarrow> user_search \<Rightarrow> user_search" where
  "debouncedSearch v s = (if length (trim v) < 2 then s\<lparr>us_timer := None, us_results := [], us_open := False\<rparr>
     else s\<lparr>us_timer := Some v\<rparr>)"

definition handleSelect :: "string \<Rightarrow> user_search \<Rightarrow> user_search" where
  "handleSelect u s = s\<lparr>us_query := [], us_open := False,
     us_route := Some (''/dashboard/transactions?user='' @ encodeURIComponent u)\<rparr>"

text \<open>
  \<open>closes\<close>: on a failed search the widget of the overview closes the list, the search bar leaves it
  open.  The requests under way are their query texts.
\<close>

definition found :: "bool \<Rightarrow> string list res \<Rightarrow> user_search \<Rightarrow> user_search" where
  "found closes r s = (case r of
       Ret xs \<Rightarrow> s\<lparr>us_results := xs, us_open := (xs \<noteq> [])\<rparr>
     | Throw _ \<Rightarrow> (if closes then s\<lparr>us_results := [], us_open := False\<rparr> else s\<lparr>us_results := []\<rparr>))\<lparr>us_loading := False\<rparr>"

fun search_step :: "bool \<Rightarrow> search_event \<Rightarrow> user_search \<times> string list \<Rightarrow> (user_search \<times> string list) option" where
  "search_step closes (Typed v) (s, fl) = Some (debouncedSearch v (s\<lparr>us_query := v\<rparr>), fl)"
| "search_step closes Timer_fired (s, fl) = (case us_timer s of None \<Rightarrow> None
     | Some v \<Rightarrow> Some (s\<lparr>us_timer := None, us_loading := True\<rparr>, fl @ [trim v]))"
| "search_step closes (Found q r) (s, fl) = (if q \<in> set fl then Some (found closes r s, remove1 q fl) else None)"
| "search_step closes (Selected u) (s, fl) = (if us_open s \<and> u \<in> set (us_results s) then Some (handleSelect u s, fl) else None)"
| "search_step closes Focus (s, fl) = Some (if us_results s \<noteq> [] then s\<lparr>us_open := True\<rparr> else s, fl)"
| "search_step closes Blur_timer (s, fl) = Some (s\<lparr>us_open := False\<rparr>, fl)"

fun search_run :: "bool \<Rightarrow> search_event list \<Rightarrow> user_search \<times> string list \<Rightarrow> (user_search \<times> string list) option" where
  "search_run closes [] y = Some y"
| "search_run closes (e # es) y = Option.bind (search_step closes e y) (search_run closes es)"

section \<open>Properties\<close>

text \<open>
  What the export button writes is what the table shows: reading the file back gives the rows that pass
  the filter, in their order.
\<close>

theorem export_matches_table:
  assumes "export_csv (Tx_rows (filterTransactionRows tx_view rows query)) = Some content"
  shows "csv_read content = csv_headers # map csv_fields (filterTransactionRows tx_view rows query)"
proof (cases "filterTransactionRows tx_view rows query")
  case Nil
  with assms show ?thesis by simp
next
  case (Cons r rs)
  with assms have c: "content = toCSV (r # rs)" by simp
  have "csv_read (toCSV (r # rs)) = csv_headers # map csv_fields (r # rs)"
    unfolding toCSV_def
  proof (rule csv_file_read)
    show "\<forall>h \<in> set csv_headers. plain_text h" by code_simp
    show "\<forall>r \<in> set (map csv_fields (r # rs)). r \<noteq> []" by (simp add: csv_fields_def)
  qed (simp add: csv_headers_def)
  then show ?thesis by (simp only: c Cons)
qed

definition sample_tx :: "string \<Rightarrow> DashTransaction" where
  "sample_tx memo = \<lparr>dt_id = ''t1'', dt_from_address = ''GABC'', dt_send_asset = ''XLM'', dt_send_amount = Fin 5,
     dt_receive_amount = None, dt_status = ''completed'', dt_memo = Some memo, dt_created_at = ''2026-01-01''\<rparr>"

theorem export_matches_table_witness:
  "\<exists>content. export_csv (Tx_rows (filterTransactionRows tx_view [sample_tx ''Rent, May'', sample_tx ''x''] '' rent '')) = Some content
     \<and> csv_read content = [csv_headers, csv_fields (sample_tx ''Rent, May'')]"
proof -
  have f: "filterTransactionRows tx_view [sample_tx ''Rent, May'', sample_tx ''x''] '' rent '' = [sample_tx ''Rent, May'']"
    by code_simp
  then have e: "export_csv (Tx_rows (filterTransactionRows tx_view [sample_tx ''Rent, May'', sample_tx ''x''] '' rent ''))
    = Some (toCSV [sample_tx ''Rent, May''])" by simp
  from export_matches_table[OF e] f show ?thesis by simp
qed

lemma concat_pages: "concat (map (\<lambda>n. page_rows n k xs) [0..<m]) = take (m * k) xs"
  by (induction m) (simp_all add: page_rows_def take_add add.commute[of k])

text \<open>
  The footer tells the truth about the table: on a page that exists, the label counts the rows shown,
  the pages put together are the table, and \<open>Next\<close> works exactly while rows are left.
\<close>

theorem footer_correct:
  assumes "0 < pageSize" "page < footer_pages (length xs) pageSize"
  shows "length (page_rows page pageSize xs) = (if xs = [] then 0
      else Suc (snd (footer_range (length xs) page pageSize)) - fst (footer_range (length xs) page pageSize))
    \<and> concat (map (\<lambda>n. page_rows n pageSize xs) [0..<footer_pages (length xs) pageSize]) = xs
    \<and> (next_enabled (length xs) page pageSize \<longleftrightarrow> snd (footer_range (length xs) page pageSize) < length xs)"
proof -
  let ?n = "length xs" and ?t = "footer_pages (length xs) pageSize"
  have up: "?n \<le> (?n + pageSize - 1) div pageSize * pageSize"
  proof -
    have "?n + pageSize - 1 = (?n + pageSize - 1) div pageSize * pageSize + (?n + pageSize - 1) mod pageSize" by simp
    moreover have "(?n + pageSize - 1) mod pageSize < pageSize" using assms(1) by simp
    ultimately show ?thesis using assms(1) by linarith
  qed
  have "(?n + pageSize - 1) div pageSize * pageSize \<le> ?t * pageSize" by (simp add: footer_pages_def mult_right_mono)
  with up have all: "?n \<le> ?t * pageSize" by linarith
  have low: "m * pageSize < ?n" if "m < ?t" "0 < m" for m
  proof -
    have "m < (?n + pageSize - 1) div pageSize" using that by (simp add: footer_pages_def)
    then have "Suc m * pageSize \<le> ?n + pageSize - 1" using assms(1) by (simp add: less_eq_div_iff_mult_less_eq Suc_le_eq[symmetric])
    then show ?thesis using assms(1) by simp
  qed
  have c: "concat (map (\<lambda>n. page_rows n pageSize xs) [0..<?t]) = xs" using all by (simp add: concat_pages)
  have l: "length (page_rows page pageSize xs) = (if xs = [] then 0
      else Suc (snd (footer_range ?n page pageSize)) - fst (footer_range ?n page pageSize))"
    using low[OF assms(2)] by (cases "page = 0") (auto simp: page_rows_def footer_range_def min_def)
  have "next_enabled ?n page pageSize \<longleftrightarrow> snd (footer_range ?n page pageSize) < ?n"
  proof
    assume "next_enabled ?n page pageSize"
    then show "snd (footer_range ?n page pageSize) < ?n" using low[of "page + 1"] by (simp add: next_enabled_def footer_range_def)
  next
    assume a: "snd (footer_range ?n page pageSize) < ?n"
    show "next_enabled ?n page pageSize"
    proof (rule ccontr)
      assume "\<not> next_enabled ?n page pageSize"
      with assms(2) have t: "?t = page + 1" by (simp add: next_enabled_def)
      have "?n \<le> (page + 1) * pageSize" using all unfolding t .
      with a show False by (simp add: footer_range_def)
    qed
  qed
  with c l show ?thesis by blast
qed

theorem footer_correct_witness:
  "length (page_rows 2 10 [0..<25]) = 5 \<and> \<not> next_enabled (length [0..<25]) 2 10"
proof -
  have "2 < footer_pages (length [0..<25]) 10" by (simp add: footer_pages_def)
  from footer_correct[OF _ this] show ?thesis by (simp add: footer_range_def)
qed

lemma dialog_stays_closed:
  assumes "tp_selectedUser s = None" "tp_userParam s = []"
    and "list_all (\<lambda>e. case e of Row_clicked _ \<Rightarrow> False | Url q u \<Rightarrow> u = [] | _ \<Rightarrow> True) es"
  shows "tp_selectedUser (fold tx_event es s) = None"
  using assms
proof (induction es arbitrary: s)
  case (Cons e es)
  have "tp_selectedUser (tx_event e s) = None \<and> tp_userParam (tx_event e s) = []"
    using Cons.prems by (cases e) (auto simp: tx_event_def tx_effects_def Let_def)
  with Cons show ?case by simp
qed simp

text \<open>
  The dialog of a link with \<open>?user=\<close> opens once: closing it takes the user out of the address, so that
  it stays closed until the user parameter changes or a row is clicked.
\<close>

theorem closed_dialog_stays_closed:
  assumes "list_all (\<lambda>e. case e of Row_clicked _ \<Rightarrow> False | Url q u \<Rightarrow> u = [] | _ \<Rightarrow> True) es"
  shows "tp_selectedUser (fold tx_event (Close_dialog # es) s) = None"
proof -
  have "tp_selectedUser (tx_event Close_dialog s) = None \<and> tp_userParam (tx_event Close_dialog s) = []"
    by (auto simp: tx_event_def tx_effects_def Let_def)
  with dialog_stays_closed[OF _ _ assms] show ?thesis by simp
qed

theorem closed_dialog_stays_closed_witness:
  "tp_selectedUser (fold tx_event [Close_dialog, Search_typed ''rent'', Next] (tx_opened [] ''bob'')) = None"
  using closed_dialog_stays_closed[of "[Search_typed ''rent'', Next]" "tx_opened [] ''bob''"] by simp

definition search_inv :: "user_search \<times> string list \<Rightarrow> bool" where
  "search_inv y \<longleftrightarrow> (\<forall>q \<in> set (snd y). 2 \<le> length q \<and> trim q = q) \<and> (us_open (fst y) \<longrightarrow> us_results (fst y) \<noteq> [])
     \<and> (\<forall>v. us_timer (fst y) = Some v \<longrightarrow> 2 \<le> length (trim v))"

lemma search_inv_step: "search_step True e y = Some y' \<Longrightarrow> search_inv y \<Longrightarrow> search_inv y'"
  by (cases y; cases e) (auto simp: search_inv_def debouncedSearch_def found_def handleSelect_def
      split: if_splits option.splits res.splits dest: subsetD[OF set_remove1_subset])

text \<open>Searches are only made for at least two characters, and an open list has entries.\<close>

theorem search_requests_valid:
  assumes "search_run True es (user_search_mounted, []) = Some (s, fl)"
  shows "(\<forall>q \<in> set fl. 2 \<le> length q \<and> trim q = q) \<and> (us_open s \<longrightarrow> us_results s \<noteq> [])"
proof -
  have "search_inv y" if "search_run True es x = Some y" "search_inv x" for x y
    using that by (induction es arbitrary: x) (auto simp: Option.bind_eq_Some_conv dest: search_inv_step)
  moreover have "search_inv (user_search_mounted, [])" by (simp add: search_inv_def user_search_mounted_def)
  ultimately have "search_inv (s, fl)" using assms by blast
  then show ?thesis by (simp add: search_inv_def)
qed

theorem search_requests_valid_witness:
  "\<exists>s. search_run True [Typed '' bo'', Timer_fired] (user_search_mounted, []) = Some (s, [''bo'']) \<and> (us_open s \<longrightarrow> us_results s \<noteq> [])"
proof -
  have t: "trim '' bo'' = ''bo''" by code_simp
  then obtain s where s: "search_run True [Typed '' bo'', Timer_fired] (user_search_mounted, []) = Some (s, [''bo''])"
    by (simp add: user_search_mounted_def debouncedSearch_def)
  from search_requests_valid[OF s] s show ?thesis by blast
qed

text \<open>Clearing the field does not stop a search under way: its answer opens the list under an empty field.\<close>

theorem cleared_search_reopens:
  "\<exists>s. search_run closes [Typed ''bo'', Timer_fired, Typed [], Found ''bo'' (Ret [''bob''])] (user_search_mounted, []) = Some (s, [])
     \<and> us_query s = [] \<and> us_open s \<and> us_results s = [''bob'']"
proof -
  have t: "trim ''bo'' = ''bo''" by code_simp
  then show ?thesis by (simp add: user_search_mounted_def debouncedSearch_def found_def)
qed

end
