(* ===== verification/Admin_Pages.thy ===== *)
theory Admin_Pages
  imports Audit_Log Polling
begin

text \<open>
  The administration of contracts (\<open>dashboard/app/dashboard/contracts/page.tsx\<close>): setting the platform
  fee, blacklisting a username after two confirmations, and the grid of identity links over the polling
  hook.  The ellipsis of a message is \<open>CHR 0x85\<close>.
\<close>

text \<open>A request that is the only one under way.\<close>

lemma only_request: "length xs = Suc 0 \<Longrightarrow> x \<in> set xs \<Longrightarrow> xs = [x]"
  by (cases xs) auto

lemma only_request_done [simp]: "length xs = Suc 0 \<Longrightarrow> x \<in> set xs \<Longrightarrow> remove1 x xs = []"
  by (cases xs) auto

section \<open>The fee coefficient\<close>

record fee_result =
  fr_fee_coefficient :: js_num
  fr_tx_hash :: string

datatype fee_status = Fee_idle | Submitting | Success fee_result | Fee_error string

record fee_panel =
  fp_inputValue :: string
  fp_status :: fee_status

definition isInteger :: "js_num \<Rightarrow> bool" where
  "isInteger n \<longleftrightarrow> (case n of Fin q \<Rightarrow> q = of_int \<lfloor>q\<rfloor> | _ \<Rightarrow> False)"

definition basisPoints :: "fee_panel \<Rightarrow> js_num" where
  "basisPoints s = Number (fp_inputValue s)"

definition fee_valid :: "fee_panel \<Rightarrow> bool" where
  "fee_valid s \<longleftrightarrow> fp_inputValue s \<noteq> [] \<and> isInteger (basisPoints s) \<and> num_le (Fin 0) (basisPoints s)
     \<and> num_le (basisPoints s) (Fin 10000)"

definition percentDisplay :: "fee_panel \<Rightarrow> string option" where
  "percentDisplay s = (if fee_valid s then Some (toFixed 2 (num_div (basisPoints s) (Fin 100)) @ ''%'') else None)"

datatype fee_event = Fee_typed string | Fee_submit | Fee_answer js_num "fee_result res"

text \<open>The requests under way are the fees asked for; input and button are disabled for others than superadmins.\<close>

fun fee_step :: "bool \<Rightarrow> fee_event \<Rightarrow> fee_panel \<times> js_num list \<Rightarrow> (fee_panel \<times> js_num list) option" where
  "fee_step isSuperAdmin (Fee_typed v) (s, fl) = (if \<not> isSuperAdmin \<or> fp_status s = Submitting then None
     else Some (\<lparr>fp_inputValue = v, fp_status = Fee_idle\<rparr>, fl))"
| "fee_step isSuperAdmin Fee_submit (s, fl) = (if \<not> isSuperAdmin \<or> \<not> fee_valid s \<or> fp_status s = Submitting then None
     else Some (s\<lparr>fp_status := Submitting\<rparr>, fl @ [basisPoints s]))"
| "fee_step isSuperAdmin (Fee_answer f r) (s, fl) = (if f \<notin> set fl then None
     else Some (case r of Ret x \<Rightarrow> \<lparr>fp_inputValue = [], fp_status = Success x\<rparr>
       | Throw e \<Rightarrow> s\<lparr>fp_status := Fee_error (message_or ''Unknown error'' e)\<rparr>, remove1 f fl))"

fun fee_run :: "bool \<Rightarrow> fee_event list \<Rightarrow> fee_panel \<times> js_num list \<Rightarrow> (fee_panel \<times> js_num list) option" where
  "fee_run isSuperAdmin [] y = Some y"
| "fee_run isSuperAdmin (e # es) y = Option.bind (fee_step isSuperAdmin e y) (fee_run isSuperAdmin es)"

definition fee_mounted :: "fee_panel \<times> js_num list" where
  "fee_mounted = (\<lparr>fp_inputValue = [], fp_status = Fee_idle\<rparr>, [])"

definition fee_inv :: "bool \<Rightarrow> fee_panel \<times> js_num list \<Rightarrow> bool" where
  "fee_inv isSuperAdmin y \<longleftrightarrow> length (snd y) = (if fp_status (fst y) = Submitting then 1 else 0)
     \<and> (\<forall>f \<in> set (snd y). isSuperAdmin \<and> (\<exists>i. f = Fin (of_int i) \<and> 0 \<le> i \<and> i \<le> 10000))"

lemma fee_valid_range: "fee_valid s \<Longrightarrow> \<exists>i. basisPoints s = Fin (of_int i) \<and> 0 \<le> i \<and> i \<le> 10000"
proof -
  assume v: "fee_valid s"
  then obtain q where q: "basisPoints s = Fin q" "q = of_int \<lfloor>q\<rfloor>" by (auto simp: fee_valid_def isInteger_def split: js_num.splits)
  with v have "0 \<le> q" "q \<le> 10000" by (auto simp: fee_valid_def num_le_def)
  then have "0 \<le> \<lfloor>q\<rfloor>" "\<lfloor>q\<rfloor> \<le> 10000" by linarith+
  with q show ?thesis by metis
qed

lemma fee_inv_step: "fee_step adm e y = Some y' \<Longrightarrow> fee_inv adm y \<Longrightarrow> fee_inv adm y'"
  by (cases y; cases e) (auto simp: fee_inv_def length_remove1 fee_valid_range
      split: if_splits res.splits dest: subsetD[OF set_remove1_subset])

text \<open>
  A fee is only set by a superadmin, to a whole number of basis points between 0 and 10000, and never
  while another request is under way.
\<close>

theorem fee_request_valid:
  assumes "fee_run isSuperAdmin es fee_mounted = Some (s, fl)" "f \<in> set fl"
  shows "isSuperAdmin \<and> (\<exists>i. f = Fin (of_int i) \<and> 0 \<le> i \<and> i \<le> 10000) \<and> fl = [f] \<and> fp_status s = Submitting"
proof -
  have "fee_inv isSuperAdmin y" if "fee_run isSuperAdmin es x = Some y" "fee_inv isSuperAdmin x" for x y
    using that by (induction es arbitrary: x) (auto simp: Option.bind_eq_Some_conv dest: fee_inv_step)
  moreover have "fee_inv isSuperAdmin fee_mounted" by (simp add: fee_inv_def fee_mounted_def)
  ultimately have i: "fee_inv isSuperAdmin (s, fl)" using assms(1) by blast
  then have "length fl = 1" using assms(2) by (cases fl) (auto simp: fee_inv_def split: if_splits)
  then have "fl = [f]" using assms(2) by (cases fl) auto
  with i assms(2) show ?thesis by (auto simp: fee_inv_def split: if_splits)
qed

lemma Number_50: "Number ''50'' = Fin 50"
proof -
  have "''50'' = show_int (int 50)" by code_simp
  then show ?thesis using Number_show_nat[of 50] by simp
qed

theorem fee_request_valid_witness:
  "\<exists>s. fee_run True [Fee_typed ''50'', Fee_submit] fee_mounted = Some (s, [Fin 50]) \<and> fp_status s = Submitting"
proof -
  obtain s where s: "fee_run True [Fee_typed ''50'', Fee_submit] fee_mounted = Some (s, [Fin 50])"
    by (simp add: fee_mounted_def fee_valid_def basisPoints_def Number_50 isInteger_def num_le_def)
  from fee_request_valid[OF s, of "Fin 50"] s show ?thesis by simp
qed

section \<open>The table of usernames\<close>

record RegistryClaim =
  rc_username :: string
  rc_public_key :: string
  rc_registered_at :: string

datatype claim_key = By_username | By_registered_at

definition claim_compare :: "(string \<Rightarrow> js_num) \<Rightarrow> (string \<Rightarrow> string \<Rightarrow> int) \<Rightarrow> claim_key \<Rightarrow> bool \<Rightarrow> RegistryClaim \<Rightarrow> RegistryClaim \<Rightarrow> js_num" where
  "claim_compare date_of collate k asc a b =
     (let c = (case k of By_username \<Rightarrow> Fin (of_int (collate (rc_username a) (rc_username b)))
        | By_registered_at \<Rightarrow> num_sub (date_of (rc_registered_at a)) (date_of (rc_registered_at b)))
      in if asc then c else num_neg c)"

definition sorted_claims :: "(string \<Rightarrow> js_num) \<Rightarrow> (string \<Rightarrow> string \<Rightarrow> int) \<Rightarrow> claim_key \<Rightarrow> bool \<Rightarrow> RegistryClaim list \<Rightarrow> RegistryClaim list" where
  "sorted_claims date_of collate k asc claims = sort_txs (claim_compare date_of collate k asc) claims"

section \<open>Blacklisting\<close>

record blacklist =
  bl_show :: bool
  bl_username :: "string option"
  bl_publicKey :: "string option"
  bl_confirmed :: bool
  bl_signing :: bool
  bl_msg :: "(bool \<times> string) option"

text \<open>Under way: signing requests, with the user they are for, and the timers that will close the drawer.\<close>

type_synonym blacklist_sys = "blacklist \<times> (string \<times> string) list \<times> nat"

definition blacklist_mounted :: blacklist_sys where
  "blacklist_mounted = (\<lparr>bl_show = False, bl_username = None, bl_publicKey = None, bl_confirmed = False, bl_signing = False,
     bl_msg = None\<rparr>, [], 0)"

definition handleBlacklistClick :: "string \<Rightarrow> string \<Rightarrow> blacklist \<Rightarrow> blacklist" where
  "handleBlacklistClick u k s = s\<lparr>bl_username := Some u, bl_publicKey := Some k, bl_confirmed := False, bl_msg := None, bl_show := True\<rparr>"

definition handleBlacklistConfirm :: "blacklist \<Rightarrow> blacklist \<times> (string \<times> string) list" where
  "handleBlacklistConfirm s = (if \<not> bl_confirmed s then (s\<lparr>bl_confirmed := True\<rparr>, [])
     else if \<not> truthy (bl_username s) \<or> \<not> truthy (bl_publicKey s) then (s, [])
     else (s\<lparr>bl_signing := True, bl_msg := None\<rparr>, [(the (bl_username s), the (bl_publicKey s))]))"

definition close_drawer :: "blacklist \<Rightarrow> blacklist" where
  "close_drawer s = s\<lparr>bl_show := False, bl_confirmed := False, bl_username := None, bl_publicKey := None, bl_msg := None\<rparr>"

definition timer_closes :: "blacklist \<Rightarrow> blacklist" where
  "timer_closes s = s\<lparr>bl_show := False, bl_confirmed := False, bl_username := None, bl_publicKey := None\<rparr>"

text \<open>The signed call; \<open>admin\<close> is the address the extension reports.\<close>

definition blacklist_payload :: "string \<times> string \<Rightarrow> string \<Rightarrow> (string \<times> jv) list" where
  "blacklist_payload t admin = [(''fn'', JS ''blacklist_user''), (''username'', JS (fst t)), (''public_key'', JS (snd t)), (''admin'', JS admin)]"

definition blacklist_signed :: "string \<times> string \<Rightarrow> string res \<Rightarrow> blacklist \<Rightarrow> blacklist" where
  "blacklist_signed t r s = (case r of
       Ret xdr \<Rightarrow> s\<lparr>bl_msg := Some (True, ''User @'' @ fst t @ '' has been blacklisted. Signed XDR: '' @ take 24 xdr @ [CHR 0x85])\<rparr>
     | Throw e \<Rightarrow> s\<lparr>bl_msg := Some (False, message_or ''Failed to sign blacklist transaction'' e)\<rparr>)\<lparr>bl_signing := False\<rparr>"

datatype blacklist_event = Click string string | Close | First | Final | Signed "string \<times> string" "string res" | Timer

text \<open>The drawer covers the table: a row is clicked only while it is closed.\<close>

fun blacklist_step :: "bool \<Rightarrow> blacklist_event \<Rightarrow> blacklist_sys \<Rightarrow> blacklist_sys option" where
  "blacklist_step isSuperAdmin (Click u k) (s, fl, n) = (if \<not> isSuperAdmin \<or> bl_show s then None else Some (handleBlacklistClick u k s, fl, n))"
| "blacklist_step isSuperAdmin Close (s, fl, n) = (if bl_show s then Some (close_drawer s, fl, n) else None)"
| "blacklist_step isSuperAdmin First (s, fl, n) = (if bl_show s \<and> \<not> bl_confirmed s then Some (s\<lparr>bl_confirmed := True\<rparr>, fl, n) else None)"
| "blacklist_step isSuperAdmin Final (s, fl, n) = (if bl_show s \<and> bl_confirmed s \<and> \<not> bl_signing s
     then (case handleBlacklistConfirm s of (s', new) \<Rightarrow> Some (s', fl @ new, n)) else None)"
| "blacklist_step isSuperAdmin (Signed t r) (s, fl, n) = (if t \<notin> set fl then None
     else Some (blacklist_signed t r s, remove1 t fl, if is_Ret r then n + 1 else n))"
| "blacklist_step isSuperAdmin Timer (s, fl, n) = (if n = 0 then None else Some (timer_closes s, fl, n - 1))"

fun blacklist_run :: "bool \<Rightarrow> blacklist_event list \<Rightarrow> blacklist_sys \<Rightarrow> blacklist_sys option" where
  "blacklist_run isSuperAdmin [] y = Some y"
| "blacklist_run isSuperAdmin (e # es) y = Option.bind (blacklist_step isSuperAdmin e y) (blacklist_run isSuperAdmin es)"

lemma blacklist_run_snoc:
  "blacklist_run adm (es @ [e]) y = Option.bind (blacklist_run adm es y) (blacklist_step adm e)"
  by (induction es arbitrary: y) (auto split: Option.bind_splits)

text \<open>\<open>clicked es u k\<close>: the row was clicked; \<open>confirmed es u k\<close>: and confirmed since; \<open>completed es u k\<close>: and twice.\<close>

definition clicked :: "blacklist_event list \<Rightarrow> string \<Rightarrow> string \<Rightarrow> bool" where
  "clicked es u k \<longleftrightarrow> Click u k \<in> set es"

definition confirmed :: "blacklist_event list \<Rightarrow> string \<Rightarrow> string \<Rightarrow> bool" where
  "confirmed es u k \<longleftrightarrow> (\<exists>es1 es2. es = es1 @ Click u k # es2 \<and> First \<in> set es2)"

definition completed :: "blacklist_event list \<Rightarrow> string \<Rightarrow> string \<Rightarrow> bool" where
  "completed es u k \<longleftrightarrow> (\<exists>es1 es2 es3 es4. es = es1 @ Click u k # es2 @ First # es3 @ Final # es4)"

definition blacklist_inv :: "bool \<Rightarrow> blacklist_event list \<Rightarrow> blacklist_sys \<Rightarrow> bool" where
  "blacklist_inv isSuperAdmin es = (\<lambda>(s, fl, n).
     (bl_show s \<longrightarrow> isSuperAdmin \<and> (\<exists>u k. bl_username s = Some u \<and> bl_publicKey s = Some k \<and> clicked es u k
        \<and> (bl_confirmed s \<longrightarrow> confirmed es u k)))
     \<and> (\<forall>(u, k) \<in> set fl. isSuperAdmin \<and> completed es u k)
     \<and> length fl = (if bl_signing s then 1 else 0))"

lemma confirmed_snoc: "confirmed es u k \<Longrightarrow> confirmed (es @ [e]) u k"
  unfolding confirmed_def by (metis append.assoc append_Cons Un_iff set_append)

lemma completed_snoc: "completed es u k \<Longrightarrow> completed (es @ [e]) u k"
  unfolding completed_def by (metis append.assoc append_Cons)

lemma confirmed_Final: "confirmed es u k \<Longrightarrow> completed (es @ [Final]) u k"
  unfolding confirmed_def completed_def by (metis append.assoc append_Cons in_set_conv_decomp)

lemma clicked_snoc [simp]: "clicked (es @ [e]) u k \<longleftrightarrow> clicked es u k \<or> e = Click u k"
  by (auto simp: clicked_def)

lemma clicked_First: "clicked es u k \<Longrightarrow> confirmed (es @ [First]) u k"
  unfolding clicked_def confirmed_def by (metis append.assoc append_Cons in_set_conv_decomp)

lemma blacklist_signed_keeps [simp]:
  "bl_show (blacklist_signed t r s) = bl_show s" "bl_username (blacklist_signed t r s) = bl_username s"
  "bl_publicKey (blacklist_signed t r s) = bl_publicKey s" "bl_confirmed (blacklist_signed t r s) = bl_confirmed s"
  "\<not> bl_signing (blacklist_signed t r s)"
  by (cases r; simp add: blacklist_signed_def)+

lemma blacklist_inv_step:
  assumes "blacklist_step adm e (s, fl, n) = Some (s', fl', n')" "blacklist_inv adm es (s, fl, n)"
  shows "blacklist_inv adm (es @ [e]) (s', fl', n')"
proof (cases e)
  case (Click u k)
  then show ?thesis using assms
    by (auto simp: blacklist_inv_def handleBlacklistClick_def confirmed_snoc completed_snoc split: if_splits)
next
  case Close
  then show ?thesis using assms by (auto simp: blacklist_inv_def close_drawer_def confirmed_snoc completed_snoc split: if_splits)
next
  case First
  then show ?thesis using assms by (auto simp: blacklist_inv_def confirmed_snoc completed_snoc clicked_First split: if_splits)
next
  case Final
  then show ?thesis using assms
    by (auto simp: blacklist_inv_def handleBlacklistConfirm_def confirmed_Final confirmed_snoc completed_snoc split: if_splits)
next
  case (Signed t r)
  then have e: "t \<in> set fl" "s' = blacklist_signed t r s" "fl' = remove1 t fl" using assms(1) by (auto split: if_splits)
  then have "length fl = Suc 0" using assms(2) by (cases fl) (auto simp: blacklist_inv_def split: if_splits)
  with e have "fl' = []" by simp
  with e(2) assms(2) show ?thesis by (auto simp: blacklist_inv_def confirmed_snoc completed_snoc Signed)
next
  case Timer
  then show ?thesis using assms by (auto simp: blacklist_inv_def timer_closes_def confirmed_snoc completed_snoc split: if_splits)
qed

text \<open>
  C24: Nobody is blacklisted by one click: a signing request is for a user whose row a superadmin clicked and
  then confirmed twice, and there is one request at a time.
\<close>

theorem blacklist_confirmed:
  assumes "blacklist_run isSuperAdmin es blacklist_mounted = Some (s, fl, n)" "(u, k) \<in> set fl"
  shows "isSuperAdmin \<and> (\<exists>es1 es2 es3 es4. es = es1 @ Click u k # es2 @ First # es3 @ Final # es4) \<and> fl = [(u, k)]"
proof -
  have "blacklist_inv isSuperAdmin es y" if "blacklist_run isSuperAdmin es blacklist_mounted = Some y" for y
    using that
  proof (induction es arbitrary: y rule: rev_induct)
    case Nil
    then show ?case by (auto simp: blacklist_inv_def blacklist_mounted_def)
  next
    case (snoc e es)
    then obtain z where z: "blacklist_run isSuperAdmin es blacklist_mounted = Some z" "blacklist_step isSuperAdmin e z = Some y"
      by (auto simp: blacklist_run_snoc Option.bind_eq_Some_conv)
    obtain s fl n s' fl' n' where "z = (s, fl, n)" "y = (s', fl', n')" by (cases z; cases y) blast
    with z snoc.IH show ?case using blacklist_inv_step by blast
  qed
  with assms(1) have i: "blacklist_inv isSuperAdmin es (s, fl, n)" by blast
  then have "length fl = 1" using assms(2) by (cases fl) (auto simp: blacklist_inv_def split: if_splits)
  then have "fl = [(u, k)]" using assms(2) by (cases fl) auto
  with i show ?thesis by (auto simp: blacklist_inv_def completed_def)
qed

lemmas blacklist_eval = blacklist_mounted_def handleBlacklistClick_def handleBlacklistConfirm_def blacklist_signed_def
  timer_closes_def close_drawer_def

theorem blacklist_confirmed_witness:
  "\<exists>s. blacklist_run True [Click ''mallory'' ''GM'', First, Final] blacklist_mounted = Some (s, [(''mallory'', ''GM'')], 0)
     \<and> (\<exists>es1 es2 es3 es4. [Click ''mallory'' ''GM'', First, Final] = es1 @ Click ''mallory'' ''GM'' # es2 @ First # es3 @ Final # es4)"
proof -
  obtain s where s: "blacklist_run True [Click ''mallory'' ''GM'', First, Final] blacklist_mounted = Some (s, [(''mallory'', ''GM'')], 0)"
    by (simp add: blacklist_eval)
  from blacklist_confirmed[OF s, of "''mallory''" "''GM''"] s show ?thesis by auto
qed

text \<open>
  The timer of a success closes whatever drawer is open two seconds later, also one opened since for
  another user.
\<close>

theorem timer_closes_next_drawer:
  "\<exists>s. blacklist_run True [Click ''mallory'' ''GM'', First, Final, Signed (''mallory'', ''GM'') (Ret ''AAAA''), Close,
       Click ''trudy'' ''GT'', First, Timer] blacklist_mounted = Some (s, [], 0)
     \<and> \<not> bl_show s \<and> bl_username s = None"
  by (simp add: blacklist_eval)

section \<open>Identity links\<close>

record link_grid =
  lg_searchInput :: string
  lg_committed :: string

datatype grid_event = Grid_typed string | Grid_search | Grid_clear

fun grid_step :: "grid_event \<Rightarrow> link_grid \<Rightarrow> link_grid" where
  "grid_step (Grid_typed v) g = g\<lparr>lg_searchInput := v\<rparr>"
| "grid_step Grid_search g = g\<lparr>lg_committed := trim (lg_searchInput g)\<rparr>"
| "grid_step Grid_clear g = g\<lparr>lg_searchInput := [], lg_committed := []\<rparr>"

text \<open>The committed text is the dependency of the polling hook and the query of its requests.\<close>

definition grid_params :: "link_grid \<Rightarrow> LinkParams" where
  "grid_params g = \<lparr>lp_query = if_truthy (Some (lg_committed g)), lp_limit = Some 50, lp_offset = None\<rparr>"

definition grid_deps :: "link_grid \<Rightarrow> (string, 'a) poll_event" where
  "grid_deps g = New_deps (lg_committed g)"

end
