(* ===== verification/Notifications.thy ===== *)
theory Notifications
  imports Api_Client
begin

text \<open>
  \<open>mobileapp/src/services/notificationService.ts\<close> and \<open>hooks/useNotificationPreferences.ts\<close>: the stored
  preference, the soft ask, permission, registration of the push token and the links notifications open.

  \<open>AsyncStorage\<close> and the authenticated fetch (\<open>api\<close>) are arguments; \<open>expo-notifications\<close> is a record of
  operations.  \<open>PROVISIONAL\<close> is what the package has under \<open>PermissionStatus.PROVISIONAL\<close>, \<open>None\<close> when it
  has nothing.  Main results: the store the code leaves, who is asked and when, where a press leads.
\<close>

section \<open>The package\<close>

datatype PermissionStatus = GRANTED | DENIED | UNDETERMINED

text \<open>\<open>pm_ios\<close> is \<open>permission.ios?.status\<close>.\<close>

record permission =
  pm_status :: PermissionStatus
  pm_granted :: bool
  pm_ios :: "int option"

text \<open>The token is the answer itself or its \<open>data\<close>.\<close>

datatype push_token = Plain string | Wrapped string

record category_action =
  cat_identifier :: string
  cat_buttonTitle :: string
  cat_opensApp :: bool

record 'w push_api =
  getPermissionsAsync :: "('w, permission) io"
  requestPermissionsAsync :: "('w, permission) io"
  getExpoPushTokenAsync :: "('w, push_token) io"
  setNotificationCategoryAsync :: "string \<Rightarrow> category_action list \<Rightarrow> ('w, unit) io"
  openSettings :: "('w, unit) io"
  PROVISIONAL :: "int option"

text \<open>\<open>Platform.OS\<close>, \<open>Constants.isDevice\<close> and the two places of the slug.\<close>

record phone =
  ph_OS :: string
  ph_isDevice :: bool
  ph_manifest_slug :: "string option"
  ph_config_slug :: "string option"

section \<open>Stored flags\<close>

definition NOTIFICATION_PREFERENCE_KEY :: string where "NOTIFICATION_PREFERENCE_KEY = ''zaps_notifications_enabled''"
definition PUSH_TOKEN_KEY :: string where "PUSH_TOKEN_KEY = ''zaps_push_token''"
definition NOTIFICATION_PROMPT_DISMISSED_KEY :: string where
  "NOTIFICATION_PROMPT_DISMISSED_KEY = ''zaps_notifications_prompt_dismissed''"

definition initNotificationCategoriesAsync :: "phone \<Rightarrow> 'w push_api \<Rightarrow> ('w, unit) io" where
  "initNotificationCategoriesAsync ph P =
     (if ph_OS ph = ''web'' then ret ()
      else try_catch (setNotificationCategoryAsync P ''TRANSACTION''
          [\<lparr>cat_identifier = ''VIEW_TRANSACTION'', cat_buttonTitle = ''View'', cat_opensApp = True\<rparr>,
           \<lparr>cat_identifier = ''DISMISS'', cat_buttonTitle = ''Dismiss'', cat_opensApp = False\<rparr>,
           \<lparr>cat_identifier = ''MARK_READ'', cat_buttonTitle = ''Mark Read'', cat_opensApp = False\<rparr>]) (\<lambda>_. ret ()))"

definition getStoredNotificationPreference :: "(string \<Rightarrow> 'w \<Rightarrow> string option res) \<Rightarrow> ('w, bool) io" where
  "getStoredNotificationPreference getA = try_catch
     (bnd (reads (getA NOTIFICATION_PREFERENCE_KEY)) (\<lambda>raw. ret (raw \<noteq> Some ''false''))) (\<lambda>_. ret True)"

definition saveNotificationPreference :: "(string \<Rightarrow> string \<Rightarrow> ('w, unit) io) \<Rightarrow> bool \<Rightarrow> ('w, unit) io" where
  "saveNotificationPreference setA value =
     try_catch (setA NOTIFICATION_PREFERENCE_KEY (if value then ''true'' else ''false'')) (\<lambda>_. ret ())"

definition getStoredPushToken :: "(string \<Rightarrow> 'w \<Rightarrow> string option res) \<Rightarrow> ('w, string option) io" where
  "getStoredPushToken getA = try_catch (reads (getA PUSH_TOKEN_KEY)) (\<lambda>_. ret None)"

definition removeStoredPushToken :: "(string \<Rightarrow> ('w, unit) io) \<Rightarrow> ('w, unit) io" where
  "removeStoredPushToken removeA = try_catch (removeA PUSH_TOKEN_KEY) (\<lambda>_. ret ())"

definition getHasDismissedNotificationPrompt :: "(string \<Rightarrow> 'w \<Rightarrow> string option res) \<Rightarrow> ('w, bool) io" where
  "getHasDismissedNotificationPrompt getA = try_catch
     (bnd (reads (getA NOTIFICATION_PROMPT_DISMISSED_KEY)) (\<lambda>v. ret (v = Some ''true''))) (\<lambda>_. ret False)"

definition markNotificationPromptDismissed :: "(string \<Rightarrow> string \<Rightarrow> ('w, unit) io) \<Rightarrow> ('w, unit) io" where
  "markNotificationPromptDismissed setA = try_catch (setA NOTIFICATION_PROMPT_DISMISSED_KEY ''true'') (\<lambda>_. ret ())"

text \<open>
  \<open>Promise.all\<close> of the two reads: the second swallows its own failure, so the result is that of running
  one after the other.
\<close>

definition shouldShowNotificationConsentPrompt ::
  "phone \<Rightarrow> 'w push_api \<Rightarrow> (string \<Rightarrow> 'w \<Rightarrow> string option res) \<Rightarrow> ('w, bool) io" where
  "shouldShowNotificationConsentPrompt ph P getA =
     (if ph_OS ph = ''web'' \<or> \<not> ph_isDevice ph then ret False
      else try_catch
        (bnd (getPermissionsAsync P) (\<lambda>current.
           bnd (getHasDismissedNotificationPrompt getA) (\<lambda>dismissed.
             ret (pm_status current = UNDETERMINED \<and> \<not> dismissed))))
        (\<lambda>_. ret False))"

section \<open>Permission and registration\<close>

record register_body =
  rb_token :: string
  rb_platform :: string
  rb_appId :: string

definition sendDeviceTokenToBackend ::
  "phone \<Rightarrow> (register_body request \<Rightarrow> ('w, 'j response) io) \<Rightarrow> string \<Rightarrow> string \<Rightarrow> ('w, bool) io" where
  "sendDeviceTokenToBackend ph api API_BASE token =
     (if token = [] then ret False
      else try_catch
        (bnd (api (send_rq (API_BASE @ ''/api/notifications/register'') ''POST''
            \<lparr>rb_token = token, rb_platform = ph_OS ph,
             rb_appId = or_else (ph_manifest_slug ph) (or_else (ph_config_slug ph) ''ZAPS'')\<rparr>)) (\<lambda>r. ret (ok r)))
        (\<lambda>_. ret False))"

definition requestNotificationPermissionsAsync :: "'w push_api \<Rightarrow> ('w, PermissionStatus) io" where
  "requestNotificationPermissionsAsync P = try_catch
     (bnd (getPermissionsAsync P) (\<lambda>current.
        if pm_granted current \<or> pm_ios current = PROVISIONAL P then ret (pm_status current)
        else bnd (requestPermissionsAsync P) (\<lambda>permission. ret (pm_status permission))))
     (\<lambda>_. ret UNDETERMINED)"

fun token_of_response :: "push_token \<Rightarrow> string" where
  "token_of_response (Plain t) = t"
| "token_of_response (Wrapped t) = t"

definition permission_for :: "'w push_api \<Rightarrow> bool \<Rightarrow> ('w, PermissionStatus) io" where
  "permission_for P requestIfUndetermined =
     (if requestIfUndetermined then requestNotificationPermissionsAsync P
      else bnd (getPermissionsAsync P) (\<lambda>p. ret (pm_status p)))"

definition registerForPushNotificationsAsync ::
  "phone \<Rightarrow> 'w push_api \<Rightarrow> (string \<Rightarrow> string \<Rightarrow> ('w, unit) io) \<Rightarrow> (register_body request \<Rightarrow> ('w, 'j response) io) \<Rightarrow>
   string \<Rightarrow> bool \<Rightarrow> ('w, string option) io" where
  "registerForPushNotificationsAsync ph P setA api API_BASE requestIfUndetermined =
     (if \<not> ph_isDevice ph then ret None
      else bnd (permission_for P requestIfUndetermined) (\<lambda>st.
        if st \<noteq> GRANTED then ret None
        else try_catch
          (bnd (getExpoPushTokenAsync P) (\<lambda>tokenResponse.
             let token = token_of_response tokenResponse in
             if token = [] then ret None
             else bnd (setA PUSH_TOKEN_KEY token) (\<lambda>_.
               bnd (sendDeviceTokenToBackend ph api API_BASE token) (\<lambda>_. ret (Some token)))))
          (\<lambda>_. ret None)))"

section \<open>Links\<close>

text \<open>The \<open>data\<close> of a notification: each field \<open>None\<close> when it is no string.\<close>

record notification_data =
  nd_url :: "string option"
  nd_target :: "string option"
  nd_transactionId :: "string option"
  nd_paymentId :: "string option"

definition getNotificationDeepLink :: "notification_data option \<Rightarrow> string option" where
  "getNotificationDeepLink data = (case data of None \<Rightarrow> None | Some d \<Rightarrow>
     if truthy (nd_url d) then nd_url d
     else if nd_target d = Some ''transaction'' \<and> nd_transactionId d \<noteq> None
     then Some (''/transaction/'' @ the (nd_transactionId d))
     else if nd_target d = Some ''payment'' \<and> nd_paymentId d \<noteq> None
     then Some (''/transaction/'' @ the (nd_paymentId d))
     else if nd_target d = Some ''merchantPayment'' then Some ''/merchant/payment-received''
     else if nd_target d = Some ''home'' then Some ''/(personal)/home''
     else None)"

text \<open>What a press on a notification does: \<open>push\<close> is \<open>router.push\<close>, \<open>openURL\<close> that of \<open>expo-linking\<close>.\<close>

definition handleNotificationResponse ::
  "(string \<Rightarrow> ('w, unit) io) \<Rightarrow> (string \<Rightarrow> ('w, unit) io) \<Rightarrow> notification_data option \<Rightarrow> ('w, unit) io" where
  "handleNotificationResponse push openURL data = try_catch
     (let deepLink = getNotificationDeepLink data in
      if truthy deepLink then push (the deepLink)
      else case data of None \<Rightarrow> push ''/(personal)/home'' | Some d \<Rightarrow>
        if nd_url d \<noteq> None \<and> startsWith (the (nd_url d)) ''http'' then openURL (the (nd_url d))
        else if nd_transactionId d \<noteq> None then push (''/transaction/'' @ the (nd_transactionId d))
        else push ''/(personal)/home'')
     (\<lambda>_. ret ())"

section \<open>The preferences hook and the soft ask\<close>

text \<open>
  State of a component next to the world: \<open>outside m\<close> runs in the world, \<open>sets f\<close> is a call of setters.
  \<open>finally m f\<close> is \<open>try { m } finally { f }\<close> for an asynchronous \<open>f\<close>.
\<close>

definition outside :: "('w, 'a) io \<Rightarrow> ('h \<times> 'w, 'a) io" where
  "outside m = (\<lambda>(h, w). case m w of (r, w') \<Rightarrow> (r, (h, w')))"

definition sets :: "('h \<Rightarrow> 'h) \<Rightarrow> ('h \<times> 'w, unit) io" where
  "sets f = modifies (\<lambda>(h, w). (f h, w))"

definition finally_do :: "('w, 'a) io \<Rightarrow> ('w, unit) io \<Rightarrow> ('w, 'a) io" where
  "finally_do m f = (\<lambda>w. case m w of (r, w1) \<Rightarrow> (case f w1 of (Throw e, w2) \<Rightarrow> (Throw e, w2) | (Ret _, w2) \<Rightarrow> (r, w2)))"

record notification_prefs =
  np_enabled :: bool
  np_permissionStatus :: PermissionStatus
  np_loading :: bool

definition prefs_mounted :: notification_prefs where
  "prefs_mounted = \<lparr>np_enabled = True, np_permissionStatus = UNDETERMINED, np_loading = True\<rparr>"

definition loadPreferences ::
  "'w push_api \<Rightarrow> (string \<Rightarrow> 'w \<Rightarrow> string option res) \<Rightarrow> (notification_prefs \<times> 'w, unit) io" where
  "loadPreferences P getA =
     bnd (outside (getStoredNotificationPreference getA)) (\<lambda>v.
       bnd (outside (getPermissionsAsync P)) (\<lambda>current.
         sets (\<lambda>h. h\<lparr>np_enabled := v, np_permissionStatus := pm_status current, np_loading := False\<rparr>)))"

definition toggleNotifications ::
  "phone \<Rightarrow> 'w push_api \<Rightarrow> (string \<Rightarrow> string \<Rightarrow> ('w, unit) io) \<Rightarrow> (string \<Rightarrow> ('w, unit) io) \<Rightarrow>
   (register_body request \<Rightarrow> ('w, 'j response) io) \<Rightarrow> string \<Rightarrow> bool \<Rightarrow> (notification_prefs \<times> 'w, unit) io" where
  "toggleNotifications ph P setA removeA api API_BASE value =
     bnd (outside (saveNotificationPreference setA value)) (\<lambda>_.
     bnd (sets (\<lambda>h. h\<lparr>np_enabled := value\<rparr>)) (\<lambda>_.
       if value then
         bnd (outside (requestNotificationPermissionsAsync P)) (\<lambda>st.
         bnd (sets (\<lambda>h. h\<lparr>np_permissionStatus := st\<rparr>)) (\<lambda>_.
           if st = GRANTED
           then bnd (outside (registerForPushNotificationsAsync ph P setA api API_BASE True)) (\<lambda>_. ret ())
           else if st = DENIED then outside (openSettings P)
           else ret ()))
       else
         bnd (outside (removeStoredPushToken removeA)) (\<lambda>_.
         bnd (outside (getPermissionsAsync P)) (\<lambda>current.
           sets (\<lambda>h. h\<lparr>np_permissionStatus := pm_status current\<rparr>)))))"

text \<open>The banner of the home screen: whether it shows, and whether \<open>Enable\<close> is under way.\<close>

record soft_ask =
  notifPromptVisible :: bool
  notifRequesting :: bool

definition handleEnableNotifications ::
  "phone \<Rightarrow> 'w push_api \<Rightarrow> (string \<Rightarrow> string \<Rightarrow> ('w, unit) io) \<Rightarrow> (register_body request \<Rightarrow> ('w, 'j response) io) \<Rightarrow>
   string \<Rightarrow> (soft_ask \<times> 'w, unit) io" where
  "handleEnableNotifications ph P setA api API_BASE =
     bnd (sets (\<lambda>h. h\<lparr>notifRequesting := True\<rparr>)) (\<lambda>_.
       finally_do
         (bnd (outside (requestNotificationPermissionsAsync P)) (\<lambda>st.
            if st = GRANTED
            then bnd (outside (saveNotificationPreference setA True)) (\<lambda>_.
              bnd (outside (registerForPushNotificationsAsync ph P setA api API_BASE True)) (\<lambda>_. ret ()))
            else ret ()))
         (bnd (outside (markNotificationPromptDismissed setA)) (\<lambda>_.
            sets (\<lambda>h. h\<lparr>notifRequesting := False, notifPromptVisible := False\<rparr>))))"

definition handleDismissNotifPrompt :: "(string \<Rightarrow> string \<Rightarrow> ('w, unit) io) \<Rightarrow> (soft_ask \<times> 'w, unit) io" where
  "handleDismissNotifPrompt setA =
     bnd (outside (markNotificationPromptDismissed setA)) (\<lambda>_. sets (\<lambda>h. h\<lparr>notifPromptVisible := False\<rparr>))"

section \<open>What the code relies on\<close>

text \<open>
  Neither the package nor a request touches the store, and a store that works (\<open>works\<close>: its writes are not
  rejected) goes on working.
\<close>

locale push_env = kv_store getA setA removeA
  for getA :: "string \<Rightarrow> 'w \<Rightarrow> string option res"
    and setA :: "string \<Rightarrow> string \<Rightarrow> ('w, unit) io"
    and removeA :: "string \<Rightarrow> ('w, unit) io" +
  fixes P :: "'w push_api" and api :: "register_body request \<Rightarrow> ('w, 'j response) io" and works :: "'w \<Rightarrow> bool"
  assumes package_frame: "getA k (snd (getPermissionsAsync P w)) = getA k w"
      "getA k (snd (requestPermissionsAsync P w)) = getA k w"
      "getA k (snd (getExpoPushTokenAsync P w)) = getA k w"
    and api_frame: "getA k (snd (api rq w)) = getA k w"
    and works_set: "works w \<Longrightarrow> is_Ret (fst (setA k v w))"
    and works_on: "works w \<Longrightarrow> works (snd (setA k v w))" "works w \<Longrightarrow> works (snd (getPermissionsAsync P w))"
      "works w \<Longrightarrow> works (snd (requestPermissionsAsync P w))" "works w \<Longrightarrow> works (snd (getExpoPushTokenAsync P w))"
      "works w \<Longrightarrow> works (snd (api rq w))"
begin

lemma works_bnd: "works w \<Longrightarrow> (\<And>w. works w \<Longrightarrow> works (snd (m w))) \<Longrightarrow> (\<And>a w. works w \<Longrightarrow> works (snd (f a w)))
    \<Longrightarrow> works (snd (bnd m f w))"
  by (simp add: bnd_apply split: prod.split res.split) (metis snd_conv)

lemma works_try: "works w \<Longrightarrow> (\<And>w. works w \<Longrightarrow> works (snd (m w))) \<Longrightarrow> (\<And>e w. works w \<Longrightarrow> works (snd (h e w)))
    \<Longrightarrow> works (snd (try_catch m h w))"
  by (simp add: try_catch_apply split: prod.split res.split) (metis snd_conv)

lemma works_request: "works w \<Longrightarrow> works (snd (requestNotificationPermissionsAsync P w))"
  unfolding requestNotificationPermissionsAsync_def
  by (intro works_try works_bnd) (auto intro: works_bnd works_on)

lemma works_register: "works w \<Longrightarrow> works (snd (registerForPushNotificationsAsync ph P setA api B ask w))"
  unfolding registerForPushNotificationsAsync_def permission_for_def sendDeviceTokenToBackend_def Let_def
  by (auto intro!: works_bnd works_try works_on works_request simp del: bnd_Ret try_catch_Ret)

lemma works_save: "works w \<Longrightarrow> works (snd (saveNotificationPreference setA v w))"
  unfolding saveNotificationPreference_def by (auto intro!: works_try works_on)

lemma request_frame: "getA k (snd (requestNotificationPermissionsAsync P w)) = getA k w"
  using package_frame[of k w] package_frame(2)[of k "snd (getPermissionsAsync P w)"]
  by (auto simp: requestNotificationPermissionsAsync_def try_catch_apply bnd_apply split: prod.splits res.splits)

lemma request_never_fails: "is_Ret (fst (requestNotificationPermissionsAsync P w))"
  unfolding requestNotificationPermissionsAsync_def by (rule try_catch_never_throws) simp

lemma send_frame: "getA k (snd (sendDeviceTokenToBackend ph api B tok w)) = getA k w"
  using api_frame[of k _ w]
  by (auto simp: sendDeviceTokenToBackend_def try_catch_apply bnd_apply split: prod.splits res.splits) (metis snd_conv)+

lemma send_never_fails: "is_Ret (fst (sendDeviceTokenToBackend ph api B tok w))"
  by (simp add: sendDeviceTokenToBackend_def try_catch_never_throws)

text \<open>A registration that gives a token has stored it, and touched nothing else in the store.\<close>

lemma register_stores:
  assumes "registerForPushNotificationsAsync ph P setA api B ask w = (r, w')"
  shows "(case r of Ret (Some tok) \<Rightarrow> tok \<noteq> [] \<and> getA PUSH_TOKEN_KEY w' = Ret (Some tok)
      | _ \<Rightarrow> getA PUSH_TOKEN_KEY w' = getA PUSH_TOKEN_KEY w)
    \<and> (\<forall>k. k \<noteq> PUSH_TOKEN_KEY \<longrightarrow> getA k w' = getA k w)"
proof -
  obtain s w1 where s: "permission_for P ask w = (s, w1)" by fastforce
  have w1: "getA k w1 = getA k w" for k
    using s request_frame[of k w] package_frame(1)[of k w] by (auto simp: permission_for_def bnd_apply split: if_splits prod.splits res.splits)
  obtain t w2 where t: "getExpoPushTokenAsync P w1 = (t, w2)" by fastforce
  have w2: "getA k w2 = getA k w" for k using package_frame(3)[of k w1] t w1 by simp
  note run = assms[unfolded registerForPushNotificationsAsync_def]
  show ?thesis
  proof (cases "ph_isDevice ph \<and> s = Ret GRANTED \<and> is_Ret t")
    case False
    then show ?thesis using run s t w1 w2
      by (auto simp: bnd_apply try_catch_apply split: if_splits res.splits)
  next
    case True
    then obtain a where a: "t = Ret a" by (cases t) auto
    let ?tok = "token_of_response a"
    have t': "getExpoPushTokenAsync P w1 = (Ret a, w2)" using t a by simp
    have s': "permission_for P ask w = (Ret GRANTED, w1)" using s True by simp
    obtain u v where u: "setA PUSH_TOKEN_KEY ?tok w2 = (u, v)" by fastforce
    obtain b where b: "sendDeviceTokenToBackend ph api B ?tok v = (Ret b, snd (sendDeviceTokenToBackend ph api B ?tok v))"
      using send_never_fails by (metis is_Ret.elims(2) prod.collapse)
    show ?thesis
    proof (cases "?tok = [] \<or> \<not> is_Ret u")
      case True
      then have "r = Ret None" "w' = w2 \<or> (\<exists>e. u = Throw e) \<and> w' = v"
        using run \<open>ph_isDevice ph \<and> s = Ret GRANTED \<and> is_Ret t\<close> s' t' u
        by (cases u; auto simp: try_catch_apply Let_def split: if_splits)+
      then show ?thesis using w2 u get_set_fail by auto
    next
      case False
      then obtain x where x: "setA PUSH_TOKEN_KEY ?tok w2 = (Ret x, v)" using u by (cases u) auto
      have "r = Ret (Some ?tok)" "w' = snd (sendDeviceTokenToBackend ph api B ?tok v)"
        using run True s' t' x b False by (simp_all add: try_catch_apply Let_def)
      then show ?thesis using False get_set[OF x] get_set_other[OF x] w2 by (simp add: send_frame)
    qed
  qed
qed

lemma marked:
  assumes "is_Ret (fst (setA NOTIFICATION_PROMPT_DISMISSED_KEY ''true'' w))"
  shows "markNotificationPromptDismissed setA w = (Ret (), snd (setA NOTIFICATION_PROMPT_DISMISSED_KEY ''true'' w))
    \<and> getA NOTIFICATION_PROMPT_DISMISSED_KEY (snd (setA NOTIFICATION_PROMPT_DISMISSED_KEY ''true'' w)) = Ret (Some ''true'')"
  using assms get_set
  by (cases "setA NOTIFICATION_PROMPT_DISMISSED_KEY ''true'' w"; cases "fst (setA NOTIFICATION_PROMPT_DISMISSED_KEY ''true'' w)")
     (auto simp: markNotificationPromptDismissed_def)

lemma dismissed_hidden:
  assumes "getA NOTIFICATION_PROMPT_DISMISSED_KEY w = Ret (Some ''true'')"
  shows "fst (shouldShowNotificationConsentPrompt ph P getA w) = Ret False"
proof (cases "getPermissionsAsync P w")
  case (Pair r w1)
  then have "getA NOTIFICATION_PROMPT_DISMISSED_KEY w1 = Ret (Some ''true'')"
    using package_frame(1)[of NOTIFICATION_PROMPT_DISMISSED_KEY w] assms by simp
  then show ?thesis using Pair
    by (cases r) (auto simp: shouldShowNotificationConsentPrompt_def getHasDismissedNotificationPrompt_def io_simps)
qed

text \<open>Either button of the banner takes it away for good.\<close>

lemma answered_once:
  assumes "works w"
  shows "case handleDismissNotifPrompt setA (h, w) of (_, h', w') \<Rightarrow>
     \<not> notifPromptVisible h' \<and> getA NOTIFICATION_PROMPT_DISMISSED_KEY w' = Ret (Some ''true'')"
  using marked[OF works_set[OF assms]] by (auto simp: handleDismissNotifPrompt_def outside_def sets_def bnd_apply)

lemma enabled_once:
  assumes "works w"
  shows "case handleEnableNotifications ph P setA api B (h, w) of (_, h', w') \<Rightarrow>
     \<not> notifPromptVisible h' \<and> \<not> notifRequesting h' \<and> getA NOTIFICATION_PROMPT_DISMISSED_KEY w' = Ret (Some ''true'')"
proof -
  let ?attempt = "bnd (outside (requestNotificationPermissionsAsync P)) (\<lambda>st. if st = GRANTED
      then bnd (outside (saveNotificationPreference setA True)) (\<lambda>_.
        bnd (outside (registerForPushNotificationsAsync ph P setA api B True)) (\<lambda>_. ret ())) else ret ())"
  obtain r h1 w1 where run: "?attempt (h\<lparr>notifRequesting := True\<rparr>, w) = (r, h1, w1)" by (metis prod_cases3)
  have "works w1"
    using run works_request[OF assms] works_save works_register
    by (auto simp: outside_def bnd_apply split: prod.splits res.splits if_splits) (metis snd_conv)+
  from marked[OF works_set[OF this]] show ?thesis
    using run by (auto simp: handleEnableNotifications_def finally_do_def sets_def bnd_apply[of "modifies _"] outside_def[of "markNotificationPromptDismissed _"]
        bnd_apply[of "outside (markNotificationPromptDismissed _)"])
qed

end

text \<open>A phone whose package answers the same whenever it is asked.\<close>

definition dev_push :: "permission \<Rightarrow> permission \<Rightarrow> push_token \<Rightarrow> ('v, 'b, 'j) device push_api" where
  "dev_push now_is then_is tok = \<lparr>getPermissionsAsync = ret now_is, requestPermissionsAsync = ret then_is,
     getExpoPushTokenAsync = ret tok, setNotificationCategoryAsync = (\<lambda>_ _. ret ()), openSettings = ret (), PROVISIONAL = None\<rparr>"

definition dev_api :: "'b request \<Rightarrow> (('v, 'b, 'j) device, 'j response) io" where
  "dev_api = apiFetch dev_getSec dev_removeSec dev_fetch None"

lemma dev_api_store: "dev_getItem k (snd (dev_api rq d)) = dev_getItem k d"
  by (auto simp: dev_api_def apiFetch_def getSessionToken_def clearSessionToken_def try_catch_apply bnd_apply dev_defs
      split: res.splits prod.splits list.splits if_splits)

lemma dev_api_works: "dev_kv_broken (snd (dev_api rq d)) = dev_kv_broken d"
  by (auto simp: dev_api_def apiFetch_def getSessionToken_def clearSessionToken_def try_catch_apply bnd_apply dev_defs
      split: res.splits prod.splits list.splits if_splits)

interpretation dev_push: push_env dev_getItem dev_setItem dev_removeItem "dev_push p q tok" dev_api
    "\<lambda>d. \<not> dev_kv_broken d" for p q tok
  by unfold_locales (auto simp: dev_push_def dev_api_store dev_api_works dev_setItem_def)

section \<open>Properties\<close>

text \<open>
  A registration either stores the token it returns, or leaves the stored token as it was; nothing else in
  the store changes, whatever is permitted and whatever the backend answers.
\<close>

theorem registration_stores_token:
  "case registerForPushNotificationsAsync ph (dev_push p q tok) dev_setItem dev_api B ask d of (r, d') \<Rightarrow>
     (case r of Ret (Some t) \<Rightarrow> t \<noteq> [] \<and> dev_getItem PUSH_TOKEN_KEY d' = Ret (Some t)
      | _ \<Rightarrow> dev_getItem PUSH_TOKEN_KEY d' = dev_getItem PUSH_TOKEN_KEY d)
     \<and> (\<forall>k. k \<noteq> PUSH_TOKEN_KEY \<longrightarrow> dev_getItem k d' = dev_getItem k d)"
  using dev_push.register_stores[of ph p q tok B ask d] by (auto split: prod.split)

text \<open>The silent registration of the app's start never opens the system's dialog: it does not depend on it.\<close>

theorem silent_registration_never_asks:
  "registerForPushNotificationsAsync ph (P\<lparr>requestPermissionsAsync := dialog\<rparr>) setA api B False
    = registerForPushNotificationsAsync ph P setA api B False"
  by (simp add: registerForPushNotificationsAsync_def permission_for_def cong: if_cong)

text \<open>The user is asked once: after either button of the banner, in any later state of the store, it is not shown again.\<close>

theorem asked_once:
  fixes d d' later :: "(string, register_body, 'j) device"
  assumes "\<not> dev_kv_broken d"
    and "later = snd (snd ((if enable then handleEnableNotifications ph (dev_push p q tok) dev_setItem dev_api B
        else handleDismissNotifPrompt dev_setItem) (h, d)))"
    and "dev_getItem NOTIFICATION_PROMPT_DISMISSED_KEY d' = dev_getItem NOTIFICATION_PROMPT_DISMISSED_KEY later"
  shows "fst (shouldShowNotificationConsentPrompt ph (dev_push p' q' tok') dev_getItem d') = Ret False"
proof -
  have "dev_getItem NOTIFICATION_PROMPT_DISMISSED_KEY later = Ret (Some ''true'')"
    using assms(2) dev_push.enabled_once[OF assms(1), of ph p q tok B h] dev_push.answered_once[OF assms(1), of h]
    by (auto split: prod.splits if_splits)
  with assms(3) show ?thesis by (intro dev_push.dismissed_hidden) simp
qed

text \<open>A link never leaves the app: the branch that opens a web address in the browser is not reached, and the address goes to the router.\<close>

theorem web_link_goes_to_router:
  "handleNotificationResponse push openURL data = handleNotificationResponse push openURL' data
   \<and> (truthy (Option.bind data nd_url) \<longrightarrow>
        handleNotificationResponse push openURL data = try_catch (push (the (Option.bind data nd_url))) (\<lambda>_. ret ()))"
proof (cases data)
  case None
  then show ?thesis by (simp add: handleNotificationResponse_def getNotificationDeepLink_def)
next
  case (Some d)
  show ?thesis
  proof (cases "truthy (nd_url d)")
    case True
    then show ?thesis using Some by (simp add: handleNotificationResponse_def getNotificationDeepLink_def Let_def)
  next
    case False
    then have n: "(nd_url d \<noteq> None \<and> startsWith (the (nd_url d)) ''http'') = False"
      by (cases "nd_url d") (auto simp: startsWith_def)
    show ?thesis unfolding handleNotificationResponse_def Some option.case n if_False Let_def using False by simp
  qed
qed

text \<open>
  Switching notifications off removes the token from the phone and tells the backend nothing: not a request
  is made, so that the backend goes on sending.
\<close>

theorem switched_off_not_unregistered:
  "case toggleNotifications ph (dev_push p q tok) dev_setItem dev_removeItem dev_api B False (h, d) of (_, _, d') \<Rightarrow>
     dev_log d' = dev_log d \<and> (\<not> dev_kv_broken d \<longrightarrow> dev_getItem PUSH_TOKEN_KEY d' = Ret None)"
  by (auto simp: toggleNotifications_def outside_def sets_def bnd_apply try_catch_apply saveNotificationPreference_def
      removeStoredPushToken_def dev_push_def dev_setItem_def dev_removeItem_def dev_getItem_def PUSH_TOKEN_KEY_def NOTIFICATION_PREFERENCE_KEY_def)

text \<open>
  Where the package has nothing under \<open>PermissionStatus.PROVISIONAL\<close> and a platform reports no status of its
  own, both sides of the comparison are \<open>undefined\<close>: the user is never asked, and what has not been decided
  stays undecided.
\<close>

theorem undefined_counts_as_provisional:
  "pm_ios p = None \<Longrightarrow> requestNotificationPermissionsAsync (dev_push p q tok) d = (Ret (pm_status p), d)"
  by (simp add: requestNotificationPermissionsAsync_def dev_push_def io_simps)

text \<open>A permission that cannot be read leaves the preferences screen loading for good.\<close>

theorem unreadable_permission_keeps_loading:
  assumes "getPermissionsAsync P (snd (getStoredNotificationPreference getA w)) = (Throw e, w')"
  shows "loadPreferences P getA (prefs_mounted, w) = (Throw e, (prefs_mounted, w')) \<and> np_loading prefs_mounted"
proof -
  have "is_Ret (fst (getStoredNotificationPreference getA w))"
    unfolding getStoredNotificationPreference_def by (rule try_catch_never_throws) simp
  then obtain v w1 where v: "getStoredNotificationPreference getA w = (Ret v, w1)"
    by (cases "getStoredNotificationPreference getA w"; cases "fst (getStoredNotificationPreference getA w)") auto
  with assms show ?thesis by (simp add: loadPreferences_def outside_def bnd_apply prefs_mounted_def)
qed

definition undecided :: permission where
  "undecided = \<lparr>pm_status = UNDETERMINED, pm_granted = False, pm_ios = Some 0\<rparr>"

definition asking_device :: "(string, register_body, unit) device" where
  "asking_device = blank_device\<lparr>dev_net := [Ret \<lparr>status = 200, statusText = [], json = Ret (), text_of = Ret []\<rparr>]\<rparr>"

theorem asked_once_witness:
  "fst (shouldShowNotificationConsentPrompt \<lparr>ph_OS = ''ios'', ph_isDevice = True, ph_manifest_slug = None, ph_config_slug = None\<rparr>
      (dev_push undecided undecided (Plain ''t'')) dev_getItem
      (snd (snd (handleDismissNotifPrompt dev_setItem (\<lparr>notifPromptVisible = True, notifRequesting = False\<rparr>, asking_device))))) = Ret False"
  by (rule asked_once[OF _ refl refl, where enable = False, simplified]) (simp add: asking_device_def blank_device_def)

end
