(* ===== verification/App_Shell.thy ===== *)
theory App_Shell
  imports Notifications Deep_Links "HOL-Library.Sublist"
begin

text \<open>
  What surrounds every screen of the app: \<open>app/_layout.tsx\<close> (minimum version, start of notifications, incoming
  links), \<open>hooks/useNetworkStatus.ts\<close>, \<open>hooks/useDebounce.ts\<close>, \<open>components/Toast.tsx\<close> and
  \<open>contexts/ThemeProvider.tsx\<close>.  Main results: versions are compared by a total preorder, the lexicographic
  one; the app is blocked exactly below the required version; its start never opens the permission dialog;
  what the offline notice, the toasts and the theme do when events meet.
\<close>

section \<open>Versions\<close>

definition version_parts :: "string \<Rightarrow> js_num list" where
  "version_parts v = map (\<lambda>part. num_or (parseInt part) (Fin 0)) (split (CHR ''.'') v)"

text \<open>The loop over the longer of the two lists; a missing part is 0.\<close>

fun compare_parts :: "js_num list \<Rightarrow> js_num list \<Rightarrow> int" where
  "compare_parts [] [] = 0"
| "compare_parts (a # as) [] = (if num_less a (Fin 0) then -1 else if num_less (Fin 0) a then 1 else compare_parts as [])"
| "compare_parts [] (b # bs) = (if num_less (Fin 0) b then -1 else if num_less b (Fin 0) then 1 else compare_parts [] bs)"
| "compare_parts (a # as) (b # bs) = (if num_less a b then -1 else if num_less b a then 1 else compare_parts as bs)"

definition compareVersions :: "string \<Rightarrow> string \<Rightarrow> int" where
  "compareVersions installed required = compare_parts (version_parts installed) (version_parts required)"

record AppConfigResponse =
  minimum_required_version :: "string option"
  min_version :: "string option"
  ios_store_url :: "string option"
  android_store_url :: "string option"

definition IOS_STORE_URL :: string where "IOS_STORE_URL = ''https://apps.apple.com/app/zaps''"
definition ANDROID_STORE_URL :: string where
  "ANDROID_STORE_URL = ''https://play.google.com/store/apps/details?id=app.zaps''"

text \<open>\<open>a ?? b\<close> for an optional string.\<close>

definition coalesce :: "'a option \<Rightarrow> 'a option \<Rightarrow> 'a option" where
  "coalesce a b = (case a of None \<Rightarrow> b | Some _ \<Rightarrow> a)"

definition required_version :: "AppConfigResponse \<Rightarrow> string" where
  "required_version c = (case coalesce (minimum_required_version c) (min_version c) of None \<Rightarrow> [] | Some v \<Rightarrow> v)"

definition store_url :: "string \<Rightarrow> AppConfigResponse \<Rightarrow> string" where
  "store_url OS c = (if OS = ''ios'' then or_else (ios_store_url c) IOS_STORE_URL else or_else (android_store_url c) ANDROID_STORE_URL)"

text \<open>\<open>checkMinimumVersion\<close>: the store to send the user to when the app is to be blocked.\<close>

definition checkMinimumVersion ::
  "('b request \<Rightarrow> ('w, AppConfigResponse option response) io) \<Rightarrow> string \<Rightarrow> string \<Rightarrow> string option \<Rightarrow> ('w, string option) io" where
  "checkMinimumVersion fetch API_BASE OS version = try_catch
     (bnd (fetch (get_rq (API_BASE @ ''/api/v1/config''))) (\<lambda>response.
        if \<not> ok response then ret None
        else bnd (reads (\<lambda>_. json response)) (\<lambda>config. case config of
            None \<Rightarrow> throw (Error ''Cannot read properties of null'')
          | Some c \<Rightarrow>
              let required = required_version c; installed = (case version of None \<Rightarrow> ''0.0.0'' | Some v \<Rightarrow> v) in
              if required = [] \<or> 0 \<le> compareVersions installed required then ret None
              else ret (Some (store_url OS c)))))
     (\<lambda>_. ret None)"

definition setupNotifications ::
  "phone \<Rightarrow> 'w push_api \<Rightarrow> (string \<Rightarrow> 'w \<Rightarrow> string option res) \<Rightarrow> (string \<Rightarrow> string \<Rightarrow> ('w, unit) io) \<Rightarrow>
   (register_body request \<Rightarrow> ('w, 'j response) io) \<Rightarrow> string \<Rightarrow> ('w, unit) io" where
  "setupNotifications ph P getA setA api API_BASE =
     bnd (initNotificationCategoriesAsync ph P) (\<lambda>_.
     bnd (getStoredNotificationPreference getA) (\<lambda>enabled.
       if enabled then bnd (registerForPushNotificationsAsync ph P setA api API_BASE False) (\<lambda>_. ret ())
       else ret ()))"

text \<open>The screen an incoming link opens, if any.\<close>

definition handleIncomingUrl :: "(string \<Rightarrow> ParsedURL res) \<Rightarrow> string option \<Rightarrow> string option res" where
  "handleIncomingUrl linking_parse link =
     (if \<not> truthy link then Ret None
      else case parseSdpClaimUrl linking_parse link of
          Throw e \<Rightarrow> Throw e
        | Ret (ClaimError _) \<Rightarrow> Ret None
        | Ret (ClaimToken t) \<Rightarrow> Ret (Some (''/claim/'' @ t)))"

section \<open>Versions are compared lexicographically\<close>

definition part :: "js_num list \<Rightarrow> nat \<Rightarrow> js_num" where
  "part xs i = (if i < length xs then xs ! i else Fin 0)"

text \<open>The first part that differs decides.\<close>

definition lex_less :: "(nat \<Rightarrow> js_num) \<Rightarrow> (nat \<Rightarrow> js_num) \<Rightarrow> bool" where
  "lex_less f g \<longleftrightarrow> (\<exists>k. (\<forall>j < k. f j = g j) \<and> num_less (f k) (g k))"

lemma num_less_total: "x \<noteq> NaN \<Longrightarrow> y \<noteq> NaN \<Longrightarrow> \<not> num_less x y \<Longrightarrow> \<not> num_less y x \<Longrightarrow> x = y"
  by (cases x; cases y) auto

lemma lex_lessI: "num_less (f k) (g k) \<Longrightarrow> (\<And>j. j < k \<Longrightarrow> f j = g j) \<Longrightarrow> lex_less f g"
  by (auto simp: lex_less_def)

lemma lex_less_cases:
  "lex_less f g \<longleftrightarrow> num_less (f 0) (g 0) \<or> f 0 = g 0 \<and> lex_less (\<lambda>i. f (Suc i)) (\<lambda>i. g (Suc i))" (is "?l \<longleftrightarrow> ?r")
proof
  assume ?l
  then obtain k where k: "\<And>j. j < k \<Longrightarrow> f j = g j" "num_less (f k) (g k)" by (auto simp: lex_less_def)
  show ?r
  proof (cases k)
    case (Suc m)
    then show ?thesis using k lex_lessI[of "\<lambda>i. f (Suc i)" m "\<lambda>i. g (Suc i)"] by simp
  qed (use k in simp)
next
  assume ?r
  then show ?l
  proof
    assume "num_less (f 0) (g 0)"
    then show ?thesis by (rule lex_lessI) simp
  next
    assume *: "f 0 = g 0 \<and> lex_less (\<lambda>i. f (Suc i)) (\<lambda>i. g (Suc i))"
    then obtain k where k: "\<And>j. j < k \<Longrightarrow> f (Suc j) = g (Suc j)" "num_less (f (Suc k)) (g (Suc k))" by (auto simp: lex_less_def)
    show ?thesis
    proof (rule lex_lessI[of f "Suc k" g, OF k(2)])
      fix j
      assume "j < Suc k"
      then show "f j = g j" using * k(1) by (cases j) auto
    qed
  qed
qed

lemma part_tail: "part (x # xs) 0 = x" "(\<lambda>i. part (x # xs) (Suc i)) = part xs" "part [] 0 = Fin 0" "(\<lambda>i. part [] (Suc i)) = part []"
  by (auto simp: part_def)

lemma lex_less_parts:
  "lex_less (part (a # as)) (part (b # bs)) \<longleftrightarrow> num_less a b \<or> a = b \<and> lex_less (part as) (part bs)"
  "lex_less (part (a # as)) (part []) \<longleftrightarrow> num_less a (Fin 0) \<or> a = Fin 0 \<and> lex_less (part as) (part [])"
  "lex_less (part []) (part (b # bs)) \<longleftrightarrow> num_less (Fin 0) b \<or> Fin 0 = b \<and> lex_less (part []) (part bs)"
  by (subst lex_less_cases, simp only: part_tail)+

lemma lex_less_refl: "\<not> lex_less f f"
  by (simp add: lex_less_def num_less_irrefl)

lemma lex_less_trans: "lex_less f g \<Longrightarrow> lex_less g h \<Longrightarrow> lex_less f h"
proof -
  assume "lex_less f g" "lex_less g h"
  then obtain k l where k: "\<forall>j < k. f j = g j" "num_less (f k) (g k)" and l: "\<forall>j < l. g j = h j" "num_less (g l) (h l)"
    by (auto simp: lex_less_def)
  show ?thesis
  proof (rule lex_lessI)
    show "num_less (f (min k l)) (h (min k l))"
      using k l num_less_trans by (cases k l rule: linorder_cases) (auto simp: min_def)
    show "\<And>j. j < min k l \<Longrightarrow> f j = h j" using k(1) l(1) by auto
  qed
qed

lemma lex_less_asym: "lex_less f g \<Longrightarrow> \<not> lex_less g f"
  using lex_less_trans lex_less_refl by blast

lemma compare_parts_lex:
  assumes "NaN \<notin> set xs" "NaN \<notin> set ys"
  shows "compare_parts xs ys = (if lex_less (part xs) (part ys) then -1 else if lex_less (part ys) (part xs) then 1 else 0)"
  using assms
proof (induction xs ys rule: compare_parts.induct)
  case 1
  then show ?case by (simp add: lex_less_refl)
next
  case (2 a as)
  have "a = Fin 0" if "\<not> num_less a (Fin 0)" "\<not> num_less (Fin 0) a"
    using num_less_total[of a "Fin 0"] that 2(2) by auto
  with 2 num_less_asym[of a "Fin 0"] num_less_irrefl[of a] show ?case by (auto simp: lex_less_parts)
next
  case (3 b bs)
  have "b = Fin 0" if "\<not> num_less b (Fin 0)" "\<not> num_less (Fin 0) b"
    using num_less_total[of b "Fin 0"] that 3(3) by auto
  with 3 num_less_asym[of b "Fin 0"] num_less_irrefl[of b] show ?case by (auto simp: lex_less_parts)
next
  case (4 a as b bs)
  have "a = b" if "\<not> num_less a b" "\<not> num_less b a" using num_less_total[of a b] that 4(2,3) by auto
  with 4 num_less_asym[of a b] num_less_irrefl[of a] show ?case by (auto simp: lex_less_parts)
qed

lemma version_parts_numbers: "NaN \<notin> set (version_parts v)"
  by (auto simp: version_parts_def num_or_def)

lemma compare_lex:
  "compareVersions v w = (if lex_less (part (version_parts v)) (part (version_parts w)) then -1
     else if lex_less (part (version_parts w)) (part (version_parts v)) then 1 else 0)"
  unfolding compareVersions_def by (rule compare_parts_lex) (rule version_parts_numbers)+

lemma lex_less_le_trans:
  assumes "\<And>i. f i \<noteq> NaN" "\<And>i. g i \<noteq> NaN" "\<And>i. h i \<noteq> NaN" "\<not> lex_less g f" "\<not> lex_less h g"
  shows "\<not> lex_less h f"
proof
  assume "lex_less h f"
  then obtain k where k: "\<forall>j < k. h j = f j" "num_less (h k) (f k)" by (auto simp: lex_less_def)
  show False
  proof (cases "\<exists>j \<le> k. g j \<noteq> f j")
    case True
    then obtain j where j: "j \<le> k" "g j \<noteq> f j" by blast
    obtain m where m: "g m \<noteq> f m" "m \<le> k" "\<forall>i < m. g i = f i"
    proof
      show "g (LEAST j. g j \<noteq> f j) \<noteq> f (LEAST j. g j \<noteq> f j)" by (rule LeastI) (rule j(2))
      show "(LEAST j. g j \<noteq> f j) \<le> k" using Least_le[of "\<lambda>j. g j \<noteq> f j", OF j(2)] j(1) by linarith
      show "\<forall>i < (LEAST j. g j \<noteq> f j). g i = f i" using not_less_Least by blast
    qed
    have "\<not> num_less (g m) (f m)" using lex_lessI[of g m f] m(3) assms(4) by blast
    then have "num_less (f m) (g m)" using m(1) num_less_total[OF assms(1,2)] by metis
    then have "num_less (h m) (g m)" using k m(2) num_less_trans by (cases "m = k") auto
    moreover have "\<forall>j < m. h j = g j" using m(2,3) k(1) by auto
    ultimately show False using assms(5) by (auto simp: lex_less_def)
  next
    case False
    then have "num_less (h k) (g k)" "\<And>j. j < k \<Longrightarrow> h j = g j" using k by auto
    from lex_lessI[of h k g, OF this] assms(5) show False by blast
  qed
qed

lemma part_number: "NaN \<notin> set xs \<Longrightarrow> part xs i \<noteq> NaN"
proof (cases "i < length xs")
  case True
  then have "xs ! i \<in> set xs" by simp
  moreover assume "NaN \<notin> set xs"
  ultimately show ?thesis using True by (metis part_def)
qed (simp add: part_def)

section \<open>Start of the app\<close>

text \<open>
  Comparing versions is a total preorder: a version equals itself, exchanging the sides changes the sign, and
  the order is transitive.
\<close>

theorem version_order:
  "compareVersions v v = 0 \<and> compareVersions w v = - compareVersions v w
   \<and> (compareVersions u v \<le> 0 \<and> compareVersions v w \<le> 0 \<longrightarrow> compareVersions u w \<le> 0)"
proof (intro conjI impI)
  let ?p = "\<lambda>v. part (version_parts v)"
  show "compareVersions v v = 0" by (simp add: compare_lex lex_less_refl)
  show "compareVersions w v = - compareVersions v w"
    using lex_less_asym[of "?p v" "?p w"] by (auto simp: compare_lex)
  assume "compareVersions u v \<le> 0 \<and> compareVersions v w \<le> 0"
  then have "\<not> lex_less (?p v) (?p u)" "\<not> lex_less (?p w) (?p v)"
    using lex_less_asym[of "?p v" "?p u"] lex_less_asym[of "?p w" "?p v"] by (auto simp: compare_lex split: if_splits)
  then have "\<not> lex_less (?p w) (?p u)"
    by (intro lex_less_le_trans[of "?p u" "?p v" "?p w"] part_number version_parts_numbers)
  then show "compareVersions u w \<le> 0" by (simp add: compare_lex)
qed

lemma some_versions:
  "version_parts ''1.2'' = [Fin 1, Fin 2]" "version_parts ''1.10'' = [Fin 1, Fin 10]" "version_parts ''2'' = [Fin 2]"
proof -
  have s: "show_int 1 = ''1''" "show_int 2 = ''2''" "show_int 10 = ''10''" by code_simp+
  show "version_parts ''1.2'' = [Fin 1, Fin 2]" "version_parts ''1.10'' = [Fin 1, Fin 10]" "version_parts ''2'' = [Fin 2]"
    using parseInt_show_nat[of 1] parseInt_show_nat[of 2] parseInt_show_nat[of 10]
    by (simp_all add: version_parts_def num_or_def s)
qed

theorem version_order_witness:
  "compareVersions ''1.2'' ''1.10'' \<le> 0 \<and> compareVersions ''1.2'' ''2'' \<le> 0"
proof -
  have "compareVersions ''1.2'' ''1.10'' = -1" "compareVersions ''1.10'' ''2'' = -1"
    by (simp_all add: compareVersions_def some_versions)
  then show ?thesis using version_order[of "''1.10''" "''2''" "''1.2''"] by simp
qed

text \<open>
  The app is blocked exactly when the backend answers with a required version that is above the installed
  one; a failing, unreadable or empty answer blocks nobody.
\<close>

theorem minimum_version_gate:
  "fst (checkMinimumVersion fetch API_BASE OS version w) =
     (case fst (fetch (get_rq (API_BASE @ ''/api/v1/config'')) w) of
        Ret r \<Rightarrow> if ok r \<and> (\<exists>c. json r = Ret (Some c) \<and> required_version c \<noteq> []
              \<and> compareVersions (case version of None \<Rightarrow> ''0.0.0'' | Some v \<Rightarrow> v) (required_version c) < 0)
          then (case json r of Ret (Some c) \<Rightarrow> Ret (Some (store_url OS c)) | _ \<Rightarrow> Ret None) else Ret None
      | Throw _ \<Rightarrow> Ret None)"
proof -
  obtain x w1 where f: "fetch (get_rq (API_BASE @ ''/api/v1/config'')) w = (x, w1)" by fastforce
  show ?thesis
  proof (cases x)
    case (Throw e)
    then show ?thesis by (simp add: checkMinimumVersion_def io_simps f)
  next
    case (Ret r)
    show ?thesis
    proof (cases "json r")
      case (Throw e)
      then show ?thesis by (simp add: checkMinimumVersion_def io_simps f Ret)
    next
      case r: (Ret c)
      show ?thesis by (cases c) (auto simp: checkMinimumVersion_def io_simps f Ret r Let_def)
    qed
  qed
qed

text \<open>Starting the app never opens the system's permission dialog: the start does not depend on it.\<close>

theorem start_never_asks:
  "setupNotifications ph (P\<lparr>requestPermissionsAsync := dialog\<rparr>) getA setA api B = setupNotifications ph P getA setA api B"
  by (simp add: setupNotifications_def registerForPushNotificationsAsync_def permission_for_def initNotificationCategoriesAsync_def cong: if_cong)

section \<open>The offline notice\<close>

datatype notice = Offline_warning | Online_again

text \<open>
  The effect, and its settling: its own \<open>setWasOffline\<close> is among its dependencies, so it runs again when the
  flag has changed.
\<close>

definition offline_effect :: "bool option \<Rightarrow> bool \<Rightarrow> bool \<times> notice list" where
  "offline_effect isConnected wasOffline =
     (if isConnected = Some False then (True, [Offline_warning])
      else if isConnected = Some True \<and> wasOffline then (False, [Online_again]) else (wasOffline, []))"

definition offline_settled :: "bool option \<Rightarrow> bool \<Rightarrow> bool \<times> notice list" where
  "offline_settled c was = (let (was1, n1) = offline_effect c was in
     if was1 = was then (was1, n1) else let (was2, n2) = offline_effect c was1 in (was2, n1 @ n2))"

record connectivity =
  cn_isConnected :: "bool option"
  cn_wasOffline :: bool
  cn_notices :: "notice list"

definition connectivity_mounted :: connectivity where
  "connectivity_mounted = \<lparr>cn_isConnected = None, cn_wasOffline = False, cn_notices = []\<rparr>"

text \<open>A report of the network; the effect runs only when the value has changed.\<close>

definition network_report :: "bool option \<Rightarrow> connectivity \<Rightarrow> connectivity" where
  "network_report c s = (if c = cn_isConnected s then s
     else case offline_settled c (cn_wasOffline s) of (was, n) \<Rightarrow>
       s\<lparr>cn_isConnected := c, cn_wasOffline := was, cn_notices := cn_notices s @ n\<rparr>)"

lemma offline_settled_cases:
  "offline_settled (Some False) w = (True, if w then [Offline_warning] else [Offline_warning, Offline_warning])"
  "offline_settled (Some True) w = (False, if w then [Online_again] else [])"
  "offline_settled None w = (w, [])"
  by (cases w; simp add: offline_settled_def offline_effect_def)+

text \<open>
  The flag is right after any reports: it is set when the latest report that says something says offline,
  and \<open>back online\<close> has been announced as often as the connection has returned after an outage.
\<close>

fun returns :: "bool \<Rightarrow> bool option list \<Rightarrow> nat" where
  "returns off [] = 0"
| "returns off (None # cs) = returns off cs"
| "returns off (Some True # cs) = (if off then 1 else 0) + returns False cs"
| "returns off (Some False # cs) = returns True cs"

fun outage :: "bool \<Rightarrow> bool option list \<Rightarrow> bool" where
  "outage off [] = off"
| "outage off (None # cs) = outage off cs"
| "outage off (Some b # cs) = outage (\<not> b) cs"

definition announced :: "connectivity \<Rightarrow> nat" where
  "announced s = length (filter (\<lambda>n. n = Online_again) (cn_notices s))"

lemma reports_run:
  "(cn_isConnected s = Some True \<longrightarrow> \<not> cn_wasOffline s) \<Longrightarrow> (cn_isConnected s = Some False \<longrightarrow> cn_wasOffline s) \<Longrightarrow>
   cn_wasOffline (fold network_report cs s) = outage (cn_wasOffline s) cs
   \<and> announced (fold network_report cs s) = announced s + returns (cn_wasOffline s) cs"
proof (induction cs arbitrary: s)
  case (Cons c cs)
  have n: "cn_wasOffline (network_report c s) = outage (cn_wasOffline s) [c]"
    "announced (network_report c s) = announced s + returns (cn_wasOffline s) [c]"
    "cn_isConnected (network_report c s) = Some True \<longrightarrow> \<not> cn_wasOffline (network_report c s)"
    "cn_isConnected (network_report c s) = Some False \<longrightarrow> cn_wasOffline (network_report c s)"
    using Cons.prems by (cases c; cases "the c"; auto simp: network_report_def offline_settled_cases announced_def)+
  from Cons.IH[OF n(3,4)] n(1,2) show ?case by (cases c; cases "the c") auto
qed simp

theorem outages_announced:
  "cn_wasOffline (fold network_report cs connectivity_mounted) = outage False cs
   \<and> announced (fold network_report cs connectivity_mounted) = returns False cs"
  using reports_run[of connectivity_mounted cs] by (simp add: connectivity_mounted_def announced_def)

text \<open>But one outage is warned of twice: the effect sets a flag it depends on, and runs again.\<close>

theorem outage_warned_twice:
  "cn_notices (network_report (Some False) connectivity_mounted) = [Offline_warning, Offline_warning]"
  by (simp add: network_report_def connectivity_mounted_def offline_settled_cases)

section \<open>Toasts\<close>

text \<open>A toast is known by the millisecond it was shown in.\<close>

record 'p toast =
  to_id :: string
  to_props :: 'p

definition showToast :: "int \<Rightarrow> 'p \<Rightarrow> 'p toast list \<Rightarrow> 'p toast list" where
  "showToast now_ms p ts = ts @ [\<lparr>to_id = show_int now_ms, to_props = p\<rparr>]"

definition removeToast :: "string \<Rightarrow> 'p toast list \<Rightarrow> 'p toast list" where
  "removeToast i ts = filter (\<lambda>t. to_id t \<noteq> i) ts"

text \<open>Two toasts of the same millisecond, such as the two offline warnings, go together when one of them is closed.\<close>

theorem same_millisecond_toasts:
  "removeToast (show_int m) (showToast m q (showToast m p ts)) = removeToast (show_int m) ts"
  by (simp add: removeToast_def showToast_def)

section \<open>The theme\<close>

datatype ThemePreference = Pref_system | Pref_light | Pref_dark | Pref_high_contrast

fun preference_text :: "ThemePreference \<Rightarrow> string" where
  "preference_text Pref_system = ''system''"
| "preference_text Pref_light = ''light''"
| "preference_text Pref_dark = ''dark''"
| "preference_text Pref_high_contrast = ''high-contrast''"

definition preference_of :: "string \<Rightarrow> ThemePreference option" where
  "preference_of raw = (if raw = ''light'' then Some Pref_light else if raw = ''dark'' then Some Pref_dark
     else if raw = ''high-contrast'' then Some Pref_high_contrast else if raw = ''system'' then Some Pref_system else None)"

datatype palette = Light | Dark | HighContrast

text \<open>The palette, \<open>isDark\<close> and \<open>isHighContrast\<close>.\<close>

fun resolveTheme :: "ThemePreference \<Rightarrow> bool \<Rightarrow> palette \<times> bool \<times> bool" where
  "resolveTheme Pref_light systemIsDark = (Light, False, False)"
| "resolveTheme Pref_dark systemIsDark = (Dark, True, False)"
| "resolveTheme Pref_high_contrast systemIsDark = (HighContrast, True, True)"
| "resolveTheme Pref_system systemIsDark = (if systemIsDark then (Dark, True, False) else (Light, False, False))"

text \<open>State: the preference, the stored text, and what the read of the stored text found, while it is under way.\<close>

record theme_state =
  tm_preference :: ThemePreference
  tm_stored :: "string option"
  tm_reading :: "string option option"

datatype theme_event = Restored bool | Set_preference ThemePreference bool

definition theme_mounted :: "string option \<Rightarrow> theme_state" where
  "theme_mounted v = \<lparr>tm_preference = Pref_system, tm_stored = v, tm_reading = Some v\<rparr>"

text \<open>\<open>True\<close>: the storage has done its part.\<close>

fun theme_step :: "theme_event \<Rightarrow> theme_state \<Rightarrow> theme_state" where
  "theme_step (Restored works) s = (case tm_reading s of None \<Rightarrow> s
     | Some raw \<Rightarrow> (case Option.bind raw preference_of of
           Some p \<Rightarrow> if works then s\<lparr>tm_preference := p\<rparr> else s | None \<Rightarrow> s)\<lparr>tm_reading := None\<rparr>)"
| "theme_step (Set_preference p works) s = s\<lparr>tm_preference := p, tm_stored := (if works then Some (preference_text p) else tm_stored s)\<rparr>"

lemma preference_roundtrip [simp]: "preference_of (preference_text p) = Some p"
  by (cases p) (simp_all add: preference_of_def)

text \<open>A preference set in one session is the one of the next: once it has been stored, a fresh mount restores it.\<close>

theorem preference_survives_restart:
  "tm_preference (theme_step (Restored True) (theme_mounted (tm_stored (theme_step (Set_preference p True) s)))) = p"
  by (simp add: theme_mounted_def)

text \<open>A choice made before the stored one has been read is undone on the screen, though not in the store.\<close>

theorem early_choice_undone:
  "fold theme_step [Set_preference Pref_dark True, Restored True] (theme_mounted (Some ''light''))
    = \<lparr>tm_preference = Pref_light, tm_stored = Some ''dark'', tm_reading = None\<rparr>"
  by (simp add: theme_mounted_def preference_of_def)

section \<open>Debounced calls\<close>

text \<open>The pending arguments, and the calls made so far.\<close>

type_synonym 'a debounced = "'a option \<times> 'a list"

datatype 'a debounce_event = Call 'a | Fire | Cancel

text \<open>Unmounting cancels, too.\<close>

fun debounce_step :: "'a debounce_event \<Rightarrow> 'a debounced \<Rightarrow> 'a debounced" where
  "debounce_step (Call a) (timer, made) = (Some a, made)"
| "debounce_step Fire (timer, made) = (case timer of None \<Rightarrow> (None, made) | Some a \<Rightarrow> (None, made @ [a]))"
| "debounce_step Cancel (timer, made) = (None, made)"

fun requested :: "'a debounce_event list \<Rightarrow> 'a list" where
  "requested [] = []"
| "requested (Call a # es) = a # requested es"
| "requested (e # es) = requested es"

lemma requested_append: "requested (es @ fs) = requested es @ requested fs"
  by (induction es rule: requested.induct) auto

text \<open>
  The calls made are some of those requested, in their order and each at most once, and after a burst of
  requests only the last one is made.
\<close>

theorem debounced_calls:
  "subseq (snd (fold debounce_step es (None, []))) (requested es)
   \<and> fold debounce_step (map Call (as @ [a]) @ [Fire]) (timer, made) = (None, made @ [a])"
proof
  define waiting :: "'a option \<Rightarrow> 'a list" where "waiting timer = (case timer of None \<Rightarrow> [] | Some a \<Rightarrow> [a])" for timer
  have less: "subseq (made @ waiting timer) past \<Longrightarrow> subseq made past" for made timer past
    by (rule subseq_order.order_trans[of made "made @ waiting timer" past]) (simp_all add: list_emb_prefix)
  have "subseq (made @ waiting timer) past \<Longrightarrow> subseq (snd (fold debounce_step es (timer, made))) (past @ requested es)"
    for timer made past
  proof (induction es arbitrary: timer made past)
    case Nil
    then show ?case using less by simp
  next
    case (Cons e es)
    show ?case
    proof (cases e)
      case (Call a)
      have "subseq (made @ waiting (Some a)) (past @ [a])"
        using list_emb_append_mono[OF less[OF Cons.prems], of "[a]" "[a]"] by (simp add: waiting_def)
      from Cons.IH[OF this] show ?thesis by (simp add: Call)
    next
      case Fire
      have "subseq ((made @ waiting timer) @ waiting None) past" using Cons.prems by (simp add: waiting_def)
      from Cons.IH[OF this] show ?thesis by (cases timer) (simp_all add: Fire waiting_def)
    next
      case Cancel
      have "subseq (made @ waiting None) past" using less[OF Cons.prems] by (simp add: waiting_def)
      from Cons.IH[OF this] show ?thesis by (simp add: Cancel)
    qed
  qed
  from this[of "[]" None "[]"] show "subseq (snd (fold debounce_step es (None, []))) (requested es)" by (simp add: waiting_def)
  show "fold debounce_step (map Call (as @ [a]) @ [Fire]) (timer, made) = (None, made @ [a])"
    by (induction as arbitrary: timer) simp_all
qed

end
