(* ===== verification/Home_Feed.thy ===== *)
theory Home_Feed
  imports Retry Api_Client
begin

text \<open>
  The social feed: \<open>mobileapp/src/services/socialService.ts\<close> and the feed, likes and comments of
  \<open>app/(personal)/home.tsx\<close>.  Likes and comments are shown before the backend has answered and taken back
  when it refuses, so the screen is a transition system over the requests that await an answer.  A handler
  sees the state of the latest rendering.  Counts are whole numbers (exact below \<open>2 ^ 53\<close>).
  Main results: likes and comment counts come out right however requests interleave, as long as the feed is
  not loaded again meanwhile; what goes wrong when it is; a comment whose answer is lost is posted twice.
\<close>

section \<open>The service\<close>

datatype social_body = PaymentId string | CommentBody string string

record FeedComment =
  fc_id :: string
  fc_username :: string
  fc_content :: string
  fc_created_at :: string

definition authHeaders :: "(string \<Rightarrow> 'w \<Rightarrow> string option res) \<Rightarrow> ('w, string \<rightharpoonup> string) io" where
  "authHeaders getS = bnd (getSessionToken getS) (\<lambda>token. ret (json_header ++ bearer token))"

definition social_call ::
  "(string \<Rightarrow> 'w \<Rightarrow> string option res) \<Rightarrow> (social_body request \<Rightarrow> ('w, 'j response) io) \<Rightarrow> (js_num \<Rightarrow> ('w, unit) io) \<Rightarrow>
   (int \<Rightarrow> 'w \<Rightarrow> 'w) \<Rightarrow> social_body request \<Rightarrow> ('w, 'j response) io" where
  "social_call getS fetch sleep warn rq =
     bnd (authHeaders getS) (\<lambda>hs. fetchWithRetry fetch sleep warn (rq\<lparr>headers := hs\<rparr>) no_options)"

text \<open>\<open>call\<close> is \<open>social_call\<close> over the platform.\<close>

definition fetchFeed :: "(social_body request \<Rightarrow> ('w, 'j response) io) \<Rightarrow> string \<Rightarrow> ('w, 'j) io" where
  "fetchFeed call API_BASE = bnd (call (get_rq (API_BASE @ ''/api/social/feed''))) (\<lambda>r. reads (\<lambda>_. json r))"

definition likePayment :: "(social_body request \<Rightarrow> ('w, 'j response) io) \<Rightarrow> string \<Rightarrow> string \<Rightarrow> ('w, unit) io" where
  "likePayment call API_BASE paymentId =
     bnd (call (send_rq (API_BASE @ ''/api/social/like'') ''POST'' (PaymentId paymentId))) (\<lambda>_. ret ())"

definition unlikePayment :: "(social_body request \<Rightarrow> ('w, 'j response) io) \<Rightarrow> string \<Rightarrow> string \<Rightarrow> ('w, unit) io" where
  "unlikePayment call API_BASE paymentId =
     bnd (call (send_rq (API_BASE @ ''/api/social/unlike'') ''DELETE'' (PaymentId paymentId))) (\<lambda>_. ret ())"

definition addComment :: "(social_body request \<Rightarrow> ('w, 'j response) io) \<Rightarrow> string \<Rightarrow> string \<Rightarrow> string \<Rightarrow> ('w, 'j) io" where
  "addComment call API_BASE paymentId content =
     bnd (call (send_rq (API_BASE @ ''/api/social/comment'') ''POST'' (CommentBody paymentId content))) (\<lambda>r. reads (\<lambda>_. json r))"

section \<open>State of the screen\<close>

datatype visibility = PUBLIC | FRIENDS | PRIVATE

record FeedItem =
  fi_id :: string
  fi_sender :: string
  fi_receiver :: string
  fi_amount :: string
  fi_description :: string
  fi_timestamp :: string
  fi_likes :: int
  fi_comments :: int
  fi_hasLiked :: bool
  fi_visibility :: visibility

record Comment =
  cm_id :: string
  cm_user :: string
  cm_text :: string
  cm_time :: string

definition NAIRA :: string where "NAIRA = [CHR 0xE2, CHR 0x82, CHR 0xA6]"

definition INITIAL_FEED :: "FeedItem list" where
  "INITIAL_FEED =
     [\<lparr>fi_id = ''1'', fi_sender = ''Ebube'', fi_receiver = ''Tolu'', fi_amount = NAIRA @ ''5,000'',
       fi_description = ''Lunch '' @ [CHR 0xF0, CHR 0x9F, CHR 0x8D, CHR 0x95], fi_timestamp = ''2h ago'', fi_likes = 5,
       fi_comments = 2, fi_hasLiked = False, fi_visibility = PUBLIC\<rparr>,
      \<lparr>fi_id = ''2'', fi_sender = ''Ejembiii'', fi_receiver = ''Amina'', fi_amount = NAIRA @ ''12,500'',
       fi_description = ''Concert tickets '' @ [CHR 0xF0, CHR 0x9F, CHR 0x8E, CHR 0x9F, CHR 0xEF, CHR 0xB8, CHR 0x8F],
       fi_timestamp = ''5h ago'', fi_likes = 12, fi_comments = 4, fi_hasLiked = True, fi_visibility = PUBLIC\<rparr>,
      \<lparr>fi_id = ''3'', fi_sender = ''Tunde'', fi_receiver = ''Chidi'', fi_amount = NAIRA @ ''2,000'',
       fi_description = ''Taxi ride '' @ [CHR 0xF0, CHR 0x9F, CHR 0x9A, CHR 0x95], fi_timestamp = ''1d ago'', fi_likes = 2,
       fi_comments = 0, fi_hasLiked = False, fi_visibility = FRIENDS\<rparr>]"

datatype feed_tab = Public_tab | Friends_tab

text \<open>\<open>hf_crashed\<close>: the cache held JSON text of something that is no list, whose rendering throws.\<close>

record home_feed =
  hf_feed :: "FeedItem list"
  hf_activeTab :: feed_tab
  hf_refreshing :: bool
  hf_commentsModalVisible :: bool
  hf_selectedItem :: "FeedItem option"
  hf_commentText :: string
  hf_commentsList :: "Comment list"
  hf_crashed :: bool

definition feed_mounted :: home_feed where
  "feed_mounted = \<lparr>hf_feed = INITIAL_FEED, hf_activeTab = Public_tab, hf_refreshing = False, hf_commentsModalVisible = False,
     hf_selectedItem = None, hf_commentText = [], hf_commentsList = [], hf_crashed = False\<rparr>"

definition in_tab :: "feed_tab \<Rightarrow> FeedItem \<Rightarrow> bool" where
  "in_tab tab item \<longleftrightarrow> fi_visibility item \<noteq> PRIVATE
     \<and> (tab = Friends_tab \<longrightarrow> fi_visibility item = FRIENDS \<or> fi_sender item = ''Me'' \<or> fi_receiver item = ''Me'')"

definition filteredFeed :: "home_feed \<Rightarrow> FeedItem list" where
  "filteredFeed s = filter (in_tab (hf_activeTab s)) (hf_feed s)"

section \<open>Handlers\<close>

text \<open>
  What awaits an answer.  \<open>Fetching p\<close>, \<open>Writing p\<close>: the load when the screen opens, or that of a pull (\<open>p\<close>).
  \<open>Like_sent i new liked n\<close> carries the wanted state and the state to go back to.
\<close>

datatype feed_flight =
    Reading
  | Fetching bool
  | Writing bool "FeedItem list"
  | Yield_loading
  | Like_sent string bool bool int
  | Comment_sent string string string

definition on_cached :: "FeedItem list jtext option res \<Rightarrow> home_feed \<Rightarrow> home_feed" where
  "on_cached r s = (case r of Ret (Some t) \<Rightarrow>
       (case JSON_parse t of Ret (Some f) \<Rightarrow> s\<lparr>hf_feed := f\<rparr> | Ret None \<Rightarrow> s\<lparr>hf_crashed := True\<rparr> | Throw _ \<Rightarrow> s)
     | _ \<Rightarrow> s)"

text \<open>\<open>fresh && fresh.length > 0\<close>; what follows is the write, or for a pull the yield data.\<close>

definition on_fetched :: "bool \<Rightarrow> FeedItem list option res \<Rightarrow> home_feed \<Rightarrow> home_feed \<times> feed_flight list" where
  "on_fetched pull r s = (case r of
       Ret (Some (f # fs)) \<Rightarrow> (s\<lparr>hf_feed := f # fs\<rparr>, [Writing pull (f # fs)])
     | _ \<Rightarrow> (s, if pull then [Yield_loading] else []))"

definition set_like :: "string \<Rightarrow> bool \<Rightarrow> int \<Rightarrow> FeedItem list \<Rightarrow> FeedItem list" where
  "set_like i liked n = map (\<lambda>f. if fi_id f = i then f\<lparr>fi_hasLiked := liked, fi_likes := n\<rparr> else f)"

definition handleLike :: "string \<Rightarrow> home_feed \<Rightarrow> home_feed \<times> feed_flight list" where
  "handleLike i s = (case find (\<lambda>f. fi_id f = i) (hf_feed s) of None \<Rightarrow> (s, [])
     | Some c \<Rightarrow>
        let prevHasLiked = fi_hasLiked c; prevLikes = fi_likes c; newHasLiked = \<not> prevHasLiked;
            newLikes = (if prevHasLiked then prevLikes - 1 else prevLikes + 1)
        in (s\<lparr>hf_feed := set_like i newHasLiked newLikes (hf_feed s)\<rparr>, [Like_sent i newHasLiked prevHasLiked prevLikes]))"

definition on_liked :: "string \<Rightarrow> bool \<Rightarrow> int \<Rightarrow> unit res \<Rightarrow> home_feed \<Rightarrow> home_feed" where
  "on_liked i liked n r s = (case r of Ret _ \<Rightarrow> s | Throw _ \<Rightarrow> s\<lparr>hf_feed := set_like i liked n (hf_feed s)\<rparr>)"

definition openComments :: "FeedItem \<Rightarrow> home_feed \<Rightarrow> home_feed" where
  "openComments item s = s\<lparr>hf_selectedItem := Some item, hf_commentText := [], hf_commentsList := [], hf_commentsModalVisible := True\<rparr>"

definition count_comments :: "string \<Rightarrow> (int \<Rightarrow> int) \<Rightarrow> FeedItem list \<Rightarrow> FeedItem list" where
  "count_comments p g = map (\<lambda>f. if fi_id f = p then f\<lparr>fi_comments := g (fi_comments f)\<rparr> else f)"

definition submitComment :: "int \<Rightarrow> home_feed \<Rightarrow> home_feed \<times> feed_flight list" where
  "submitComment now_ms s = (let trimmed = trim (hf_commentText s) in
     case hf_selectedItem s of None \<Rightarrow> (s, [])
     | Some item \<Rightarrow>
       if trimmed = [] then (s, [])
       else let paymentId = fi_id item;
                optimistic = \<lparr>cm_id = ''local-'' @ show_int now_ms, cm_user = ''Me'', cm_text = trimmed, cm_time = ''Just now''\<rparr>
            in (s\<lparr>hf_commentsList := hf_commentsList s @ [optimistic], hf_commentText := [],
                  hf_feed := count_comments paymentId (\<lambda>n. n + 1) (hf_feed s)\<rparr>,
                [Comment_sent paymentId (cm_id optimistic) trimmed]))"

definition saved_comment :: "FeedComment \<Rightarrow> Comment" where
  "saved_comment c = \<lparr>cm_id = fc_id c, cm_user = (if fc_username c = [] then ''Me'' else fc_username c),
     cm_text = fc_content c, cm_time = ''Just now''\<rparr>"

definition on_commented :: "string \<Rightarrow> string \<Rightarrow> FeedComment res \<Rightarrow> home_feed \<Rightarrow> home_feed" where
  "on_commented p l r s = (case r of
       Ret c \<Rightarrow> s\<lparr>hf_commentsList := map (\<lambda>x. if cm_id x = l then saved_comment c else x) (hf_commentsList s)\<rparr>
     | Throw _ \<Rightarrow> s\<lparr>hf_commentsList := filter (\<lambda>x. cm_id x \<noteq> l) (hf_commentsList s),
                    hf_feed := count_comments p (\<lambda>n. max 0 (n - 1)) (hf_feed s)\<rparr>)"

section \<open>The transition system\<close>

datatype feed_event =
    Cache_read bool
  | Fetched bool "FeedItem list option res"
  | Cache_written bool "FeedItem list" bool
  | Yield_loaded
  | Pull
  | Tab feed_tab
  | Like string
  | Liked string bool bool int "unit res"
  | Open_comments string
  | Close_comments
  | Type string
  | Submit int
  | Commented string string string "FeedComment res"

text \<open>State, requests under way, and the stored cache; \<open>True\<close> in a storage event says that it succeeded.\<close>

type_synonym feed_sys = "home_feed \<times> feed_flight list \<times> FeedItem list jtext option"

definition settle :: "feed_flight \<Rightarrow> feed_flight list \<Rightarrow> (feed_flight list \<Rightarrow> feed_sys) \<Rightarrow> feed_sys option" where
  "settle x fl k = (if x \<in> set fl then Some (k (remove1 x fl)) else None)"

fun feed_event_step :: "feed_event \<Rightarrow> feed_sys \<Rightarrow> feed_sys option" where
  "feed_event_step (Cache_read works) (s, fl, cache) =
     settle Reading fl (\<lambda>fl. (on_cached (if works then Ret cache else Throw storage_error) s, fl @ [Fetching False], cache))"
| "feed_event_step (Fetched pull r) (s, fl, cache) =
     settle (Fetching pull) fl (\<lambda>fl. case on_fetched pull r s of (s', new) \<Rightarrow> (s', fl @ new, cache))"
| "feed_event_step (Cache_written pull f works) (s, fl, cache) =
     settle (Writing pull f) fl (\<lambda>fl. (s, fl @ (if pull then [Yield_loading] else []),
       if works then Some (JSON_stringify f) else cache))"
| "feed_event_step Yield_loaded (s, fl, cache) = settle Yield_loading fl (\<lambda>fl. (s\<lparr>hf_refreshing := False\<rparr>, fl, cache))"
| "feed_event_step Pull (s, fl, cache) = Some (s\<lparr>hf_refreshing := True\<rparr>, fl @ [Fetching True], cache)"
| "feed_event_step (Tab t) (s, fl, cache) = Some (s\<lparr>hf_activeTab := t\<rparr>, fl, cache)"
| "feed_event_step (Like i) (s, fl, cache) =
     (if i \<notin> fi_id ` set (filteredFeed s) then None
      else case handleLike i s of (s', new) \<Rightarrow> Some (s', fl @ new, cache))"
| "feed_event_step (Liked i new liked n r) (s, fl, cache) = settle (Like_sent i new liked n) fl (\<lambda>fl. (on_liked i liked n r s, fl, cache))"
| "feed_event_step (Open_comments i) (s, fl, cache) = (case find (\<lambda>f. fi_id f = i) (filteredFeed s) of None \<Rightarrow> None
     | Some item \<Rightarrow> Some (openComments item s, fl, cache))"
| "feed_event_step Close_comments (s, fl, cache) = Some (s\<lparr>hf_commentsModalVisible := False\<rparr>, fl, cache)"
| "feed_event_step (Type t) (s, fl, cache) = (if hf_commentsModalVisible s then Some (s\<lparr>hf_commentText := t\<rparr>, fl, cache) else None)"
| "feed_event_step (Submit now_ms) (s, fl, cache) = (if hf_commentsModalVisible s
     then (case submitComment now_ms s of (s', new) \<Rightarrow> Some (s', fl @ new, cache)) else None)"
| "feed_event_step (Commented p l t r) (s, fl, cache) = settle (Comment_sent p l t) fl (\<lambda>fl. (on_commented p l r s, fl, cache))"

definition feed_step :: "feed_event \<Rightarrow> feed_sys \<Rightarrow> feed_sys option" where
  "feed_step e y = (if hf_crashed (fst y) then None else feed_event_step e y)"

fun feed_run :: "feed_event list \<Rightarrow> feed_sys \<Rightarrow> feed_sys option" where
  "feed_run [] y = Some y"
| "feed_run (e # es) y = Option.bind (feed_step e y) (feed_run es)"

definition feed_opened :: "FeedItem list jtext option \<Rightarrow> feed_sys" where
  "feed_opened cache = (feed_mounted, [Reading], cache)"

section \<open>Counts\<close>

text \<open>The events that put another feed in place.\<close>

fun reloads :: "feed_event \<Rightarrow> bool" where
  "reloads (Cache_read _) = True"
| "reloads (Fetched _ _) = True"
| "reloads _ = False"

lemma feed_run_invariant:
  assumes "\<And>e y y'. \<not> reloads e \<Longrightarrow> feed_step e y = Some y' \<Longrightarrow> I y \<Longrightarrow> I y'"
  shows "list_all (\<lambda>e. \<not> reloads e) es \<Longrightarrow> feed_run es y = Some y' \<Longrightarrow> I y \<Longrightarrow> I y'"
  by (induction es arbitrary: y) (auto simp: Option.bind_eq_Some_conv dest: assms)

lemma settle_Some: "settle x fl k = Some y \<longleftrightarrow> x \<in> set fl \<and> y = k (remove1 x fl)"
  by (auto simp: settle_def)

lemma find_id: "find (\<lambda>f. fi_id f = i) fs = Some c \<Longrightarrow> c \<in> set fs \<and> fi_id c = i"
  by (auto simp: find_Some_iff)

text \<open>The likes of an item without one's own.\<close>

definition without_own :: "bool \<Rightarrow> int \<Rightarrow> int" where
  "without_own liked n = n - (if liked then 1 else 0)"

definition others :: "FeedItem \<Rightarrow> string \<times> int" where
  "others f = (fi_id f, without_own (fi_hasLiked f) (fi_likes f))"

lemma without_own_toggle [simp]: "without_own (\<not> l) (if l then n - 1 else n + 1) = without_own l n"
  by (simp add: without_own_def)

lemma others_in: "f \<in> set fs \<Longrightarrow> map others fs = bs \<Longrightarrow> others f \<in> set bs"
  by auto

lemma liked_item [simp]:
  "fi_id (if b then f\<lparr>fi_hasLiked := l, fi_likes := n\<rparr> else f) = fi_id f"
  "fi_comments (if b then f\<lparr>fi_hasLiked := l, fi_likes := n\<rparr> else f) = fi_comments f"
  by simp_all

definition likes_inv :: "(string \<times> int) list \<Rightarrow> feed_sys \<Rightarrow> bool" where
  "likes_inv bs = (\<lambda>(s, fl, _). map others (hf_feed s) = bs
     \<and> (\<forall>i new liked n. Like_sent i new liked n \<in> set fl \<longrightarrow> (i, without_own liked n) \<in> set bs))"

lemma others_set_like:
  assumes "distinct (map fst bs)" "map others fs = bs" "(i, without_own liked n) \<in> set bs"
  shows "map others (set_like i liked n fs) = bs"
proof -
  have "others (if fi_id f = i then f\<lparr>fi_hasLiked := liked, fi_likes := n\<rparr> else f) = others f" if f: "f \<in> set fs" for f
  proof (cases "fi_id f = i")
    case True
    have "(i, snd (others f)) \<in> set bs" using others_in[OF f assms(2)] True by (simp add: others_def)
    then have "others f = (i, without_own liked n)"
      using eq_key_imp_eq_value[OF assms(1) _ assms(3)] True by (simp add: others_def)
    then show ?thesis using True by (simp add: others_def)
  qed simp
  then show ?thesis using assms(2) by (simp add: set_like_def comp_def cong: map_cong)
qed

lemma feed_of_comments [simp]:
  "map others (count_comments p g fs) = map others fs"
  by (simp add: count_comments_def others_def)

lemma likes_inv_step:
  assumes "\<not> reloads e" "feed_step e y = Some y'" "distinct (map fst bs)" "likes_inv bs y"
  shows "likes_inv bs y'"
proof -
  obtain s fl cache where y: "y = (s, fl, cache)" by (cases y)
  have run: "feed_event_step e (s, fl, cache) = Some y'" using assms(2) by (simp add: feed_step_def y split: if_splits)
  have inv: "map others (hf_feed s) = bs" "\<And>i new liked n. Like_sent i new liked n \<in> set fl \<Longrightarrow> (i, without_own liked n) \<in> set bs"
    using assms(4) by (auto simp: y likes_inv_def)
  show ?thesis
  proof (cases e)
    case (Like i)
    show ?thesis
    proof (cases "find (\<lambda>f. fi_id f = i) (hf_feed s)")
      case None
      with run have "y' = y" by (simp add: Like handleLike_def y split: if_splits)
      with assms(4) show ?thesis by simp
    next
      case (Some c)
      have c: "(i, without_own (fi_hasLiked c) (fi_likes c)) \<in> set bs"
        using find_id[OF Some] others_in[OF _ inv(1), of c] by (simp add: others_def)
      then have "map others (set_like i (\<not> fi_hasLiked c) (if fi_hasLiked c then fi_likes c - 1 else fi_likes c + 1) (hf_feed s)) = bs"
        by (intro others_set_like[OF assms(3) inv(1)]) simp
      moreover have "y' = (s\<lparr>hf_feed := set_like i (\<not> fi_hasLiked c) (if fi_hasLiked c then fi_likes c - 1 else fi_likes c + 1) (hf_feed s)\<rparr>,
          fl @ [Like_sent i (\<not> fi_hasLiked c) (fi_hasLiked c) (fi_likes c)], cache)"
        using run by (simp add: Like Some handleLike_def Let_def split: if_splits)
      ultimately show ?thesis using inv c by (auto simp: likes_inv_def)
    qed
  next
    case (Liked i new liked n r)
    then have "Like_sent i new liked n \<in> set fl" using run by (simp add: settle_Some)
    from others_set_like[OF assms(3) inv(1) inv(2)[OF this]] show ?thesis
      using run inv by (cases r) (auto simp: Liked settle_Some on_liked_def likes_inv_def dest: subsetD[OF set_remove1_subset])
  qed (use run inv assms(1) in \<open>auto simp: settle_Some likes_inv_def submitComment_def on_commented_def openComments_def Let_def
        split: if_splits option.splits res.splits dest: subsetD[OF set_remove1_subset]\<close>)
qed

text \<open>
  C27: However likes, unlikes, comments and their answers interleave, and whatever the backend refuses, the
  likes by others are shown unchanged: the count is theirs plus one's own, exactly when the heart is
  filled.  (The feed is not loaded again meanwhile.)
\<close>

theorem likes_never_drift:
  assumes "feed_run es (s, [], cache) = Some (s', fl', cache')" "list_all (\<lambda>e. \<not> reloads e) es" "distinct (map fi_id (hf_feed s))"
  shows "map fi_id (hf_feed s') = map fi_id (hf_feed s)
    \<and> map (\<lambda>f. fi_likes f - (if fi_hasLiked f then 1 else 0)) (hf_feed s') = map (\<lambda>f. fi_likes f - (if fi_hasLiked f then 1 else 0)) (hf_feed s)"
proof -
  have d: "distinct (map fst (map others (hf_feed s)))" using assms(3) by (simp add: others_def comp_def)
  have "likes_inv (map others (hf_feed s)) (s', fl', cache')"
    by (rule feed_run_invariant[OF likes_inv_step[OF _ _ d] assms(2,1)]) (simp_all add: likes_inv_def)
  then have "map others (hf_feed s') = map others (hf_feed s)" by (simp add: likes_inv_def)
  then have "map fst (map others (hf_feed s')) = map fst (map others (hf_feed s))"
    "map snd (map others (hf_feed s')) = map snd (map others (hf_feed s))" by simp_all
  then show ?thesis by (simp add: others_def without_own_def comp_def)
qed

section \<open>Comments\<close>

fun is_comment_on :: "string \<Rightarrow> feed_flight \<Rightarrow> bool" where
  "is_comment_on p (Comment_sent q _ _) = (q = p)"
| "is_comment_on p _ = False"

definition pending :: "feed_flight list \<Rightarrow> string \<Rightarrow> int" where
  "pending fl p = int (length (filter (is_comment_on p) fl))"

fun accepts :: "string \<Rightarrow> feed_event \<Rightarrow> bool" where
  "accepts p (Commented q _ _ (Ret _)) = (q = p)"
| "accepts p _ = False"

definition accepted :: "feed_event list \<Rightarrow> string \<Rightarrow> int" where
  "accepted es p = int (length (filter (accepts p) es))"

lemma pending_simps [simp]: "pending [] p = 0" "pending (x # fl) p = (if is_comment_on p x then 1 else 0) + pending fl p"
  "pending (fl @ fl') p = pending fl p + pending fl' p" "0 \<le> pending fl p"
  by (simp_all add: pending_def)

lemma pending_remove1: "x \<in> set fl \<Longrightarrow> pending (remove1 x fl) p = pending fl p - (if is_comment_on p x then 1 else 0)"
  by (induction fl) auto

text \<open>The comments of an item that the backend has, in the screen's eyes.\<close>

definition confirmed_comments :: "feed_sys \<Rightarrow> (string \<times> int) list" where
  "confirmed_comments = (\<lambda>(s, fl, _). map (\<lambda>f. (fi_id f, fi_comments f - pending fl (fi_id f))) (hf_feed s))"

lemma comments_set_like [simp]:
  "map (\<lambda>f. (fi_id f, fi_comments f - g (fi_id f))) (set_like i l n fs) = map (\<lambda>f. (fi_id f, fi_comments f - g (fi_id f))) fs"
  by (simp add: set_like_def comp_def)

lemma comments_counted:
  assumes "\<And>f. f \<in> set fs \<Longrightarrow> (if fi_id f = p then h (fi_comments f) else fi_comments f) - g' (fi_id f) = fi_comments f - g (fi_id f) + d (fi_id f)"
  shows "map (\<lambda>f. (fi_id f, fi_comments f - g' (fi_id f))) (count_comments p h fs)
    = map (\<lambda>f. (fi_id f, fi_comments f - g (fi_id f) + d (fi_id f))) fs"
  unfolding count_comments_def map_map
  by (rule map_cong[OF refl]) (use assms in \<open>force split: if_splits\<close>)

lemma comment_step:
  assumes "\<not> reloads e" "feed_step e y = Some y'" "list_all (\<lambda>x. 0 \<le> snd x) (confirmed_comments y)"
  shows "confirmed_comments y' = map (\<lambda>(p, n). (p, n + accepted [e] p)) (confirmed_comments y)"
proof -
  obtain s fl cache where y: "y = (s, fl, cache)" by (cases y)
  have run: "feed_event_step e (s, fl, cache) = Some y'" using assms(2) by (simp add: feed_step_def y split: if_splits)
  have pos: "pending fl (fi_id f) \<le> fi_comments f" if "f \<in> set (hf_feed s)" for f
    using assms(3) that by (auto simp: y confirmed_comments_def list_all_iff)
  have eq: ?thesis if "map (\<lambda>f. (fi_id f, fi_comments f - pending (fst (snd y')) (fi_id f))) (hf_feed (fst y'))
      = map (\<lambda>f. (fi_id f, fi_comments f - pending fl (fi_id f) + accepted [e] (fi_id f))) (hf_feed s)"
    using that by (cases y') (simp add: y confirmed_comments_def comp_def)
  show ?thesis
  proof (cases e)
    case (Commented p l t r)
    then have m: "Comment_sent p l t \<in> set fl" and y': "y' = (on_commented p l r s, remove1 (Comment_sent p l t) fl, cache)"
      using run by (auto simp: settle_Some)
    have one: "1 \<le> pending fl p" using m by (force simp: pending_def Suc_le_eq filter_empty_conv)
    have ge: "max 0 (fi_comments f - 1) = fi_comments f - 1" if "f \<in> set (hf_feed s)" "fi_id f = p" for f
      using pos[OF that(1)] one that(2) by simp
    show ?thesis
    proof (rule eq, cases r)
      case (Throw x)
      show "map (\<lambda>f. (fi_id f, fi_comments f - pending (fst (snd y')) (fi_id f))) (hf_feed (fst y'))
          = map (\<lambda>f. (fi_id f, fi_comments f - pending fl (fi_id f) + accepted [e] (fi_id f))) (hf_feed s)"
        unfolding y' fst_conv snd_conv on_commented_def Throw res.case home_feed.select_convs home_feed.update_convs
        by (simp, rule comments_counted) (auto simp: ge pending_remove1[OF m] Commented Throw accepted_def)
    next
      case (Ret c)
      then show "map (\<lambda>f. (fi_id f, fi_comments f - pending (fst (snd y')) (fi_id f))) (hf_feed (fst y'))
          = map (\<lambda>f. (fi_id f, fi_comments f - pending fl (fi_id f) + accepted [e] (fi_id f))) (hf_feed s)"
        by (auto simp: y' on_commented_def pending_remove1[OF m] Commented accepted_def)
    qed
  next
    case (Submit now_ms)
    show ?thesis
    proof (cases "hf_selectedItem s = None \<or> trim (hf_commentText s) = []")
      case True
      then have "y' = y" using run by (auto simp: y Submit submitComment_def Let_def split: if_splits option.splits)
      then show ?thesis by (simp add: Submit accepted_def)
    next
      case False
      then obtain item where "hf_selectedItem s = Some item" by auto
      with False run obtain l t where y': "hf_feed (fst y') = count_comments (fi_id item) (\<lambda>n. n + 1) (hf_feed s)"
        "fst (snd y') = fl @ [Comment_sent (fi_id item) l t]"
        by (auto simp: Submit submitComment_def Let_def split: if_splits)
      show ?thesis by (rule eq, unfold y', rule comments_counted) (simp add: Submit accepted_def)
    qed
  next
    case (Like i)
    show ?thesis using run by (intro eq) (auto simp: Like handleLike_def accepted_def Let_def split: if_splits option.splits)
  next
    case (Liked i new liked n r)
    show ?thesis using run by (intro eq) (cases r; auto simp: Liked settle_Some on_liked_def accepted_def pending_remove1)
  next
    case (Open_comments i)
    show ?thesis using run by (intro eq) (auto simp: Open_comments openComments_def accepted_def split: option.splits)
  qed (use run assms(1) in \<open>auto simp: y confirmed_comments_def settle_Some accepted_def pending_remove1 split: if_splits\<close>)
qed

lemma accepted_Cons: "accepted (e # es) p = accepted [e] p + accepted es p"
  by (simp add: accepted_def)

lemma comment_run:
  assumes "list_all (\<lambda>e. \<not> reloads e) es" "feed_run es y = Some y'" "list_all (\<lambda>x. 0 \<le> snd x) (confirmed_comments y)"
  shows "confirmed_comments y' = map (\<lambda>(p, n). (p, n + accepted es p)) (confirmed_comments y)"
  using assms
proof (induction es arbitrary: y)
  case Nil
  then show ?case by (simp add: accepted_def split_def)
next
  case (Cons e es)
  then obtain z where z: "feed_step e y = Some z" "feed_run es z = Some y'" by (auto simp: Option.bind_eq_Some_conv)
  have c: "confirmed_comments z = map (\<lambda>(p, n). (p, n + accepted [e] p)) (confirmed_comments y)"
    by (rule comment_step) (use Cons.prems z in auto)
  have "list_all (\<lambda>x. 0 \<le> snd x) (confirmed_comments z)"
    using Cons.prems(3) by (auto simp: c list_all_iff accepted_def)
  with Cons.IH[OF _ z(2)] Cons.prems(1) have "confirmed_comments y' = map (\<lambda>(p, n). (p, n + accepted es p)) (confirmed_comments z)" by simp
  then show ?case by (auto simp: c accepted_Cons[of e es])
qed

text \<open>
  C28: Comments are counted once, however their answers interleave and whatever is refused: as long as the feed is not
  loaded again (from the cache or from the backend), the count of a payment is what it was, plus the comments the
  backend has taken, plus those whose answer is still awaited.
\<close>

theorem comments_counted_once:
  assumes "feed_run es (s, [], cache) = Some (s', fl', cache')" "list_all (\<lambda>e. \<not> reloads e) es"
    and "\<forall>f \<in> set (hf_feed s). 0 \<le> fi_comments f"
  shows "map (\<lambda>f. (fi_id f, fi_comments f)) (hf_feed s')
    = map (\<lambda>f. (fi_id f, fi_comments f + accepted es (fi_id f) + pending fl' (fi_id f))) (hf_feed s)"
proof -
  have "confirmed_comments (s', fl', cache') = map (\<lambda>(p, n). (p, n + accepted es p)) (confirmed_comments (s, [], cache))"
    by (rule comment_run[OF assms(2,1)]) (use assms(3) in \<open>simp add: confirmed_comments_def list_all_iff\<close>)
  then have "map (\<lambda>(p, n). (p, n + pending fl' p)) (confirmed_comments (s', fl', cache'))
      = map (\<lambda>(p, n). (p, n + pending fl' p)) (map (\<lambda>(p, n). (p, n + accepted es p)) (confirmed_comments (s, [], cache)))"
    by simp
  then show ?thesis by (simp add: confirmed_comments_def comp_def)
qed

definition drawer_item :: FeedItem where
  "drawer_item = \<lparr>fi_id = ''7'', fi_sender = ''Me'', fi_receiver = ''Ada'', fi_amount = ''1'', fi_description = [], fi_timestamp = [],
     fi_likes = 4, fi_comments = 0, fi_hasLiked = False, fi_visibility = PUBLIC\<rparr>"

definition drawer_feed :: home_feed where
  "drawer_feed = feed_mounted\<lparr>hf_feed := [drawer_item]\<rparr>"

lemmas feed_eval = feed_step_def settle_def on_fetched_def on_liked_def handleLike_def openComments_def submitComment_def
  on_commented_def saved_comment_def filteredFeed_def in_tab_def set_like_def count_comments_def drawer_feed_def drawer_item_def
  feed_mounted_def JSON_stringify_def

theorem likes_never_drift_witness:
  "\<exists>s fl c. feed_run [Like ''7'', Like ''7'', Liked ''7'' True False 4 (Throw NonError), Liked ''7'' False True 5 (Ret ())]
       (drawer_feed, [], None) = Some (s, fl, c)
     \<and> map fi_likes (hf_feed s) = [4] \<and> map (\<lambda>f. fi_likes f - (if fi_hasLiked f then 1 else 0)) (hf_feed s) = [4]"
proof -
  let ?es = "[Like ''7'', Like ''7'', Liked ''7'' True False 4 (Throw NonError), Liked ''7'' False True 5 (Ret ())]"
  obtain s fl c where r: "feed_run ?es (drawer_feed, [], None) = Some (s, fl, c)" "map fi_likes (hf_feed s) = [4]"
    by (simp add: feed_eval)
  from likes_never_drift[OF r(1)] r show ?thesis by (auto simp: drawer_feed_def drawer_item_def feed_mounted_def)
qed

theorem comments_counted_once_witness:
  "\<exists>s fl c. feed_run [Open_comments ''7'', Type ''hello'', Submit 1, Type ''bye'', Submit 2,
       Commented ''7'' (''local-'' @ show_int 2) ''bye'' (Throw NonError)] (drawer_feed, [], None) = Some (s, fl, c)
     \<and> map (\<lambda>f. (fi_id f, fi_comments f)) (hf_feed s) = [(''7'', 1)]"
proof -
  let ?es = "[Open_comments ''7'', Type ''hello'', Submit 1, Type ''bye'', Submit 2,
       Commented ''7'' (''local-'' @ show_int 2) ''bye'' (Throw NonError)]"
  have tr: "trim ''hello'' = ''hello''" "trim ''bye'' = ''bye''" by code_simp+
  have n: "show_int 1 \<noteq> show_int 2" by code_simp
  obtain s c where r: "feed_run ?es (drawer_feed, [], None) = Some (s, [Comment_sent ''7'' (''local-'' @ show_int 1) ''hello''], c)"
    using n by (simp add: feed_eval Let_def tr)
  from comments_counted_once[OF r] r show ?thesis by (auto simp: drawer_feed_def drawer_item_def feed_mounted_def accepted_def)
qed

text \<open>
  A pull to refresh while a like is under way: when the like is then refused, the state the item had before
  the pull is put back over the fresh one, here four likes over the backend's nine.
\<close>

theorem stale_like_restored:
  "\<exists>s fl c. feed_run [Like ''7'', Pull, Fetched True (Ret (Some [drawer_item\<lparr>fi_likes := 9\<rparr>])),
       Liked ''7'' True False 4 (Throw NonError)] (drawer_feed, [], None) = Some (s, fl, c)
     \<and> map fi_likes (hf_feed s) = [4]"
  by (simp add: feed_eval)

text \<open>
  The drawer does not show what the backend has: opened again, it is empty although the comment has been
  saved and is counted on the card.
\<close>

theorem drawer_forgets:
  "\<exists>s fl c. feed_run [Open_comments ''7'', Type ''hello'', Submit 1, Commented ''7'' (''local-'' @ show_int 1) ''hello''
         (Ret \<lparr>fc_id = ''c1'', fc_username = ''me'', fc_content = ''hello'', fc_created_at = []\<rparr>),
       Close_comments, Open_comments ''7''] (drawer_feed, [], None) = Some (s, fl, c)
     \<and> hf_commentsList s = [] \<and> map fi_comments (hf_feed s) = [1]"
proof -
  have "trim ''hello'' = ''hello''" by code_simp
  then show ?thesis by (simp add: feed_eval Let_def)
qed

text \<open>
  A comment whose answer is lost on the way is posted again by the retries: the backend gets the same request
  twice, and the caller is told that all went well.
\<close>

theorem lost_answer_posts_again:
  "\<exists>d' rq. addComment (social_call dev_getSec dev_fetch (\<lambda>_. ret ()) (\<lambda>_ d. d)) API_BASE p t
      (d\<lparr>dev_net := [Throw (Error ''Network request failed''), Ret \<lparr>status = 200, statusText = [], json = Ret c, text_of = Ret []\<rparr>]\<rparr>)
      = (Ret c, d')
    \<and> dev_log d' = dev_log d @ [rq, rq] \<and> body rq = Some (CommentBody p t)"
proof -
  let ?d = "d\<lparr>dev_net := [Throw (Error ''Network request failed''), Ret \<lparr>status = 200, statusText = [], json = Ret c, text_of = Ret []\<rparr>]\<rparr>"
  let ?q = "send_rq (API_BASE @ ''/api/social/comment'') ''POST'' (CommentBody p t)"
  obtain hs where hs: "authHeaders dev_getSec ?d = (Ret hs, ?d)"
    by (cases "dev_sec_broken d") (auto simp: authHeaders_def getSessionToken_def dev_getSec_def io_simps)
  define rq where "rq = ?q\<lparr>headers := json_header ++ hs\<rparr>"
  have "social_call dev_getSec dev_fetch (\<lambda>_. ret ()) (\<lambda>_ d. d) ?q ?d
      = fetchWithRetry dev_fetch (\<lambda>_. ret ()) (\<lambda>_ d. d) (?q\<lparr>headers := hs\<rparr>) no_options ?d"
    using hs by (simp add: social_call_def)
  also have "\<dots> = (Ret \<lparr>status = 200, statusText = [], json = Ret c, text_of = Ret []\<rparr>, ?d\<lparr>dev_net := [], dev_log := dev_log d @ [rq, rq]\<rparr>)"
    unfolding fetchWithRetry_def retryWithBackoff_def
    by (subst retry_loop.simps, simp add: fetch_ok_def io_simps dev_fetch_def over_def default_def no_options_def)
      (subst retry_loop.simps, simp add: fetch_ok_def io_simps dev_fetch_def ok_def rq_def)
  finally have run: "social_call dev_getSec dev_fetch (\<lambda>_. ret ()) (\<lambda>_ d. d) ?q ?d
      = (Ret \<lparr>status = 200, statusText = [], json = Ret c, text_of = Ret []\<rparr>, ?d\<lparr>dev_net := [], dev_log := dev_log d @ [rq, rq]\<rparr>)" .
  show ?thesis
    by (intro exI[of _ "?d\<lparr>dev_net := [], dev_log := dev_log d @ [rq, rq]\<rparr>"] exI[of _ rq])
      (use run in \<open>simp add: addComment_def rq_def send_rq_def\<close>)
qed

end
