(* ===== verification/Js_Locale.thy ===== *)
theory Js_Locale
  imports Js_Arith
begin

text \<open>
  \<open>Number.prototype.toLocaleString\<close> for the locales of the sources (English: digits in groups of three,
  separated by commas, and a decimal point) with a least and a greatest number of decimals: the exact value
  rounded to the greatest number, a tie away from zero, less the zeros at the end that are not asked for.
  Main result: stripping the separators and reading the numeral gives back the rounded value.
\<close>

function commas :: "string \<Rightarrow> string" where
  "commas ds = (if length ds \<le> 3 then ds else commas (take (length ds - 3) ds) @ CHR '','' # drop (length ds - 3) ds)"
  by pat_completeness auto
termination by (relation "measure length") auto

declare commas.simps [simp del]

text \<open>\<open>INFINITY\<close> is the sign of the locale, in UTF-8.\<close>

definition INFINITY :: string where "INFINITY = [CHR 0xE2, CHR 0x88, CHR 0x9E]"

definition strip_zeros :: "nat \<Rightarrow> string \<Rightarrow> string" where
  "strip_zeros minf d = take minf d @ rev (dropWhile (\<lambda>c. c = CHR ''0'') (rev (drop minf d)))"

definition locale_digits :: "nat \<Rightarrow> nat \<Rightarrow> nat \<Rightarrow> string" where
  "locale_digits minf maxf n = (let s = fixed_digits maxf n; i = takeWhile (\<lambda>c. c \<noteq> CHR ''.'') s;
       d = strip_zeros minf (drop (Suc (length i)) s)
     in commas i @ (if d = [] then [] else CHR ''.'' # d))"

fun toLocale :: "nat \<Rightarrow> nat \<Rightarrow> js_num \<Rightarrow> string" where
  "toLocale minf maxf (Fin q) = (if q < 0 then ''-'' else []) @ locale_digits minf maxf (nat \<lfloor>\<bar>q\<bar> * 10 ^ maxf + 1 / 2\<rfloor>)"
| "toLocale minf maxf (Infty b) = (if b then [] else ''-'') @ INFINITY"
| "toLocale minf maxf NaN = ''NaN''"

text \<open>\<open>value.replace(/[^\d.-]/g, "")\<close>.\<close>

definition numeric_only :: "string \<Rightarrow> string" where
  "numeric_only s = filter (\<lambda>c. is_digit c \<or> c = CHR ''.'' \<or> c = CHR ''-'') s"

lemma numeric_only_append [simp]: "numeric_only (a @ b) = numeric_only a @ numeric_only b"
  by (simp add: numeric_only_def)

lemma numeric_only_Cons: "numeric_only (c # s) = (if is_digit c \<or> c = CHR ''.'' \<or> c = CHR ''-'' then c # numeric_only s else numeric_only s)"
  by (simp add: numeric_only_def)

lemma numeric_only_digits: "list_all is_digit s \<Longrightarrow> numeric_only s = s"
  by (induction s) (simp_all add: numeric_only_def)

lemma numeric_only_commas: "list_all is_digit ds \<Longrightarrow> numeric_only (commas ds) = ds"
proof (induction ds rule: commas.induct)
  case (1 ds)
  show ?case
  proof (cases "length ds \<le> 3")
    case True
    then show ?thesis using 1(2) by (simp add: commas.simps[of ds] numeric_only_digits)
  next
    case False
    let ?k = "length ds - 3"
    have d: "list_all is_digit (take ?k ds)" "list_all is_digit (drop ?k ds)"
      using 1(2) by (auto simp: list_all_iff dest: in_set_takeD in_set_dropD)
    have "\<not> is_digit (CHR '','')" by (simp add: is_digit_def)
    then show ?thesis using False 1(1)[OF False d(1)] numeric_only_digits[OF d(2)]
      by (simp add: commas.simps[of ds] numeric_only_Cons)
  qed
qed

lemma fixed_digits_shape:
  assumes "0 < f"
  obtains i d where "fixed_digits f n = i @ CHR ''.'' # d" "list_all is_digit i" "list_all is_digit d" "length d = f"
proof
  define ps where "ps = replicate (Suc f - length (nat_digits n)) (CHR ''0'') @ nat_digits n"
  have ps: "list_all is_digit ps" "Suc f \<le> length ps"
    using nat_digits_digit[of n] by (auto simp: ps_def list_all_iff is_digit_def)
  show "fixed_digits f n = take (length ps - f) ps @ CHR ''.'' # drop (length ps - f) ps"
    using assms by (simp add: fixed_digits_def ps_def Let_def)
  show "list_all is_digit (take (length ps - f) ps)" "list_all is_digit (drop (length ps - f) ps)" "length (drop (length ps - f) ps) = f"
    using ps by (auto simp: list_all_iff dest: in_set_takeD in_set_dropD)
qed

text \<open>With as many decimals as there are, the numeral without separators is the fixed notation.\<close>

lemma numeric_only_locale:
  assumes "0 < f"
  shows "numeric_only (locale_digits f f n) = fixed_digits f n"
proof -
  obtain i d where s: "fixed_digits f n = i @ CHR ''.'' # d" "list_all is_digit i" "list_all is_digit d" "length d = f"
    using fixed_digits_shape[OF assms] .
  have dot: "\<not> is_digit (CHR ''.'')" by (simp add: is_digit_def)
  then have t: "takeWhile (\<lambda>c. c \<noteq> CHR ''.'') (i @ CHR ''.'' # d) = i"
    using s(2) by (subst takeWhile_append2) (auto simp: list_all_iff)
  have "d \<noteq> []" using s(4) assms by auto
  then show ?thesis using s(2,3,4) assms
    by (simp add: locale_digits_def s(1) t Let_def strip_zeros_def numeric_only_commas numeric_only_Cons numeric_only_digits)
qed

text \<open>Reading an amount back gives the amount rounded to \<open>f\<close> decimals.\<close>

theorem read_locale:
  assumes "0 \<le> q" "0 < f"
  shows "Number (numeric_only (toLocale f f (Fin q))) = to_num (of_nat (nat \<lfloor>q * 10 ^ f + 1 / 2\<rfloor>) / 10 ^ f)"
  using assms by (simp add: numeric_only_locale Number_fixed_digits)

end
