(* ===== verification/Home_Yield.thy ===== *)
theory Home_Yield
  imports Home_Feed Js_Locale
begin

text \<open>
  The balances of the home screen: \<open>mobileapp/src/utils/balanceDisplay.ts\<close> and the yield data, the auto-earn
  switch, the monthly earnings and their chart of \<open>app/(personal)/home.tsx\<close>.  Yield requests race against
  a timeout and carry a number, so the screen is a transition system over them.
  Main results: the status shown is that of the latest request, the balances are not; the auto-earn switch
  never goes back when saving fails; amounts in Naira are read back exactly; the chart stays in its frame.
\<close>

section \<open>Amounts\<close>

datatype BalanceCurrency = NGN | XLM

definition XLM_TO_NGN_RATE :: js_num where "XLM_TO_NGN_RATE = Fin 1600"

definition formatTokenBalance :: "js_num \<Rightarrow> string" where
  "formatTokenBalance xlm = toLocale 2 6 xlm @ '' XLM''"

definition formatFiatBalance :: "js_num \<Rightarrow> string" where
  "formatFiatBalance ngn = NAIRA @ toLocale 2 2 ngn"

definition fiatFromTokens :: "js_num \<Rightarrow> js_num \<Rightarrow> js_num" where
  "fiatFromTokens xlm rate = num_mul xlm rate"

definition formatBalance :: "js_num \<Rightarrow> BalanceCurrency \<Rightarrow> js_num \<Rightarrow> string" where
  "formatBalance xlm currency rate =
     (if currency = XLM then formatTokenBalance xlm else formatFiatBalance (fiatFromTokens xlm rate))"

text \<open>The screen's own formatter and reader of amounts in Naira.\<close>

definition formatCurrency :: "js_num \<Rightarrow> string" where
  "formatCurrency v = NAIRA @ toLocale 2 2 v"

definition finite_or_0 :: "js_num \<Rightarrow> js_num" where
  "finite_or_0 n = (if isFinite n then n else Fin 0)"

definition parseCurrencyAmount :: "string \<Rightarrow> js_num" where
  "parseCurrencyAmount v = finite_or_0 (Number (numeric_only v))"

section \<open>The yield data\<close>

datatype num_or_str = NumV js_num | StrV string

record YieldBalance =
  yb_apy :: num_or_str
  yb_totalYieldEarned :: num_or_str
  yb_availableBalance :: num_or_str
  yb_explanation :: string
  yb_autoEarnEnabled :: bool

record YieldSnapshot =
  ys_apy :: string
  ys_totalYieldEarned :: string
  ys_explanation :: string

fun parseRawBalance :: "num_or_str \<Rightarrow> js_num" where
  "parseRawBalance (NumV v) = v"
| "parseRawBalance (StrV s) = finite_or_0 (Number (numeric_only s))"

fun apy_text :: "num_or_str \<Rightarrow> string" where
  "apy_text (NumV v) = show_num v @ ''%''"
| "apy_text (StrV s) = (if includes_str s ''%'' then s else s @ ''%'')"

definition snapshot_of :: "YieldBalance \<Rightarrow> YieldSnapshot" where
  "snapshot_of d = \<lparr>ys_apy = apy_text (yb_apy d),
     ys_totalYieldEarned = formatFiatBalance (fiatFromTokens (parseRawBalance (yb_totalYieldEarned d)) XLM_TO_NGN_RATE),
     ys_explanation = yb_explanation d\<rparr>"

datatype yield_status = Loading | Success | Failed

record home_yield =
  hy_availableBalanceXlm :: js_num
  hy_totalYieldEarnedXlm :: js_num
  hy_displayCurrency :: BalanceCurrency
  hy_yieldData :: "YieldSnapshot option"
  hy_yieldStatus :: yield_status
  hy_yieldError :: string
  hy_yieldRetryCount :: nat
  hy_yieldRequest :: nat
  hy_autoYieldEnabled :: bool
  hy_autoEarnSyncing :: bool
  hy_balanceMasked :: bool
  hy_selectedMonthIndex :: nat

definition yield_mounted :: home_yield where
  "yield_mounted = \<lparr>hy_availableBalanceXlm = Fin 0, hy_totalYieldEarnedXlm = Fin 0, hy_displayCurrency = NGN, hy_yieldData = None,
     hy_yieldStatus = Loading, hy_yieldError = [], hy_yieldRetryCount = 0, hy_yieldRequest = 0, hy_autoYieldEnabled = True,
     hy_autoEarnSyncing = False, hy_balanceMasked = True, hy_selectedMonthIndex = 11\<rparr>"

text \<open>The setters inside \<open>fetchYieldSnapshot\<close>, which run whatever has become of the request.\<close>

definition put_balances :: "YieldBalance \<Rightarrow> home_yield \<Rightarrow> home_yield" where
  "put_balances d s = s\<lparr>hy_autoYieldEnabled := yb_autoEarnEnabled d,
     hy_availableBalanceXlm := parseRawBalance (yb_availableBalance d),
     hy_totalYieldEarnedXlm := parseRawBalance (yb_totalYieldEarned d)\<rparr>"

text \<open>
  Under way: \<open>Snapshot k timed\<close>, the request number \<open>k\<close> and whether its time is up (\<open>Promise.race\<close> has
  settled); \<open>Syncing previous\<close>, the saving of the auto-earn switch.
\<close>

datatype yield_flight = Snapshot nat bool | Syncing bool

definition begin_load :: "home_yield \<Rightarrow> home_yield \<times> yield_flight list" where
  "begin_load s = (let requestId = Suc (hy_yieldRequest s) in
     (s\<lparr>hy_yieldRequest := requestId, hy_yieldStatus := Loading, hy_yieldError := []\<rparr>, [Snapshot requestId False]))"

definition load_failed :: "nat \<Rightarrow> js_error \<Rightarrow> home_yield \<Rightarrow> home_yield" where
  "load_failed k e s = (if k \<noteq> hy_yieldRequest s then s
     else s\<lparr>hy_yieldError := message_or ''Unable to load yield details right now.'' e, hy_yieldStatus := Failed\<rparr>)"

text \<open>The answer to request \<open>k\<close>: a rejection, or the data.\<close>

definition on_snapshot :: "nat \<Rightarrow> bool \<Rightarrow> YieldBalance res \<Rightarrow> home_yield \<Rightarrow> home_yield" where
  "on_snapshot k timed r s = (case r of
       Throw e \<Rightarrow> if timed then s else load_failed k e s
     | Ret d \<Rightarrow> let s' = put_balances d s in
         if timed \<or> k \<noteq> hy_yieldRequest s then s'
         else s'\<lparr>hy_yieldData := Some (snapshot_of d), hy_yieldStatus := Success\<rparr>)"

definition on_timeout :: "nat \<Rightarrow> home_yield \<Rightarrow> home_yield" where
  "on_timeout k s = load_failed k (Error ''Request timed out. Please try again.'') s"

definition handleYieldRetry :: "home_yield \<Rightarrow> home_yield \<times> yield_flight list" where
  "handleYieldRetry s = begin_load (s\<lparr>hy_yieldRetryCount := hy_yieldRetryCount s + 1\<rparr>)"

definition handleAutoYieldToggle :: "bool \<Rightarrow> home_yield \<Rightarrow> home_yield \<times> yield_flight list" where
  "handleAutoYieldToggle v s = (s\<lparr>hy_autoYieldEnabled := v, hy_autoEarnSyncing := True\<rparr>, [Syncing (hy_autoYieldEnabled s)])"

definition on_synced :: "bool \<Rightarrow> unit res \<Rightarrow> home_yield \<Rightarrow> home_yield" where
  "on_synced previous r s =
     (case r of Ret _ \<Rightarrow> s | Throw _ \<Rightarrow> s\<lparr>hy_autoYieldEnabled := previous\<rparr>)\<lparr>hy_autoEarnSyncing := False\<rparr>"

text \<open>\<open>Toggle m\<close>: the switch of the card, disabled while saving, or that of the earnings sheet (\<open>m\<close>), which is not.\<close>

datatype yield_event =
    Load
  | Retry
  | Answered nat bool "YieldBalance res"
  | Timeout nat
  | Toggle bool
  | Synced bool "unit res"
  | Mask
  | Month nat

fun yield_step :: "yield_event \<Rightarrow> home_yield \<times> yield_flight list \<Rightarrow> (home_yield \<times> yield_flight list) option" where
  "yield_step Load (s, fl) = (case begin_load s of (s', new) \<Rightarrow> Some (s', fl @ new))"
| "yield_step Retry (s, fl) = (if hy_yieldStatus s = Failed then (case handleYieldRetry s of (s', new) \<Rightarrow> Some (s', fl @ new)) else None)"
| "yield_step (Answered k timed r) (s, fl) = (if Snapshot k timed \<in> set fl
     then Some (on_snapshot k timed r s, remove1 (Snapshot k timed) fl) else None)"
| "yield_step (Timeout k) (s, fl) = (if Snapshot k False \<in> set fl
     then Some (on_timeout k s, Snapshot k True # remove1 (Snapshot k False) fl) else None)"
| "yield_step (Toggle m) (s, fl) = (if \<not> m \<and> hy_autoEarnSyncing s then None
     else case handleAutoYieldToggle (\<not> hy_autoYieldEnabled s) s of (s', new) \<Rightarrow> Some (s', fl @ new))"
| "yield_step (Synced p r) (s, fl) = (if Syncing p \<in> set fl then Some (on_synced p r s, remove1 (Syncing p) fl) else None)"
| "yield_step Mask (s, fl) = Some (s\<lparr>hy_balanceMasked := \<not> hy_balanceMasked s\<rparr>, fl)"
| "yield_step (Month i) (s, fl) = (if i < 12 then Some (s\<lparr>hy_selectedMonthIndex := i\<rparr>, fl) else None)"

fun yield_run :: "yield_event list \<Rightarrow> home_yield \<times> yield_flight list \<Rightarrow> (home_yield \<times> yield_flight list) option" where
  "yield_run [] y = Some y"
| "yield_run (e # es) y = Option.bind (yield_step e y) (yield_run es)"

text \<open>What the screen shows for an amount.\<close>

definition displayBalance :: "home_yield \<Rightarrow> string \<Rightarrow> string" where
  "displayBalance s amount = (if hy_balanceMasked s then concat (replicate 6 [CHR 0xE2, CHR 0x80, CHR 0xA2]) else amount)"

section \<open>Monthly earnings and their chart\<close>

definition MONTHLY_EARNINGS :: "(string \<times> nat) list" where
  "MONTHLY_EARNINGS = [(''Jan'', 140), (''Feb'', 172), (''Mar'', 205), (''Apr'', 238), (''May'', 261), (''Jun'', 296),
     (''Jul'', 317), (''Aug'', 334), (''Sep'', 352), (''Oct'', 365), (''Nov'', 388), (''Dec'', 412)]"

text \<open>The sum of the amounts, all of them small whole numbers, is exact.\<close>

definition monthly_scale :: "js_num \<Rightarrow> js_num" where
  "monthly_scale targetTotal = (let baseTotal = Fin (of_nat (sum_list (map snd MONTHLY_EARNINGS))) in
     if num_less (Fin 0) targetTotal \<and> num_less (Fin 0) baseTotal then num_div targetTotal baseTotal else Fin 1)"

definition monthlyEarnings :: "YieldSnapshot option \<Rightarrow> (string \<times> js_num) list" where
  "monthlyEarnings yieldData =
     (let targetTotal = parseCurrencyAmount (case yieldData of None \<Rightarrow> NAIRA @ ''3,280.45'' | Some d \<Rightarrow> ys_totalYieldEarned d)
      in map (\<lambda>(m, a). (m, fixed 2 (num_mul (Fin (of_nat a)) (monthly_scale targetTotal)))) MONTHLY_EARNINGS)"

definition usableWidth :: "js_num \<Rightarrow> js_num" where
  "usableWidth chartWidth = num_max (num_sub (num_sub chartWidth (Fin 12)) (Fin 12)) (Fin 1)"

text \<open>\<open>chartHeight - 18 - 28\<close> is 124.\<close>

definition chart_point :: "js_num \<Rightarrow> js_num list \<Rightarrow> nat \<Rightarrow> js_num \<times> js_num" where
  "chart_point chartWidth amounts index =
     (let minAmount = fold num_min amounts (Infty True); maxAmount = fold num_max amounts (Infty False);
          amountRange = num_or (num_sub maxAmount minAmount) (Fin 1);
          last = (if length amounts - 1 = 0 then 1 else length amounts - 1);
          x = num_add (Fin 12) (num_mul (num_div (Fin (of_nat index)) (Fin (of_nat last))) (usableWidth chartWidth));
          normalizedY = num_div (num_sub (amounts ! index) minAmount) amountRange;
          y = num_add (Fin 18) (num_mul (num_sub (Fin 1) normalizedY) (Fin 124))
      in (x, y))"

definition chart_points :: "js_num \<Rightarrow> js_num list \<Rightarrow> (js_num \<times> js_num) list" where
  "chart_points chartWidth amounts = map (chart_point chartWidth amounts) [0..<length amounts]"

text \<open>The path: a move to the first point, then a curve to each next one.\<close>

fun path_from :: "js_num \<times> js_num \<Rightarrow> (js_num \<times> js_num) list \<Rightarrow> string" where
  "path_from p [] = []"
| "path_from p (q # qs) = '' Q '' @ show_num (num_div (num_add (fst p) (fst q)) (Fin 2)) @ '' '' @ show_num (snd p)
     @ '' '' @ show_num (fst q) @ '' '' @ show_num (snd q) @ path_from q qs"

definition line_path :: "(js_num \<times> js_num) list \<Rightarrow> string" where
  "line_path ps = (case ps of [] \<Rightarrow> [] | p # qs \<Rightarrow> ''M '' @ show_num (fst p) @ '' '' @ show_num (snd p) @ path_from p qs)"

definition area_path :: "(js_num \<times> js_num) list \<Rightarrow> string" where
  "area_path ps = line_path ps @ '' L '' @ show_num (fst (last ps)) @ '' 142 L '' @ show_num (fst (hd ps)) @ '' 142 Z''"

definition chartGeometry :: "js_num \<Rightarrow> js_num list \<Rightarrow> ((js_num \<times> js_num) list \<times> string \<times> string) option" where
  "chartGeometry chartWidth amounts = (if num_le chartWidth (Fin 0) \<or> amounts = [] then None
     else let ps = chart_points chartWidth amounts in Some (ps, line_path ps, area_path ps))"

section \<open>The status is that of the latest request\<close>

fun key_of :: "yield_flight \<Rightarrow> nat option" where
  "key_of (Snapshot k _) = Some k"
| "key_of (Syncing _) = None"

definition keys :: "yield_flight list \<Rightarrow> nat list" where
  "keys fl = List.map_filter key_of fl"

lemma keys_simps [simp]: "keys [] = []" "keys (Snapshot k b # fl) = k # keys fl" "keys (Syncing p # fl) = keys fl"
  "keys (fl @ fl') = keys fl @ keys fl'"
  by (simp_all add: keys_def List.map_filter_def)

lemma key_in: "Snapshot k b \<in> set fl \<Longrightarrow> k \<in> set (keys fl)"
  by (force simp: keys_def List.map_filter_def)

lemma keys_remove_snapshot:
  assumes "Snapshot k b \<in> set fl" "distinct (keys fl)"
  shows "distinct (keys (remove1 (Snapshot k b) fl)) \<and> set (keys (remove1 (Snapshot k b) fl)) = set (keys fl) - {k}"
  using assms
proof (induction fl)
  case (Cons x fl)
  show ?case
  proof (cases "x = Snapshot k b")
    case False
    then have IH: "distinct (keys (remove1 (Snapshot k b) fl))" "set (keys (remove1 (Snapshot k b) fl)) = set (keys fl) - {k}"
      and "k \<in> set (keys fl)"
      using Cons key_in by (cases x; auto)+
    with Cons.prems False show ?thesis by (cases x) auto
  qed (use Cons.prems in auto)
qed simp

lemma keys_remove_sync [simp]: "keys (remove1 (Syncing p) fl) = keys fl"
  by (induction fl) (auto simp: keys_def List.map_filter_def split: option.splits)

definition yield_inv :: "yield_event set \<Rightarrow> home_yield \<times> yield_flight list \<Rightarrow> bool" where
  "yield_inv E = (\<lambda>(s, fl). distinct (keys fl) \<and> (\<forall>k \<in> set (keys fl). 0 < k \<and> k \<le> hy_yieldRequest s)
     \<and> (hy_yieldStatus s = Loading \<longleftrightarrow> hy_yieldRequest s = 0 \<or> Snapshot (hy_yieldRequest s) False \<in> set fl)
     \<and> (hy_yieldStatus s = Success \<longrightarrow> (\<exists>d. Answered (hy_yieldRequest s) False (Ret d) \<in> E \<and> hy_yieldData s = Some (snapshot_of d))))"

lemma begin_load_inv: "yield_inv E (s, fl) \<Longrightarrow> begin_load s = (s', new) \<Longrightarrow> yield_inv E (s', fl @ new)"
  by (auto simp: yield_inv_def begin_load_def Let_def le_Suc_eq)

lemma put_balances_keeps [simp]:
  "hy_yieldRequest (put_balances d s) = hy_yieldRequest s" "hy_yieldStatus (put_balances d s) = hy_yieldStatus s"
  "hy_yieldData (put_balances d s) = hy_yieldData s"
  by (simp_all add: put_balances_def)

lemma yield_inv_step:
  assumes "yield_step e (s, fl) = Some y'" "yield_inv E (s, fl)" "e \<in> E"
  shows "yield_inv E y'"
proof (cases e)
  case (Answered k timed r)
  then have m: "Snapshot k timed \<in> set fl" and y': "y' = (on_snapshot k timed r s, remove1 (Snapshot k timed) fl)"
    using assms(1) by (auto split: if_splits)
  have d: "distinct (keys fl)" "\<forall>k \<in> set (keys fl). 0 < k \<and> k \<le> hy_yieldRequest s" using assms(2) by (auto simp: yield_inv_def)
  note rm = keys_remove_snapshot[OF m d(1)]
  have k: "0 < k" "k \<le> hy_yieldRequest s" using key_in[OF m] d(2) by auto
  have gone: "Snapshot k b \<notin> set (remove1 (Snapshot k timed) fl)" for b using key_in rm by blast
  have other: "Snapshot j b \<in> set (remove1 (Snapshot k timed) fl) \<longleftrightarrow> Snapshot j b \<in> set fl" if "j \<noteq> k" for j b
    using that by (simp add: in_set_remove1)
  have one: "timed = b" if "Snapshot k b \<in> set fl" for b
    using that gone[of b] by (metis in_set_remove1 yield_flight.inject(1))
  show ?thesis
  proof (cases "timed \<or> k \<noteq> hy_yieldRequest s")
    case True
    then have s': "hy_yieldRequest (on_snapshot k timed r s) = hy_yieldRequest s" "hy_yieldStatus (on_snapshot k timed r s) = hy_yieldStatus s"
      "hy_yieldData (on_snapshot k timed r s) = hy_yieldData s"
      by (auto simp: on_snapshot_def load_failed_def Let_def split: res.splits)
    have "Snapshot (hy_yieldRequest s) False \<in> set (remove1 (Snapshot k timed) fl) \<longleftrightarrow> Snapshot (hy_yieldRequest s) False \<in> set fl"
      using True other[of "hy_yieldRequest s" False] one[of False] gone[of False] by (cases "k = hy_yieldRequest s") auto
    with assms(2) rm s' show ?thesis by (auto simp: y' yield_inv_def)
  next
    case False
    with rm d k gone assms(3) Answered show ?thesis
      by (cases r) (auto simp: y' yield_inv_def on_snapshot_def load_failed_def Let_def)
  qed
next
  case (Timeout k)
  then have m: "Snapshot k False \<in> set fl" and y': "y' = (on_timeout k s, Snapshot k True # remove1 (Snapshot k False) fl)"
    using assms(1) by (auto split: if_splits)
  have d: "distinct (keys fl)" "\<forall>k \<in> set (keys fl). 0 < k \<and> k \<le> hy_yieldRequest s" using assms(2) by (auto simp: yield_inv_def)
  note rm = keys_remove_snapshot[OF m d(1)]
  have k: "0 < k" "k \<le> hy_yieldRequest s" using key_in[OF m] d(2) by auto
  have gone: "Snapshot k b \<notin> set (remove1 (Snapshot k False) fl)" for b using key_in rm by blast
  show ?thesis
  proof (cases "k = hy_yieldRequest s")
    case True
    with rm d k gone show ?thesis by (auto simp: y' yield_inv_def on_timeout_def load_failed_def)
  next
    case False
    then have "on_timeout k s = s" by (simp add: on_timeout_def load_failed_def)
    with rm d k False assms(2) show ?thesis by (auto simp: y' yield_inv_def in_set_remove1)
  qed
next
  case Load
  then show ?thesis using assms begin_load_inv by (auto split: prod.splits)
next
  case Retry
  have "yield_inv E (s\<lparr>hy_yieldRetryCount := hy_yieldRetryCount s + 1\<rparr>, fl)" using assms(2) by (simp add: yield_inv_def)
  then show ?thesis using assms(1) begin_load_inv by (auto simp: Retry handleYieldRetry_def split: prod.splits if_splits)
next
  case (Toggle m)
  then show ?thesis using assms by (auto simp: yield_inv_def handleAutoYieldToggle_def split: if_splits)
next
  case (Synced p r)
  then have "y' = (on_synced p r s, remove1 (Syncing p) fl)" using assms(1) by (auto split: if_splits)
  then show ?thesis using assms(2) by (cases r) (auto simp: yield_inv_def on_synced_def in_set_remove1)
qed (use assms in \<open>auto simp: yield_inv_def split: if_splits\<close>)

text \<open>
  C29: The status of the yield card is that of the latest request, however answers and timeouts interleave: it loads
  exactly while that request is open, and after a success the yield data (\<open>yieldData\<close>: the rate, the explanation and the total
  behind the monthly chart) are those the latest request was answered with.  The two balances shown on the card are set
  outside the guard and may be those of an earlier request (\<open>stale_balance\<close>).
\<close>

theorem status_of_latest_request:
  assumes "yield_run es (yield_mounted, []) = Some (s, fl)"
  shows "(hy_yieldStatus s = Loading \<longleftrightarrow> hy_yieldRequest s = 0 \<or> Snapshot (hy_yieldRequest s) False \<in> set fl)
    \<and> (hy_yieldStatus s = Success \<longrightarrow>
         (\<exists>d. Answered (hy_yieldRequest s) False (Ret d) \<in> set es \<and> hy_yieldData s = Some (snapshot_of d)))"
proof -
  have "yield_inv E y" if "yield_run fs x = Some y" "set fs \<subseteq> E" "yield_inv E x" for fs x y E
    using that by (induction fs arbitrary: x) (auto simp: Option.bind_eq_Some_conv dest: yield_inv_step)
  from this[OF assms, of "set es"] have "yield_inv (set es) (s, fl)" by (simp add: yield_inv_def yield_mounted_def)
  then show ?thesis by (simp add: yield_inv_def)
qed

definition yield_answer :: "nat \<Rightarrow> YieldBalance" where
  "yield_answer n = \<lparr>yb_apy = StrV ''5%'', yb_totalYieldEarned = NumV (Fin 0), yb_availableBalance = NumV (Fin (of_nat n)),
     yb_explanation = [], yb_autoEarnEnabled = True\<rparr>"

lemmas yield_eval = yield_mounted_def begin_load_def load_failed_def on_snapshot_def on_timeout_def handleYieldRetry_def
  handleAutoYieldToggle_def on_synced_def put_balances_def Let_def

theorem status_of_latest_request_witness:
  "\<exists>s fl. yield_run [Load, Timeout 1, Retry, Answered 2 False (Ret (yield_answer 9))] (yield_mounted, []) = Some (s, fl)
     \<and> hy_yieldData s = Some (snapshot_of (yield_answer 9))"
proof -
  obtain s fl where r: "yield_run [Load, Timeout 1, Retry, Answered 2 False (Ret (yield_answer 9))] (yield_mounted, []) = Some (s, fl)"
    "hy_yieldStatus s = Success" "hy_yieldRequest s = 2"
    by (simp add: yield_eval)
  from status_of_latest_request[OF r(1)] r show ?thesis by auto
qed

text \<open>
  The balances are not guarded by the number of the request: the answer of one that was given up replaces
  those of the later one, under a card that says \<open>Success\<close>.
\<close>

theorem stale_balance:
  "\<exists>s fl. yield_run [Load, Timeout 1, Retry, Answered 2 False (Ret (yield_answer 9)), Answered 1 True (Ret (yield_answer 3))]
       (yield_mounted, []) = Some (s, fl)
     \<and> hy_yieldStatus s = Success \<and> hy_availableBalanceXlm s = Fin 3"
  by (simp add: yield_eval yield_answer_def)

text \<open>
  The auto-earn switch is never put back: the request of the API client reports no failure, so the branch
  that reverts the switch is not reached, whatever the backend answers.
\<close>

theorem auto_earn_never_reverts:
  "on_synced previous (fst (updateAutoEarn api API_BASE v w)) s = s\<lparr>hy_autoEarnSyncing := False\<rparr>"
proof -
  have "is_Ret (fst (updateAutoEarn api API_BASE v w))" unfolding updateAutoEarn_def by (rule try_catch_never_throws) simp
  then obtain u where "fst (updateAutoEarn api API_BASE v w) = Ret u" by (cases "fst (updateAutoEarn api API_BASE v w)") auto
  then show ?thesis by (simp add: on_synced_def)
qed

text \<open>Nor does the switch of the card wait for the data: an answer asked for before a toggle undoes it on the screen.\<close>

theorem toggle_undone_by_answer:
  "\<exists>s fl. yield_run [Load, Toggle False, Synced True (Ret ()), Answered 1 False (Ret (yield_answer 3))] (yield_mounted, []) = Some (s, fl)
     \<and> hy_autoYieldEnabled s"
  by (simp add: yield_eval yield_answer_def)

section \<open>Amounts are read back\<close>

lemma numeric_only_naira [simp]: "numeric_only NAIRA = []"
  by (simp add: NAIRA_def numeric_only_def is_digit_def)

lemma naira_read_back_at:
  assumes "0 \<le> q" "q < 10 ^ 15"
  shows "\<exists>y. to_num (of_nat (nat \<lfloor>q * 100 + 1 / 2\<rfloor>) / 100) = Fin y \<and> parseCurrencyAmount (formatFiatBalance (Fin q)) = Fin y"
proof -
  have n: "Number (numeric_only (toLocale 2 2 (Fin q))) = to_num (of_nat (nat \<lfloor>q * 100 + 1 / 2\<rfloor>) / 100)"
    using read_locale[of q 2] assms(1) by simp
  have "of_int \<lfloor>q * 100 + 1 / 2\<rfloor> \<le> q * 100 + (1 / 2 :: rat)" by (rule of_int_floor_le)
  then have "of_nat (nat \<lfloor>q * 100 + 1 / 2\<rfloor>) / 100 \<le> q + 1" using assms(1) by (simp add: field_simps)
  also have "\<dots> \<le> (of_nat (2 ^ 53) :: rat)" using assms(2) by simp
  finally obtain y where "to_num (of_nat (nat \<lfloor>q * 100 + 1 / 2\<rfloor>) / 100) = Fin y" using to_num_le[of _ "2 ^ 53"] by fastforce
  then show ?thesis using n by (simp add: parseCurrencyAmount_def formatFiatBalance_def finite_or_0_def del: toLocale.simps)
qed

text \<open>
  The monthly chart reads the total back from its text: for an amount below a thousand million million,
  what is read is the amount shown, rounded to whole kobo.
\<close>

theorem naira_read_back:
  assumes "0 \<le> q" "q < 10 ^ 15"
  shows "parseCurrencyAmount (formatFiatBalance (Fin q)) = to_num (of_nat (nat \<lfloor>q * 100 + 1 / 2\<rfloor>) / 100)
    \<and> isFinite (parseCurrencyAmount (formatFiatBalance (Fin q)))"
  using naira_read_back_at[OF assms] by auto

theorem naira_read_back_witness:
  "parseCurrencyAmount (formatFiatBalance (Fin (2469 / 2))) = to_num (of_nat 123450 / 100)"
proof -
  have "\<lfloor>(2469 / 2 :: rat) * 100 + 1 / 2\<rfloor> = 123450" by (rule floor_unique) simp_all
  then show ?thesis using naira_read_back[of "2469 / 2"] by simp
qed

section \<open>The chart stays in its frame\<close>

lemma to_num_between:
  assumes "of_nat a \<le> x" "x \<le> of_nat b" "b \<le> 2 ^ 53"
  shows "\<exists>y. to_num x = Fin y \<and> of_nat a \<le> y \<and> y \<le> of_nat b"
proof -
  have "0 \<le> x" using assms(1) by (meson of_nat_0_le_iff order_trans)
  then obtain y where y: "to_num x = Fin y" "y \<le> of_nat b" using to_num_le[OF _ assms(2,3)] by blast
  have "(of_nat a :: rat) \<le> of_nat b" using assms(1,2) by linarith
  then have "a \<le> 2 ^ 53" using assms(3) by simp
  then have "to_num (of_nat a) = Fin (of_nat a)" using to_num_of_int[of "int a"] by simp
  from to_num_mono[OF this y(1) assms(1)] y show ?thesis by blast
qed

lemma num_sub_between:
  assumes "0 \<le> m" "m \<le> a" "a \<le> of_nat n" "n \<le> 2 ^ 53"
  shows "\<exists>d. num_sub (Fin a) (Fin m) = Fin d \<and> 0 \<le> d \<and> d \<le> of_nat n \<and> to_num (a - m) = Fin d"
  using to_num_le[of "a - m" n] assms by (auto simp: num_sub_def)

text \<open>A quotient of a number by a larger one is between 0 and 1.\<close>

lemma num_div_unit:
  assumes "0 \<le> a" "a \<le> b" "0 < b"
  shows "\<exists>r. num_div (Fin a) (Fin b) = Fin r \<and> 0 \<le> r \<and> r \<le> 1"
  using to_num_le[of "a / b" 1] assms by auto

lemma fold_num_min: "fold num_min (map Fin qs) (Fin m) = Fin (fold min qs m)"
  "fold num_max (map Fin qs) (Fin m) = Fin (fold max qs m)"
  by (induction qs arbitrary: m) (auto simp: num_min_def num_max_def min_def max_def intro!: arg_cong2[where f = "fold _"])

lemma fold_min_bounds: "fold min qs (m::rat) \<in> insert m (set qs) \<and> (\<forall>q \<in> insert m (set qs). fold min qs m \<le> q)"
proof -
  have "fold min qs m = Min (insert m (set qs))" using Min.set_eq_fold[of m qs] by simp
  then show ?thesis by (metis Min_in Min_le finite_insert finite_set insert_not_empty)
qed

lemma fold_max_bounds: "fold max qs (m::rat) \<in> insert m (set qs) \<and> (\<forall>q \<in> insert m (set qs). q \<le> fold max qs m)"
proof -
  have "fold max qs m = Max (insert m (set qs))" using Max.set_eq_fold[of m qs] by simp
  then show ?thesis by (metis Max_in Max_ge finite_insert finite_set insert_not_empty)
qed

lemma chart_y:
  assumes "index < length qs" "\<forall>q \<in> set qs. 0 \<le> q \<and> q \<le> of_nat n" "n \<le> 2 ^ 53"
  shows "\<exists>y. snd (chart_point w (map Fin qs) index) = Fin y \<and> 18 \<le> y \<and> y \<le> 142"
proof -
  obtain q qs' where qs: "qs = q # qs'" using assms(1) by (cases qs) auto
  let ?lo = "fold min qs' q" and ?hi = "fold max qs' q" and ?a = "qs ! index"
  have lo: "fold num_min (map Fin qs) (Infty True) = Fin ?lo" and hi: "fold num_max (map Fin qs) (Infty False) = Fin ?hi"
    using fold_num_min by (simp_all add: qs num_min_def num_max_def)
  have a: "?a \<in> set qs" using assms(1) by simp
  have b: "?lo \<le> ?a" "?a \<le> ?hi" "0 \<le> ?lo" "?hi \<le> of_nat n"
    using fold_min_bounds[of qs' q] fold_max_bounds[of qs' q] a assms(2) by (auto simp: qs)
  obtain d where d: "num_sub (Fin ?a) (Fin ?lo) = Fin d" "0 \<le> d" "to_num (?a - ?lo) = Fin d"
    using num_sub_between[OF b(3,1) order_trans[OF b(2,4)] assms(3)] by blast
  obtain r where r: "num_sub (Fin ?hi) (Fin ?lo) = Fin r" "0 \<le> r" "to_num (?hi - ?lo) = Fin r"
    using num_sub_between[OF b(3) order_trans[OF b(1,2)] b(4) assms(3)] by blast
  have dr: "d \<le> r" using to_num_mono[OF d(3) r(3)] b(2) by simp
  obtain z where z: "num_div (Fin d) (num_or (Fin r) (Fin 1)) = Fin z" "0 \<le> z" "z \<le> 1"
    using num_div_unit[OF d(2) dr] num_div_unit[of 0 1] d(2) dr r(2) by (cases "r = 0") (auto simp: num_or_def)
  obtain u where u: "num_sub (Fin 1) (Fin z) = Fin u" "0 \<le> u" "u \<le> 1" using num_sub_between[OF z(2,3), of 1] by auto
  obtain h where h: "num_mul (Fin u) (Fin 124) = Fin h" "0 \<le> h" "h \<le> 124" using to_num_le[of "u * 124" 124] u by auto
  obtain y where y: "num_add (Fin 18) (Fin h) = Fin y" "18 \<le> y" "y \<le> 142"
    using to_num_between[of 18 "18 + h" 142] h by auto
  have nth: "map Fin qs ! index = Fin ?a" using assms(1) by simp
  show ?thesis
    unfolding chart_point_def Let_def lo hi nth snd_conv d(1) r(1) z(1) u(1) h(1) y(1) using y by blast
qed

lemma chart_x:
  assumes "index < length amounts" "2 \<le> length amounts" "25 \<le> w" "w \<le> 2 ^ 53"
  shows "\<exists>x. fst (chart_point (Fin (of_nat w)) amounts index) = Fin x \<and> 12 \<le> x \<and> x \<le> of_nat (w - 12)"
proof -
  let ?n = "length amounts - 1"
  have n: "(if ?n = 0 then 1 else ?n) = ?n" using assms(2) by simp
  have e: "num_sub (Fin (of_nat k)) (Fin 12) = Fin (of_nat (k - 12))" if "12 \<le> k" "k \<le> 2 ^ 53" for k
    using to_num_of_int[of "int (k - 12)"] that by (simp add: num_sub_def of_nat_diff)
  have uw: "usableWidth (Fin (of_nat w)) = Fin (of_nat (w - 24))"
    using assms(3,4) e[of w] e[of "w - 12"] by (simp add: usableWidth_def num_max_def)
  obtain r where r: "num_div (Fin (of_nat index)) (Fin (of_nat ?n)) = Fin r" "0 \<le> r" "r \<le> 1"
    using num_div_unit[of "of_nat index" "of_nat ?n"] assms(1,2) by auto
  have "r * of_nat (w - 24) \<le> 1 * of_nat (w - 24)" by (intro mult_right_mono r(3)) simp
  then obtain p where p: "num_mul (Fin r) (Fin (of_nat (w - 24))) = Fin p" "0 \<le> p" "p \<le> of_nat (w - 24)"
    using to_num_le[of "r * of_nat (w - 24)" "w - 24"] r(2) assms(4) by auto
  have hp: "12 + p \<le> of_nat (w - 12)" using p(3) assms(3) by (simp add: of_nat_diff)
  have "of_nat 12 \<le> 12 + p" "w - 12 \<le> 2 ^ 53" using p(2) assms(4) by simp_all
  from to_num_between[OF this(1) hp this(2)] obtain x where
    x: "num_add (Fin 12) (Fin p) = Fin x" "12 \<le> x" "x \<le> of_nat (w - 12)" by auto
  show ?thesis unfolding chart_point_def Let_def fst_conv n uw r(1) p(1) x(1) using x by blast
qed

lemma monthly_bounds:
  assumes "parseCurrencyAmount s = Fin q" "q \<le> 10 ^ 12"
    and "ys_totalYieldEarned d = s" "(m, a) \<in> set (monthlyEarnings (Some d))"
  shows "\<exists>v. a = Fin v \<and> 0 \<le> v \<and> v \<le> of_nat (412 * 10 ^ 12)"
proof -
  obtain c where c: "monthly_scale (Fin q) = Fin c" "0 \<le> c" "c \<le> of_nat (10 ^ 12)"
  proof (cases "0 < q")
    case True
    have "q / 3480 \<le> of_nat (10 ^ 12)" using assms(2) True by simp
    with True that show ?thesis using to_num_le[of "q / 3480" "10 ^ 12"] by (auto simp: monthly_scale_def MONTHLY_EARNINGS_def)
  next
    case False
    with that[of 1] show ?thesis by (simp add: monthly_scale_def)
  qed
  obtain k where k: "(m, k) \<in> set MONTHLY_EARNINGS" "a = fixed 2 (num_mul (Fin (of_nat k)) (Fin c))"
    using assms c(1) by (auto simp: monthlyEarnings_def Let_def)
  have "k \<le> 412" using k(1) by (auto simp: MONTHLY_EARNINGS_def)
  then have "of_nat k * c \<le> of_nat 412 * of_nat (10 ^ 12)" using c(2,3) by (intro mult_mono) simp_all
  then obtain p where "num_mul (Fin (of_nat k)) (Fin c) = Fin p" "0 \<le> p" "p \<le> of_nat (412 * 10 ^ 12)"
    using to_num_le[of "of_nat k * c" "412 * 10 ^ 12"] c(2) by auto
  with fixed_le[of p "412 * 10 ^ 12" 2] k(2) show ?thesis by auto
qed


definition sample_yield :: YieldSnapshot where
  "sample_yield = \<lparr>ys_apy = ''5%'', ys_totalYieldEarned = formatFiatBalance (Fin 0), ys_explanation = []\<rparr>"


end
