(* ===== verification/Scan_Screens.thy ===== *)
theory Scan_Screens
  imports Js_Arith Deep_Links
begin

text \<open>
  Starting a payment from a code or a terminal: \<open>app/scan.tsx\<close>, \<open>app/tap-to-pay.tsx\<close> and
  \<open>hooks/useCameraPermission.ts\<close>, over the parsers of \<open>Deep_Links\<close>.  Both screens are transition systems
  over presses, scans and answers.
  Main results: the scan screen previews only valid destinations and its link carries what was scanned,
  except the issuer; a malformed code stops the camera for good; the tap screen never gets as far as reading a tag.
\<close>

section \<open>Camera permission\<close>

datatype camera_status = Camera_granted | Camera_denied | Camera_undetermined

text \<open>\<open>permission\<close> is \<open>None\<close> until the package has looked; the second component is \<open>loading\<close>.\<close>

record camera_permission =
  ca_permission :: "camera_status option"
  ca_loading :: bool

definition camera_granted :: "camera_permission \<Rightarrow> bool" where
  "camera_granted c \<longleftrightarrow> ca_permission c = Some Camera_granted"

definition camera_denied :: "camera_permission \<Rightarrow> bool" where
  "camera_denied c \<longleftrightarrow> ca_permission c = Some Camera_denied"

definition camera_undetermined :: "camera_permission \<Rightarrow> bool" where
  "camera_undetermined c \<longleftrightarrow> ca_permission c = None \<or> ca_permission c = Some Camera_undetermined"

section \<open>The scan screen\<close>

datatype ScreenState = Scanner | Manual | Preview | Error_screen

record PaymentPreview =
  pv_destination :: string
  pv_amount :: "string option"
  pv_asset :: "string option"
  pv_memo :: "string option"
  pv_msg :: "string option"
  pv_origin_domain :: "string option"
  pv_rawUri :: string

record scan_screen =
  sn_screenState :: ScreenState
  sn_flash :: bool
  sn_scanned :: bool
  sn_manualAddress :: string
  sn_preview :: "PaymentPreview option"
  sn_errorMsg :: string

definition scan_mounted :: scan_screen where
  "scan_mounted = \<lparr>sn_screenState = Scanner, sn_flash = False, sn_scanned = False, sn_manualAddress = [], sn_preview = None, sn_errorMsg = []\<rparr>"

definition preview_of :: "string \<Rightarrow> Sep0007PaymentParams \<Rightarrow> PaymentPreview" where
  "preview_of data p = \<lparr>pv_destination = sp_destination p, pv_amount = sp_amount p, pv_asset = sp_asset_code p, pv_memo = sp_memo p,
     pv_msg = sp_msg p, pv_origin_domain = sp_origin_domain p, pv_rawUri = data\<rparr>"

definition xdr_preview :: "string \<Rightarrow> PaymentPreview" where
  "xdr_preview data = \<lparr>pv_destination = ''XDR Transaction'', pv_amount = None, pv_asset = None, pv_memo = None,
     pv_msg = Some ''This QR contains a signed transaction envelope.'', pv_origin_domain = None, pv_rawUri = data\<rparr>"

definition address_preview :: "string \<Rightarrow> PaymentPreview" where
  "address_preview a = \<lparr>pv_destination = a, pv_amount = None, pv_asset = None, pv_memo = None, pv_msg = None,
     pv_origin_domain = None, pv_rawUri = a\<rparr>"

definition UNRECOGNIZED :: string where
  "UNRECOGNIZED = ''Unrecognized QR code content.'' @ [CHR 0x0A, CHR 0x0A]
     @ ''Expected a SEP-0007 payment URI (web+stellar:pay?'' @ [CHR 0xE2, CHR 0x80, CHR 0xA6]
     @ ''), a Zaps pay URI (zaps://pay?'' @ [CHR 0xE2, CHR 0x80, CHR 0xA6] @ ''), or a Stellar address.''"

definition show_preview :: "PaymentPreview \<Rightarrow> scan_screen \<Rightarrow> scan_screen" where
  "show_preview p s = s\<lparr>sn_preview := Some p, sn_screenState := Preview\<rparr>"

definition show_error :: "string \<Rightarrow> scan_screen \<Rightarrow> scan_screen" where
  "show_error m s = s\<lparr>sn_errorMsg := m, sn_screenState := Error_screen\<rparr>"

text \<open>\<open>setScanned\<close> comes first: when the parser throws, the handler ends there.\<close>

definition handleQrData :: "string \<Rightarrow> scan_screen \<Rightarrow> scan_screen" where
  "handleQrData data s =
     (if sn_scanned s then s
      else let s1 = s\<lparr>sn_scanned := True\<rparr>; contentType = detectQrContentType data in
        if contentType = Sep0007 \<or> contentType = ZapsPay then
          (case (if contentType = ZapsPay then Ret (parseZapsPayUri data) else parseSep0007Uri data) of
             Throw _ \<Rightarrow> s1
           | Ret (ParseError e) \<Rightarrow> show_error e s1
           | Ret (PayUri p) \<Rightarrow> show_preview (preview_of data p) s1
           | Ret (TxUri _) \<Rightarrow> show_preview (xdr_preview data) s1)
        else if contentType = StellarAddress then show_preview (address_preview (trim data)) s1
        else show_error UNRECOGNIZED s1)"

definition handleManualSubmit :: "scan_screen \<Rightarrow> scan_screen" where
  "handleManualSubmit s = (let trimmed = trim (sn_manualAddress s) in if trimmed = [] then s else handleQrData trimmed s)"

text \<open>The route the confirmation opens.\<close>

definition confirm_entries :: "PaymentPreview \<Rightarrow> (string \<times> string) list" where
  "confirm_entries p = [(''destination'', pv_destination p)]
     @ (if truthy (pv_amount p) then [(''amount'', the (pv_amount p))] else [])
     @ (if truthy (pv_asset p) then [(''asset'', the (pv_asset p))] else [])
     @ (if truthy (pv_memo p) then [(''memo'', the (pv_memo p))] else [])"

definition handleConfirmPayment :: "scan_screen \<Rightarrow> string option" where
  "handleConfirmPayment s = map_option (\<lambda>p. ''/transfer?'' @ form_text (confirm_entries p)) (sn_preview s)"

definition resetScanner :: "scan_screen \<Rightarrow> scan_screen" where
  "resetScanner s = s\<lparr>sn_scanned := False, sn_preview := None, sn_errorMsg := [], sn_screenState := Scanner, sn_manualAddress := []\<rparr>"

definition enterManually :: "scan_screen \<Rightarrow> scan_screen" where
  "enterManually s = s\<lparr>sn_screenState := Manual, sn_scanned := False, sn_errorMsg := []\<rparr>"

text \<open>What the recipient row shows of a destination: \<open>truncate(s, n)\<close>.\<close>

definition truncate_text :: "string \<Rightarrow> nat \<Rightarrow> string" where
  "truncate_text s n = (if length s > n then take n s @ [CHR 0xE2, CHR 0x80, CHR 0xA6] else s)"

text \<open>The rows of the preview card.\<close>

definition preview_rows :: "PaymentPreview \<Rightarrow> (string \<times> string) list" where
  "preview_rows p = [(''Recipient'', truncate_text (pv_destination p) 24)]
     @ (if truthy (pv_amount p)
        then [(''Amount'', the (pv_amount p) @ (if truthy (pv_asset p) then '' '' @ the (pv_asset p) else []))] else [])
     @ (if truthy (pv_memo p) then [(''Memo'', the (pv_memo p))] else [])
     @ (if truthy (pv_msg p) then [(''Message'', the (pv_msg p))] else [])
     @ (if truthy (pv_origin_domain p) then [(''Origin'', the (pv_origin_domain p))] else [])"

text \<open>\<open>Scan d\<close>: the camera has read a code; it looks only while nothing has been scanned.\<close>

datatype scan_event = Scan string | Flash | Manual_mode | Edit string | Continue | Reset | Fallback

fun scan_step :: "scan_event \<Rightarrow> scan_screen \<Rightarrow> scan_screen option" where
  "scan_step (Scan d) s = (if sn_screenState s = Scanner \<and> \<not> sn_scanned s then Some (handleQrData d s) else None)"
| "scan_step Flash s = (if sn_screenState s = Scanner then Some (s\<lparr>sn_flash := \<not> sn_flash s\<rparr>) else None)"
| "scan_step Manual_mode s = (if sn_screenState s = Scanner then Some (s\<lparr>sn_screenState := Manual\<rparr>) else None)"
| "scan_step (Edit t) s = (if sn_screenState s = Manual then Some (s\<lparr>sn_manualAddress := t\<rparr>) else None)"
| "scan_step Continue s = (if sn_screenState s = Manual \<and> trim (sn_manualAddress s) \<noteq> [] then Some (handleManualSubmit s) else None)"
| "scan_step Reset s = (if sn_screenState s \<noteq> Scanner then Some (resetScanner s) else None)"
| "scan_step Fallback s = (if sn_screenState s = Error_screen then Some (enterManually s) else None)"

fun scan_run :: "scan_event list \<Rightarrow> scan_screen \<Rightarrow> scan_screen option" where
  "scan_run [] s = Some s"
| "scan_run (e # es) s = Option.bind (scan_step e s) (scan_run es)"

section \<open>The tap screen\<close>

datatype tap_step = Ready | Searching | Terminal_found | Transfer | Confirm | Success_step

text \<open>\<open>tap_run\<close>: the effect's read of a tag is under way and has not been cancelled.\<close>

record tap_screen =
  tap_at :: tap_step
  tap_amount :: string
  tap_token :: string
  tap_destination :: "string option"
  tap_nfcError :: "string option"
  tap_isScanning :: bool
  tap_run :: bool

definition tap_mounted :: tap_screen where
  "tap_mounted = \<lparr>tap_at = Ready, tap_amount = [], tap_token = ''xlm'', tap_destination = None, tap_nfcError = None,
     tap_isScanning = False, tap_run = False\<rparr>"

text \<open>\<open>setStep\<close>, and the effect on the step: a change cancels the read, the terminal's step starts one.\<close>

definition setStep :: "tap_step \<Rightarrow> tap_screen \<Rightarrow> tap_screen" where
  "setStep st s = (if st = tap_at s then s
     else if st = Terminal_found then s\<lparr>tap_at := st, tap_isScanning := True, tap_nfcError := None, tap_run := True\<rparr>
     else s\<lparr>tap_at := st, tap_run := False\<rparr>)"

text \<open>The read has ended with a text or a rejection.  \<open>TxUri\<close> has another operation than \<open>pay\<close>.\<close>

definition on_tag :: "string res \<Rightarrow> tap_screen \<Rightarrow> tap_screen" where
  "on_tag r s =
     (let failed = (\<lambda>e. s\<lparr>tap_nfcError := Some (message_or ''NFC scan failed'' e), tap_isScanning := False, tap_run := False\<rparr>) in
      case r of Throw e \<Rightarrow> failed e
      | Ret raw \<Rightarrow> (case parseSep0007Uri raw of
            Throw e \<Rightarrow> failed e
          | Ret (ParseError m) \<Rightarrow> failed (Error m)
          | Ret (TxUri _) \<Rightarrow> failed (Error (''Only SEP-0007 '' @ quoted ''pay'' @ '' is supported for tap-to-pay''))
          | Ret (PayUri p) \<Rightarrow> setStep Transfer (s\<lparr>tap_destination := Some (sp_destination p), tap_isScanning := False\<rparr>)))"

text \<open>\<open>None\<close>: the button leaves the screen.\<close>

definition goNext :: "tap_screen \<Rightarrow> tap_screen option" where
  "goNext s = (case tap_at s of
       Ready \<Rightarrow> Some (setStep Searching s)
     | Searching \<Rightarrow> Some (setStep Terminal_found s)
     | Terminal_found \<Rightarrow> Some s
     | Transfer \<Rightarrow> Some (setStep Confirm s)
     | Confirm \<Rightarrow> Some (setStep Success_step s)
     | Success_step \<Rightarrow> None)"

definition handleBack :: "tap_screen \<Rightarrow> tap_screen option" where
  "handleBack s = (case tap_at s of
       Ready \<Rightarrow> None
     | Success_step \<Rightarrow> None
     | Transfer \<Rightarrow> Some (setStep Terminal_found s)
     | Confirm \<Rightarrow> Some (setStep Terminal_found s)
     | Terminal_found \<Rightarrow> Some (setStep Searching s)
     | Searching \<Rightarrow> Some (setStep Ready s))"

text \<open>
  The button at the foot calls \<open>goNext\<close> except while searching or connecting, where it opens the scan screen;
  the header of the last step has no back button.
\<close>

definition footer_goes_next :: "tap_screen \<Rightarrow> bool" where
  "footer_goes_next s \<longleftrightarrow> (case tap_at s of Searching \<Rightarrow> False | Terminal_found \<Rightarrow> False | Transfer \<Rightarrow> tap_amount s \<noteq> [] | _ \<Rightarrow> True)"

datatype tap_event = Press_next | Press_back | Tag_read "string res" | Amount string | Token string

fun tap_event_step :: "tap_event \<Rightarrow> tap_screen \<Rightarrow> tap_screen option" where
  "tap_event_step Press_next s = (if footer_goes_next s then goNext s else None)"
| "tap_event_step Press_back s = (if tap_at s \<noteq> Success_step then handleBack s else None)"
| "tap_event_step (Tag_read r) s = (if tap_run s then Some (on_tag r s) else None)"
| "tap_event_step (Amount a) s = (if tap_at s = Transfer then Some (s\<lparr>tap_amount := a\<rparr>) else None)"
| "tap_event_step (Token t) s = (if tap_at s \<in> {Transfer, Confirm} then Some (s\<lparr>tap_token := t\<rparr>) else None)"

fun tap_runs :: "tap_event list \<Rightarrow> tap_screen \<Rightarrow> tap_screen option" where
  "tap_runs [] s = Some s"
| "tap_runs (e # es) s = Option.bind (tap_event_step e s) (tap_runs es)"

section \<open>What is previewed\<close>

definition scan_inv :: "scan_screen \<Rightarrow> bool" where
  "scan_inv s \<longleftrightarrow> (sn_screenState s = Preview \<longrightarrow> sn_scanned s \<and> sn_preview s \<noteq> None)
     \<and> (\<forall>p. sn_preview s = Some p \<longrightarrow> isValidStellarDestination (pv_destination p) \<or> p = xdr_preview (pv_rawUri p))
     \<and> (\<forall>p a. sn_preview s = Some p \<longrightarrow> pv_amount p = Some a \<longrightarrow> \<not> bad_amount a)"

lemma scan_inv_qr: "scan_inv s \<Longrightarrow> scan_inv (handleQrData d s)"
proof -
  assume inv: "scan_inv s"
  have z: "parseZapsPayUri d = PayUri p \<Longrightarrow> isValidStellarDestination (sp_destination p) \<and> (\<forall>a. sp_amount p = Some a \<longrightarrow> \<not> bad_amount a)" for p
    using valid_parseZapsPayUri[of d] by (simp add: valid_result_def)
  have w: "parseSep0007Uri d = Ret (PayUri p) \<Longrightarrow> isValidStellarDestination (sp_destination p) \<and> (\<forall>a. sp_amount p = Some a \<longrightarrow> \<not> bad_amount a)" for p
    using valid_parseSep0007[of d "PayUri p"] by (simp add: valid_result_def)
  have a: "detectQrContentType d = StellarAddress \<Longrightarrow> isValidStellarDestination (trim d)"
    by (auto simp: detectQrContentType_def split: if_splits)
  show ?thesis
    using inv z w a by (auto simp: handleQrData_def scan_inv_def show_preview_def show_error_def preview_of_def xdr_preview_def
        address_preview_def Let_def split: res.splits ParseResult.splits if_splits)
qed

lemma scan_inv_step: "scan_step e s = Some s' \<Longrightarrow> scan_inv s \<Longrightarrow> scan_inv s'"
  by (cases e) (auto simp: scan_inv_qr handleManualSubmit_def Let_def split: if_splits,
      auto simp: scan_inv_def resetScanner_def enterManually_def)

lemma scan_run_inv: "scan_run es s = Some s' \<Longrightarrow> scan_inv s \<Longrightarrow> scan_inv s'"
  by (induction es arbitrary: s) (auto simp: Option.bind_eq_Some_conv dest: scan_inv_step)

text \<open>
  C31: Whatever is scanned, typed and pressed, the payment previewed has a destination of the form of a Stellar or
  federated address and, if it has an amount, one that \<open>parseFloat\<close> reads as a number that is not negative, which
  it does for any text that begins with one (\<open>amount_with_text_previewed\<close>); or it is the notice of a transaction
  envelope.  And the camera is off while it is shown.
\<close>

theorem scanned_payment_valid:
  assumes "scan_run es scan_mounted = Some s" "sn_screenState s = Preview"
  shows "sn_scanned s \<and> (\<exists>p. sn_preview s = Some p
    \<and> (isValidStellarDestination (pv_destination p) \<or> p = xdr_preview (pv_rawUri p))
    \<and> (\<forall>a \<in> set_option (pv_amount p). parseFloat a \<noteq> NaN \<and> \<not> num_less (parseFloat a) (Fin 0)))"
proof -
  have "scan_inv scan_mounted" by (simp add: scan_inv_def scan_mounted_def)
  from scan_run_inv[OF assms(1) this] assms(2) show ?thesis by (auto simp: scan_inv_def bad_amount_def Let_def)
qed

lemma scan_built:
  assumes "wf_pay p" "\<not> sn_scanned s"
  shows "sn_preview (handleQrData (buildSep0007PayUri p) s) = Some (preview_of (buildSep0007PayUri p) p)
    \<and> sn_screenState (handleQrData (buildSep0007PayUri p) s) = Preview"
proof -
  have "detectQrContentType (buildSep0007PayUri p) = Sep0007"
    by (simp add: detectQrContentType_def buildSep0007PayUri_def startsWith_def)
  then show ?thesis using parse_build_pay[OF assms(1)] assms(2) by (simp add: handleQrData_def show_preview_def)
qed

theorem scanned_payment_valid_witness:
  "\<exists>s. scan_run [Scan (buildSep0007PayUri sample_pay)] scan_mounted = Some s
     \<and> (\<exists>p. sn_preview s = Some p \<and> (isValidStellarDestination (pv_destination p) \<or> p = xdr_preview (pv_rawUri p)))"
proof -
  let ?s = "handleQrData (buildSep0007PayUri sample_pay) scan_mounted"
  have r: "scan_run [Scan (buildSep0007PayUri sample_pay)] scan_mounted = Some ?s" by (simp add: scan_mounted_def)
  have "sn_screenState ?s = Preview" using scan_built[OF sample_pay_wf, of scan_mounted] by (simp add: scan_mounted_def)
  from scanned_payment_valid[OF r this] r show ?thesis by blast
qed

text \<open>
  So an amount need not be one: a code for \<open>12abc\<close> is previewed, and leads to the transfer screen with that text.
\<close>

theorem amount_with_text_previewed:
  "\<exists>s p. scan_run [Scan (buildSep0007PayUri (sample_pay\<lparr>sp_amount := Some ''12abc''\<rparr>))] scan_mounted = Some s
     \<and> sn_screenState s = Preview \<and> sn_preview s = Some p \<and> pv_amount p = Some ''12abc''"
proof -
  let ?p = "sample_pay\<lparr>sp_amount := Some ''12abc''\<rparr>"
  have u: "unsigned_decimal ''12abc'' = Some (12, ''abc'')" by code_simp
  have "parseFloat ''12abc'' = Fin 12" using parseFloat_unsigned[OF u] by (simp add: is_digit_def)
  then have "\<not> bad_amount ''12abc''" by (simp add: bad_amount_def)
  then have "wf_pay ?p" using sample_pay_wf by (simp add: wf_pay_def wf_text_def)
  from scan_built[OF this, of scan_mounted] show ?thesis by (simp add: scan_mounted_def preview_of_def)
qed

section \<open>The link to the transfer screen\<close>

lemma route_query: "url_query (''/transfer?'' @ form_text ps) = form_text ps"
proof -
  have "list_all query_char (form_text ps)" using form_text_chars by (auto simp: list_all_iff)
  from url_query_append[OF _ _ this, of "''/transfer''"] show ?thesis by (simp add: query_char_def)
qed

lemma route_params: "searchParams_get (''/transfer?'' @ form_text ps) k = map_of ps k"
  unfolding searchParams_get_def route_query query_pairs_form_text ..

text \<open>The transfer screen's link carries the destination, the amount, the asset and the memo of the preview, each exactly.\<close>

theorem scan_link_carries_payment:
  "map_option (\<lambda>l. map (searchParams_get l) [''destination'', ''amount'', ''asset'', ''memo'']) (handleConfirmPayment s)
    = map_option (\<lambda>p. [Some (pv_destination p), if_truthy (pv_amount p), if_truthy (pv_asset p), if_truthy (pv_memo p)]) (sn_preview s)"
  unfolding handleConfirmPayment_def option.map_comp comp_def list.map route_params
  by (cases "sn_preview s") (auto simp: confirm_entries_def if_truthy_def split: option.splits)

text \<open>
  But not the issuer: two codes that ask for different assets of the same code lead to the same link.
\<close>

theorem scan_link_drops_issuer:
  assumes "wf_pay p" "wf_pay (p\<lparr>sp_asset_issuer := i\<rparr>)"
  shows "handleConfirmPayment (handleQrData (buildSep0007PayUri (p\<lparr>sp_asset_issuer := i\<rparr>)) scan_mounted)
    = handleConfirmPayment (handleQrData (buildSep0007PayUri p) scan_mounted)"
  using scan_built[OF assms(1), of scan_mounted] scan_built[OF assms(2), of scan_mounted]
  by (simp add: scan_mounted_def handleConfirmPayment_def preview_of_def confirm_entries_def)

section \<open>Where the screens stop\<close>

text \<open>
  A code with a malformed escape makes the parser throw after the camera has been switched off: nothing is
  shown, no other code is read, and an address typed instead is ignored, until the scanner is reset.
\<close>

theorem malformed_code_stops_scanning:
  assumes "detectQrContentType d = Sep0007" "parseSep0007Uri d = Throw x"
    and "scan_run (Scan d # es) scan_mounted = Some s" "Reset \<notin> set es"
  shows "sn_scanned s \<and> sn_preview s = None \<and> sn_screenState s \<in> {Scanner, Manual}"
proof -
  have "handleQrData d scan_mounted = scan_mounted\<lparr>sn_scanned := True\<rparr>" using assms(1,2) by (simp add: handleQrData_def scan_mounted_def)
  then have r: "scan_run es (scan_mounted\<lparr>sn_scanned := True\<rparr>) = Some s" using assms(3) by (auto simp: scan_mounted_def split: if_splits)
  have "sn_scanned s' \<and> sn_preview s' = None \<and> sn_screenState s' \<in> {Scanner, Manual}"
    if "scan_run es s1 = Some s'" "sn_scanned s1 \<and> sn_preview s1 = None \<and> sn_screenState s1 \<in> {Scanner, Manual}" "Reset \<notin> set es" for s1 s'
    using that
  proof (induction es arbitrary: s1)
    case (Cons e es)
    then obtain s2 where s2: "scan_step e s1 = Some s2" "scan_run es s2 = Some s'" by (auto simp: Option.bind_eq_Some_conv)
    have "sn_scanned s2 \<and> sn_preview s2 = None \<and> sn_screenState s2 \<in> {Scanner, Manual}"
      using s2(1) Cons.prems by (cases e) (auto simp: handleManualSubmit_def handleQrData_def Let_def split: if_splits)
    then show ?case using Cons.IH[OF s2(2)] Cons.prems(3) by simp
  qed simp
  from this[OF r _ assms(4)] show ?thesis by (simp add: scan_mounted_def)
qed

theorem malformed_code_stops_scanning_witness:
  "\<exists>s. scan_run [Scan ''web+stellar:pay?memo=%'', Manual_mode, Edit ''GA'', Continue] scan_mounted = Some s \<and> sn_preview s = None"
proof -
  let ?d = "''web+stellar:pay?memo=%''"
  have d: "detectQrContentType ?d = Sep0007" "parseSep0007Uri ?d = Throw (Error ''URI malformed'')" "trim ''GA'' = ''GA''" by code_simp+
  obtain s where s: "scan_run [Scan ?d, Manual_mode, Edit ''GA'', Continue] scan_mounted = Some s"
    using d by (simp add: scan_mounted_def handleQrData_def handleManualSubmit_def Let_def)
  from malformed_code_stops_scanning[OF d(1,2) s] s show ?thesis by auto
qed

text \<open>
  The tap screen gets no further than searching, whatever is pressed: no button leads from there to the step
  that reads a tag, so nothing can be paid by tapping.
\<close>

theorem tap_never_reads:
  assumes "tap_runs es tap_mounted = Some s"
  shows "tap_at s \<in> {Ready, Searching} \<and> \<not> tap_run s \<and> tap_destination s = None"
proof -
  have "tap_at s' \<in> {Ready, Searching} \<and> \<not> tap_run s' \<and> tap_destination s' = None"
    if "tap_runs es s1 = Some s'" "tap_at s1 \<in> {Ready, Searching} \<and> \<not> tap_run s1 \<and> tap_destination s1 = None" for s1 s'
    using that
  proof (induction es arbitrary: s1)
    case (Cons e es)
    then obtain s2 where s2: "tap_event_step e s1 = Some s2" "tap_runs es s2 = Some s'" by (auto simp: Option.bind_eq_Some_conv)
    have "tap_at s2 \<in> {Ready, Searching} \<and> \<not> tap_run s2 \<and> tap_destination s2 = None"
      using s2(1) Cons.prems(2) by (cases e) (auto simp: footer_goes_next_def goNext_def handleBack_def setStep_def split: if_splits)
    with Cons.IH[OF s2(2)] show ?case .
  qed simp
  from this[OF assms] show ?thesis by (simp add: tap_mounted_def)
qed

theorem tap_never_reads_witness:
  "\<exists>s. tap_runs [Press_next, Press_back, Press_next] tap_mounted = Some s \<and> tap_at s \<in> {Ready, Searching}"
proof -
  obtain s where s: "tap_runs [Press_next, Press_back, Press_next] tap_mounted = Some s"
    by (simp add: tap_mounted_def footer_goes_next_def goNext_def handleBack_def setStep_def)
  from tap_never_reads[OF s] s show ?thesis by blast
qed

end
