(* ===== verification/History_Screen.thy ===== *)
theory History_Screen
  imports Transactions Stellar_Wallet Js_Arith
begin

text \<open>
  The history screen, \<open>app/(personal)/history.tsx\<close>, with its filter sheet
  (\<open>components/TransactionFilterSheet.tsx\<close>): grouping by day, the debounced search, the quick filters, and
  speeding up a stuck payment.  The list itself is the hook of \<open>Transactions\<close>, the fee bump that of \<open>Stellar_Wallet\<close>.
  The calendar (\<open>toDateString\<close>, \<open>toISOString\<close>, \<open>Intl\<close>) is a parameter.
  Main results: every payment is listed once, in order and under its own day; the text in the search box
  is the text searched for once its timer has fired; but the timer also brings back the filters of the
  moment of typing.
\<close>

section \<open>Rows\<close>

definition STUCK_PENDING_MS :: nat where "STUCK_PENDING_MS = 60 * 1000"

definition canSpeedUp :: "(string \<Rightarrow> js_num) \<Rightarrow> js_num \<Rightarrow> Transaction \<Rightarrow> bool" where
  "canSpeedUp date_of now_ms tx \<longleftrightarrow>
     (if tx_status tx \<noteq> Pending \<or> \<not> truthy (tx_stellarTxXdr tx) then False
      else num_less (Fin (of_nat STUCK_PENDING_MS)) (num_sub now_ms (date_of (tx_timestamp tx))))"

fun yieldTagLabel :: "YieldType option \<Rightarrow> string" where
  "yieldTagLabel (Some Interest) = ''Interest''"
| "yieldTagLabel (Some Reward) = ''Reward''"
| "yieldTagLabel (Some Apy) = ''APY''"
| "yieldTagLabel None = ''Yield''"

definition truncateAddress :: "string \<Rightarrow> string" where
  "truncateAddress a = (if length a \<le> 20 then a
     else take 8 a @ [CHR 0xE2, CHR 0x80, CHR 0xA6] @ drop (length a - 6) a)"

definition hasActiveFilters :: "TransactionFilters \<Rightarrow> bool" where
  "hasActiveFilters f \<longleftrightarrow> tf_type f \<noteq> None \<or> tf_status f \<noteq> None \<or> truthy (tf_dateFrom f) \<or> truthy (tf_dateTo f)
     \<or> truthy (tf_amountMin f) \<or> truthy (tf_amountMax f) \<or> tf_yieldOnly f \<or> truthy (tf_asset f)"

text \<open>The texts of a row: title, sender line, tags, amount and its value in currency.\<close>

definition row_title :: "Transaction \<Rightarrow> string" where
  "row_title tx = (if tx_type tx = Mass_payout \<and> truthy (tx_senderName tx) then the (tx_senderName tx)
     else case tx_addressLabel tx of Some l \<Rightarrow> l | None \<Rightarrow> truncateAddress (tx_address tx))"

definition row_notes :: "Transaction \<Rightarrow> string list" where
  "row_notes tx = (if tx_type tx = Mass_payout then [''Mass Payout''] else [])
     @ (if tx_type tx = Mass_payout \<and> truthy (tx_senderAnchor tx) then [''via '' @ the (tx_senderAnchor tx)] else [])
     @ (if tx_type tx = Yield then [yieldTagLabel (tx_yieldType tx)] else [])
     @ (if tx_status tx \<noteq> Completed then [status_str (tx_status tx)] else [])"

definition row_amount :: "Transaction \<Rightarrow> string \<times> string" where
  "row_amount tx = ((if tx_type tx = Sent then [CHR 0xE2, CHR 0x88, CHR 0x92] else ''+'') @ tx_amount tx @ '' '' @ tx_asset tx,
     tx_fiatValue tx @ '' '' @ tx_fiatCurrency tx)"

section \<open>Grouping by day\<close>

datatype ListItem =
    Header (item_key: string) (item_title: string)
  | Payout_header (item_key: string)
  | Tx (item_key: string) (item_tx: Transaction)

text \<open>The calendar the labels are taken from: \<open>toDateString\<close> of a timestamp, of today and of yesterday, and the long date.\<close>

record calendar =
  cal_day :: "string \<Rightarrow> string"
  cal_today :: string
  cal_yesterday :: string
  cal_long :: "string \<Rightarrow> string"

definition day_label :: "calendar \<Rightarrow> Transaction \<Rightarrow> string" where
  "day_label C tx = (if cal_day C (tx_timestamp tx) = cal_today C then ''Today''
     else if cal_day C (tx_timestamp tx) = cal_yesterday C then ''Yesterday''
     else cal_long C (tx_timestamp tx))"

text \<open>The loop with its variables \<open>lastDate\<close> and \<open>massPayoutHeaderShownForDate\<close>.\<close>

fun group_rows :: "(Transaction \<Rightarrow> string) \<Rightarrow> string \<Rightarrow> bool \<Rightarrow> Transaction list \<Rightarrow> ListItem list" where
  "group_rows lab lastDate shown [] = []"
| "group_rows lab lastDate shown (tx # txs) =
     (let l = lab tx; shown1 = (if l \<noteq> lastDate then False else shown); payout = (tx_type tx = Mass_payout \<and> \<not> shown1)
      in (if l \<noteq> lastDate then [Header (''hdr_'' @ l) l] else [])
         @ (if payout then [Payout_header (''mp_hdr_'' @ l)] else [])
         @ Tx (tx_id tx) tx # group_rows lab l (shown1 \<or> payout) txs)"

definition groupByDate :: "calendar \<Rightarrow> Transaction list \<Rightarrow> ListItem list" where
  "groupByDate C txs = group_rows (day_label C) [] False txs"

text \<open>Reading the list back: each payment with the heading above it and whether that section has shown its payout heading.\<close>

fun sections :: "string \<Rightarrow> bool \<Rightarrow> ListItem list \<Rightarrow> (string \<times> bool \<times> Transaction) list" where
  "sections l p [] = []"
| "sections l p (Header _ t # r) = sections t False r"
| "sections l p (Payout_header _ # r) = sections l True r"
| "sections l p (Tx _ x # r) = (l, p, x) # sections l p r"

definition titles :: "ListItem list \<Rightarrow> string list" where
  "titles r = concat (map (\<lambda>i. case i of Header _ t \<Rightarrow> [t] | _ \<Rightarrow> []) r)"

section \<open>Asset chips and date presets\<close>

definition DATE_PRESETS :: "(string \<times> nat) list" where
  "DATE_PRESETS = [(''7D'', 7), (''30D'', 30), (''90D'', 90), (''1Y'', 365)]"

text \<open>\<open>start days\<close> is \<open>presetStartIso(days)\<close>, a date of the calendar.\<close>

definition isPresetActive :: "(nat \<Rightarrow> string) \<Rightarrow> TransactionFilters \<Rightarrow> nat \<Rightarrow> bool" where
  "isPresetActive start f days \<longleftrightarrow> tf_dateFrom f = Some (start days) \<and> \<not> truthy (tf_dateTo f)"

fun insert_text :: "string \<Rightarrow> string list \<Rightarrow> string list" where
  "insert_text x [] = [x]"
| "insert_text x (y # ys) = (if lexordp (\<lambda>a b. (of_char a :: nat) < of_char b) y x then y # insert_text x ys else x # y # ys)"

definition assetOptions :: "Transaction list \<Rightarrow> string list" where
  "assetOptions items = ''All'' # foldr insert_text (remdups (map (\<lambda>t. toUpperCase (tx_asset t)) items)) []"

section \<open>The filter sheet\<close>

datatype sheet_edit =
    Set_type "TransactionType option"
  | Set_status "TransactionStatus option"
  | Toggle_yield
  | Set_asset "string option"
  | Set_from string
  | Set_to string
  | Set_min string
  | Set_max string
  | Reset_sheet

definition unless_empty :: "string \<Rightarrow> string option" where
  "unless_empty v = (if v = [] then None else Some v)"

fun sheet_update :: "sheet_edit \<Rightarrow> TransactionFilters \<Rightarrow> TransactionFilters" where
  "sheet_update (Set_type v) f = f\<lparr>tf_type := v\<rparr>"
| "sheet_update (Set_status v) f = f\<lparr>tf_status := v\<rparr>"
| "sheet_update Toggle_yield f = f\<lparr>tf_yieldOnly := \<not> tf_yieldOnly f\<rparr>"
| "sheet_update (Set_asset v) f = f\<lparr>tf_asset := v\<rparr>"
| "sheet_update (Set_from v) f = f\<lparr>tf_dateFrom := unless_empty v\<rparr>"
| "sheet_update (Set_to v) f = f\<lparr>tf_dateTo := unless_empty v\<rparr>"
| "sheet_update (Set_min v) f = f\<lparr>tf_amountMin := unless_empty v\<rparr>"
| "sheet_update (Set_max v) f = f\<lparr>tf_amountMax := unless_empty v\<rparr>"
| "sheet_update Reset_sheet f = DEFAULT_FILTERS"

section \<open>The screen\<close>

text \<open>\<open>hs_timer\<close>: the filters the pending search timer will apply; \<open>hs_local\<close>: those edited in the sheet.\<close>

record hist_screen =
  hs_hook :: tx_hook
  hs_searchText :: string
  hs_filterVisible :: bool
  hs_timer :: "TransactionFilters option"
  hs_speedingUpId :: "string option"
  hs_local :: TransactionFilters

datatype hist_flight = Page tx_request | Bump string

type_synonym hist_sys = "hist_screen \<times> hist_flight list"

definition hist_mounted :: hist_sys where
  "hist_mounted = (\<lparr>hs_hook = reload_begin None th_init, hs_searchText = [], hs_filterVisible = False, hs_timer = None,
     hs_speedingUpId = None, hs_local = DEFAULT_FILTERS\<rparr>, [Page (Reload DEFAULT_FILTERS)])"

text \<open>The sheet's effect: it takes over the filters when it is opened and whenever they change.\<close>

definition sync_sheet :: "hist_screen \<Rightarrow> hist_screen" where
  "sync_sheet s = (if hs_filterVisible s then s\<lparr>hs_local := th_filters (hs_hook s)\<rparr> else s)"

definition applyFilters :: "TransactionFilters \<Rightarrow> hist_sys \<Rightarrow> hist_sys" where
  "applyFilters f = (\<lambda>(s, fl). (sync_sheet (s\<lparr>hs_hook := apply_begin f (hs_hook s)\<rparr>), fl @ [Page (Reload f)]))"

definition reload_all :: "hist_sys \<Rightarrow> hist_sys" where
  "reload_all = (\<lambda>(s, fl). (s\<lparr>hs_hook := reload_begin None (hs_hook s)\<rparr>, fl @ [Page (Reload (th_active (hs_hook s)))]))"

definition handleSearch :: "string \<Rightarrow> hist_screen \<Rightarrow> hist_screen" where
  "handleSearch t s = s\<lparr>hs_searchText := t, hs_timer := Some ((th_filters (hs_hook s))\<lparr>tf_search := t\<rparr>)\<rparr>"

definition handleApplyFilters :: "hist_sys \<Rightarrow> hist_sys" where
  "handleApplyFilters = (\<lambda>(s, fl).
     applyFilters ((hs_local s)\<lparr>tf_search := hs_searchText s\<rparr>) (s\<lparr>hs_filterVisible := False\<rparr>, fl))"

text \<open>The filters the chips apply.\<close>

definition yield_chip :: "hist_screen \<Rightarrow> TransactionFilters" where
  "yield_chip s = (let f = th_filters (hs_hook s) in f\<lparr>tf_yieldOnly := \<not> tf_yieldOnly f, tf_search := hs_searchText s\<rparr>)"

definition payout_chip :: "hist_screen \<Rightarrow> TransactionFilters" where
  "payout_chip s = (let f = th_filters (hs_hook s) in
     f\<lparr>tf_type := (if tf_type f = Some Mass_payout then None else Some Mass_payout), tf_yieldOnly := False, tf_search := hs_searchText s\<rparr>)"

definition asset_chip :: "string \<Rightarrow> hist_screen \<Rightarrow> TransactionFilters" where
  "asset_chip a s = (th_filters (hs_hook s))\<lparr>tf_asset := (if a = ''All'' then None else Some a), tf_search := hs_searchText s\<rparr>"

definition dates_chip :: "string option \<Rightarrow> hist_screen \<Rightarrow> TransactionFilters" where
  "dates_chip d s = (th_filters (hs_hook s))\<lparr>tf_dateFrom := d, tf_dateTo := None, tf_search := hs_searchText s\<rparr>"

text \<open>The list is shown while nothing loads and no error stands.\<close>

definition list_shown :: "hist_screen \<Rightarrow> bool" where
  "list_shown s \<longleftrightarrow> \<not> th_loading (hs_hook s) \<and> th_error (hs_hook s) = None"

datatype hist_event =
    Typed string
  | Timer
  | Open_sheet
  | Close_sheet
  | Edit_sheet sheet_edit
  | Apply_sheet
  | Yield_chip
  | Payout_chip
  | Asset_chip string
  | Dates_chip "string option"
  | Pull
  | Retry
  | End_reached
  | Answered tx_request "TransactionPage res"
  | Speed_up js_num string
  | Sped string "unit res"

fun hist_step :: "(string \<Rightarrow> js_num) \<Rightarrow> hist_event \<Rightarrow> hist_sys \<Rightarrow> hist_sys option" where
  "hist_step date_of (Typed t) (s, fl) = Some (handleSearch t s, fl)"
| "hist_step date_of Timer (s, fl) = (case hs_timer s of None \<Rightarrow> None
     | Some f \<Rightarrow> Some (applyFilters f (s\<lparr>hs_timer := None\<rparr>, fl)))"
| "hist_step date_of Open_sheet (s, fl) = Some (sync_sheet (s\<lparr>hs_filterVisible := True\<rparr>), fl)"
| "hist_step date_of Close_sheet (s, fl) = Some (s\<lparr>hs_filterVisible := False\<rparr>, fl)"
| "hist_step date_of (Edit_sheet e) (s, fl) =
     (if hs_filterVisible s then Some (s\<lparr>hs_local := sheet_update e (hs_local s)\<rparr>, fl) else None)"
| "hist_step date_of Apply_sheet (s, fl) = (if hs_filterVisible s then Some (handleApplyFilters (s, fl)) else None)"
| "hist_step date_of Yield_chip (s, fl) = Some (applyFilters (yield_chip s) (s, fl))"
| "hist_step date_of Payout_chip (s, fl) = Some (applyFilters (payout_chip s) (s, fl))"
| "hist_step date_of (Asset_chip a) (s, fl) =
     (if tf_yieldOnly (th_filters (hs_hook s)) \<and> a \<in> set (assetOptions (th_items (hs_hook s)))
      then Some (applyFilters (asset_chip a s) (s, fl)) else None)"
| "hist_step date_of (Dates_chip d) (s, fl) =
     (if tf_yieldOnly (th_filters (hs_hook s)) then Some (applyFilters (dates_chip d s) (s, fl)) else None)"
| "hist_step date_of Pull (s, fl) = (if list_shown s
     then Some (s\<lparr>hs_hook := refresh_begin (hs_hook s)\<rparr>, fl @ [Page (Refresh (th_active (hs_hook s)))]) else None)"
| "hist_step date_of Retry (s, fl) =
     (if th_error (hs_hook s) \<noteq> None \<and> \<not> th_loading (hs_hook s) then Some (reload_all (s, fl)) else None)"
| "hist_step date_of End_reached (s, fl) = (case th_cursor (hs_hook s) of None \<Rightarrow> None
     | Some c \<Rightarrow> if list_shown s \<and> more_allowed (hs_hook s)
         then Some (s\<lparr>hs_hook := more_begin (hs_hook s)\<rparr>, fl @ [Page (More (th_active (hs_hook s)) c)]) else None)"
| "hist_step date_of (Answered q r) (s, fl) =
     (if Page q \<in> set fl then Some (s\<lparr>hs_hook := answered q r (hs_hook s)\<rparr>, remove1 (Page q) fl) else None)"
| "hist_step date_of (Speed_up now_ms i) (s, fl) =
     (if list_shown s \<and> hs_speedingUpId s \<noteq> Some i \<and> (\<exists>tx \<in> set (th_items (hs_hook s)). tx_id tx = i \<and> canSpeedUp date_of now_ms tx)
      then Some (s\<lparr>hs_speedingUpId := Some i\<rparr>, fl @ [Bump i]) else None)"
| "hist_step date_of (Sped i r) (s, fl) =
     (if Bump i \<in> set fl then
        let s1 = s\<lparr>hs_speedingUpId := None\<rparr>; fl1 = remove1 (Bump i) fl in
        Some (case r of Ret _ \<Rightarrow> reload_all (s1, fl1) | Throw _ \<Rightarrow> (s1, fl1))
      else None)"

fun hist_run :: "(string \<Rightarrow> js_num) \<Rightarrow> hist_event list \<Rightarrow> hist_sys \<Rightarrow> hist_sys option" where
  "hist_run date_of [] y = Some y"
| "hist_run date_of (e # es) y = Option.bind (hist_step date_of e y) (hist_run date_of es)"

section \<open>Speeding up\<close>

definition resolveWalletSource ::
  "('w, 'acc, 'asset, 'tx, 'kp) stellar \<Rightarrow> (string \<Rightarrow> 'w \<Rightarrow> string option res) \<Rightarrow> ('w, wallet_source) io" where
  "resolveWalletSource S getA = bnd (getLocalKeypair S getA) (\<lambda>kp. if kp \<noteq> None then ret LocalKey
     else bnd (checkFreighter S) (\<lambda>b. ret (if b then Freighter else LocalKey)))"

text \<open>The \<open>try\<close> block of \<open>handleSpeedUp\<close>; \<open>Sped\<close> is its outcome.\<close>

definition handleSpeedUp ::
  "('w, 'acc, 'asset, 'tx, 'kp) stellar \<Rightarrow> (string \<Rightarrow> 'w \<Rightarrow> string option res) \<Rightarrow> string \<Rightarrow> ('w, unit) io" where
  "handleSpeedUp S getA xdr = bnd (resolveWalletSource S getA) (\<lambda>source.
     bnd (speedUpTransaction S getA xdr source None) (\<lambda>_. ret ()))"

section \<open>What is listed\<close>

lemma sections_group_rows:
  "map (\<lambda>(l, p, x). (l, x)) (sections d b (group_rows lab d b txs)) = map (\<lambda>x. (lab x, x)) txs
   \<and> (\<forall>(l, p, x) \<in> set (sections d b (group_rows lab d b txs)). tx_type x = Mass_payout \<longrightarrow> p)"
  by (induction txs arbitrary: d b) (auto simp: Let_def)

text \<open>
  C34: Every payment is listed exactly once, in the order of the list, below the heading of its own day; and a
  mass payout stands below a payout heading of that day.
\<close>

theorem history_grouping:
  "map (\<lambda>(l, p, x). (l, x)) (sections [] False (groupByDate C txs)) = map (\<lambda>x. (day_label C x, x)) txs
   \<and> (\<forall>(l, p, x) \<in> set (sections [] False (groupByDate C txs)). tx_type x = Mass_payout \<longrightarrow> p)"
  unfolding groupByDate_def by (rule sections_group_rows)

definition plain_calendar :: calendar where
  "plain_calendar = \<lparr>cal_day = (\<lambda>t. t), cal_today = ''2024-01-02'', cal_yesterday = ''2024-01-01'', cal_long = (\<lambda>t. t)\<rparr>"

theorem history_grouping_witness:
  "map (\<lambda>(l, p, x). (l, tx_id x)) (sections [] False (groupByDate plain_calendar (MOCK_TRANSACTIONS show_int 0)))
    = map (\<lambda>x. (day_label plain_calendar x, tx_id x)) (MOCK_TRANSACTIONS show_int 0)"
proof -
  let ?m = "MOCK_TRANSACTIONS show_int 0"
  have "map (map_prod (\<lambda>l. l) tx_id) (map (\<lambda>(l, p, x). (l, x)) (sections [] False (groupByDate plain_calendar ?m)))
    = map (map_prod (\<lambda>l. l) tx_id) (map (\<lambda>x. (day_label plain_calendar x, x)) ?m)"
    using history_grouping[of plain_calendar ?m] by simp
  then show ?thesis by (simp add: comp_def case_prod_unfold)
qed

section \<open>Keys of the list\<close>

text \<open>The headings are the days in order, without immediate repetitions.\<close>

lemma titles_simps [simp]:
  "titles [] = []" "titles (Header k t # r) = t # titles r" "titles (Payout_header k # r) = titles r" "titles (Tx k x # r) = titles r"
  by (simp_all add: titles_def)

lemma titles_group_rows: "titles (group_rows lab d b txs) = tl (remdups_adj (d # map lab txs))"
proof (induction txs arbitrary: d b)
  case (Cons tx txs)
  have "remdups_adj (lab tx # map lab txs) = lab tx # tl (remdups_adj (lab tx # map lab txs))" by (metis hd_remdups_adj list.sel(1) list.exhaust_sel remdups_adj_Nil_iff list.distinct(1))
  then show ?case by (auto simp: Let_def Cons)
qed simp

definition tx_ids :: "ListItem list \<Rightarrow> string list" where
  "tx_ids r = concat (map (\<lambda>i. case i of Tx k _ \<Rightarrow> [k] | _ \<Rightarrow> []) r)"

definition payout_titles :: "ListItem list \<Rightarrow> string list" where
  "payout_titles r = concat (map (\<lambda>i. case i of Payout_header k \<Rightarrow> [drop 7 k] | _ \<Rightarrow> []) r)"

lemma tx_ids_group_rows: "tx_ids (group_rows lab d b txs) = map tx_id txs"
  by (induction txs arbitrary: d b) (auto simp: tx_ids_def Let_def)

lemma payout_titles_simps [simp]:
  "payout_titles [] = []" "payout_titles (Header k t # r) = payout_titles r" "payout_titles (Tx k x # r) = payout_titles r"
  "payout_titles (Payout_header k # r) = drop 7 k # payout_titles r"
  by (simp_all add: payout_titles_def)

lemma payout_titles_group_rows:
  "distinct (remdups_adj (d # map lab txs)) \<Longrightarrow> distinct (payout_titles (group_rows lab d b txs))
     \<and> set (payout_titles (group_rows lab d b txs)) \<subseteq> (if b then set (map lab txs) - {d} else set (map lab txs))"
proof (induction txs arbitrary: d b)
  case (Cons tx txs)
  have t: "distinct (remdups_adj (lab tx # map lab txs))"
    using Cons.prems by (cases "lab tx = d") auto
  have d: "lab tx \<noteq> d \<Longrightarrow> d \<notin> lab ` set txs"
    using Cons.prems by (auto simp: remdups_adj_set)
  note IH = Cons.IH[OF t, of True] Cons.IH[OF t, of False] Cons.IH[OF t, of b]
  show ?case
    using IH d by (auto simp: Let_def split: if_splits)
qed simp

fun plain_key :: "string \<Rightarrow> bool" where
  "plain_key k \<longleftrightarrow> \<not> startsWith k ''hdr_'' \<and> \<not> startsWith k ''mp_hdr_''"

definition kind_ok :: "ListItem \<Rightarrow> bool" where
  "kind_ok i = (case i of Header k t \<Rightarrow> k = ''hdr_'' @ t | Payout_header k \<Rightarrow> startsWith k ''mp_hdr_'' | Tx k _ \<Rightarrow> plain_key k)"

lemma kinds_group_rows: "\<forall>x \<in> set txs. plain_key (tx_id x) \<Longrightarrow> list_all kind_ok (group_rows lab d b txs)"
  by (induction txs arbitrary: d b) (auto simp: Let_def kind_ok_def startsWith_def)

lemma distinct_keys:
  assumes "list_all kind_ok r" "distinct (titles r)" "distinct (payout_titles r)" "distinct (tx_ids r)"
  shows "distinct (map item_key r)"
  using assms
proof (induction r)
  case (Cons i r)
  have IH: "distinct (map item_key r)" using Cons by (cases i) (auto simp: tx_ids_def payout_titles_def)
  have "item_key i \<noteq> item_key j" if j: "j \<in> set r" for j
  proof
    assume e: "item_key i = item_key j"
    have k: "kind_ok i" "kind_ok j" using Cons.prems(1) j by (auto simp: list_all_iff)
    show False
      using k e j Cons.prems(2-4)
      by (cases i; cases j) (force simp: kind_ok_def startsWith_def titles_def payout_titles_def tx_ids_def)+
  qed
  then show ?case using IH by auto
qed simp

text \<open>
  The keys of the list are distinct, as React needs, when the payments come day after day and their ids are
  distinct and none looks like the key of a heading.
\<close>

theorem history_keys_distinct:
  assumes "distinct (map tx_id txs)" "distinct (remdups_adj ([] # map (day_label C) txs))" "\<forall>x \<in> set txs. plain_key (tx_id x)"
  shows "distinct (map item_key (groupByDate C txs))"
proof -
  let ?r = "group_rows (day_label C) [] False txs"
  have "distinct (titles ?r)" unfolding titles_group_rows using assms(2) by (simp add: distinct_tl)
  with kinds_group_rows[OF assms(3)] payout_titles_group_rows[OF assms(2)] tx_ids_group_rows assms(1)
  show ?thesis unfolding groupByDate_def by (intro distinct_keys) auto
qed

definition one_day :: calendar where
  "one_day = \<lparr>cal_day = (\<lambda>_. ''Mon Jan 01 2024''), cal_today = ''Tue Jan 02 2024'', cal_yesterday = ''Mon Jan 01 2024'', cal_long = (\<lambda>t. t)\<rparr>"

theorem history_keys_distinct_witness:
  "distinct (map item_key (groupByDate one_day (MOCK_TRANSACTIONS (\<lambda>_. []) 0)))"
proof (rule history_keys_distinct)
  have l: "day_label one_day x = ''Yesterday''" for x by (simp add: day_label_def one_day_def)
  show "distinct (map tx_id (MOCK_TRANSACTIONS (\<lambda>_. []) 0))"
    by (simp add: MOCK_TRANSACTIONS_def mock_payments_def mock_yield_and_payouts_def)
  show "distinct (remdups_adj ([] # map (day_label one_day) (MOCK_TRANSACTIONS (\<lambda>_. []) 0)))"
    by (simp add: MOCK_TRANSACTIONS_def mock_payments_def mock_yield_and_payouts_def l)
  show "\<forall>x \<in> set (MOCK_TRANSACTIONS (\<lambda>_. []) 0). plain_key (tx_id x)"
    by (simp add: MOCK_TRANSACTIONS_def mock_payments_def mock_yield_and_payouts_def startsWith_def)
qed

section \<open>The search\<close>

lemma hook_filters [simp]:
  "th_active (reload_begin None h) = th_active h" "th_filters (reload_begin n h) = th_filters h"
  "th_active (apply_begin f h) = f" "th_filters (apply_begin f h) = f"
  "th_active (refresh_begin h) = th_active h" "th_filters (refresh_begin h) = th_filters h"
  "th_active (more_begin h) = th_active h" "th_filters (more_begin h) = th_filters h"
  by (simp_all add: reload_begin_def apply_begin_def refresh_begin_def more_begin_def)

lemma answered_filters [simp]: "th_active (answered q r h) = th_active h" "th_filters (answered q r h) = th_filters h"
  by (cases q; cases r; simp add: load_done_def reload_end_def refresh_end_def more_end_def)+

lemma sync_sheet_same [simp]:
  "hs_hook (sync_sheet s) = hs_hook s" "hs_searchText (sync_sheet s) = hs_searchText s" "hs_timer (sync_sheet s) = hs_timer s"
  "hs_speedingUpId (sync_sheet s) = hs_speedingUpId s"
  by (simp_all add: sync_sheet_def)

definition search_inv :: "hist_sys \<Rightarrow> bool" where
  "search_inv = (\<lambda>(s, fl). th_active (hs_hook s) = th_filters (hs_hook s)
     \<and> (case hs_timer s of None \<Rightarrow> tf_search (th_filters (hs_hook s)) | Some f \<Rightarrow> tf_search f) = hs_searchText s)"

lemma box_inv_step:
  assumes "hist_step date_of e y = Some y'" "search_inv y"
  shows "search_inv y'"
  using assms
  by (cases y; cases e) (auto simp: search_inv_def applyFilters_def reload_all_def handleSearch_def handleApplyFilters_def
      yield_chip_def payout_chip_def asset_chip_def dates_chip_def Let_def split: option.splits if_splits res.splits)

text \<open>
  The text in the search box is what is searched for once its timer has fired, whatever else is pressed; until
  then it is what the timer will search for.
\<close>

theorem search_text_applied:
  assumes "hist_run date_of es hist_mounted = Some (s, fl)"
  shows "(hs_timer s = None \<longrightarrow> tf_search (th_active (hs_hook s)) = hs_searchText s)
    \<and> (\<forall>f. hs_timer s = Some f \<longrightarrow> tf_search f = hs_searchText s)"
proof -
  have "search_inv z" if "hist_run date_of fs y = Some z" "search_inv y" for fs y z
    using that by (induction fs arbitrary: y) (auto simp: Option.bind_eq_Some_conv dest: box_inv_step)
  from this[OF assms] have "search_inv (s, fl)"
    by (simp add: search_inv_def hist_mounted_def th_init_def DEFAULT_FILTERS_def)
  then show ?thesis by (auto simp: search_inv_def)
qed

lemmas hist_eval = applyFilters_def handleSearch_def handleApplyFilters_def yield_chip_def payout_chip_def hist_mounted_def th_init_def
  Let_def

theorem search_text_applied_witness:
  "\<exists>s fl. hist_run (\<lambda>_. NaN) [Typed ''bob'', Yield_chip, Timer] hist_mounted = Some (s, fl) \<and> tf_search (th_active (hs_hook s)) = ''bob''"
proof -
  obtain s fl where s: "hist_run (\<lambda>_. NaN) [Typed ''bob'', Yield_chip, Timer] hist_mounted = Some (s, fl)"
    "hs_timer s = None" "hs_searchText s = ''bob''"
    by (simp add: hist_eval)
  from search_text_applied[OF s(1)] s show ?thesis by auto
qed

text \<open>
  But the timer applies the filters of the moment of typing: a quick filter pressed while it runs is undone
  when it fires.
\<close>

theorem late_search_undoes_chip:
  "hist_run date_of [Typed t, Yield_chip] (s, fl) = Some (s1, fl1) \<Longrightarrow>
   tf_yieldOnly (th_filters (hs_hook s1)) = (\<not> tf_yieldOnly (th_filters (hs_hook s)))
   \<and> map_option (\<lambda>y. th_filters (hs_hook (fst y))) (hist_run date_of [Timer] (s1, fl1)) = Some ((th_filters (hs_hook s))\<lparr>tf_search := t\<rparr>)"
  by (auto simp: hist_eval)

text \<open>And what has been chosen in the open sheet is lost when the timer fires before it is applied.\<close>

theorem late_search_resets_sheet:
  "\<exists>s fl. hist_run date_of [Typed ''bob'', Open_sheet, Edit_sheet (Set_status (Some Failed)), Timer, Apply_sheet] hist_mounted = Some (s, fl)
     \<and> tf_status (th_filters (hs_hook s)) = None"
  by (simp add: hist_eval sync_sheet_def DEFAULT_FILTERS_def)

text \<open>The quick filters combine to one that nothing passes: the yield chip does not take back a type chosen before.\<close>

theorem contradictory_chips:
  assumes "tf_type (th_filters (hs_hook s)) = Some Mass_payout" "\<not> tf_yieldOnly (th_filters (hs_hook s))"
  shows "filter (keeps date_of (yield_chip s)) txs = []"
  using assms by (auto simp: keeps_def yield_chip_def filter_empty_conv Let_def)

section \<open>Speeding up\<close>

text \<open>Without a key and without the extension the payment cannot be sped up; the local wallet is named.\<close>

theorem speed_up_without_wallet:
  assumes "getLocalKeypair S getA w = (Ret None, w)" "\<not> x_freighter S w"
  shows "handleSpeedUp S getA xdr w = (Throw (Error ''No local keypair available''), w)"
  using assms by (simp add: handleSpeedUp_def resolveWalletSource_def checkFreighter_def speedUpTransaction_def fee_payer_def
      local_key_def bnd_apply)

text \<open>
  One id is remembered for all rows: speeding up a second payment frees the button of the first, and a second
  fee bump of it is sent while the first is under way.
\<close>

theorem bumped_twice:
  assumes "list_shown s" "hs_speedingUpId s = None" "tx_id x \<noteq> tx_id y"
    and "{x, y} \<subseteq> set (th_items (hs_hook s))" "canSpeedUp date_of t x" "canSpeedUp date_of t y"
  shows "map_option snd (hist_run date_of [Speed_up t (tx_id x), Speed_up t (tx_id y), Speed_up t (tx_id x)] (s, fl))
    = Some (fl @ [Bump (tx_id x), Bump (tx_id y), Bump (tx_id x)])"
proof -
  have "\<exists>z \<in> set (th_items (hs_hook s)). tx_id z = tx_id x \<and> canSpeedUp date_of t z"
    "\<exists>z \<in> set (th_items (hs_hook s)). tx_id z = tx_id y \<and> canSpeedUp date_of t z" using assms(4-6) by auto
  with assms(1-3) show ?thesis by (simp add: list_shown_def)
qed

text \<open>
  The list is loaded again after a payment has been sped up, but from the cache of the service: within half a
  minute of the last load the answer is that load's page, in which the payment is still pending.
\<close>

theorem reload_answers_from_cache:
  assumes "fetch_fresh getItem setItem now sleep date_of mock f c s = (Ret page, s1)"
    and "memCache s2 = memCache s1" "now (tx_world s2) < now (tx_world s1) + 30000"
  shows "fetchTransactions getItem setItem now sleep date_of mock f c s2 = (Ret page, s2)"
proof -
  from assms(1) obtain s0 where "s1 = s0\<lparr>memCache := (memCache s0)((f, c) \<mapsto> (page, now (tx_world s0) + 30000))\<rparr>"
    by (auto simp: fetch_fresh_def bnd_def Let_def split: prod.splits res.splits)
  then show ?thesis using assms(2,3) by (simp add: fetchTransactions_def)
qed

end
