(* ===== verification/Wallet_Screens.thy ===== *)
theory Wallet_Screens
  imports Wallet_Security Api_Client Deep_Links "HOL-Library.Multiset"
begin

text \<open>
  Backing up and recovering a wallet: \<open>app/mnemonic-backup.tsx\<close>, \<open>app/wallet-recovery.tsx\<close> and the buttons of
  \<open>components/PrivySocialButtons.tsx\<close>, over the keychain of \<open>Wallet_Security\<close> and the session of \<open>Api_Client\<close>.
  Main results: the phrase shown by the backup screen, pasted into the recovery screen, restores the same
  account; the quiz unlocks with exactly the right words and can always be passed; the phrase does not stay
  on the clipboard.  But opening the backup screen replaces a wallet, and so does social recovery.
\<close>

section \<open>The quiz\<close>

definition QUIZ_POSITIONS :: "nat list" where "QUIZ_POSITIONS = [3, 7, 11]"

text \<open>
  Fisher and Yates: \<open>draw i\<close> is \<open>Math.floor(Math.random() * (i + 1))\<close>, at most \<open>i\<close>.  \<open>shuffle_from draw n\<close>
  runs the loop for \<open>i = n, ..., 1\<close>.
\<close>

definition swap :: "nat \<Rightarrow> nat \<Rightarrow> 'a list \<Rightarrow> 'a list" where
  "swap i j xs = xs[i := xs ! j, j := xs ! i]"

fun shuffle_from :: "(nat \<Rightarrow> nat) \<Rightarrow> nat \<Rightarrow> 'a list \<Rightarrow> 'a list" where
  "shuffle_from draw 0 xs = xs"
| "shuffle_from draw (Suc i) xs = shuffle_from draw i (swap (Suc i) (draw (Suc i)) xs)"

definition shuffle :: "(nat \<Rightarrow> nat) \<Rightarrow> 'a list \<Rightarrow> 'a list" where
  "shuffle draw xs = shuffle_from draw (length xs - 1) xs"

definition quizWordOptions :: "(nat \<Rightarrow> nat) \<Rightarrow> (nat \<Rightarrow> nat) \<Rightarrow> string list \<Rightarrow> nat \<Rightarrow> string list" where
  "quizWordOptions draw draw' ws pos = (let correct = ws ! (pos - 1); decoys = take 3 (shuffle draw (filter (\<lambda>w. w \<noteq> correct) ws))
     in shuffle draw' (correct # decoys))"

section \<open>The backup screen\<close>

datatype backup_stage = Phrase | Verify

text \<open>
  \<open>bk_interval\<close>: the countdown runs; \<open>bk_cancel\<close>: \<open>cancelClipboardRef\<close> is set; \<open>bk_continuing\<close>: so many runs
  of \<open>handleContinue\<close> wait for the clipboard; \<open>bk_unlocked\<close>, \<open>bk_left\<close>: the screen has moved on, is gone; \<open>bk_alerts\<close> counts the alerts.
\<close>

record backup =
  bk_wallet :: "GeneratedWallet option"
  bk_loading :: bool
  bk_error :: "string option"
  bk_confirmed :: bool
  bk_copied :: bool
  bk_copyCountdown :: "nat option"
  bk_stage :: backup_stage
  bk_answers :: "nat \<rightharpoonup> string"
  bk_quizOptions :: "nat \<rightharpoonup> string list"
  bk_interval :: bool
  bk_cancel :: bool
  bk_continuing :: nat
  bk_unlocked :: bool
  bk_left :: bool
  bk_alerts :: nat

definition backup_mounted :: backup where
  "backup_mounted = \<lparr>bk_wallet = None, bk_loading = True, bk_error = None, bk_confirmed = False, bk_copied = False,
     bk_copyCountdown = None, bk_stage = Phrase, bk_answers = Map.empty, bk_quizOptions = Map.empty, bk_interval = False,
     bk_cancel = False, bk_continuing = 0, bk_unlocked = False, bk_left = False, bk_alerts = 0\<rparr>"

definition on_generated :: "GeneratedWallet res \<Rightarrow> backup \<Rightarrow> backup" where
  "on_generated r s = (case r of Ret g \<Rightarrow> s\<lparr>bk_wallet := Some g\<rparr>
     | Throw e \<Rightarrow> s\<lparr>bk_error := Some (message_or ''Failed to generate wallet'' e)\<rparr>)\<lparr>bk_loading := False\<rparr>"

definition cancel_ref :: "backup \<Rightarrow> clip \<Rightarrow> clip" where
  "cancel_ref s c = (if bk_cancel s then cancelCopy c else c)"

definition handleCopy :: "backup \<times> clip \<Rightarrow> backup \<times> clip" where
  "handleCopy = (\<lambda>(s, c). case bk_wallet s of None \<Rightarrow> (s, c)
     | Some g \<Rightarrow> (s\<lparr>bk_cancel := True, bk_copied := True, bk_copyCountdown := Some 30, bk_interval := True\<rparr>,
                  copyWithAutoClear (gw_mnemonic g) (cancel_ref s c)))"

definition countdown :: "backup \<Rightarrow> backup" where
  "countdown s = (case bk_copyCountdown s of
       None \<Rightarrow> s\<lparr>bk_interval := False, bk_copied := False\<rparr>
     | Some n \<Rightarrow> if n \<le> 1 then s\<lparr>bk_interval := False, bk_copied := False, bk_copyCountdown := None\<rparr>
         else s\<lparr>bk_copyCountdown := Some (n - 1)\<rparr>)"

definition phrase_words :: "GeneratedWallet \<Rightarrow> string list" where
  "phrase_words g = split (CHR '' '') (gw_mnemonic g)"

text \<open>\<open>handleContinue\<close> up to its \<open>await\<close>, and after it.\<close>

definition continue_begin :: "backup \<times> clip \<Rightarrow> backup \<times> clip" where
  "continue_begin = (\<lambda>(s, c). if \<not> bk_confirmed s \<or> bk_wallet s = None then (s, c) else (s\<lparr>bk_continuing := bk_continuing s + 1\<rparr>, clearClipboard c))"

definition continue_end :: "(nat \<Rightarrow> nat \<Rightarrow> nat) \<Rightarrow> (nat \<Rightarrow> nat \<Rightarrow> nat) \<Rightarrow> backup \<Rightarrow> backup" where
  "continue_end draw draw' s = (case bk_wallet s of None \<Rightarrow> s
     | Some g \<Rightarrow> s\<lparr>bk_interval := False, bk_cancel := False, bk_copied := False, bk_continuing := bk_continuing s - 1,
         bk_quizOptions := map_of (map (\<lambda>p. (p, quizWordOptions (draw p) (draw' p) (phrase_words g) p)) QUIZ_POSITIONS),
         bk_answers := Map.empty, bk_stage := Verify\<rparr>)"

definition checkAnswers :: "backup \<Rightarrow> (nat \<rightharpoonup> string) \<Rightarrow> bool" where
  "checkAnswers s a \<longleftrightarrow> list_all (\<lambda>p. a p = (case bk_wallet s of None \<Rightarrow> None | Some g \<Rightarrow> nth_opt (phrase_words g) (p - 1))) QUIZ_POSITIONS"

definition handleSelect :: "nat \<Rightarrow> string \<Rightarrow> backup \<Rightarrow> backup" where
  "handleSelect p x s = (let a = (bk_answers s)(p \<mapsto> x); s1 = s\<lparr>bk_answers := a\<rparr> in
     if checkAnswers s a then s1\<lparr>bk_unlocked := True\<rparr>
     else if list_all (\<lambda>q. a q \<noteq> None) QUIZ_POSITIONS then s1\<lparr>bk_alerts := bk_alerts s + 1\<rparr> else s1)"

definition leave :: "backup \<times> clip \<Rightarrow> backup \<times> clip" where
  "leave = (\<lambda>(s, c). (s\<lparr>bk_left := True, bk_interval := False\<rparr>, cancel_ref s c))"

text \<open>Unlocking replaces the screen, which leaves it.\<close>

datatype backup_event =
    Generated "GeneratedWallet res"
  | Copy
  | Second
  | Millisecond
  | Other_app string
  | Confirm
  | Continue_pressed
  | Continued "nat \<Rightarrow> nat \<Rightarrow> nat" "nat \<Rightarrow> nat \<Rightarrow> nat"
  | Select nat string
  | Leave

fun backup_step :: "backup_event \<Rightarrow> backup \<times> clip \<Rightarrow> (backup \<times> clip) option" where
  "backup_step (Generated r) (s, c) = (if bk_loading s then Some (on_generated r s, c) else None)"
| "backup_step Copy (s, c) = (if bk_wallet s \<noteq> None \<and> bk_stage s = Phrase \<and> \<not> bk_left s then Some (handleCopy (s, c)) else None)"
| "backup_step Second (s, c) = (if bk_interval s then Some (countdown s, c) else None)"
| "backup_step Millisecond (s, c) = Some (s, tick c)"
| "backup_step (Other_app v) (s, c) = Some (s, c\<lparr>board := v, sensitive := False\<rparr>)"
| "backup_step Confirm (s, c) = (if bk_wallet s \<noteq> None \<and> bk_stage s = Phrase \<and> \<not> bk_left s
     then Some (s\<lparr>bk_confirmed := \<not> bk_confirmed s\<rparr>, c) else None)"
| "backup_step Continue_pressed (s, c) = (if bk_confirmed s \<and> bk_stage s = Phrase \<and> \<not> bk_left s then Some (continue_begin (s, c)) else None)"
| "backup_step (Continued d d') (s, c) = (if 0 < bk_continuing s \<and> \<not> bk_left s then Some (continue_end d d' s, c) else None)"
| "backup_step (Select p x) (s, c) = (if bk_stage s = Verify \<and> \<not> bk_left s
       \<and> (\<exists>xs. bk_quizOptions s p = Some xs \<and> x \<in> set xs)
       then (let s1 = handleSelect p x s in Some (if bk_unlocked s1 then leave (s1, c) else (s1, c))) else None)"
| "backup_step Leave (s, c) = (if bk_left s then None else Some (leave (s, c)))"

fun backup_run :: "backup_event list \<Rightarrow> backup \<times> clip \<Rightarrow> (backup \<times> clip) option" where
  "backup_run [] y = Some y"
| "backup_run (e # es) y = Option.bind (backup_step e y) (backup_run es)"

section \<open>The recovery screen\<close>

record recovery =
  rc_wordCount :: nat
  rc_words :: "string list"
  rc_invalidIndices :: "nat set"
  rc_pasteMode :: bool
  rc_pasteText :: string
  rc_loading :: bool
  rc_validationError :: "string option"
  rc_socialRecoveryLoading :: bool
  rc_socialRecoveryError :: "string option"

definition recovery_mounted :: recovery where
  "recovery_mounted = \<lparr>rc_wordCount = 24, rc_words = replicate 24 [], rc_invalidIndices = {}, rc_pasteMode = False, rc_pasteText = [],
     rc_loading = False, rc_validationError = None, rc_socialRecoveryLoading = False, rc_socialRecoveryError = None\<rparr>"

definition handleWordCountChange :: "nat \<Rightarrow> recovery \<Rightarrow> recovery" where
  "handleWordCountChange n s = s\<lparr>rc_wordCount := n, rc_words := replicate n [], rc_invalidIndices := {}, rc_validationError := None,
     rc_pasteText := []\<rparr>"

text \<open>A cell passes on its text in lower case without blanks at the ends.\<close>

definition handleWordChange :: "nat \<Rightarrow> string \<Rightarrow> recovery \<Rightarrow> recovery" where
  "handleWordChange i t s = s\<lparr>rc_words := (rc_words s)[i := trim (toLowerCase t)], rc_invalidIndices := rc_invalidIndices s - {i},
     rc_validationError := None\<rparr>"

text \<open>\<open>split(/\s+/).filter(Boolean)\<close>.\<close>

function words_of :: "string \<Rightarrow> string list" where
  "words_of [] = []"
| "words_of (c # s) = (if is_ws c then words_of s
     else (c # takeWhile (\<lambda>x. \<not> is_ws x) s) # words_of (dropWhile (\<lambda>x. \<not> is_ws x) s))"
  by pat_completeness auto
termination
  by (relation "measure length") (auto simp: less_Suc_eq_le length_dropWhile_le)

definition handlePasteApply :: "recovery \<Rightarrow> recovery" where
  "handlePasteApply s = (let parsed = words_of (toLowerCase (trim (rc_pasteText s))) in
     if length parsed \<noteq> rc_wordCount s
     then s\<lparr>rc_validationError := Some (''Expected '' @ nat_digits (rc_wordCount s) @ '' words but got '' @ nat_digits (length parsed)
            @ ''. Please check your phrase.'')\<rparr>
     else s\<lparr>rc_words := parsed, rc_invalidIndices := {}, rc_validationError := None, rc_pasteMode := False, rc_pasteText := []\<rparr>)"

text \<open>
  \<open>handleRecover\<close> up to the restoring: the new state, and the phrase if it passed.  \<open>wordlist\<close> is the English list of
  the package.
\<close>

definition handleRecover :: "('w, 'k) wallet_crypto \<Rightarrow> (string \<Rightarrow> bool) \<Rightarrow> recovery \<Rightarrow> recovery \<times> string option" where
  "handleRecover C wordlist s =
     (let activeWords = take (rc_wordCount s) (rc_words s);
          emptyIndices = set (filter (\<lambda>i. trim (activeWords ! i) = []) [0..<length activeWords]);
          phrase = join '' '' activeWords
      in if emptyIndices \<noteq> {}
         then (s\<lparr>rc_invalidIndices := emptyIndices,
                 rc_validationError := Some (''Please fill in all '' @ nat_digits (rc_wordCount s) @ '' words before continuing.'')\<rparr>, None)
         else if \<not> validateMnemonic C phrase
         then let bad = set (filter (\<lambda>i. \<not> wordlist (toLowerCase (trim (activeWords ! i)))) [0..<length activeWords]) in
           (s\<lparr>rc_invalidIndices := bad, rc_validationError := Some (if 0 < card bad
                then nat_digits (card bad) @ '' word(s) are not valid BIP39 words. Check the highlighted fields.''
                else ''Invalid recovery phrase. Please check the word order and try again.'')\<rparr>, None)
         else (s\<lparr>rc_validationError := None, rc_loading := True\<rparr>, Some phrase))"

definition on_restored :: "WalletAccount res \<Rightarrow> recovery \<Rightarrow> recovery" where
  "on_restored r s = (case r of Ret _ \<Rightarrow> s\<lparr>rc_words := replicate (rc_wordCount s) []\<rparr>
     | Throw e \<Rightarrow> s\<lparr>rc_validationError := Some (message_or ''Recovery failed. Please try again.'' e)\<rparr>)\<lparr>rc_loading := False\<rparr>"

definition filledCount :: "recovery \<Rightarrow> nat" where
  "filledCount s = length (filter (\<lambda>x. trim x \<noteq> []) (take (rc_wordCount s) (rc_words s)))"

definition restore_enabled :: "recovery \<Rightarrow> bool" where
  "restore_enabled s \<longleftrightarrow> filledCount s = rc_wordCount s \<or> rc_pasteMode s"

text \<open>The whole of a press on \<open>Restore Wallet\<close>, over the screen and the world.\<close>

definition press_restore ::
  "('w, 'k) wallet_crypto \<Rightarrow> (string \<Rightarrow> string \<Rightarrow> ('w, unit) io) \<Rightarrow> (string \<Rightarrow> bool) \<Rightarrow> recovery \<times> 'w
     \<Rightarrow> WalletAccount option \<times> recovery \<times> 'w" where
  "press_restore C setS wordlist = (\<lambda>(s, w). case handleRecover C wordlist s of
       (s1, None) \<Rightarrow> (None, s1, w)
     | (s1, Some phrase) \<Rightarrow> (case restoreWalletFromMnemonic C setS phrase w of
           (r, w1) \<Rightarrow> ((case r of Ret a \<Rightarrow> Some a | Throw _ \<Rightarrow> None), on_restored r s1, w1)))"

section \<open>Social recovery\<close>

text \<open>The \<open>try\<close> block: \<open>None\<close> without a session, else the name of the account; the wallet is a new one.\<close>

definition handleSocialRecover ::
  "(string \<Rightarrow> 'w \<Rightarrow> string option res) \<Rightarrow> (string \<Rightarrow> string \<Rightarrow> ('w, unit) io) \<Rightarrow>
   ('x api_body request \<Rightarrow> ('w, api_json option response) io) \<Rightarrow> string \<Rightarrow> ('w, 'k) wallet_crypto
     \<Rightarrow> ('w, PrivyRecoveryResult option) io" where
  "handleSocialRecover getS setS api API_BASE C = bnd (getSessionToken getS) (\<lambda>token.
     if \<not> truthy token then ret None
     else bnd (recoverWalletViaPrivy api API_BASE (the token)) (\<lambda>result.
       bnd (generateMnemonic C 24) (\<lambda>mnemonic.
       bnd (restoreWalletFromMnemonic C setS mnemonic) (\<lambda>_. ret (Some result)))))"

definition on_social :: "PrivyRecoveryResult option res \<Rightarrow> recovery \<Rightarrow> recovery" where
  "on_social r s = (case r of
       Ret None \<Rightarrow> s\<lparr>rc_socialRecoveryError := Some ''No social session found. Please sign in with a supported provider first.''\<rparr>
     | Ret (Some _) \<Rightarrow> s\<lparr>rc_words := replicate 24 [], rc_pasteText := []\<rparr>
     | Throw e \<Rightarrow> s\<lparr>rc_socialRecoveryError := Some (message_or ''Social recovery failed. Please try again.'' e)\<rparr>)
     \<lparr>rc_socialRecoveryLoading := False\<rparr>"

datatype provider = Google | Apple | Email

fun provider_str :: "provider \<Rightarrow> string" where
  "provider_str Google = ''google''" | "provider_str Apple = ''apple''" | "provider_str Email = ''email''"

definition buildPrivyAuthUrl :: "string \<Rightarrow> provider \<Rightarrow> string" where
  "buildPrivyAuthUrl PRIVY_APP_ID p = ''https://auth.privy.io/apps/'' @ PRIVY_APP_ID @ ''/login?provider='' @ provider_str p
     @ ''&redirect_uri=zaps://privy-callback''"

text \<open>What a button does before the timer that calls \<open>onSuccess\<close>.\<close>

definition handleLaunchPrivy ::
  "(string \<Rightarrow> ('w, bool) io) \<Rightarrow> (string \<Rightarrow> ('w, unit) io) \<Rightarrow> string \<Rightarrow> provider \<Rightarrow> ('w, unit) io" where
  "handleLaunchPrivy canOpenURL openURL PRIVY_APP_ID p = try_catch
     (bnd (canOpenURL (buildPrivyAuthUrl PRIVY_APP_ID p)) (\<lambda>supported.
        openURL (if supported then buildPrivyAuthUrl PRIVY_APP_ID p else ''https://auth.privy.io/login?provider='' @ provider_str p)))
     (\<lambda>_. ret ())"

section \<open>The quiz is fair\<close>

lemma mset_swap_at: "i < length xs \<Longrightarrow> j < length xs \<Longrightarrow> mset (swap i j xs) = mset xs"
  using mset_swap[of j xs i] by (simp add: swap_def)

lemma length_swap [simp]: "length (swap i j xs) = length xs"
  by (simp add: swap_def)

lemma mset_shuffle_from:
  "\<forall>i. draw i \<le> i \<Longrightarrow> n < length xs \<Longrightarrow> mset (shuffle_from draw n xs) = mset xs"
proof (induction n arbitrary: xs)
  case (Suc n)
  have "draw (Suc n) < length xs" using Suc.prems by (meson le_less_trans)
  with Suc show ?case by (simp add: mset_swap_at)
qed simp

lemma mset_shuffle: "\<forall>i. draw i \<le> i \<Longrightarrow> mset (shuffle draw xs) = mset xs"
  by (cases xs) (simp_all add: shuffle_def mset_shuffle_from)

lemma set_shuffle: "\<forall>i. draw i \<le> i \<Longrightarrow> set (shuffle draw xs) = set xs"
  using mset_shuffle[of draw xs] by (metis set_mset_mset)

lemma length_shuffle: "\<forall>i. draw i \<le> i \<Longrightarrow> length (shuffle draw xs) = length xs"
  using mset_shuffle[of draw xs] by (metis size_mset)

text \<open>
  Whatever the draws, the options of a position are words of the phrase, the right one is among them exactly
  once, and there are three others if the phrase has them.
\<close>

theorem quiz_options:
  assumes "\<forall>i. draw i \<le> i" "\<forall>i. draw' i \<le> i" "pos - 1 < length ws"
  shows "count_list (quizWordOptions draw draw' ws pos) (ws ! (pos - 1)) = 1
    \<and> set (quizWordOptions draw draw' ws pos) \<subseteq> set ws
    \<and> length (quizWordOptions draw draw' ws pos) = Suc (min 3 (length (filter (\<lambda>w. w \<noteq> ws ! (pos - 1)) ws)))"
proof -
  define c where "c = ws ! (pos - 1)"
  define ds where "ds = take 3 (shuffle draw (filter (\<lambda>w. w \<noteq> c) ws))"
  have q: "quizWordOptions draw draw' ws pos = shuffle draw' (c # ds)" by (simp add: quizWordOptions_def c_def ds_def Let_def)
  have ds: "set ds \<subseteq> {w \<in> set ws. w \<noteq> c}"
    using set_take_subset[of 3 "shuffle draw (filter (\<lambda>w. w \<noteq> c) ws)"] by (auto simp: ds_def set_shuffle[OF assms(1)])
  then have "c \<notin> set ds" by auto
  then have "count_list (shuffle draw' (c # ds)) c = 1"
    using mset_shuffle[OF assms(2), of "c # ds"] by (simp add: count_mset[symmetric] count_list_0_iff)
  moreover have "c \<in> set ws" using assms(3) by (simp add: c_def)
  ultimately show ?thesis using ds unfolding c_def[symmetric] q set_shuffle[OF assms(2)] length_shuffle[OF assms(2)]
    by (auto simp: c_def[symmetric] ds_def length_shuffle[OF assms(1)] min.commute)
qed

theorem quiz_options_witness:
  "length (quizWordOptions (\<lambda>i. 0) (\<lambda>i. i) [''able'', ''bird'', ''cat'', ''door'', ''east''] 3) = 4"
  using quiz_options[of "\<lambda>i. 0" "\<lambda>i. i" 3 "[''able'', ''bird'', ''cat'', ''door'', ''east'']"] by simp

text \<open>The decoys are taken from the phrase with its repetitions, so two of the options can be the same word.\<close>

theorem decoys_repeat:
  "quizWordOptions (\<lambda>i. i) (\<lambda>i. i) [''able'', ''bird'', ''bird'', ''cat''] 1 = [''able'', ''bird'', ''bird'', ''cat'']"
  by code_simp

section \<open>Unlocking\<close>

definition unlock_inv :: "backup \<times> clip \<Rightarrow> bool" where
  "unlock_inv = (\<lambda>(s, c). (bk_wallet s \<noteq> None \<longrightarrow> \<not> bk_loading s) \<and> (bk_stage s = Verify \<longrightarrow> bk_wallet s \<noteq> None)
     \<and> (bk_unlocked s \<longrightarrow> bk_left s \<and> bk_wallet s \<noteq> None \<and> checkAnswers s (bk_answers s)))"

lemma unlock_inv_step:
  assumes "backup_step e y = Some y'" "unlock_inv y"
  shows "unlock_inv y'"
  using assms
  by (cases y; cases e) (auto simp: unlock_inv_def on_generated_def handleCopy_def countdown_def continue_begin_def continue_end_def
      handleSelect_def leave_def checkAnswers_def list_all_iff Let_def split: if_splits option.splits res.splits)

text \<open>
  C33: The screen unlocks only when the words chosen for the positions 3, 7 and 11 are those of the phrase, however
  it is used.
\<close>

theorem unlocked_with_words:
  assumes "backup_run es (backup_mounted, c) = Some (s, c')" "bk_unlocked s"
  shows "\<exists>g. bk_wallet s = Some g \<and> (\<forall>p \<in> set QUIZ_POSITIONS. bk_answers s p = nth_opt (phrase_words g) (p - 1))"
proof -
  have "unlock_inv z" if "backup_run fs y = Some z" "unlock_inv y" for fs y z
    using that by (induction fs arbitrary: y) (auto simp: Option.bind_eq_Some_conv dest: unlock_inv_step)
  from this[OF assms(1)] have "unlock_inv (s, c')" by (simp add: unlock_inv_def backup_mounted_def)
  then show ?thesis using assms(2) by (auto simp: unlock_inv_def checkAnswers_def list_all_iff split: option.splits)
qed

lemma options_ok:
  assumes "\<forall>i. d p i \<le> i" "\<forall>i. d' p i \<le> i" "p - 1 < length ws"
  shows "ws ! (p - 1) \<in> set (quizWordOptions (d p) (d' p) ws p)"
proof -
  have "ws ! (p - 1) \<in> set (shuffle (d' p) (ws ! (p - 1) # xs))" for xs by (simp add: set_shuffle[OF assms(2)])
  then show ?thesis by (simp add: quizWordOptions_def Let_def)
qed

lemma quiz_run:
  assumes "bk_wallet s = Some g" "11 \<le> length (phrase_words g)" "0 < bk_continuing s" "\<not> bk_left s" "\<not> bk_unlocked s"
    and "\<forall>p i. d p i \<le> i" "\<forall>p i. d' p i \<le> i"
  shows "\<exists>s' c'. backup_run (Continued d d' # map (\<lambda>p. Select p (phrase_words g ! (p - 1))) QUIZ_POSITIONS) (s, c) = Some (s', c')
    \<and> bk_unlocked s'"
proof -
  define ws where "ws = phrase_words g"
  have o: "ws ! (p - 1) \<in> set (quizWordOptions (d p) (d' p) ws p)" if "p \<le> 11" for p
    using that assms(2,6,7) by (intro options_ok) (auto simp: ws_def[symmetric])
  have n: "nth_opt ws (p - 1) = Some (ws ! (p - 1))" if "p \<le> 11" for p
    using that assms(2) by (auto simp: nth_opt_def ws_def[symmetric])
  show ?thesis
    using assms(1,3-5) o[of 3] o[of 7] o[of 11] n[of 3] n[of 7] n[of 11]
    by (simp add: QUIZ_POSITIONS_def continue_end_def handleSelect_def checkAnswers_def leave_def Let_def ws_def[symmetric])
qed

text \<open>And it can always be unlocked: the right words are among the options, and choosing them opens it.\<close>

theorem quiz_solvable:
  assumes "bk_wallet s = Some g" "11 \<le> length (phrase_words g)" "0 < bk_continuing s" "\<not> bk_left s" "\<not> bk_unlocked s"
    and "\<forall>p i. d p i \<le> i" "\<forall>p i. d' p i \<le> i"
  shows "\<exists>s' c'. backup_run (Continued d d' # map (\<lambda>p. Select p (phrase_words g ! (p - 1))) QUIZ_POSITIONS) (s, c) = Some (s', c')
    \<and> bk_unlocked s'"
  using assms by (rule quiz_run)

definition sample_wallet :: GeneratedWallet where
  "sample_wallet = \<lparr>gw_mnemonic = ''a b c d e f g h i j k'', gw_accounts = []\<rparr>"

definition empty_clip :: clip where
  "empty_clip = \<lparr>board = [], clipboardClearTimer = None, pending = [], clock = 0, next_timer = 0, sensitive = False, copied_at = 0\<rparr>"

definition in_quiz :: backup where
  "in_quiz = backup_mounted\<lparr>bk_wallet := Some sample_wallet, bk_loading := False, bk_confirmed := True, bk_continuing := 1\<rparr>"

theorem quiz_solvable_witness:
  "\<exists>s' c'. backup_run (Continued (\<lambda>p i. 0) (\<lambda>p i. i) # map (\<lambda>p. Select p (phrase_words sample_wallet ! (p - 1))) QUIZ_POSITIONS) (in_quiz, c)
    = Some (s', c') \<and> bk_unlocked s'"
proof -
  have "11 \<le> length (phrase_words sample_wallet)" by (simp add: phrase_words_def sample_wallet_def)
  then show ?thesis by (intro quiz_solvable) (simp_all add: in_quiz_def backup_mounted_def)
qed

theorem unlocked_with_words_witness:
  "\<exists>s c'. backup_run [Generated (Ret sample_wallet), Confirm, Continue_pressed, Continued (\<lambda>p i. 0) (\<lambda>p i. i),
      Select 3 ''c'', Select 7 ''g'', Select 11 ''k''] (backup_mounted, empty_clip) = Some (s, c') 
     \<and> (\<exists>g. bk_wallet s = Some g \<and> (\<forall>p \<in> set QUIZ_POSITIONS. bk_answers s p = nth_opt (phrase_words g) (p - 1)))"
proof -
  define s0 where "s0 = backup_mounted\<lparr>bk_wallet := Some sample_wallet, bk_loading := False, bk_confirmed := True, bk_continuing := 1\<rparr>"
  have w: "phrase_words sample_wallet = [''a'', ''b'', ''c'', ''d'', ''e'', ''f'', ''g'', ''h'', ''i'', ''j'', ''k'']"
    by (simp add: phrase_words_def sample_wallet_def)
  obtain s c' where r: "backup_run (Continued (\<lambda>p i. 0) (\<lambda>p i. i) # map (\<lambda>p. Select p (phrase_words sample_wallet ! (p - 1))) QUIZ_POSITIONS)
      (s0, clearClipboard empty_clip) = Some (s, c')" and u: "bk_unlocked s"
    using quiz_run[of s0 sample_wallet "\<lambda>p i. 0" "\<lambda>p i. i" "clearClipboard empty_clip"] w by (auto simp: s0_def backup_mounted_def)
  have "backup_run [Generated (Ret sample_wallet), Confirm, Continue_pressed, Continued (\<lambda>p i. 0) (\<lambda>p i. i),
      Select 3 ''c'', Select 7 ''g'', Select 11 ''k''] (backup_mounted, empty_clip) = Some (s, c')"
    using r by (simp add: s0_def backup_mounted_def on_generated_def continue_begin_def w QUIZ_POSITIONS_def del: backup_step.simps(8,9))
  from this unlocked_with_words[OF this u] show ?thesis by blast
qed

section \<open>The clipboard\<close>

lemma clearTimer_sensitive [simp]: "sensitive (clearTimer c) = sensitive c"
  by (simp add: clearTimer_def split: option.splits)

lemma cleared [simp]: "\<not> sensitive (cancelCopy c)" "\<not> sensitive (clearClipboard c)"
  by (simp_all add: cancelCopy_def clearClipboard_def)

lemma tick_sensitive: "sensitive (tick c) \<Longrightarrow> sensitive c"
proof -
  have "\<not> sensitive d \<Longrightarrow> \<not> sensitive (fold fire ps d)" for ps d
    by (induction ps arbitrary: d) (auto simp: fire_def)
  then have "\<not> sensitive c \<Longrightarrow> \<not> sensitive (tick c)" by (simp add: tick_def Let_def)
  then show "sensitive (tick c) \<Longrightarrow> sensitive c" by blast
qed

definition clip_inv :: "backup_event list \<Rightarrow> backup \<times> clip \<Rightarrow> bool" where
  "clip_inv es = (\<lambda>(s, c). (sensitive c \<longrightarrow> bk_cancel s \<and> bk_continuing s = 0 \<and> \<not> bk_left s)
     \<and> (0 < bk_continuing s \<longrightarrow> Copy \<notin> set es) \<and> Copy \<notin> set (dropWhile (\<lambda>e. e \<noteq> Continue_pressed) es))"

lemma clip_inv_step:
  assumes "backup_step e y = Some y'" "clip_inv (e # es) y"
  shows "clip_inv es y'"
proof -
  have d: "Copy \<notin> set (dropWhile (\<lambda>e. e \<noteq> Continue_pressed) es)" if "Copy \<notin> set es" for es
    using that by (auto dest: set_dropWhileD)
  show ?thesis
    using assms
    by (cases y; cases e) (auto simp: clip_inv_def on_generated_def handleCopy_def countdown_def continue_begin_def continue_end_def
        handleSelect_def leave_def cancel_ref_def Let_def dest: tick_sensitive d split: if_splits option.splits res.splits)
qed

text \<open>
  When the screen is left the phrase is not on the clipboard, however often it was copied and whatever time has
  passed, provided it was not copied again after \<open>Continue\<close>.
\<close>

theorem phrase_cleared:
  assumes "backup_run es (backup_mounted, c) = Some (s, c')" "bk_left s" "\<not> sensitive c"
    and "Copy \<notin> set (dropWhile (\<lambda>e. e \<noteq> Continue_pressed) es)"
  shows "\<not> sensitive c'"
proof -
  have "clip_inv [] z" if "backup_run fs y = Some z" "clip_inv fs y" for fs y z
    using that by (induction fs arbitrary: y) (auto simp: Option.bind_eq_Some_conv dest: clip_inv_step)
  from this[OF assms(1)] have "clip_inv [] (s, c')" using assms(3,4) by (simp add: clip_inv_def backup_mounted_def)
  then show ?thesis using assms(2) by (auto simp: clip_inv_def)
qed

lemmas backup_eval = backup_mounted_def on_generated_def handleCopy_def continue_begin_def continue_end_def leave_def cancel_ref_def

theorem phrase_cleared_witness:
  "\<exists>s c'. backup_run [Generated (Ret sample_wallet), Copy, Copy, Leave] (backup_mounted, empty_clip) = Some (s, c') \<and> \<not> sensitive c'"
proof -
  obtain s c' where r: "backup_run [Generated (Ret sample_wallet), Copy, Copy, Leave] (backup_mounted, empty_clip) = Some (s, c')"
    "bk_left s" by (simp add: backup_eval)
  from phrase_cleared[OF r] r(1) show ?thesis by (auto simp: empty_clip_def)
qed

text \<open>
  Without the proviso it fails: \<open>handleContinue\<close> drops the cancel function after its \<open>await\<close>, so a copy made
  while it waits is not taken back when the screen is left.
\<close>

theorem late_copy_stays:
  "\<exists>s c'. backup_run [Generated (Ret g), Confirm, Continue_pressed, Copy, Continued d d', Leave] (backup_mounted, c) = Some (s, c')
     \<and> sensitive c' \<and> board c' = gw_mnemonic g"
  by (simp add: backup_eval copyWithAutoClear_def Let_def)

section \<open>Pasting a phrase\<close>

lemma collapse_word: "list_all (\<lambda>x. \<not> is_ws x) u \<Longrightarrow> collapse (u @ y) = u @ collapse y"
  by (induction u) auto

lemma words_of_dropWhile: "words_of (dropWhile is_ws v) = words_of v"
  by (induction v) auto

lemma join_words_of:
  "t = [] \<or> (\<not> is_ws (hd t) \<and> \<not> is_ws (last t)) \<Longrightarrow> join '' '' (words_of t) = collapse t"
proof (induction t rule: length_induct)
  case (1 t)
  show ?case
  proof (cases t)
    case (Cons x r)
    define u where "u = takeWhile (\<lambda>x. \<not> is_ws x) r"
    define v where "v = dropWhile (\<lambda>x. \<not> is_ws x) r"
    define z where "z = dropWhile is_ws v"
    have x: "\<not> is_ws x" using 1(2) Cons by simp
    have r: "r = u @ v" by (simp add: u_def v_def)
    have u: "list_all (\<lambda>x. \<not> is_ws x) u" by (auto simp: u_def list_all_iff dest: set_takeWhileD)
    have w: "words_of t = (x # u) # words_of z" using x Cons by (simp add: u_def v_def z_def words_of_dropWhile)
    have c: "collapse t = (x # u) @ collapse v" using collapse_word[of "x # u" v] u x by (simp add: Cons r)
    show ?thesis
    proof (cases v)
      case Nil
      then show ?thesis by (simp add: w c z_def)
    next
      case v: (Cons b v')
      have b: "is_ws b" using v hd_dropWhile[of "\<lambda>x. \<not> is_ws x" r] by (simp add: v_def)
      have lv: "\<not> is_ws (last v)" using 1(2) Cons r v by simp
      have z: "z \<noteq> []" using lv v unfolding z_def by (metis dropWhile_eq_Nil_conv last_in_set list.distinct(1))
      have lz: "last z = last v" using z unfolding z_def by (metis last_appendR takeWhile_dropWhile_id)
      have hz: "\<not> is_ws (hd z)" using z unfolding z_def by (rule hd_dropWhile)
      have "length z < length t" using length_dropWhile_le[of is_ws v] by (simp add: z_def Cons r)
      with 1(1) z hz lz lv have IH: "join '' '' (words_of z) = collapse z" by auto
      obtain y ys where "words_of z = y # ys" using z hz by (cases z) auto
      moreover have "collapse v = CHR '' '' # collapse z" using b by (simp add: v z_def)
      ultimately show ?thesis using IH by (simp add: w c)
    qed
  qed simp
qed

lemma words_of_word: "x \<in> set (words_of t) \<Longrightarrow> x \<noteq> [] \<and> list_all (\<lambda>y. \<not> is_ws y) x"
proof (induction t rule: words_of.induct)
  case (2 c s)
  show ?case
  proof (cases "is_ws c")
    case True
    with 2 show ?thesis by simp
  next
    case False
    then have "x = c # takeWhile (\<lambda>y. \<not> is_ws y) s \<or> x \<in> set (words_of (dropWhile (\<lambda>y. \<not> is_ws y) s))"
      using 2(3) by simp
    then show ?thesis
    proof
      assume "x = c # takeWhile (\<lambda>y. \<not> is_ws y) s"
      moreover have "list_all (\<lambda>y. \<not> is_ws y) (takeWhile (\<lambda>y. \<not> is_ws y) s)"
        by (auto simp: list_all_iff dest: set_takeWhileD)
      ultimately show ?thesis using False by simp
    qed (rule 2(2)[OF False])
  qed
qed simp

lemma pasted_phrase: "join '' '' (words_of (toLowerCase (trim t))) = normalizePhrase t"
proof -
  have "toLowerCase (trim t) = [] \<or> (\<not> is_ws (hd (toLowerCase (trim t))) \<and> \<not> is_ws (last (toLowerCase (trim t))))"
    using trim_hd_last[of t] by (cases "trim t = []") (auto simp: toLowerCase_def hd_map last_map)
  then show ?thesis unfolding normalizePhrase_def by (rule join_words_of)
qed

lemma paste_passes:
  assumes "length (words_of (toLowerCase (trim (rc_pasteText s)))) = rc_wordCount s"
  shows "snd (handleRecover C wordlist (handlePasteApply s)) =
    (if validateMnemonic C (rc_pasteText s) then Some (normalizePhrase (rc_pasteText s)) else None)"
proof -
  let ?ws = "words_of (toLowerCase (trim (rc_pasteText s)))"
  have "trim (?ws ! i) \<noteq> []" if "i < length ?ws" for i
    using words_of_word[OF nth_mem[OF that]] trim_no_ws by metis
  then have "\<not> (\<exists>i < rc_wordCount s. trim (?ws ! i) = [])" using assms by auto
  then show ?thesis using assms
    by (auto simp: handleRecover_def handlePasteApply_def pasted_phrase validateMnemonic_def Let_def)
qed

text \<open>
  A pasted phrase of the right number of words is checked and restored in its normal form: the recovery
  screen and the wallet service split a text in different ways, but agree.
\<close>

theorem pasted_phrase_checked:
  assumes "length (words_of (toLowerCase (trim (rc_pasteText s)))) = rc_wordCount s"
  shows "snd (handleRecover C wordlist (handlePasteApply s)) =
    (if validateMnemonic C (rc_pasteText s) then Some (normalizePhrase (rc_pasteText s)) else None)"
  using assms by (rule paste_passes)

section \<open>From the backup to the recovery\<close>

lemma derive_normal: "deriveKeypairFromMnemonic C (normalizePhrase m) i = deriveKeypairFromMnemonic C m i"
  by (simp add: deriveKeypairFromMnemonic_def Let_def)

lemma create_accounts:
  "createNewWallet C setS n w = (Ret g, w') \<Longrightarrow>
   \<exists>k. deriveKeypairFromMnemonic C (gw_mnemonic g) (Fin 0) = Ret k \<and> gw_accounts g = [\<lparr>wa_accountIndex = Fin 0, wa_publicKey = kp_public C k\<rparr>]"
  by (auto simp: createNewWallet_def bnd_apply split: prod.splits res.splits)

text \<open>
  C32: The phrase shown by the backup screen restores the wallet: pasted into the recovery screen, in any later
  state of the keychain, it leads to the same account, and the keychain holds its keys.  The phrase has 24
  words, and the keychain is one that rejects nothing (\<open>wallet\<close>).
\<close>

theorem backup_restores:
  assumes "wallet getS setS delS C" "createNewWallet C setS 24 w = (Ret g, w1)"
    and "length (words_of (toLowerCase (trim (gw_mnemonic g)))) = 24"
  shows "\<exists>a s w3. press_restore C setS wordlist
      (handlePasteApply (recovery_mounted\<lparr>rc_pasteMode := True, rc_pasteText := gw_mnemonic g\<rparr>), w2) = (Some a, s, w3)
    \<and> gw_accounts g = [a] \<and> wallet_ok getS C (normalizePhrase (gw_mnemonic g)) 1 w3"
proof -
  let ?m = "gw_mnemonic g" let ?s = "handlePasteApply (recovery_mounted\<lparr>rc_pasteMode := True, rc_pasteText := ?m\<rparr>)"
  have v: "bip_validate C (normalizePhrase ?m)" using seeded_wallet.create_ok[OF wallet.axioms(2)[OF assms(1)] assms(2)] by (simp add: wallet_ok_def)
  have "snd (handleRecover C wordlist ?s) = Some (normalizePhrase ?m)"
    using paste_passes[of "recovery_mounted\<lparr>rc_pasteMode := True, rc_pasteText := ?m\<rparr>" C wordlist] assms(3) v
    by (simp add: recovery_mounted_def validateMnemonic_def)
  then obtain s1 where s1: "handleRecover C wordlist ?s = (s1, Some (normalizePhrase ?m))" by (metis prod.collapse)
  obtain k where k: "deriveKeypairFromMnemonic C (normalizePhrase (normalizePhrase ?m)) (Fin 0) = Ret k"
    and r: "\<exists>w3. restoreWalletFromMnemonic C setS (normalizePhrase ?m) w2
      = (Ret \<lparr>wa_accountIndex = Fin 0, wa_publicKey = kp_public C k\<rparr>, w3)"
    using wallet.restore_run[OF assms(1), of "normalizePhrase ?m" w2] v by auto
  from r obtain w3 where w3: "restoreWalletFromMnemonic C setS (normalizePhrase ?m) w2
      = (Ret \<lparr>wa_accountIndex = Fin 0, wa_publicKey = kp_public C k\<rparr>, w3)" by blast
  have "gw_accounts g = [\<lparr>wa_accountIndex = Fin 0, wa_publicKey = kp_public C k\<rparr>]"
    using create_accounts[OF assms(2)] k by (auto simp: derive_normal)
  moreover have "wallet_ok getS C (normalizePhrase ?m) 1 w3" using seeded_wallet.restore_ok[OF wallet.axioms(2)[OF assms(1)] w3] by simp
  ultimately show ?thesis by (simp add: press_restore_def s1 w3)
qed

text \<open>A wallet of 24 words.\<close>

definition phrase24 :: string where
  "phrase24 = join '' '' (replicate 24 ''abandon'')"

definition toy24 :: "(string \<rightharpoonup> string, bytes) wallet_crypto" where
  "toy24 = toy_crypto\<lparr>bip_generate := (\<lambda>_. ret phrase24), bip_validate := (\<lambda>s. s = normalizePhrase phrase24)\<rparr>"

lemma phrase24_words: "length (words_of (toLowerCase (trim phrase24))) = 24" "normalizePhrase phrase24 \<noteq> []"
  by code_simp+

interpretation mem_wallet24: wallet mem_getItem mem_setItem mem_removeItem toy24
  by unfold_locales (auto simp: toy24_def toy_crypto_defs key_text_inv phrase24_words(2)[symmetric])

theorem backup_restores_witness:
  "\<exists>g w1. createNewWallet toy24 mem_setItem 24 Map.empty = (Ret g, w1) \<and> (\<exists>a s w3. press_restore toy24 mem_setItem (\<lambda>_. True)
      (handlePasteApply (recovery_mounted\<lparr>rc_pasteMode := True, rc_pasteText := gw_mnemonic g\<rparr>), Map.empty) = (Some a, s, w3)
    \<and> gw_accounts g = [a])"
proof -
  have "bip_validate toy24 (normalizePhrase phrase24)" by (simp add: toy24_def)
  from derive_valid[OF this, of 0] obtain k where k: "deriveKeypairFromMnemonic toy24 phrase24 (Fin 0) = Ret k" by auto
  have "bip_generate toy24 256 Map.empty = (Ret phrase24, Map.empty)" by (simp add: toy24_def)
  then obtain g w1 where g: "createNewWallet toy24 mem_setItem 24 Map.empty = (Ret g, w1)" "gw_mnemonic g = phrase24"
    using k by (simp add: createNewWallet_def generateMnemonic_def bnd_apply storeMnemonic_def storeKeypair_def mem_setItem_def
        split: prod.splits)
  from backup_restores[OF mem_wallet24.wallet_axioms g(1)] g phrase24_words(1) show ?thesis by simp blast
qed

section \<open>Wallets replaced\<close>

text \<open>
  Opening the backup screen creates and stores a new wallet before anything is confirmed: where there was a
  wallet, the keychain now has the phrase, the first key and the account count of the new one.
\<close>

theorem opening_backup_replaces_wallet:
  assumes "wallet getS setS delS C" "wallet_ok getS C m n w" "createNewWallet C setS 24 w = (Ret g, w')"
  shows "getS MNEMONIC_KEY w' = Ret (Some (gw_mnemonic g)) \<and> getAccountCount getS w' = (Ret (acct 1), w')"
proof -
  note ok = seeded_wallet.create_ok[OF wallet.axioms(2)[OF assms(1)] assms(3)]
  then show ?thesis using wallet_count[OF ok] by (simp add: wallet_ok_def)
qed

text \<open>A social button reports success whatever the browser does: the rejection of opening the page is dropped.\<close>

theorem social_login_always_succeeds:
  "is_Ret (fst (handleLaunchPrivy canOpenURL openURL app p w))"
  unfolding handleLaunchPrivy_def by (rule try_catch_never_throws) simp

text \<open>
  And social recovery recovers no key: with a session, the wallet in the keychain is replaced by one of a
  newly generated phrase, which is not shown.
\<close>

theorem social_recovery_replaces_wallet:
  assumes "wallet getS setS delS C" "handleSocialRecover getS setS api B C w = (Ret (Some p), w')"
  shows "\<exists>m w1 w2. bip_generate C 256 w1 = (Ret m, w2) \<and> wallet_ok getS C (normalizePhrase m) 1 w'"
proof -
  from assms(2) obtain tok w0 where "(if \<not> truthy tok then ret None
     else bnd (recoverWalletViaPrivy api B (the tok)) (\<lambda>result. bnd (generateMnemonic C 24) (\<lambda>mnemonic.
       bnd (restoreWalletFromMnemonic C setS mnemonic) (\<lambda>_. ret (Some result))))) w0 = (Ret (Some p), w')"
    unfolding handleSocialRecover_def by (auto dest: bnd_RetE)
  then obtain r w1 where "bnd (generateMnemonic C 24) (\<lambda>mnemonic. bnd (restoreWalletFromMnemonic C setS mnemonic) (\<lambda>_. ret (Some r))) w1
      = (Ret (Some p), w')"
    by (auto dest: bnd_RetE split: if_splits)
  then obtain m w2 a where m: "generateMnemonic C 24 w1 = (Ret m, w2)" "restoreWalletFromMnemonic C setS m w2 = (Ret a, w')"
    by (auto dest!: bnd_RetE)
  with seeded_wallet.restore_ok[OF wallet.axioms(2)[OF assms(1)] m(2)] show ?thesis by (auto simp: generateMnemonic_def)
qed

end
