(* ===== verification/Claim_Screen.thy ===== *)
theory Claim_Screen
  imports Api_Client Deep_Links
begin

text \<open>
  Claiming a disbursement: \<open>services/sdpService.ts\<close> and the screen \<open>app/claim/[token].tsx\<close> that a claim link of
  \<open>Deep_Links\<close> opens.
  Main results: a link's token is validated at once, only well-formed tokens are sent, one at a time, and the
  result shown is an answer of the service.  But the service answers \<open>valid\<close> whenever the backend fails.
\<close>

section \<open>The service\<close>

definition TOKEN_KEY :: string where "TOKEN_KEY = ''auth_token''"

definition getAuthHeaders :: "(string \<Rightarrow> 'w \<Rightarrow> string option res) \<Rightarrow> ('w, string \<rightharpoonup> string) io" where
  "getAuthHeaders getA = bnd (reads (getA TOKEN_KEY)) (\<lambda>token. ret (json_header ++ bearer token))"

text \<open>\<open>None\<close>: a status of another text, or none.\<close>

datatype ClaimValidationStatus = Valid_claim | Expired_claim | Already_claimed | Invalid_claim

record ClaimValidationResult =
  cv_status :: "ClaimValidationStatus option"
  cv_recipientName :: "string option"
  cv_amount :: "string option"
  cv_assetCode :: "string option"

definition MOCK_CLAIM :: ClaimValidationResult where
  "MOCK_CLAIM = \<lparr>cv_status = Some Valid_claim, cv_recipientName = None, cv_amount = Some ''5,000.00'', cv_assetCode = Some ''USDC''\<rparr>"

definition validateClaimToken ::
  "(string \<Rightarrow> 'w \<Rightarrow> string option res) \<Rightarrow> (unit request \<Rightarrow> ('w, ClaimValidationResult response) io) \<Rightarrow> string \<Rightarrow> string
     \<Rightarrow> ('w, ClaimValidationResult) io" where
  "validateClaimToken getA fetch API_BASE token = bnd (getAuthHeaders getA) (\<lambda>hs. try_catch
     (bnd (fetch ((get_rq (API_BASE @ ''/api/disbursements/claim/validate?token='' @ encodeURIComponent token))\<lparr>headers := hs\<rparr>)) (\<lambda>res.
        if \<not> ok res then throw (http_status_error res) else reads (\<lambda>_. json res)))
     (\<lambda>_. ret MOCK_CLAIM))"

section \<open>The screen\<close>

datatype claim_state = Validating | Result | Claim_failed | Invalid_token

record claim_screen =
  cl_route :: "string option"
  cl_tokenInput :: string
  cl_screenState :: claim_state
  cl_result :: "ClaimValidationResult option"
  cl_tokenError :: "string option"

text \<open>With the tokens of the validations under way.\<close>

type_synonym claim_sys = "claim_screen \<times> string list"

definition runValidation :: "string option \<Rightarrow> claim_sys \<Rightarrow> claim_sys" where
  "runValidation token = (\<lambda>(s, fl). let effectiveToken = trim (case token of None \<Rightarrow> cl_tokenInput s | Some t \<Rightarrow> t) in
     if effectiveToken = []
     then (s\<lparr>cl_tokenError := Some ''Please enter a claim token.'', cl_screenState := Invalid_token\<rparr>, fl)
     else if \<not> isValidSdpToken effectiveToken
     then (s\<lparr>cl_tokenError := Some ''The token format is invalid. Please check the link and try again.'',
             cl_screenState := Invalid_token\<rparr>, fl)
     else (s\<lparr>cl_tokenError := None, cl_screenState := Validating\<rparr>, fl @ [effectiveToken]))"

definition on_validated :: "ClaimValidationResult res \<Rightarrow> claim_screen \<Rightarrow> claim_screen" where
  "on_validated r s = (case r of Ret v \<Rightarrow> s\<lparr>cl_result := Some v, cl_screenState := Result\<rparr>
     | Throw _ \<Rightarrow> s\<lparr>cl_screenState := Claim_failed\<rparr>)"

text \<open>The screen mounted with the route's token, its effects run.\<close>

definition claim_opened :: "string option \<Rightarrow> claim_sys" where
  "claim_opened route = (let s = \<lparr>cl_route = route, cl_tokenInput = (case route of None \<Rightarrow> [] | Some t \<Rightarrow> t),
       cl_screenState = (if truthy route then Validating else Invalid_token), cl_result = None, cl_tokenError = None\<rparr>
     in if truthy route then runValidation route (s, []) else (s, []))"

text \<open>The app is resumed with another link.\<close>

definition on_route :: "string \<Rightarrow> claim_screen \<Rightarrow> claim_screen" where
  "on_route t s = (if t \<noteq> [] \<and> t \<noteq> cl_tokenInput s then s\<lparr>cl_route := Some t, cl_tokenInput := t, cl_tokenError := None\<rparr>
     else s\<lparr>cl_route := Some t\<rparr>)"

definition validate_shown :: "claim_screen \<Rightarrow> bool" where
  "validate_shown s \<longleftrightarrow> cl_screenState s = Invalid_token
     \<or> (cl_screenState s \<noteq> Validating \<and> (cl_screenState s = Claim_failed \<or> cl_result s = None))"

text \<open>The heading and the line below it.\<close>

definition claim_texts :: "claim_screen \<Rightarrow> string \<times> string" where
  "claim_texts s = (if cl_screenState s = Validating then ([], ''Validating your claim'' @ [CHR 0xE2, CHR 0x80, CHR 0xA6])
     else if cl_screenState s = Invalid_token then (''Enter Your Claim Token'',
        ''Your claim link should have been sent via SMS or email. Paste the token below, or open the link directly on your device.'')
     else case cl_result s of
       None \<Rightarrow> (''Something went wrong'', ''We couldn't validate this claim link. Please try opening it again.'')
     | Some r \<Rightarrow> if cl_screenState s = Claim_failed
         then (''Something went wrong'', ''We couldn't validate this claim link. Please try opening it again.'')
         else (case cv_status r of
           Some Valid_claim \<Rightarrow> (''Funds Waiting for You'', if truthy (cv_amount r)
             then the (cv_amount r) @ '' '' @ (case cv_assetCode r of None \<Rightarrow> [] | Some a \<Rightarrow> a) @ '' is ready to be claimed.''
             else ''Your disbursement is ready to be claimed.'')
         | Some Already_claimed \<Rightarrow> (''Already Claimed'', ''This disbursement has already been claimed.'')
         | Some Expired_claim \<Rightarrow> (''Link Expired'', ''This claim link has expired. Please contact the sender for a new invite.'')
         | _ \<Rightarrow> (''Invalid Claim Link'', ''This claim link isn't recognized. Double-check the link and try again.'')))"

datatype claim_event = Edit string | Validate | New_link string | Validated string "ClaimValidationResult res"

fun claim_step :: "claim_event \<Rightarrow> claim_sys \<Rightarrow> claim_sys option" where
  "claim_step (Edit t) (s, fl) =
     (if cl_screenState s = Invalid_token then Some (s\<lparr>cl_tokenInput := t, cl_tokenError := None\<rparr>, fl) else None)"
| "claim_step Validate (s, fl) = (if validate_shown s then Some (runValidation None (s, fl)) else None)"
| "claim_step (New_link t) (s, fl) = Some (on_route t s, fl)"
| "claim_step (Validated t r) (s, fl) = (if t \<in> set fl then Some (on_validated r s, remove1 t fl) else None)"

fun claim_run :: "claim_event list \<Rightarrow> claim_sys \<Rightarrow> claim_sys option" where
  "claim_run [] y = Some y"
| "claim_run (e # es) y = Option.bind (claim_step e y) (claim_run es)"

section \<open>What is sent and shown\<close>

lemma token_no_ws: "token_char c \<Longrightarrow> \<not> is_ws c"
  by (auto simp: token_char_def is_ws_def is_digit_def is_upper_def is_lower_def)

lemma valid_token_trim: "isValidSdpToken t \<Longrightarrow> trim t = t \<and> t \<noteq> []"
  by (auto simp: isValidSdpToken_def list_all_iff token_no_ws intro!: trim_no_ws)

text \<open>A claim link is validated as soon as it is opened, with the token it carries.\<close>

theorem link_validated_at_once:
  assumes "parseSdpClaimUrl lp u = Ret (ClaimToken t)"
  shows "snd (claim_opened (Some t)) = [t] \<and> cl_screenState (fst (claim_opened (Some t))) = Validating"
proof -
  have "isValidSdpToken t" using assms by (auto simp: parseSdpClaimUrl_def Let_def split: if_splits res.splits)
  then show ?thesis using valid_token_trim by (simp add: claim_opened_def runValidation_def Let_def)
qed

theorem link_validated_at_once_witness:
  "snd (claim_opened (Some ''tok-123'')) = [''tok-123'']"
proof -
  have d: "decodeURIComponent ''tok-123'' = Ret ''tok-123''" by code_simp
  have l: "toLowerCase ''claim'' = ''claim''" "toLowerCase ''tok-123'' = ''tok-123''" by code_simp+
  have "parseSdpClaimUrl (\<lambda>_. Ret \<lparr>pu_hostname = Some ''claim'', pu_path = Some ''tok-123'', pu_query = Map.empty\<rparr>) (Some ''zaps://claim/tok-123'')
      = Ret (ClaimToken ''tok-123'')"
    by (simp add: parseSdpClaimUrl_def CLAIM_PATH_SEGMENT_def l TOKEN_PARAM_NAMES_def
        trim_def is_ws_def nth_opt_def d isValidSdpToken_def token_char_def is_lower_def is_digit_def is_upper_def Let_def)
  from link_validated_at_once[OF this] show ?thesis by simp
qed

definition claim_inv :: "claim_event set \<Rightarrow> claim_sys \<Rightarrow> bool" where
  "claim_inv E = (\<lambda>(s, fl). (if cl_screenState s = Validating then \<exists>t. fl = [t] \<and> isValidSdpToken t else fl = [])
     \<and> (\<forall>r. cl_result s = Some r \<longrightarrow> (\<exists>t. isValidSdpToken t \<and> Validated t (Ret r) \<in> E)))"

lemma claim_inv_step:
  assumes "claim_step e y = Some y'" "claim_inv E y" "e \<in> E"
  shows "claim_inv E y'"
  using assms
  by (cases y; cases e) (auto simp: claim_inv_def runValidation_def on_validated_def on_route_def validate_shown_def Let_def
      split: if_splits res.splits)

text \<open>
  C35: At most one validation is under way, exactly while the screen says so, and only for a well-formed token; what
  is shown afterwards is an answer the service gave for such a token.
\<close>

theorem one_validation:
  assumes "claim_run es (claim_opened route) = Some (s, fl)"
  shows "(if cl_screenState s = Validating then \<exists>t. fl = [t] \<and> isValidSdpToken t else fl = [])
    \<and> (\<forall>r. cl_result s = Some r \<longrightarrow> (\<exists>t. isValidSdpToken t \<and> Validated t (Ret r) \<in> set es))"
proof -
  have "claim_inv E z" if "claim_run fs y = Some z" "claim_inv E y" "set fs \<subseteq> E" for fs y z E
    using that by (induction fs arbitrary: y) (auto simp: Option.bind_eq_Some_conv dest: claim_inv_step)
  moreover have "claim_inv (set es) (claim_opened route)"
    by (auto simp: claim_inv_def claim_opened_def runValidation_def Let_def)
  ultimately have "claim_inv (set es) (s, fl)" using assms by blast
  then show ?thesis by (simp add: claim_inv_def)
qed

lemma toks: "trim ''tok-123'' = ''tok-123''" "isValidSdpToken ''tok-123''" "trim ''tok'' = ''tok''" "\<not> isValidSdpToken ''tok''"
  by code_simp+

lemmas claim_eval = claim_opened_def runValidation_def on_validated_def on_route_def validate_shown_def toks Let_def

theorem one_validation_witness:
  "\<exists>s fl. claim_run [Validate, Edit ''tok-123'', Validate, Validated ''tok-123'' (Ret MOCK_CLAIM)] (claim_opened (Some ''tok'')) = Some (s, fl)
     \<and> fl = [] \<and> cl_screenState s = Result"
proof -
  obtain s fl where r: "claim_run [Validate, Edit ''tok-123'', Validate, Validated ''tok-123'' (Ret MOCK_CLAIM)] (claim_opened (Some ''tok''))
      = Some (s, fl)" "cl_screenState s = Result" by (simp add: claim_eval)
  from one_validation[OF r(1)] r show ?thesis by simp
qed

section \<open>What goes wrong\<close>

text \<open>
  Whatever the backend says against a token, or when it cannot be reached, the service answers that 5,000 USDC
  are waiting.
\<close>

theorem refused_claim_is_valid:
  assumes "getA TOKEN_KEY w = Ret t"
    and "\<forall>rq v. case fetch rq v of (Ret r, _) \<Rightarrow> \<not> ok r | (Throw _, _) \<Rightarrow> True"
  shows "fst (validateClaimToken getA fetch B token w) = Ret MOCK_CLAIM
    \<and> claim_texts (on_validated (fst (validateClaimToken getA fetch B token w)) s) = (''Funds Waiting for You'', ''5,000.00 USDC is ready to be claimed.'')"
proof -
  have "fst (validateClaimToken getA fetch B token w) = Ret MOCK_CLAIM"
    using assms(2)[rule_format, of "(get_rq (B @ ''/api/disbursements/claim/validate?token='' @ encodeURIComponent token))\<lparr>headers := json_header ++ bearer t\<rparr>" w]
    by (simp add: validateClaimToken_def getAuthHeaders_def assms(1) bnd_apply try_catch_apply split: prod.splits res.splits)
  then show ?thesis by (simp add: claim_texts_def on_validated_def MOCK_CLAIM_def)
qed

text \<open>A link opened while a result is shown is not validated: the result of the first is shown for the second.\<close>

theorem new_link_shows_old_result:
  "\<exists>s fl. claim_run [Validated ''tok-123'' (Ret r), New_link ''tok-456''] (claim_opened (Some ''tok-123'')) = Some (s, fl)
     \<and> cl_tokenInput s = ''tok-456'' \<and> cl_result s = Some r \<and> cl_screenState s = Result \<and> fl = []"
  by (simp add: claim_eval)

end
