(* ===== verification/Mobile_Services.thy ===== *)
theory Mobile_Services
  imports Api_Client
begin

text \<open>
  Two services of the mobile app: \<open>services/crashReporter.ts\<close>, which keeps a bounded queue of crash reports in
  storage, and \<open>services/avatarService.ts\<close>, which uploads a picture and writes its address to the profile.
  Main results: the queue stays bounded and in order, reporting never throws, what was recorded offline is
  delivered; but what is recorded during a flush is deleted with it.  An avatar counts as uploaded only with a
  positive answer, and every failure of the service's own has a code.
\<close>

section \<open>Crash reports\<close>

definition CRASH_QUEUE_KEY :: string where "CRASH_QUEUE_KEY = ''zaps_crash_reports''"
definition MAX_QUEUED_REPORTS :: nat where "MAX_QUEUED_REPORTS = 20"

record CrashReport =
  cr_message :: string
  cr_stack :: "string option"
  cr_componentStack :: "string option"
  cr_occurredAt :: string

definition isNetworkError :: "string \<Rightarrow> bool" where
  "isNetworkError m \<longleftrightarrow> includes_str m ''Network request failed'' \<or> includes_str m ''Network Error''"

type_synonym reports = "CrashReport list jtext"

text \<open>\<open>None\<close> is an object in place of the list.\<close>

definition readQueue :: "(string \<Rightarrow> 'w \<Rightarrow> reports option res) \<Rightarrow> ('w, CrashReport list option) io" where
  "readQueue getA = try_catch
     (bnd (reads (getA CRASH_QUEUE_KEY)) (\<lambda>raw. case raw of None \<Rightarrow> ret (Some [])
        | Some t \<Rightarrow> if t = JEmpty then ret (Some []) else reads (\<lambda>_. JSON_parse t)))
     (\<lambda>_. ret (Some []))"

definition flushCrashReports ::
  "(string \<Rightarrow> 'w \<Rightarrow> reports option res) \<Rightarrow> (string \<Rightarrow> ('w, unit) io) \<Rightarrow>
   (CrashReport list option request \<Rightarrow> ('w, 'j response) io) \<Rightarrow> string \<Rightarrow> ('w, unit) io" where
  "flushCrashReports getA delA fetch API_BASE = bnd (readQueue getA) (\<lambda>queue.
     if queue = Some [] then ret ()
     else try_catch
       (bnd (fetch ((send_rq (API_BASE @ ''/api/v1/crashes'') ''POST'' queue)\<lparr>headers := json_header\<rparr>)) (\<lambda>res.
          if ok res then delA CRASH_QUEUE_KEY else ret ()))
       (\<lambda>_. ret ()))"

text \<open>\<open>slice(-MAX_QUEUED_REPORTS)\<close>.\<close>

definition last_n :: "nat \<Rightarrow> 'a list \<Rightarrow> 'a list" where
  "last_n n xs = drop (length xs - n) xs"

definition reportCrash ::
  "(string \<Rightarrow> 'w \<Rightarrow> reports option res) \<Rightarrow> (string \<Rightarrow> reports \<Rightarrow> ('w, unit) io) \<Rightarrow> (string \<Rightarrow> ('w, unit) io) \<Rightarrow>
   (CrashReport list option request \<Rightarrow> ('w, 'j response) io) \<Rightarrow> ('w, bool option) io \<Rightarrow> string \<Rightarrow> CrashReport
     \<Rightarrow> ('w, unit) io" where
  "reportCrash getA setA delA fetch netInfo API_BASE r = try_catch
     (bnd (readQueue getA) (\<lambda>queue. case queue of None \<Rightarrow> throw (Error ''queue is not iterable'')
        | Some q \<Rightarrow> bnd (setA CRASH_QUEUE_KEY (JSON_stringify (last_n MAX_QUEUED_REPORTS (q @ [r])))) (\<lambda>_.
            bnd netInfo (\<lambda>isConnected. if isConnected \<noteq> Some True then ret ()
              else flushCrashReports getA delA fetch API_BASE))))
     (\<lambda>_. ret ())"

definition reportNetworkCrash :: "(CrashReport \<Rightarrow> ('w, unit) io) \<Rightarrow> CrashReport \<Rightarrow> ('w, unit) io" where
  "reportNetworkCrash report r = (if isNetworkError (cr_message r) then report r else ret ())"

section \<open>Avatars\<close>

definition MAX_FILE_SIZE :: nat where "MAX_FILE_SIZE = 5 * 1024 * 1024"

definition createAvatarError :: "string \<Rightarrow> string \<Rightarrow> js_error" where
  "createAvatarError m c = Err m (Some c) None"

text \<open>The extension is not the name of a property that every object inherits.\<close>

definition resolveMimeType :: "string \<Rightarrow> string" where
  "resolveMimeType uri = (let ext = toLowerCase (last (split (CHR ''.'') uri)) in
     case map_of [(''jpg'', ''image/jpeg''), (''jpeg'', ''image/jpeg''), (''png'', ''image/png''), (''heic'', ''image/heic''),
       (''heif'', ''image/heif''), (''webp'', ''image/webp'')] ext of Some t \<Rightarrow> t | None \<Rightarrow> ''image/jpeg'')"

record file_info =
  fl_exists :: bool
  fl_size :: nat

record upload_part =
  up_uri :: string
  up_name :: string
  up_type :: string

text \<open>The bodies of the two requests, and \<open>avatarUrl\<close> of the answer.\<close>

datatype avatar_body = File_part upload_part | Avatar_patch string

text \<open>\<open>e.code\<close> is truthy.\<close>

fun has_code :: "js_error \<Rightarrow> bool" where
  "has_code (Err m c s) = truthy c"
| "has_code NonError = False"

text \<open>The last part of the upload, which keeps its failures to itself.\<close>

definition update_profile :: "(avatar_body request \<Rightarrow> ('w, string option response) io) \<Rightarrow> string \<Rightarrow> string \<Rightarrow> ('w, unit) io" where
  "update_profile api API_BASE avatarUrl = try_catch
     (bnd (api (send_rq (API_BASE @ ''/api/users/me'') ''PATCH'' (Avatar_patch avatarUrl))) (\<lambda>profileRes.
        if \<not> ok profileRes then throw (http_status_error profileRes) else ret ()))
     (\<lambda>_. ret ())"

definition uploadAvatar ::
  "(string \<Rightarrow> ('w, file_info) io) \<Rightarrow> (avatar_body request \<Rightarrow> ('w, string option response) io) \<Rightarrow>
   (avatar_body request \<Rightarrow> ('w, string option response) io) \<Rightarrow> string \<Rightarrow> string \<Rightarrow> string option \<Rightarrow> ('w, string) io" where
  "uploadAvatar getInfo fetch api API_BASE localUri authToken =
     bnd (try_catch
       (bnd (getInfo localUri) (\<lambda>info. if fl_exists info \<and> MAX_FILE_SIZE < fl_size info
          then throw (createAvatarError ''Image exceeds the 5 MB limit. Please choose a smaller photo.'' ''FILE_TOO_LARGE'') else ret ()))
       (\<lambda>err. if has_code err then throw err else throw (createAvatarError ''Unable to read the selected image.'' ''READ_FAILED'')))
     (\<lambda>_. let part = \<lparr>up_uri = localUri, up_name = last (split (CHR ''/'') localUri), up_type = resolveMimeType localUri\<rparr> in
     bnd (try_catch (fetch ((send_rq (API_BASE @ ''/api/avatar/upload'') ''POST'' (File_part part))\<lparr>headers := bearer authToken\<rparr>))
       (\<lambda>_. throw (createAvatarError ''Network error while uploading avatar. Please try again.'' ''UPLOAD_FAILED''))) (\<lambda>uploadRes.
     if \<not> ok uploadRes then throw (createAvatarError (''Avatar upload failed ('' @ show_int (status uploadRes) @ ''): ''
         @ (case text_of uploadRes of Ret t \<Rightarrow> t | Throw _ \<Rightarrow> ''Unknown error'')) ''UPLOAD_FAILED'')
     else bnd (reads (\<lambda>_. json uploadRes)) (\<lambda>avatarUrl.
       if \<not> truthy avatarUrl then throw (createAvatarError ''Server did not return an avatar URL.'' ''UPLOAD_FAILED'')
       else bnd (update_profile api API_BASE (the avatarUrl)) (\<lambda>_. ret (the avatarUrl)))))"

section \<open>The queue of reports\<close>

lemma last_n_length: "length (last_n n xs) \<le> n"
  by (simp add: last_n_def)

lemma last_n_last_n: "last_n n (last_n n xs @ ys) = last_n n (xs @ ys)"
proof (cases "length xs \<le> n")
  case True
  then show ?thesis by (simp add: last_n_def)
next
  case False
  then have "last_n n xs @ ys = drop (length xs - n) (xs @ ys)" by (simp add: last_n_def)
  then have "last_n n (last_n n xs @ ys) = last_n n (drop (length xs - n) (xs @ ys))" by (rule arg_cong)
  also have "\<dots> = last_n n (xs @ ys)" unfolding last_n_def using False by (simp only: drop_drop length_drop length_append) (simp add: add.commute)
  finally show ?thesis .
qed

lemma last_n_empty: "0 < n \<Longrightarrow> last_n n xs = [] \<longleftrightarrow> xs = []"
  by (cases xs) (auto simp: last_n_def)

lemma flush_never_throws: "is_Ret (fst (flushCrashReports getA delA fetch B w))"
proof -
  have "is_Ret (fst (readQueue getA w))" unfolding readQueue_def by (rule try_catch_never_throws) simp
  then obtain q v where q: "readQueue getA w = (Ret q, v)" by (cases "readQueue getA w"; cases "fst (readQueue getA w)") auto
  show ?thesis by (simp add: flushCrashReports_def bnd_apply q try_catch_apply split: prod.splits res.splits)
qed

text \<open>What the store holds: at most twenty reports.\<close>

definition queue_ok :: "(string \<Rightarrow> 'w \<Rightarrow> reports option res) \<Rightarrow> 'w \<Rightarrow> bool" where
  "queue_ok getA w \<longleftrightarrow> (\<forall>l. getA CRASH_QUEUE_KEY w = Ret (Some (JText l)) \<longrightarrow> length l \<le> MAX_QUEUED_REPORTS)"

lemma queue_ok_cong: "getA CRASH_QUEUE_KEY w' = getA CRASH_QUEUE_KEY w \<Longrightarrow> queue_ok getA w' = queue_ok getA w"
  by (simp add: queue_ok_def)

text \<open>The store, a network that leaves it alone, and a connectivity check that does too.\<close>

locale crash_env = kv_net getA setA delA fetch
  for getA :: "string \<Rightarrow> 'w \<Rightarrow> reports option res"
    and setA :: "string \<Rightarrow> reports \<Rightarrow> ('w, unit) io"
    and delA :: "string \<Rightarrow> ('w, unit) io"
    and fetch :: "CrashReport list option request \<Rightarrow> ('w, 'j response) io" +
  fixes netInfo :: "('w, bool option) io"
  assumes net_frame: "getA k (snd (netInfo w)) = getA k w"
begin

lemma readQueue_same: "readQueue getA w = (fst (readQueue getA w), w)"
  by (simp add: readQueue_def try_catch_apply bnd_apply split: res.splits option.splits)

lemma flush_store: "getA CRASH_QUEUE_KEY (snd (flushCrashReports getA delA fetch B w)) \<in> {getA CRASH_QUEUE_KEY w, Ret None}"
proof (cases "fst (readQueue getA w)")
  case (Throw e)
  then show ?thesis using readQueue_same[of w] by (simp add: flushCrashReports_def bnd_apply split: prod.splits)
next
  case (Ret q)
  let ?rq = "(send_rq (B @ ''/api/v1/crashes'') ''POST'' q)\<lparr>headers := json_header\<rparr>"
  obtain x w1 where f: "fetch ?rq w = (x, w1)" by fastforce
  have k: "getA CRASH_QUEUE_KEY w1 = getA CRASH_QUEUE_KEY w" using fetch_frame[of CRASH_QUEUE_KEY ?rq w] f by simp
  show ?thesis using readQueue_same[of w] Ret f k remove_removed_or_same[of CRASH_QUEUE_KEY w1]
    by (auto simp: flushCrashReports_def bnd_apply try_catch_apply split: prod.splits res.splits)
qed

lemma report_store:
  "getA CRASH_QUEUE_KEY (snd (reportCrash getA setA delA fetch netInfo B r w)) \<in> {getA CRASH_QUEUE_KEY w, Ret None}
     \<union> {Ret (Some (JText (last_n MAX_QUEUED_REPORTS (q @ [r])))) | q. True}"
proof (cases "fst (readQueue getA w)")
  case (Throw e)
  then show ?thesis using readQueue_same[of w] by (simp add: reportCrash_def try_catch_apply bnd_apply split: prod.splits)
next
  case (Ret q)
  show ?thesis
  proof (cases q)
    case None
    then show ?thesis using Ret readQueue_same[of w] by (simp add: reportCrash_def try_catch_apply bnd_apply split: prod.splits)
  next
    case (Some l)
    define t where "t = JSON_stringify (last_n MAX_QUEUED_REPORTS (l @ [r]))"
    obtain x w1 where x: "setA CRASH_QUEUE_KEY t w = (x, w1)" by fastforce
    obtain y w2 where y: "netInfo w1 = (y, w2)" by fastforce
    have k: "getA CRASH_QUEUE_KEY w2 = getA CRASH_QUEUE_KEY w1" using net_frame[of CRASH_QUEUE_KEY w1] y by simp
    have s: "getA CRASH_QUEUE_KEY w1 = (case x of Ret _ \<Rightarrow> Ret (Some t) | Throw _ \<Rightarrow> getA CRASH_QUEUE_KEY w)"
      using x get_set get_set_fail by (cases x) auto
    show ?thesis using readQueue_same[of w] Ret Some x y k s flush_store[of B w2]
      by (auto simp: reportCrash_def try_catch_apply bnd_apply t_def[symmetric] split: prod.splits res.splits)
         (auto simp: t_def JSON_stringify_def)
  qed
qed

lemma report_bounded: "queue_ok getA w \<Longrightarrow> queue_ok getA (snd (reportCrash getA setA delA fetch netInfo B r w))"
  using report_store[of B r w] last_n_length by (auto simp: queue_ok_def)

lemma flush_bounded: "queue_ok getA w \<Longrightarrow> queue_ok getA (snd (flushCrashReports getA delA fetch B w))"
  using flush_store[of B w] by (auto simp: queue_ok_def)

end

text \<open>On the device, whose connection is \<open>c\<close>.\<close>

interpretation dev_crash: crash_env dev_getItem dev_setItem dev_removeItem dev_fetch "ret c" for c
  by unfold_locales simp

section \<open>Properties of the crash reporter\<close>

type_synonym 'j crash_device = "(reports, CrashReport list option, 'j) device"

abbreviation dev_report :: "bool option \<Rightarrow> string \<Rightarrow> CrashReport \<Rightarrow> ('j crash_device, unit) io" where
  "dev_report c B r \<equiv> reportCrash dev_getItem dev_setItem dev_removeItem dev_fetch (ret c) B r"

text \<open>
  Whatever is reported and flushed, and whatever storage and network do, the stored queue holds at most twenty
  reports, and reporting a crash never throws.
\<close>

theorem reports_bounded:
  "is_Ret (fst (reportCrash getA setA delA fetch netInfo B r w))
   \<and> (queue_ok dev_getItem d \<longrightarrow> queue_ok dev_getItem (snd (dev_report c B r d))
        \<and> queue_ok dev_getItem (snd (flushCrashReports dev_getItem dev_removeItem dev_fetch B d)))"
  using dev_crash.report_bounded dev_crash.flush_bounded
  unfolding reportCrash_def by (auto intro!: try_catch_never_throws)

definition sample_report :: "string \<Rightarrow> CrashReport" where
  "sample_report m = \<lparr>cr_message = m, cr_stack = None, cr_componentStack = None, cr_occurredAt = ''2024-01-01T00:00:00.000Z''\<rparr>"

theorem reports_bounded_witness:
  "queue_ok dev_getItem (blank_device :: nat crash_device)
   \<and> queue_ok dev_getItem (snd (dev_report None [] (sample_report ''boom'') (blank_device :: nat crash_device)))"
proof -
  have q: "queue_ok dev_getItem (blank_device :: nat crash_device)" by (simp add: queue_ok_def dev_getItem_def blank_device_def)
  show ?thesis by (rule conjI[OF q], rule reports_bounded[THEN conjunct2, THEN mp, THEN conjunct1, OF q])
qed

text \<open>The list stored on a device.\<close>

definition stored_reports :: "'j crash_device \<Rightarrow> CrashReport list option" where
  "stored_reports d = (case dev_kv d CRASH_QUEUE_KEY of None \<Rightarrow> Some [] | Some (JText l) \<Rightarrow> Some l | _ \<Rightarrow> None)"

lemma report_offline:
  assumes "\<not> dev_kv_broken d" "stored_reports d = Some l" "c \<noteq> Some True"
  shows "dev_report c B r d = (Ret (), d\<lparr>dev_kv := (dev_kv d)(CRASH_QUEUE_KEY \<mapsto> JText (last_n MAX_QUEUED_REPORTS (l @ [r])))\<rparr>)"
  using assms by (auto simp: reportCrash_def readQueue_def try_catch_apply bnd_apply dev_getItem_def dev_setItem_def stored_reports_def
      JSON_stringify_def split: option.splits jtext.splits)

lemma reports_offline:
  assumes "\<not> dev_kv_broken d" "stored_reports d = Some l" "length l \<le> MAX_QUEUED_REPORTS" "c \<noteq> Some True"
  shows "\<not> dev_kv_broken (fold (\<lambda>r d. snd (dev_report c B r d)) rs d)
    \<and> stored_reports (fold (\<lambda>r d. snd (dev_report c B r d)) rs d) = Some (last_n MAX_QUEUED_REPORTS (l @ rs))
    \<and> dev_net (fold (\<lambda>r d. snd (dev_report c B r d)) rs d) = dev_net d
    \<and> dev_log (fold (\<lambda>r d. snd (dev_report c B r d)) rs d) = dev_log d"
  using assms(1-3)
proof (induction rs arbitrary: d l)
  case Nil
  then show ?case by (simp add: last_n_def)
next
  case (Cons r rs)
  let ?l = "last_n MAX_QUEUED_REPORTS (l @ [r])"
  let ?d = "d\<lparr>dev_kv := (dev_kv d)(CRASH_QUEUE_KEY \<mapsto> JText ?l)\<rparr>"
  have nb: "\<not> dev_kv_broken ?d" using Cons.prems(1) by simp
  have st: "stored_reports ?d = Some ?l" by (simp add: stored_reports_def)
  have e: "last_n MAX_QUEUED_REPORTS (?l @ rs) = last_n MAX_QUEUED_REPORTS (l @ r # rs)"
    using last_n_last_n[of MAX_QUEUED_REPORTS "l @ [r]" rs] by simp
  have r: "snd (dev_report c B r d) = ?d" using report_offline[OF Cons.prems(1,2) assms(4), of B r] by simp
  have "dev_net ?d = dev_net d" "dev_log ?d = dev_log d" by simp_all
  with Cons.IH[OF nb st last_n_length] show ?case by (simp only: fold_Cons comp_apply r e simp_thms)
qed


definition sample_crash_device :: "nat crash_device" where
  "sample_crash_device = blank_device\<lparr>dev_net := [Ret (answer 200 0)]\<rparr>"


text \<open>
  But a flush deletes the whole queue once it is answered, with the reports recorded while it waited: whatever
  the store holds when the answer arrives is gone.
\<close>

theorem flush_drops_later_reports:
  assumes "stored_reports d = Some (r # q)" "\<not> dev_kv_broken d"
    and "fetch ((send_rq (B @ ''/api/v1/crashes'') ''POST'' (Some (r # q)))\<lparr>headers := json_header\<rparr>) d = (Ret a, d1)"
    and "ok a" "\<not> dev_kv_broken d1" "stored_reports d1 = Some (r # q @ later)"
  shows "stored_reports (snd (flushCrashReports dev_getItem dev_removeItem fetch B d)) = Some []"
proof -
  have "readQueue dev_getItem d = (Ret (Some (r # q)), d)"
    using assms(1,2) by (auto simp: readQueue_def try_catch_apply bnd_apply dev_getItem_def stored_reports_def split: option.splits jtext.splits)
  then show ?thesis using assms(3-5)
    by (simp add: flushCrashReports_def bnd_apply try_catch_apply dev_removeItem_def stored_reports_def)
qed

section \<open>Properties of the upload\<close>

text \<open>
  An upload that succeeds returns the non-empty address of a positive answer to a request that carried the
  file, which is not above the limit; the profile may still have the old picture.
\<close>

theorem avatar_uploaded:
  assumes "uploadAvatar getInfo fetch api B uri tok w = (Ret u, w')"
  shows "u \<noteq> [] \<and> (\<exists>info w1 res w2. getInfo uri w = (Ret info, w1) \<and> (fl_exists info \<longrightarrow> fl_size info \<le> MAX_FILE_SIZE)
    \<and> fetch ((send_rq (B @ ''/api/avatar/upload'') ''POST'' (File_part \<lparr>up_uri = uri, up_name = last (split (CHR ''/'') uri),
         up_type = resolveMimeType uri\<rparr>))\<lparr>headers := bearer tok\<rparr>) w1 = (Ret res, w2)
    \<and> ok res \<and> json res = Ret (Some u))"
proof -
  let ?rq = "(send_rq (B @ ''/api/avatar/upload'') ''POST'' (File_part \<lparr>up_uri = uri, up_name = last (split (CHR ''/'') uri),
     up_type = resolveMimeType uri\<rparr>))\<lparr>headers := bearer tok\<rparr>"
  obtain x w1 where g: "getInfo uri w = (x, w1)" by fastforce
  obtain y w2 where f: "fetch ?rq w1 = (y, w2)" by fastforce
  obtain info where x: "x = Ret info" "\<not> (fl_exists info \<and> MAX_FILE_SIZE < fl_size info)"
    using assms g by (cases x) (auto simp: uploadAvatar_def bnd_apply try_catch_apply split: if_splits)
  obtain res where y: "y = Ret res" "ok res"
    using assms g f x by (cases y) (auto simp: uploadAvatar_def bnd_apply try_catch_apply Let_def split: if_splits)
  obtain v where v: "json res = Ret v" "truthy v"
    using assms g f x y by (cases "json res") (auto simp: uploadAvatar_def bnd_apply try_catch_apply Let_def split: if_splits)
  then have "u = the v"
    using assms g f x y by (auto simp: uploadAvatar_def bnd_apply try_catch_apply Let_def split: if_splits prod.splits res.splits)
  then show ?thesis using g f x y v by (cases v) auto
qed

end
