(* ===== verification/Receipts.thy ===== *)
theory Receipts
  imports Transactions Js_Arith "HOL-Library.Multiset" "HOL-Library.Sublist"
begin

text \<open>
  The detail screens, \<open>app/transaction/[id].tsx\<close> and \<open>app/transaction/batch/[id].tsx\<close>, the receipt text
  (\<open>utils/receiptGenerator.ts\<close>) and the formats (\<open>utils/formatting.ts\<close>).  \<open>Intl\<close>, the file system, the share
  sheet and the capture of a view are parameters.
  Main results: a receipt whose fields hold no line break reads back field by field, and one whose memo
  holds a line break is the receipt of another payment; durations are whole units, rounded down; a listed
  payment can be opened; the stage of a batch follows its count, unless one item failed.
\<close>

section \<open>Formats\<close>

definition targetLocale :: "string option \<Rightarrow> string" where
  "targetLocale l = (if truthy l then the l else ''en'')"

text \<open>\<open>nf locale currency amount\<close> is \<open>Intl.NumberFormat\<close> with style currency and two decimals.\<close>

definition formatCurrency :: "(string \<Rightarrow> string \<Rightarrow> js_num \<Rightarrow> string res) \<Rightarrow> js_num \<Rightarrow> string \<Rightarrow> string option \<Rightarrow> string" where
  "formatCurrency nf amount currency locale = (case nf (targetLocale locale) currency amount of
     Ret s \<Rightarrow> s | Throw _ \<Rightarrow> currency @ '' '' @ toFixed 2 amount)"

text \<open>\<open>df locale options date\<close> is \<open>Intl.DateTimeFormat\<close>, \<open>basic locale options date\<close> is \<open>toLocaleDateString\<close>.\<close>

definition formatDate ::
  "(string \<Rightarrow> 'o \<Rightarrow> 'd \<Rightarrow> string res) \<Rightarrow> (string \<Rightarrow> 'o \<Rightarrow> 'd \<Rightarrow> string) \<Rightarrow> 'o \<Rightarrow> 'd \<Rightarrow> 'o option \<Rightarrow> string option \<Rightarrow> string" where
  "formatDate df basic defaultOptions d options locale =
     (case df (targetLocale locale) (case options of Some o1 \<Rightarrow> o1 | None \<Rightarrow> defaultOptions) d of
        Ret s \<Rightarrow> s | Throw _ \<Rightarrow> basic (targetLocale locale) defaultOptions d)"

text \<open>
  \<open>midnight d\<close> is the time of the start of the local day of \<open>d\<close>, \<open>NaN\<close> for an invalid date, and
  \<open>shift n\<close> that of the day \<open>n\<close> days after today.  The translations are those of today, yesterday and tomorrow.
\<close>

definition formatRelativeDate ::
  "('d \<Rightarrow> js_num) \<Rightarrow> (int \<Rightarrow> js_num) \<Rightarrow> ('d \<Rightarrow> string) \<Rightarrow> (string option \<times> string option \<times> string option) \<Rightarrow> 'd \<Rightarrow> string" where
  "formatRelativeDate midnight shift short t d = (let i = midnight d; same = (\<lambda>n. i \<noteq> NaN \<and> i = shift n) in
     if same 0 then (if truthy (fst t) then the (fst t) else ''Today'')
     else if same (- 1) then (if truthy (fst (snd t)) then the (fst (snd t)) else ''Yesterday'')
     else if same 1 then (if truthy (snd (snd t)) then the (snd (snd t)) else ''Tomorrow'')
     else short d)"

text \<open>\<open>nf locale n\<close> is \<open>Intl.NumberFormat\<close>, \<open>pf\<close> the same in percent, \<open>basic\<close> is \<open>toLocaleString\<close>.\<close>

definition formatNumber :: "(string \<Rightarrow> js_num \<Rightarrow> string res) \<Rightarrow> (string \<Rightarrow> js_num \<Rightarrow> string) \<Rightarrow> js_num \<Rightarrow> string option \<Rightarrow> string" where
  "formatNumber nf basic n locale = (case nf (targetLocale locale) n of Ret s \<Rightarrow> s | Throw _ \<Rightarrow> basic (targetLocale locale) n)"

definition formatPercentage :: "(string \<Rightarrow> js_num \<Rightarrow> string res) \<Rightarrow> js_num \<Rightarrow> string option \<Rightarrow> string" where
  "formatPercentage pf v locale = (case pf (targetLocale locale) (num_div v (Fin 100)) of
     Ret s \<Rightarrow> s | Throw _ \<Rightarrow> show_num v @ ''%'')"

definition formatTransactionAmount ::
  "(string \<Rightarrow> string \<Rightarrow> js_num \<Rightarrow> string res) \<Rightarrow> js_num \<Rightarrow> string \<Rightarrow> bool \<Rightarrow> string option \<Rightarrow> string" where
  "formatTransactionAmount nf amount currency isOutgoing locale =
     (if isOutgoing then ''-'' else ''+'') @ formatCurrency nf (num_abs amount) currency locale"

text \<open>\<open>zero\<close> is \<open>(0).toLocaleString("en-US", ...)\<close> in the currency without decimals.\<close>

definition getCurrencySymbol :: "(string \<Rightarrow> string res) \<Rightarrow> string \<Rightarrow> string" where
  "getCurrencySymbol zero currency = (case zero currency of
     Ret s \<Rightarrow> trim (filter (\<lambda>c. \<not> is_digit c) s) | Throw _ \<Rightarrow> currency)"

definition formatLargeNumber :: "(js_num \<Rightarrow> string) \<Rightarrow> js_num \<Rightarrow> string" where
  "formatLargeNumber fmt n =
     (if num_le (Fin 1000000000) n then fmt (num_div n (Fin 1000000000)) @ ''B''
      else if num_le (Fin 1000000) n then fmt (num_div n (Fin 1000000)) @ ''M''
      else if num_le (Fin 1000) n then fmt (num_div n (Fin 1000)) @ ''K''
      else fmt n)"

record units =
  u_seconds :: string
  u_minutes :: string
  u_hours :: string
  u_days :: string

definition default_units :: units where
  "default_units = \<lparr>u_seconds = ''seconds'', u_minutes = ''minutes'', u_hours = ''hours'', u_days = ''days''\<rparr>"

definition formatDuration :: "js_num \<Rightarrow> units option \<Rightarrow> string" where
  "formatDuration seconds translations = (let t = (case translations of Some u \<Rightarrow> u | None \<Rightarrow> default_units) in
     if num_less seconds (Fin 60) then show_num seconds @ '' '' @ u_seconds t
     else if num_less seconds (Fin 3600) then show_num (num_floor (num_div seconds (Fin 60))) @ '' '' @ u_minutes t
     else if num_less seconds (Fin 86400) then show_num (num_floor (num_div seconds (Fin 3600))) @ '' '' @ u_hours t
     else show_num (num_floor (num_div seconds (Fin 86400))) @ '' '' @ u_days t)"

section \<open>The receipt text\<close>

abbreviation newline :: char where "newline \<equiv> CHR 0x0A"

definition STELLAR_EXPLORER :: string where "STELLAR_EXPLORER = ''https://stellar.expert/explorer/public/tx/''"

definition rule_line :: string where
  "rule_line = concat (replicate 40 [CHR 0xE2, CHR 0x94, CHR 0x80])"

definition lines_if :: "string option \<Rightarrow> (string \<Rightarrow> string list) \<Rightarrow> string list" where
  "lines_if v f = (if truthy v then f (the v) else [])"

text \<open>The entries of the array that is joined; \<open>date\<close> is \<open>formatDate\<close> of the timestamp with the long options.\<close>

definition receipt_lines :: "(string \<Rightarrow> string) \<Rightarrow> Transaction \<Rightarrow> string list" where
  "receipt_lines date tx =
     [''ZAPS PAYMENT RECEIPT'', rule_line,
      ''Date        : '' @ date (tx_timestamp tx),
      ''Type        : '' @ (if tx_type tx = Sent then ''SENT'' else if tx_type tx = Received then ''RECEIVED'' else toUpperCase (type_str (tx_type tx))),
      ''Status      : '' @ toUpperCase (status_str (tx_status tx)),
      rule_line,
      ''Amount      : '' @ tx_amount tx @ '' '' @ tx_asset tx,
      ''Value       : '' @ tx_fiatValue tx @ '' '' @ tx_fiatCurrency tx]
     @ lines_if (tx_fee tx) (\<lambda>f. [''Fee         : '' @ f @ '' '' @ (case tx_feeAsset tx of Some a \<Rightarrow> a | None \<Rightarrow> [])])
     @ [rule_line,
        (if tx_type tx = Sent then ''To'' else ''From'') @ replicate (if tx_type tx = Sent then 10 else 8) (CHR '' '') @ '': ''
          @ (case tx_addressLabel tx of Some l \<Rightarrow> l | None \<Rightarrow> tx_address tx)]
     @ lines_if (tx_addressLabel tx) (\<lambda>_. [''Address     : '' @ tx_address tx])
     @ lines_if (tx_memo tx) (\<lambda>m. [''Memo        : '' @ m])
     @ lines_if (tx_network tx) (\<lambda>n. [''Network     : '' @ n])
     @ [rule_line, ''Transaction ID'', tx_id tx]
     @ lines_if (tx_stellarTxHash tx) (\<lambda>h. [newline # ''Stellar Hash'', h, newline # ''Explorer'', STELLAR_EXPLORER @ h])
     @ [rule_line, ''Thank you for using Zaps.'']"

definition buildReceiptText :: "(string \<Rightarrow> string) \<Rightarrow> Transaction \<Rightarrow> string" where
  "buildReceiptText date tx = join [newline] (receipt_lines date tx)"

definition shareReceipt ::
  "(string \<Rightarrow> string \<Rightarrow> ('w, unit) io) \<Rightarrow> ('w, bool) io \<Rightarrow> (string \<Rightarrow> ('w, unit) io) \<Rightarrow> string \<Rightarrow> (string \<Rightarrow> string) \<Rightarrow> Transaction
     \<Rightarrow> ('w, unit) io" where
  "shareReceipt writeFile isAvailable shareFile cacheDirectory date tx =
     (let path = cacheDirectory @ ''zaps_receipt_'' @ tx_id tx @ ''.txt'' in
      bnd (writeFile path (buildReceiptText date tx)) (\<lambda>_.
      bnd isAvailable (\<lambda>canShare.
        if \<not> canShare then throw (Error ''Sharing is not available on this device.'') else shareFile path)))"

definition getReceiptText :: "(string \<Rightarrow> string) \<Rightarrow> Transaction \<Rightarrow> string" where
  "getReceiptText date tx = buildReceiptText date tx"

section \<open>The transaction screen\<close>

fun statusColor :: "TransactionStatus \<Rightarrow> string" where
  "statusColor Completed = ''#22C55E''" | "statusColor Pending = ''#F59E0B''" | "statusColor Failed = ''#EF4444''"

fun typeIcon :: "TransactionType \<Rightarrow> string" where
  "typeIcon Sent = ''arrow-up''" | "typeIcon Received = ''arrow-down''" | "typeIcon Swap = ''swap-horizontal''"
| "typeIcon _ = ''card''"

definition typeColor :: "string \<Rightarrow> TransactionType \<Rightarrow> string" where
  "typeColor primary t = (if t = Received then ''#22C55E'' else primary)"

definition capitalized :: "string \<Rightarrow> string" where
  "capitalized s = toUpperCase (take 1 s) @ drop 1 s"

definition ellipsis :: string where "ellipsis = [CHR 0xE2, CHR 0x80, CHR 0xA6]"

text \<open>The rows of the two cards: label, text, and the text that its copy button copies.\<close>

definition detail_rows :: "(string \<Rightarrow> string) \<Rightarrow> Transaction \<Rightarrow> (string \<times> string \<times> string option) list" where
  "detail_rows date tx =
     [(''Date'', date (tx_timestamp tx), None), (''Type'', capitalized (type_str (tx_type tx)), None),
      (if tx_type tx = Sent then ''To'' else ''From'', case tx_addressLabel tx of Some l \<Rightarrow> l | None \<Rightarrow> tx_address tx, None)]
     @ (if truthy (tx_addressLabel tx) then [(''Address'', tx_address tx, Some (tx_address tx))] else [])
     @ (if truthy (tx_memo tx) then [(''Memo'', the (tx_memo tx), None)] else [])
     @ (if truthy (tx_fee tx) then [(''Network Fee'', the (tx_fee tx) @ '' '' @ (case tx_feeAsset tx of Some a \<Rightarrow> a | None \<Rightarrow> []), None)] else [])
     @ (if truthy (tx_network tx) then [(''Network'', the (tx_network tx), None)] else [])
     @ (if truthy (tx_stellarTxHash tx) then let h = the (tx_stellarTxHash tx) in
          [(''Transaction Hash'', take 16 h @ ellipsis @ drop (length h - 8) h, Some h)] else [])"

definition amount_hero :: "Transaction \<Rightarrow> string" where
  "amount_hero tx = (if tx_type tx = Sent then [CHR 0xE2, CHR 0x88, CHR 0x92] else ''+'') @ tx_amount tx @ '' '' @ tx_asset tx"

text \<open>
  The screen with the loads and shares in progress.  A load is started by the effect on \<open>id\<close>; the share
  buttons are disabled while \<open>sharing\<close>.
\<close>

record detail =
  dt_id :: "string option"
  dt_tx :: "Transaction option"
  dt_loading :: bool
  dt_sharing :: bool
  dt_loads :: "string list"
  dt_share :: "Transaction list"
  dt_toasts :: "string list"

definition detail_init :: detail where
  "detail_init = \<lparr>dt_id = None, dt_tx = None, dt_loading = True, dt_sharing = False, dt_loads = [], dt_share = [], dt_toasts = []\<rparr>"

definition load_tx :: "string option \<Rightarrow> detail \<Rightarrow> detail" where
  "load_tx i s = (let s = s\<lparr>dt_id := i\<rparr> in if \<not> truthy i then s else s\<lparr>dt_loads := dt_loads s @ [the i]\<rparr>)"

definition on_loaded :: "Transaction option \<Rightarrow> detail \<Rightarrow> detail" where
  "on_loaded t s = s\<lparr>dt_tx := t, dt_loading := False\<rparr>"

definition handleShare :: "detail \<Rightarrow> detail" where
  "handleShare s = (case dt_tx s of None \<Rightarrow> s | Some tx \<Rightarrow> s\<lparr>dt_sharing := True, dt_share := dt_share s @ [tx]\<rparr>)"

definition on_shared :: "unit res \<Rightarrow> detail \<Rightarrow> detail" where
  "on_shared r s = (case r of Ret _ \<Rightarrow> s | Throw _ \<Rightarrow> s\<lparr>dt_toasts := dt_toasts s @ [''Could not share receipt'']\<rparr>)\<lparr>dt_sharing := False\<rparr>"

definition openExplorer :: "detail \<Rightarrow> string option" where
  "openExplorer s = (case dt_tx s of None \<Rightarrow> None
     | Some tx \<Rightarrow> if truthy (tx_stellarTxHash tx) then Some (STELLAR_EXPLORER @ the (tx_stellarTxHash tx)) else None)"

datatype detail_event =
    Show_tx "string option"
  | Tx_loaded nat "Transaction option"
  | Press_share
  | Share_done nat "unit res"

definition drop_nth :: "nat \<Rightarrow> 'a list \<Rightarrow> 'a list" where
  "drop_nth k xs = take k xs @ drop (Suc k) xs"

fun detail_step :: "detail_event \<Rightarrow> detail \<Rightarrow> detail option" where
  "detail_step (Show_tx i) s = (if i = dt_id s then None else Some (load_tx i s))"
| "detail_step (Tx_loaded k t) s = (if length (dt_loads s) \<le> k then None
     else Some (on_loaded t (s\<lparr>dt_loads := drop_nth k (dt_loads s)\<rparr>)))"
| "detail_step Press_share s = (if dt_sharing s \<or> dt_loading s \<or> dt_tx s = None then None else Some (handleShare s))"
| "detail_step (Share_done k r) s = (if length (dt_share s) \<le> k then None
     else Some (on_shared r (s\<lparr>dt_share := drop_nth k (dt_share s)\<rparr>)))"

fun detail_run :: "detail_event list \<Rightarrow> detail \<Rightarrow> detail option" where
  "detail_run [] s = Some s"
| "detail_run (e # es) s = Option.bind (detail_step e s) (detail_run es)"

section \<open>The batch screen\<close>

datatype BatchStep = Step_pending | Step_parsing | Step_initiating | Step_completed

definition BATCH_STEPS :: "BatchStep list" where
  "BATCH_STEPS = [Step_pending, Step_parsing, Step_initiating, Step_completed]"

record BatchPayoutSummary =
  bs_id :: string
  bs_totalAmount :: string
  bs_currency :: string
  bs_itemCount :: nat
  bs_completedCount :: nat
  bs_failedCount :: nat
  bs_createdAt :: string

record BatchPayoutItem =
  bi_id :: string
  bi_recipientName :: string
  bi_recipientAddress :: string
  bi_amount :: string
  bi_currency :: string
  bi_status :: TransactionStatus

abbreviation count_num :: "nat \<Rightarrow> js_num" where "count_num n \<equiv> Fin (of_nat n)"

definition currentStep :: "BatchPayoutSummary \<Rightarrow> BatchStep" where
  "currentStep s = (if 0 < bs_failedCount s then Step_completed
     else if bs_completedCount s = bs_itemCount s then Step_completed
     else if num_less (num_div (count_num (bs_itemCount s)) (Fin 2)) (count_num (bs_completedCount s)) then Step_initiating
     else if 0 < bs_completedCount s then Step_parsing
     else Step_pending)"

datatype step_look = Past | Active | Future

definition step_looks :: "BatchStep \<Rightarrow> step_look list" where
  "step_looks cur = (let c = findIndex (\<lambda>s. s = cur) BATCH_STEPS in
     map (\<lambda>i. if int i < c then Past else if int i = c then Active else Future) [0..<length BATCH_STEPS])"

definition batch_progress :: "BatchPayoutSummary \<Rightarrow> js_num" where
  "batch_progress s = (if 0 < bs_itemCount s
     then num_mul (num_div (count_num (bs_completedCount s)) (count_num (bs_itemCount s))) (Fin 100) else Fin 0)"

definition clamp_pct :: "js_num \<Rightarrow> js_num" where
  "clamp_pct p = num_min (Fin 100) (num_max (Fin 0) p)"

definition filteredItems :: "TransactionStatus option \<Rightarrow> BatchPayoutItem list \<Rightarrow> BatchPayoutItem list" where
  "filteredItems f items = (case f of None \<Rightarrow> items | Some st \<Rightarrow> filter (\<lambda>i. bi_status i = st) items)"

definition successRate :: "BatchPayoutSummary \<Rightarrow> string" where
  "successRate s = (if 0 < bs_itemCount s
     then toFixed 1 (num_mul (num_div (count_num (bs_completedCount s))
       (num_sub (count_num (bs_itemCount s)) (count_num (bs_failedCount s)))) (Fin 100))
     else ''0'')"

text \<open>The data of the screen; \<open>rnd\<close> is \<open>Math.random()\<close> of each row.\<close>

definition MOCK_SUMMARY :: "string \<Rightarrow> BatchPayoutSummary" where
  "MOCK_SUMMARY createdAt = \<lparr>bs_id = ''BATCH-001'', bs_totalAmount = ''15000.00'', bs_currency = ''USDC'', bs_itemCount = 48,
     bs_completedCount = 32, bs_failedCount = 3, bs_createdAt = createdAt\<rparr>"

definition MOCK_ITEMS :: "(nat \<Rightarrow> js_num) \<Rightarrow> BatchPayoutItem list" where
  "MOCK_ITEMS rnd = (let statuses = replicate 32 Completed @ replicate 13 Pending @ replicate 3 Failed in
     map (\<lambda>i. \<lparr>bi_id = ''item-'' @ show_int (int i + 1), bi_recipientName = ''Recipient '' @ show_int (int i + 1),
       bi_recipientAddress = ''GABCDEF'' @ padStart0 5 (show_int (int i + 1)) @ ''123456789'',
       bi_amount = toFixed 2 (num_add (num_mul (rnd i) (Fin 500)) (Fin 50)), bi_currency = ''USDC'',
       bi_status = statuses ! i\<rparr>) [0..<48])"

text \<open>
  \<open>mounted\<close>: the hidden receipt is on the screen.  The result is the text of the toast; \<open>exporting\<close> is set
  meanwhile and reset in every case.
\<close>

definition handleExportReceipt ::
  "('w, string) io \<Rightarrow> (string \<Rightarrow> string \<Rightarrow> ('w, unit) io) \<Rightarrow> bool \<Rightarrow> bool \<Rightarrow> BatchPayoutSummary \<Rightarrow> 'w
     \<Rightarrow> string option \<times> 'w" where
  "handleExportReceipt capture share ios mounted s w = (if \<not> mounted then (None, w)
     else case bnd capture (\<lambda>uri. share (if ios then uri else ''file://'' @ uri) (''ZAPS batch receipt #'' @ bs_id s)) w of
         (Ret _, w1) \<Rightarrow> (None, w1)
       | (Throw e, w1) \<Rightarrow> (Some (case e of Err m _ _ \<Rightarrow> m | NonError \<Rightarrow> ''Could not export receipt''), w1))"

section \<open>Rounding down\<close>

text \<open>The floor of a quotient of doubles is the quotient of the integers: rounding never reaches the next one.\<close>

lemma floor_quotient:
  assumes "n < 2 ^ 53" "0 < u" "u \<le> n"
  shows "num_floor (num_div (count_num n) (count_num u)) = count_num (n div u)"
proof -
  let ?x = "of_nat n / of_nat u :: rat" and ?q = "n div u"
  have u: "(0::rat) < of_nat u" using assms(2) by simp
  have n: "(of_nat n :: rat) < 2 ^ 53"
  proof -
    have "(of_nat n :: rat) < of_nat (2 ^ 53)" using assms(1) by (simp only: of_nat_less_iff)
    then show ?thesis by simp
  qed
  have x: "0 \<le> ?x" "?x \<le> of_nat n" using assms(2) mult_left_mono[of 1 "of_nat u :: rat" "of_nat n"] by (simp_all add: divide_simps)
  have one: "1 \<le> ?x" using assms(2,3) by simp
  obtain y where y: "to_num ?x = Fin y" "y = round_double ?x" using to_num_le[OF x] assms(1) by auto
  have "?q * u \<le> n" by simp
  then have "(of_nat (?q * u) :: rat) \<le> of_nat n" by (simp only: of_nat_le_iff)
  then have lo: "of_nat ?q \<le> ?x" using u by (simp add: divide_simps)
  have "n + 1 \<le> (?q + 1) * u" using dividend_less_times_div[OF assms(2), of n] by (simp add: algebra_simps)
  then have "(of_nat (n + 1) :: rat) \<le> of_nat ((?q + 1) * u)" by (simp only: of_nat_le_iff)
  then have hi: "?x + 1 / of_nat u \<le> of_nat ?q + 1" using u by (simp add: field_simps)
  have "?q \<le> 2 ^ 53" using order_trans[OF div_le_dividend[of n u]] assms(1) by simp
  then have "round_double (of_nat ?q) = of_nat ?q" using round_double_of_int[of "int ?q"] by simp
  then have ylo: "of_nat ?q \<le> y" using round_double_mono[OF lo] y(2) by simp
  have "ilog2 1 = 0" by (rule ilog2_unique) simp_all
  then have "-1022 \<le> ilog2 ?x" using ilog2_mono[OF _ one] by simp
  then have "y \<le> ?x + ?x / 2 ^ 53" using round_double_close[of ?x] one y(2) by (simp add: abs_le_iff)
  also have "?x / 2 ^ 53 < 1 / of_nat u" using n u by (simp add: divide_simps)
  finally have "y < of_nat ?q + 1" using hi by simp
  then have "\<lfloor>y\<rfloor> = int ?q" using ylo by (intro floor_unique) simp_all
  then show ?thesis using y(1) u by simp
qed

text \<open>
  A duration is shown in the largest unit that fits, as the number of whole units: for every whole number of
  seconds that a double holds exactly, the floating-point division gives the quotient of the integers.
\<close>

theorem duration_whole_units:
  assumes "n < 2 ^ 53"
  shows "formatDuration (count_num n) t = (let u = (case t of Some u \<Rightarrow> u | None \<Rightarrow> default_units) in
     if n < 60 then show_int (int n) @ '' '' @ u_seconds u
     else if n < 3600 then show_int (int (n div 60)) @ '' '' @ u_minutes u
     else if n < 86400 then show_int (int (n div 3600)) @ '' '' @ u_hours u
     else show_int (int (n div 86400)) @ '' '' @ u_days u)"
proof -
  have show_nat: "show_num (count_num k) = show_int (int k)" if "k \<le> n" for k
    using show_num_of_int[of "int k"] that assms by simp
  have lit: "(of_nat n < (60::rat)) = (n < 60)" "(of_nat n < (3600::rat)) = (n < 3600)" "(of_nat n < (86400::rat)) = (n < 86400)"
    using of_nat_less_iff[of n 60, where 'a = rat] of_nat_less_iff[of n 3600, where 'a = rat] of_nat_less_iff[of n 86400, where 'a = rat]
    by simp_all
  have q: "u \<le> n \<Longrightarrow> 0 < u \<Longrightarrow> show_num (num_floor (num_div (count_num n) (count_num u))) = show_int (int (n div u))" for u
    using floor_quotient[OF assms, of u] show_nat[of "n div u"] by simp
  show ?thesis unfolding formatDuration_def Let_def num_less.simps lit
    using q[of 60] q[of 3600] q[of 86400] show_nat[of n] by (simp add: not_less)
qed

theorem duration_whole_units_witness: "formatDuration (Fin 7199) None = ''1 hours'' \<and> formatDuration (Fin 59) None = ''59 seconds''"
proof -
  have "nat_digits (Suc 0) = ''1''" "nat_digits 59 = ''59''" by code_simp+
  then show ?thesis using duration_whole_units[of 7199 None] duration_whole_units[of 59 None] by (simp add: default_units_def show_int_def)
qed

section \<open>Reading a receipt\<close>

lemma split_append: "split d (x @ d # t) = split d x @ split d t"
  by (induction x) (auto split: list.splits)

lemma split_join_lines: "xs \<noteq> [] \<Longrightarrow> split d (join [d] xs) = concat (map (split d) xs)"
  by (induction "[d]" xs rule: join.induct) (simp_all add: split_append)

lemma startsWith_Nil [simp]: "startsWith s []"
  by (simp add: startsWith_def)

lemma startsWith_Cons [simp]: "startsWith (c # s) (d # p) \<longleftrightarrow> c = d \<and> startsWith s p"
  by (simp add: startsWith_def)

lemma rule_line_head: "rule_line = CHR 0xE2 # drop 1 rule_line" and rule_line_one: "newline \<notin> set rule_line"
  by (simp_all add: rule_line_def numeral_eq_Suc)

lemma rule_line_starts [simp]: "startsWith rule_line (d # p) \<longleftrightarrow> d = CHR 0xE2 \<and> startsWith (drop 1 rule_line) p"
  by (subst rule_line_head) auto

text \<open>The field of a receipt with this label, read from the lines of the text.\<close>

definition receipt_field :: "string \<Rightarrow> string \<Rightarrow> string option" where
  "receipt_field l r = map_option (drop (length l)) (List.find (\<lambda>x. startsWith x l) (split newline r))"

text \<open>No field holds a line break, and the identifiers hold no colon, as the labels do.\<close>

definition one_line :: "(string \<Rightarrow> string) \<Rightarrow> Transaction \<Rightarrow> bool" where
  "one_line date tx \<longleftrightarrow> list_all (\<lambda>s. newline \<notin> set s)
       [date (tx_timestamp tx), tx_amount tx, tx_asset tx, tx_fiatValue tx, tx_fiatCurrency tx, tx_address tx, tx_id tx]
     \<and> list_all (case_option True (\<lambda>s. newline \<notin> set s))
         [tx_addressLabel tx, tx_memo tx, tx_fee tx, tx_feeAsset tx, tx_network tx, tx_stellarTxHash tx]
     \<and> CHR '':'' \<notin> set (tx_id tx) \<and> case_option True (\<lambda>s. CHR '':'' \<notin> set s) (tx_stellarTxHash tx)"

lemma find_append: "List.find P (xs @ ys) = (case List.find P xs of None \<Rightarrow> List.find P ys | r \<Rightarrow> r)"
  by (induction xs) auto

lemma type_line: "newline \<notin> set (toUpperCase (type_str t))"
  by (induction t; code_simp)

lemma status_line: "newline \<notin> set (toUpperCase (status_str st))"
  by (induction st; code_simp)

lemma label_pads: "replicate 10 (CHR '' '') = ''          ''" "replicate 8 (CHR '' '') = ''        ''"
  by (simp_all add: numeral_eq_Suc)

lemma no_colon_label: "CHR '':'' \<notin> set s \<Longrightarrow> CHR '':'' \<in> set l \<Longrightarrow> \<not> startsWith s l"
  by (metis startsWith_def in_set_takeD)

text \<open>Reading a field looks at the lines one after the other, whichever of the optional ones there are.\<close>

lemma receipt_field_lines:
  "receipt_field l (buildReceiptText date tx)
   = map_option (drop (length l)) (List.find (\<lambda>x. startsWith x l) (concat (map (split newline) (receipt_lines date tx))))"
  unfolding receipt_field_def buildReceiptText_def by (subst split_join_lines) (simp_all add: receipt_lines_def)

lemma split_optional:
  "concat (map (split newline) (lines_if v f)) = (if truthy v then concat (map (split newline) (f (the v))) else [])"
  by (simp add: lines_if_def)

lemma receipt_lines_flat:
  assumes "one_line date tx"
  shows "concat (map (split newline) (receipt_lines date tx)) =
     [''ZAPS PAYMENT RECEIPT'', rule_line,
      ''Date        : '' @ date (tx_timestamp tx),
      ''Type        : '' @ (if tx_type tx = Sent then ''SENT'' else if tx_type tx = Received then ''RECEIVED'' else toUpperCase (type_str (tx_type tx))),
      ''Status      : '' @ toUpperCase (status_str (tx_status tx)), rule_line,
      ''Amount      : '' @ tx_amount tx @ '' '' @ tx_asset tx, ''Value       : '' @ tx_fiatValue tx @ '' '' @ tx_fiatCurrency tx]
     @ lines_if (tx_fee tx) (\<lambda>f. [''Fee         : '' @ f @ '' '' @ (case tx_feeAsset tx of Some a \<Rightarrow> a | None \<Rightarrow> [])])
     @ [rule_line, (if tx_type tx = Sent then ''To'' else ''From'') @ replicate (if tx_type tx = Sent then 10 else 8) (CHR '' '') @ '': ''
          @ (case tx_addressLabel tx of Some l \<Rightarrow> l | None \<Rightarrow> tx_address tx)]
     @ lines_if (tx_addressLabel tx) (\<lambda>_. [''Address     : '' @ tx_address tx])
     @ lines_if (tx_memo tx) (\<lambda>m. [''Memo        : '' @ m])
     @ lines_if (tx_network tx) (\<lambda>n. [''Network     : '' @ n])
     @ [rule_line, ''Transaction ID'', tx_id tx]
     @ lines_if (tx_stellarTxHash tx) (\<lambda>h. [[], ''Stellar Hash'', h, [], ''Explorer'', STELLAR_EXPLORER @ h])
     @ [rule_line, ''Thank you for using Zaps.'']"
proof -
  have one: "split newline x = [x]" if "newline \<notin> set x" for x using that by (rule split_no_sep)
  have opt: "newline \<notin> set (the v)" if "truthy v" "case_option True (\<lambda>s. newline \<notin> set s) v" for v
    using that by (cases v) auto
  have ex: "newline \<notin> set STELLAR_EXPLORER" by (simp add: STELLAR_EXPLORER_def)
  show ?thesis
    using assms unfolding one_line_def receipt_lines_def
    by (auto simp: split_optional lines_if_def one rule_line_one type_line status_line ex opt split: option.splits)
qed

text \<open>
  C37: A receipt whose fields hold no line break and whose identifiers hold no colon reads back: the status, the amount with
  its asset, and of the fee, the memo and the network each is there with its value exactly when the payment has one.
\<close>

theorem receipt_reads_back:
  assumes "one_line date tx"
  shows "receipt_field ''Status      : '' (buildReceiptText date tx) = Some (toUpperCase (status_str (tx_status tx)))
    \<and> receipt_field ''Amount      : '' (buildReceiptText date tx) = Some (tx_amount tx @ '' '' @ tx_asset tx)
    \<and> receipt_field ''Fee         : '' (buildReceiptText date tx)
        = map_option (\<lambda>f. f @ '' '' @ (case tx_feeAsset tx of Some a \<Rightarrow> a | None \<Rightarrow> [])) (if_truthy (tx_fee tx))
    \<and> receipt_field ''Memo        : '' (buildReceiptText date tx) = if_truthy (tx_memo tx)
    \<and> receipt_field ''Network     : '' (buildReceiptText date tx) = if_truthy (tx_network tx)"
proof -
  have id: "\<not> startsWith (tx_id tx) l" if "CHR '':'' \<in> set l" for l
    using assms no_colon_label[OF _ that] by (simp add: one_line_def)
  have hash: "\<not> startsWith (the (tx_stellarTxHash tx)) l" if "CHR '':'' \<in> set l" "truthy (tx_stellarTxHash tx)" for l
    using assms no_colon_label[OF _ that(1)] that(2) by (cases "tx_stellarTxHash tx") (auto simp: one_line_def)
  have empty: "\<not> startsWith [] (d # p)" for d :: char and p by (simp add: startsWith_def)
  note find_line = empty receipt_field_lines receipt_lines_flat[OF assms] find_append lines_if_def if_truthy_def id hash STELLAR_EXPLORER_def
  show ?thesis
    by (intro conjI) (auto simp: find_line split: option.splits)
qed

theorem receipt_reads_back_witness:
  "receipt_field ''Memo        : '' (buildReceiptText (\<lambda>t. t) (hd (MOCK_TRANSACTIONS (\<lambda>t. ''now'') 0))) = Some ''Lunch split''
   \<and> receipt_field ''Memo        : '' (buildReceiptText (\<lambda>t. t) ((hd (MOCK_TRANSACTIONS (\<lambda>t. ''now'') 0))\<lparr>tx_memo := None\<rparr>)) = None"
  using receipt_reads_back[of "\<lambda>t. t" "hd (MOCK_TRANSACTIONS (\<lambda>t. ''now'') 0)"]
    receipt_reads_back[of "\<lambda>t. t" "(hd (MOCK_TRANSACTIONS (\<lambda>t. ''now'') 0))\<lparr>tx_memo := None\<rparr>"]
  by (simp add: MOCK_TRANSACTIONS_def mock_payments_def one_line_def if_truthy_def)

text \<open>
  But nothing keeps line breaks out of a memo, which the sender of a payment chooses: a payment with a line
  break in its memo has the receipt of a payment with another memo, on a network that it does not name.
\<close>

theorem memo_forges_lines:
  "m \<noteq> [] \<Longrightarrow> n \<noteq> [] \<Longrightarrow>
   buildReceiptText date (tx\<lparr>tx_memo := Some (m @ newline # ''Network     : '' @ n), tx_network := None\<rparr>)
   = buildReceiptText date (tx\<lparr>tx_memo := Some m, tx_network := Some n\<rparr>)"
  by (cases "tx_addressLabel tx") (simp_all add: buildReceiptText_def receipt_lines_def lines_if_def)

text \<open>What is shared is the receipt of the payment, written before the share sheet opens; without a share sheet the
  file is written and the share fails.\<close>

theorem shared_file_is_receipt:
  assumes "shareReceipt writeFile isAvailable shareFile dir date tx w = (Ret u, w')"
  shows "\<exists>w1 w2 p. writeFile p (getReceiptText date tx) w = (Ret (), w1) \<and> isAvailable w1 = (Ret True, w2)
    \<and> shareFile p w2 = (Ret u, w') \<and> p = dir @ ''zaps_receipt_'' @ tx_id tx @ ''.txt''"
  using assms by (auto simp: shareReceipt_def getReceiptText_def Let_def dest!: bnd_RetE split: if_splits)

section \<open>Properties of the transaction screen\<close>

lemma detail_run_append: "detail_run (es @ fs) s = Option.bind (detail_run es s) (detail_run fs)"
  by (induction es arbitrary: s) (auto split: bind_splits)

lemma detail_run_inv:
  assumes "\<And>e s s'. P s \<Longrightarrow> detail_step e s = Some s' \<Longrightarrow> P s'"
  shows "P s \<Longrightarrow> detail_run es s = Some s' \<Longrightarrow> P s'"
  by (induction es arbitrary: s) (auto simp: Option.bind_eq_Some_conv intro: assms)

lemmas detail_defs = load_tx_def on_loaded_def handleShare_def on_shared_def

text \<open>Whatever happens on the screen, one receipt is being shared at most, and the button shows it.\<close>

theorem one_share_at_a_time:
  assumes "detail_run es detail_init = Some s"
  shows "length (dt_share s) \<le> 1 \<and> (dt_sharing s \<longleftrightarrow> dt_share s \<noteq> [])"
proof (rule detail_run_inv[OF _ _ assms])
  fix e s s'
  assume "length (dt_share s) \<le> 1 \<and> (dt_sharing s \<longleftrightarrow> dt_share s \<noteq> [])" "detail_step e s = Some s'"
  then show "length (dt_share s') \<le> 1 \<and> (dt_sharing s' \<longleftrightarrow> dt_share s' \<noteq> [])"
    by (cases e) (auto simp: detail_defs drop_nth_def Let_def length_Suc_conv le_Suc_eq split: if_splits res.splits)
qed (simp add: detail_init_def)

text \<open>A screen opened without an id loads for ever, whatever is pressed.\<close>

theorem no_id_loads_forever:
  assumes "detail_run es detail_init = Some s" "\<forall>i. Show_tx i \<in> set es \<longrightarrow> \<not> truthy i"
  shows "dt_loading s \<and> dt_tx s = None \<and> dt_loads s = []"
proof -
  have "dt_loading s' \<and> dt_tx s' = None \<and> dt_loads s' = []"
    if "detail_run es s = Some s'" "dt_loading s \<and> dt_tx s = None \<and> dt_loads s = []" "\<forall>i. Show_tx i \<in> set es \<longrightarrow> \<not> truthy i" for s s'
    using that
  proof (induction es arbitrary: s)
    case (Cons e es)
    then obtain s1 where s1: "detail_step e s = Some s1" "detail_run es s1 = Some s'" by (auto simp: Option.bind_eq_Some_conv)
    have "dt_loading s1 \<and> dt_tx s1 = None \<and> dt_loads s1 = []"
      using s1(1) Cons.prems(2,3) by (cases e) (auto simp: detail_defs Let_def split: if_splits res.splits)
    then show ?case using Cons.IH[OF s1(2)] Cons.prems(3) by simp
  qed simp
  then show ?thesis using assms by (auto simp: detail_init_def)
qed

text \<open>When the id changes while the first payment loads and the answers arrive in the other order, the first
  payment is shown under the second id, and shared.\<close>

theorem late_payment_shown:
  assumes "truthy (Some a)" "truthy (Some b)" "a \<noteq> b"
  shows "\<exists>s. detail_run [Show_tx (Some a), Show_tx (Some b), Tx_loaded 1 (Some tb), Tx_loaded 0 (Some ta), Press_share] detail_init = Some s
    \<and> dt_id s = Some b \<and> dt_tx s = Some ta \<and> dt_share s = [ta]"
  using assms by (simp add: detail_init_def detail_defs drop_nth_def)

text \<open>A payment of the list opens: while the cache the list was made from can be read, the detail screen finds
  exactly the payment that was pressed.\<close>

theorem listed_payment_opens:
  assumes "readCache getItem now w = (Ret (Some (merge_cached mock cached)), w')"
    and "distinct (map tx_id (merge_cached mock cached))"
    and "t \<in> set (pg_items (page_of date_of f c (merge_cached mock cached)))"
  shows "fetchTransactionById getItem now mock (tx_id t) w = (Ret (Some t), w')"
proof -
  have "set (pg_items (page_of date_of f c l)) \<subseteq> set l" for l
    using set_mset_mset[of "newest_first date_of (filter (keeps date_of f) l)"]
    by (auto simp: page_of_def paginate_def Let_def newest_first_mset dest!: in_set_takeD in_set_dropD)
  then have t: "t \<in> set (merge_cached mock cached)" using assms(3) by blast
  have "List.find (\<lambda>x. tx_id x = tx_id t) l = Some t" if "t \<in> set l" "distinct (map tx_id l)" for l
    using that by (induction l) (auto simp: image_iff)
  then show ?thesis using assms(1,2) t by (simp add: fetchTransactionById_def bnd_apply)
qed

section \<open>Properties of the batch screen\<close>

definition step_index :: "BatchStep \<Rightarrow> nat" where
  "step_index b = nat (findIndex (\<lambda>s. s = b) BATCH_STEPS)"

lemma currentStep_counts:
  assumes "bs_failedCount s = 0" "bs_itemCount s \<le> 2 ^ 53"
  shows "currentStep s = (if bs_completedCount s = bs_itemCount s then Step_completed
     else if bs_itemCount s < 2 * bs_completedCount s then Step_initiating
     else if 0 < bs_completedCount s then Step_parsing else Step_pending)"
proof -
  have "to_num (of_nat (bs_itemCount s) / 2) = Fin (of_nat (bs_itemCount s) / 2)"
    using to_num_binary[of "int (bs_itemCount s)" 1] assms(2) by simp
  moreover have "(of_nat (bs_itemCount s) / 2 < (of_nat (bs_completedCount s) :: rat)) = (bs_itemCount s < 2 * bs_completedCount s)"
  proof -
    have "(of_nat (bs_itemCount s) < (of_nat (2 * bs_completedCount s) :: rat)) = (bs_itemCount s < 2 * bs_completedCount s)"
      by (simp only: of_nat_less_iff)
    then show ?thesis by (simp add: divide_simps mult.commute)
  qed
  ultimately show ?thesis using assms(1) by (simp add: currentStep_def)
qed

text \<open>The stage of a batch without failed items never goes back as items complete, and it is the last one exactly when all are.\<close>

theorem batch_stage_monotone:
  assumes "bs_failedCount s = 0" "bs_itemCount s \<le> 2 ^ 53" "bs_completedCount s \<le> c" "c \<le> bs_itemCount s"
  shows "step_index (currentStep s) \<le> step_index (currentStep (s\<lparr>bs_completedCount := c\<rparr>))
    \<and> (currentStep s = Step_completed \<longleftrightarrow> bs_completedCount s = bs_itemCount s)"
  using assms currentStep_counts[of s] currentStep_counts[of "s\<lparr>bs_completedCount := c\<rparr>"]
  by (auto simp: step_index_def BATCH_STEPS_def)

text \<open>But one failed item puts the batch into its last stage, with any number of items still pending.\<close>

theorem failed_item_completes_batch: "0 < bs_failedCount s \<Longrightarrow> currentStep s = Step_completed"
  by (simp add: currentStep_def)

text \<open>The steps before the current one are past, those after it to come.\<close>

theorem steps_in_order:
  "step_looks b = replicate (step_index b) Past @ Active # replicate (3 - step_index b) Future"
  by (induction b; code_simp)

text \<open>
  The progress lies between nought and a hundred, so the bar shows it as it is, and it is a hundred when all
  items are complete.
\<close>

theorem batch_progress_bounded:
  assumes "bs_completedCount s \<le> bs_itemCount s" "bs_itemCount s \<le> 2 ^ 53"
  shows "\<exists>p. batch_progress s = Fin p \<and> 0 \<le> p \<and> p \<le> 100 \<and> clamp_pct (batch_progress s) = batch_progress s
    \<and> (bs_completedCount s = bs_itemCount s \<and> 0 < bs_itemCount s \<longrightarrow> p = 100)"
proof (cases "bs_itemCount s = 0")
  case True
  then show ?thesis by (simp add: batch_progress_def clamp_pct_def num_min_def num_max_def)
next
  case False
  let ?x = "of_nat (bs_completedCount s) / of_nat (bs_itemCount s) :: rat"
  have "(of_nat (bs_completedCount s) :: rat) \<le> of_nat (bs_itemCount s)" using assms(1) by (simp only: of_nat_le_iff)
  then have "0 \<le> ?x" "?x \<le> of_nat 1" using False by (simp_all add: divide_simps)
  then obtain y where y: "to_num ?x = Fin y" "0 \<le> y" "y \<le> 1" using to_num_le[of ?x 1] by auto
  then obtain p where p: "to_num (y * 100) = Fin p" "0 \<le> p" "p \<le> 100" using to_num_le[of "y * 100" 100] by auto
  have "batch_progress s = Fin p" using False y(1) p(1) by (simp add: batch_progress_def)
  moreover have "p = 100" if "bs_completedCount s = bs_itemCount s"
    using y(1) p(1) False that by simp
  ultimately show ?thesis using p(2,3) by (auto simp: clamp_pct_def num_min_def num_max_def)
qed

text \<open>
  The success rate leaves the failed items out of the total: once every other item is complete it is a hundred
  percent, however many failed, and it is no number at all when all failed.
\<close>

theorem success_rate_ignores_failures:
  assumes "bs_itemCount s \<le> 2 ^ 53" "bs_completedCount s + bs_failedCount s = bs_itemCount s" "0 < bs_itemCount s"
  shows "successRate s = (if bs_completedCount s = 0 then ''NaN'' else ''100.0'')"
proof -
  have "(of_nat (bs_itemCount s) :: rat) - of_nat (bs_failedCount s) = of_nat (bs_completedCount s)"
    using assms(2) by (simp flip: assms(2))
  moreover have "to_num (of_nat (bs_completedCount s)) = Fin (of_nat (bs_completedCount s))"
    using to_num_of_int[of "int (bs_completedCount s)"] assms(1,2) by simp
  ultimately have d: "num_sub (count_num (bs_itemCount s)) (count_num (bs_failedCount s)) = count_num (bs_completedCount s)"
    by (simp add: num_sub_def)
  have "toFixed 1 (Fin 100) = ''100.0''" by code_simp
  then show ?thesis using assms(3) by (simp add: successRate_def d)
qed

text \<open>The filters split the items: each is under exactly one of them, in the order of the list.\<close>

theorem filters_partition:
  "mset items = mset (filteredItems (Some Completed) items) + mset (filteredItems (Some Pending) items)
      + mset (filteredItems (Some Failed) items)
   \<and> filteredItems None items = items \<and> subseq (filteredItems (Some st) items) items"
proof -
  have "mset items = mset (filter (\<lambda>i. bi_status i = Completed) items) + mset (filter (\<lambda>i. bi_status i = Pending) items)
      + mset (filter (\<lambda>i. bi_status i = Failed) items)"
  proof (induction items)
    case (Cons i items)
    then show ?case by (cases "bi_status i") simp_all
  qed simp
  then show ?thesis by (simp add: filteredItems_def)
qed

text \<open>The counts of the summary shown are those of the items shown.\<close>

theorem mock_counts:
  "length (MOCK_ITEMS rnd) = bs_itemCount (MOCK_SUMMARY c)
   \<and> length (filteredItems (Some Completed) (MOCK_ITEMS rnd)) = bs_completedCount (MOCK_SUMMARY c)
   \<and> length (filteredItems (Some Failed) (MOCK_ITEMS rnd)) = bs_failedCount (MOCK_SUMMARY c)"
proof -
  let ?st = "replicate 32 Completed @ replicate 13 Pending @ replicate 3 Failed"
  have "length (filter (\<lambda>x. ?st ! x = Completed) [0..<48]) = 32 \<and> length (filter (\<lambda>x. ?st ! x = Failed) [0..<48]) = 3" by code_simp
  then show ?thesis by (simp add: MOCK_ITEMS_def MOCK_SUMMARY_def filteredItems_def Let_def filter_map comp_def)
qed

end
