(* ===== verification/Payouts_Page.thy ===== *)
theory Payouts_Page
  imports Js_Arith Platform
begin

text \<open>
  The rest of \<open>dashboard/app/dashboard/payouts/page.tsx\<close>: the tabs, the payout form and table, the totals of the
  batches, the status badge of the disbursement server, the log modal, and the modal that retries single
  recipients of a batch.  The upload tab is \<open>Payout_Csv\<close>, the polling hook \<open>Polling\<close>.
  Main results: an amount typed with two decimals is sent exactly in millionths and shown again as typed; a
  row is retried once at a time as long as no poll brings new rows, and an answer changes only its row; with a
  poll in between a row can be retried twice, and an answer can land on another recipient.
\<close>

section \<open>Amounts\<close>

definition math_round :: "js_num \<Rightarrow> js_num" where
  "math_round x = (case x of Fin q \<Rightarrow> Fin (of_int \<lfloor>q + 1 / 2\<rfloor>) | _ \<Rightarrow> x)"

record PayoutForm =
  pf_amount :: string
  pf_asset :: string
  pf_bankAccountId :: string
  pf_anchorId :: string

record PayoutBody =
  pb_amount :: string
  pb_asset :: string
  pb_bankAccountId :: string
  pb_anchorId :: string

definition micro_units :: "string \<Rightarrow> string" where
  "micro_units amount = show_num (math_round (num_mul (Number amount) (Fin 1000000)))"

definition payout_cell :: "string \<Rightarrow> string" where
  "payout_cell amount = toFixed 2 (num_div (Number amount) (Fin 1000000))"

text \<open>The form after the press: blank when the request was accepted.  The button is never disabled.\<close>

definition blank_form :: PayoutForm where
  "blank_form = \<lparr>pf_amount = [], pf_asset = ''USDC'', pf_bankAccountId = [], pf_anchorId = []\<rparr>"

definition handleSubmitPayout :: "(PayoutBody \<Rightarrow> ('w, 'p) io) \<Rightarrow> ('w, unit) io \<Rightarrow> PayoutForm \<Rightarrow> ('w, PayoutForm) io" where
  "handleSubmitPayout requestPayout refreshPayouts f = try_catch
     (bnd (requestPayout \<lparr>pb_amount = micro_units (pf_amount f), pb_asset = pf_asset f, pb_bankAccountId = pf_bankAccountId f,
            pb_anchorId = pf_anchorId f\<rparr>) (\<lambda>_.
      bnd (try_catch refreshPayouts (\<lambda>_. ret ())) (\<lambda>_. ret blank_form)))
     (\<lambda>_. ret f)"

section \<open>Tabs and hooks\<close>

datatype PayoutTab = Tab_history | Tab_batch | Tab_sdp

record payouts_page =
  pp_activeTab :: PayoutTab
  pp_selectedBatch :: "string option"

definition payouts_mounted :: payouts_page where
  "payouts_mounted = \<lparr>pp_activeTab = Tab_history, pp_selectedBatch = None\<rparr>"

definition choose_tab :: "PayoutTab \<Rightarrow> payouts_page \<Rightarrow> payouts_page" where
  "choose_tab t p = p\<lparr>pp_activeTab := t, pp_selectedBatch := None\<rparr>"

definition choose_batch :: "string \<Rightarrow> payouts_page \<Rightarrow> payouts_page option" where
  "choose_batch i p = (if pp_activeTab p = Tab_batch then Some (p\<lparr>pp_selectedBatch := Some i\<rparr>) else None)"

datatype page_hook = Use_state | Use_polling

text \<open>The hooks of one rendering, in their order; React asks for the same ones in every rendering.\<close>

definition page_hooks :: "payouts_page \<Rightarrow> page_hook list" where
  "page_hooks p = [Use_state, Use_state, Use_polling, Use_polling]
     @ (if truthy (pp_selectedBatch p) then [Use_polling] else [])"

section \<open>Totals of the batches\<close>

record BatchPayout =
  bp_id :: string
  bp_status :: string
  bp_currency :: string
  bp_total_recipients :: js_num
  bp_total_amount :: js_num
  bp_succeeded_count :: js_num
  bp_failed_count :: js_num

definition batch_sum :: "(BatchPayout \<Rightarrow> js_num) \<Rightarrow> BatchPayout list \<Rightarrow> js_num" where
  "batch_sum f bs = foldl (\<lambda>sum b. num_add sum (num_or (f b) (Fin 0))) (Fin 0) bs"

definition batch_success :: "BatchPayout list \<Rightarrow> js_num" where
  "batch_success bs = (if num_less (Fin 0) (batch_sum bp_total_recipients bs)
     then num_div (batch_sum bp_succeeded_count bs) (batch_sum bp_total_recipients bs) else Fin 0)"

definition total_volume :: "BatchPayout list \<Rightarrow> js_num" where
  "total_volume bs = num_div (batch_sum bp_total_amount bs) (Fin 1000000)"

definition ring_clamped :: "js_num \<Rightarrow> js_num" where
  "ring_clamped percent = num_max (Fin 0) (num_min (Fin 1) percent)"

definition ring_percent :: "js_num \<Rightarrow> js_num" where
  "ring_percent percent = math_round (num_mul (ring_clamped percent) (Fin 100))"

section \<open>Status of the disbursement server\<close>

datatype sdp_badge = Checking | Synced | Syncing | Degraded | Offline

text \<open>\<open>data\<close> is \<open>None\<close> before the first answer; its status may be missing.\<close>

definition sdp_badge_of :: "bool \<Rightarrow> string option option \<Rightarrow> string option \<Rightarrow> sdp_badge" where
  "sdp_badge_of loading data error =
     (let st = Option.bind data (map_option toLowerCase); is = (\<lambda>s. \<not> truthy error \<and> st = Some s) in
      if loading \<and> data = None then Checking
      else if is ''operational'' \<or> is ''synced'' \<or> is ''ok'' then Synced
      else if is ''syncing'' then Syncing
      else if is ''degraded'' then Degraded
      else Offline)"

section \<open>The log modal\<close>

record log_line =
  lg_id :: string
  lg_level :: string
  lg_message :: string

datatype log_view = Logs_loading | Logs_failed string | Logs_none | Logs_shown "(string \<times> log_line) list"

definition log_tone :: "string \<Rightarrow> string" where
  "log_tone level = (if level = ''error'' then ''red'' else if level = ''warning'' then ''amber'' else ''slate'')"

definition log_view_of :: "bool \<Rightarrow> log_line list option \<Rightarrow> string option \<Rightarrow> log_view" where
  "log_view_of loading data error = (let logs = (case data of Some l \<Rightarrow> l | None \<Rightarrow> []) in
     if loading \<and> logs = [] then Logs_loading
     else if truthy error then Logs_failed (the error)
     else if logs = [] then Logs_none
     else Logs_shown (map (\<lambda>l. (log_tone (lg_level l), l)) logs))"

section \<open>Retrying a recipient\<close>

record BatchRecipient =
  br_id :: string
  br_user_id :: "string option"
  br_destination_address :: "string option"
  br_amount :: js_num
  br_status :: string
  br_tx_hash :: "string option"
  br_attempt_count :: nat

record RetryAnswer =
  ra_status :: "string option"
  ra_recipient :: "BatchRecipient option"

text \<open>The modal with its retries in progress, as the indices they were sent with, and the requests sent so far.\<close>

record batch_modal =
  bm_rows :: "BatchRecipient list"
  bm_retrying :: "nat option"
  bm_error :: "string option"
  bm_flights :: "nat list"
  bm_sent :: "(nat \<times> string) list"

definition modal_open :: "BatchRecipient list \<Rightarrow> batch_modal" where
  "modal_open recipients = \<lparr>bm_rows = recipients, bm_retrying = None, bm_error = None, bm_flights = [], bm_sent = []\<rparr>"

text \<open>\<open>prev.map((row, i) => i === k ? f(row) : row)\<close>.\<close>

definition map_row :: "nat \<Rightarrow> ('a \<Rightarrow> 'a) \<Rightarrow> 'a list \<Rightarrow> 'a list" where
  "map_row k f rows = (if k < length rows then rows[k := f (rows ! k)] else rows)"

definition retry_shown :: "nat \<Rightarrow> batch_modal \<Rightarrow> bool" where
  "retry_shown i s \<longleftrightarrow> i < length (bm_rows s) \<and> toLowerCase (br_status (bm_rows s ! i)) = ''failed''"

definition retry_begin :: "nat \<Rightarrow> batch_modal \<Rightarrow> batch_modal" where
  "retry_begin i s = s\<lparr>bm_error := None, bm_retrying := Some i,
     bm_rows := map_row i (\<lambda>r. r\<lparr>br_status := ''retrying''\<rparr>) (bm_rows s),
     bm_flights := bm_flights s @ [i], bm_sent := bm_sent s @ [(i, br_id (bm_rows s ! i))]\<rparr>"

definition retry_end :: "nat \<Rightarrow> RetryAnswer res \<Rightarrow> batch_modal \<Rightarrow> batch_modal" where
  "retry_end i a s = (case a of
       Ret r \<Rightarrow> s\<lparr>bm_rows := map_row i (\<lambda>row. case ra_recipient r of Some x \<Rightarrow> x
           | None \<Rightarrow> row\<lparr>br_status := (case ra_status r of Some t \<Rightarrow> t | None \<Rightarrow> ''pending'')\<rparr>) (bm_rows s)\<rparr>
     | Throw e \<Rightarrow> s\<lparr>bm_rows := map_row i (\<lambda>row. row\<lparr>br_status := ''failed''\<rparr>) (bm_rows s),
         bm_error := Some (case e of Err m _ _ \<Rightarrow> m | NonError \<Rightarrow> ''Retry failed. Please try again.'')\<rparr>)
     \<lparr>bm_retrying := None\<rparr>"

datatype modal_event = Polled "BatchRecipient list" | Press_retry nat | Retry_answered nat "RetryAnswer res"

text \<open>The answer of the \<open>k\<close>-th retry in progress.\<close>

fun modal_step :: "modal_event \<Rightarrow> batch_modal \<Rightarrow> batch_modal option" where
  "modal_step (Polled recipients) s = Some (s\<lparr>bm_rows := recipients\<rparr>)"
| "modal_step (Press_retry i) s = (if retry_shown i s \<and> bm_retrying s \<noteq> Some i then Some (retry_begin i s) else None)"
| "modal_step (Retry_answered k a) s = (if k < length (bm_flights s)
     then Some (retry_end (bm_flights s ! k) a (s\<lparr>bm_flights := take k (bm_flights s) @ drop (Suc k) (bm_flights s)\<rparr>)) else None)"

fun modal_run :: "modal_event list \<Rightarrow> batch_modal \<Rightarrow> batch_modal option" where
  "modal_run [] s = Some s"
| "modal_run (e # es) s = Option.bind (modal_step e s) (modal_run es)"

section \<open>Properties of the amounts\<close>

text \<open>The error of rounding below a power of two is at most half the spacing of doubles there.\<close>

lemma round_double_half_ulp:
  assumes "0 < x" "x < 2 powi e" "-1021 \<le> e"
  shows "\<bar>round_double x - x\<bar> \<le> 2 powi (e - 54)"
proof -
  let ?u = "2 powi ulp_exp x :: rat"
  have "(2::rat) powi ilog2 x < 2 powi e" using ilog2_bounds(1)[OF assms(1)] assms(2) by linarith
  then have u: "ulp_exp x \<le> e - 53" using assms(1,3) by (simp add: ulp_exp_def)
  have "round_double x - x = (of_int (round_even (x / ?u)) - x / ?u) * ?u"
    using assms(1) by (simp add: round_double_def algebra_simps)
  then have "\<bar>round_double x - x\<bar> = \<bar>of_int (round_even (x / ?u)) - x / ?u\<bar> * ?u" by (simp add: abs_mult)
  also have "\<dots> \<le> 1 / 2 * ?u" by (intro mult_right_mono round_even_close) simp
  also have "\<dots> \<le> 1 / 2 * 2 powi (e - 53)" using u by simp
  also have "\<dots> = 2 powi (e - 54)" using power_int_add[of "2::rat" "e - 54" 1] by simp
  finally show ?thesis .
qed

text \<open>The two roundings of an amount in hundredths, and what is left of it after the multiplication.\<close>

lemma hundredths:
  assumes "0 < k" "k < 100 * 2 ^ 32"
  shows "\<exists>y z. to_num (of_nat k / 100) = Fin y \<and> 0 \<le> y \<and> y \<le> of_nat k \<and> y = round_double (of_nat k / 100)
    \<and> to_num (y * 1000000) = Fin z \<and> \<bar>z - of_nat (10000 * k)\<bar> < 1 / 2"
proof -
  let ?x = "of_nat k / 100 :: rat"
  have k1: "1 \<le> (of_nat k :: rat)" using assms(1) by simp
  have "(of_nat k :: rat) < of_nat (100 * 2 ^ 32)" using assms(2) by (simp only: of_nat_less_iff)
  then have x: "?x < 4294967296" by simp
  obtain y where y: "to_num ?x = Fin y" "y = round_double ?x" "0 \<le> y" "y \<le> of_nat k"
    using to_num_le[of ?x k] k1 assms(2) by auto
  have "\<bar>y - ?x\<bar> \<le> 2 powi (32 - 54)" unfolding y(2) by (rule round_double_half_ulp) (use k1 x in simp_all)
  then have cy: "\<bar>y - ?x\<bar> \<le> 1 / 4194304" by (simp add: power_int_minus)
  then have y_bounds: "1 / 200 \<le> y" "y < 4294967297" using k1 x by linarith+
  define m where "m = y * 1000000"
  have m: "0 < m" "m < 4503599627370496" using y_bounds by (simp_all add: m_def)
  have "m \<le> of_nat (2 ^ 52)" using m(2) by simp
  then obtain z where z: "to_num m = Fin z" "z = round_double m"
    using to_num_le[of m "2 ^ 52"] m(1) by auto
  have "\<bar>z - m\<bar> \<le> 2 powi (52 - 54)" unfolding z(2) by (rule round_double_half_ulp) (use m in simp_all)
  then have a: "\<bar>z - m\<bar> \<le> 1 / 4" by (simp add: power_int_minus)
  have "m - of_nat (10000 * k) = (y - ?x) * 1000000" by (simp add: m_def algebra_simps)
  then have "\<bar>m - of_nat (10000 * k)\<bar> = \<bar>y - ?x\<bar> * \<bar>1000000\<bar>" by (simp only: abs_mult)
  then have "\<bar>m - of_nat (10000 * k)\<bar> \<le> 1000000 / 4194304" using cy by simp
  then have "\<bar>z - of_nat (10000 * k)\<bar> < 1 / 2" using a by linarith
  then show ?thesis using y z m_def by blast
qed

text \<open>
  C38: An amount typed with two decimals and below 4,294,967,296.00 is sent as the exact number of millionths, and the table
  shows it as it was typed, in spite of both roundings.  The form has no maximum; the bound is that of
  \<open>large_amount_misrounded\<close>, where the next amounts go wrong.
\<close>

theorem payout_amount_roundtrip:
  assumes "0 < k" "k < 100 * 2 ^ 32"
  shows "micro_units (fixed_digits 2 k) = show_int (int (10000 * k)) \<and> payout_cell (micro_units (fixed_digits 2 k)) = fixed_digits 2 k"
proof -
  obtain y z where y: "to_num (of_nat k / 100) = Fin y" "0 \<le> y" "y \<le> of_nat k" "y = round_double (of_nat k / 100)"
    and z: "to_num (y * 1000000) = Fin z" "\<bar>z - of_nat (10000 * k)\<bar> < 1 / 2" using hundredths[OF assms] by blast
  have n: "10000 * k \<le> 2 ^ 53" using assms(2) by simp
  have "\<lfloor>z + 1 / 2\<rfloor> = int (10000 * k)" using z(2) by (intro floor_unique; simp only: of_int_of_nat_eq; linarith)
  then have r: "math_round (num_mul (Fin y) (Fin 1000000)) = Fin (of_int (int (10000 * k)))" using z(1) by (simp add: math_round_def)
  have N: "Number (fixed_digits 2 k) = Fin y" using Number_fixed_digits[of 2 k] y(1) by simp
  have micro: "micro_units (fixed_digits 2 k) = show_int (int (10000 * k))"
    unfolding micro_units_def N r by (rule show_num_of_int) (use n in simp_all)
  have "\<bar>y * 100 - of_nat k\<bar> < 1 / 2" unfolding y(4) using grid_close[of k 2] assms by simp
  then have "\<lfloor>y * 100 + 1 / 2\<rfloor> = int k" by (intro floor_unique; simp only: of_int_of_nat_eq; linarith)
  moreover have "y < 10 ^ 21"
  proof -
    have "(of_nat k :: rat) \<le> of_nat (100 * 2 ^ 32)" using assms(2) by (simp only: of_nat_le_iff)
    then show ?thesis using y(3) by simp
  qed
  moreover have "num_div (Number (show_int (int (10000 * k)))) (Fin 1000000) = Fin y"
    using Number_show_nat[OF n] y(1) by simp
  ultimately have "payout_cell (show_int (int (10000 * k))) = fixed_digits 2 k" using y(2) by (simp add: payout_cell_def)
  then show ?thesis using micro by simp
qed

theorem payout_amount_roundtrip_witness: "micro_units ''12.34'' = ''12340000'' \<and> payout_cell ''12340000'' = ''12.34''"
proof -
  have strs: "fixed_digits 2 1234 = ''12.34''" "show_int (int (10000 * 1234)) = ''12340000''"
    by (simp_all add: fixed_digits_def show_int_def nat_digits.simps) code_simp+
  have "0 < (1234::nat)" "1234 < (100 * 2 ^ 32 :: nat)" by simp_all
  from payout_amount_roundtrip[OF this] show ?thesis unfolding strs by metis
qed

text \<open>The double next to 4294967296.02 is so far from it that its product has a half, which is rounded up: a millionth too many.\<close>

theorem large_amount_misrounded:
  "micro_units (fixed_digits 2 (100 * 2 ^ 32 + 2)) = show_int (int (10000 * (100 * 2 ^ 32 + 2)) + 1)"
proof -
  let ?k = "100 * 2 ^ 32 + 2 :: nat"
  have r: "round_double (429496729602 / 100) = 4503599627391468 / 2 ^ 20"
    "round_double (4503599627391468 / 2 ^ 20 * 1000000) = 8589934592040001 / 2" by code_simp+
  have "to_num (429496729602 / 100) = Fin (4503599627391468 / 2 ^ 20)"
    using to_num_le[of "429496729602 / 100" "2 ^ 52"] r(1) by auto
  then have "Number (fixed_digits 2 ?k) = Fin (4503599627391468 / 2 ^ 20)" using Number_fixed_digits[of 2 ?k] by simp
  moreover have z: "to_num (4503599627391468 / 2 ^ 20 * 1000000) = Fin (8589934592040001 / 2)"
    using to_num_le[of "4503599627391468 / 2 ^ 20 * 1000000" "2 ^ 53"] r(2) by auto
  moreover have "\<lfloor>8589934592040001 / 2 + 1 / 2 :: rat\<rfloor> = 4294967296020001" by (rule floor_unique) simp_all
  then have "math_round (num_mul (Fin (4503599627391468 / 2 ^ 20)) (Fin 1000000)) = Fin (of_int 4294967296020001)"
    by (simp only: num_mul.simps z math_round_def js_num.case)
  moreover have "show_num (Fin (of_int 4294967296020001)) = show_int 4294967296020001" by (rule show_num_of_int) simp_all
  moreover have "(4294967296020001 :: int) = int (10000 * ?k) + 1" by simp
  ultimately show ?thesis by (simp only: micro_units_def)
qed

text \<open>A payout request that fails says nothing: the form stays as it is and no error is kept.\<close>

theorem failed_payout_silent:
  assumes "requestPayout \<lparr>pb_amount = micro_units (pf_amount f), pb_asset = pf_asset f, pb_bankAccountId = pf_bankAccountId f,
     pb_anchorId = pf_anchorId f\<rparr> w = (Throw e, w')"
  shows "handleSubmitPayout requestPayout refreshPayouts f w = (Ret f, w')"
  using assms by (simp add: handleSubmitPayout_def try_catch_apply bnd_apply)

section \<open>Properties of the totals\<close>

lemma batch_sum_nat:
  assumes "\<forall>b \<in> set bs. f b = Fin (of_nat (c b))" "sum_list (map c bs) \<le> 2 ^ 53"
  shows "batch_sum f bs = Fin (of_nat (sum_list (map c bs)))"
proof -
  have "foldl (\<lambda>sum b. num_add sum (num_or (f b) (Fin 0))) (Fin (of_nat n)) bs = Fin (of_nat (n + sum_list (map c bs)))"
    if "n + sum_list (map c bs) \<le> 2 ^ 53" "\<forall>b \<in> set bs. f b = Fin (of_nat (c b))" for n
    using that
  proof (induction bs arbitrary: n)
    case (Cons b bs)
    have "num_or (f b) (Fin 0) = Fin (of_nat (c b))" using Cons.prems(2) by (simp add: num_or_def)
    moreover have "to_num (of_nat n + of_nat (c b)) = Fin (of_nat (n + c b))"
      using to_num_of_int[of "int (n + c b)"] Cons.prems(1) by simp
    ultimately show ?case using Cons.IH[of "n + c b"] Cons.prems by (simp add: add.assoc)
  qed simp
  from this[of 0] assms show ?thesis by (simp add: batch_sum_def)
qed

text \<open>The ring shows a whole percentage between nought and a hundred, and a hundred when every recipient was paid.\<close>

theorem ring_in_range:
  assumes "\<forall>b \<in> set bs. bp_total_recipients b = Fin (of_nat (t b)) \<and> bp_succeeded_count b = Fin (of_nat (c b)) \<and> c b \<le> t b"
    and "sum_list (map t bs) \<le> 2 ^ 53"
  shows "\<exists>k \<le> 100. ring_percent (batch_success bs) = Fin (of_nat k)
     \<and> (0 < sum_list (map t bs) \<and> sum_list (map c bs) = sum_list (map t bs) \<longrightarrow> k = 100)"
proof -
  define T where "T = sum_list (map t bs)"
  define C where "C = sum_list (map c bs)"
  have le: "C \<le> T" unfolding T_def C_def using assms(1) by (intro sum_list_mono) simp
  have "\<forall>b \<in> set bs. bp_total_recipients b = Fin (of_nat (t b))" "\<forall>b \<in> set bs. bp_succeeded_count b = Fin (of_nat (c b))"
    using assms(1) by simp_all
  then have s: "batch_sum bp_total_recipients bs = Fin (of_nat T)" "batch_sum bp_succeeded_count bs = Fin (of_nat C)"
    using batch_sum_nat[of bs bp_total_recipients t] batch_sum_nat[of bs bp_succeeded_count c] assms(2) le by (simp_all add: T_def C_def)
  obtain y where y: "batch_success bs = Fin y" "0 \<le> y" "y \<le> 1" "0 < T \<and> C = T \<longrightarrow> y = 1"
  proof (cases "T = 0")
    case True
    then show ?thesis using that[of 0] s by (simp add: batch_success_def)
  next
    case False
    have "(of_nat C :: rat) \<le> of_nat T" using le by (simp only: of_nat_le_iff)
    then have "0 \<le> (of_nat C / of_nat T :: rat)" "(of_nat C / of_nat T :: rat) \<le> of_nat 1" using False by (simp_all add: divide_simps)
    then obtain y where y: "to_num (of_nat C / of_nat T) = Fin y" "0 \<le> y" "y \<le> 1" using to_num_le[of "of_nat C / of_nat T" 1] by auto
    have "batch_success bs = Fin y" using s False y(1) by (simp add: batch_success_def)
    moreover have "C = T \<longrightarrow> y = 1" using y(1) False by auto
    ultimately show ?thesis using that[of y] y by blast
  qed
  obtain p where p: "to_num (y * 100) = Fin p" "0 \<le> p" "p \<le> 100" using to_num_le[of "y * 100" 100] y by auto
  have "ring_clamped (Fin y) = Fin y" using y by (auto simp: ring_clamped_def num_min_def num_max_def)
  then have r: "ring_percent (batch_success bs) = Fin (of_int \<lfloor>p + 1 / 2\<rfloor>)" using y(1) p(1) by (simp add: ring_percent_def math_round_def)
  have f: "0 \<le> \<lfloor>p + 1 / 2\<rfloor>" "\<lfloor>p + 1 / 2\<rfloor> \<le> 100" using p by linarith+
  have h: "\<lfloor>p + 1 / 2\<rfloor> = 100" if "0 < T \<and> C = T"
  proof -
    have "p = 100" using that y(4) p(1) by simp
    then show ?thesis by linarith
  qed
  show ?thesis unfolding T_def[symmetric] C_def[symmetric] using r f h by (intro exI[of _ "nat \<lfloor>p + 1 / 2\<rfloor>"] conjI; simp only: nat_le_iff; simp)
qed

text \<open>But it also shows a hundred percent when some were not: 255 of 256 are rounded up.\<close>

theorem ring_rounds_up: "ring_percent (num_div (Fin 255) (Fin 256)) = Fin 100"
proof -
  have "to_num (255 / 256) = Fin (255 / 256)" "to_num (255 / 256 * 100) = Fin (255 / 256 * 100)"
    using to_num_binary[of 255 8] to_num_binary[of 25500 8] by simp_all
  moreover have "\<lfloor>255 / 256 * 100 + 1 / 2 :: rat\<rfloor> = 100" by (rule floor_unique) simp_all
  ultimately show ?thesis by (simp add: ring_percent_def ring_clamped_def math_round_def num_min_def num_max_def)
qed

text \<open>The volume labelled USDC is the same whatever the currencies of the batches are.\<close>

theorem volume_ignores_currency: "total_volume (map (\<lambda>b. b\<lparr>bp_currency := cur b\<rparr>) bs) = total_volume bs"
proof -
  have "foldl g a (map (\<lambda>b. b\<lparr>bp_currency := cur b\<rparr>) bs) = foldl g a bs"
    if "\<And>s b. g s (b\<lparr>bp_currency := cur b\<rparr>) = g s b" for g and a :: js_num
    using that by (induction bs arbitrary: a) simp_all
  then show ?thesis by (simp add: total_volume_def batch_sum_def)
qed

text \<open>Choosing a batch changes the hooks of the next rendering, which React answers with an error.\<close>

theorem choosing_changes_hooks:
  "choose_batch i p = Some p' \<Longrightarrow> pp_selectedBatch p = None \<Longrightarrow> i \<noteq> [] \<Longrightarrow> length (page_hooks p) < length (page_hooks p')"
  by (auto simp: choose_batch_def page_hooks_def split: if_splits)

text \<open>The badge says synced exactly when the last request succeeded and the server reported one of three words, in any case.\<close>

theorem badge_synced:
  "sdp_badge_of loading data error = Synced
   \<longleftrightarrow> \<not> truthy error \<and> (\<exists>s. data = Some (Some s) \<and> toLowerCase s \<in> {''operational'', ''synced'', ''ok''})"
  by (auto simp: sdp_badge_of_def Let_def bind_eq_Some_conv)

section \<open>Properties of the retries\<close>

definition modal_inv :: "batch_modal \<Rightarrow> bool" where
  "modal_inv s \<longleftrightarrow> distinct (bm_flights s)
     \<and> (\<forall>i \<in> set (bm_flights s). i < length (bm_rows s) \<and> br_status (bm_rows s ! i) = ''retrying'')"

lemma map_row_length [simp]: "length (map_row k f xs) = length xs"
  by (simp add: map_row_def)

lemma map_row_nth [simp]: "i < length xs \<Longrightarrow> map_row k f xs ! i = (if i = k then f (xs ! i) else xs ! i)"
  by (simp add: map_row_def)

lemma retrying_not_failed: "toLowerCase ''retrying'' \<noteq> ''failed''"
  by code_simp

lemma modal_inv_step:
  assumes "modal_inv s" "modal_step e s = Some s'" "\<nexists>r. e = Polled r"
  shows "modal_inv s'"
proof (cases e)
  case (Polled r)
  then show ?thesis using assms(3) by blast
next
  case (Press_retry i)
  then have i: "retry_shown i s" "s' = retry_begin i s" using assms(2) by (auto split: if_splits)
  have "i \<notin> set (bm_flights s)" using assms(1) i(1) retrying_not_failed by (auto simp: modal_inv_def retry_shown_def)
  then show ?thesis using assms(1) i by (auto simp: modal_inv_def retry_begin_def retry_shown_def)
next
  case (Retry_answered k a)
  then have k: "k < length (bm_flights s)"
    and s': "s' = retry_end (bm_flights s ! k) a (s\<lparr>bm_flights := take k (bm_flights s) @ drop (Suc k) (bm_flights s)\<rparr>)"
    using assms(2) by (auto split: if_splits)
  have "distinct (take k (bm_flights s) @ bm_flights s ! k # drop (Suc k) (bm_flights s))"
    using assms(1) id_take_nth_drop[OF k] by (simp add: modal_inv_def)
  then have d: "distinct (take k (bm_flights s) @ drop (Suc k) (bm_flights s))"
    "bm_flights s ! k \<notin> set (take k (bm_flights s) @ drop (Suc k) (bm_flights s))" by auto
  have "set (take k (bm_flights s) @ drop (Suc k) (bm_flights s)) \<subseteq> set (bm_flights s)"
    by (auto dest: in_set_takeD in_set_dropD)
  then show ?thesis using assms(1) d unfolding s' modal_inv_def by (auto simp: retry_end_def split: res.splits)
qed

text \<open>
  As long as no poll brings new rows, no row is ever retried while its retry is in progress: the rows under
  retry are distinct, each says so, and none of them offers the button.
\<close>

theorem one_retry_per_row:
  assumes "modal_run es (modal_open recipients) = Some s" "\<forall>r. Polled r \<notin> set es"
  shows "distinct (bm_flights s) \<and> (\<forall>i \<in> set (bm_flights s). \<not> retry_shown i s)"
proof -
  have "modal_inv s'" if "modal_run es s = Some s'" "modal_inv s" "\<forall>r. Polled r \<notin> set es" for s s'
    using that by (induction es arbitrary: s) (auto simp: Option.bind_eq_Some_conv dest: modal_inv_step)
  from this[OF assms(1) _ assms(2)] have "modal_inv s" by (simp add: modal_inv_def modal_open_def)
  then show ?thesis using retrying_not_failed by (auto simp: modal_inv_def retry_shown_def)
qed

definition sample_recipient :: "string \<Rightarrow> BatchRecipient" where
  "sample_recipient i = \<lparr>br_id = i, br_user_id = None, br_destination_address = None, br_amount = Fin 1, br_status = ''failed'',
     br_tx_hash = None, br_attempt_count = 1\<rparr>"

theorem one_retry_per_row_witness:
  "\<exists>s. modal_run [Press_retry 0, Press_retry 1, Retry_answered 0 (Throw NonError), Press_retry 0]
        (modal_open [sample_recipient ''a'', sample_recipient ''b'']) = Some s \<and> bm_flights s = [1, 0] \<and> \<not> retry_shown 0 s"
proof -
  have f: "toLowerCase ''failed'' = ''failed''" by code_simp
  obtain s where r: "modal_run [Press_retry 0, Press_retry 1, Retry_answered 0 (Throw NonError), Press_retry 0]
      (modal_open [sample_recipient ''a'', sample_recipient ''b'']) = Some s" "bm_flights s = [1, 0]"
    by (simp add: modal_open_def sample_recipient_def retry_shown_def retry_begin_def retry_end_def map_row_def f)
  from one_retry_per_row[OF r(1)] r show ?thesis by simp
qed

text \<open>An answer changes the row it was asked for and no other.\<close>

theorem answer_changes_its_row:
  assumes "modal_step (Retry_answered k a) s = Some s'" "j \<noteq> bm_flights s ! k"
  shows "length (bm_rows s') = length (bm_rows s) \<and> (j < length (bm_rows s) \<longrightarrow> bm_rows s' ! j = bm_rows s ! j)"
  using assms by (auto simp: retry_end_def split: if_splits res.splits)

text \<open>
  A poll in between breaks this: it shows the rows as the server has them, and only the row retried last is
  disabled, so the row retried first can be retried, and paid, twice.
\<close>

theorem row_retried_twice:
  assumes "rows = a # b # rest" "toLowerCase (br_status a) = ''failed''" "toLowerCase (br_status b) = ''failed''"
  shows "\<exists>s. modal_run [Press_retry 0, Press_retry 1, Polled rows, Press_retry 0] (modal_open rows) = Some s
     \<and> bm_flights s = [0, 1, 0] \<and> bm_sent s = [(0, br_id a), (1, br_id b), (0, br_id a)]"
  using assms by (simp add: modal_open_def retry_shown_def retry_begin_def map_row_def)

text \<open>And an answer is written at the index it was asked for: when the poll has changed the order, another
  recipient's row disappears.\<close>

theorem answer_on_wrong_row:
  assumes "toLowerCase (br_status a) = ''failed''" "br_id a \<noteq> br_id b" "br_id a' = br_id a"
  shows "\<exists>s. modal_run [Press_retry 0, Polled [b, a], Retry_answered 0 (Ret \<lparr>ra_status = None, ra_recipient = Some a'\<rparr>)]
       (modal_open [a, b]) = Some s \<and> br_id b \<notin> br_id ` set (bm_rows s)"
  using assms by (simp add: modal_open_def retry_shown_def retry_begin_def retry_end_def map_row_def)

end
