(* ===== verification/Payment_Dialog.thy ===== *)
theory Payment_Dialog
  imports Js_Arith Platform "HOL-Library.AList"
begin

text \<open>
  The payment dialog of the dashboard, \<open>components/PaymentDetailDialog.tsx\<close>: decoding an XDR text by trying one
  format after the other, turning the decoded object into plain data, the summary of a transaction, and the
  dialog's requests.  The Stellar SDK is a parameter: an object it returns is given by what its accessors
  answer.
  Main results: what is shown is plain data of bounded depth; a 128-bit integer is shown with its value, but a
  signed one never is, a two-word integer ends in an error, and every transaction is labelled as one of the test network.
\<close>

section \<open>Bytes\<close>

definition printable :: "char \<Rightarrow> bool" where
  "printable c \<longleftrightarrow> (let n = of_char c :: nat in 0x20 \<le> n \<and> n \<le> 0x7E \<or> n = 10 \<or> n = 13 \<or> n = 9)"

definition hex_of :: "string \<Rightarrow> string" where
  "hex_of b = concat (map (\<lambda>c. padStart0 2 (toString16 (of_char c))) b)"

text \<open>The decoder drops a byte order mark; what is left and is no UTF-8 or not ASCII is never printable.\<close>

definition decoded_text :: "string \<Rightarrow> string" where
  "decoded_text b = (if take 3 b = [CHR 0xEF, CHR 0xBB, CHR 0xBF] then drop 3 b else b)"

definition bufferToDisplay :: "string \<Rightarrow> string" where
  "bufferToDisplay b = (if b = [] then []
     else if decoded_text b \<noteq> [] \<and> list_all printable (decoded_text b) then decoded_text b
     else let h = hex_of b in
       if length h \<le> 64 then ''0x'' @ h
       else ''0x'' @ take 32 h @ [CHR 0xE2, CHR 0x80, CHR 0xA6] @ drop (length h - 16) h @ '' ('' @ show_int (int (length b)) @ '' bytes)'')"

section \<open>Contract values\<close>

text \<open>
  A contract value by its arm.  For a wide integer, what the four accessors answer as high and low
  word, \<open>None\<close> when there is no such method.
\<close>

datatype scval =
    SC_bool bool
  | SC_void
  | SC_error string "string option"
  | SC_int int
  | SC_timepoint int
  | SC_duration int
  | SC_wide "(int \<times> int) res option" "(int \<times> int) res option" "(int \<times> int) res option" "(int \<times> int) res option"
  | SC_bytes string
  | SC_string string
  | SC_symbol string
  | SC_vec "nat option"
  | SC_map "nat option"
  | SC_address string
  | SC_ledger_key_instance
  | SC_ledger_key_nonce
  | SC_contract_instance
  | SC_other

definition or_zero :: "nat option \<Rightarrow> nat" where "or_zero n = (case n of Some k \<Rightarrow> k | None \<Rightarrow> 0)"

definition join_words :: "int \<Rightarrow> int \<Rightarrow> int" where
  "join_words hi lo = or (push_bit 64 hi) lo"

definition wide_word :: "(int \<times> int) res option \<Rightarrow> (int \<times> int) res option \<Rightarrow> (int \<times> int) res option \<Rightarrow> (int \<times> int) res option
    \<Rightarrow> (int \<times> int) res" where
  "wide_word u128 i128 u256 i256 = (case u128 of Some r \<Rightarrow> r | None \<Rightarrow> (case i128 of Some r \<Rightarrow> r | None \<Rightarrow>
     (case u256 of Some r \<Rightarrow> r | None \<Rightarrow> (case i256 of Some r \<Rightarrow> r | None \<Rightarrow> Throw (Error ''val.i256 is not a function'')))))"

text \<open>\<open>SC_address\<close> holds the key or contract text that \<open>StrKey\<close> makes.\<close>

fun scValToHuman :: "scval \<Rightarrow> string option" where
  "scValToHuman (SC_bool b) = Some (if b then ''true'' else ''false'')"
| "scValToHuman SC_void = Some ''void''"
| "scValToHuman (SC_error c m) = Some (''error('' @ c @ '': '' @ (case m of Some t \<Rightarrow> t | None \<Rightarrow> []) @ '')'')"
| "scValToHuman (SC_int i) = Some (show_int i)"
| "scValToHuman (SC_timepoint i) = Some (''timepoint('' @ show_int i @ '')'')"
| "scValToHuman (SC_duration i) = Some (''duration('' @ show_int i @ '')'')"
| "scValToHuman (SC_wide a b c d) = (case wide_word a b c d of Ret (hi, lo) \<Rightarrow> Some (show_int (join_words hi lo)) | Throw _ \<Rightarrow> None)"
| "scValToHuman (SC_bytes b) = Some (bufferToDisplay b)"
| "scValToHuman (SC_string s) = Some s"
| "scValToHuman (SC_symbol s) = Some (''Symbol('' @ s @ '')'')"
| "scValToHuman (SC_vec n) = Some (''vec('' @ show_int (int (or_zero n)) @ '' items)'')"
| "scValToHuman (SC_map n) = Some (''map('' @ show_int (int (or_zero n)) @ '' entries)'')"
| "scValToHuman (SC_address a) = Some a"
| "scValToHuman SC_ledger_key_instance = Some ''LedgerKeyContractInstance''"
| "scValToHuman SC_ledger_key_nonce = Some ''LedgerKeyNonce''"
| "scValToHuman SC_contract_instance = Some ''ContractInstance''"
| "scValToHuman SC_other = None"

section \<open>Plain data\<close>

text \<open>
  A value as the conversion sees it.  \<open>J_long\<close> is an object with numeric \<open>high\<close> and \<open>low\<close>.  An XDR object is given by its constructor's name, the contract
  value it is, its union (the name or value of the switch, the arm's value and its type), the
  fields with what their accessors return (\<open>None\<close> when the field is no method), \<open>toXDR\<close> and \<open>toString\<close>.
\<close>

datatype 'a xdr_union = Union_throws | Union "string + 'a" "'a option res" "string option option"

datatype jvalue =
    J_null
  | J_str string
  | J_num js_num
  | J_bool bool
  | J_big int
  | J_bytes string
  | J_array "jvalue list"
  | J_long int int
  | J_plain "(string \<times> jvalue) list"
  | J_xdr string "scval option" "jvalue xdr_union option" "(string \<times> jvalue res option) list" "string res option" "string res option"

fun sequence :: "'a res list \<Rightarrow> 'a list res" where
  "sequence [] = Ret []"
| "sequence (Throw e # rs) = Throw e"
| "sequence (Ret x # rs) = (case sequence rs of Ret xs \<Rightarrow> Ret (x # xs) | Throw e \<Rightarrow> Throw e)"

definition decode_error :: "js_error \<Rightarrow> jvalue" where
  "decode_error e = J_str (''[decode error: '' @ (case e of Err m _ _ \<Rightarrow> m | NonError \<Rightarrow> ''undefined'') @ '']'')"

definition MAX_DEPTH :: nat where "MAX_DEPTH = 12"

definition strip_xdr :: "string \<Rightarrow> string" where
  "strip_xdr c = (if startsWith c ''xdr$'' then drop 4 c else c)"

text \<open>
  The union part: the object so far, and whether it is complete.  \<open>conv\<close> is the conversion one level down.
  The \<open>try\<close> keeps what was written before a throw.
\<close>

definition union_part :: "(jvalue \<Rightarrow> jvalue res) \<Rightarrow> jvalue xdr_union option \<Rightarrow> (string \<times> jvalue) list \<Rightarrow> (string \<times> jvalue) list \<times> bool" where
  "union_part conv u r = (case u of None \<Rightarrow> (r, False) | Some Union_throws \<Rightarrow> (r, False)
     | Some (Union sw arm ty) \<Rightarrow>
       (case (case sw of Inl n \<Rightarrow> Ret (J_str n) | Inr v \<Rightarrow> conv v) of Throw _ \<Rightarrow> (r, False)
        | Ret s \<Rightarrow> let r1 = AList.update ''_switch'' s r in
          (case arm of Throw _ \<Rightarrow> (r1, False)
           | Ret a \<Rightarrow> (case (a, ty) of
               (Some v, Some t) \<Rightarrow> (case conv v of Throw _ \<Rightarrow> (r1, False)
                  | Ret j \<Rightarrow> (AList.update (case t of Some n \<Rightarrow> n | None \<Rightarrow> ''_value'') j r1, True))
             | _ \<Rightarrow> (r1, True)))))"

definition field_value :: "(jvalue \<Rightarrow> jvalue res) \<Rightarrow> jvalue res \<Rightarrow> jvalue" where
  "field_value conv a = (case a of Throw e \<Rightarrow> decode_error e
     | Ret v \<Rightarrow> (case conv v of Ret j \<Rightarrow> j | Throw e \<Rightarrow> decode_error e))"

definition walk_fields :: "(jvalue \<Rightarrow> jvalue res) \<Rightarrow> (string \<times> jvalue res option) list \<Rightarrow> (string \<times> jvalue) list \<Rightarrow> (string \<times> jvalue) list" where
  "walk_fields conv fs r = foldl (\<lambda>r (k, a). case a of None \<Rightarrow> r | Some x \<Rightarrow> AList.update k (field_value conv x) r) r fs"

definition xdr_object :: "(jvalue \<Rightarrow> jvalue res) \<Rightarrow> string \<Rightarrow> jvalue xdr_union option \<Rightarrow> (string \<times> jvalue res option) list
    \<Rightarrow> string res option \<Rightarrow> string res option \<Rightarrow> jvalue" where
  "xdr_object conv c u fs tx ts =
     (let r = (if c = [] then [] else [(''_type'', J_str (strip_xdr c))]); (r1, finished) = union_part conv u r in
      if finished then J_plain r1
      else if fs \<noteq> [] then J_plain (walk_fields conv fs r1)
      else case tx of Some (Ret s) \<Rightarrow> J_str s
        | _ \<Rightarrow> (case ts of Some (Ret s) \<Rightarrow> if s \<noteq> ''[object Object]'' then J_str s else J_plain r1 | _ \<Rightarrow> J_plain r1))"

text \<open>The conversion; \<open>BigInt(obj.low) >>> 0n\<close> throws, because big integers have no unsigned shift.\<close>

function (sequential) xdrToJson :: "nat \<Rightarrow> jvalue \<Rightarrow> jvalue res" where
  "xdrToJson d v = (if MAX_DEPTH < d then Ret (J_str ''[Max depth exceeded]'') else
     case v of
       J_bytes b \<Rightarrow> Ret (J_str (bufferToDisplay b))
     | J_array xs \<Rightarrow> (case sequence (map (xdrToJson (Suc d)) xs) of Ret ys \<Rightarrow> Ret (J_array ys) | Throw e \<Rightarrow> Throw e)
     | J_long hi lo \<Rightarrow> Throw (Error ''BigInts have no unsigned right shift, use >> instead'')
     | J_plain es \<Rightarrow> (case sequence (map (\<lambda>e. xdrToJson (Suc d) (snd e)) es) of
           Ret ys \<Rightarrow> Ret (J_plain (zip (map fst es) ys)) | Throw e \<Rightarrow> Throw e)
     | J_xdr c sc u fs tx ts \<Rightarrow> (case Option.bind sc scValToHuman of
           Some h \<Rightarrow> Ret (J_plain [(''_type'', J_str ''ScVal''), (''_value'', J_str h)])
         | None \<Rightarrow> Ret (xdr_object (\<lambda>x. xdrToJson (Suc d) x) c u fs tx ts))
     | _ \<Rightarrow> Ret v)"
  by pat_completeness auto
termination by (relation "measure (\<lambda>(d, v). Suc MAX_DEPTH - d)") (auto simp: MAX_DEPTH_def)

section \<open>The summary of a transaction\<close>

datatype memo = Memo_text string | Memo_id string | Memo_hash string | Memo_return string | Memo_none

fun summarizeMemo :: "memo \<Rightarrow> string" where
  "summarizeMemo (Memo_text v) = ''text('' @ v @ '')''"
| "summarizeMemo (Memo_id v) = ''id('' @ v @ '')''"
| "summarizeMemo (Memo_hash v) = ''hash(0x'' @ v @ '')''"
| "summarizeMemo (Memo_return v) = ''return(0x'' @ v @ '')''"
| "summarizeMemo Memo_none = ''none''"

text \<open>\<open>Op_host\<close> carries the name of the host function, when it is one; \<open>Op_trust\<close> the code and issuer of its line.\<close>

datatype operation =
    Op_payment string string string "string option"
  | Op_create string string
  | Op_host "string option"
  | Op_extend string
  | Op_restore
  | Op_bump string
  | Op_set_options
  | Op_trust string "string option" string
  | Op_allow_trust
  | Op_else string

fun op_type :: "operation \<Rightarrow> string" where
  "op_type (Op_payment _ _ _ _) = ''payment''" | "op_type (Op_create _ _) = ''createAccount''"
| "op_type (Op_host _) = ''invokeHostFunction''" | "op_type (Op_extend _) = ''extendFootprintTtl''"
| "op_type Op_restore = ''restoreFootprint''" | "op_type (Op_bump _) = ''bumpSequence''"
| "op_type Op_set_options = ''setOptions''" | "op_type (Op_trust _ _ _) = ''changeTrust''"
| "op_type Op_allow_trust = ''allowTrust''" | "op_type (Op_else t) = t"

definition asset_text :: "string \<Rightarrow> string option \<Rightarrow> string" where
  "asset_text code issuer = code @ (if truthy issuer then CHR '':'' # the issuer else [])"

fun summarizeOperation :: "operation \<Rightarrow> string" where
  "summarizeOperation (Op_payment dst amount code issuer) = dst @ '' '' @ [CHR 0xE2, CHR 0x86, CHR 0x90] @ '' '' @ amount @ '' '' @ asset_text code issuer"
| "summarizeOperation (Op_create dst start) = dst @ '' starting balance '' @ start @ '' XLM''"
| "summarizeOperation (Op_host f) = (case f of Some n \<Rightarrow> ''hostFn: '' @ n | None \<Rightarrow> ''invokeHostFunction'')"
| "summarizeOperation (Op_extend n) = ''extend TTL by '' @ n"
| "summarizeOperation Op_restore = ''restore footprint''"
| "summarizeOperation (Op_bump n) = ''bump to '' @ n"
| "summarizeOperation Op_set_options = ''set options''"
| "summarizeOperation (Op_trust code issuer limit) = ''trust '' @ asset_text code issuer @ '' (limit '' @ limit @ '')''"
| "summarizeOperation Op_allow_trust = ''allow trust''"
| "summarizeOperation (Op_else t) = t"

record sdk_tx =
  st_source :: string
  st_fee :: string
  st_sequence :: string
  st_memo :: memo
  st_operations :: "operation list"

record summary =
  sm_source :: string
  sm_fee :: string
  sm_sequence :: string
  sm_memo :: string
  sm_operations :: "(string \<times> string) list"
  sm_network :: string

definition NETWORKS :: "string list" where "NETWORKS = [''TESTNET'', ''PUBLIC'']"

text \<open>\<open>fromXDR network xdr\<close>, with the passphrase of the network.\<close>

fun first_network :: "(string \<Rightarrow> string \<Rightarrow> sdk_tx res) \<Rightarrow> string \<Rightarrow> string list \<Rightarrow> summary option" where
  "first_network fromXDR x [] = None"
| "first_network fromXDR x (n # ns) = (case fromXDR n x of
     Ret tx \<Rightarrow> Some \<lparr>sm_source = st_source tx, sm_fee = st_fee tx, sm_sequence = st_sequence tx, sm_memo = summarizeMemo (st_memo tx),
       sm_operations = map (\<lambda>p. (op_type p, summarizeOperation p)) (st_operations tx), sm_network = n\<rparr>
   | Throw _ \<Rightarrow> first_network fromXDR x ns)"

definition tryDecodeAsTransaction :: "(string \<Rightarrow> string \<Rightarrow> sdk_tx res) \<Rightarrow> string \<Rightarrow> summary option" where
  "tryDecodeAsTransaction fromXDR x = first_network fromXDR x NETWORKS"

section \<open>Decoding\<close>

definition STRATEGIES :: "string list" where
  "STRATEGIES = [''TransactionEnvelope'', ''Transaction'', ''TransactionResult'', ''TransactionMeta'', ''SorobanTransactionData'',
     ''LedgerEntry'', ''LedgerKey'', ''ScVal'', ''Operation'']"

record decoded =
  dc_type :: string
  dc_data :: jvalue
  dc_summary :: "summary option"

text \<open>\<open>dec type xdr\<close> is \<open>tryDecode\<close> of a strategy.\<close>

fun decode_with :: "(string \<Rightarrow> string \<Rightarrow> jvalue res) \<Rightarrow> (string \<Rightarrow> string \<Rightarrow> sdk_tx res) \<Rightarrow> string \<Rightarrow> string list \<Rightarrow> js_error option \<Rightarrow> decoded res" where
  "decode_with dec fromXDR x [] lastErr = Throw (case lastErr of Some (Err m c s) \<Rightarrow> Err m c s | _ \<Rightarrow> Error ''Unknown XDR format'')"
| "decode_with dec fromXDR x (t # ts) lastErr =
     (case (case dec t x of Throw e \<Rightarrow> Throw e | Ret v \<Rightarrow> xdrToJson 0 v) of
        Ret j \<Rightarrow> Ret \<lparr>dc_type = t, dc_data = j,
          dc_summary = (if t = ''TransactionEnvelope'' then tryDecodeAsTransaction fromXDR x else None)\<rparr>
      | Throw e \<Rightarrow> decode_with dec fromXDR x ts (Some e))"

definition decodeXdr :: "(string \<Rightarrow> string \<Rightarrow> jvalue res) \<Rightarrow> (string \<Rightarrow> string \<Rightarrow> sdk_tx res) \<Rightarrow> string \<Rightarrow> decoded res" where
  "decodeXdr dec fromXDR x = decode_with dec fromXDR x STRATEGIES None"

section \<open>The dialog\<close>

text \<open>
  Requests carry whether they were cancelled by the clean-up of the effect; \<open>dg_from\<close> is the user whose
  payments are stored.
\<close>

record 'p dialog =
  dg_username :: "string option"
  dg_payments :: "'p list"
  dg_loading :: bool
  dg_error :: "string option"
  dg_xdr :: "string option"
  dg_selectedXdr :: "string option"
  dg_requests :: "(string \<times> bool) list"
  dg_from :: "string option"
  dg_closed :: bool

definition request_payments :: "string option \<Rightarrow> 'p dialog \<Rightarrow> 'p dialog" where
  "request_payments u g = (let g = g\<lparr>dg_username := u, dg_requests := map (\<lambda>r. (fst r, True)) (dg_requests g)\<rparr> in
     if \<not> truthy u then g\<lparr>dg_loading := False\<rparr>
     else g\<lparr>dg_loading := True, dg_requests := dg_requests g @ [(the u, False)]\<rparr>)"

definition show_xdr :: "string option \<Rightarrow> 'p dialog \<Rightarrow> 'p dialog" where
  "show_xdr x g = g\<lparr>dg_xdr := x, dg_selectedXdr := x\<rparr>"

definition dialog_open :: "string option \<Rightarrow> string option \<Rightarrow> 'p dialog" where
  "dialog_open u x = request_payments u (show_xdr x \<lparr>dg_username = None, dg_payments = [], dg_loading = True, dg_error = None,
     dg_xdr = x, dg_selectedXdr = x, dg_requests = [], dg_from = None, dg_closed = False\<rparr>)"

definition on_payments :: "string \<times> bool \<Rightarrow> 'p list res \<Rightarrow> 'p dialog \<Rightarrow> 'p dialog" where
  "on_payments q r g = (if snd q then g
     else (case r of Ret ps \<Rightarrow> g\<lparr>dg_payments := ps, dg_from := Some (fst q)\<rparr>
       | Throw e \<Rightarrow> g\<lparr>dg_error := Some (case e of Err m _ _ \<Rightarrow> m | NonError \<Rightarrow> ''Failed to load'')\<rparr>)\<lparr>dg_loading := False\<rparr>)"

definition escape_pressed :: "'p dialog \<Rightarrow> 'p dialog" where
  "escape_pressed g = (if truthy (dg_selectedXdr g) \<and> \<not> truthy (dg_xdr g) then g\<lparr>dg_selectedXdr := None\<rparr> else g\<lparr>dg_closed := True\<rparr>)"

definition back_shown :: "'p dialog \<Rightarrow> bool" where
  "back_shown g \<longleftrightarrow> truthy (dg_selectedXdr g) \<and> \<not> truthy (dg_xdr g)"

datatype 'p dialog_view = View_loading | View_error string | View_none | View_payments "'p list"

definition dialog_view_of :: "'p dialog \<Rightarrow> 'p dialog_view" where
  "dialog_view_of g = (if dg_loading g then View_loading
     else if truthy (dg_error g) then View_error (the (dg_error g))
     else if dg_payments g = [] then View_none else View_payments (dg_payments g))"

datatype 'p dialog_event = New_username "string option" | New_xdr "string option" | Payments_answered nat "'p list res" | Escape

fun dialog_step :: "'p dialog_event \<Rightarrow> 'p dialog \<Rightarrow> 'p dialog option" where
  "dialog_step (New_username u) g = (if u = dg_username g then None else Some (request_payments u g))"
| "dialog_step (New_xdr x) g = (if x = dg_xdr g then None else Some (show_xdr x g))"
| "dialog_step (Payments_answered k r) g = (if k < length (dg_requests g)
     then Some (on_payments (dg_requests g ! k) r (g\<lparr>dg_requests := take k (dg_requests g) @ drop (Suc k) (dg_requests g)\<rparr>)) else None)"
| "dialog_step Escape g = Some (escape_pressed g)"

fun dialog_run :: "'p dialog_event list \<Rightarrow> 'p dialog \<Rightarrow> 'p dialog option" where
  "dialog_run [] g = Some g"
| "dialog_run (e # es) g = Option.bind (dialog_step e g) (dialog_run es)"

declare xdrToJson.simps [simp del]

section \<open>What is shown\<close>

fun is_json :: "jvalue \<Rightarrow> bool" where
  "is_json (J_bytes _) = False"
| "is_json (J_long _ _) = False"
| "is_json (J_xdr _ _ _ _ _ _) = False"
| "is_json (J_array xs) = (\<forall>x \<in> set xs. is_json x)"
| "is_json (J_plain es) = (\<forall>e \<in> set es. is_json (snd e))"
| "is_json _ = True"

fun height_le :: "nat \<Rightarrow> jvalue \<Rightarrow> bool" where
  "height_le n (J_array xs) = (case n of 0 \<Rightarrow> False | Suc m \<Rightarrow> \<forall>x \<in> set xs. height_le m x)"
| "height_le n (J_plain es) = (case n of 0 \<Rightarrow> False | Suc m \<Rightarrow> \<forall>e \<in> set es. height_le m (snd e))"
| "height_le n _ = True"

definition shown_ok :: "nat \<Rightarrow> jvalue \<Rightarrow> bool" where
  "shown_ok n j \<longleftrightarrow> is_json j \<and> height_le n j"

lemma shown_ok_simps [simp]:
  "shown_ok n (J_str s)" "shown_ok n J_null" "shown_ok n (J_num x)" "shown_ok n (J_bool b)" "shown_ok n (J_big i)"
  "shown_ok (Suc n) (J_array xs) \<longleftrightarrow> (\<forall>x \<in> set xs. shown_ok n x)"
  "shown_ok (Suc n) (J_plain es) \<longleftrightarrow> (\<forall>e \<in> set es. shown_ok n (snd e))"
  by (auto simp: shown_ok_def)

lemma sequence_set: "sequence rs = Ret xs \<Longrightarrow> x \<in> set xs \<Longrightarrow> Ret x \<in> set rs"
  by (induction rs arbitrary: xs rule: sequence.induct) (auto split: res.splits)

definition values_ok :: "(jvalue \<Rightarrow> bool) \<Rightarrow> (string \<times> jvalue) list \<Rightarrow> bool" where
  "values_ok P r \<longleftrightarrow> (\<forall>e \<in> set r. P (snd e))"

lemma values_ok_update: "values_ok P r \<Longrightarrow> P v \<Longrightarrow> values_ok P (AList.update k v r)"
  by (induction r) (auto simp: values_ok_def)

lemma union_part_ok:
  assumes "\<And>v j. conv v = Ret j \<Longrightarrow> P j" "\<And>s. P (J_str s)" "values_ok P r"
  shows "values_ok P (fst (union_part conv u r))"
  using assms by (auto simp: union_part_def Let_def values_ok_update split: option.splits xdr_union.splits res.splits sum.splits)

lemma walk_fields_ok:
  assumes "\<And>v j. conv v = Ret j \<Longrightarrow> P j" "\<And>s. P (J_str s)" "values_ok P r"
  shows "values_ok P (walk_fields conv fs r)"
  using assms(3) unfolding walk_fields_def
proof (induction fs arbitrary: r)
  case (Cons f fs)
  have "P (field_value conv x)" for x using assms(1,2) by (simp add: field_value_def decode_error_def split: res.splits)
  then have "values_ok P (case f of (k, a) \<Rightarrow> case a of None \<Rightarrow> r | Some x \<Rightarrow> AList.update k (field_value conv x) r)"
    using Cons.prems by (simp add: values_ok_update split: prod.splits option.splits)
  then show ?case using Cons.IH by simp
qed simp

lemma xdr_object_ok:
  assumes "\<And>v j. conv v = Ret j \<Longrightarrow> shown_ok n j"
  shows "shown_ok (Suc n) (xdr_object conv c u fs tx ts)"
proof -
  let ?r = "if c = [] then [] else [(''_type'', J_str (strip_xdr c))]"
  have u: "values_ok (shown_ok n) (fst (union_part conv u ?r))"
    by (rule union_part_ok[OF assms]) (simp_all add: values_ok_def)
  have "values_ok (shown_ok n) (walk_fields conv fs (fst (union_part conv u ?r)))"
    by (rule walk_fields_ok[OF assms _ u]) simp_all
  with u show ?thesis
    by (auto simp: xdr_object_def Let_def case_prod_beta values_ok_def split: option.splits res.splits)
qed

lemma xdrToJson_ok: "xdrToJson d v = Ret j \<Longrightarrow> shown_ok (Suc MAX_DEPTH - d) j"
proof (induction d v arbitrary: j rule: xdrToJson.induct)
  case (1 d v)
  show ?case
  proof (cases "MAX_DEPTH < d")
    case True
    then show ?thesis using 1(4) by (subst (asm) xdrToJson.simps) auto
  next
    case False
    then have d: "Suc MAX_DEPTH - d = Suc (Suc MAX_DEPTH - Suc d)" by simp
    note step = 1(4)[unfolded xdrToJson.simps[of d v]]
    show ?thesis
    proof (cases v)
      case (J_array xs)
      then obtain ys where ys: "sequence (map (xdrToJson (Suc d)) xs) = Ret ys" "j = J_array ys"
        using step False by (auto split: res.splits)
      have "shown_ok (Suc MAX_DEPTH - Suc d) y" if "y \<in> set ys" for y
        using sequence_set[OF ys(1) that] 1(1)[OF False J_array] by force
      then show ?thesis by (simp add: d ys(2))
    next
      case (J_plain es)
      then obtain ys where ys: "sequence (map (\<lambda>e. xdrToJson (Suc d) (snd e)) es) = Ret ys" "j = J_plain (zip (map fst es) ys)"
        using step False by (auto split: res.splits)
      have "shown_ok (Suc MAX_DEPTH - Suc d) y" if "y \<in> set ys" for y
        using sequence_set[OF ys(1) that] 1(2)[OF False J_plain] by force
      then show ?thesis by (auto simp: d ys(2) dest!: set_zip_rightD)
    next
      case (J_xdr c sc u fs tx ts)
      show ?thesis
      proof (cases "Option.bind sc scValToHuman")
        case None
        then have "j = xdr_object (\<lambda>x. xdrToJson (Suc d) x) c u fs tx ts" using step False J_xdr by simp
        then show ?thesis unfolding d using 1(3)[OF False J_xdr None] by (auto intro!: xdr_object_ok)
      next
        case (Some h)
        then show ?thesis using step False J_xdr by (auto simp: d)
      qed
    qed (use step False in \<open>auto simp: d\<close>)
  qed
qed

text \<open>
  C39: Whatever an XDR text decodes to, what is shown is plain data: no bytes, no accessors, and nested at most
  thirteen deep.
\<close>

theorem shown_data_plain:
  assumes "decodeXdr dec fromXDR x = Ret d"
  shows "is_json (dc_data d) \<and> height_le 13 (dc_data d)"
proof -
  have "\<exists>v. xdrToJson 0 v = Ret (dc_data d)" if "decode_with dec fromXDR x ts e = Ret d" for ts e
    using that by (induction ts arbitrary: e) (auto split: res.splits)
  from this[OF assms[unfolded decodeXdr_def]] show ?thesis by (auto dest!: xdrToJson_ok simp: shown_ok_def MAX_DEPTH_def)
qed

definition sample_dec :: "string \<Rightarrow> string \<Rightarrow> jvalue res" where
  "sample_dec t x = (if t = ''TransactionEnvelope'' then Ret (J_long 0 1) else Ret (J_array [J_bytes ''ab'']))"

theorem shown_data_plain_witness:
  "\<exists>d. decodeXdr sample_dec (\<lambda>_ _. Throw NonError) ''AAAA'' = Ret d \<and> is_json (dc_data d) \<and> height_le 13 (dc_data d)"
proof -
  obtain d where d: "decodeXdr sample_dec (\<lambda>_ _. Throw NonError) ''AAAA'' = Ret d"
    by (simp add: decodeXdr_def STRATEGIES_def sample_dec_def xdrToJson.simps MAX_DEPTH_def)
  from d shown_data_plain[OF d] show ?thesis by blast
qed

text \<open>
  The format shown is the first in the list under which the text decodes and converts.
\<close>

theorem first_format_wins:
  assumes "decodeXdr dec fromXDR x = Ret d"
  shows "\<exists>pre post v. STRATEGIES = pre @ dc_type d # post \<and> dec (dc_type d) x = Ret v \<and> xdrToJson 0 v = Ret (dc_data d)
    \<and> (\<forall>t \<in> set pre. \<forall>w j. dec t x = Ret w \<longrightarrow> xdrToJson 0 w \<noteq> Ret j)"
proof -
  have "\<exists>pre post v. ts = pre @ dc_type d # post \<and> dec (dc_type d) x = Ret v \<and> xdrToJson 0 v = Ret (dc_data d)
      \<and> (\<forall>t \<in> set pre. \<forall>w j. dec t x = Ret w \<longrightarrow> xdrToJson 0 w \<noteq> Ret j)"
    if "decode_with dec fromXDR x ts e = Ret d" for ts e
    using that
  proof (induction ts arbitrary: e)
    case (Cons t ts)
    show ?case
    proof (cases "case dec t x of Throw e \<Rightarrow> Throw e | Ret v \<Rightarrow> xdrToJson 0 v")
      case (Ret j)
      then obtain v where "dec t x = Ret v" "xdrToJson 0 v = Ret j" by (auto split: res.splits)
      then show ?thesis using Cons.prems by (intro exI[of _ "[]"] exI[of _ ts] exI[of _ v]) auto
    next
      case (Throw e')
      then have t: "\<forall>w j. dec t x = Ret w \<longrightarrow> xdrToJson 0 w \<noteq> Ret j" by auto
      obtain pre post v where "ts = pre @ dc_type d # post" "dec (dc_type d) x = Ret v" "xdrToJson 0 v = Ret (dc_data d)"
        "\<forall>t \<in> set pre. \<forall>w j. dec t x = Ret w \<longrightarrow> xdrToJson 0 w \<noteq> Ret j"
        using Cons.IH[of "Some e'"] Cons.prems Throw by auto
      with t show ?thesis by (intro exI[of _ "t # pre"] exI[of _ post] exI[of _ v]) auto
    qed
  qed simp
  from this[OF assms[unfolded decodeXdr_def]] show ?thesis .
qed

text \<open>A 128-bit integer given by its words is shown with its value.\<close>

theorem wide_integer_value:
  assumes "0 \<le> lo" "lo < 2 ^ 64"
  shows "scValToHuman (SC_wide (Some (Ret (hi, lo))) i128 u256 i256) = Some (show_int (hi * 2 ^ 64 + lo))"
proof -
  have "push_bit 64 hi + lo = or (push_bit 64 hi) lo"
  proof (rule disjunctive_add)
    fix n
    show "\<not> bit (push_bit 64 hi) n \<or> \<not> bit lo n"
    proof (cases "n < 64")
      case True
      then show ?thesis by (simp add: bit_push_bit_iff)
    next
      case False
      then have "lo < 2 ^ n" using assms(2) power_increasing[of 64 n "2::int"] by simp
      then show ?thesis using assms(1) by (simp add: bit_iff_odd)
    qed
  qed
  then show ?thesis by (simp add: wide_word_def join_words_def push_bit_eq_mult)
qed

text \<open>
  But every contract value has all four accessors, and those of the arms that are not set throw: so only unsigned 128-bit
  integers are shown, and a signed one, the type of token amounts, is not.
\<close>

theorem signed_wide_not_shown: "scValToHuman (SC_wide (Some (Throw e)) (Some (Ret w)) u256 i256) = None"
  by (simp add: wide_word_def)

text \<open>A two-word integer makes the conversion throw; in a field of an object it is shown as an error.\<close>

theorem long_is_an_error:
  assumes "d \<le> MAX_DEPTH"
  shows "\<exists>m. xdrToJson d (J_long hi lo) = Throw (Error m)
    \<and> field_value (xdrToJson d) (Ret (J_long hi lo)) = J_str (''[decode error: '' @ m @ '']'')"
  using assms by (simp add: xdrToJson.simps field_value_def decode_error_def Error_def)

text \<open>
  Parsing an envelope does not look at the network's passphrase, so the first of the two networks always succeeds:
  every transaction that has a summary is labelled as one of the test network.
\<close>

theorem always_testnet:
  assumes "\<And>n m tx. fromXDR n x = Ret tx \<Longrightarrow> fromXDR m x = Ret tx" "tryDecodeAsTransaction fromXDR x = Some s"
  shows "sm_network s = ''TESTNET''"
  using assms(2) assms(1)[of "''PUBLIC''" _ "''TESTNET''"]
  by (auto simp: tryDecodeAsTransaction_def NETWORKS_def split: res.splits)

section \<open>Properties of the dialog\<close>

lemma dialog_run_inv:
  assumes "\<And>e g g'. P g \<Longrightarrow> dialog_step e g = Some g' \<Longrightarrow> P g'"
  shows "P g \<Longrightarrow> dialog_run es g = Some g' \<Longrightarrow> P g'"
  by (induction es arbitrary: g) (auto simp: Option.bind_eq_Some_conv intro: assms)

definition dialog_inv :: "'p dialog \<Rightarrow> bool" where
  "dialog_inv g \<longleftrightarrow> dg_selectedXdr g = dg_xdr g \<and> length (filter (\<lambda>q. \<not> snd q) (dg_requests g)) \<le> 1
     \<and> (\<forall>q \<in> set (dg_requests g). snd q \<or> Some (fst q) = dg_username g \<and> dg_loading g)
     \<and> (truthy (dg_username g) \<and> \<not> dg_loading g \<and> dg_error g = None \<longrightarrow> dg_from g = dg_username g)"

lemma truthy_the: "truthy u \<Longrightarrow> Some (the u) = u"
  by (cases u) auto

lemma dialog_inv_step: "dialog_inv g \<Longrightarrow> dialog_step e g = Some g' \<Longrightarrow> dialog_inv g'"
proof (cases e)
  case (Payments_answered k r)
  assume i: "dialog_inv g" and "dialog_step e g = Some g'"
  then have k: "k < length (dg_requests g)"
    and g': "g' = on_payments (dg_requests g ! k) r (g\<lparr>dg_requests := take k (dg_requests g) @ drop (Suc k) (dg_requests g)\<rparr>)"
    using Payments_answered by (auto split: if_splits)
  have q: "snd (dg_requests g ! k) \<or> Some (fst (dg_requests g ! k)) = dg_username g \<and> dg_loading g"
    using i nth_mem[OF k] unfolding dialog_inv_def by blast
  define rest where "rest = take k (dg_requests g) @ drop (Suc k) (dg_requests g)"
  have sub: "set rest \<subseteq> set (dg_requests g)" unfolding rest_def by (auto dest: in_set_takeD in_set_dropD)
  have "filter (\<lambda>q. \<not> snd q) (dg_requests g) = filter (\<lambda>q. \<not> snd q) (take k (dg_requests g) @ dg_requests g ! k # drop (Suc k) (dg_requests g))"
    using id_take_nth_drop[OF k] by simp
  then have len: "length (filter (\<lambda>q. \<not> snd q) (dg_requests g))
      = length (filter (\<lambda>q. \<not> snd q) rest) + (if snd (dg_requests g ! k) then 0 else 1)" by (simp add: rest_def)
  show "dialog_inv g'"
  proof (cases "snd (dg_requests g ! k)")
    case True
    then show ?thesis using i sub len unfolding g' rest_def[symmetric] by (auto simp: dialog_inv_def on_payments_def)
  next
    case False
    then have "filter (\<lambda>q. \<not> snd q) rest = []" using i len by (simp add: dialog_inv_def)
    then have "\<forall>x \<in> set rest. snd x" by (simp add: filter_empty_conv)
    then show ?thesis using i q False \<open>filter (\<lambda>q. \<not> snd q) rest = []\<close> unfolding g' rest_def[symmetric]
      by (auto simp: dialog_inv_def on_payments_def split: res.splits)
  qed
qed (auto simp: dialog_inv_def request_payments_def show_xdr_def escape_pressed_def Let_def truthy_the split: if_splits)

text \<open>
  The payments shown are those of the user the dialog is for, whatever answers come late; and the way back
  from an XDR text is never offered, since the text comes from outside only.
\<close>

theorem payments_of_shown_user:
  assumes "dialog_run es (dialog_open u x) = Some g" "truthy (dg_username g)" "\<not> dg_loading g" "dg_error g = None"
  shows "dg_from g = dg_username g \<and> \<not> back_shown g"
proof -
  have "dialog_inv (dialog_open u x :: 'a dialog)"
    by (simp add: dialog_inv_def dialog_open_def request_payments_def show_xdr_def Let_def truthy_the)
  then have i: "dialog_inv g" by (rule dialog_run_inv[where P = dialog_inv, rotated]) (rule assms(1), rule dialog_inv_step)
  have "dg_selectedXdr g = dg_xdr g" using i unfolding dialog_inv_def by (rule conjunct1)
  then have "\<not> back_shown g" by (simp add: back_shown_def)
  moreover have "dg_from g = dg_username g" using i assms(2-4) unfolding dialog_inv_def by blast
  ultimately show ?thesis by blast
qed

text \<open>An error stays: after a failed request the dialog shows it for the next user, whose payments arrived.\<close>

theorem old_error_stays:
  assumes "truthy (Some a)" "truthy (Some b)" "a \<noteq> b" "m \<noteq> []"
  shows "\<exists>g. dialog_run [Payments_answered 0 (Throw (Err m c s)), New_username (Some b), Payments_answered 0 (Ret ps)]
       (dialog_open (Some a) None) = Some g \<and> dg_from g = Some b \<and> dialog_view_of g = View_error m"
  using assms by (simp add: dialog_open_def request_payments_def show_xdr_def on_payments_def dialog_view_of_def)

end
