(* ===== verification/Username_Screen.thy ===== *)
theory Username_Screen
  imports Platform Js_Uri "HOL-Library.AList"
begin

text \<open>
  Choosing a username, \<open>app/username.tsx\<close>, with the debounce of \<open>useDebounce.ts\<close> as this screen uses it.
  Main results: the format check accepts exactly the names of three to twenty letters, digits and underscores;
  every failure of the check counts as available; and the check is cancelled by the rendering that follows
  the key that started it, so the screen never lets the user continue, unless an \<open>@\<close> is typed in front of the name.
\<close>

section \<open>Format\<close>

definition MIN_USERNAME_LENGTH :: nat where "MIN_USERNAME_LENGTH = 3"
definition MAX_USERNAME_LENGTH :: nat where "MAX_USERNAME_LENGTH = 20"

text \<open>The length in UTF-16 units of a text given by its UTF-8 bytes.\<close>

definition js_length :: "string \<Rightarrow> nat" where
  "js_length s = length (filter (\<lambda>c. \<not> (128 \<le> (of_char c :: nat) \<and> (of_char c :: nat) < 192)) s) + length (filter (\<lambda>c. 240 \<le> (of_char c :: nat)) s)"

definition name_char :: "char \<Rightarrow> bool" where
  "name_char c \<longleftrightarrow> (let n = of_char c :: nat in 48 \<le> n \<and> n \<le> 57 \<or> 65 \<le> n \<and> n \<le> 90 \<or> 97 \<le> n \<and> n \<le> 122 \<or> n = 95)"

definition validateUsernameFormat :: "string \<Rightarrow> bool \<times> string option" where
  "validateUsernameFormat u = (if u = [] then (False, None)
     else if js_length u < MIN_USERNAME_LENGTH then (False, Some ''Username must be at least 3 characters'')
     else if MAX_USERNAME_LENGTH < js_length u then (False, Some ''Username must be at most 20 characters'')
     else if \<not> list_all name_char u then (False, Some ''Username can only contain letters, numbers, and underscores'')
     else (True, None))"

section \<open>Availability\<close>

text \<open>\<open>get\<close> is \<open>fetchWithRetry\<close> with method GET; the JSON is \<open>available\<close> when it is a boolean.\<close>

definition checkUsernameAvailabilityApi ::
  "(string \<Rightarrow> ('w, bool option response) io) \<Rightarrow> string \<Rightarrow> string \<Rightarrow> ('w, bool) io" where
  "checkUsernameAvailabilityApi get API_BASE username = try_catch
     (bnd (get (API_BASE @ ''/api/v1/users/check-username?username='' @ encodeURIComponent username)) (\<lambda>res.
        if status res = 404 then ret True
        else if ok res then (case json res of Ret (Some b) \<Rightarrow> ret b | _ \<Rightarrow> ret True)
        else ret True))
     (\<lambda>_. ret True)"

section \<open>The screen\<close>

text \<open>
  The hooks, the pending timer of the debounce (in a ref), the checks in progress, and all checks made so far.
\<close>

record uname =
  un_username :: string
  un_formatError :: "string option"
  un_isChecking :: bool
  un_isAvailable :: "bool option"
  un_submitting :: bool
  un_timer :: "string option"
  un_checks :: "string list"
  un_made :: "string list"

definition uname_mounted :: uname where
  "uname_mounted = \<lparr>un_username = [], un_formatError = None, un_isChecking = False, un_isAvailable = None, un_submitting = False,
     un_timer = None, un_checks = [], un_made = []\<rparr>"

definition strip_at :: "string \<Rightarrow> string" where
  "strip_at t = (case t of c # r \<Rightarrow> if c = CHR ''@'' then r else t | [] \<Rightarrow> [])"

definition handleChangeText :: "string \<Rightarrow> uname \<Rightarrow> uname" where
  "handleChangeText t s = (let cleaned = strip_at t; s = s\<lparr>un_username := cleaned\<rparr>; v = validateUsernameFormat cleaned in
     if cleaned = [] then s\<lparr>un_formatError := None, un_isChecking := False, un_isAvailable := None\<rparr>
     else if \<not> fst v then s\<lparr>un_formatError := snd v, un_isChecking := False, un_isAvailable := None\<rparr>
     else s\<lparr>un_formatError := None, un_isChecking := True, un_isAvailable := None, un_timer := Some cleaned\<rparr>)"

text \<open>
  Rendering, when a hook has changed: the callback given to \<open>useDebounce\<close> is a new function, so \<open>debouncedCheck\<close>
  is, and the clean-up of the effect on it cancels the timer.
\<close>

definition hooks :: "uname \<Rightarrow> string \<times> string option \<times> bool \<times> bool option \<times> bool" where
  "hooks s = (un_username s, un_formatError s, un_isChecking s, un_isAvailable s, un_submitting s)"

definition rendered :: "uname \<Rightarrow> uname \<Rightarrow> uname" where
  "rendered s s' = (if hooks s' = hooks s then s' else s'\<lparr>un_timer := None\<rparr>)"

definition timer_fires :: "uname \<Rightarrow> uname" where
  "timer_fires s = (case un_timer s of None \<Rightarrow> s
     | Some n \<Rightarrow> s\<lparr>un_timer := None, un_checks := un_checks s @ [n], un_made := un_made s @ [n]\<rparr>)"

definition on_checked :: "bool \<Rightarrow> uname \<Rightarrow> uname" where
  "on_checked available s = s\<lparr>un_isAvailable := Some available, un_isChecking := False\<rparr>"

definition canContinue :: "uname \<Rightarrow> bool" where
  "canContinue s \<longleftrightarrow> MIN_USERNAME_LENGTH \<le> js_length (trim (un_username s)) \<and> \<not> truthy (un_formatError s) \<and> \<not> un_isChecking s
     \<and> un_isAvailable s = Some True \<and> \<not> un_submitting s"

datatype uname_event = Type string | Timer_fires | Checked nat bool | Continue_press | Saved

fun uname_step :: "uname_event \<Rightarrow> uname \<Rightarrow> uname option" where
  "uname_step (Type t) s = Some (rendered s (handleChangeText t s))"
| "uname_step Timer_fires s = (if un_timer s = None then None else Some (timer_fires s))"
| "uname_step (Checked k a) s = (if k < length (un_checks s)
     then Some (rendered s (on_checked a (s\<lparr>un_checks := take k (un_checks s) @ drop (Suc k) (un_checks s)\<rparr>))) else None)"
| "uname_step Continue_press s = (if canContinue s then Some (rendered s (s\<lparr>un_submitting := True\<rparr>)) else None)"
| "uname_step Saved s = (if un_submitting s then Some (rendered s (s\<lparr>un_submitting := False\<rparr>)) else None)"

fun uname_run :: "uname_event list \<Rightarrow> uname \<Rightarrow> uname option" where
  "uname_run [] s = Some s"
| "uname_run (e # es) s = Option.bind (uname_step e s) (uname_run es)"

section \<open>Saving\<close>

text \<open>What the store holds: a bare text, or a profile as an object; anything else does not parse to an object.\<close>

datatype stored = Bare string | Profile "(string \<times> string) list"

definition USERNAME_STORAGE_KEY :: string where "USERNAME_STORAGE_KEY = ''user_username''"

text \<open>\<open>go\<close> is the navigation to the home screen, which both branches end with.\<close>

definition handleContinue ::
  "(string \<Rightarrow> 'w \<Rightarrow> stored option res) \<Rightarrow> (string \<Rightarrow> stored \<Rightarrow> ('w, unit) io) \<Rightarrow> ('w, unit) io \<Rightarrow> string \<Rightarrow> ('w, unit) io" where
  "handleContinue getItem setItem go username = (let cleanName = trim username in
     bnd (try_catch
       (bnd (setItem USERNAME_STORAGE_KEY (Bare cleanName)) (\<lambda>_.
        bnd (reads (getItem ''user_profile'')) (\<lambda>existing. case existing of
            Some (Profile fs) \<Rightarrow> setItem ''user_profile'' (Profile (AList.update ''username'' cleanName fs))
          | Some (Bare t) \<Rightarrow> if t = [] then setItem ''user_profile'' (Profile [(''username'', cleanName)])
              else throw (Error ''not an object'')
          | None \<Rightarrow> setItem ''user_profile'' (Profile [(''username'', cleanName)]))))
       (\<lambda>_. ret ()))
     (\<lambda>_. go))"

section \<open>Properties of the format and the check\<close>

lemma name_char_plain: "name_char c \<Longrightarrow> \<not> (128 \<le> (of_char c :: nat)) \<and> \<not> is_ws c"
  by (auto simp: name_char_def Let_def is_ws_def)

lemma js_length_names: "list_all name_char u \<Longrightarrow> js_length u = length u"
proof -
  assume u: "list_all name_char u"
  have "filter (\<lambda>c. \<not> (128 \<le> (of_char c :: nat) \<and> (of_char c :: nat) < 192)) u = u"
    using u name_char_plain by (auto simp: list_all_iff filter_id_conv)
  moreover have "filter (\<lambda>c. 240 \<le> (of_char c :: nat)) u = []"
    using u name_char_plain by (fastforce simp: list_all_iff filter_empty_conv)
  ultimately show ?thesis by (simp add: js_length_def)
qed

text \<open>A name passes exactly when it has three to twenty characters, all of them letters, digits or underscores; and
  only a name that is not empty fails with a message.\<close>

theorem username_format:
  "(fst (validateUsernameFormat u) \<longleftrightarrow> list_all name_char u \<and> 3 \<le> length u \<and> length u \<le> 20)
   \<and> (snd (validateUsernameFormat u) = None \<longleftrightarrow> u = [] \<or> fst (validateUsernameFormat u))"
  using js_length_names[of u] by (auto simp: validateUsernameFormat_def MIN_USERNAME_LENGTH_def MAX_USERNAME_LENGTH_def)

text \<open>
  A name counts as taken only when the backend answers positively that it is; a failure of any kind, a refusal and an
  answer without the field count as available.
\<close>

theorem taken_only_when_told:
  "fst (checkUsernameAvailabilityApi get B u w) = Ret False
   \<longleftrightarrow> (\<exists>res w'. get (B @ ''/api/v1/users/check-username?username='' @ encodeURIComponent u) w = (Ret res, w')
        \<and> ok res \<and> json res = Ret (Some False))"
  by (auto simp: checkUsernameAvailabilityApi_def try_catch_apply bnd_apply ok_def split: prod.splits res.splits option.splits if_splits)

section \<open>Properties of the screen\<close>

text \<open>The texts typed differ from the name shown, once a leading \<open>@\<close> is taken off.\<close>

fun new_texts :: "uname_event list \<Rightarrow> uname \<Rightarrow> bool" where
  "new_texts [] s = True"
| "new_texts (e # es) s = ((case e of Type t \<Rightarrow> strip_at t \<noteq> un_username s | _ \<Rightarrow> True)
     \<and> (case uname_step e s of None \<Rightarrow> True | Some s' \<Rightarrow> new_texts es s'))"

definition stuck :: "uname \<Rightarrow> bool" where
  "stuck s \<longleftrightarrow> un_timer s = None \<and> un_checks s = [] \<and> un_made s = [] \<and> un_isAvailable s = None"

lemma stuck_step:
  assumes "stuck s" "uname_step e s = Some s'" "case e of Type t \<Rightarrow> strip_at t \<noteq> un_username s | _ \<Rightarrow> True"
  shows "stuck s'"
  using assms
  by (cases e) (auto simp: stuck_def rendered_def hooks_def handleChangeText_def Let_def canContinue_def split: if_splits)

text \<open>
  Whatever is typed, no check is ever made and the user can never continue: every text that changes the name makes the
  screen render, which cancels the timer of the check it has just started.
\<close>

theorem check_never_made:
  assumes "uname_run es uname_mounted = Some s" "new_texts es uname_mounted"
  shows "un_made s = [] \<and> \<not> canContinue s"
proof -
  have "stuck s'" if "uname_run es s = Some s'" "new_texts es s" "stuck s" for s s'
    using that
  proof (induction es arbitrary: s)
    case (Cons e es)
    then obtain s1 where s1: "uname_step e s = Some s1" "uname_run es s1 = Some s'" by (auto simp: Option.bind_eq_Some_conv)
    then show ?case using Cons.IH[OF s1(2)] Cons.prems(2) stuck_step[OF Cons.prems(3) s1(1)] by simp
  qed simp
  from this[OF assms] have "stuck s" by (simp add: stuck_def uname_mounted_def)
  then show ?thesis by (simp add: stuck_def canContinue_def)
qed

theorem check_never_made_witness:
  "\<exists>s. uname_run [Type ''ali'', Type ''alice''] uname_mounted = Some s \<and> un_isChecking s \<and> un_made s = [] \<and> \<not> canContinue s"
proof -
  have "validateUsernameFormat ''ali'' = (True, None)" "validateUsernameFormat ''alice'' = (True, None)" by code_simp+
  then obtain s where r: "uname_run [Type ''ali'', Type ''alice''] uname_mounted = Some s" "un_isChecking s"
    "new_texts [Type ''ali'', Type ''alice''] uname_mounted"
    by (simp add: uname_mounted_def rendered_def hooks_def handleChangeText_def strip_at_def Let_def)
  from check_never_made[OF r(1,3)] r show ?thesis by blast
qed

text \<open>
  Typing an \<open>@\<close> in front of the name changes no hook, so its timer survives; and then an answer is not matched to
  the name: the screen goes on with a name that was never checked.
\<close>

theorem unchecked_name_continues:
  "\<exists>s. uname_run [Type ''alice'', Type ''@alice'', Timer_fires, Type ''bobby'', Checked 0 True] uname_mounted = Some s
     \<and> un_username s = ''bobby'' \<and> un_made s = [''alice''] \<and> canContinue s"
proof -
  have "map_option (\<lambda>s. (un_username s, un_made s, canContinue s))
    (uname_run [Type ''alice'', Type ''@alice'', Timer_fires, Type ''bobby'', Checked 0 True] uname_mounted) = Some (''bobby'', [''alice''], True)"
    by code_simp
  then show ?thesis by auto
qed

section \<open>Properties of saving\<close>

text \<open>Whatever the store does, the press leads to the home screen.\<close>

theorem continue_always_leaves: "\<exists>w1. handleContinue getItem setItem go u w = go w1"
  by (auto simp: handleContinue_def Let_def bnd_apply try_catch_apply split: prod.splits res.splits)

text \<open>What the saved name rests on: the laws of the store.\<close>

locale name_store = kv_store getItem setItem removeItem
  for getItem :: "string \<Rightarrow> 'w \<Rightarrow> stored option res"
    and setItem :: "string \<Rightarrow> stored \<Rightarrow> ('w, unit) io"
    and removeItem :: "string \<Rightarrow> ('w, unit) io"
begin

lemma profile_keeps_name: "getItem USERNAME_STORAGE_KEY (snd (setItem ''user_profile'' v w)) = getItem USERNAME_STORAGE_KEY w"
proof -
  obtain r w' where r: "setItem ''user_profile'' v w = (r, w')" by fastforce
  then show ?thesis using get_set_other get_set_fail by (cases r) (auto simp: USERNAME_STORAGE_KEY_def)
qed

lemma saved_name:
  assumes "handleContinue getItem setItem (ret ()) u w = (r, w')" "is_Ret (fst (setItem USERNAME_STORAGE_KEY (Bare (trim u)) w))"
  shows "r = Ret () \<and> getItem USERNAME_STORAGE_KEY w' = Ret (Some (Bare (trim u)))"
proof -
  obtain w1 where s: "setItem USERNAME_STORAGE_KEY (Bare (trim u)) w = (Ret (), w1)"
    using assms(2) by (cases "setItem USERNAME_STORAGE_KEY (Bare (trim u)) w"; cases "fst (setItem USERNAME_STORAGE_KEY (Bare (trim u)) w)") auto
  have n: "getItem USERNAME_STORAGE_KEY w1 = Ret (Some (Bare (trim u)))" by (rule get_set[OF s])
  have "w' = w1 \<or> (\<exists>v. w' = snd (setItem ''user_profile'' v w1))" "r = Ret ()"
    using assms(1) s by (auto simp: handleContinue_def Let_def bnd_apply try_catch_apply split: prod.splits res.splits option.splits stored.splits if_splits;
      metis snd_conv)+
  then show ?thesis using n profile_keeps_name by auto
qed

end

interpretation dev_names: name_store dev_getItem dev_setItem dev_removeItem
  by unfold_locales

text \<open>On the device, a press whose first write succeeds stores the trimmed name, whatever else fails.\<close>

theorem name_saved_on_device:
  assumes "handleContinue dev_getItem dev_setItem (ret ()) u w = (r, w')" "is_Ret (fst (dev_setItem USERNAME_STORAGE_KEY (Bare (trim u)) w))"
  shows "r = Ret () \<and> dev_getItem USERNAME_STORAGE_KEY w' = Ret (Some (Bare (trim u)))"
  using assms by (rule dev_names.saved_name)

end
