(* ===== verification/Fund_Screens.thy ===== *)
theory Fund_Screens
  imports Js_Arith Js_Locale Platform
begin

text \<open>
  Funding: bridging assets from other chains, \<open>app/fund.tsx\<close>, and the deposit drawer of the yield vault,
  \<open>app/yield-transaction.tsx\<close>.  The requests go through \<open>fetchWithRetry\<close> (\<open>Retry\<close>), which rejects answers that are not positive.
  Main results: at most one bridge transfer is under way as long as the backend reports steps it knows; but an
  amount can be bridged under the quote of another, a late report undoes the success, and a deposit can be made twice.
\<close>

section \<open>The bridge screen\<close>

definition NETWORKS_bridge :: "(string \<times> string) list" where
  "NETWORKS_bridge = [(''solana'', ''Solana''), (''ethereum'', ''Ethereum''), (''bsc'', ''BNB Chain''), (''polygon'', ''Polygon'')]"

definition TOKENS :: "(string \<times> string) list" where
  "TOKENS = [(''usdc'', ''USDC''), (''usdt'', ''USDT''), (''sol'', ''SOL''), (''eth'', ''ETH'')]"

record BridgeQuote =
  bq_fee :: string
  bq_receiveAmount :: string
  bq_route :: string
  bq_estimatedTime :: js_num
  bq_bridgeId :: string

record BridgeStatus =
  bg_step :: nat
  bg_message :: string
  bg_confirmations :: js_num
  bg_requiredConfirmations :: js_num
  bg_completed :: bool
  bg_txHash :: "string option"

definition BRIDGE_STEPS :: "string list" where "BRIDGE_STEPS = [''init'', ''lock'', ''relay'', ''receive'']"

text \<open>What a quote is asked for: network, token and amount.\<close>

type_synonym inputs = "string \<times> string \<times> string"

text \<open>
  The screen with its timers and requests: \<open>fn_timer\<close> is the debounce of the quote, \<open>fn_quoting\<close> the quotes asked for,
  \<open>fn_initiating\<close> the transfers being initiated with the identifier of their quote, \<open>fn_interval\<close> the transfer that is
  polled by the interval in \<open>pollingRef\<close>, \<open>fn_leaked\<close> those polled by intervals that another has replaced there, \<open>fn_polls\<close> the polls in progress, \<open>fn_initiated\<close> every transfer asked for.
\<close>

record fund =
  fn_inputs :: inputs
  fn_loadingQuote :: bool
  fn_quote :: "BridgeQuote option"
  fn_error :: string
  fn_bridgeStep :: nat
  fn_stepMessage :: string
  fn_status :: "BridgeStatus option"
  fn_bridgeId :: "string option"
  fn_interval :: "string option"
  fn_leaked :: "string list"
  fn_timer :: "inputs option"
  fn_quoting :: "inputs list"
  fn_initiating :: "(inputs \<times> string) list"
  fn_polls :: "string list"
  fn_initiated :: "(inputs \<times> string) list"
  fn_mounted :: bool

definition fund_mounted :: fund where
  "fund_mounted = \<lparr>fn_inputs = (''solana'', ''usdc'', []), fn_loadingQuote = False, fn_quote = None, fn_error = [], fn_bridgeStep = 0,
     fn_stepMessage = [], fn_status = None, fn_bridgeId = None, fn_interval = None, fn_leaked = [], fn_timer = None, fn_quoting = [],
     fn_initiating = [], fn_polls = [], fn_initiated = [], fn_mounted = True\<rparr>"

definition amount_positive :: "string \<Rightarrow> bool" where
  "amount_positive a \<longleftrightarrow> a \<noteq> [] \<and> num_less (Fin 0) (parseFloat a)"

text \<open>A press on a network or token, or a key in the amount; the effect runs when the inputs have changed.\<close>

definition set_inputs :: "inputs \<Rightarrow> fund \<Rightarrow> fund" where
  "set_inputs i s = (let s' = s\<lparr>fn_inputs := i, fn_quote := None\<rparr> in
     if i = fn_inputs s then s'
     else s'\<lparr>fn_error := [], fn_timer := (if amount_positive (snd (snd i)) then Some i else None)\<rparr>)"

definition fetchQuote :: "inputs \<Rightarrow> fund \<Rightarrow> fund" where
  "fetchQuote i s = (if snd (snd i) = [] \<or> num_le (parseFloat (snd (snd i))) (Fin 0) then s
     else s\<lparr>fn_loadingQuote := True, fn_error := [], fn_quoting := fn_quoting s @ [i]\<rparr>)"

definition on_quote :: "BridgeQuote res \<Rightarrow> fund \<Rightarrow> fund" where
  "on_quote r s = (case r of Ret q \<Rightarrow> s\<lparr>fn_quote := Some q\<rparr>
     | Throw _ \<Rightarrow> s\<lparr>fn_error := ''Failed to fetch bridge quote. Please try again.''\<rparr>)\<lparr>fn_loadingQuote := False\<rparr>"

text \<open>The form is shown at step 0, and the button with the quote, when none is being loaded.\<close>

definition form_shown :: "fund \<Rightarrow> bool" where
  "form_shown s \<longleftrightarrow> fn_mounted s \<and> fn_bridgeStep s = 0"

definition start_shown :: "fund \<Rightarrow> bool" where
  "start_shown s \<longleftrightarrow> form_shown s \<and> \<not> fn_loadingQuote s \<and> fn_quote s \<noteq> None"

definition startBridge :: "fund \<Rightarrow> fund" where
  "startBridge s = (case fn_quote s of None \<Rightarrow> s
     | Some q \<Rightarrow> s\<lparr>fn_stepMessage := ''1. Initiating transfer...'', fn_bridgeStep := 1,
         fn_initiating := fn_initiating s @ [(fn_inputs s, bq_bridgeId q)], fn_initiated := fn_initiated s @ [(fn_inputs s, bq_bridgeId q)]\<rparr>)"

text \<open>The identifier is \<open>data.bridgeId || data.id\<close>, and the text \<open>undefined\<close> in a poll when there is neither.\<close>

definition on_initiated :: "string res \<Rightarrow> fund \<Rightarrow> fund" where
  "on_initiated r s = (case r of
       Ret i \<Rightarrow> s\<lparr>fn_bridgeId := Some i, fn_stepMessage := ''2. Awaiting lock confirmations...'', fn_interval := Some i,
         fn_leaked := fn_leaked s @ (case fn_interval s of None \<Rightarrow> [] | Some j \<Rightarrow> [j])\<rparr>
     | Throw _ \<Rightarrow> s\<lparr>fn_stepMessage := ''Bridge initiation failed. Please try again.'', fn_bridgeStep := 0\<rparr>)"

definition step_after :: "nat \<Rightarrow> nat" where
  "step_after k = (if k < length BRIDGE_STEPS then min (Suc k) (length BRIDGE_STEPS) else 0)"

definition on_status :: "BridgeStatus res \<Rightarrow> fund \<Rightarrow> fund" where
  "on_status r s = (case r of Throw _ \<Rightarrow> s
     | Ret d \<Rightarrow> let s1 = s\<lparr>fn_status := Some d, fn_stepMessage := bg_message d, fn_bridgeStep := step_after (bg_step d)\<rparr> in
         if bg_completed d then s1\<lparr>fn_bridgeStep := length BRIDGE_STEPS, fn_interval := None\<rparr> else s1)"

definition getStepIndex :: "fund \<Rightarrow> nat" where
  "getStepIndex s = (case fn_status s of None \<Rightarrow> min (fn_bridgeStep s) (length BRIDGE_STEPS)
     | Some d \<Rightarrow> min (Suc (bg_step d)) (length BRIDGE_STEPS))"

definition done_shown :: "fund \<Rightarrow> bool" where
  "done_shown s \<longleftrightarrow> fn_bridgeStep s \<noteq> 0 \<and> (case fn_status s of None \<Rightarrow> False | Some d \<Rightarrow> bg_completed d)"

text \<open>Leaving clears the interval and the debounce.\<close>

definition leave_fund :: "fund \<Rightarrow> fund" where
  "leave_fund s = s\<lparr>fn_mounted := False, fn_interval := None, fn_timer := None\<rparr>"

datatype fund_event =
    Choose_network string
  | Choose_token string
  | Type_amount string
  | Quote_timer
  | Quote_answered nat "BridgeQuote res"
  | Start
  | Initiated nat "string res"
  | Poll_tick
  | Leaked_tick nat
  | Status_answered nat "BridgeStatus res"
  | Leave_screen

definition without :: "nat \<Rightarrow> 'a list \<Rightarrow> 'a list" where
  "without k xs = take k xs @ drop (Suc k) xs"

fun fund_step :: "fund_event \<Rightarrow> fund \<Rightarrow> fund option" where
  "fund_step (Choose_network n) s = (if form_shown s then Some (set_inputs (n, snd (fn_inputs s)) s) else None)"
| "fund_step (Choose_token t) s = (if form_shown s then Some (set_inputs (fst (fn_inputs s), t, snd (snd (fn_inputs s))) s) else None)"
| "fund_step (Type_amount a) s = (if form_shown s then Some (set_inputs (fst (fn_inputs s), fst (snd (fn_inputs s)), a) s) else None)"
| "fund_step Quote_timer s = (case fn_timer s of None \<Rightarrow> None | Some i \<Rightarrow> Some (fetchQuote i (s\<lparr>fn_timer := None\<rparr>)))"
| "fund_step (Quote_answered k r) s = (if k < length (fn_quoting s) then Some (on_quote r (s\<lparr>fn_quoting := without k (fn_quoting s)\<rparr>)) else None)"
| "fund_step Start s = (if start_shown s then Some (startBridge s) else None)"
| "fund_step (Initiated k r) s = (if k < length (fn_initiating s) then Some (on_initiated r (s\<lparr>fn_initiating := without k (fn_initiating s)\<rparr>)) else None)"
| "fund_step Poll_tick s = (case fn_interval s of None \<Rightarrow> None | Some i \<Rightarrow> Some (s\<lparr>fn_polls := fn_polls s @ [i]\<rparr>))"
| "fund_step (Leaked_tick k) s = (if k < length (fn_leaked s) then Some (s\<lparr>fn_polls := fn_polls s @ [fn_leaked s ! k]\<rparr>) else None)"
| "fund_step (Status_answered k r) s = (if k < length (fn_polls s) then Some (on_status r (s\<lparr>fn_polls := without k (fn_polls s)\<rparr>)) else None)"
| "fund_step Leave_screen s = (if fn_mounted s then Some (leave_fund s) else None)"

fun fund_run :: "fund_event list \<Rightarrow> fund \<Rightarrow> fund option" where
  "fund_run [] s = Some s"
| "fund_run (e # es) s = Option.bind (fund_step e s) (fund_run es)"

section \<open>The deposit drawer\<close>

text \<open>The drawer with the biometric prompts and the deposits in progress; \<open>dp_enabled\<close> is \<open>biometric.enabled\<close>.\<close>

record deposit =
  dp_depositAmount :: string
  dp_isProcessing :: bool
  dp_enabled :: bool
  dp_prompts :: "js_num list"
  dp_confirms :: "js_num list"

definition parsedAmount :: "deposit \<Rightarrow> js_num" where
  "parsedAmount s = (let v = Number (dp_depositAmount s) in if v = NaN \<or> num_le v (Fin 0) then Fin 0 else v)"

definition projectedAnnualReturn :: "js_num \<Rightarrow> deposit \<Rightarrow> js_num" where
  "projectedAnnualReturn apy s = num_div (num_mul (parsedAmount s) apy) (Fin 100)"

definition projectedMonthlyReturn :: "js_num \<Rightarrow> deposit \<Rightarrow> js_num" where
  "projectedMonthlyReturn apy s = num_div (projectedAnnualReturn apy s) (Fin 12)"

definition naira :: "js_num \<Rightarrow> string" where
  "naira v = [CHR 0xE2, CHR 0x82, CHR 0xA6] @ toLocale 2 2 v"

definition canConfirm :: "deposit \<Rightarrow> bool" where
  "canConfirm s \<longleftrightarrow> num_less (Fin 0) (parsedAmount s) \<and> \<not> dp_isProcessing s"

definition handleAmountChange :: "string \<Rightarrow> deposit \<Rightarrow> deposit" where
  "handleAmountChange t s = s\<lparr>dp_depositAmount := filter (\<lambda>c. is_digit c \<or> c = CHR ''.'') t\<rparr>"

definition start_deposit :: "js_num \<Rightarrow> deposit \<Rightarrow> deposit" where
  "start_deposit a s = s\<lparr>dp_isProcessing := True, dp_confirms := dp_confirms s @ [a]\<rparr>"

definition handleConfirm :: "deposit \<Rightarrow> deposit" where
  "handleConfirm s = (if \<not> canConfirm s then s
     else if dp_enabled s then s\<lparr>dp_prompts := dp_prompts s @ [parsedAmount s]\<rparr>
     else start_deposit (parsedAmount s) s)"

datatype deposit_event = Amount_typed string | Confirm_pressed | Prompt_answered nat bool | Deposit_done nat

fun deposit_step :: "deposit_event \<Rightarrow> deposit \<Rightarrow> deposit option" where
  "deposit_step (Amount_typed t) s = Some (handleAmountChange t s)"
| "deposit_step Confirm_pressed s = (if canConfirm s then Some (handleConfirm s) else None)"
| "deposit_step (Prompt_answered k b) s = (if k < length (dp_prompts s)
     then Some ((if b then start_deposit (dp_prompts s ! k) else (\<lambda>s. s)) (s\<lparr>dp_prompts := without k (dp_prompts s)\<rparr>)) else None)"
| "deposit_step (Deposit_done k) s = (if k < length (dp_confirms s)
     then Some (s\<lparr>dp_confirms := without k (dp_confirms s), dp_isProcessing := False\<rparr>) else None)"

fun deposit_run :: "deposit_event list \<Rightarrow> deposit \<Rightarrow> deposit option" where
  "deposit_run [] s = Some s"
| "deposit_run (e # es) s = Option.bind (deposit_step e s) (deposit_run es)"

section \<open>Properties of the bridge\<close>

text \<open>The backend reports a step that the screen knows.\<close>

definition known_steps :: "fund_event list \<Rightarrow> bool" where
  "known_steps es \<longleftrightarrow> (\<forall>k d. Status_answered k (Ret d) \<in> set es \<longrightarrow> bg_step d < 4)"

definition fund_inv :: "fund \<Rightarrow> bool" where
  "fund_inv s \<longleftrightarrow> length (fn_initiating s) \<le> 1 \<and> fn_leaked s = []
     \<and> (fn_bridgeStep s = 0 \<longrightarrow> fn_initiating s = [] \<and> fn_interval s = None \<and> fn_polls s = [])
     \<and> (fn_initiating s \<noteq> [] \<longrightarrow> fn_interval s = None \<and> fn_polls s = [])"

lemma without_one: "length xs \<le> 1 \<Longrightarrow> k < length xs \<Longrightarrow> without k xs = []"
  by (cases xs) (auto simp: without_def)

lemma without_subset: "set (without k xs) \<subseteq> set xs"
  by (auto simp: without_def dest: in_set_takeD in_set_dropD)

lemma fund_inv_step:
  assumes "fund_inv s" "fund_step e s = Some s'" "\<forall>k d. e = Status_answered k (Ret d) \<longrightarrow> bg_step d < 4"
  shows "fund_inv s'"
proof (cases e)
  case (Initiated k r)
  then have k: "k < length (fn_initiating s)" using assms(2) by (auto split: if_splits)
  then have "without k (fn_initiating s) = []" using assms(1) by (auto simp: fund_inv_def intro: without_one)
  moreover have "fn_bridgeStep s \<noteq> 0" "fn_interval s = None" "fn_polls s = []" "fn_leaked s = []" using assms(1) k by (auto simp: fund_inv_def)
  ultimately show ?thesis using assms(2) Initiated k by (auto simp: fund_inv_def on_initiated_def split: res.splits)
next
  case (Status_answered k r)
  then have k: "k < length (fn_polls s)" using assms(2) by (auto split: if_splits)
  then have "fn_bridgeStep s \<noteq> 0" "fn_initiating s = []" "fn_leaked s = []" using assms(1) by (auto simp: fund_inv_def)
  then show ?thesis using assms(2,3) Status_answered k
    by (auto simp: fund_inv_def on_status_def Let_def step_after_def BRIDGE_STEPS_def split: res.splits if_splits)
qed (use assms(1,2) in \<open>auto simp: fund_inv_def set_inputs_def fetchQuote_def on_quote_def form_shown_def start_shown_def startBridge_def
      leave_fund_def Let_def split: if_splits option.splits res.splits\<close>)

text \<open>
  C40: As long as the backend reports steps the screen knows, the form to start a transfer is shown only while no transfer
  is being initiated or watched, and at most one is being initiated.
\<close>

theorem one_bridge_at_a_time:
  assumes "fund_run es fund_mounted = Some s" "known_steps es"
  shows "length (fn_initiating s) \<le> 1 \<and> (start_shown s \<longrightarrow> fn_initiating s = [] \<and> fn_interval s = None \<and> fn_leaked s = [] \<and> fn_polls s = [])"
proof -
  have "fund_inv s'" if "fund_run es s = Some s'" "fund_inv s" "known_steps es" for s s'
    using that
  proof (induction es arbitrary: s)
    case (Cons e es)
    then obtain s1 where s1: "fund_step e s = Some s1" "fund_run es s1 = Some s'" by (auto simp: Option.bind_eq_Some_conv)
    have "fund_inv s1" by (rule fund_inv_step[OF Cons.prems(2) s1(1)]) (use Cons.prems(3) in \<open>auto simp: known_steps_def\<close>)
    then show ?case using Cons.IH[OF s1(2)] Cons.prems(3) by (simp add: known_steps_def)
  qed simp
  from this[OF assms(1) _ assms(2)] have "fund_inv s" by (simp add: fund_inv_def fund_mounted_def)
  then show ?thesis by (auto simp: fund_inv_def start_shown_def form_shown_def)
qed

definition sample_quote :: BridgeQuote where
  "sample_quote = \<lparr>bq_fee = ''1'', bq_receiveAmount = ''9'', bq_route = ''r'', bq_estimatedTime = Fin 120, bq_bridgeId = ''q1''\<rparr>"

theorem one_bridge_at_a_time_witness:
  "\<exists>s. fund_run [Type_amount ''9'', Quote_timer, Quote_answered 0 (Ret sample_quote), Start, Initiated 0 (Throw NonError)] fund_mounted = Some s
     \<and> start_shown s \<and> fn_initiating s = []"
proof -
  have u: "unsigned_decimal ''9'' = Some (9, [])" by code_simp
  have "parseFloat ''9'' = Fin 9" using parseFloat_unsigned[OF u] by (simp add: is_digit_def)
  then have a: "amount_positive ''9''" by (simp add: amount_positive_def)
  then obtain s where r: "fund_run [Type_amount ''9'', Quote_timer, Quote_answered 0 (Ret sample_quote), Start, Initiated 0 (Throw NonError)]
      fund_mounted = Some s" "start_shown s"
    by (auto simp: fund_mounted_def set_inputs_def fetchQuote_def on_quote_def form_shown_def start_shown_def startBridge_def
      without_def amount_positive_def Let_def num_le_def on_initiated_def)
  from one_bridge_at_a_time[OF r(1)] r show ?thesis by (simp add: known_steps_def)
qed

text \<open>
  A step it does not know reopens the form while the transfer is watched, so a second one can be started; its interval
  replaces the first in the reference, so nothing stops the polling of the first any more.
\<close>

theorem unknown_step_reopens_form:
  assumes "fn_interval s = Some i" "fn_polls s = [i]" "fn_initiating s = []" "fn_leaked s = []" "fn_mounted s" "\<not> fn_loadingQuote s" "fn_quote s = Some q" "4 \<le> bg_step d" "\<not> bg_completed d"
  shows "\<exists>s'. fund_run [Status_answered 0 (Ret d), Start, Initiated 0 (Ret j)] s = Some s' \<and> fn_interval s' = Some j \<and> fn_leaked s' = [i]
    \<and> fn_initiated s' = fn_initiated s @ [(fn_inputs s, bq_bridgeId q)]"
  using assms by (simp add: on_status_def step_after_def BRIDGE_STEPS_def form_shown_def start_shown_def startBridge_def without_def on_initiated_def)

text \<open>
  An answer is not matched to the inputs: when the amount changes while a quote is loading, the old quote is shown
  beside the new amount until the debounce has passed, and the transfer is started with the new amount under the old quote.
\<close>

theorem stale_quote_bridged:
  assumes "amount_positive a" "a \<noteq> b"
  shows "\<exists>s. fund_run [Type_amount a, Quote_timer, Type_amount b, Quote_answered 0 (Ret q), Start] fund_mounted = Some s
    \<and> fn_initiated s = [((''solana'', ''usdc'', b), bq_bridgeId q)]"
  using assms by (auto simp: fund_mounted_def set_inputs_def fetchQuote_def on_quote_def form_shown_def start_shown_def startBridge_def
      without_def amount_positive_def Let_def num_le_def)

text \<open>Pressing the network that is already chosen drops the quote, and no new one is asked for.\<close>

theorem reselect_drops_quote:
  "fn_quote (set_inputs (fn_inputs s) s) = None \<and> fn_timer (set_inputs (fn_inputs s) s) = fn_timer s"
  by (simp add: set_inputs_def)

text \<open>
  Polls overlap: the late answer to an earlier poll takes the success back, and since the polling has stopped the screen
  waits for ever.
\<close>

theorem late_status_undoes_success:
  assumes "fn_interval s = Some i" "fn_polls s = []" "bg_completed d" "\<not> bg_completed d'"
  shows "\<exists>s1 s2. fund_run [Poll_tick, Poll_tick, Status_answered 1 (Ret d)] s = Some s1 \<and> done_shown s1
    \<and> fund_run [Status_answered 0 (Ret d')] s1 = Some s2 \<and> \<not> done_shown s2 \<and> fn_interval s2 = None \<and> fn_polls s2 = []"
  using assms by (simp add: on_status_def done_shown_def without_def BRIDGE_STEPS_def)

text \<open>Leaving the screen while a transfer is being initiated starts a polling that nothing stops until the transfer is complete.\<close>

theorem polling_after_leaving:
  assumes "fn_initiating s = [x]" "fn_mounted s"
  shows "\<exists>s'. fund_run [Leave_screen, Initiated 0 (Ret i)] s = Some s' \<and> \<not> fn_mounted s' \<and> fn_interval s' = Some i"
  using assms by (simp add: leave_fund_def on_initiated_def without_def)

section \<open>Properties of the drawer\<close>

definition deposit_inv :: "deposit \<Rightarrow> bool" where
  "deposit_inv s \<longleftrightarrow> (\<forall>a \<in> set (dp_prompts s @ dp_confirms s). num_less (Fin 0) a)"

lemma deposit_inv_step:
  assumes "deposit_inv s" "deposit_step e s = Some s'"
  shows "deposit_inv s'"
proof (cases e)
  case (Prompt_answered k x)
  then have k: "k < length (dp_prompts s)" using assms(2) by (auto split: if_splits)
  then have "num_less (Fin 0) (dp_prompts s ! k)" using assms(1) by (simp add: deposit_inv_def)
  then show ?thesis using assms Prompt_answered k without_subset[of k "dp_prompts s"]
    by (cases x) (auto simp: start_deposit_def deposit_inv_def)
next
  case (Deposit_done k)
  then show ?thesis using assms without_subset[of k "dp_confirms s"] by (auto simp: deposit_inv_def split: if_splits)
qed (use assms in \<open>auto simp: handleAmountChange_def handleConfirm_def canConfirm_def start_deposit_def deposit_inv_def split: if_splits\<close>)

lemma deposit_inv_run: "deposit_run es s = Some s' \<Longrightarrow> deposit_inv s \<Longrightarrow> deposit_inv s'"
proof (induction es arbitrary: s)
  case (Cons e es)
  then obtain s1 where "deposit_step e s = Some s1" "deposit_run es s1 = Some s'" by (auto simp: Option.bind_eq_Some_conv)
  then show ?case using Cons.IH Cons.prems(2) deposit_inv_step by blast
qed simp

text \<open>Whatever is typed and pressed, an amount that is deposited is positive.\<close>

theorem deposits_positive:
  assumes "deposit_run es \<lparr>dp_depositAmount = [], dp_isProcessing = False, dp_enabled = b, dp_prompts = [], dp_confirms = []\<rparr> = Some s"
  shows "\<forall>a \<in> set (dp_prompts s @ dp_confirms s). num_less (Fin 0) a"
  using deposit_inv_run[OF assms] by (simp add: deposit_inv_def)

text \<open>The button stays live while the biometric prompt is up: two presses make two deposits.\<close>

theorem deposit_made_twice:
  assumes "canConfirm s" "dp_enabled s" "dp_prompts s = []" "dp_confirms s = []"
  shows "\<exists>s'. deposit_run [Confirm_pressed, Confirm_pressed, Prompt_answered 0 True, Prompt_answered 0 True] s = Some s'
    \<and> dp_confirms s' = [parsedAmount s, parsedAmount s]"
  using assms by (simp add: handleConfirm_def canConfirm_def parsedAmount_def start_deposit_def without_def)

end
