(* ===== verification/Spec2Isabelle.thy ===== *)
theory Spec2Isabelle
  imports Offline_Queue Retry Api_Client Transactions Contacts Biometric Wallet_Security Stellar_Wallet
    Deep_Links Dashboard_Session Dashboard_Api Payout_Csv Key_Rotation Transfer_Runs
    Freighter Audit_Log Vault_Safety Emergency_Pause Csv_Export Polling Transactions_Page Admin_Pages
    App_Shell Home_Yield Scan_Screens History_Screen Wallet_Screens Claim_Screen Mobile_Services Receipts
    Payouts_Page Payment_Dialog Username_Screen Fund_Screens
begin

text \<open>
  Zaps is a payment application on the Stellar network: a React Native app for payers and merchants
  (\<open>mobileapp/\<close>), a Next.js dashboard for administrators (\<open>dashboard/\<close>), shared biometric code
  (\<open>src/\<close>), a Rust backend and contracts.  This development models the TypeScript logic: what is
  computed, stored, sent and shown, and how concurrent activities interleave.

  \<^bold>\<open>Language.\<close>  \<open>Zaps_Prelude\<close>: an \<open>async\<close> function is a function from the world to a settled promise
  and the world it leaves; \<open>Throw\<close> is a rejection.  \<open>Js_Double\<close>, \<open>Js_Number\<close>, \<open>Js_Format\<close>: numbers are
  IEEE doubles, as rationals with every result rounded, with parsing and printing.  \<open>Js_String\<close>,
  \<open>Js_Uri\<close>: strings are the bytes of their UTF-8 encoding; trimming and case mapping cover ASCII;
  percent-encoding and query strings.  Where an operation is interrupted by an \<open>await\<close> and its
  interleaving with others matters, it is split into the parts that run without interruption, and
  a component is a step relation or a schedule over these parts.

  \<^bold>\<open>Interfaces.\<close>  Packages and services outside the repository are arguments of the definitions.  What
  the code relies on is stated in locales: \<open>kv_store\<close>, \<open>kv_net\<close>, \<open>two_stores\<close> and \<open>keychain\<close>
  (\<open>Platform\<close>; storage, HTTP, the keychain), \<open>offline_env\<close>, \<open>app_env\<close>, \<open>web_storage\<close>, \<open>seeded_wallet\<close> and
  \<open>wallet\<close> (the latter on a keychain that rejects nothing), \<open>transfer_env\<close>, \<open>pin_store\<close>, \<open>contact_backend\<close>, \<open>token_store\<close>, \<open>wallet_store\<close>, \<open>push_env\<close>, \<open>crash_env\<close>,
  \<open>name_store\<close>.  Each is interpreted on reference platforms (\<open>dev_*\<close>, \<open>mem_*\<close>, a browser).

  \<^bold>\<open>Components.\<close>
  \<open>Offline_Queue\<close> (\<open>services/offlineQueue.ts\<close>): the persisted queue and its flush engine; it refines an
  abstract specification of a flush, keeps the order, drains after enough flushes, keeps its
  invariant, and loses what is enqueued during a flush.
  \<open>Retry\<close> (\<open>utils/retry.ts\<close>): the outcome of a retried call is that of the first success or last attempt.
  \<open>Api_Client\<close> (\<open>services/api.ts\<close>): session, requests, username resolution, recipients, offline sending.
  \<open>Transactions\<close> (\<open>transactionService.ts\<close>, \<open>useTransactions.ts\<close>): caches, filters, cursor pagination (following
  the cursors yields the whole list) and the hook's requests.
  \<open>Contacts\<close> (\<open>contacts.ts\<close>): hashing under any interleaving, batches that do not show in the result.
  \<open>Biometric\<close> (\<open>biometricAuth.ts\<close>, \<open>useBiometric.ts\<close>): the prompt, the PIN and its five attempts, the hook.
  \<open>Wallet_Security\<close> (\<open>walletSecurity.ts\<close>): derivation, the keychain invariant whatever write is
  rejected, deletion, the clipboard.
  \<open>Stellar_Wallet\<close> (\<open>stellarWallet.ts\<close>): what a payment submits and that it hinges on the second
  argument of \<open>fromXDR\<close>, fee estimate, fee bump.
  \<open>Deep_Links\<close> (\<open>sep0007.ts\<close>, \<open>sdpDeepLink.ts\<close>, \<open>nfcTapToPay.ts\<close>): round trips and validity of links and codes.
  \<open>Dashboard_Session\<close> (\<open>lib/api.ts\<close>, \<open>auth-context.tsx\<close>, \<open>middleware.ts\<close>): tokens, single-flight refresh, guard.
  \<open>Dashboard_Api\<close> (\<open>lib/api.ts\<close>): the request of every call.
  \<open>Payout_Csv\<close> (\<open>payouts/page.tsx\<close>): validation and upload of disbursement files.
  \<open>Key_Rotation\<close> (\<open>app/biometric.tsx\<close>): rotation of the token slots keeps every token readable whatever fails,
  but hides the session from the API client; the account PIN, the overlay and the onboarding screen.
  \<open>Batch_Csv\<close>, \<open>Transfer_Screen\<close>, \<open>Transfer_Safety\<close>, \<open>Transfer_Runs\<close> (\<open>app/transfer.tsx\<close>): the transfer screen as a
  transition system over the requests of its handlers, composed of the components above: an invariant gates
  what is submitted, the confirmation names the recipient, a completed payment was taken by the network and heads the
  stored list, and runs show where a payment goes wrong.

  \<open>Freighter\<close> (\<open>lib/freighter.ts\<close>, \<open>wallet-context.tsx\<close>): the browser wallet: a visit without a recorded session leaves the
  extension alone, a wallet on show is recorded unless the store refuses, and what a late answer does to a disconnect.
  \<open>Vault\<close>, \<open>Vault_Safety\<close> (\<open>yield/page.tsx\<close>, \<open>VaultParamControls.tsx\<close>): the parameters of the yield vault: what is signed has been
  validated, the signed rate is capped, the index never decreases (over rounded doubles, by \<open>Js_Arith\<close>).
  \<open>Audit_Log\<close> (its audit tab): merging, sorting and paging the ledger.  \<open>Emergency_Pause\<close>: the double validation
  of a pause.  \<open>Admin_Pages\<close> (\<open>contracts/page.tsx\<close>): the fee form, the identity grid, blacklisting.
  \<open>Csv_Export\<close> (\<open>lib/utils.ts\<close> and its callers): files written are read back as they were, masks.
  \<open>Polling\<close> (\<open>use-polling.ts\<close>, \<open>notifications-context.tsx\<close>): the loop of a polled request, alerts shown once.
  \<open>Transactions_Page\<close> (\<open>transactions/page.tsx\<close>, \<open>SearchBar.tsx\<close>): the table, its footer, export and the searches.

  \<open>Notifications\<close> (\<open>notificationService.ts\<close>, \<open>useNotificationPreferences.ts\<close>): push registration, the soft ask, links.
  \<open>Home_Feed\<close>, \<open>Home_Yield\<close> (\<open>(personal)/home.tsx\<close>, \<open>socialService.ts\<close>, \<open>balanceDisplay.ts\<close>, with \<open>Js_Locale\<close> for \<open>toLocaleString\<close>):
  likes and comments that never drift from the backend, balances, auto-earn and the yield chart.
  \<open>App_Shell\<close> (\<open>_layout.tsx\<close>, \<open>useNetworkStatus.ts\<close>, \<open>useDebounce.ts\<close>, \<open>Toast.tsx\<close>, \<open>ThemeProvider.tsx\<close>): start, version gate,
  connectivity, toasts, theme.  \<open>Scan_Screens\<close> (\<open>scan.tsx\<close>, \<open>tap-to-pay.tsx\<close>): what a code previews; tapping never reads a tag.
  \<open>History_Screen\<close> (\<open>history.tsx\<close>, \<open>TransactionFilterSheet.tsx\<close>): days, search, filters, speeding up a payment.
  \<open>Wallet_Screens\<close> (\<open>mnemonic-backup.tsx\<close>, \<open>wallet-recovery.tsx\<close>, \<open>PrivySocialButtons.tsx\<close>): the quiz on the phrase, what
  a backup restores.  \<open>Claim_Screen\<close> (\<open>sdpService.ts\<close>, \<open>claim/[token].tsx\<close>): validating a disbursement link.
  \<open>Mobile_Services\<close> (\<open>crashReporter.ts\<close>, \<open>avatarService.ts\<close>): the bounded queue of reports, uploads.
  \<open>Receipts\<close> (\<open>transaction/[id].tsx\<close>, \<open>transaction/batch/[id].tsx\<close>, \<open>receiptGenerator.ts\<close>, \<open>formatting.ts\<close>): the detail
  screens, the receipt that reads back unless a memo holds a line break, durations, the stages of a batch.
  \<open>Payouts_Page\<close> (the rest of \<open>payouts/page.tsx\<close>): amounts below \<open>2 ^ 32\<close> in millionths that read back as typed, totals, and the retries of
  a batch's rows, distinct until a poll comes in between.  \<open>Payment_Dialog\<close> (\<open>PaymentDetailDialog.tsx\<close>): what is shown of
  an XDR text is plain data of bounded height; the dialog shows the payments of its user.
  \<open>Username_Screen\<close> (\<open>username.tsx\<close>): the format of names, and why the availability check is never made.
  \<open>Fund_Screens\<close> (\<open>fund.tsx\<close>, \<open>yield-transaction.tsx\<close>): one bridge transfer at a time, stale quotes, the deposit drawer.

  \<^bold>\<open>Bounds and fuel.\<close>  Loops are structural or have measures; \<open>Contacts.match_loop\<close> takes fuel because a batch
  size that is not positive makes the code loop for ever; one unit more than there are hashes is
  enough for a positive one, which is proved.  Bounds such as \<open>2 ^ 53\<close> are those of exact doubles.

  \<^bold>\<open>Not modelled.\<close>  Rendering, styling, navigation, console output, static text; the backend and contracts,
  which are in other languages.  Also left out: the merchant's screens and the
  returning user's, which are forms over their own state and navigation; the overview, analytics and QR pages of the
  dashboard and its command palette, which show what the API answers (its requests are in \<open>Dashboard_Api\<close>, the export and
  the user search of the overview in \<open>Csv_Export\<close> and \<open>Transactions_Page\<close>).
\<close>

end
